(* ===== verification/Prelude.thy ===== *)
theory Prelude
  imports Main "HOL-Library.AList" "HOL-Library.Char_ord" "HOL-Library.List_Lexorder"
begin

section \<open>Shared vocabulary of the development\<close>

text \<open>
  What every component model uses of Python: exceptions as values (\<open>py_error\<close> and the result
  type \<open>'a res\<close>), insertion-ordered dictionaries as association lists with distinct keys
  (\<^const>\<open>AList.update\<close> keeps the position of a key it overwrites and appends a new one, as
  \<^verbatim>\<open>dict\<close> does), \<^verbatim>\<open>max\<close> and \<^verbatim>\<open>sorted\<close> with a key function (the first of several maximal elements wins,
  sorting is stable), truthiness of optional strings, and the generic lemmas about them.

  Strings are \<^typ>\<open>string\<close> with the lexicographic order of the character codes, which is how Python
  compares \<^verbatim>\<open>str\<close> values over the ASCII range the records use.
\<close>

named_theorems py_defs \<open>unfolding equations of the small Python-level definitions\<close>
named_theorems log_simps \<open>equations of the log-level operations\<close>
named_theorems fold_simps \<open>what folding a log by id gives\<close>
named_theorems inv_intros \<open>preservation of component invariants\<close>

subsection \<open>Exceptions as values\<close>

text \<open>
  One constructor per exception class the modelled code raises. The string is the key of a
  \<^verbatim>\<open>KeyError\<close> or the fixed part of the message; interpolated values are not repeated in it.
\<close>

datatype py_error =
    ValueError string
  | KeyError string
  | TypeError
  | IndexError
  | ValidationError string
  | DurableStoreError string
  | CompactionOwnerError string
  | UnsafeLockFilesystemError string
  | CheckoutCoordinationError string
  | StructuralRoutingError string
  | LifecycleError string
  | GuardedStartError string
  | SaveGateRequired string
  | OverflowError
  | RuntimeError string
  | OperationCancelled
  | MasterSyncError string
  | LedgerError string
  | AttributeError
  | LifecycleVocabularyError string
  | HarnessControlError string
  | HarnessRequestConflictError string
  | HarnessInteractionNotPendingError string
  | HarnessBridgeEpochMismatchError string string

type_synonym 'a res = "py_error + 'a"

definition rbind :: "'a res \<Rightarrow> ('a \<Rightarrow> 'b res) \<Rightarrow> 'b res" where
  "rbind m f = (case m of Inl e \<Rightarrow> Inl e | Inr x \<Rightarrow> f x)"

lemma rbind_simps [simp]: "rbind (Inl e) f = Inl e" "rbind (Inr x) f = f x"
  by (simp_all add: rbind_def)

lemma rbind_assoc: "rbind (rbind m f) g = rbind m (\<lambda>x. rbind (f x) g)"
  by (cases m) simp_all

lemma rbind_eq_Inr: "rbind m f = Inr y \<longleftrightarrow> (\<exists>x. m = Inr x \<and> f x = Inr y)"
  by (cases m) simp_all

text \<open>A loop that stops at the first exception.\<close>

fun rmap :: "('a \<Rightarrow> 'b res) \<Rightarrow> 'a list \<Rightarrow> 'b list res" where
  "rmap f [] = Inr []"
| "rmap f (x # xs) = rbind (f x) (\<lambda>y. rbind (rmap f xs) (\<lambda>ys. Inr (y # ys)))"

lemma rmap_append:
  "rmap f (xs @ ys) = rbind (rmap f xs) (\<lambda>as. rbind (rmap f ys) (\<lambda>bs. Inr (as @ bs)))"
proof (induction xs)
  case Nil
  show ?case by (cases "rmap f ys") simp_all
next
  case (Cons x xs)
  then show ?case
    by (cases "f x"; cases "rmap f xs"; cases "rmap f ys") simp_all
qed

lemma rmap_eq_Inr: "rmap f xs = Inr ys \<longleftrightarrow> list_all2 (\<lambda>x y. f x = Inr y) xs ys"
  by (induction xs arbitrary: ys) (auto simp: rbind_eq_Inr list_all2_Cons1)

lemma rmap_Inr_map: "rmap (\<lambda>x. Inr (f x)) xs = Inr (map f xs)"
  by (induction xs) simp_all

text \<open>A list comprehension whose condition may raise.\<close>

fun rfilter :: "('a \<Rightarrow> bool res) \<Rightarrow> 'a list \<Rightarrow> 'a list res" where
  "rfilter P [] = Inr []"
| "rfilter P (x # xs) = rbind (P x) (\<lambda>b. rbind (rfilter P xs) (\<lambda>ys. Inr (if b then x # ys else ys)))"

lemma rfilter_Inr:
  "rfilter P xs = Inr ys \<Longrightarrow> ys = filter (\<lambda>x. P x = Inr True) xs \<and> (\<forall>x\<in>set xs. \<exists>b. P x = Inr b)"
  by (induction xs arbitrary: ys) (auto simp: rbind_eq_Inr)

lemma rfilter_total:
  "(\<And>x. x \<in> set xs \<Longrightarrow> P x = Inr (Q x)) \<Longrightarrow> rfilter P xs = Inr (filter Q xs)"
  by (induction xs) simp_all

text \<open>\<^verbatim>\<open>any(...)\<close> over a condition that may raise: stops at the first true one.\<close>

fun rany :: "('a \<Rightarrow> bool res) \<Rightarrow> 'a list \<Rightarrow> bool res" where
  "rany P [] = Inr False"
| "rany P (x # xs) = rbind (P x) (\<lambda>b. if b then Inr True else rany P xs)"

lemma rany_True: "rany P xs = Inr True \<Longrightarrow> \<exists>x\<in>set xs. P x = Inr True"
  by (induction xs) (auto simp: rbind_eq_Inr split: if_splits)

lemma rany_total: "(\<And>x. x \<in> set xs \<Longrightarrow> P x = Inr (Q x)) \<Longrightarrow> rany P xs = Inr (\<exists>x\<in>set xs. Q x)"
  by (induction xs) auto

lemma length_filter_eq: "length (filter Q xs) = length xs \<longleftrightarrow> (\<forall>x\<in>set xs. Q x)"
  using length_filter_less [of _ xs Q] by (auto simp: filter_id_conv [THEN iffD2]) fastforce

subsection \<open>Programs with state\<close>

text \<open>
  A method that changes a store is a function from the state to its result and the state it leaves
  behind. An exception keeps what was written before it, as the files do.
\<close>

type_synonym ('s, 'a) prog = "'s \<Rightarrow> 'a res \<times> 's"

definition sret :: "'a \<Rightarrow> ('s, 'a) prog" where
  [py_defs]: "sret x s = (Inr x, s)"

definition slift :: "'a res \<Rightarrow> ('s, 'a) prog" where
  [py_defs]: "slift r s = (r, s)"

definition sget :: "('s \<Rightarrow> 'a res) \<Rightarrow> ('s, 'a) prog" where
  [py_defs]: "sget f s = (f s, s)"

definition smodify :: "('s \<Rightarrow> 's) \<Rightarrow> ('s, unit) prog" where
  [py_defs]: "smodify f s = (Inr (), f s)"

definition sbind :: "('s, 'a) prog \<Rightarrow> ('a \<Rightarrow> ('s, 'b) prog) \<Rightarrow> ('s, 'b) prog" where
  "sbind m f s = (case m s of (Inl e, s') \<Rightarrow> (Inl e, s') | (Inr x, s') \<Rightarrow> f x s')"

lemma sbind_sret [simp]: "sbind (sret x) f = f x"
  by (rule ext) (simp add: sbind_def sret_def)

lemma sbind_slift [simp]:
  "sbind (slift (Inr x)) f = f x" "sbind (slift (Inl e)) f s = (Inl e, s)"
  by (rule ext, simp_all add: sbind_def slift_def) 

lemma sbind_Inr: "m s = (Inr x, s') \<Longrightarrow> sbind m f s = f x s'"
  by (simp add: sbind_def)

lemma sbind_Inl: "m s = (Inl e, s') \<Longrightarrow> sbind m f s = (Inl e, s')"
  by (simp add: sbind_def)

lemma sbind_sget: "sbind (sget g) f s = (case g s of Inl e \<Rightarrow> (Inl e, s) | Inr x \<Rightarrow> f x s)"
  by (simp add: sbind_def sget_def split: sum.splits)

lemma sbind_eq_Inr:
  "sbind m f s = (Inr y, t) \<longleftrightarrow> (\<exists>x s'. m s = (Inr x, s') \<and> f x s' = (Inr y, t))"
  by (cases "m s"; cases "fst (m s)") (auto simp: sbind_def)

lemma sbind_smodify [simp]: "sbind (smodify g) f s = f () (g s)"
  by (simp add: sbind_def smodify_def)

lemma sbind_if: "sbind (if b then m else n) f s = (if b then sbind m f s else sbind n f s)"
  by simp

lemma sbind_assoc: "sbind (sbind m f) g = sbind m (\<lambda>x. sbind (f x) g)"
  by (rule ext) (simp add: sbind_def split: prod.splits sum.splits)

lemma sret_eq [simp]: "sret x s = (r, s') \<longleftrightarrow> r = Inr x \<and> s' = s"
  by (auto simp: sret_def)

lemma smodify_eq [simp]: "smodify g s = (r, s') \<longleftrightarrow> r = Inr () \<and> s' = g s"
  by (auto simp: smodify_def)

lemma slift_eq [simp]: "slift r s = (r', s') \<longleftrightarrow> r = r' \<and> s' = s"
  by (auto simp: slift_def)

lemma sget_eq [simp]: "sget g s = (r, s') \<longleftrightarrow> g s = r \<and> s' = s"
  by (auto simp: sget_def)

text \<open>Running a program on one component of a larger state.\<close>

definition zoom :: "('t \<Rightarrow> 's) \<Rightarrow> ('s \<Rightarrow> 't \<Rightarrow> 't) \<Rightarrow> ('s, 'a) prog \<Rightarrow> ('t, 'a) prog" where
  "zoom get_part put_part m t = (case m (get_part t) of (r, s') \<Rightarrow> (r, put_part s' t))"

lemma zoom_eq_Inr:
  "zoom g pt m t = (Inr x, t') \<longleftrightarrow> (\<exists>s'. m (g t) = (Inr x, s') \<and> t' = pt s' t)"
  by (auto simp: zoom_def split: prod.splits)

subsection \<open>JSON values\<close>

text \<open>What \<^verbatim>\<open>dict[str, Any]\<close> payloads hold. Numbers are integers: nothing modelled reads a float payload.\<close>

datatype json =
    JNull
  | JBool bool
  | JNum int
  | JStr string
  | JList "json list"
  | JObj "(string \<times> json) list"

type_synonym json_object = "(string \<times> json) list"

text \<open>\<^verbatim>\<open>bool(value)\<close> of a payload value.\<close>

fun json_truthy :: "json \<Rightarrow> bool" where
  "json_truthy JNull = False"
| "json_truthy (JBool b) = b"
| "json_truthy (JNum n) = (n \<noteq> 0)"
| "json_truthy (JStr s) = (s \<noteq> '''')"
| "json_truthy (JList xs) = (xs \<noteq> [])"
| "json_truthy (JObj kvs) = (kvs \<noteq> [])"

subsection \<open>Optional values and truthiness\<close>

text \<open>\<^verbatim>\<open>a or b\<close> on optional strings: \<^verbatim>\<open>None\<close> and the empty string are false.\<close>

fun truthy :: "string option \<Rightarrow> bool" where
  "truthy None = False"
| "truthy (Some s) = (s \<noteq> '''')"

definition str_or :: "string option \<Rightarrow> string option \<Rightarrow> string option" where
  [py_defs]: "str_or a b = (if truthy a then a else b)"

text \<open>\<^verbatim>\<open>a or b\<close> on optional values of a type without a false member (a non-empty literal).\<close>

definition lit_or :: "'a option \<Rightarrow> 'a option \<Rightarrow> 'a option" where
  [py_defs]: "lit_or a b = (case a of None \<Rightarrow> b | Some x \<Rightarrow> Some x)"

subsection \<open>Whitespace and digits\<close>

text \<open>\<^verbatim>\<open>str.strip()\<close> and \<^verbatim>\<open>str.isdigit()\<close> on ASCII text.\<close>

definition is_space :: "char \<Rightarrow> bool" where
  "is_space c = (let n = (of_char c :: nat) in n = 32 \<or> (9 \<le> n \<and> n \<le> 13) \<or> (28 \<le> n \<and> n \<le> 31))"

definition strip :: "string \<Rightarrow> string" where
  "strip s = rev (dropWhile is_space (rev (dropWhile is_space s)))"

definition is_digit_char :: "char \<Rightarrow> bool" where
  "is_digit_char c = (let n = (of_char c :: nat) in 48 \<le> n \<and> n \<le> 57)"

definition isdigit :: "string \<Rightarrow> bool" where
  "isdigit s \<longleftrightarrow> s \<noteq> '''' \<and> list_all is_digit_char s"

definition int_of_digits :: "string \<Rightarrow> int" where
  "int_of_digits s = foldl (\<lambda>n c. 10 * n + (int (of_char c) - 48)) 0 s"

text \<open>\<^verbatim>\<open>str.partition(sep)\<close> for a one-character separator: head, whether it was found, tail.\<close>

definition partition_at :: "char \<Rightarrow> string \<Rightarrow> string \<times> string" where
  "partition_at c s = (takeWhile (\<lambda>x. x \<noteq> c) s, drop 1 (dropWhile (\<lambda>x. x \<noteq> c) s))"

subsection \<open>Dictionaries\<close>

type_synonym ('k, 'v) dict = "('k \<times> 'v) list"

abbreviation dict_ok :: "('k, 'v) dict \<Rightarrow> bool" where
  "dict_ok d \<equiv> distinct (map fst d)"

abbreviation dget :: "('k, 'v) dict \<Rightarrow> 'k \<Rightarrow> 'v option" where
  "dget d k \<equiv> map_of d k"

abbreviation dvalues :: "('k, 'v) dict \<Rightarrow> 'v list" where
  "dvalues d \<equiv> map snd d"

abbreviation dput :: "'k \<Rightarrow> 'v \<Rightarrow> ('k, 'v) dict \<Rightarrow> ('k, 'v) dict" where
  "dput k v d \<equiv> AList.update k v d"

lemma dget_dput [simp]: "dget (dput k v d) k' = (if k' = k then Some v else dget d k')"
  by (simp add: update_conv')

lemma dict_ok_dput [intro]: "dict_ok d \<Longrightarrow> dict_ok (dput k v d)"
  by (rule distinct_update)

lemma dput_members:
  assumes "dict_ok d"
  shows "(k, v) \<in> set (dput j x d) \<longleftrightarrow> (if k = j then v = x else (k, v) \<in> set d)"
proof -
  have "(k, v) \<in> set (dput j x d) \<longleftrightarrow> dget (dput j x d) k = Some v"
    by (rule map_of_eq_Some_iff [OF dict_ok_dput [OF assms], symmetric])
  also have "\<dots> \<longleftrightarrow> (if k = j then v = x else dget d k = Some v)" by auto
  also have "\<dots> \<longleftrightarrow> (if k = j then v = x else (k, v) \<in> set d)"
    using map_of_eq_Some_iff [OF assms] by simp
  finally show ?thesis .
qed

lemma dict_ok_value_iff:
  "dict_ok d \<Longrightarrow> v \<in> set (dvalues d) \<longleftrightarrow> (\<exists>k. dget d k = Some v)"
  by (force simp: map_of_eq_Some_iff)

lemma dict_ok_filter [intro]: "dict_ok d \<Longrightarrow> dict_ok (filter P d)"
  by (induction d) auto

lemma dget_filter: "dget (filter (\<lambda>kv. fst kv \<in> K) d) k = (if k \<in> K then dget d k else None)"
  by (induction d) auto

text \<open>The last-wins fold \<^verbatim>\<open>for r in records: latest[r.id] = r\<close> every store uses.\<close>

definition fold_by :: "('r \<Rightarrow> 'k) \<Rightarrow> 'r list \<Rightarrow> ('k, 'r) dict" where
  "fold_by key rs = foldl (\<lambda>d r. dput (key r) r d) [] rs"

lemma fold_by_Nil [simp, fold_simps]: "fold_by key [] = []"
  by (simp add: fold_by_def)

lemma fold_by_snoc [simp, fold_simps]:
  "fold_by key (rs @ [r]) = dput (key r) r (fold_by key rs)"
  by (simp add: fold_by_def)

lemma dict_ok_fold_by [simp, intro]: "dict_ok (fold_by key rs)"
  by (induction rs rule: rev_induct) (simp_all add: distinct_update)

text \<open>The fold maps an id to the last record of the log that carries it.\<close>

fun last_with :: "('r \<Rightarrow> bool) \<Rightarrow> 'r list \<Rightarrow> 'r option" where
  "last_with P [] = None"
| "last_with P (r # rs) = (case last_with P rs of Some x \<Rightarrow> Some x | None \<Rightarrow> if P r then Some r else None)"

lemma last_with_append:
  "last_with P (rs @ ss) = (case last_with P ss of Some x \<Rightarrow> Some x | None \<Rightarrow> last_with P rs)"
  by (induction rs) (auto split: option.splits)

lemma last_with_snoc [simp]: "last_with P (rs @ [r]) = (if P r then Some r else last_with P rs)"
  by (simp add: last_with_append)

lemma last_with_Some: "last_with P rs = Some r \<Longrightarrow> r \<in> set rs \<and> P r"
  by (induction rs) (auto split: option.splits if_splits)

lemma last_with_None: "last_with P rs = None \<longleftrightarrow> (\<forall>r\<in>set rs. \<not> P r)"
  by (induction rs) (auto split: option.splits)

lemma last_with_filter:
  assumes "\<And>r. r \<in> set rs \<Longrightarrow> P r \<Longrightarrow> Q r"
  shows "last_with P (filter Q rs) = last_with P rs"
  using assms
proof (induction rs rule: rev_induct)
  case Nil
  then show ?case by simp
next
  case (snoc r rs)
  then show ?case by (cases "P r") auto
qed

lemma fold_by_get [fold_simps]: "dget (fold_by key rs) k = last_with (\<lambda>r. key r = k) rs"
  by (induction rs rule: rev_induct) auto

lemma fold_by_key: "dget (fold_by key rs) k = Some r \<Longrightarrow> key r = k \<and> r \<in> set rs"
  by (auto simp: fold_by_get dest: last_with_Some)

lemma fold_by_dom: "set (map fst (fold_by key rs)) = key ` set rs"
  by (induction rs rule: rev_induct) (auto simp: dom_update)

lemma fold_by_the_key:
  assumes "k \<in> set (map fst (fold_by key rs))"
  obtains r where "dget (fold_by key rs) k = Some r" "key r = k" "r \<in> set rs"
proof -
  from assms have "dget (fold_by key rs) k \<noteq> None" by (simp add: map_of_eq_None_iff)
  then show thesis using fold_by_key that by fastforce
qed

lemma fold_by_the:
  "k \<in> fst ` set (fold_by key rs) \<Longrightarrow> key (the (dget (fold_by key rs) k)) = k \<and> the (dget (fold_by key rs) k) \<in> set rs"
  by (metis fold_by_the_key list.set_map option.sel)

lemma fold_by_values:
  "r \<in> set (dvalues (fold_by key rs)) \<longleftrightarrow> dget (fold_by key rs) (key r) = Some r"
proof -
  have "r \<in> set (dvalues (fold_by key rs)) \<longleftrightarrow> (\<exists>k. dget (fold_by key rs) k = Some r)"
    by (rule dict_ok_value_iff) (rule dict_ok_fold_by)
  then show ?thesis by (metis fold_by_key)
qed

lemma fold_by_filter_get:
  assumes "\<And>r. r \<in> set rs \<Longrightarrow> key r = k \<Longrightarrow> Q r"
  shows "dget (fold_by key (filter Q rs)) k = dget (fold_by key rs) k"
  using assms by (simp add: fold_by_get last_with_filter)

lemma fold_by_append_other:
  assumes "\<And>s. s \<in> set ss \<Longrightarrow> key s \<noteq> k"
  shows "dget (fold_by key (rs @ ss)) k = dget (fold_by key rs) k"
proof -
  have "last_with (\<lambda>r. key r = k) ss = None"
    using assms by (auto simp: last_with_None)
  then show ?thesis by (simp add: fold_by_get last_with_append)
qed

lemma update_nonkey_dict: "k \<notin> fst ` set d \<Longrightarrow> dput k v d = d @ [(k, v)]"
  by (induction d) auto

text \<open>Folding the values of a fold gives it back: compacting to one snapshot per id loses nothing.\<close>

lemma fold_by_values_id:
  assumes "dict_ok d" "\<forall>(k, v)\<in>set d. key v = k"
  shows "fold_by key (dvalues d) = d"
  using assms
proof (induction d rule: rev_induct)
  case Nil
  show ?case by simp
next
  case (snoc kv d)
  obtain k v where kv: "kv = (k, v)" by fastforce
  from snoc.prems have "k \<notin> fst ` set d" "key v = k" by (auto simp: kv)
  moreover have "fold_by key (dvalues d) = d" using snoc by simp
  ultimately show ?case by (simp add: kv update_nonkey_dict)
qed

lemma fold_by_keyed: "(k, v) \<in> set (fold_by key rs) \<Longrightarrow> key v = k"
  using fold_by_key [of key rs k v] by simp

lemma length_fold_by: "length (fold_by key rs) \<le> length rs"
proof -
  have "length (fold_by key rs) = card (set (map fst (fold_by key rs)))"
    using distinct_card [of "map fst (fold_by key rs)"] by simp
  also have "\<dots> \<le> length rs"
    using card_image_le [of "set rs" key] card_length [of rs]
    unfolding fold_by_dom by (simp add: order_trans)
  finally show ?thesis .
qed

subsection \<open>max and sorted with a key\<close>

text \<open>\<^verbatim>\<open>max(xs, key=f, default=None)\<close>: the first element whose key no later one exceeds.\<close>

fun max_by :: "('a \<Rightarrow> 'k::linorder) \<Rightarrow> 'a list \<Rightarrow> 'a option" where
  "max_by f [] = None"
| "max_by f (x # xs) = Some (foldl (\<lambda>m y. if f m < f y then y else m) x xs)"

lemma foldl_max_in:
  "foldl (\<lambda>m y. if f m < f y then y else m) x xs \<in> insert x (set xs)"
  for f :: "'a \<Rightarrow> 'k::linorder"
  by (induction xs arbitrary: x) auto

lemma foldl_max_ge:
  "f x \<le> f (foldl (\<lambda>m y. if f m < f y then y else m) x xs) \<and>
   (\<forall>y\<in>set xs. f y \<le> f (foldl (\<lambda>m y. if f m < f y then y else m) x xs))"
  for f :: "'a \<Rightarrow> 'k::linorder"
proof (induction xs arbitrary: x)
  case Nil
  show ?case by simp
next
  case (Cons a xs)
  show ?case using Cons.IH [of a] Cons.IH [of x] by (cases "f x < f a") auto
qed

lemma max_by_in: "max_by f xs = Some m \<Longrightarrow> m \<in> set xs"
  using foldl_max_in by (cases xs) fastforce+

lemma max_by_ge: "max_by f xs = Some m \<Longrightarrow> x \<in> set xs \<Longrightarrow> f x \<le> f m"
  using foldl_max_ge by (cases xs) fastforce+

lemma max_by_None [simp]: "max_by f xs = None \<longleftrightarrow> xs = []"
  by (cases xs) simp_all

lemma max_by_snoc:
  "max_by f (xs @ [y]) = Some (case max_by f xs of None \<Rightarrow> y | Some m \<Rightarrow> if f m < f y then y else m)"
  by (cases xs) simp_all

lemma max_by_filter:
  assumes "max_by f xs = Some m" "P m"
  shows "max_by f (filter P xs) = Some m"
  using assms
proof (induction xs rule: rev_induct)
  case (snoc y ys)
  show ?case
  proof (cases "max_by f ys = Some m")
    case True
    with snoc show ?thesis by (auto simp: max_by_snoc split: if_splits)
  next
    case False
    then have m: "m = y" and less: "max_by f ys = Some m' \<Longrightarrow> f m' < f y" for m'
      using snoc.prems(1) by (auto simp: max_by_snoc split: if_splits option.splits)
    have "f m' < f y" if "max_by f (filter P ys) = Some m'" for m'
    proof -
      from max_by_in [OF that] have mem: "m' \<in> set ys" by simp
      then obtain o' where o': "max_by f ys = Some o'" by (cases "max_by f ys") auto
      with less max_by_ge [OF o' mem] show ?thesis by fastforce
    qed
    with m snoc.prems(2) show ?thesis by (auto simp: max_by_snoc split: option.splits)
  qed
qed simp

text \<open>\<^verbatim>\<open>sorted(xs, key=f)\<close> is the stable \<^const>\<open>sort_key\<close>; with \<^verbatim>\<open>reverse=True\<close> equal keys still keep their order.\<close>

definition sort_key_desc :: "('a \<Rightarrow> 'k::linorder) \<Rightarrow> 'a list \<Rightarrow> 'a list" where
  "sort_key_desc f xs = rev (sort_key f (rev xs))"

lemma set_sort_key_desc [simp]: "set (sort_key_desc f xs) = set xs"
  by (simp add: sort_key_desc_def)

lemma length_sort_key_desc [simp]: "length (sort_key_desc f xs) = length xs"
  by (simp add: sort_key_desc_def)

lemma sorted_sort_key_desc: "sorted_wrt (\<lambda>a b. f b \<le> f a) (sort_key_desc f xs)"
proof -
  have "sorted_wrt (\<lambda>a b. f a \<le> f b) (sort_key f (rev xs))"
    using sorted_sort_key [of f "rev xs"] by (simp add: sorted_map)
  then show ?thesis by (simp add: sort_key_desc_def sorted_wrt_rev)
qed

subsection \<open>Facts that every step keeps\<close>

text \<open>
  The interface between a component's step relation and what its clients rely on: one step keeps
  \<open>I\<close>, so every run does.
\<close>

locale step_invariant =
  fixes step :: "'s \<Rightarrow> 's \<Rightarrow> bool"
    and I :: "'s \<Rightarrow> bool"
  assumes step_keeps: "step s s' \<Longrightarrow> I s \<Longrightarrow> I s'"
begin

lemma run_keeps: "step\<^sup>*\<^sup>* s s' \<Longrightarrow> I s \<Longrightarrow> I s'"
  by (induction rule: rtranclp_induct) (auto intro: step_keeps)

end

end
