(* ===== verification/Gate_Vocab.thy ===== *)
theory Gate_Vocab
  imports Prelude
begin

section \<open>Gate vocabulary and delegation policy\<close>

text \<open>
  \<^verbatim>\<open>kernel/primitives/gate_vocab.py\<close> and \<^verbatim>\<open>kernel/primitives/gate_policy.py\<close>: the gate kinds and states,
  the per-kind delegation rule, the validated policy \<^verbatim>\<open>make_gate_policy\<close> builds, the built-in policies
  and the seam-verdict switch. The string literals of the source are constructors;
  \<open>gate_kind_str\<close> gives the literal back, and kinds are ordered by it, as \<^verbatim>\<open>sorted\<close> orders them.
\<close>

datatype gate_kind =
    PlanApproval
  | WorktreeIntent
  | CloseoutApproval
  | PushApproval
  | IntegrationApproval
  | MasterHandoverApproval
  | CleanupApproval
  | AgentQuestion
  | ProviderRetry
  | AlarmAck

datatype gate_state = Open | Approved | Rejected | RevisionRequested | Applied | Cancelled | Expired

fun gate_kind_str :: "gate_kind \<Rightarrow> string" where
  "gate_kind_str PlanApproval = ''plan-approval''"
| "gate_kind_str WorktreeIntent = ''worktree-intent''"
| "gate_kind_str CloseoutApproval = ''closeout-approval''"
| "gate_kind_str PushApproval = ''push-approval''"
| "gate_kind_str IntegrationApproval = ''integration-approval''"
| "gate_kind_str MasterHandoverApproval = ''master-handover-approval''"
| "gate_kind_str CleanupApproval = ''cleanup-approval''"
| "gate_kind_str AgentQuestion = ''agent-question''"
| "gate_kind_str ProviderRetry = ''provider-retry''"
| "gate_kind_str AlarmAck = ''alarm-ack''"

lemma gate_kind_str_inj: "gate_kind_str a = gate_kind_str b \<Longrightarrow> a = b"
  by (cases a; cases b) simp_all

instantiation gate_kind :: linorder
begin

definition less_eq_gate_kind :: "gate_kind \<Rightarrow> gate_kind \<Rightarrow> bool" where
  "a \<le> b \<longleftrightarrow> gate_kind_str a \<le> gate_kind_str b"

definition less_gate_kind :: "gate_kind \<Rightarrow> gate_kind \<Rightarrow> bool" where
  "a < b \<longleftrightarrow> gate_kind_str a < gate_kind_str b"

instance
  by standard
    (auto simp: less_eq_gate_kind_def less_gate_kind_def intro: gate_kind_str_inj)

end

definition GATE_KINDS :: "gate_kind list" where
  "GATE_KINDS =
     [PlanApproval, WorktreeIntent, CloseoutApproval, PushApproval, IntegrationApproval,
      MasterHandoverApproval, CleanupApproval, AgentQuestion, ProviderRetry, AlarmAck]"

definition coerce_gate_kind :: "string \<Rightarrow> gate_kind res" where
  "coerce_gate_kind raw =
     (case find (\<lambda>k. gate_kind_str k = raw) GATE_KINDS of
        None \<Rightarrow> Inl (ValueError ''unknown gate kind'')
      | Some k \<Rightarrow> Inr k)"

datatype decision_role = Human | Manager | Orchestrator

fun decision_role_str :: "decision_role \<Rightarrow> string" where
  "decision_role_str Human = ''human''"
| "decision_role_str Manager = ''manager''"
| "decision_role_str Orchestrator = ''orchestrator''"

definition DECISION_ROLES :: "decision_role list" where
  "DECISION_ROLES = [Human, Manager, Orchestrator]"

definition HUMAN_DECIDER :: string where
  "HUMAN_DECIDER = ''developer''"

definition HUMAN_PINNED_GATE_KINDS :: "gate_kind list" where
  "HUMAN_PINNED_GATE_KINDS = [IntegrationApproval, PushApproval, CleanupApproval]"

definition DELEGABLE_GATE_KINDS :: "gate_kind list" where
  "DELEGABLE_GATE_KINDS = [PlanApproval, CloseoutApproval, MasterHandoverApproval]"

definition SEAM_GATE_KINDS :: "gate_kind list" where
  "SEAM_GATE_KINDS = [MasterHandoverApproval]"

record gate_policy_rule =
  rule_kind :: gate_kind
  delegated_role :: "decision_role option"
  require_reviewer_verdict :: bool

definition allows_role :: "gate_policy_rule \<Rightarrow> decision_role \<Rightarrow> bool" where
  "allows_role rule role \<longleftrightarrow> role = Human \<or> delegated_role rule = Some role"

record gate_policy =
  rules :: "gate_policy_rule list"

definition default_rule :: "gate_kind \<Rightarrow> gate_policy_rule" where
  "default_rule k = \<lparr>rule_kind = k, delegated_role = None, require_reviewer_verdict = False\<rparr>"

definition rule_for :: "gate_policy \<Rightarrow> gate_kind \<Rightarrow> gate_policy_rule" where
  "rule_for p k = (case find (\<lambda>r. rule_kind r = k) (rules p) of None \<Rightarrow> default_rule k | Some r \<Rightarrow> r)"

definition DEFAULT_GATE_POLICY :: gate_policy where
  "DEFAULT_GATE_POLICY = \<lparr>rules = []\<rparr>"

definition coerce_decision_role :: "string \<Rightarrow> decision_role res" where
  "coerce_decision_role raw =
     (case find (\<lambda>r. decision_role_str r = raw) DECISION_ROLES of
        None \<Rightarrow> Inl (ValueError ''unknown decision role'')
      | Some r \<Rightarrow> Inr r)"

text \<open>The body of the loop of \<^verbatim>\<open>make_gate_policy\<close>: normalise one rule, refuse what may not be delegated.\<close>

definition normalize_rule :: "gate_policy_rule \<Rightarrow> gate_policy_rule" where
  "normalize_rule rule = (if delegated_role rule = Some Human then rule\<lparr>delegated_role := None\<rparr> else rule)"

definition check_rule :: "gate_policy_rule \<Rightarrow> gate_policy_rule res" where
  "check_rule rule =
     (let n = normalize_rule rule in
      if delegated_role n \<noteq> None \<and> rule_kind n \<in> set HUMAN_PINNED_GATE_KINDS
      then Inl (ValueError ''human-pinned and cannot delegate'')
      else if delegated_role n \<noteq> None \<and> rule_kind n \<notin> set DELEGABLE_GATE_KINDS
      then Inl (ValueError ''cannot be delegated'')
      else if require_reviewer_verdict n \<and> delegated_role n = None
      then Inl (ValueError ''cannot require reviewer verdicts without a delegated role'')
      else Inr n)"

definition make_gate_policy :: "gate_policy_rule list \<Rightarrow> gate_policy res" where
  "make_gate_policy rs =
     rbind (rmap check_rule rs)
       (\<lambda>ns. let by_kind = fold_by rule_kind ns
             in Inr \<lparr>rules = map (\<lambda>k. the (dget by_kind k)) (sort (map fst by_kind))\<rparr>)"

definition named_gate_policy :: "string \<Rightarrow> gate_policy res" where
  "named_gate_policy name =
     (if name = ''all-human'' then Inr DEFAULT_GATE_POLICY
      else if name = ''manager-decides-leaf-gates'' then
        make_gate_policy
          [(default_rule PlanApproval)\<lparr>delegated_role := Some Manager\<rparr>,
           (default_rule CloseoutApproval)\<lparr>delegated_role := Some Manager\<rparr>,
           (default_rule MasterHandoverApproval)\<lparr>delegated_role := Some Orchestrator\<rparr>]
      else Inl (ValueError ''unknown gate delegation policy''))"

definition seam_bound_rule :: "gate_policy_rule \<Rightarrow> gate_policy_rule" where
  "seam_bound_rule rule =
     (if rule_kind rule \<in> set SEAM_GATE_KINDS \<and> delegated_role rule \<noteq> None
      then rule\<lparr>require_reviewer_verdict := True\<rparr> else rule)"

definition apply_seam_verdict_requirement :: "gate_policy \<Rightarrow> gate_policy" where
  "apply_seam_verdict_requirement p = \<lparr>rules = map seam_bound_rule (rules p)\<rparr>"

subsection \<open>What a validated policy guarantees\<close>

lemma GATE_KINDS_complete: "k \<in> set GATE_KINDS"
  by (cases k) (simp_all add: GATE_KINDS_def)

lemma coerce_gate_kind_str [simp]: "coerce_gate_kind (gate_kind_str k) = Inr k"
  by (cases k) (simp_all add: coerce_gate_kind_def GATE_KINDS_def)

lemma coerce_decision_role_str [simp]: "coerce_decision_role (decision_role_str r) = Inr r"
  by (cases r) (simp_all add: coerce_decision_role_def DECISION_ROLES_def)

lemma coerce_decision_role_Inr: "coerce_decision_role s = Inr r \<Longrightarrow> decision_role_str r = s"
  by (auto simp: coerce_decision_role_def find_Some_iff split: option.splits)

definition rule_safe :: "gate_policy_rule \<Rightarrow> bool" where
  "rule_safe r \<longleftrightarrow>
     (delegated_role r \<noteq> None \<longrightarrow> rule_kind r \<in> set DELEGABLE_GATE_KINDS \<and> delegated_role r \<noteq> Some Human) \<and>
     (require_reviewer_verdict r \<longrightarrow> delegated_role r \<noteq> None)"

definition policy_safe :: "gate_policy \<Rightarrow> bool" where
  "policy_safe p \<longleftrightarrow> list_all rule_safe (rules p) \<and> sorted_wrt (<) (map rule_kind (rules p))"

lemma check_rule_Inr:
  assumes "check_rule r = Inr n"
  shows "n = normalize_rule r" and "rule_safe n"
  using assms
  by (auto simp: check_rule_def rule_safe_def normalize_rule_def Let_def split: if_splits)

lemma normalize_rule_kind [simp]: "rule_kind (normalize_rule r) = rule_kind r"
  by (simp add: normalize_rule_def)

lemma rmap_check_rule_safe: "rmap check_rule rs = Inr ns \<Longrightarrow> ns = map normalize_rule rs \<and> list_all rule_safe ns"
  by (induction rs arbitrary: ns) (auto simp: rbind_eq_Inr dest: check_rule_Inr)

lemma make_gate_policy_Inr:
  assumes "make_gate_policy rs = Inr p"
  obtains ns where "ns = map normalize_rule rs" "list_all rule_safe ns"
    "rules p = map (\<lambda>k. the (dget (fold_by rule_kind ns) k)) (sort (map fst (fold_by rule_kind ns)))"
  using assms rmap_check_rule_safe
  by (fastforce simp: make_gate_policy_def rbind_eq_Inr Let_def)

lemma policy_safe_make:
  assumes "make_gate_policy rs = Inr p"
  shows "policy_safe p"
proof -
  from assms obtain ns where ns: "list_all rule_safe ns" and
    p: "rules p = map (\<lambda>k. the (dget (fold_by rule_kind ns) k)) (sort (map fst (fold_by rule_kind ns)))"
    by (rule make_gate_policy_Inr)
  let ?ks = "sort (map fst (fold_by rule_kind ns))"
  have "map rule_kind (rules p) = ?ks"
    by (simp add: p) (intro map_idI, simp add: fold_by_the)
  moreover have "sorted_wrt (<) ?ks"
    by (simp add: strict_sorted_iff)
  moreover have "list_all rule_safe (rules p)"
    using ns by (auto simp: p list_all_iff fold_by_the)
  ultimately show ?thesis by (simp add: policy_safe_def)
qed

lemma rule_for_safe: "policy_safe p \<Longrightarrow> rule_safe (rule_for p k)"
  by (auto simp: rule_for_def policy_safe_def list_all_iff find_Some_iff rule_safe_def default_rule_def
      split: option.splits)

lemma rule_for_kind [simp]: "rule_kind (rule_for p k) = k"
  by (auto simp: rule_for_def default_rule_def find_Some_iff split: option.splits)

lemma policy_safe_default [simp]: "policy_safe DEFAULT_GATE_POLICY"
  by (simp add: policy_safe_def DEFAULT_GATE_POLICY_def)

lemma policy_safe_named: "named_gate_policy name = Inr p \<Longrightarrow> policy_safe p"
  by (auto simp: named_gate_policy_def policy_safe_make split: if_splits)

lemma seam_bound_rule_simps [simp]:
  "rule_kind (seam_bound_rule r) = rule_kind r" "delegated_role (seam_bound_rule r) = delegated_role r"
  by (simp_all add: seam_bound_rule_def)

lemma seam_bound_rule_safe: "rule_safe r \<Longrightarrow> rule_safe (seam_bound_rule r)"
  by (auto simp: rule_safe_def seam_bound_rule_def)

lemma policy_safe_seam: "policy_safe p \<Longrightarrow> policy_safe (apply_seam_verdict_requirement p)"
  by (auto simp: policy_safe_def apply_seam_verdict_requirement_def list_all_iff seam_bound_rule_safe comp_def)

lemma find_seam_bound:
  "find (\<lambda>r. rule_kind r = k) (map seam_bound_rule rs) =
   map_option seam_bound_rule (find (\<lambda>r. rule_kind r = k) rs)"
  by (induction rs) auto

lemma rule_for_seam:
  "rule_for (apply_seam_verdict_requirement p) k = seam_bound_rule (rule_for p k)"
  by (auto simp: rule_for_def apply_seam_verdict_requirement_def find_seam_bound seam_bound_rule_def
      default_rule_def split: option.splits)

end
