(* ===== verification/Checkout.thy ===== *)
theory Checkout
  imports Prelude
begin

section \<open>Checkout coordination\<close>

text \<open>
  \<^verbatim>\<open>kernel/primitives/checkout_coordination.py\<close>: the fail-closed isolation of code loaded from a source
  checkout. A process is its declared execution mode, the path of the imported package and the file
  system it sees; a path is the list of its segments from the root. The file-system questions
  (\<^verbatim>\<open>is_file\<close>, \<^verbatim>\<open>is_dir\<close>, \<^verbatim>\<open>resolve\<close>) are fields of the state, because the operating system answers them.
\<close>

type_synonym path = "string list"

text \<open>\<^verbatim>\<open>str(path)\<close> of an absolute path.\<close>

definition path_str :: "path \<Rightarrow> string" where
  "path_str p = concat (map (\<lambda>seg. CHR ''/'' # seg) p)"

datatype execution_mode = ModeMcp | ModeDashboard | ModeLifecycleOperation | ModeTest
datatype daemon_role = RoleMcp | RoleDashboard
datatype checkout_kind = Linked | Primary

record checkout_location =
  checkout_root :: path
  checkout_kind_of :: checkout_kind

definition worktree_group :: "checkout_location \<Rightarrow> path" where
  "worktree_group l = butlast (checkout_root l)"

definition coordination_root :: "checkout_location \<Rightarrow> path" where
  "coordination_root l = worktree_group l @ [''provider-runtime'', ''dev-ar-coordination'']"

definition synthetic_config_path :: "checkout_location \<Rightarrow> path" where
  "synthetic_config_path l = worktree_group l @ [''provider-runtime'', ''dev-mcp-settings.json'']"

definition reports_root :: "checkout_location \<Rightarrow> path" where
  "reports_root l = worktree_group l @ [''reports'']"

record process =
  process_id :: nat
  declared :: "execution_mode option"
  package_source :: path
  is_file :: "path \<Rightarrow> bool"
  is_dir :: "path \<Rightarrow> bool"
  resolve_path :: "path \<Rightarrow> path"
  flock_excludes :: "path \<Rightarrow> bool"

definition declare_execution_mode :: "execution_mode \<Rightarrow> process \<Rightarrow> process" where
  "declare_execution_mode m p = p\<lparr>declared := Some m\<rparr>"

definition declare_test_process :: "process \<Rightarrow> process" where
  "declare_test_process p = declare_execution_mode ModeTest p"

definition declare_lifecycle_operation_process :: "process \<Rightarrow> process" where
  "declare_lifecycle_operation_process p = declare_execution_mode ModeLifecycleOperation p"

definition declared_daemon_role :: "process \<Rightarrow> daemon_role option" where
  "declared_daemon_role p =
     (case declared p of
        Some ModeMcp \<Rightarrow> Some RoleMcp
      | Some ModeDashboard \<Rightarrow> Some RoleDashboard
      | _ \<Rightarrow> None)"

text \<open>\<^verbatim>\<open>Path.parents\<close>: the immediate parent first, the root last.\<close>

fun parents :: "path \<Rightarrow> path list" where
  "parents [] = []"
| "parents (x # xs) = butlast (x # xs) # parents (butlast (x # xs))"

declare parents.simps(2) [simp del]

definition checkout_at :: "process \<Rightarrow> path \<Rightarrow> checkout_location option" where
  "checkout_at p candidate =
     (if \<not> is_file p (candidate @ [''mcp'', ''pyproject.toml'']) then None
      else if \<not> is_dir p (candidate @ [''mcp'', ''src'', ''agents_remember'']) then None
      else if is_file p (candidate @ [''.git''])
      then Some \<lparr>checkout_root = candidate, checkout_kind_of = Linked\<rparr>
      else if is_dir p (candidate @ [''.git''])
      then Some \<lparr>checkout_root = candidate, checkout_kind_of = Primary\<rparr>
      else None)"

fun first_checkout :: "process \<Rightarrow> path list \<Rightarrow> checkout_location option" where
  "first_checkout p [] = None"
| "first_checkout p (c # cs) =
     (case checkout_at p c of Some l \<Rightarrow> Some l | None \<Rightarrow> first_checkout p cs)"

definition resolve_checkout_location :: "process \<Rightarrow> path option \<Rightarrow> checkout_location option" where
  "resolve_checkout_location p source_path =
     first_checkout p (parents (resolve_path p (case source_path of Some s \<Rightarrow> s | None \<Rightarrow> package_source p)))"

definition checkout_cli_location :: "process \<Rightarrow> checkout_location option res" where
  "checkout_cli_location p =
     (if declared p \<noteq> None then Inr None
      else case resolve_checkout_location p None of
             None \<Rightarrow> Inr None
           | Some l \<Rightarrow>
               if checkout_kind_of l = Primary
               then Inl (CheckoutCoordinationError ''undeclared execution from the primary checkout'')
               else Inr (Some l))"

definition is_relative_to :: "path \<Rightarrow> path \<Rightarrow> bool" where
  "is_relative_to p root \<longleftrightarrow> take (length root) p = root"

definition require_durable_write_target :: "process \<Rightarrow> path \<Rightarrow> unit res" where
  "require_durable_write_target p target =
     rbind (checkout_cli_location p)
       (\<lambda>loc. case loc of
          None \<Rightarrow> Inr ()
        | Some l \<Rightarrow>
            if is_relative_to (resolve_path p target) (resolve_path p (coordination_root l)) \<or>
               is_relative_to (resolve_path p target) (resolve_path p (reports_root l))
            then Inr ()
            else Inl (CheckoutCoordinationError ''refused target''))"

subsection \<open>What the guard lets through\<close>

lemma first_checkout_Some:
  "first_checkout p cs = Some l \<Longrightarrow> \<exists>c\<in>set cs. checkout_at p c = Some l"
  by (induction cs) (auto split: option.splits)

lemma checkout_cli_location_linked:
  "checkout_cli_location p = Inr (Some l) \<Longrightarrow> checkout_kind_of l = Linked \<and> declared p = None"
  by (cases "checkout_kind_of l") (auto simp: checkout_cli_location_def split: if_splits option.splits)

lemma declared_write_allowed:
  "declared p \<noteq> None \<Longrightarrow> require_durable_write_target p target = Inr ()"
  by (simp add: require_durable_write_target_def checkout_cli_location_def)

lemma write_target_cases:
  assumes "require_durable_write_target p target = Inr ()"
  obtains (declared) m where "declared p = Some m"
  | (installed) "declared p = None" "resolve_checkout_location p None = None"
  | (linked) l where "declared p = None" "resolve_checkout_location p None = Some l"
      "checkout_kind_of l = Linked"
      "is_relative_to (resolve_path p target) (resolve_path p (coordination_root l)) \<or>
       is_relative_to (resolve_path p target) (resolve_path p (reports_root l))"
proof (cases "declared p")
  case (Some m)
  then show thesis by (rule declared)
next
  case None
  show thesis
  proof (cases "resolve_checkout_location p None")
    case None
    with \<open>declared p = None\<close> show thesis by (rule installed)
  next
    case (Some l)
    with None assms show thesis
      by (cases "checkout_kind_of l")
        (auto simp: require_durable_write_target_def checkout_cli_location_def intro: linked split: if_splits)
  qed
qed

end
