(* ===== verification/Durable_Store.thy ===== *)
theory Durable_Store
  imports Checkout
begin

section \<open>The durable-store contract\<close>

text \<open>
  \<^verbatim>\<open>controlplane/durable_store.py\<close>: declared writers and compaction owners, the schema-version rule, the
  two read policies, appends and rewrites of a JSONL log, the explicit migration, and the per-log lock.

  A log file is the list of its lines, or \<^verbatim>\<open>None\<close> when it does not exist. Serialisation is pydantic's
  and the operating system's business, so a line is represented by what the validator is handed: a
  record, a torn line that is no record at all, or a blank line. Whether a record is accepted is the
  model's business: \<open>ok\<close> is the validator of the store, which includes the schema-version rule.
\<close>

datatype 'r log_line = Rec 'r | Torn string | Blank

type_synonym 'r log_file = "'r log_line list option"

fun is_blank :: "'r log_line \<Rightarrow> bool" where
  "is_blank Blank = True"
| "is_blank _ = False"

definition SCHEMA_VERSION :: string where
  "SCHEMA_VERSION = ''1.0''"

definition SUPPORTED_SCHEMA_MAJOR :: int where
  "SUPPORTED_SCHEMA_MAJOR = 1"

definition schema_version_supported :: "string \<Rightarrow> bool" where
  "schema_version_supported value =
     (let (major, minor) = partition_at CHR ''.'' value
      in if \<not> isdigit major \<or> \<not> isdigit minor then False
         else int_of_digits major = SUPPORTED_SCHEMA_MAJOR)"

subsection \<open>Ownership\<close>

record store_ownership =
  store_name :: string
  writers :: "daemon_role list"
  compaction_owner :: "daemon_role option"

definition check_declared_writer :: "store_ownership \<Rightarrow> process \<Rightarrow> unit res" where
  "check_declared_writer own p =
     (case declared_daemon_role p of
        None \<Rightarrow> Inr ()
      | Some role \<Rightarrow> if role \<in> set (writers own) then Inr () else Inl (CompactionOwnerError (store_name own)))"

definition is_compaction_owner :: "store_ownership \<Rightarrow> process \<Rightarrow> bool" where
  "is_compaction_owner own p =
     (let role = declared_daemon_role p
      in role = None \<or> compaction_owner own = None \<or> role = compaction_owner own)"

definition GATE_OWNERSHIP :: store_ownership where
  "GATE_OWNERSHIP =
     \<lparr>store_name = ''gate'', writers = [RoleMcp, RoleDashboard], compaction_owner = Some RoleMcp\<rparr>"

definition EXPECTATION_ROW_OWNERSHIP :: store_ownership where
  "EXPECTATION_ROW_OWNERSHIP =
     \<lparr>store_name = ''expectation-rows'', writers = [RoleMcp, RoleDashboard],
      compaction_owner = Some RoleDashboard\<rparr>"

definition ATTENTION_DISMISSAL_OWNERSHIP :: store_ownership where
  "ATTENTION_DISMISSAL_OWNERSHIP =
     \<lparr>store_name = ''attention-dismissals'', writers = [RoleDashboard],
      compaction_owner = Some RoleDashboard\<rparr>"

definition OPERATOR_INBOX_OWNERSHIP :: store_ownership where
  "OPERATOR_INBOX_OWNERSHIP =
     \<lparr>store_name = ''operator-inbox'', writers = [RoleMcp, RoleDashboard], compaction_owner = None\<rparr>"

definition ORCHESTRATION_NUDGE_OWNERSHIP :: store_ownership where
  "ORCHESTRATION_NUDGE_OWNERSHIP =
     \<lparr>store_name = ''orchestration-nudges'', writers = [RoleMcp, RoleDashboard],
      compaction_owner = Some RoleDashboard\<rparr>"

definition AGENT_NOTIFIER_SIGNAL_OWNERSHIP :: store_ownership where
  "AGENT_NOTIFIER_SIGNAL_OWNERSHIP =
     \<lparr>store_name = ''supervisor-signals'', writers = [RoleDashboard],
      compaction_owner = Some RoleDashboard\<rparr>"

subsection \<open>Reading and writing a log\<close>

definition read_log_text :: "'r log_file \<Rightarrow> 'r log_line list" where
  "read_log_text f = (case f of None \<Rightarrow> [] | Some ls \<Rightarrow> ls)"

definition validate_line :: "('r \<Rightarrow> bool) \<Rightarrow> 'r log_line \<Rightarrow> 'r res" where
  "validate_line ok l =
     (case l of
        Rec r \<Rightarrow> if ok r then Inr r else Inl (ValidationError ''record'')
      | _ \<Rightarrow> Inl (ValidationError ''line''))"

text \<open>The strict read raises on the first line it cannot validate; the tolerant one skips it.\<close>

definition read_strict :: "('r \<Rightarrow> bool) \<Rightarrow> 'r log_file \<Rightarrow> 'r list res" where
  "read_strict ok f = rmap (validate_line ok) (filter (\<lambda>l. \<not> is_blank l) (read_log_text f))"

fun tolerant_lines :: "('r \<Rightarrow> bool) \<Rightarrow> 'r log_line list \<Rightarrow> 'r list" where
  "tolerant_lines ok [] = []"
| "tolerant_lines ok (l # ls) =
     (if is_blank l then tolerant_lines ok ls
      else case validate_line ok l of
             Inl _ \<Rightarrow> tolerant_lines ok ls
           | Inr r \<Rightarrow> r # tolerant_lines ok ls)"

definition read_tolerant :: "('r \<Rightarrow> bool) \<Rightarrow> 'r log_file \<Rightarrow> 'r list" where
  "read_tolerant ok f = tolerant_lines ok (read_log_text f)"

definition append_line :: "'r \<Rightarrow> 'r log_file \<Rightarrow> 'r log_file" where
  "append_line r f = Some (read_log_text f @ [Rec r])"

definition append_lines :: "'r list \<Rightarrow> 'r log_file \<Rightarrow> 'r log_file" where
  "append_lines rs f = (if rs = [] then f else Some (read_log_text f @ map Rec rs))"

definition rewrite_lines :: "'r list \<Rightarrow> 'r log_file \<Rightarrow> 'r log_file" where
  "rewrite_lines rs f = Some (map Rec rs)"

text \<open>
  \<^verbatim>\<open>migrate_jsonl_records\<close>: the raw JSON objects of the log are transformed and re-validated, and the file
  is rewritten in one step only when every row validated and at least one changed. The log here is raw,
  so a line is a JSON object, some other JSON value, or text that is no JSON; \<open>validate\<close> and \<open>dump\<close> are
  the model class's own.
\<close>

datatype 'j raw_line = RawObject 'j | RawValue | RawText | RawBlank

fun raw_blank :: "'j raw_line \<Rightarrow> bool" where
  "raw_blank RawBlank = True"
| "raw_blank _ = False"

fun migrate_row :: "('j \<Rightarrow> 'j) \<Rightarrow> ('j \<Rightarrow> 'r res) \<Rightarrow> 'j raw_line \<Rightarrow> (bool \<times> 'r) res" where
  "migrate_row transform validate (RawObject raw) =
     (let migrated = transform raw
      in rbind (validate migrated) (\<lambda>r. Inr (migrated \<noteq> raw, r)))"
| "migrate_row transform validate RawValue = Inl (ValueError ''durable record is not a JSON object'')"
| "migrate_row transform validate RawText = Inl (ValueError ''json'')"
| "migrate_row transform validate RawBlank = Inl (ValueError ''json'')"

definition migrate_jsonl_records ::
  "store_ownership \<Rightarrow> process \<Rightarrow> ('j \<Rightarrow> 'j) \<Rightarrow> ('j \<Rightarrow> 'r res) \<Rightarrow> ('r \<Rightarrow> 'j) \<Rightarrow>
   'j raw_line list \<Rightarrow> nat res \<times> 'j raw_line list" where
  "migrate_jsonl_records own p transform validate dump log =
     (case check_declared_writer own p of
        Inl e \<Rightarrow> (Inl e, log)
      | Inr _ \<Rightarrow>
          let source = filter (\<lambda>l. \<not> raw_blank l) log
          in if source = [] then (Inr 0, log)
             else case rmap (migrate_row transform validate) source of
                    Inl e \<Rightarrow> (Inl e, log)
                  | Inr rows \<Rightarrow>
                      let changed = length (filter fst rows)
                      in (Inr changed,
                          if changed \<noteq> 0 then map (\<lambda>x. RawObject (dump (snd x))) rows else log))"

lemma read_log_text_simps [simp, log_simps]:
  "read_log_text None = []" "read_log_text (Some ls) = ls"
  by (simp_all add: read_log_text_def)

lemma validate_line_simps [simp, log_simps]:
  "validate_line ok (Rec r) = (if ok r then Inr r else Inl (ValidationError ''record''))"
  "validate_line ok (Torn s) = Inl (ValidationError ''line'')"
  "validate_line ok Blank = Inl (ValidationError ''line'')"
  by (simp_all add: validate_line_def)

lemma rmap_validate_Rec: "list_all ok rs \<Longrightarrow> rmap (validate_line ok) (map Rec rs) = Inr rs"
  by (induction rs) simp_all

lemma filter_not_blank_Rec [simp]: "filter (\<lambda>l. \<not> is_blank l) (map Rec rs) = map Rec rs"
  by (induction rs) simp_all

lemma rmap_validate_ok: "rmap (validate_line ok) ls = Inr rs \<Longrightarrow> list_all ok rs"
proof (induction ls arbitrary: rs)
  case Nil
  then show ?case by simp
next
  case (Cons l ls)
  then show ?case by (cases l) (auto simp: rbind_eq_Inr split: if_splits)
qed

lemma tolerant_lines_append: "tolerant_lines ok (ls @ ms) = tolerant_lines ok ls @ tolerant_lines ok ms"
  by (induction ls) (auto split: sum.splits)

lemma tolerant_lines_Rec: "list_all ok rs \<Longrightarrow> tolerant_lines ok (map Rec rs) = rs"
  by (induction rs) simp_all

lemma tolerant_lines_ok: "list_all ok (tolerant_lines ok ls)"
proof (induction ls)
  case Nil
  show ?case by simp
next
  case (Cons l ls)
  then show ?case by (cases l) auto
qed

lemma read_strict_append_line:
  "read_strict ok f = Inr rs \<Longrightarrow> ok r \<Longrightarrow> read_strict ok (append_line r f) = Inr (rs @ [r])"
  by (simp add: read_strict_def append_line_def rmap_append)

lemma read_strict_append_lineD:
  "read_strict ok (append_line r f) = Inr rs' \<Longrightarrow> \<exists>rs. read_strict ok f = Inr rs \<and> ok r \<and> rs' = rs @ [r]"
  by (auto simp: read_strict_def append_line_def rmap_append rbind_eq_Inr split: if_splits)

lemma read_strict_append_lines:
  "read_strict ok f = Inr rs \<Longrightarrow> list_all ok ss \<Longrightarrow> read_strict ok (append_lines ss f) = Inr (rs @ ss)"
  by (simp add: read_strict_def append_lines_def rmap_append rmap_validate_Rec)

lemma read_strict_rewrite: "list_all ok rs \<Longrightarrow> read_strict ok (rewrite_lines rs f) = Inr rs"
  by (simp add: read_strict_def rewrite_lines_def rmap_validate_Rec)

lemma read_strict_ok: "read_strict ok f = Inr rs \<Longrightarrow> list_all ok rs"
  unfolding read_strict_def by (rule rmap_validate_ok)

lemma read_strict_None [simp]: "read_strict ok None = Inr []"
  by (simp add: read_strict_def)

text \<open>Where the strict read succeeds the tolerant one returns the same records.\<close>

lemma tolerant_of_strict_lines:
  "rmap (validate_line ok) (filter (\<lambda>l. \<not> is_blank l) ls) = Inr rs \<Longrightarrow> tolerant_lines ok ls = rs"
proof (induction ls arbitrary: rs)
  case Nil
  then show ?case by simp
next
  case (Cons l ls)
  then show ?case by (cases l) (auto simp: rbind_eq_Inr split: if_splits)
qed

lemma read_tolerant_of_strict: "read_strict ok f = Inr rs \<Longrightarrow> read_tolerant ok f = rs"
  unfolding read_strict_def read_tolerant_def by (rule tolerant_of_strict_lines)

subsection \<open>The interface of a log folded by id\<close>

text \<open>
  What the stores rely on: reading after an append gives the old records and the new one, reading after
  a rewrite gives exactly what was written, and what a read returns is valid. The lemmas proved from
  that are the ones the stores' folds and compactions use.
\<close>

locale folded_log =
  fixes read :: "'s \<Rightarrow> 'r list res"
    and app :: "'r \<Rightarrow> 's \<Rightarrow> 's"
    and repl :: "'r list \<Rightarrow> 's \<Rightarrow> 's"
    and wf :: "'r \<Rightarrow> bool"
    and key :: "'r \<Rightarrow> 'k"
  assumes read_app: "read s = Inr rs \<Longrightarrow> wf r \<Longrightarrow> read (app r s) = Inr (rs @ [r])"
    and read_repl: "list_all wf rs \<Longrightarrow> read (repl rs s) = Inr rs"
    and read_wf: "read s = Inr rs \<Longrightarrow> list_all wf rs"
begin

lemma current_app_same:
  assumes "read s = Inr rs" "wf r"
  shows "\<exists>rs'. read (app r s) = Inr rs' \<and> dget (fold_by key rs') (key r) = Some r"
  using read_app [OF assms] by (intro exI [of _ "rs @ [r]"]) simp

lemma current_app_other:
  assumes "read s = Inr rs" "wf r" "k \<noteq> key r"
  shows "\<exists>rs'. read (app r s) = Inr rs' \<and> dget (fold_by key rs') k = dget (fold_by key rs) k"
  using read_app [OF assms(1,2)] assms(3) by (intro exI [of _ "rs @ [r]"]) simp

lemma filtered_read:
  assumes "read s = Inr rs"
  shows "read (repl (filter Q rs) s) = Inr (filter Q rs)"
  using read_wf [OF assms] by (intro read_repl) (simp add: list_all_iff)

text \<open>A compaction to a set of ids keeps the folded snapshot of every id it keeps and forgets the rest.\<close>

lemma compacted_current:
  assumes "read s = Inr rs"
  shows "read (repl (filter (\<lambda>r. key r \<in> K) rs) s) = Inr (filter (\<lambda>r. key r \<in> K) rs)"
    and "dget (fold_by key (filter (\<lambda>r. key r \<in> K) rs)) k = (if k \<in> K then dget (fold_by key rs) k else None)"
proof -
  show "read (repl (filter (\<lambda>r. key r \<in> K) rs) s) = Inr (filter (\<lambda>r. key r \<in> K) rs)"
    by (rule filtered_read [OF assms])
  show "dget (fold_by key (filter (\<lambda>r. key r \<in> K) rs)) k = (if k \<in> K then dget (fold_by key rs) k else None)"
  proof (cases "k \<in> K")
    case True
    then show ?thesis using fold_by_filter_get [of rs key k "\<lambda>r. key r \<in> K"] by simp
  next
    case False
    then show ?thesis by (auto simp: fold_by_get last_with_None)
  qed
qed

end

interpretation strict_log: folded_log "read_strict ok" append_line rewrite_lines ok key
  for ok :: "'r \<Rightarrow> bool" and key :: "'r \<Rightarrow> 'k"
  by unfold_locales (simp_all add: read_strict_append_line read_strict_rewrite read_strict_ok)

interpretation tolerant_log: folded_log "\<lambda>f. Inr (read_tolerant ok f)" append_line rewrite_lines ok key
  for ok :: "'r \<Rightarrow> bool" and key :: "'r \<Rightarrow> 'k"
  by unfold_locales
    (auto simp: read_tolerant_def append_line_def rewrite_lines_def tolerant_lines_append
      tolerant_lines_Rec tolerant_lines_ok)

end
