(* ===== verification/Gate_Records.thy ===== *)
theory Gate_Records
  imports Gate_Vocab Durable_Store
begin

section \<open>Gate records and their attribution\<close>

text \<open>
  \<^verbatim>\<open>controlplane/records.py\<close> (the durable gate snapshot and the pure transitions that build the next one)
  and \<^verbatim>\<open>controlplane/gate_policy.py\<close> (whether a recorded decision satisfies the delegation policy).
  A snapshot is a record with the source's fields, prefixed \<open>g_\<close>; \<^verbatim>\<open>model_copy(update=...)\<close> is a record
  update. Refusal messages are constructors that carry the values the source interpolates.
\<close>

datatype decided_via = ViaChat | ViaDashboard | ViaCli | ViaOrchestration

datatype evidence_kind = ReviewerVerdict

record gate_evidence_ref =
  ev_kind :: evidence_kind
  ev_ref :: string
  ev_verdict :: "string option"

record gate_record =
  g_schemaVersion :: string
  g_schema :: string
  g_id :: string
  g_ts :: string
  g_kind :: gate_kind
  g_state :: gate_state
  g_lifecycleId :: "string option"
  g_enclosure :: "string option"
  g_repoId :: "string option"
  g_packet :: "(string \<times> json) list"
  g_requiredDecision :: "string list option"
  g_decidedBy :: "string option"
  g_decidedVia :: "decided_via option"
  g_decidingRole :: "string option"
  g_decisionNote :: "string option"
  g_decidedAt :: "string option"
  g_evidenceRefs :: "gate_evidence_ref list"
  g_appliedOperation :: "string option"

definition GATE_RECORD_SCHEMA :: string where
  "GATE_RECORD_SCHEMA = ''ar-gate-record/v1''"

text \<open>The validator of the class: field types aside, \<^verbatim>\<open>DurableRecord\<close> refuses an unknown schema major.\<close>

definition gate_ok :: "gate_record \<Rightarrow> bool" where
  "gate_ok g \<longleftrightarrow> schema_version_supported (g_schemaVersion g)"

definition DECISION_STATES :: "(string, gate_state) dict" where
  "DECISION_STATES =
     [(''approve'', Approved), (''reject'', Rejected), (''request-revision'', RevisionRequested),
      (''cancel'', Cancelled)]"

record gate_anchor =
  anchor_lifecycle_id :: "string option"
  anchor_enclosure :: "string option"
  anchor_repo_id :: "string option"

text \<open>Evidence arrives as a validated reference or as a raw object.\<close>

datatype evidence_input = EvRef gate_evidence_ref | EvRaw json

record gate_request =
  req_packet :: "(string \<times> json) list option"
  req_required_decision :: "string list option"
  req_evidence_refs :: "evidence_input list option"

record gate_verdict =
  v_decision :: string
  v_via :: decided_via
  v_by :: "string option"
  v_note :: "string option"
  v_deciding_role :: "string option"

definition empty_anchor :: gate_anchor where
  "empty_anchor = \<lparr>anchor_lifecycle_id = None, anchor_enclosure = None, anchor_repo_id = None\<rparr>"

definition empty_request :: gate_request where
  "empty_request = \<lparr>req_packet = None, req_required_decision = None, req_evidence_refs = None\<rparr>"

text \<open>\<^verbatim>\<open>GateEvidenceRef.model_validate\<close>: no extra key, the one known kind, a string reference.\<close>

definition validate_evidence :: "json \<Rightarrow> gate_evidence_ref res" where
  "validate_evidence j =
     (case j of
        JObj kvs \<Rightarrow>
          (case (dget kvs ''kind'', dget kvs ''ref'', dget kvs ''verdict'') of
             (Some (JStr k), Some (JStr r), v) \<Rightarrow>
               if k \<noteq> ''reviewer-verdict'' \<or> \<not> set (map fst kvs) \<subseteq> {''kind'', ''ref'', ''verdict''}
               then Inl (ValidationError ''GateEvidenceRef'')
               else (case v of
                       None \<Rightarrow> Inr \<lparr>ev_kind = ReviewerVerdict, ev_ref = r, ev_verdict = None\<rparr>
                     | Some JNull \<Rightarrow> Inr \<lparr>ev_kind = ReviewerVerdict, ev_ref = r, ev_verdict = None\<rparr>
                     | Some (JStr s) \<Rightarrow> Inr \<lparr>ev_kind = ReviewerVerdict, ev_ref = r, ev_verdict = Some s\<rparr>
                     | Some _ \<Rightarrow> Inl (ValidationError ''GateEvidenceRef''))
           | _ \<Rightarrow> Inl (ValidationError ''GateEvidenceRef''))
      | _ \<Rightarrow> Inl (ValidationError ''GateEvidenceRef''))"

fun coerce_evidence :: "evidence_input \<Rightarrow> gate_evidence_ref res" where
  "coerce_evidence (EvRef r) = Inr r"
| "coerce_evidence (EvRaw j) = validate_evidence j"

definition coerce_evidence_refs :: "evidence_input list option \<Rightarrow> gate_evidence_ref list res" where
  "coerce_evidence_refs refs = (case refs of None \<Rightarrow> Inr [] | Some rs \<Rightarrow> rmap coerce_evidence rs)"

definition create_gate ::
  "gate_kind \<Rightarrow> string \<Rightarrow> string \<Rightarrow> gate_anchor option \<Rightarrow> gate_request option \<Rightarrow> gate_record res" where
  "create_gate kind gate_id now anchor request =
     (let a = (case anchor of None \<Rightarrow> empty_anchor | Some a \<Rightarrow> a);
          r = (case request of None \<Rightarrow> empty_request | Some r \<Rightarrow> r)
      in rbind (coerce_evidence_refs (req_evidence_refs r))
           (\<lambda>evidence. Inr
             \<lparr>g_schemaVersion = SCHEMA_VERSION, g_schema = GATE_RECORD_SCHEMA,
              g_id = gate_id, g_ts = now, g_kind = kind, g_state = Open,
              g_lifecycleId = anchor_lifecycle_id a, g_enclosure = anchor_enclosure a,
              g_repoId = anchor_repo_id a,
              g_packet = (case req_packet r of None \<Rightarrow> [] | Some pk \<Rightarrow> pk),
              g_requiredDecision = req_required_decision r,
              g_decidedBy = None, g_decidedVia = None, g_decidingRole = None,
              g_decisionNote = None, g_decidedAt = None,
              g_evidenceRefs = evidence, g_appliedOperation = None\<rparr>))"

definition decide_gate ::
  "gate_record \<Rightarrow> gate_verdict \<Rightarrow> string \<Rightarrow> evidence_input list option \<Rightarrow> gate_record res" where
  "decide_gate gate verdict now evidence_refs =
     (case dget DECISION_STATES (v_decision verdict) of
        None \<Rightarrow> Inl (KeyError (v_decision verdict))
      | Some state \<Rightarrow>
          rbind (coerce_evidence_refs evidence_refs)
            (\<lambda>extra. Inr (gate\<lparr>g_ts := now, g_state := state, g_decidedBy := v_by verdict,
               g_decidedVia := Some (v_via verdict), g_decidingRole := v_deciding_role verdict,
               g_decisionNote := v_note verdict, g_decidedAt := Some now,
               g_evidenceRefs := g_evidenceRefs gate @ extra\<rparr>)))"

definition expire_gate :: "gate_record \<Rightarrow> string \<Rightarrow> gate_record" where
  "expire_gate gate now = gate\<lparr>g_ts := now, g_state := Expired\<rparr>"

definition apply_gate :: "gate_record \<Rightarrow> string \<Rightarrow> string option \<Rightarrow> gate_record" where
  "apply_gate gate now operation_key =
     gate\<lparr>g_ts := now, g_state := Applied, g_appliedOperation := operation_key\<rparr>"

definition reopen_gate :: "gate_record \<Rightarrow> string \<Rightarrow> gate_record" where
  "reopen_gate gate now =
     gate\<lparr>g_ts := now, g_state := Open, g_decidedBy := None, g_decidedVia := None,
          g_decidingRole := None, g_decisionNote := None, g_decidedAt := None\<rparr>"

subsection \<open>Attribution against the policy\<close>

datatype refusal =
    NotThroughOrchestration string
  | NoDecidingIdentity string
  | DecidedByOwner string string
  | NoDecidingRole string
  | NotDelegatedTo gate_kind decision_role
  | NeedsReviewerVerdict gate_kind
  | UnknownRole py_error
  | NotDeveloperNorRole gate_kind string "string option"

definition has_reviewer_verdict_evidence :: "gate_record \<Rightarrow> bool" where
  "has_reviewer_verdict_evidence gate \<longleftrightarrow> (\<exists>r\<in>set (g_evidenceRefs gate). ev_kind r = ReviewerVerdict)"

definition decision_role_for_gate :: "gate_record \<Rightarrow> decision_role option res" where
  "decision_role_for_gate gate =
     (if g_decidedBy gate = Some HUMAN_DECIDER then Inr (Some Human)
      else case (g_decidedVia gate, g_decidingRole gate) of
             (Some ViaOrchestration, Some raw) \<Rightarrow> rbind (coerce_decision_role raw) (\<lambda>r. Inr (Some r))
           | _ \<Rightarrow> Inr None)"

definition decision_attribution_failure_reason :: "gate_record \<Rightarrow> refusal option" where
  "decision_attribution_failure_reason gate =
     (if g_decidedVia gate \<noteq> Some ViaOrchestration then Some (NotThroughOrchestration (g_id gate))
      else if \<not> truthy (g_decidedBy gate) then Some (NoDecidingIdentity (g_id gate))
      else if truthy (g_lifecycleId gate) \<and> g_decidedBy gate = g_lifecycleId gate
      then Some (DecidedByOwner (g_id gate) (the (g_lifecycleId gate)))
      else if g_decidingRole gate = None then Some (NoDecidingRole (g_id gate))
      else None)"

definition delegated_decision_failure_reason :: "gate_record \<Rightarrow> gate_policy \<Rightarrow> refusal option res" where
  "delegated_decision_failure_reason gate policy =
     (case decision_attribution_failure_reason gate of
        Some reason \<Rightarrow> Inr (Some reason)
      | None \<Rightarrow>
          rbind (coerce_decision_role (the (g_decidingRole gate)))
            (\<lambda>role. let rule = rule_for policy (g_kind gate)
              in Inr (if \<not> allows_role rule role \<or> role = Human
                      then Some (NotDelegatedTo (g_kind gate) role)
                      else if require_reviewer_verdict rule \<and> \<not> has_reviewer_verdict_evidence gate
                      then Some (NeedsReviewerVerdict (g_kind gate))
                      else None)))"

definition approval_failure_reason :: "gate_record \<Rightarrow> gate_policy \<Rightarrow> refusal option" where
  "approval_failure_reason gate policy =
     (case decision_role_for_gate gate of
        Inl e \<Rightarrow> Some (UnknownRole e)
      | Inr (Some Human) \<Rightarrow> None
      | Inr None \<Rightarrow> Some (NotDeveloperNorRole (g_kind gate) (g_id gate) (g_decidedBy gate))
      | Inr (Some _) \<Rightarrow>
          (case delegated_decision_failure_reason gate policy of
             Inl e \<Rightarrow> Some (UnknownRole e)
           | Inr reason \<Rightarrow> reason))"

text \<open>
  The reference reading of the policy: a recorded decision is human, or it came through the orchestration
  channel, from a lifecycle other than the gate's own, in the one non-human role the policy delegates this
  kind to, with reviewer evidence where the rule asks for it. A decision counts as human when its actor is
  the developer, and also when it came through orchestration with the deciding role \<^verbatim>\<open>"human"\<close>, whoever the
  actor is: \<^verbatim>\<open>decision_role_for_gate\<close> returns the coerced role, and \<^verbatim>\<open>approval_failure_reason\<close> accepts it before
  the delegation checks.
\<close>

definition delegated_valid :: "gate_record \<Rightarrow> gate_policy \<Rightarrow> bool" where
  "delegated_valid gate policy \<longleftrightarrow>
     g_decidedVia gate = Some ViaOrchestration \<and> truthy (g_decidedBy gate) \<and>
     (truthy (g_lifecycleId gate) \<longrightarrow> g_decidedBy gate \<noteq> g_lifecycleId gate) \<and>
     (\<exists>role. g_decidingRole gate = Some (decision_role_str role) \<and> role \<noteq> Human \<and>
             delegated_role (rule_for policy (g_kind gate)) = Some role) \<and>
     (require_reviewer_verdict (rule_for policy (g_kind gate)) \<longrightarrow> has_reviewer_verdict_evidence gate)"

definition human_decided :: "gate_record \<Rightarrow> bool" where
  "human_decided gate \<longleftrightarrow>
     g_decidedBy gate = Some HUMAN_DECIDER \<or>
     (g_decidedVia gate = Some ViaOrchestration \<and> g_decidingRole gate = Some ''human'')"

definition policy_valid :: "gate_record \<Rightarrow> gate_policy \<Rightarrow> bool" where
  "policy_valid gate policy \<longleftrightarrow> human_decided gate \<or> delegated_valid gate policy"

lemma gate_transition_frame [simp]:
  "g_id (expire_gate g now) = g_id g" "g_kind (expire_gate g now) = g_kind g"
  "g_id (apply_gate g now k) = g_id g" "g_kind (apply_gate g now k) = g_kind g"
  "g_state (apply_gate g now k) = Applied" "g_appliedOperation (apply_gate g now k) = k"
  "g_ts (apply_gate g now k) = now" "g_lifecycleId (apply_gate g now k) = g_lifecycleId g"
  "g_id (reopen_gate g now) = g_id g" "g_state (reopen_gate g now) = Open"
  "g_lifecycleId (reopen_gate g now) = g_lifecycleId g"
  "g_state (expire_gate g now) = Expired" "g_lifecycleId (expire_gate g now) = g_lifecycleId g"
  "gate_ok (apply_gate g now k) = gate_ok g" "gate_ok (expire_gate g now) = gate_ok g"
  "gate_ok (reopen_gate g now) = gate_ok g"
  by (simp_all add: expire_gate_def apply_gate_def reopen_gate_def gate_ok_def)

lemma schema_version_current [simp]: "schema_version_supported SCHEMA_VERSION"
  by code_simp

lemma create_gate_Inr:
  assumes "create_gate kind gid now anchor request = Inr g"
  shows "g_id g = gid" "g_ts g = now" "g_kind g = kind" "g_state g = Open" "gate_ok g"
    "g_appliedOperation g = None" "g_decidedBy g = None"
    "g_lifecycleId g = (case anchor of None \<Rightarrow> None | Some a \<Rightarrow> anchor_lifecycle_id a)"
  using assms
  by (auto simp: create_gate_def Let_def rbind_eq_Inr gate_ok_def empty_anchor_def split: option.splits)

lemma decide_gate_Inr:
  assumes "decide_gate g v now ev = Inr g'"
  shows "g_id g' = g_id g" "g_kind g' = g_kind g" "g_lifecycleId g' = g_lifecycleId g"
    "g_ts g' = now" "gate_ok g' = gate_ok g" "g_decidedBy g' = v_by v" "g_decidedVia g' = Some (v_via v)"
    "g_decidingRole g' = v_deciding_role v" "dget DECISION_STATES (v_decision v) = Some (g_state g')"
    "\<exists>extra. g_evidenceRefs g' = g_evidenceRefs g @ extra"
    "g_state g' \<noteq> Applied" "g_state g' \<noteq> Open"
  using assms
  by (auto simp: decide_gate_def rbind_eq_Inr gate_ok_def DECISION_STATES_def split: option.splits if_splits)

lemma delegated_reason_None:
  "delegated_decision_failure_reason gate policy = Inr None \<longleftrightarrow> delegated_valid gate policy"
proof
  assume "delegated_decision_failure_reason gate policy = Inr None"
  then show "delegated_valid gate policy"
    by (auto simp: delegated_decision_failure_reason_def decision_attribution_failure_reason_def
        delegated_valid_def allows_role_def rbind_eq_Inr Let_def dest!: coerce_decision_role_Inr
        split: option.splits if_splits)
next
  assume "delegated_valid gate policy"
  then show "delegated_decision_failure_reason gate policy = Inr None"
    by (auto simp: delegated_decision_failure_reason_def decision_attribution_failure_reason_def
        delegated_valid_def allows_role_def Let_def)
qed

lemma decision_role_Human:
  "decision_role_for_gate gate = Inr (Some Human) \<longleftrightarrow> human_decided gate"
  using coerce_decision_role_str [of Human]
  by (auto simp: decision_role_for_gate_def human_decided_def rbind_eq_Inr
      split: option.splits decided_via.splits dest: coerce_decision_role_Inr)

lemma delegated_valid_role:
  "delegated_valid gate policy \<Longrightarrow> \<not> human_decided gate \<Longrightarrow>
   \<exists>r. decision_role_for_gate gate = Inr (Some r) \<and> r \<noteq> Human"
  by (auto simp: delegated_valid_def human_decided_def decision_role_for_gate_def)

lemma approval_failure_None: "approval_failure_reason gate policy = None \<longleftrightarrow> policy_valid gate policy"
proof (cases "human_decided gate")
  case True
  then show ?thesis
    using decision_role_Human [of gate] by (simp add: approval_failure_reason_def policy_valid_def)
next
  case False
  then have other: "decision_role_for_gate gate \<noteq> Inr (Some Human)"
    using decision_role_Human by blast
  show ?thesis
    using False other delegated_valid_role [OF _ False, of policy] delegated_reason_None [of gate policy]
    by (auto simp: approval_failure_reason_def policy_valid_def split: sum.splits option.splits decision_role.splits)
qed

end
