(* ===== verification/Enforcement.thy ===== *)
theory Enforcement
  imports Gate_Records
begin

section \<open>Gate enforcement\<close>

text \<open>
  \<^verbatim>\<open>controlplane/enforcement.py\<close>: does the folded gate set of a lifecycle permit a server-side mutation? The
  verdict is a record; its operator-facing reason is a constructor. The lemmas read off what a permitted
  verdict implies: no gate of the kind, a policy-valid approval on the latest one, or recovery of the very
  operation the approval was already bound to.
\<close>

datatype guard_reason =
    NoGateGoverns
  | ApprovedByValidDecider
  | ApprovalInvalid refusal
  | AwaitDecision string
  | BoundToThisOperation string
  | AlreadyApplied string
  | GateNotApproved string gate_state "string option"

record gate_guard =
  gg_kind :: gate_kind
  permitted :: bool
  reason :: guard_reason
  gg_gate_id :: "string option"

definition CLOSEOUT_GATE_KIND :: gate_kind where
  "CLOSEOUT_GATE_KIND = CloseoutApproval"

definition evaluate_gate ::
  "(string, gate_record) dict \<Rightarrow> gate_kind \<Rightarrow> gate_policy \<Rightarrow> string option \<Rightarrow> gate_guard" where
  "evaluate_gate gates kind policy operation_key =
     (case max_by g_ts (filter (\<lambda>g. g_kind g = kind) (dvalues gates)) of
        None \<Rightarrow> \<lparr>gg_kind = kind, permitted = True, reason = NoGateGoverns, gg_gate_id = None\<rparr>
      | Some gate \<Rightarrow>
          (case g_state gate of
             Approved \<Rightarrow>
               (case approval_failure_reason gate policy of
                  None \<Rightarrow> \<lparr>gg_kind = kind, permitted = True, reason = ApprovedByValidDecider,
                           gg_gate_id = Some (g_id gate)\<rparr>
                | Some f \<Rightarrow> \<lparr>gg_kind = kind, permitted = False, reason = ApprovalInvalid f,
                             gg_gate_id = Some (g_id gate)\<rparr>)
           | Open \<Rightarrow> \<lparr>gg_kind = kind, permitted = False, reason = AwaitDecision (g_id gate),
                      gg_gate_id = Some (g_id gate)\<rparr>
           | Applied \<Rightarrow>
               (let recovering = (operation_key \<noteq> None \<and> g_appliedOperation gate = operation_key)
                in \<lparr>gg_kind = kind, permitted = recovering,
                    reason = (if recovering then BoundToThisOperation (g_id gate) else AlreadyApplied (g_id gate)),
                    gg_gate_id = Some (g_id gate)\<rparr>)
           | st \<Rightarrow> \<lparr>gg_kind = kind, permitted = False,
                    reason = GateNotApproved (g_id gate) st (g_decisionNote gate),
                    gg_gate_id = Some (g_id gate)\<rparr>))"

definition evaluate_closeout_gate ::
  "(string, gate_record) dict \<Rightarrow> gate_policy \<Rightarrow> string option \<Rightarrow> gate_guard" where
  "evaluate_closeout_gate gates policy operation_key = evaluate_gate gates CLOSEOUT_GATE_KIND policy operation_key"

definition governing_gate :: "(string, gate_record) dict \<Rightarrow> gate_kind \<Rightarrow> gate_record option" where
  "governing_gate gates kind = max_by g_ts (filter (\<lambda>g. g_kind g = kind) (dvalues gates))"

lemma governing_gate_None:
  "governing_gate gates kind = None \<longleftrightarrow> (\<forall>g\<in>set (dvalues gates). g_kind g \<noteq> kind)"
  by (auto simp: governing_gate_def filter_empty_conv)

lemma governing_gate_Some:
  "governing_gate gates kind = Some g \<Longrightarrow>
   g \<in> set (dvalues gates) \<and> g_kind g = kind \<and>
   (\<forall>h\<in>set (dvalues gates). g_kind h = kind \<longrightarrow> g_ts h \<le> g_ts g)"
  unfolding governing_gate_def using max_by_in max_by_ge by fastforce

lemma evaluate_gate_None:
  "governing_gate gates kind = None \<Longrightarrow>
   evaluate_gate gates kind policy key =
     \<lparr>gg_kind = kind, permitted = True, reason = NoGateGoverns, gg_gate_id = None\<rparr>"
  by (simp add: evaluate_gate_def governing_gate_def)

lemma evaluate_gate_Some:
  "governing_gate gates kind = Some g \<Longrightarrow>
   permitted (evaluate_gate gates kind policy key) =
     ((g_state g = Approved \<and> policy_valid g policy) \<or>
      (g_state g = Applied \<and> key \<noteq> None \<and> g_appliedOperation g = key))
   \<and> gg_gate_id (evaluate_gate gates kind policy key) = Some (g_id g)"
  by (cases "g_state g")
    (auto simp: evaluate_gate_def governing_gate_def Let_def approval_failure_None [symmetric]
      split: option.splits)

lemma evaluate_gate_gate_id:
  "gg_gate_id (evaluate_gate gates kind policy key) = map_option g_id (governing_gate gates kind)"
  by (cases "governing_gate gates kind") (simp_all add: evaluate_gate_None evaluate_gate_Some)

lemma evaluate_gate_permitted_iff:
  "permitted (evaluate_gate gates kind policy key) \<longleftrightarrow>
   (case governing_gate gates kind of
      None \<Rightarrow> True
    | Some g \<Rightarrow> (g_state g = Approved \<and> policy_valid g policy) \<or>
                (g_state g = Applied \<and> key \<noteq> None \<and> g_appliedOperation g = key))"
  by (cases "governing_gate gates kind") (simp_all add: evaluate_gate_None evaluate_gate_Some)

end
