(* ===== verification/Py_Time.thy ===== *)
theory Py_Time
  imports Prelude Complex_Main
begin

section \<open>Dates, durations and the ageing of stamps\<close>

text \<open>
  The part of Python's \<^verbatim>\<open>datetime\<close> the control plane relies on, and
  \<^verbatim>\<open>controlplane/stamps.py\<close>.

  A \<^verbatim>\<open>datetime\<close> is its wall clock in microseconds since 0001-01-01T00:00:00 with an optional UTC
  offset in microseconds (\<^verbatim>\<open>None\<close>: naive). Subtracting or comparing a naive and an aware value
  raises \<^verbatim>\<open>TypeError\<close>; leaving the years 1 to 9999 raises \<^verbatim>\<open>OverflowError\<close>. Durations given as
  \<^verbatim>\<open>float\<close> seconds are rationals; \<^verbatim>\<open>timedelta(seconds=s)\<close> rounds them half-to-even to
  microseconds.

  The textual ISO-8601 form is a codec, a pair of functions every definition that prints or
  parses a stamp takes as an argument; \<^verbatim>\<open>None\<close> from the parser is the \<^verbatim>\<open>ValueError\<close> of
  \<^verbatim>\<open>datetime.fromisoformat\<close>. Nothing below depends on how a codec writes a stamp; where a theorem
  needs that a stamp written by the program can be read back, it says so (\<open>iso_reads_back\<close>).

  The clock argument \<^verbatim>\<open>now: datetime\<close> of the retention and sweep code is timezone-aware
  (\<^verbatim>\<open>datetime.now(UTC)\<close> at every call); it is the number of UTC microseconds, \<open>utc\<close> turns it into a
  \<^verbatim>\<open>datetime\<close>.
\<close>

record datetime =
  wall :: int
  utcoffset :: "int option"

record iso_codec =
  isoformat :: "datetime \<Rightarrow> string"
  fromisoformat :: "string \<Rightarrow> datetime option"

type_synonym clock = int
type_synonym seconds = rat

definition utc :: "clock \<Rightarrow> datetime" where
  "utc n = \<lparr>wall = n, utcoffset = Some 0\<rparr>"

definition iso_reads_back :: "iso_codec \<Rightarrow> datetime \<Rightarrow> bool" where
  "iso_reads_back c t \<longleftrightarrow> fromisoformat c (isoformat c t) = Some t"

definition is_naive :: "datetime \<Rightarrow> bool" where
  "is_naive t \<longleftrightarrow> utcoffset t = None"

text \<open>\<^verbatim>\<open>a - b\<close> in microseconds.\<close>

fun utc_us :: "datetime \<Rightarrow> int" where
  "utc_us t = wall t - (case utcoffset t of None \<Rightarrow> 0 | Some off \<Rightarrow> off)"

definition dt_sub :: "datetime \<Rightarrow> datetime \<Rightarrow> int res" where
  "dt_sub a b = (if is_naive a \<noteq> is_naive b then Inl TypeError else Inr (utc_us a - utc_us b))"

definition dt_le :: "datetime \<Rightarrow> datetime \<Rightarrow> bool res" where
  "dt_le a b = rbind (dt_sub b a) (\<lambda>d. Inr (0 \<le> d))"

definition dt_lt :: "datetime \<Rightarrow> datetime \<Rightarrow> bool res" where
  "dt_lt a b = rbind (dt_sub b a) (\<lambda>d. Inr (0 < d))"

definition total_seconds :: "int \<Rightarrow> seconds" where
  "total_seconds us = of_int us / 1000000"

definition round_half_even :: "rat \<Rightarrow> int" where
  "round_half_even x =
     (let f = \<lfloor>x\<rfloor>; r = x - of_int f
      in if r < 1/2 then f else if 1/2 < r then f + 1 else if even f then f else f + 1)"

definition timedelta_seconds :: "seconds \<Rightarrow> int" where
  "timedelta_seconds s = round_half_even (s * 1000000)"

definition max_wall :: int where
  "max_wall = 3652059 * 86400000000"

definition dt_in_range :: "int \<Rightarrow> bool" where
  "dt_in_range w \<longleftrightarrow> 0 \<le> w \<and> w < max_wall"

definition dt_add :: "datetime \<Rightarrow> int \<Rightarrow> datetime res" where
  "dt_add t us = (if dt_in_range (wall t + us) then Inr (t\<lparr>wall := wall t + us\<rparr>) else Inl OverflowError)"

lemma round_half_even_of_int [simp]: "round_half_even (of_int n) = n"
  by (simp add: round_half_even_def)

lemma timedelta_whole_seconds [simp]: "timedelta_seconds (of_int n) = n * 1000000"
proof -
  have "(of_int n :: rat) * 1000000 = of_int (n * 1000000)" by simp
  then show ?thesis unfolding timedelta_seconds_def by (metis round_half_even_of_int)
qed

lemma timedelta_numeral [simp]: "timedelta_seconds (numeral k) = numeral k * 1000000"
  using timedelta_whole_seconds [of "numeral k"] by simp

lemma round_half_even_mono_int: "of_int n \<le> x \<Longrightarrow> n \<le> round_half_even x"
proof -
  assume "of_int n \<le> x"
  then have "n \<le> \<lfloor>x\<rfloor>" by (simp add: le_floor_iff)
  then show ?thesis by (auto simp: round_half_even_def Let_def)
qed

lemma timedelta_lower_bound: "of_int n \<le> s \<Longrightarrow> n * 1000000 \<le> timedelta_seconds s"
  unfolding timedelta_seconds_def by (rule round_half_even_mono_int) simp

lemma total_seconds_le_iff [simp]:
  "total_seconds d \<le> of_int n \<longleftrightarrow> d \<le> n * 1000000"
proof -
  have "total_seconds d \<le> of_int n \<longleftrightarrow> (of_int d :: rat) \<le> of_int (n * 1000000)"
    by (simp add: total_seconds_def divide_le_eq)
  then show ?thesis by (simp only: of_int_le_iff)
qed

lemma total_seconds_less_iff [simp]:
  "total_seconds d < of_int n \<longleftrightarrow> d < n * 1000000"
proof -
  have "total_seconds d < of_int n \<longleftrightarrow> (of_int d :: rat) < of_int (n * 1000000)"
    by (simp add: total_seconds_def divide_less_eq)
  then show ?thesis by (simp only: of_int_less_iff)
qed

lemma total_seconds_le_numeral [simp]:
  "total_seconds d \<le> numeral k \<longleftrightarrow> d \<le> numeral k * 1000000"
  using total_seconds_le_iff [of d "numeral k"] by simp

lemma total_seconds_less_numeral [simp]:
  "total_seconds d < numeral k \<longleftrightarrow> d < numeral k * 1000000"
  using total_seconds_less_iff [of d "numeral k"] by simp

lemma dt_sub_utc [simp]: "dt_sub (utc a) (utc b) = Inr (a - b)"
  by (simp add: dt_sub_def utc_def is_naive_def)

subsection \<open>stamps.py\<close>

text \<open>
  \<^verbatim>\<open>age_seconds\<close>: an unparseable stamp has no age, a naive one is read as UTC. Since the clock is
  aware the subtraction cannot raise.
\<close>

definition as_utc :: "datetime \<Rightarrow> datetime" where
  "as_utc t = (if is_naive t then t\<lparr>utcoffset := Some 0\<rparr> else t)"

definition age_seconds :: "iso_codec \<Rightarrow> string \<Rightarrow> clock \<Rightarrow> seconds option" where
  "age_seconds c stamp now =
     (case fromisoformat c stamp of
        None \<Rightarrow> None
      | Some t \<Rightarrow> Some (total_seconds (now - utc_us (as_utc t))))"

lemma age_seconds_utc:
  "iso_reads_back c (utc t) \<Longrightarrow> age_seconds c (isoformat c (utc t)) now = Some (total_seconds (now - t))"
  by (simp add: iso_reads_back_def age_seconds_def as_utc_def is_naive_def utc_def)

subsection \<open>A concrete codec\<close>

text \<open>
  A codec for the examples: a UTC stamp is its microsecond count in decimal. It is not ISO-8601; the
  theorems hold for every codec, and this one shows that their hypotheses can be met.
\<close>

fun show_digits :: "nat \<Rightarrow> string" where
  "show_digits n =
     (if n < 10 then [char_of (48 + n)] else show_digits (n div 10) @ [char_of (48 + n mod 10)])"

declare show_digits.simps [simp del]

definition micro_codec :: iso_codec where
  "micro_codec =
     \<lparr>isoformat = (\<lambda>t. show_digits (nat (utc_us t))),
      fromisoformat = (\<lambda>s. if isdigit s then Some (utc (int_of_digits s)) else None)\<rparr>"

lemma show_digits_isdigit: "isdigit (show_digits n)"
proof (induction n rule: show_digits.induct)
  case (1 n)
  have d: "is_digit_char (char_of (48 + k))" if "k < 10" for k :: nat
    using that by (simp add: is_digit_char_def Let_def)
  show ?case
  proof (cases "n < 10")
    case True
    then show ?thesis by (subst show_digits.simps) (simp add: isdigit_def d)
  next
    case False
    with 1 show ?thesis by (subst show_digits.simps) (simp add: isdigit_def d)
  qed
qed

lemma int_of_digits_show: "int_of_digits (show_digits n) = int n"
proof (induction n rule: show_digits.induct)
  case (1 n)
  have d: "int (of_char (char_of (48 + k) :: char)) - 48 = int k" if "k < 10" for k :: nat
    using that by simp
  show ?case
  proof (cases "n < 10")
    case True
    then show ?thesis by (subst show_digits.simps) (simp add: int_of_digits_def d)
  next
    case False
    with 1 have "int_of_digits (show_digits (n div 10)) = int (n div 10)" by simp
    with False show ?thesis
      by (subst show_digits.simps) (simp add: int_of_digits_def d zdiv_int zmod_int)
  qed
qed

lemma micro_codec_reads_back: "0 \<le> t \<Longrightarrow> iso_reads_back micro_codec (utc t)"
  by (simp add: iso_reads_back_def micro_codec_def show_digits_isdigit int_of_digits_show)
    (simp add: utc_def)

end
