(* ===== verification/Inbox_Backoff.thy ===== *)
theory Inbox_Backoff
  imports Py_Time
begin

section \<open>Inbox vocabulary and redelivery backoff\<close>

text \<open>
  The operator-inbox vocabulary of \<^verbatim>\<open>models/operator_inbox.py\<close> and the redelivery arithmetic of
  \<^verbatim>\<open>kernel/primitives/inbox_backoff.py\<close>. The structural protocol \<^verbatim>\<open>RedeliverableEntry\<close> is a record the
  inbox entry extends, so the functions here apply to every extension of it.
\<close>

datatype inbox_state = Pending | Landed | Superseded | Unresolved | InboxExpired | Consumed | LadderResolved

datatype inbox_via = InboxChat | InboxDashboard | InboxCli

datatype agent_role =
    Developer | Operator | Designer | Strategist | RoleOrchestrator | RoleManager | Worker | Reviewer
  | SystemSpecialist | Architect | Curator | Agent | RoleSystem

fun agent_role_str :: "agent_role \<Rightarrow> string" where
  "agent_role_str Developer = ''developer''"
| "agent_role_str Operator = ''operator''"
| "agent_role_str Designer = ''designer''"
| "agent_role_str Strategist = ''strategist''"
| "agent_role_str RoleOrchestrator = ''orchestrator''"
| "agent_role_str RoleManager = ''manager''"
| "agent_role_str Worker = ''worker''"
| "agent_role_str Reviewer = ''reviewer''"
| "agent_role_str SystemSpecialist = ''system-specialist''"
| "agent_role_str Architect = ''architect''"
| "agent_role_str Curator = ''curator''"
| "agent_role_str Agent = ''agent''"
| "agent_role_str RoleSystem = ''system''"

datatype inbox_message_kind =
    PlainMessage | GateResponse | TurnReport | MasterHandover | Nudge | Escalation | DegradationAlert
  | DecisionItem | DecisionRuling | DispatchBrief | StateSignal

datatype inbox_delivery_state = DQueued | DNoHostedSession | DDelivered | DUnconfirmed

datatype adapter_delivery_state = AAccepted | AQueued | ARejected | AUnknown | ACompleted | AUnsupported

record redeliverable_entry =
  i_id :: string
  i_state :: inbox_state
  i_deliveryState :: inbox_delivery_state
  i_nextAttemptAt :: "string option"
  i_lastAttemptAt :: "string option"

definition BACKOFF_SCHEDULE_SECONDS :: "seconds list" where
  "BACKOFF_SCHEDULE_SECONDS = [30, 60, 300, 900, 3600, 21600]"

definition MIN_REDELIVERY_INTERVAL_SECONDS :: seconds where
  "MIN_REDELIVERY_INTERVAL_SECONDS = 900"

definition DEFAULT_RATE_LIMIT_SECONDS :: seconds where
  "DEFAULT_RATE_LIMIT_SECONDS = MIN_REDELIVERY_INTERVAL_SECONDS"

definition REDELIVERABLE_DELIVERY_STATES :: "inbox_delivery_state list" where
  "REDELIVERABLE_DELIVERY_STATES = [DQueued, DNoHostedSession, DDelivered, DUnconfirmed]"

definition backoff_seconds_for_attempt :: "int \<Rightarrow> seconds" where
  "backoff_seconds_for_attempt attempt_count =
     (let index = max 0 (min attempt_count (int (length BACKOFF_SCHEDULE_SECONDS) - 1))
      in BACKOFF_SCHEDULE_SECONDS ! nat index)"

definition require_redelivery_floor_seconds :: "seconds option \<Rightarrow> seconds res" where
  "require_redelivery_floor_seconds rate =
     (case rate of
        None \<Rightarrow> Inr DEFAULT_RATE_LIMIT_SECONDS
      | Some s \<Rightarrow> if s < MIN_REDELIVERY_INTERVAL_SECONDS then Inl (ValueError ''must be at least'') else Inr s)"

definition next_attempt_at :: "iso_codec \<Rightarrow> datetime \<Rightarrow> int \<Rightarrow> seconds option \<Rightarrow> string res" where
  "next_attempt_at c now attempt_count redelivery_floor =
     rbind (require_redelivery_floor_seconds redelivery_floor)
       (\<lambda>fl. rbind (dt_add now (timedelta_seconds (max (backoff_seconds_for_attempt attempt_count) fl)))
         (\<lambda>t. Inr (isoformat c t)))"

definition is_ladder_resolved :: "('a redeliverable_entry_scheme) \<Rightarrow> bool" where
  "is_ladder_resolved e \<longleftrightarrow> i_state e = LadderResolved"

definition is_due :: "iso_codec \<Rightarrow> 'a redeliverable_entry_scheme \<Rightarrow> clock \<Rightarrow> bool res" where
  "is_due c e now =
     (if is_ladder_resolved e \<or> i_state e \<noteq> Pending then Inr False
      else if i_deliveryState e \<notin> set REDELIVERABLE_DELIVERY_STATES then Inr False
      else case i_nextAttemptAt e of
             None \<Rightarrow> Inr True
           | Some s \<Rightarrow> (case fromisoformat c s of
                          None \<Rightarrow> Inr True
                        | Some due_at \<Rightarrow> dt_le due_at (utc now)))"

definition is_rate_limited :: "iso_codec \<Rightarrow> 'a redeliverable_entry_scheme \<Rightarrow> clock \<Rightarrow> seconds \<Rightarrow> bool res" where
  "is_rate_limited c e now rate_limit =
     rbind (require_redelivery_floor_seconds (Some rate_limit))
       (\<lambda>fl. case i_lastAttemptAt e of
          None \<Rightarrow> Inr False
        | Some s \<Rightarrow> (case fromisoformat c s of
                       None \<Rightarrow> Inr False
                     | Some last_attempt \<Rightarrow>
                         rbind (dt_sub (utc now) last_attempt) (\<lambda>d. Inr (total_seconds d < fl))))"

definition redeliverable_now ::
  "iso_codec \<Rightarrow> clock \<Rightarrow> seconds \<Rightarrow> 'a redeliverable_entry_scheme \<Rightarrow> bool res" where
  "redeliverable_now c now rate_limit e =
     (if is_ladder_resolved e then Inr False
      else rbind (is_due c e now)
             (\<lambda>due. if \<not> due then Inr False
                    else rbind (is_rate_limited c e now rate_limit) (\<lambda>limited. Inr (\<not> limited))))"

definition redeliverable ::
  "iso_codec \<Rightarrow> 'a redeliverable_entry_scheme list \<Rightarrow> clock \<Rightarrow> seconds \<Rightarrow>
   'a redeliverable_entry_scheme list res" where
  "redeliverable c entries now rate_limit = rfilter (redeliverable_now c now rate_limit) entries"

subsection \<open>The schedule\<close>

lemma agent_role_str_inj: "agent_role_str a = agent_role_str b \<Longrightarrow> a = b"
  by (cases a; cases b) simp_all

lemma redelivery_floor_Inr:
  "require_redelivery_floor_seconds rate = Inr fl \<Longrightarrow> 900 \<le> fl"
  by (auto simp: require_redelivery_floor_seconds_def DEFAULT_RATE_LIMIT_SECONDS_def
      MIN_REDELIVERY_INTERVAL_SECONDS_def split: option.splits if_splits)

lemma backoff_cases:
  "backoff_seconds_for_attempt n =
     (if n \<le> 0 then 30 else if n = 1 then 60 else if n = 2 then 300 else if n = 3 then 900
      else if n = 4 then 3600 else 21600)"
proof -
  consider "n \<le> 0" | "n = 1" | "n = 2" | "n = 3" | "n = 4" | "5 \<le> n" by linarith
  then show ?thesis
    by cases (simp_all add: backoff_seconds_for_attempt_def BACKOFF_SCHEDULE_SECONDS_def numeral_2_eq_2 numeral_3_eq_3)
qed

lemma next_attempt_at_Inr:
  assumes "next_attempt_at c now n fl0 = Inr s"
  shows "\<exists>us. 900 * 1000000 \<le> us \<and> dt_add now us = Inr (now\<lparr>wall := wall now + us\<rparr>) \<and>
              s = isoformat c (now\<lparr>wall := wall now + us\<rparr>)"
proof -
  from assms obtain fl t where fl: "require_redelivery_floor_seconds fl0 = Inr fl"
    and t: "dt_add now (timedelta_seconds (max (backoff_seconds_for_attempt n) fl)) = Inr t"
    and s: "s = isoformat c t"
    by (auto simp: next_attempt_at_def rbind_eq_Inr)
  let ?us = "timedelta_seconds (max (backoff_seconds_for_attempt n) fl)"
  have "900 \<le> max (backoff_seconds_for_attempt n) fl"
    using redelivery_floor_Inr [OF fl] by simp
  then have "900 * 1000000 \<le> ?us" using timedelta_lower_bound [of 900] by simp
  moreover from t have "t = now\<lparr>wall := wall now + ?us\<rparr>"
    by (auto simp: dt_add_def split: if_splits)
  ultimately show ?thesis using t s by blast
qed

lemma redeliverable_now_True:
  assumes "redeliverable_now c now rate e = Inr True"
  shows "i_state e = Pending" "is_due c e now = Inr True" "is_rate_limited c e now rate = Inr False"
  using assms
  by (auto simp: redeliverable_now_def is_due_def rbind_eq_Inr split: if_splits)

end
