(* ===== verification/Py_Text.thy ===== *)
theory Py_Text
  imports Prelude
begin

section \<open>Text\<close>

text \<open>
  The methods of \<^verbatim>\<open>str\<close> that the parsers of the development use, over characters of eight bits: splitting at a separator,
  at line boundaries, and finding a substring.
\<close>

text \<open>\<^verbatim>\<open>s.split(c)\<close>.\<close>

fun split_on :: "char \<Rightarrow> string \<Rightarrow> string list" where
  "split_on c [] = [[]]"
| "split_on c (x # xs) =
     (if x = c then [] # split_on c xs
      else case split_on c xs of [] \<Rightarrow> [[x]] | p # ps \<Rightarrow> (x # p) # ps)"

definition lower_char :: "char \<Rightarrow> char" where
  "lower_char c = (let n = (of_char c :: nat) in if 65 \<le> n \<and> n \<le> 90 then char_of (n + 32) else c)"

definition upper_char :: "char \<Rightarrow> char" where
  "upper_char c = (let n = (of_char c :: nat) in if 97 \<le> n \<and> n \<le> 122 then char_of (n - 32) else c)"

text \<open>\<^verbatim>\<open>sep.join(ss)\<close>.\<close>

fun join_text :: "string \<Rightarrow> string list \<Rightarrow> string" where
  "join_text sep [] = []"
| "join_text sep [s] = s"
| "join_text sep (s # ss) = s @ sep @ join_text sep ss"

text \<open>
  \<^verbatim>\<open>str(value)\<close> of a payload value: a string is itself, everything else its \<^verbatim>\<open>repr\<close>. A character above 127 stands for itself.
\<close>

fun nat_text :: "nat \<Rightarrow> string" where
  "nat_text n = (if n < 10 then [char_of (48 + n)] else nat_text (n div 10) @ [char_of (48 + n mod 10)])"

declare nat_text.simps [simp del]

definition int_text :: "int \<Rightarrow> string" where
  "int_text n = (if n < 0 then CHR ''-'' # nat_text (nat (- n)) else nat_text (nat n))"

definition hex_digit :: "nat \<Rightarrow> char" where
  "hex_digit n = ''0123456789abcdef'' ! n"

definition repr_char :: "char \<Rightarrow> char \<Rightarrow> string" where
  "repr_char quote c =
     (let n = (of_char c :: nat) in
      if c = quote \<or> n = 92 then [CHR 0x5C, c]
      else if n = 10 then [CHR 0x5C, CHR ''n''] else if n = 13 then [CHR 0x5C, CHR ''r''] else if n = 9 then [CHR 0x5C, CHR ''t'']
      else if n < 32 \<or> n = 127 then [CHR 0x5C, CHR ''x'', hex_digit (n div 16), hex_digit (n mod 16)] else [c])"

definition repr_string :: "string \<Rightarrow> string" where
  "repr_string s =
     (let quote = (if CHR 0x27 \<in> set s \<and> CHR 0x22 \<notin> set s then CHR 0x22 else CHR 0x27)
      in quote # concat (map (repr_char quote) s) @ [quote])"

fun py_repr :: "json \<Rightarrow> string" and py_reprs :: "json list \<Rightarrow> string list" and py_repr_items :: "(string \<times> json) list \<Rightarrow> string list" where
  "py_repr JNull = ''None''"
| "py_repr (JBool b) = (if b then ''True'' else ''False'')"
| "py_repr (JNum n) = int_text n"
| "py_repr (JStr s) = repr_string s"
| "py_repr (JList xs) = CHR ''['' # join_text '', '' (py_reprs xs) @ '']''"
| "py_repr (JObj kvs) = CHR ''{'' # join_text '', '' (py_repr_items kvs) @ ''}''"
| "py_reprs [] = []"
| "py_reprs (x # xs) = py_repr x # py_reprs xs"
| "py_repr_items [] = []"
| "py_repr_items ((k, v) # kvs) = (repr_string k @ '': '' @ py_repr v) # py_repr_items kvs"

fun py_str :: "json \<Rightarrow> string" where
  "py_str (JStr s) = s"
| "py_str v = py_repr v"

definition starts_with :: "string \<Rightarrow> string \<Rightarrow> bool" where
  "starts_with pre s \<longleftrightarrow> take (length pre) s = pre"

text \<open>\<^verbatim>\<open>s.find(sub)\<close>: what stands before the first occurrence, and what follows it.\<close>

fun cut_at :: "string \<Rightarrow> string \<Rightarrow> (string \<times> string) option" where
  "cut_at sub [] = (if sub = [] then Some ([], []) else None)"
| "cut_at sub (c # cs) =
     (if starts_with sub (c # cs) then Some ([], drop (length sub) (c # cs))
      else map_option (\<lambda>(before, rest). (c # before, rest)) (cut_at sub cs))"

text \<open>
  \<^verbatim>\<open>s.splitlines()\<close>: line feed, carriage return (alone or before a line feed), vertical tab, form feed, the three separators
  and next line end a line; no empty line follows the last of them.
\<close>

definition line_break :: "char \<Rightarrow> bool" where
  "line_break c \<longleftrightarrow> (let n = (of_char c :: nat) in (10 \<le> n \<and> n \<le> 13) \<or> (28 \<le> n \<and> n \<le> 30) \<or> n = 133)"

fun splitlines :: "string \<Rightarrow> string list" where
  "splitlines [] = []"
| "splitlines (c # cs) =
     (if c = CHR 0x0D \<and> take 1 cs = [CHR 0x0A] then [] # splitlines (drop 1 cs)
      else if line_break c then [] # splitlines cs
      else case splitlines cs of [] \<Rightarrow> [[c]] | l # ls \<Rightarrow> (c # l) # ls)"

lemma split_on_parts: "p \<in> set (split_on c s) \<Longrightarrow> c \<notin> set p"
  by (induction s arbitrary: p) (auto split: if_splits list.splits)

lemma split_on_nonempty [simp]: "split_on c s \<noteq> []"
  by (cases s) (auto split: list.splits)

lemma split_on_no_sep: "c \<notin> set p \<Longrightarrow> split_on c p = [p]"
  by (induction p) auto

lemma split_on_append: "c \<notin> set p \<Longrightarrow> split_on c (p @ c # q) = p # split_on c q"
  by (induction p) auto

lemma starts_with_append [simp]: "starts_with pre (pre @ s)"
  by (simp add: starts_with_def)

lemma starts_with_iff: "starts_with pre s \<longleftrightarrow> (\<exists>t. s = pre @ t)"
  by (metis append_eq_conv_conj append_take_drop_id starts_with_def)

text \<open>Where a substring can only start behind a text, it is found there first.\<close>

lemma cut_at_found:
  assumes "sub \<noteq> []" "\<And>k. k < length before \<Longrightarrow> \<not> starts_with sub (drop k before @ sub @ rest)"
  shows "cut_at sub (before @ sub @ rest) = Some (before, rest)"
  using assms(2)
proof (induction before)
  case Nil
  with assms(1) show ?case by (cases sub) (auto simp: starts_with_def)
next
  case (Cons c before)
  from Cons.prems [of 0] have "\<not> starts_with sub (c # before @ sub @ rest)" by simp
  moreover have "cut_at sub (before @ sub @ rest) = Some (before, rest)"
    using Cons.prems [of "Suc k" for k] by (intro Cons.IH) auto
  ultimately show ?case by simp
qed

lemma splitlines_line:
  assumes "\<forall>c\<in>set l. \<not> line_break c"
  shows "splitlines (l @ CHR 0x0A # rest) = l # splitlines rest"
  using assms
proof (induction l)
  case Nil
  show ?case by (simp add: line_break_def)
next
  case (Cons c l)
  then have "\<not> line_break c" "c \<noteq> CHR 0x0D" by (auto simp: line_break_def)
  with Cons show ?case by simp
qed

lemma splitlines_lines:
  "\<forall>l\<in>set ls. \<forall>c\<in>set l. \<not> line_break c \<Longrightarrow>
   splitlines (concat (map (\<lambda>l. l @ [CHR 0x0A]) ls) @ rest) = ls @ splitlines rest"
  by (induction ls) (simp_all add: splitlines_line)

lemma dropWhile_id: "xs = [] \<or> \<not> P (hd xs) \<Longrightarrow> dropWhile P xs = xs"
  by (cases xs) auto

lemma strip_id: "s = [] \<or> \<not> is_space (hd s) \<and> \<not> is_space (last s) \<Longrightarrow> strip s = s"
  by (auto simp: strip_def dropWhile_id hd_rev)

lemma strip_ends: "strip s = [] \<or> \<not> is_space (hd (strip s)) \<and> \<not> is_space (last (strip s))"
proof -
  let ?r = "dropWhile is_space s"
  define t where "t = dropWhile is_space (rev ?r)"
  have s: "strip s = rev t" by (simp add: strip_def t_def)
  show ?thesis
  proof (cases "t = []")
    case False
    then have "\<not> is_space (hd t)" unfolding t_def by (rule hd_dropWhile)
    obtain pre where pre: "rev ?r = pre @ t" using t_def by (metis takeWhile_dropWhile_id)
    then have "?r = rev t @ rev pre" by (metis rev_append rev_rev_ident)
    with False have "hd ?r = last t" "?r \<noteq> []" by (simp_all add: hd_rev)
    then have "\<not> is_space (last t)" by (metis hd_dropWhile)
    with \<open>\<not> is_space (hd t)\<close> False show ?thesis by (simp add: s hd_rev last_rev)
  qed (simp add: s)
qed

lemma strip_strip [simp]: "strip (strip s) = strip s"
  by (rule strip_id) (rule strip_ends)

lemma strip_Cons_space [simp]: "is_space c \<Longrightarrow> strip (c # s) = strip s"
  by (simp add: strip_def)

lemma strip_snoc_space [simp]: "is_space c \<Longrightarrow> strip (s @ [c]) = strip s"
  by (cases "\<forall>x\<in>set s. is_space x") (auto simp: strip_def dropWhile_append dropWhile_eq_Nil_conv [THEN iffD2])

lemma strip_eq_Nil: "strip s = [] \<longleftrightarrow> (\<forall>c\<in>set s. is_space c)"
proof -
  have "strip s = [] \<longleftrightarrow> (\<forall>c\<in>set (dropWhile is_space s). is_space c)" by (simp add: strip_def dropWhile_eq_Nil_conv)
  also have "\<dots> \<longleftrightarrow> dropWhile is_space s = []" by (metis empty_iff empty_set hd_dropWhile hd_in_set)
  finally show ?thesis by (simp add: dropWhile_eq_Nil_conv)
qed

end
