(* ===== verification/Task_Ref.thy ===== *)
theory Task_Ref
  imports Py_Text
begin

section \<open>Task-document references\<close>

text \<open>
  \<^verbatim>\<open>models/task_document_ref.py\<close>: the canonical identity of a task document, a repository segment and a
  confined relative JSON path. The two field validators are functions into \<open>res\<close>; the part of
  \<^verbatim>\<open>PurePosixPath\<close> they use (parts without empty and dot segments, the suffix of the last part, joining
  with slashes) is written out.
\<close>

record task_document_ref =
  ref_repository :: string
  ref_path :: string

fun join_slash :: "string list \<Rightarrow> string" where
  "join_slash [] = ''''"
| "join_slash [p] = p"
| "join_slash (p # ps) = p @ ''/'' @ join_slash ps"

definition posix_parts :: "string \<Rightarrow> string list" where
  "posix_parts s = filter (\<lambda>p. p \<noteq> '''' \<and> p \<noteq> ''.'') (split_on CHR ''/'' s)"

text \<open>\<^verbatim>\<open>path.suffix\<close>: from the last dot of the name, unless the dot is first or last.\<close>

definition suffix_of_name :: "string \<Rightarrow> string" where
  "suffix_of_name name =
     (let tail = takeWhile (\<lambda>c. c \<noteq> CHR ''.'') (rev name); n = length tail
      in if n = 0 \<or> length name \<le> n + 1 then '''' else CHR ''.'' # rev tail)"

definition path_suffix :: "string \<Rightarrow> string" where
  "path_suffix s = (let ps = posix_parts s in if ps = [] then '''' else suffix_of_name (last ps))"

definition repository_is_one_segment :: "string \<Rightarrow> string res" where
  "repository_is_one_segment value =
     (let cleaned = strip value
      in if cleaned = '''' \<or> cleaned \<in> {''.'', ''..''} \<or> CHR ''/'' \<in> set cleaned \<or> CHR 0x5C \<in> set cleaned
         then Inl (ValueError ''repository must be one non-blank path segment'') else Inr cleaned)"

definition path_is_confined_json :: "string \<Rightarrow> string res" where
  "path_is_confined_json value =
     (let cleaned = map (\<lambda>c. if c = CHR 0x5C then CHR ''/'' else c) (strip value);
          parts = posix_parts cleaned
      in if cleaned = '''' \<or> take 1 cleaned = ''/'' \<or> (\<exists>p\<in>set parts. p \<in> {'''', ''.'', ''..''})
         then Inl (ValueError ''task document path must be a confined relative path'')
         else if map lower_char (path_suffix cleaned) \<noteq> ''.json''
         then Inl (ValueError ''task document path must name the JSON-primary task document'')
         else Inr (join_slash parts))"

definition make_task_document_ref :: "string \<Rightarrow> string \<Rightarrow> task_document_ref res" where
  "make_task_document_ref repository path =
     rbind (repository_is_one_segment repository)
       (\<lambda>r. rbind (path_is_confined_json path) (\<lambda>p. Inr \<lparr>ref_repository = r, ref_path = p\<rparr>))"

definition ref_key :: "task_document_ref \<Rightarrow> string" where
  "ref_key r = ref_repository r @ ''/'' @ ref_path r"

lemma split_join_slash:
  "ps \<noteq> [] \<Longrightarrow> \<forall>p\<in>set ps. CHR ''/'' \<notin> set p \<Longrightarrow> split_on CHR ''/'' (join_slash ps) = ps"
  by (induction ps rule: join_slash.induct) (auto simp: split_on_no_sep split_on_append)

lemma posix_parts_join:
  assumes "ps = posix_parts s" "ps \<noteq> []"
  shows "posix_parts (join_slash ps) = ps"
proof -
  have "\<forall>p\<in>set ps. CHR ''/'' \<notin> set p" and good: "\<forall>p\<in>set ps. p \<noteq> '''' \<and> p \<noteq> ''.''"
    using assms(1) by (auto simp: posix_parts_def dest: split_on_parts)
  then have "split_on CHR ''/'' (join_slash ps) = ps"
    using assms(2) split_join_slash by blast
  then show ?thesis using good by (simp add: posix_parts_def)
qed

lemma path_is_confined_json_Inr:
  assumes "path_is_confined_json value = Inr p"
  obtains s where "posix_parts p = posix_parts s" "posix_parts s \<noteq> []" "p = join_slash (posix_parts s)"
    "''..'' \<notin> set (posix_parts s)" "map lower_char (suffix_of_name (last (posix_parts s))) = ''.json''"
proof -
  define s where "s = map (\<lambda>c. if c = CHR 0x5C then CHR ''/'' else c) (strip value)"
  from assms have dd: "''..'' \<notin> set (posix_parts s)" and suf: "map lower_char (path_suffix s) = ''.json''"
    and p: "p = join_slash (posix_parts s)"
    by (auto simp: path_is_confined_json_def Let_def s_def split: if_splits)
  from suf have ne: "posix_parts s \<noteq> []" by (auto simp: path_suffix_def)
  with suf have "map lower_char (suffix_of_name (last (posix_parts s))) = ''.json''"
    by (simp add: path_suffix_def Let_def)
  with dd p ne posix_parts_join [OF refl ne] that [of s] show thesis by simp
qed

end
