(* ===== verification/Inbox_Records.thy ===== *)
theory Inbox_Records
  imports Inbox_Backoff Task_Ref Durable_Store
begin

section \<open>Operator-inbox records\<close>

text \<open>
  \<^verbatim>\<open>controlplane/operator_inbox_records.py\<close>: the inbox snapshot, the addressing and posting arguments, the
  fold that never lets a stale pending snapshot undo a terminal one, creation, and the attribution mark.
  \<open>i_model_extra\<close> holds the names of fields the class does not declare (\<^verbatim>\<open>extra="allow"\<close>).
\<close>

record operator_inbox_entry = redeliverable_entry +
  i_schemaVersion :: string
  i_schema :: string
  i_ts :: string
  i_lifecycleId :: "string option"
  i_agentId :: "string option"
  i_taskDocumentRef :: "task_document_ref option"
  i_senderAgentId :: "string option"
  i_senderRole :: "agent_role option"
  i_recipientRole :: "agent_role option"
  i_gateId :: "string option"
  i_messageKind :: inbox_message_kind
  i_artifactPath :: "string option"
  i_subjectTaskDocumentRef :: "task_document_ref option"
  i_seatRole :: "string option"
  i_subjectAgentId :: "string option"
  i_ask :: string
  i_response :: string
  i_createdAt :: string
  i_createdBy :: string
  i_createdVia :: inbox_via
  i_deliveredAt :: "string option"
  i_deliveredToSession :: "string option"
  i_deliveryDetail :: "string option"
  i_adapterDeliveryState :: "adapter_delivery_state option"
  i_adapterRequestId :: "string option"
  i_adapterVendorCorrelationId :: "string option"
  i_adapterAcceptedAt :: "string option"
  i_adapterCompletedAt :: "string option"
  i_adapterDeliveryDetail :: "string option"
  i_consumedAt :: "string option"
  i_consumedBy :: "string option"
  i_consumedVia :: "inbox_via option"
  i_ladderResolvedAt :: "string option"
  i_ladderResolvedReason :: "string option"
  i_attemptCount :: int
  i_terminalAt :: "string option"
  i_terminalReason :: "string option"
  i_supersededBy :: "string option"
  i_escalatedAt :: "string option"
  i_rungTransitionAt :: "string option"
  i_rung :: int
  i_ownerRole :: "agent_role option"
  i_ownerTaskDocumentRef :: "task_document_ref option"
  i_ownerAgentId :: "string option"
  i_ownerLifecycleId :: "string option"
  i_model_extra :: "string list"

definition OPERATOR_INBOX_RECORD_SCHEMA :: string where
  "OPERATOR_INBOX_RECORD_SCHEMA = ''ar-operator-inbox-entry/v2''"

definition OPERATOR_INBOX_FORWARD_COMPATIBLE_FIELDS :: "string list" where
  "OPERATOR_INBOX_FORWARD_COMPATIBLE_FIELDS = [''adapterDeliveryState'', ''adapterDeliveryDetail'']"

definition state_signal_landed :: "operator_inbox_entry \<Rightarrow> bool" where
  "state_signal_landed e \<longleftrightarrow> i_state e = Landed"

record inbox_address =
  addr_task_document_ref :: "task_document_ref option"
  addr_lifecycle_id :: "string option"
  addr_agent_id :: "string option"
  addr_recipient_role :: "agent_role option"

record inbox_owner =
  owner_role :: "agent_role option"
  owner_task_document_ref :: "task_document_ref option"
  owner_agent_id :: "string option"
  owner_lifecycle_id :: "string option"

record inbox_routing =
  routing_address :: inbox_address
  routing_owner :: inbox_owner

record inbox_subject =
  subj_task_document_ref :: "task_document_ref option"
  subj_seat_role :: "string option"
  subj_agent_id :: "string option"

record inbox_message =
  msg_ask :: string
  msg_response :: string
  msg_kind :: inbox_message_kind
  msg_gate_id :: "string option"
  msg_artifact_path :: "string option"
  msg_subject :: inbox_subject

record inbox_poster =
  post_created_by :: string
  post_created_via :: inbox_via
  post_sender_agent_id :: "string option"
  post_sender_role :: "agent_role option"

definition require_inbox_address ::
  "task_document_ref option \<Rightarrow> string option \<Rightarrow> string option \<Rightarrow> agent_role option \<Rightarrow> unit res" where
  "require_inbox_address doc lifecycle_id agent_id recipient_role =
     (if doc = None \<and> lifecycle_id = None \<and> agent_id = None \<and> recipient_role = None
      then Inl (ValueError ''operator inbox requires a mailbox key'') else Inr ())"

definition reject_unknown_extensions :: "operator_inbox_entry \<Rightarrow> operator_inbox_entry res" where
  "reject_unknown_extensions e =
     (if set (i_model_extra e) - set OPERATOR_INBOX_FORWARD_COMPATIBLE_FIELDS \<noteq> {}
      then Inl (ValueError ''operator inbox record has unsupported fields'') else Inr e)"

text \<open>The validator of the class: the schema major and the forward-compatibility allowlist.\<close>

definition inbox_ok :: "operator_inbox_entry \<Rightarrow> bool" where
  "inbox_ok e \<longleftrightarrow>
     schema_version_supported (i_schemaVersion e) \<and>
     set (i_model_extra e) \<subseteq> set OPERATOR_INBOX_FORWARD_COMPATIBLE_FIELDS"

definition fold_inbox_step ::
  "(string, operator_inbox_entry) dict \<Rightarrow> operator_inbox_entry \<Rightarrow> (string, operator_inbox_entry) dict" where
  "fold_inbox_step current entry =
     (case dget current (i_id entry) of
        Some previous \<Rightarrow>
          if i_state previous \<noteq> Pending \<and> i_state entry = Pending then current
          else dput (i_id entry) entry current
      | None \<Rightarrow> dput (i_id entry) entry current)"

definition fold_operator_inbox_entries ::
  "operator_inbox_entry list \<Rightarrow> (string, operator_inbox_entry) dict" where
  "fold_operator_inbox_entries entries = foldl fold_inbox_step [] entries"

definition create_operator_inbox_entry ::
  "inbox_message \<Rightarrow> string \<Rightarrow> string \<Rightarrow> inbox_routing \<Rightarrow> inbox_poster \<Rightarrow> operator_inbox_entry res" where
  "create_operator_inbox_entry message entry_id now routing poster =
     (let address = routing_address routing; owner = routing_owner routing; subject = msg_subject message
      in rbind (require_inbox_address (addr_task_document_ref address) (addr_lifecycle_id address)
                  (addr_agent_id address) (addr_recipient_role address))
          (\<lambda>_. Inr
            \<lparr>i_id = entry_id, i_state = Pending, i_deliveryState = DQueued,
             i_nextAttemptAt = None, i_lastAttemptAt = None,
             i_schemaVersion = SCHEMA_VERSION, i_schema = OPERATOR_INBOX_RECORD_SCHEMA, i_ts = now,
             i_lifecycleId = addr_lifecycle_id address, i_agentId = addr_agent_id address,
             i_taskDocumentRef = addr_task_document_ref address,
             i_senderAgentId = post_sender_agent_id poster, i_senderRole = post_sender_role poster,
             i_recipientRole = addr_recipient_role address, i_gateId = msg_gate_id message,
             i_messageKind = msg_kind message, i_artifactPath = msg_artifact_path message,
             i_subjectTaskDocumentRef = subj_task_document_ref subject,
             i_seatRole = subj_seat_role subject, i_subjectAgentId = subj_agent_id subject,
             i_ask = msg_ask message, i_response = msg_response message, i_createdAt = now,
             i_createdBy = post_created_by poster, i_createdVia = post_created_via poster,
             i_deliveredAt = None, i_deliveredToSession = None, i_deliveryDetail = None,
             i_adapterDeliveryState = None, i_adapterRequestId = None,
             i_adapterVendorCorrelationId = None, i_adapterAcceptedAt = None,
             i_adapterCompletedAt = None, i_adapterDeliveryDetail = None,
             i_consumedAt = None, i_consumedBy = None, i_consumedVia = None,
             i_ladderResolvedAt = None, i_ladderResolvedReason = None, i_attemptCount = 0,
             i_terminalAt = None, i_terminalReason = None, i_supersededBy = None,
             i_escalatedAt = None, i_rungTransitionAt = None, i_rung = 0,
             i_ownerRole = owner_role owner, i_ownerTaskDocumentRef = owner_task_document_ref owner,
             i_ownerAgentId = owner_agent_id owner, i_ownerLifecycleId = owner_lifecycle_id owner,
             i_model_extra = []\<rparr>))"

text \<open>\<^verbatim>\<open>None\<close> stands for "the very object that was passed in", which the caller tests with \<^verbatim>\<open>is\<close>.\<close>

definition consume_operator_inbox_entry ::
  "operator_inbox_entry \<Rightarrow> string \<Rightarrow> string \<Rightarrow> inbox_via \<Rightarrow> operator_inbox_entry option" where
  "consume_operator_inbox_entry entry now consumed_by consumed_via =
     (if i_consumedAt entry \<noteq> None then None
      else Some (entry\<lparr>i_ts := now, i_consumedAt := Some now, i_consumedBy := Some consumed_by,
                       i_consumedVia := Some consumed_via\<rparr>))"

subsection \<open>What the fold gives\<close>

lemma fold_inbox_Nil [simp, fold_simps]: "fold_operator_inbox_entries [] = []"
  by (simp add: fold_operator_inbox_entries_def)

lemma fold_inbox_snoc [fold_simps]:
  "fold_operator_inbox_entries (es @ [e]) = fold_inbox_step (fold_operator_inbox_entries es) e"
  by (simp add: fold_operator_inbox_entries_def)

lemma dict_ok_fold_inbox [simp, intro]: "dict_ok (fold_operator_inbox_entries es)"
  by (induction es rule: rev_induct)
    (auto simp: fold_inbox_snoc fold_inbox_step_def distinct_update split: option.splits)

lemma fold_inbox_get_snoc:
  "dget (fold_operator_inbox_entries (es @ [e])) k =
     (if i_id e \<noteq> k then dget (fold_operator_inbox_entries es) k
      else case dget (fold_operator_inbox_entries es) k of
             Some p \<Rightarrow> if i_state p \<noteq> Pending \<and> i_state e = Pending then Some p else Some e
           | None \<Rightarrow> Some e)"
  by (auto simp: fold_inbox_snoc fold_inbox_step_def split: option.splits)

text \<open>The last terminal snapshot of an id wins over every pending one; among pending ones the last wins.\<close>

lemma fold_inbox_get:
  "dget (fold_operator_inbox_entries es) k =
     (case last_with (\<lambda>e. i_id e = k \<and> i_state e \<noteq> Pending) es of
        Some e \<Rightarrow> Some e
      | None \<Rightarrow> last_with (\<lambda>e. i_id e = k) es)"
proof (induction es rule: rev_induct)
  case Nil
  show ?case by simp
next
  case (snoc e es)
  let ?T = "last_with (\<lambda>e. i_id e = k \<and> i_state e \<noteq> Pending) es"
  show ?case
  proof (cases ?T)
    case None
    have "i_state p = Pending" if "dget (fold_operator_inbox_entries es) k = Some p" for p
    proof -
      from that snoc None have "last_with (\<lambda>e. i_id e = k) es = Some p" by simp
      then have "p \<in> set es \<and> i_id p = k" by (rule last_with_Some)
      with None show ?thesis unfolding last_with_None by blast
    qed
    with None snoc show ?thesis
      by (cases "last_with (\<lambda>e. i_id e = k) es") (simp_all add: fold_inbox_get_snoc)
  next
    case (Some t)
    then have "i_state t \<noteq> Pending" using last_with_Some by fastforce
    with Some snoc show ?thesis by (simp add: fold_inbox_get_snoc)
  qed
qed

lemma fold_inbox_key:
  "dget (fold_operator_inbox_entries es) k = Some e \<Longrightarrow> i_id e = k \<and> e \<in> set es"
  by (auto simp: fold_inbox_get split: option.splits dest: last_with_Some)

lemma fold_inbox_values:
  "e \<in> set (dvalues (fold_operator_inbox_entries es)) \<longleftrightarrow>
   dget (fold_operator_inbox_entries es) (i_id e) = Some e"
proof -
  have "e \<in> set (dvalues (fold_operator_inbox_entries es)) \<longleftrightarrow>
    (\<exists>k. dget (fold_operator_inbox_entries es) k = Some e)"
    by (rule dict_ok_value_iff) (rule dict_ok_fold_inbox)
  then show ?thesis by (metis fold_inbox_key)
qed

lemma fold_inbox_terminal_stays:
  assumes "dget (fold_operator_inbox_entries es) k = Some e" "i_state e \<noteq> Pending"
  shows "\<exists>e'. dget (fold_operator_inbox_entries (es @ fs)) k = Some e' \<and> i_state e' \<noteq> Pending"
proof (induction fs rule: rev_induct)
  case Nil
  then show ?case using assms by simp
next
  case (snoc f fs)
  then obtain e' where e': "dget (fold_operator_inbox_entries (es @ fs)) k = Some e'" "i_state e' \<noteq> Pending"
    by blast
  have "dget (fold_operator_inbox_entries ((es @ fs) @ [f])) k =
    (if i_id f \<noteq> k then Some e' else if i_state f = Pending then Some e' else Some f)"
    using e' by (subst fold_inbox_get_snoc) simp
  then show ?case using e'(2) by (auto split: if_splits)
qed

lemma fold_inbox_filter_get:
  assumes "k \<in> K"
  shows "dget (fold_operator_inbox_entries (filter (\<lambda>e. i_id e \<in> K) es)) k =
         dget (fold_operator_inbox_entries es) k"
  using assms by (simp add: fold_inbox_get) (subst last_with_filter, auto)+

lemma fold_inbox_filter_drop:
  assumes "k \<notin> K"
  shows "dget (fold_operator_inbox_entries (filter (\<lambda>e. i_id e \<in> K) es)) k = None"
proof (rule ccontr)
  assume "dget (fold_operator_inbox_entries (filter (\<lambda>e. i_id e \<in> K) es)) k \<noteq> None"
  then obtain e where "dget (fold_operator_inbox_entries (filter (\<lambda>e. i_id e \<in> K) es)) k = Some e"
    by blast
  from fold_inbox_key [OF this] assms show False by auto
qed

end
