(* ===== verification/Retention.thy ===== *)
theory Retention
  imports Gate_Records Inbox_Records
begin

section \<open>Retention of gate and inbox interactions\<close>

text \<open>
  \<^verbatim>\<open>controlplane/interaction_retention.py\<close>: which folded gate snapshots and inbox rows a compaction keeps, the
  hard cap on inbox rows, and the pickup state of a waiting response.
\<close>

definition GATE_RESPONSE_WAIT_TIMEOUT_SECONDS :: seconds where
  "GATE_RESPONSE_WAIT_TIMEOUT_SECONDS = 300"

definition GATE_RESPONSE_WAIT_POLL_SECONDS :: seconds where
  "GATE_RESPONSE_WAIT_POLL_SECONDS = 5"

definition INTERACTION_RECORD_TTL_SECONDS :: seconds where
  "INTERACTION_RECORD_TTL_SECONDS = 24 * 60 * 60"

definition AGENT_PICKUP_TTL_SECONDS :: seconds where
  "AGENT_PICKUP_TTL_SECONDS = 300"

definition INBOX_PENDING_TTL_SECONDS :: seconds where
  "INBOX_PENDING_TTL_SECONDS = 48 * 60 * 60"

definition INBOX_TERMINAL_MARKER_RETENTION_SECONDS :: seconds where
  "INBOX_TERMINAL_MARKER_RETENTION_SECONDS = INBOX_PENDING_TTL_SECONDS"

definition INBOX_MAX_CURRENT_ROWS :: nat where
  "INBOX_MAX_CURRENT_ROWS = 500"

definition MUTATING_TOOL_GATE_KINDS :: "gate_kind list" where
  "MUTATING_TOOL_GATE_KINDS =
     [WorktreeIntent, CloseoutApproval, PushApproval, IntegrationApproval, CleanupApproval]"

definition SEAM_CONSUMED_GATE_KINDS :: "gate_kind list" where
  "SEAM_CONSUMED_GATE_KINDS = [MasterHandoverApproval]"

definition CONSUMED_APPROVAL_GATE_KINDS :: "gate_kind list" where
  "CONSUMED_APPROVAL_GATE_KINDS = MUTATING_TOOL_GATE_KINDS @ SEAM_CONSUMED_GATE_KINDS"

definition PRUNE_IMMEDIATE_GATE_STATES :: "gate_state list" where
  "PRUNE_IMMEDIATE_GATE_STATES = [Cancelled, Expired]"

definition keep_gate :: "iso_codec \<Rightarrow> clock \<Rightarrow> seconds \<Rightarrow> gate_record \<Rightarrow> bool" where
  "keep_gate c now ttl_seconds gate =
     (if g_state gate = Applied then g_kind gate \<in> set CONSUMED_APPROVAL_GATE_KINDS
      else if g_state gate \<in> set PRUNE_IMMEDIATE_GATE_STATES then False
      else case age_seconds c (g_ts gate) now of None \<Rightarrow> True | Some age \<Rightarrow> age \<le> ttl_seconds)"

definition gate_keep_ids :: "iso_codec \<Rightarrow> gate_record list \<Rightarrow> clock \<Rightarrow> seconds \<Rightarrow> string set" where
  "gate_keep_ids c records now ttl_seconds =
     g_id ` set (filter (keep_gate c now ttl_seconds) (dvalues (fold_by g_id records)))"

definition marker_fresh :: "iso_codec \<Rightarrow> clock \<Rightarrow> string option \<Rightarrow> string \<Rightarrow> bool" where
  "marker_fresh c now stamp created =
     (case age_seconds c (the (str_or stamp (Some created))) now of
        None \<Rightarrow> True
      | Some age \<Rightarrow> age \<le> INBOX_TERMINAL_MARKER_RETENTION_SECONDS)"

definition keep_inbox_entry :: "iso_codec \<Rightarrow> clock \<Rightarrow> operator_inbox_entry \<Rightarrow> bool" where
  "keep_inbox_entry c now e =
     (case i_state e of
        LadderResolved \<Rightarrow> False
      | Pending \<Rightarrow> True
      | Consumed \<Rightarrow> marker_fresh c now (i_consumedAt e) (i_createdAt e)
      | _ \<Rightarrow> marker_fresh c now (i_terminalAt e) (i_createdAt e))"

definition cap_rows :: "nat \<Rightarrow> operator_inbox_entry list \<Rightarrow> operator_inbox_entry list" where
  "cap_rows max_rows kept =
     (if length kept > max_rows then
        (let pending = sort_key_desc i_createdAt (filter (\<lambda>e. i_state e = Pending) kept);
             terminal = sort_key_desc i_createdAt (filter (\<lambda>e. i_state e \<noteq> Pending) kept);
             selected = take max_rows pending
         in if length selected < max_rows then selected @ take (max_rows - length selected) terminal
            else selected)
      else kept)"

definition inbox_keep_ids ::
  "iso_codec \<Rightarrow> operator_inbox_entry list \<Rightarrow> clock \<Rightarrow> nat \<Rightarrow>
   (string, operator_inbox_entry) dict option \<Rightarrow> string set" where
  "inbox_keep_ids c entries now max_rows current =
     (let latest = (case current of None \<Rightarrow> fold_operator_inbox_entries entries | Some d \<Rightarrow> d);
          kept = filter (keep_inbox_entry c now) (dvalues latest)
      in i_id ` set (cap_rows max_rows kept))"

definition delete_after_wait :: "gate_record \<Rightarrow> bool" where
  "delete_after_wait gate \<longleftrightarrow> g_kind gate \<notin> set MUTATING_TOOL_GATE_KINDS"

definition pickup_age_seconds :: "iso_codec \<Rightarrow> operator_inbox_entry \<Rightarrow> clock \<Rightarrow> seconds option" where
  "pickup_age_seconds c e now = age_seconds c (i_createdAt e) now"

definition pickup_state :: "iso_codec \<Rightarrow> operator_inbox_entry \<Rightarrow> clock \<Rightarrow> string" where
  "pickup_state c e now =
     (case age_seconds c (i_createdAt e) now of
        Some age \<Rightarrow> if AGENT_PICKUP_TTL_SECONDS < age then ''check-chat'' else ''waiting-for-agent''
      | None \<Rightarrow> ''waiting-for-agent'')"

subsection \<open>Gates\<close>

lemma gate_keep_ids_iff:
  "k \<in> gate_keep_ids c rs now ttl \<longleftrightarrow> (\<exists>g. dget (fold_by g_id rs) k = Some g \<and> keep_gate c now ttl g)"
proof
  assume "k \<in> gate_keep_ids c rs now ttl"
  then obtain g where g: "k = g_id g" "g \<in> set (dvalues (fold_by g_id rs))" "keep_gate c now ttl g"
    unfolding gate_keep_ids_def by auto
  then have "dget (fold_by g_id rs) k = Some g" by (simp only: fold_by_values)
  with g(3) show "\<exists>g. dget (fold_by g_id rs) k = Some g \<and> keep_gate c now ttl g" by blast
next
  assume "\<exists>g. dget (fold_by g_id rs) k = Some g \<and> keep_gate c now ttl g"
  then obtain g where g: "dget (fold_by g_id rs) k = Some g" "keep_gate c now ttl g" by blast
  then have "g_id g = k" using fold_by_key by fast
  with g have "g \<in> set (filter (keep_gate c now ttl) (dvalues (fold_by g_id rs)))"
    using fold_by_values [of g g_id rs] by simp
  with \<open>g_id g = k\<close> show "k \<in> gate_keep_ids c rs now ttl"
    unfolding gate_keep_ids_def by blast
qed

lemma keep_gate_applied:
  "g_state g = Applied \<Longrightarrow> keep_gate c now ttl g \<longleftrightarrow> g_kind g \<in> set CONSUMED_APPROVAL_GATE_KINDS"
  by (simp add: keep_gate_def)

subsection \<open>The cap on inbox rows\<close>

lemma set_cap_rows: "set (cap_rows n kept) \<subseteq> set kept"
proof -
  have "set (take m (sort_key_desc i_createdAt (filter P kept))) \<subseteq> set kept" for m P
    using set_take_subset [of m "sort_key_desc i_createdAt (filter P kept)"] by auto
  then show ?thesis by (simp add: cap_rows_def Let_def)
qed

lemma length_cap_rows: "length (cap_rows n kept) \<le> n \<or> (cap_rows n kept = kept \<and> length kept \<le> n)"
  by (auto simp: cap_rows_def Let_def)

lemma cap_rows_small: "length kept \<le> n \<Longrightarrow> cap_rows n kept = kept"
  by (simp add: cap_rows_def)

lemma cap_rows_pending_first:
  assumes "length (filter (\<lambda>e. i_state e = Pending) kept) \<le> n"
  shows "\<forall>e\<in>set kept. i_state e = Pending \<longrightarrow> e \<in> set (cap_rows n kept)"
  using assms by (auto simp: cap_rows_def Let_def)

lemma cap_rows_terminal_only_with_room:
  assumes "t \<in> set (cap_rows n kept)" "i_state t \<noteq> Pending"
  shows "\<forall>e\<in>set kept. i_state e = Pending \<longrightarrow> e \<in> set (cap_rows n kept)"
proof (cases "length (filter (\<lambda>e. i_state e = Pending) kept) \<le> n")
  case True
  then show ?thesis by (rule cap_rows_pending_first)
next
  case False
  then have "length kept > n"
    using length_filter_le [of "\<lambda>e. i_state e = Pending" kept] by linarith
  with False have "cap_rows n kept = take n (sort_key_desc i_createdAt (filter (\<lambda>e. i_state e = Pending) kept))"
    by (simp add: cap_rows_def Let_def)
  with assms(1) have "t \<in> set (filter (\<lambda>e. i_state e = Pending) kept)"
    by (metis in_set_takeD set_sort_key_desc)
  with assms(2) show ?thesis by simp
qed

lemma inbox_keep_ids_card: "card (inbox_keep_ids c es now n cur) \<le> n"
proof -
  let ?rows = "cap_rows n (filter (keep_inbox_entry c now)
    (dvalues (case cur of None \<Rightarrow> fold_operator_inbox_entries es | Some d \<Rightarrow> d)))"
  have "card (i_id ` set ?rows) \<le> card (set ?rows)" by (rule card_image_le) simp
  also have "\<dots> \<le> length ?rows" by (rule card_length)
  also have "\<dots> \<le> n" using length_cap_rows [of n] by (metis order_trans)
  finally show ?thesis by (simp add: inbox_keep_ids_def Let_def)
qed

lemma inbox_keep_ids_sub:
  "k \<in> inbox_keep_ids c es now n None \<Longrightarrow>
   \<exists>e. dget (fold_operator_inbox_entries es) k = Some e \<and> keep_inbox_entry c now e"
proof -
  assume "k \<in> inbox_keep_ids c es now n None"
  then obtain e where "k = i_id e" and "e \<in> set (filter (keep_inbox_entry c now) (dvalues (fold_operator_inbox_entries es)))"
    using set_cap_rows [of n] by (auto simp only: inbox_keep_ids_def Let_def option.case image_iff)
  then show ?thesis using fold_inbox_values [of e es] by auto
qed

end
