(* ===== verification/Store_Lock.thy ===== *)
theory Store_Lock
  imports Durable_Store
begin

section \<open>The per-log lock\<close>

text \<open>
  \<^verbatim>\<open>exclusive_access\<close> of \<^verbatim>\<open>controlplane/durable_store.py\<close> as a machine over the threads of all processes. A log's
  in-process mutex and its \<^verbatim>\<open>flock\<close> are taken by the outermost frame of a thread, mutex first, and given back together. The
  machine has the one moment at which both are taken: a thread that has the mutex and still waits for another process's
  \<^verbatim>\<open>flock\<close> is not inside and counts as waiting, so the holder is one field per lock path. That the two locks exclude is what
  \<^verbatim>\<open>threading.RLock\<close> and \<^verbatim>\<open>flock\<close> give; what is checked here is that nesting and leaving keep it. \<open>depth\<close> is the
  per-thread nesting counter \<^verbatim>\<open>_LockDepth\<close>, and \<open>verified\<close> holds, per process, the lock paths whose filesystem that process
  has probed (\<^verbatim>\<open>_verify_lock_capability\<close>).

  Entering is \<open>enter\<close>: it nests, takes the lock, refuses, or waits (no step is possible). Leaving is
  \<open>leave\<close>. The invariant is that a thread's depth on a path is positive exactly when it is the holder.
\<close>

type_synonym tid = nat

record lock_world =
  holder :: "path \<Rightarrow> tid option"
  depth :: "tid \<Rightarrow> path \<Rightarrow> nat"
  verified :: "nat \<Rightarrow> path list"

definition init_locks :: lock_world where
  "init_locks = \<lparr>holder = (\<lambda>_. None), depth = (\<lambda>_ _. 0), verified = (\<lambda>_. [])\<rparr>"

definition lock_path_for :: "path \<Rightarrow> path" where
  "lock_path_for log = butlast log @ [last log @ ''.lock'']"

definition checked_lock_path_for :: "process \<Rightarrow> path \<Rightarrow> path res" where
  "checked_lock_path_for p log = rbind (require_durable_write_target p log) (\<lambda>_. Inr (lock_path_for log))"

definition verify_lock_capability :: "process \<Rightarrow> string \<Rightarrow> path \<Rightarrow> lock_world \<Rightarrow> lock_world res" where
  "verify_lock_capability p store path w =
     (if path \<in> set (verified w (process_id p)) then Inr w
      else if flock_excludes p path then Inr (w\<lparr>verified := (verified w)(process_id p := path # verified w (process_id p))\<rparr>)
      else Inl (UnsafeLockFilesystemError store))"

datatype entry = Entered lock_world | Refused py_error | Waits

definition set_depth :: "tid \<Rightarrow> path \<Rightarrow> nat \<Rightarrow> lock_world \<Rightarrow> lock_world" where
  "set_depth t path n w = w\<lparr>depth := (depth w)(t := (depth w t)(path := n))\<rparr>"

definition enter :: "process \<Rightarrow> store_ownership \<Rightarrow> tid \<Rightarrow> path \<Rightarrow> lock_world \<Rightarrow> entry" where
  "enter p own t log w =
     (case checked_lock_path_for p log of
        Inl e \<Rightarrow> Refused e
      | Inr path \<Rightarrow>
          if depth w t path \<noteq> 0 then Entered (set_depth t path (depth w t path + 1) w)
          else if holder w path \<noteq> None then Waits
          else case verify_lock_capability p (store_name own) path w of
                 Inl e \<Rightarrow> Refused e
               | Inr w' \<Rightarrow> Entered (set_depth t path 1 (w'\<lparr>holder := (holder w')(path := Some t)\<rparr>)))"

definition leave :: "tid \<Rightarrow> path \<Rightarrow> lock_world \<Rightarrow> lock_world" where
  "leave t log w =
     (let path = lock_path_for log; n = depth w t path
      in if 1 < n then set_depth t path (n - 1) w
         else set_depth t path 0 (w\<lparr>holder := (holder w)(path := None)\<rparr>))"

definition require_lock_held :: "tid \<Rightarrow> path \<Rightarrow> string \<Rightarrow> lock_world \<Rightarrow> unit res" where
  "require_lock_held t log store w =
     (if depth w t (lock_path_for log) = 0 then Inl (DurableStoreError store) else Inr ())"

text \<open>Runs: threads enter and leave in any interleaving; only a thread inside can leave.\<close>

inductive lock_step :: "lock_world \<Rightarrow> lock_world \<Rightarrow> bool" where
  step_enter: "enter p own t log w = Entered w' \<Longrightarrow> lock_step w w'"
| step_leave: "depth w t (lock_path_for log) \<noteq> 0 \<Longrightarrow> lock_step w (leave t log w)"

inductive_cases lock_stepE: "lock_step w w'"

inductive lock_reachable :: "lock_world \<Rightarrow> bool" where
  lock_start: "lock_reachable init_locks"
| lock_next: "lock_reachable w \<Longrightarrow> lock_step w w' \<Longrightarrow> lock_reachable w'"

definition lock_inv :: "lock_world \<Rightarrow> bool" where
  "lock_inv w \<longleftrightarrow> (\<forall>t path. depth w t path \<noteq> 0 \<longleftrightarrow> holder w path = Some t)"

lemma lock_inv_init: "lock_inv init_locks"
  by (simp add: lock_inv_def init_locks_def)

lemma verify_lock_frame:
  "verify_lock_capability p store path w = Inr w' \<Longrightarrow> holder w' = holder w \<and> depth w' = depth w"
  by (auto simp: verify_lock_capability_def split: if_splits)

lemma enter_cases:
  assumes "enter p own t log w = Entered w'"
  obtains (nested) "depth w t (lock_path_for log) \<noteq> 0"
      "w' = set_depth t (lock_path_for log) (depth w t (lock_path_for log) + 1) w"
  | (outer) v where "depth w t (lock_path_for log) = 0" "holder w (lock_path_for log) = None"
      "holder v = holder w" "depth v = depth w"
      "w' = set_depth t (lock_path_for log) 1 (v\<lparr>holder := (holder v)(lock_path_for log := Some t)\<rparr>)"
proof (cases "depth w t (lock_path_for log) = 0")
  case False
  with assms show thesis
    by (intro nested) (auto simp: enter_def checked_lock_path_for_def rbind_def split: sum.splits)
next
  case True
  with assms obtain v where "holder w (lock_path_for log) = None"
    and v: "verify_lock_capability p (store_name own) (lock_path_for log) w = Inr v"
    and "w' = set_depth t (lock_path_for log) 1 (v\<lparr>holder := (holder v)(lock_path_for log := Some t)\<rparr>)"
    by (auto simp: enter_def checked_lock_path_for_def rbind_def split: sum.splits if_splits)
  with True verify_lock_frame [OF v] show thesis by (intro outer [of v]) auto
qed

lemma enter_lock_inv: "enter p own t log w = Entered w' \<Longrightarrow> lock_inv w \<Longrightarrow> lock_inv w'"
  by (erule enter_cases) (auto simp: lock_inv_def set_depth_def)

lemma leave_lock_inv: "depth w t (lock_path_for log) \<noteq> 0 \<Longrightarrow> lock_inv w \<Longrightarrow> lock_inv (leave t log w)"
  by (auto simp: lock_inv_def leave_def set_depth_def Let_def)

lemma lock_step_inv: "lock_step w w' \<Longrightarrow> lock_inv w \<Longrightarrow> lock_inv w'"
  by (erule lock_stepE) (blast intro: enter_lock_inv leave_lock_inv)+

interpretation lock_machine: step_invariant lock_step lock_inv
  by unfold_locales (rule lock_step_inv)

lemma lock_reachable_run: "lock_reachable w \<longleftrightarrow> lock_step\<^sup>*\<^sup>* init_locks w"
proof
  show "lock_reachable w \<Longrightarrow> lock_step\<^sup>*\<^sup>* init_locks w"
    by (induction rule: lock_reachable.induct) auto
  show "lock_step\<^sup>*\<^sup>* init_locks w \<Longrightarrow> lock_reachable w"
    by (induction rule: rtranclp_induct) (auto intro: lock_start lock_next)
qed

lemma lock_reachable_inv: "lock_reachable w \<Longrightarrow> lock_inv w"
  using lock_machine.run_keeps lock_inv_init by (simp add: lock_reachable_run)

end
