(* ===== verification/Store_Access.thy ===== *)
theory Store_Access
  imports Store_Lock
begin

section \<open>One store call under its lock\<close>

text \<open>
  How a store method uses \<^verbatim>\<open>exclusive_access\<close>, \<^verbatim>\<open>append_line\<close>, \<^verbatim>\<open>append_lines\<close> and \<^verbatim>\<open>rewrite_lines\<close> of
  \<^verbatim>\<open>controlplane/durable_store.py\<close> seen from one call that gets the lock: the target check, the lock
  capability, then the body on the state. \<^verbatim>\<open>Store_Lock\<close> models the waiting and the nesting; a method body
  runs while its thread is the holder, so it is one atomic step of the log.

  \<open>access_guard_enter\<close> says that this view agrees with the machine of \<^verbatim>\<open>Store_Lock\<close>: a free lock is entered
  exactly when the guard passes.
\<close>

definition access_guard :: "process \<Rightarrow> store_ownership \<Rightarrow> path \<Rightarrow> unit res" where
  "access_guard p own log =
     rbind (checked_lock_path_for p log)
       (\<lambda>path. if flock_excludes p path then Inr () else Inl (UnsafeLockFilesystemError (store_name own)))"

definition exclusive_access ::
  "process \<Rightarrow> store_ownership \<Rightarrow> path \<Rightarrow> ('s, 'a) prog \<Rightarrow> ('s, 'a) prog" where
  "exclusive_access p own log body = sbind (slift (access_guard p own log)) (\<lambda>_. body)"

definition append_record :: "process \<Rightarrow> path \<Rightarrow> 'r \<Rightarrow> ('r log_file, unit) prog" where
  "append_record p log r =
     sbind (slift (require_durable_write_target p log)) (\<lambda>_. smodify (append_line r))"

definition append_records :: "process \<Rightarrow> path \<Rightarrow> 'r list \<Rightarrow> ('r log_file, unit) prog" where
  "append_records p log rs =
     (if rs = [] then sret ()
      else sbind (slift (require_durable_write_target p log)) (\<lambda>_. smodify (append_lines rs)))"

definition rewrite_records :: "process \<Rightarrow> path \<Rightarrow> 'r list \<Rightarrow> ('r log_file, unit) prog" where
  "rewrite_records p log rs =
     sbind (slift (require_durable_write_target p log)) (\<lambda>_. smodify (rewrite_lines rs))"

lemma access_guard_target: "access_guard p own log = Inr () \<Longrightarrow> require_durable_write_target p log = Inr ()"
  by (auto simp: access_guard_def checked_lock_path_for_def rbind_eq_Inr)

lemma access_guard_enter:
  assumes "depth w t (lock_path_for log) = 0" "holder w (lock_path_for log) = None"
    "\<forall>q\<in>set (verified w (process_id p)). flock_excludes p q"
  shows "(\<exists>w'. enter p own t log w = Entered w') \<longleftrightarrow> access_guard p own log = Inr ()"
  using assms
  by (auto simp: enter_def access_guard_def checked_lock_path_for_def verify_lock_capability_def rbind_def
      split: sum.splits if_splits)

lemma exclusive_access_Inr:
  "exclusive_access p own log body s = (Inr x, s') \<longleftrightarrow> access_guard p own log = Inr () \<and> body s = (Inr x, s')"
  by (cases "access_guard p own log") (auto simp: exclusive_access_def)

lemma exclusive_access_ok [simp]:
  "access_guard p own log = Inr () \<Longrightarrow> exclusive_access p own log body = body"
  by (simp add: exclusive_access_def)

lemma exclusive_access_refused [simp]:
  "access_guard p own log = Inl e \<Longrightarrow> exclusive_access p own log body s = (Inl e, s)"
  by (simp add: exclusive_access_def)

lemma append_record_ok [simp]:
  "access_guard p own log = Inr () \<Longrightarrow> append_record p log r f = (Inr (), append_line r f)"
  by (simp add: append_record_def access_guard_target)

lemma append_records_ok [simp]:
  "access_guard p own log = Inr () \<Longrightarrow> append_records p log rs f = (Inr (), append_lines rs f)"
  by (simp add: append_records_def access_guard_target append_lines_def)

lemma rewrite_records_ok [simp]:
  "access_guard p own log = Inr () \<Longrightarrow> rewrite_records p log rs f = (Inr (), rewrite_lines rs f)"
  by (simp add: rewrite_records_def access_guard_target)

text \<open>A process that declared its mode, on a file system whose locks exclude: the guard passes.\<close>

lemma access_guard_declared:
  "declared p \<noteq> None \<Longrightarrow> (\<And>q. flock_excludes p q) \<Longrightarrow> access_guard p own log = Inr ()"
  by (simp add: access_guard_def checked_lock_path_for_def declared_write_allowed)

definition mcp_process :: process where
  "mcp_process =
     \<lparr>process_id = 1, declared = Some ModeMcp, package_source = [''srv'', ''mcp''], is_file = (\<lambda>_. False),
      is_dir = (\<lambda>_. False), resolve_path = (\<lambda>q. q), flock_excludes = (\<lambda>_. True)\<rparr>"

definition dashboard_process :: process where
  "dashboard_process = mcp_process\<lparr>process_id := 2, declared := Some ModeDashboard\<rparr>"

lemma example_processes [simp]:
  "access_guard mcp_process own log = Inr ()" "access_guard dashboard_process own log = Inr ()"
  "declared mcp_process = Some ModeMcp" "declared dashboard_process = Some ModeDashboard"
  by (simp_all add: access_guard_declared mcp_process_def dashboard_process_def)

end
