(* ===== verification/Gate_Store.thy ===== *)
theory Gate_Store
  imports Enforcement Retention Store_Access
begin

section \<open>The gate store\<close>

text \<open>
  \<^verbatim>\<open>controlplane/store.py\<close>. The state is the workspace log and the per-lifecycle logs (directory name to
  log file); a lifecycle id is one path segment, as the ULIDs the program mints are. Every method of
  \<^verbatim>\<open>GateStore\<close> is a definition: pure reads give a result, the methods that write are programs over the logs.
  The process \<open>p\<close> and the observer root \<open>obs_root\<close> are what the locks and the target check depend on.
\<close>

record gate_logs =
  workspace_log :: "gate_record log_file"
  lifecycle_logs :: "(string, gate_record log_file) dict"

definition gate_log_path :: "path \<Rightarrow> string option \<Rightarrow> path" where
  "gate_log_path obs_root lifecycle_id =
     (if truthy lifecycle_id then obs_root @ [''lifecycles'', the lifecycle_id, ''gates.jsonl'']
      else obs_root @ [''workspace'', ''gates.jsonl''])"

definition log_at :: "string option \<Rightarrow> gate_logs \<Rightarrow> gate_record log_file" where
  "log_at lifecycle_id s =
     (if truthy lifecycle_id
      then (case dget (lifecycle_logs s) (the lifecycle_id) of None \<Rightarrow> None | Some f \<Rightarrow> f)
      else workspace_log s)"

definition put_log :: "string option \<Rightarrow> gate_record log_file \<Rightarrow> gate_logs \<Rightarrow> gate_logs" where
  "put_log lifecycle_id f s =
     (if truthy lifecycle_id then s\<lparr>lifecycle_logs := dput (the lifecycle_id) f (lifecycle_logs s)\<rparr>
      else s\<lparr>workspace_log := f\<rparr>)"

abbreviation on_log :: "string option \<Rightarrow> (gate_record log_file, 'a) prog \<Rightarrow> (gate_logs, 'a) prog" where
  "on_log lifecycle_id \<equiv> zoom (log_at lifecycle_id) (put_log lifecycle_id)"

definition gate_append :: "process \<Rightarrow> path \<Rightarrow> gate_record \<Rightarrow> (gate_logs, unit) prog" where
  "gate_append p obs_root record =
     sbind (slift (check_declared_writer GATE_OWNERSHIP p)) (\<lambda>_.
       let path = gate_log_path obs_root (g_lifecycleId record)
       in exclusive_access p GATE_OWNERSHIP path
            (on_log (g_lifecycleId record) (append_record p path record)))"

definition gate_read :: "string option \<Rightarrow> gate_logs \<Rightarrow> gate_record list res" where
  "gate_read lifecycle_id s = read_strict gate_ok (log_at lifecycle_id s)"

definition gate_read_for_projection :: "string option \<Rightarrow> gate_logs \<Rightarrow> gate_record list" where
  "gate_read_for_projection lifecycle_id s = read_tolerant gate_ok (log_at lifecycle_id s)"

definition gate_current :: "string option \<Rightarrow> gate_logs \<Rightarrow> (string, gate_record) dict res" where
  "gate_current lifecycle_id s = rbind (gate_read lifecycle_id s) (\<lambda>rs. Inr (fold_by g_id rs))"

definition lifecycles_with_logs :: "gate_logs \<Rightarrow> string list" where
  "lifecycles_with_logs s = sort (map fst (filter (\<lambda>(_, f). f \<noteq> None) (lifecycle_logs s)))"

fun find_in_logs :: "gate_logs \<Rightarrow> string \<Rightarrow> string list \<Rightarrow> gate_record option res" where
  "find_in_logs s gate_id [] = Inr None"
| "find_in_logs s gate_id (n # ns) =
     rbind (gate_current (Some n) s)
       (\<lambda>d. case dget d gate_id of Some hit \<Rightarrow> Inr (Some hit) | None \<Rightarrow> find_in_logs s gate_id ns)"

definition gate_find :: "string \<Rightarrow> gate_logs \<Rightarrow> gate_record option res" where
  "gate_find gate_id s =
     rbind (gate_current None s)
       (\<lambda>d. case dget d gate_id of
              Some hit \<Rightarrow> Inr (Some hit)
            | None \<Rightarrow> find_in_logs s gate_id (lifecycles_with_logs s))"

definition lifecycle_ids :: "gate_logs \<Rightarrow> string option list" where
  "lifecycle_ids s = map Some (lifecycles_with_logs s) @ (if workspace_log s \<noteq> None then [None] else [])"

definition dict_update :: "('k, 'v) dict \<Rightarrow> ('k, 'v) dict \<Rightarrow> ('k, 'v) dict" where
  "dict_update d e = foldl (\<lambda>d kv. dput (fst kv) (snd kv) d) d e"

definition all_current :: "gate_logs \<Rightarrow> (string, gate_record) dict res" where
  "all_current s =
     rbind (rmap (\<lambda>lid. gate_current lid s) (lifecycle_ids s)) (\<lambda>ds. Inr (foldl dict_update [] ds))"

definition claim_approval ::
  "process \<Rightarrow> path \<Rightarrow> string option \<Rightarrow> gate_kind \<Rightarrow> string \<Rightarrow> gate_policy \<Rightarrow> string option \<Rightarrow>
   (gate_logs, gate_guard) prog" where
  "claim_approval p obs_root lifecycle_id kind now policy operation_key =
     exclusive_access p GATE_OWNERSHIP (gate_log_path obs_root lifecycle_id)
       (sbind (sget (gate_current lifecycle_id)) (\<lambda>gates.
          let guard = evaluate_gate gates kind policy operation_key
          in if \<not> permitted guard \<or> gg_gate_id guard = None then sret guard
             else case dget gates (the (gg_gate_id guard)) of
                    None \<Rightarrow> slift (Inl (KeyError (the (gg_gate_id guard))))
                  | Some gate \<Rightarrow>
                      if g_state gate = Applied then sret guard
                      else sbind (gate_append p obs_root (apply_gate gate now operation_key)) (\<lambda>_. sret guard)))"

definition gate_replace :: "process \<Rightarrow> path \<Rightarrow> string option \<Rightarrow> gate_record list \<Rightarrow> (gate_logs, unit) prog" where
  "gate_replace p obs_root lifecycle_id records =
     on_log lifecycle_id (rewrite_records p (gate_log_path obs_root lifecycle_id) records)"

definition gate_delete :: "process \<Rightarrow> path \<Rightarrow> string \<Rightarrow> string option \<Rightarrow> (gate_logs, bool) prog" where
  "gate_delete p obs_root gate_id lifecycle_id =
     exclusive_access p GATE_OWNERSHIP (gate_log_path obs_root lifecycle_id)
       (sbind (sget (gate_read lifecycle_id)) (\<lambda>records.
          let kept = filter (\<lambda>r. g_id r \<noteq> gate_id) records
          in if length kept = length records then sret False
             else sbind (gate_replace p obs_root lifecycle_id kept) (\<lambda>_. sret True)))"

definition gate_compact ::
  "iso_codec \<Rightarrow> process \<Rightarrow> path \<Rightarrow> string option \<Rightarrow> clock \<Rightarrow> (gate_logs, nat) prog" where
  "gate_compact c p obs_root lifecycle_id now =
     exclusive_access p GATE_OWNERSHIP (gate_log_path obs_root lifecycle_id)
       (sbind (sget (gate_read lifecycle_id)) (\<lambda>records.
          if records = [] then sret 0
          else let keep_ids = gate_keep_ids c records now INTERACTION_RECORD_TTL_SECONDS;
                   kept = filter (\<lambda>r. g_id r \<in> keep_ids) records
               in if length kept = length records then sret 0
                  else sbind (gate_replace p obs_root lifecycle_id kept)
                         (\<lambda>_. sret (length records - length kept))))"

definition projected_current ::
  "iso_codec \<Rightarrow> string option \<Rightarrow> clock option \<Rightarrow> gate_logs \<Rightarrow> (string, gate_record) dict" where
  "projected_current c lifecycle_id now s =
     (let records = gate_read_for_projection lifecycle_id s
      in case now of
           None \<Rightarrow> fold_by g_id records
         | Some t \<Rightarrow>
             let keep_ids = gate_keep_ids c records t INTERACTION_RECORD_TTL_SECONDS
             in fold_by g_id (filter (\<lambda>r. g_id r \<in> keep_ids) records))"

subsection \<open>Where a write lands\<close>

definition same_log :: "string option \<Rightarrow> string option \<Rightarrow> bool" where
  "same_log a b \<longleftrightarrow> a = b \<or> (\<not> truthy a \<and> \<not> truthy b)"

lemma log_at_put [simp]: "log_at a (put_log b f s) = (if same_log a b then f else log_at a s)"
  by (cases a; cases b) (auto simp: log_at_def put_log_def same_log_def)

lemma same_log_refl [simp]: "same_log a a"
  by (simp add: same_log_def)

lemma same_log_trans: "same_log a b \<Longrightarrow> same_log b c \<Longrightarrow> same_log a c"
  by (auto simp: same_log_def)

lemma same_log_sym: "same_log a b \<Longrightarrow> same_log b a"
  by (auto simp: same_log_def)

lemma same_log_log_at: "same_log a b \<Longrightarrow> log_at a s = log_at b s"
  by (auto simp: same_log_def log_at_def)

lemma same_log_path: "same_log a b \<Longrightarrow> gate_log_path obs_root a = gate_log_path obs_root b"
  by (auto simp: same_log_def gate_log_path_def)

lemma gate_append_Inr:
  assumes "gate_append p obs_root r s = (Inr (), s')"
  shows "s' = put_log (g_lifecycleId r) (append_line r (log_at (g_lifecycleId r) s)) s"
    and "access_guard p GATE_OWNERSHIP (gate_log_path obs_root (g_lifecycleId r)) = Inr ()"
  using assms
  by (auto simp: gate_append_def sbind_eq_Inr Let_def exclusive_access_Inr zoom_eq_Inr)

lemma gate_append_run:
  assumes "access_guard p GATE_OWNERSHIP (gate_log_path obs_root (g_lifecycleId r)) = Inr ()"
    "check_declared_writer GATE_OWNERSHIP p = Inr ()"
  shows "gate_append p obs_root r s = (Inr (), put_log (g_lifecycleId r) (append_line r (log_at (g_lifecycleId r) s)) s)"
  using assms by (simp add: gate_append_def zoom_def Let_def)

lemma gate_append_Inl: "gate_append p obs_root r s = (Inl e, s') \<Longrightarrow> s' = s"
  by (cases "check_declared_writer GATE_OWNERSHIP p";
      cases "access_guard p GATE_OWNERSHIP (gate_log_path obs_root (g_lifecycleId r))")
    (auto simp: gate_append_def Let_def zoom_def)

lemma gate_read_append:
  assumes "gate_append p obs_root r s = (Inr (), s')" "gate_read lid s = Inr rs" "gate_ok r"
  shows "gate_read lid s' = Inr (if same_log lid (g_lifecycleId r) then rs @ [r] else rs)"
proof -
  note s' = gate_append_Inr(1) [OF assms(1)]
  show ?thesis
  proof (cases "same_log lid (g_lifecycleId r)")
    case True
    then have "log_at (g_lifecycleId r) s = log_at lid s" by (rule same_log_log_at [symmetric])
    with True assms(2,3) show ?thesis by (simp add: s' gate_read_def strict_log.read_app)
  next
    case False
    with assms(2) show ?thesis by (simp add: s' gate_read_def)
  qed
qed

lemma gate_replace_run:
  "access_guard p GATE_OWNERSHIP (gate_log_path obs_root lid) = Inr () \<Longrightarrow>
   gate_replace p obs_root lid rs s = (Inr (), put_log lid (Some (map Rec rs)) s)"
  by (simp add: gate_replace_def zoom_def rewrite_lines_def)

text \<open>The three shapes a locked filter of a log can end in: refused, nothing to drop, rewritten.\<close>

definition filtered_to :: "(gate_record \<Rightarrow> bool) \<Rightarrow> string option \<Rightarrow> gate_logs \<Rightarrow> gate_logs \<Rightarrow> bool" where
  "filtered_to Q lid s s' \<longleftrightarrow>
     (\<exists>rs. gate_read lid s = Inr rs \<and> gate_read lid s' = Inr (filter Q rs)) \<and>
     (\<forall>a. \<not> same_log a lid \<longrightarrow> log_at a s' = log_at a s)"

lemma filtered_to_self:
  "gate_read lid s = Inr rs \<Longrightarrow> length (filter Q rs) = length rs \<Longrightarrow> filtered_to Q lid s s"
  by (auto simp: filtered_to_def length_filter_eq filter_id_conv [THEN iffD2])

lemma filtered_to_put:
  "gate_read lid s = Inr rs \<Longrightarrow> filtered_to Q lid s (put_log lid (Some (map Rec (filter Q rs))) s)"
  using strict_log.filtered_read [of gate_ok "log_at lid s" rs Q]
  by (simp add: filtered_to_def gate_read_def rewrite_lines_def)

lemma gate_delete_outcome:
  assumes "gate_delete p obs_root gid lid s = (r, s')"
  shows "(\<exists>e. r = Inl e \<and> s' = s) \<or>
         (\<exists>b rs. r = Inr b \<and> gate_read lid s = Inr rs \<and> (b \<longleftrightarrow> (\<exists>x\<in>set rs. g_id x = gid)) \<and>
                 filtered_to (\<lambda>x. g_id x \<noteq> gid) lid s s')"
proof (cases "access_guard p GATE_OWNERSHIP (gate_log_path obs_root lid)")
  case (Inl e)
  with assms show ?thesis by (auto simp: gate_delete_def)
next
  case (Inr u)
  then have g: "access_guard p GATE_OWNERSHIP (gate_log_path obs_root lid) = Inr ()" by simp
  show ?thesis
  proof (cases "gate_read lid s")
    case (Inl e)
    with g assms show ?thesis by (auto simp: gate_delete_def sbind_sget)
  next
    case (Inr rs)
    then show ?thesis
      using g assms filtered_to_self [OF Inr, of "\<lambda>x. g_id x \<noteq> gid"] filtered_to_put [OF Inr, of "\<lambda>x. g_id x \<noteq> gid"]
      by (cases "\<forall>x\<in>set rs. g_id x \<noteq> gid")
        (auto simp: gate_delete_def sbind_sget Let_def length_filter_eq gate_replace_run sbind_Inr)
  qed
qed

lemma gate_compact_outcome:
  assumes "gate_compact c p obs_root lid now s = (r, s')"
  shows "(\<exists>e. r = Inl e \<and> s' = s) \<or>
         (\<exists>n rs. r = Inr n \<and> gate_read lid s = Inr rs \<and>
                 filtered_to (\<lambda>x. g_id x \<in> gate_keep_ids c rs now INTERACTION_RECORD_TTL_SECONDS) lid s s')"
proof (cases "access_guard p GATE_OWNERSHIP (gate_log_path obs_root lid)")
  case (Inl e)
  with assms show ?thesis by (auto simp: gate_compact_def)
next
  case (Inr u)
  then have g: "access_guard p GATE_OWNERSHIP (gate_log_path obs_root lid) = Inr ()" by simp
  show ?thesis
  proof (cases "gate_read lid s")
    case (Inl e)
    with g assms show ?thesis by (auto simp: gate_compact_def sbind_sget)
  next
    case (Inr rs)
    let ?Q = "\<lambda>x. g_id x \<in> gate_keep_ids c rs now INTERACTION_RECORD_TTL_SECONDS"
    show ?thesis
      using g assms Inr filtered_to_self [OF Inr, of ?Q] filtered_to_put [OF Inr, of ?Q]
      by (cases "\<forall>x\<in>set rs. ?Q x")
        (auto simp: gate_compact_def sbind_sget Let_def length_filter_eq gate_replace_run sbind_Inr
          split: if_splits)
  qed
qed

lemma gate_current_Inr:
  "gate_current lid s = Inr d \<longleftrightarrow> (\<exists>rs. gate_read lid s = Inr rs \<and> d = fold_by g_id rs)"
  by (auto simp: gate_current_def rbind_eq_Inr)

lemma governing_gate_get:
  assumes "gate_current lid s = Inr d" "governing_gate d kind = Some g"
  shows "dget d (g_id g) = Some g"
proof -
  from assms(1) obtain rs where d: "d = fold_by g_id rs" by (auto simp: gate_current_Inr)
  from governing_gate_Some [OF assms(2)] have "g \<in> set (dvalues (fold_by g_id rs))" by (simp only: d)
  then show ?thesis by (simp only: d fold_by_values)
qed

lemma claim_approval_outcome:
  assumes "claim_approval p obs_root lid kind now policy key s = (r, s')"
  shows "(\<exists>e. r = Inl e \<and> s' = s) \<or>
         (\<exists>d. gate_current lid s = Inr d \<and> r = Inr (evaluate_gate d kind policy key) \<and>
            (case governing_gate d kind of
               Some g \<Rightarrow> if g_state g = Approved \<and> policy_valid g policy
                         then gate_append p obs_root (apply_gate g now key) s = (Inr (), s') else s' = s
             | None \<Rightarrow> s' = s))"
proof (cases "access_guard p GATE_OWNERSHIP (gate_log_path obs_root lid)")
  case (Inl e)
  with assms show ?thesis by (auto simp: claim_approval_def)
next
  case (Inr u)
  then have g: "access_guard p GATE_OWNERSHIP (gate_log_path obs_root lid) = Inr ()" by simp
  show ?thesis
  proof (cases "gate_current lid s")
    case (Inl e)
    with g assms show ?thesis by (auto simp: claim_approval_def sbind_sget)
  next
    case (Inr d)
    show ?thesis
    proof (cases "governing_gate d kind")
      case None
      with g assms Inr show ?thesis
        by (auto simp: claim_approval_def sbind_sget Let_def evaluate_gate_None)
    next
      case (Some gt)
      note get = governing_gate_get [OF Inr Some]
      note ev = evaluate_gate_Some [OF Some, of policy key]
      show ?thesis
      proof (cases "g_state gt = Approved \<and> policy_valid gt policy")
        case True
        with g assms Inr get ev
        have "sbind (gate_append p obs_root (apply_gate gt now key)) (\<lambda>_. sret (evaluate_gate d kind policy key)) s = (r, s')"
          by (simp add: claim_approval_def sbind_sget Let_def)
        then show ?thesis
          using True Inr Some gate_append_Inl [of p obs_root "apply_gate gt now key" s]
          by (cases "gate_append p obs_root (apply_gate gt now key) s")
            (auto simp: sbind_def split: sum.splits)
      next
        case False
        with g assms Inr get ev Some show ?thesis
          by (auto simp: claim_approval_def sbind_sget Let_def split: if_splits)
      qed
    qed
  qed
qed

end
