(* ===== verification/Gate_Authority.thy ===== *)
theory Gate_Authority
  imports Gate_Store
begin

section \<open>Spending an approval\<close>

text \<open>
  What the gate store promises about authority. \<open>gate_view\<close> is the abstract state, a partial map from gate ids to
  their latest snapshot; each store method is a map operation on it. \<open>gate_step\<close> is any store call by any
  process on any log, except a decision on, or a deletion of, the gate in question; over such runs a
  consumed approval stays consumed.
\<close>

definition gate_view :: "string option \<Rightarrow> gate_logs \<Rightarrow> (string \<rightharpoonup> gate_record) option" where
  "gate_view lid s = (case gate_current lid s of Inl _ \<Rightarrow> None | Inr d \<Rightarrow> Some (map_of d))"

definition gate_logs_ok :: "gate_logs \<Rightarrow> bool" where
  "gate_logs_ok s \<longleftrightarrow>
     (\<forall>lid rs. gate_read lid s = Inr rs \<longrightarrow> (\<forall>r\<in>set rs. same_log (g_lifecycleId r) lid))"

lemma gate_view_read: "gate_read lid s = Inr rs \<Longrightarrow> gate_view lid s = Some (map_of (fold_by g_id rs))"
  by (simp add: gate_view_def gate_current_def)

lemma gate_view_Some:
  "gate_view lid s = Some m \<Longrightarrow> \<exists>rs. gate_read lid s = Inr rs \<and> m = map_of (fold_by g_id rs)"
  by (auto simp: gate_view_def gate_current_def rbind_def split: sum.splits)

subsection \<open>The store refines a map of gates\<close>

lemma gate_view_append:
  assumes "gate_append p obs_root r s = (Inr (), s')" "gate_view lid s = Some m" "gate_ok r"
  shows "gate_view lid s' = Some (if same_log lid (g_lifecycleId r) then m(g_id r \<mapsto> r) else m)"
proof -
  from gate_view_Some [OF assms(2)] obtain rs
    where rs: "gate_read lid s = Inr rs" "m = map_of (fold_by g_id rs)" by blast
  from gate_view_read [OF gate_read_append [OF assms(1) rs(1) assms(3)]] show ?thesis
    by (auto simp: rs(2) update_conv)
qed

lemma gate_view_filtered_other:
  "filtered_to Q lid s s' \<Longrightarrow> \<not> same_log a lid \<Longrightarrow> gate_view a s' = gate_view a s"
  by (simp add: filtered_to_def gate_view_def gate_current_def gate_read_def)

lemma gate_view_same: "same_log a b \<Longrightarrow> gate_view a s = gate_view b s"
  by (simp add: gate_view_def gate_current_def gate_read_def same_log_log_at [of a b])

lemma gate_view_filtered:
  assumes "filtered_to (\<lambda>x. g_id x \<in> K) lid s s'" "gate_view lid s = Some m"
  shows "gate_view lid s' = Some (m |` K)"
proof -
  from assms(1) obtain rs where rs: "gate_read lid s = Inr rs"
    "gate_read lid s' = Inr (filter (\<lambda>x. g_id x \<in> K) rs)" by (auto simp: filtered_to_def)
  from assms(2) rs(1) have m: "m = map_of (fold_by g_id rs)" by (simp add: gate_view_read)
  show ?thesis
    using gate_view_read [OF rs(2)]
      strict_log.compacted_current(2) [where key = g_id and K = K and rs = rs and ok = gate_ok and s = "log_at lid s"] rs(1)
    by (auto simp: m restrict_map_def gate_read_def)
qed

lemma gate_keep_ids_view:
  assumes "gate_read lid s = Inr rs" "gate_view lid s = Some m"
  shows "m |` gate_keep_ids c rs now ttl = m |` {k. \<exists>g. m k = Some g \<and> keep_gate c now ttl g}"
  using assms by (auto simp: gate_view_read gate_keep_ids_iff restrict_map_def intro!: ext)

lemma gate_view_delete:
  assumes "gate_delete p obs_root gid lid s = (Inr b, s')" "gate_view lid s = Some m"
  shows "gate_view lid s' = Some (m(gid := None))" "b \<longleftrightarrow> m gid \<noteq> None"
proof -
  from gate_delete_outcome [OF assms(1)] obtain rs where rs: "gate_read lid s = Inr rs"
    "b \<longleftrightarrow> (\<exists>x\<in>set rs. g_id x = gid)" "filtered_to (\<lambda>x. g_id x \<in> - {gid}) lid s s'" by auto
  from rs(1) assms(2) have m: "m = map_of (fold_by g_id rs)" by (simp add: gate_view_read)
  from gate_view_filtered [OF rs(3) assms(2)] show "gate_view lid s' = Some (m(gid := None))"
    by (auto simp: restrict_map_def fun_upd_def intro!: ext)
  show "b \<longleftrightarrow> m gid \<noteq> None"
    by (auto simp: rs(2) m fold_by_get last_with_None simp del: not_None_eq)
qed

lemma gate_view_compact:
  assumes "gate_compact c p obs_root lid now s = (Inr n, s')" "gate_view lid s = Some m"
  shows "gate_view lid s' =
    Some (m |` {k. \<exists>g. m k = Some g \<and> keep_gate c now INTERACTION_RECORD_TTL_SECONDS g})"
proof -
  from gate_compact_outcome [OF assms(1)] obtain rs where rs: "gate_read lid s = Inr rs"
    "filtered_to (\<lambda>x. g_id x \<in> gate_keep_ids c rs now INTERACTION_RECORD_TTL_SECONDS) lid s s'" by auto
  from gate_view_filtered [OF rs(2) assms(2)] show ?thesis
    by (simp add: gate_keep_ids_view [OF rs(1) assms(2)])
qed

subsection \<open>Records stay in the log they belong to\<close>

lemma gate_logs_okD:
  "gate_logs_ok s \<Longrightarrow> gate_read lid s = Inr rs \<Longrightarrow> r \<in> set rs \<Longrightarrow> same_log (g_lifecycleId r) lid"
  by (auto simp: gate_logs_ok_def)

lemma gate_logs_ok_append:
  assumes "gate_append p obs_root r s = (x, s')" "gate_logs_ok s"
  shows "gate_logs_ok s'"
proof (cases x)
  case (Inl e)
  with assms show ?thesis using gate_append_Inl by blast
next
  case (Inr u)
  with assms(1) have s': "s' = put_log (g_lifecycleId r) (append_line r (log_at (g_lifecycleId r) s)) s"
    using gate_append_Inr(1) by simp
  show ?thesis unfolding gate_logs_ok_def
  proof (intro allI impI ballI)
    fix lid rs q
    assume rd: "gate_read lid s' = Inr rs" and q: "q \<in> set rs"
    show "same_log (g_lifecycleId q) lid"
    proof (cases "same_log lid (g_lifecycleId r)")
      case True
      with rd obtain rs0 where "gate_read (g_lifecycleId r) s = Inr rs0" "rs = rs0 @ [r]"
        by (auto simp: s' gate_read_def dest!: read_strict_append_lineD)
      with q True show ?thesis
        by (auto dest: gate_logs_okD [OF assms(2)] intro: same_log_trans same_log_sym)
    next
      case False
      with rd have "gate_read lid s = Inr rs" by (simp add: s' gate_read_def)
      with q show ?thesis by (rule gate_logs_okD [OF assms(2), rotated])
    qed
  qed
qed

lemma gate_logs_ok_filtered:
  assumes "filtered_to Q lid s s'" "gate_logs_ok s"
  shows "gate_logs_ok s'"
  unfolding gate_logs_ok_def
proof (intro allI impI ballI)
  fix a rs q
  assume rd: "gate_read a s' = Inr rs" and q: "q \<in> set rs"
  show "same_log (g_lifecycleId q) a"
  proof (cases "same_log a lid")
    case True
    from assms(1) obtain rs0 where "gate_read lid s = Inr rs0" "gate_read lid s' = Inr (filter Q rs0)"
      by (auto simp: filtered_to_def)
    with rd q True have "q \<in> set rs0" "gate_read a s = Inr rs0"
      by (auto simp: gate_read_def same_log_log_at [OF True])
    then show ?thesis using gate_logs_okD [OF assms(2)] by blast
  next
    case False
    with rd assms(1) have "gate_read a s = Inr rs" by (simp add: filtered_to_def gate_read_def)
    with q show ?thesis using gate_logs_okD [OF assms(2)] by blast
  qed
qed

subsection \<open>Runs of the store\<close>

text \<open>
  A call of the store by any process. \<open>gid\<close> is the gate the run leaves alone: no snapshot of it is
  appended by a decision or a refresh, and it is not deleted. Claims on it are allowed.
\<close>

inductive gate_step :: "iso_codec \<Rightarrow> path \<Rightarrow> string \<Rightarrow> gate_logs \<Rightarrow> gate_logs \<Rightarrow> bool"
  for c obs_root gid where
  step_append: "gate_append p obs_root r s = (x, s') \<Longrightarrow> gate_ok r \<Longrightarrow> g_id r \<noteq> gid \<Longrightarrow>
    gate_step c obs_root gid s s'"
| step_claim: "claim_approval p obs_root lid kind now policy key s = (x, s') \<Longrightarrow> gate_step c obs_root gid s s'"
| step_delete: "gate_delete p obs_root other lid s = (x, s') \<Longrightarrow> other \<noteq> gid \<Longrightarrow> gate_step c obs_root gid s s'"
| step_compact: "gate_compact c p obs_root lid now s = (x, s') \<Longrightarrow> gate_step c obs_root gid s s'"

inductive_cases gate_stepE: "gate_step c obs_root gid s s'"

definition spent :: "string option \<Rightarrow> string \<Rightarrow> gate_kind \<Rightarrow> string option \<Rightarrow> gate_logs \<Rightarrow> bool" where
  "spent lid gid kind key s \<longleftrightarrow>
     gate_logs_ok s \<and>
     (\<exists>m g. gate_view lid s = Some m \<and> m gid = Some g \<and> g_state g = Applied \<and>
            g_kind g = kind \<and> g_appliedOperation g = key)"

text \<open>A claim either leaves the logs alone or appends the applied snapshot of an approved gate.\<close>

lemma claim_effect:
  assumes "claim_approval p obs_root lid kind now policy key s = (x, s')"
  shows "s' = s \<or>
    (\<exists>d g. gate_current lid s = Inr d \<and> governing_gate d kind = Some g \<and> g_state g = Approved \<and>
           policy_valid g policy \<and> gate_append p obs_root (apply_gate g now key) s = (Inr (), s'))"
  using claim_approval_outcome [OF assms] by (auto split: option.splits if_splits)

lemma governing_in_log:
  assumes "gate_current lid s = Inr d" "governing_gate d kind = Some g"
  shows "gate_ok g" "\<exists>rs. gate_read lid s = Inr rs \<and> g \<in> set rs" "map_of d (g_id g) = Some g" "g_kind g = kind"
proof -
  from assms(1) obtain rs where rs: "gate_read lid s = Inr rs" "d = fold_by g_id rs"
    by (auto simp: gate_current_Inr)
  show get: "map_of d (g_id g) = Some g" by (rule governing_gate_get [OF assms])
  then have g: "g \<in> set rs" using fold_by_key [of g_id rs] by (simp add: rs(2))
  with rs(1) show "\<exists>rs. gate_read lid s = Inr rs \<and> g \<in> set rs" by blast
  from rs(1) have "list_all gate_ok rs" unfolding gate_read_def by (rule read_strict_ok)
  with g show "gate_ok g" by (simp add: list_all_iff)
  show "g_kind g = kind" using governing_gate_Some [OF assms(2)] by simp
qed

lemma gate_logs_ok_claim:
  "claim_approval p obs_root lid kind now policy key s = (x, s') \<Longrightarrow> gate_logs_ok s \<Longrightarrow> gate_logs_ok s'"
  using claim_effect gate_logs_ok_append by blast

lemma gate_logs_ok_delete:
  "gate_delete p obs_root gid lid s = (x, s') \<Longrightarrow> gate_logs_ok s \<Longrightarrow> gate_logs_ok s'"
  using gate_delete_outcome gate_logs_ok_filtered by fast

lemma gate_logs_ok_compact:
  "gate_compact c p obs_root lid now s = (x, s') \<Longrightarrow> gate_logs_ok s \<Longrightarrow> gate_logs_ok s'"
  using gate_compact_outcome gate_logs_ok_filtered by fast

lemma gate_step_logs_ok: "gate_step c obs_root gid s s' \<Longrightarrow> gate_logs_ok s \<Longrightarrow> gate_logs_ok s'"
  by (erule gate_stepE)
    (blast intro: gate_logs_ok_append gate_logs_ok_claim gate_logs_ok_delete gate_logs_ok_compact)+

text \<open>Appending a snapshot of another gate does not touch the fold of \<open>gid\<close>.\<close>

lemma view_append_other:
  assumes "gate_append p obs_root r s = (x, s')" "gate_ok r" "gate_view lid s = Some m"
    "same_log lid (g_lifecycleId r) \<longrightarrow> g_id r \<noteq> gid"
  shows "\<exists>m'. gate_view lid s' = Some m' \<and> m' gid = m gid"
proof (cases x)
  case (Inl e)
  with assms(1,3) show ?thesis using gate_append_Inl by blast
next
  case (Inr u)
  with gate_view_append [of p obs_root r s s', OF _ assms(3,2)] assms(1,4) show ?thesis by auto
qed

lemma view_claim_applied:
  assumes "claim_approval p obs_root lid2 kind now policy key s = (x, s')"
    "gate_logs_ok s" "gate_view lid s = Some m" "m gid = Some g" "g_state g = Applied"
  shows "\<exists>m'. gate_view lid s' = Some m' \<and> m' gid = m gid"
proof -
  from claim_effect [OF assms(1)] consider "s' = s"
    | d g' where "gate_current lid2 s = Inr d" "governing_gate d kind = Some g'" "g_state g' = Approved"
      "gate_append p obs_root (apply_gate g' now key) s = (Inr (), s')" by blast
  then show ?thesis
  proof cases
    case 1
    with assms(3) show ?thesis by blast
  next
    case (2 d g')
    note g' = governing_in_log [OF 2(1,2)]
    from g'(2) have route: "same_log (g_lifecycleId g') lid2" using gate_logs_okD [OF assms(2)] by blast
    have "g_id g' \<noteq> gid" if "same_log lid (g_lifecycleId g')"
    proof
      assume id: "g_id g' = gid"
      from that route have "same_log lid lid2" by (rule same_log_trans)
      with assms(3) have "gate_view lid2 s = Some m" by (simp add: gate_view_same [of lid lid2])
      with 2(1) have "m = map_of d" by (simp add: gate_view_def)
      with g'(3) id assms(4) have "g' = g" by simp
      with 2(3) assms(5) show False by simp
    qed
    then show ?thesis using view_append_other [OF 2(4) _ assms(3), of gid] g'(1) by simp
  qed
qed

lemma view_filtered_keep:
  assumes "filtered_to (\<lambda>x. g_id x \<in> K) lid2 s s'" "gate_view lid s = Some m"
    "same_log lid lid2 \<longrightarrow> gid \<in> K"
  shows "\<exists>m'. gate_view lid s' = Some m' \<and> m' gid = m gid"
proof (cases "same_log lid lid2")
  case True
  with assms(2) have "gate_view lid2 s = Some m" by (simp add: gate_view_same [of lid lid2])
  from gate_view_filtered [OF assms(1) this] True assms(3) show ?thesis
    by (auto simp: gate_view_same [of lid lid2])
next
  case False
  with gate_view_filtered_other [OF assms(1)] assms(2) show ?thesis by simp
qed

lemma view_compact_applied:
  assumes "gate_compact c p obs_root lid2 now s = (x, s')" "gate_view lid s = Some m" "m gid = Some g"
    "g_state g = Applied" "g_kind g \<in> set CONSUMED_APPROVAL_GATE_KINDS"
  shows "\<exists>m'. gate_view lid s' = Some m' \<and> m' gid = m gid"
proof -
  from gate_compact_outcome [OF assms(1)] consider "s' = s"
    | rs where "gate_read lid2 s = Inr rs"
      "filtered_to (\<lambda>x. g_id x \<in> gate_keep_ids c rs now INTERACTION_RECORD_TTL_SECONDS) lid2 s s'" by blast
  then show ?thesis
  proof cases
    case 1
    with assms(2) show ?thesis by blast
  next
    case (2 rs)
    have "gid \<in> gate_keep_ids c rs now INTERACTION_RECORD_TTL_SECONDS" if "same_log lid lid2"
    proof -
      from that assms(2) have "gate_view lid2 s = Some m" by (simp add: gate_view_same [of lid lid2])
      with 2(1) have "m = map_of (fold_by g_id rs)" by (simp add: gate_view_read)
      with assms(3-5) show ?thesis by (auto simp: gate_keep_ids_iff keep_gate_applied)
    qed
    then show ?thesis using view_filtered_keep [OF 2(2) assms(2)] by blast
  qed
qed

lemma view_delete_other:
  assumes "gate_delete p obs_root other lid2 s = (x, s')" "other \<noteq> gid" "gate_view lid s = Some m"
  shows "\<exists>m'. gate_view lid s' = Some m' \<and> m' gid = m gid"
proof -
  from gate_delete_outcome [OF assms(1)] have "s' = s \<or> filtered_to (\<lambda>x. g_id x \<in> - {other}) lid2 s s'"
    by auto
  then show ?thesis using view_filtered_keep [OF _ assms(3), of "- {other}" lid2 s' gid] assms(2,3) by auto
qed

lemma gate_step_view:
  assumes "gate_step c obs_root gid s s'" "gate_logs_ok s" "gate_view lid s = Some m" "m gid = Some g"
    "g_state g = Applied" "g_kind g \<in> set CONSUMED_APPROVAL_GATE_KINDS"
  shows "\<exists>m'. gate_view lid s' = Some m' \<and> m' gid = Some g"
  using assms(1)
proof (rule gate_stepE)
  fix p r x
  assume "gate_append p obs_root r s = (x, s')" "gate_ok r" "g_id r \<noteq> gid"
  then show ?thesis using view_append_other [of p obs_root r s x s' lid m gid] assms(3,4) by simp
next
  fix p lid2 kind now policy key x
  assume "claim_approval p obs_root lid2 kind now policy key s = (x, s')"
  from view_claim_applied [OF this assms(2-5)] assms(4) show ?thesis by simp
next
  fix p other lid2 x
  assume "gate_delete p obs_root other lid2 s = (x, s')" "other \<noteq> gid"
  from view_delete_other [OF this assms(3)] assms(4) show ?thesis by simp
next
  fix p lid2 now x
  assume "gate_compact c p obs_root lid2 now s = (x, s')"
  from view_compact_applied [OF this assms(3-6)] assms(4) show ?thesis by simp
qed

lemma gate_step_spent:
  assumes "kind \<in> set CONSUMED_APPROVAL_GATE_KINDS" "gate_step c obs_root gid s s'" "spent lid gid kind key s"
  shows "spent lid gid kind key s'"
proof -
  from assms(3) obtain m g where ok: "gate_logs_ok s" and g: "gate_view lid s = Some m" "m gid = Some g"
    "g_state g = Applied" "g_kind g = kind" "g_appliedOperation g = key" by (auto simp: spent_def)
  from gate_step_view [OF assms(2) ok g(1-3)] g(4) assms(1)
  obtain m' where "gate_view lid s' = Some m'" "m' gid = Some g" by blast
  with g gate_step_logs_ok [OF assms(2) ok] show ?thesis by (auto simp: spent_def)
qed

interpretation logs_kept: step_invariant "gate_step c obs_root gid" gate_logs_ok
  for c obs_root gid
  by unfold_locales (rule gate_step_logs_ok)

interpretation spent_kept: step_invariant "gate_step c obs_root gid"
  "\<lambda>s. kind \<in> set CONSUMED_APPROVAL_GATE_KINDS \<and> spent lid gid kind key s"
  for c obs_root gid lid kind key
  by unfold_locales (blast intro: gate_step_spent)

text \<open>A permitted claim that names a gate leaves that gate spent, bound to the claim's operation.\<close>

lemma claim_spends:
  assumes "claim_approval p obs_root lid kind now policy key s = (Inr guard, s')"
    "permitted guard" "gg_gate_id guard = Some gid" "gate_logs_ok s"
  shows "spent lid gid kind key s'"
proof -
  from claim_approval_outcome [OF assms(1)] obtain d where d: "gate_current lid s = Inr d"
    "guard = evaluate_gate d kind policy key" and eff:
    "case governing_gate d kind of
       Some g \<Rightarrow> if g_state g = Approved \<and> policy_valid g policy
                 then gate_append p obs_root (apply_gate g now key) s = (Inr (), s') else s' = s
     | None \<Rightarrow> s' = s" by auto
  from assms(3) d(2) obtain g where g: "governing_gate d kind = Some g" "g_id g = gid"
    by (auto simp: evaluate_gate_gate_id)
  note log = governing_in_log [OF d(1) g(1)]
  have view: "gate_view lid s = Some (map_of d)" by (simp add: gate_view_def d(1))
  show ?thesis
  proof (cases "g_state g = Approved \<and> policy_valid g policy")
    case True
    with eff g(1) have app: "gate_append p obs_root (apply_gate g now key) s = (Inr (), s')" by simp
    from log(2) have "same_log lid (g_lifecycleId g)"
      using gate_logs_okD [OF assms(4)] same_log_sym by blast
    with gate_view_append [OF app view] log(1,4) g(2) gate_logs_ok_append [OF app assms(4)]
    show ?thesis by (auto simp: spent_def)
  next
    case False
    with eff g(1) have "s' = s" by simp
    moreover from False assms(2) have "g_state g = Applied \<and> g_appliedOperation g = key"
      using evaluate_gate_Some [OF g(1), of policy key] by (auto simp: d(2))
    ultimately show ?thesis using view log(3,4) g(2) assms(4) by (auto simp: spent_def)
  qed
qed

text \<open>On a spent gate nothing but the same operation gets through.\<close>

lemma spent_claim:
  assumes "spent lid gid kind key s"
    "claim_approval p obs_root lid kind now policy key' s = (Inr guard, s')" "permitted guard"
  shows "(\<exists>other. other \<noteq> gid \<and> gg_gate_id guard = Some other) \<or>
         (gg_gate_id guard = Some gid \<and> key' \<noteq> None \<and> key' = key)"
proof -
  from claim_approval_outcome [OF assms(2)] obtain d where d: "gate_current lid s = Inr d"
    "guard = evaluate_gate d kind policy key'" by auto
  from assms(1) d(1) obtain g where g: "map_of d gid = Some g" "g_state g = Applied" "g_kind g = kind"
    "g_appliedOperation g = key" by (auto simp: spent_def gate_view_def)
  from map_of_SomeD [OF g(1)] have "g \<in> set (dvalues d)" by force
  with g(3) have "governing_gate d kind \<noteq> None" by (auto simp: governing_gate_None simp del: set_map)
  then obtain h where h: "governing_gate d kind = Some h" by blast
  show ?thesis
  proof (cases "g_id h = gid")
    case True
    with governing_in_log(3) [OF d(1) h] g(1) have "h = g" by simp
    with h g True assms(3) evaluate_gate_Some [OF h, of policy key'] show ?thesis
      by (auto simp: d(2))
  next
    case False
    then show ?thesis using h by (auto simp: d(2) evaluate_gate_gate_id)
  qed
qed

end
