(* ===== verification/Claim_Race.thy ===== *)
theory Claim_Race
  imports Gate_Authority
begin

section \<open>Concurrent claims of one approval\<close>

text \<open>
  \<^verbatim>\<open>GateStore.claim_approval\<close> (\<^verbatim>\<open>controlplane/store.py\<close>) when threads of several processes claim on the same log
  at once. The call is split where the operating system may switch: take the lock, read and fold the log,
  evaluate and append, release. The lock is the machine of \<^verbatim>\<open>Store_Lock\<close>; nothing else orders the threads.

  The refinement lemma says that each write of the race is one atomic \<^verbatim>\<open>claim_approval\<close> on the log as it is
  at that moment; the atomic treatment of store calls elsewhere in the development rests on this shape.
\<close>

record claim_request =
  cr_process :: process
  cr_kind :: gate_kind
  cr_now :: string
  cr_policy :: gate_policy
  cr_key :: "string option"

datatype claim_pc =
    Idle
  | Inside
  | HasRead "(string, gate_record) dict"
  | Finished "gate_guard res"

record race =
  r_locks :: lock_world
  r_logs :: gate_logs
  r_pc :: "tid \<Rightarrow> claim_pc"

text \<open>What a claim does with the fold it has read.\<close>

definition claim_with ::
  "path \<Rightarrow> claim_request \<Rightarrow> (string, gate_record) dict \<Rightarrow> (gate_logs, gate_guard) prog" where
  "claim_with obs_root rq gates =
     (let guard = evaluate_gate gates (cr_kind rq) (cr_policy rq) (cr_key rq)
      in if \<not> permitted guard \<or> gg_gate_id guard = None then sret guard
         else case dget gates (the (gg_gate_id guard)) of
                None \<Rightarrow> slift (Inl (KeyError (the (gg_gate_id guard))))
              | Some gate \<Rightarrow>
                  if g_state gate = Applied then sret guard
                  else sbind (gate_append (cr_process rq) obs_root (apply_gate gate (cr_now rq) (cr_key rq)))
                         (\<lambda>_. sret guard))"

abbreviation claim_of :: "path \<Rightarrow> string option \<Rightarrow> claim_request \<Rightarrow> (gate_logs, gate_guard) prog" where
  "claim_of obs_root lid rq \<equiv>
     claim_approval (cr_process rq) obs_root lid (cr_kind rq) (cr_now rq) (cr_policy rq) (cr_key rq)"

inductive race_step ::
  "path \<Rightarrow> string option \<Rightarrow> (tid \<Rightarrow> claim_request) \<Rightarrow> race \<Rightarrow> race \<Rightarrow> bool" for obs_root lid rq where
  race_enter: "r_pc s t = Idle \<Longrightarrow> access_guard (cr_process (rq t)) GATE_OWNERSHIP (gate_log_path obs_root lid) = Inr () \<Longrightarrow>
    enter (cr_process (rq t)) GATE_OWNERSHIP t (gate_log_path obs_root lid) (r_locks s) = Entered w \<Longrightarrow>
    race_step obs_root lid rq s (s\<lparr>r_locks := w, r_pc := (r_pc s)(t := Inside)\<rparr>)"
| race_read: "r_pc s t = Inside \<Longrightarrow> gate_current lid (r_logs s) = Inr d \<Longrightarrow>
    race_step obs_root lid rq s (s\<lparr>r_pc := (r_pc s)(t := HasRead d)\<rparr>)"
| race_corrupt: "r_pc s t = Inside \<Longrightarrow> gate_current lid (r_logs s) = Inl e \<Longrightarrow>
    race_step obs_root lid rq s (s\<lparr>r_locks := leave t (gate_log_path obs_root lid) (r_locks s),
                                   r_pc := (r_pc s)(t := Finished (Inl e))\<rparr>)"
| race_finish: "r_pc s t = HasRead d \<Longrightarrow> claim_with obs_root (rq t) d (r_logs s) = (r, logs) \<Longrightarrow>
    race_step obs_root lid rq s (s\<lparr>r_locks := leave t (gate_log_path obs_root lid) (r_locks s), r_logs := logs,
                                   r_pc := (r_pc s)(t := Finished r)\<rparr>)"

inductive_cases race_stepE: "race_step obs_root lid rq s s'"

definition init_race :: "gate_logs \<Rightarrow> race" where
  "init_race logs = \<lparr>r_locks = init_locks, r_logs = logs, r_pc = (\<lambda>_. Idle)\<rparr>"

definition inside :: "claim_pc \<Rightarrow> bool" where
  "inside pc = (case pc of Inside \<Rightarrow> True | HasRead _ \<Rightarrow> True | _ \<Rightarrow> False)"

text \<open>
  The race invariant: the threads inside are exactly the holders of the lock, at depth one; what the one
  inside has read is still what the log says; a thread past its read passed the access check.
\<close>

definition race_inv :: "path \<Rightarrow> string option \<Rightarrow> (tid \<Rightarrow> claim_request) \<Rightarrow> race \<Rightarrow> bool" where
  "race_inv obs_root lid rq s \<longleftrightarrow>
     (\<forall>t. depth (r_locks s) t (lock_path_for (gate_log_path obs_root lid)) = (if inside (r_pc s t) then 1 else 0)) \<and>
     (\<forall>t. inside (r_pc s t) \<longleftrightarrow> holder (r_locks s) (lock_path_for (gate_log_path obs_root lid)) = Some t) \<and>
     (\<forall>t d. r_pc s t = HasRead d \<longrightarrow> gate_current lid (r_logs s) = Inr d) \<and>
     (\<forall>t. inside (r_pc s t) \<longrightarrow> access_guard (cr_process (rq t)) GATE_OWNERSHIP (gate_log_path obs_root lid) = Inr ())"

lemma claim_approval_split:
  "claim_of obs_root lid rq =
   exclusive_access (cr_process rq) GATE_OWNERSHIP (gate_log_path obs_root lid)
     (sbind (sget (gate_current lid)) (claim_with obs_root rq))"
  by (simp add: claim_approval_def claim_with_def [abs_def] Let_def)

lemma inside_simps [simp]: "inside Inside" "inside (HasRead d)" "\<not> inside Idle" "\<not> inside (Finished r)"
  by (simp_all add: inside_def)

lemma race_inv_only:
  "race_inv obs_root lid rq s \<Longrightarrow> inside (r_pc s t) \<Longrightarrow> inside (r_pc s t') \<Longrightarrow> t' = t"
  by (auto simp: race_inv_def)

lemma race_inv_init: "race_inv obs_root lid rq (init_race logs)"
  by (simp add: race_inv_def init_race_def init_locks_def)

lemma race_enter_inv:
  assumes "race_inv obs_root lid rq s" "r_pc s t = Idle"
    "access_guard (cr_process (rq t)) GATE_OWNERSHIP (gate_log_path obs_root lid) = Inr ()"
    "enter (cr_process (rq t)) GATE_OWNERSHIP t (gate_log_path obs_root lid) (r_locks s) = Entered w"
  shows "race_inv obs_root lid rq (s\<lparr>r_locks := w, r_pc := (r_pc s)(t := Inside)\<rparr>)"
  using assms(4)
proof (cases rule: enter_cases)
  case nested
  with assms(1,2) show ?thesis by (simp add: race_inv_def)
next
  case (outer v)
  with assms(1) have "\<not> inside (r_pc s t')" for t' by (auto simp: race_inv_def)
  then have "r_pc s t' \<noteq> HasRead d" for t' d by (metis inside_simps(2))
  with outer assms(1,3) show ?thesis by (auto simp: race_inv_def set_depth_def)
qed

text \<open>A thread that leaves gives up its claim to be inside; nobody else was.\<close>

lemma race_leave_inv:
  assumes "race_inv obs_root lid rq s" "inside (r_pc s t)" "\<not> inside pc"
  shows "race_inv obs_root lid rq
    (s\<lparr>r_locks := leave t (gate_log_path obs_root lid) (r_locks s), r_logs := logs, r_pc := (r_pc s)(t := pc)\<rparr>)"
proof -
  have out: "\<not> inside (r_pc s t')" if "t' \<noteq> t" for t' using race_inv_only [OF assms(1,2)] that by blast
  then have "r_pc s t' \<noteq> HasRead d" if "t' \<noteq> t" for t' d using that by (metis inside_simps(2))
  moreover have "pc \<noteq> HasRead d" for d using assms(3) by auto
  moreover have "depth (r_locks s) t (lock_path_for (gate_log_path obs_root lid)) = 1"
    using assms(1,2) by (simp add: race_inv_def)
  ultimately show ?thesis using assms(1,3) out
    by (auto simp: race_inv_def leave_def set_depth_def Let_def)
qed

lemma race_step_inv: "race_step obs_root lid rq s s' \<Longrightarrow> race_inv obs_root lid rq s \<Longrightarrow> race_inv obs_root lid rq s'"
proof (erule race_stepE)
  fix t d
  assume "race_inv obs_root lid rq s" "s' = s\<lparr>r_pc := (r_pc s)(t := HasRead d)\<rparr>" "r_pc s t = Inside"
    "gate_current lid (r_logs s) = Inr d"
  then show "race_inv obs_root lid rq s'" by (auto simp: race_inv_def)
next
  fix t e
  assume "race_inv obs_root lid rq s" "r_pc s t = Inside"
    "s' = s\<lparr>r_locks := leave t (gate_log_path obs_root lid) (r_locks s), r_pc := (r_pc s)(t := Finished (Inl e))\<rparr>"
  then show "race_inv obs_root lid rq s'"
    using race_leave_inv [of obs_root lid rq s t "Finished (Inl e)" "r_logs s"] by simp
next
  fix t d r logs
  assume "race_inv obs_root lid rq s" "r_pc s t = HasRead d"
    "s' = s\<lparr>r_locks := leave t (gate_log_path obs_root lid) (r_locks s), r_logs := logs, r_pc := (r_pc s)(t := Finished r)\<rparr>"
  then show "race_inv obs_root lid rq s'" using race_leave_inv by simp
qed (simp add: race_enter_inv)

interpretation race_machine: step_invariant "race_step obs_root lid rq" "race_inv obs_root lid rq"
  for obs_root lid rq
  by unfold_locales (rule race_step_inv)

subsection \<open>Each write is an atomic claim\<close>

lemma race_refines:
  assumes "race_step obs_root lid rq s s'" "race_inv obs_root lid rq s"
  shows "(r_logs s' = r_logs s \<and> (\<forall>t g. r_pc s' t = Finished (Inr g) \<longrightarrow> r_pc s t = Finished (Inr g))) \<or>
    (\<exists>t r. claim_of obs_root lid (rq t) (r_logs s) = (r, r_logs s') \<and> r_pc s' = (r_pc s)(t := Finished r))"
  using assms(1)
proof (cases rule: race_step.cases)
  case (race_finish t d r logs)
  note fin = race_finish
  with assms(2) have "gate_current lid (r_logs s) = Inr d"
    "access_guard (cr_process (rq t)) GATE_OWNERSHIP (gate_log_path obs_root lid) = Inr ()"
    by (auto simp: race_inv_def)
  with fin have "claim_of obs_root lid (rq t) (r_logs s) = (r, r_logs s')"
    unfolding claim_approval_split by (simp add: sbind_sget)
  with fin show ?thesis by auto
qed auto

definition winner :: "string \<Rightarrow> race \<Rightarrow> tid \<Rightarrow> bool" where
  "winner gid s t \<longleftrightarrow> (\<exists>g. r_pc s t = Finished (Inr g) \<and> permitted g \<and> gg_gate_id g = Some gid)"

text \<open>The winners of a gate all hold the one operation its applied snapshot is bound to.\<close>

definition winners_ok ::
  "string option \<Rightarrow> string \<Rightarrow> gate_kind \<Rightarrow> (tid \<Rightarrow> claim_request) \<Rightarrow> race \<Rightarrow> bool" where
  "winners_ok lid gid kind rq s \<longleftrightarrow>
     gate_logs_ok (r_logs s) \<and>
     (\<forall>t. winner gid s t \<longrightarrow> spent lid gid kind (cr_key (rq t)) (r_logs s)) \<and>
     (\<forall>t t'. winner gid s t \<and> winner gid s t' \<and> t \<noteq> t' \<longrightarrow> cr_key (rq t) = cr_key (rq t') \<and> cr_key (rq t) \<noteq> None)"

lemma spent_once: "spent lid gid kind k s \<Longrightarrow> spent lid gid kind k' s \<Longrightarrow> k' = k"
  unfolding spent_def by (elim conjE exE) simp

lemma winners_step:
  assumes "race_step obs_root lid rq s s'" "race_inv obs_root lid rq s" "winners_ok lid gid kind rq s"
    "kind \<in> set CONSUMED_APPROVAL_GATE_KINDS" "\<forall>t. cr_kind (rq t) = kind"
  shows "winners_ok lid gid kind rq s'"
  using race_refines [OF assms(1,2)]
proof (elim disjE exE conjE)
  assume "r_logs s' = r_logs s" "\<forall>t g. r_pc s' t = Finished (Inr g) \<longrightarrow> r_pc s t = Finished (Inr g)"
  then have "winner gid s t" if "winner gid s' t" for t using that by (auto simp: winner_def)
  with assms(3) \<open>r_logs s' = r_logs s\<close> show ?thesis unfolding winners_ok_def by metis
next
  fix t r
  assume cl: "claim_of obs_root lid (rq t) (r_logs s) = (r, r_logs s')" and pc: "r_pc s' = (r_pc s)(t := Finished r)"
  have ok: "gate_logs_ok (r_logs s)" using assms(3) by (simp add: winners_ok_def)
  have keep: "spent lid gid kind k (r_logs s')" if "spent lid gid kind k (r_logs s)" for k
    using gate_step_spent [OF assms(4) gate_step.step_claim [OF cl] that] .
  have old: "winner gid s t'" if "winner gid s' t'" "t' \<noteq> t" for t' using that by (simp add: winner_def pc)
  have new: "spent lid gid kind (cr_key (rq t)) (r_logs s')" if "winner gid s' t"
    using that claim_spends [of "cr_process (rq t)" obs_root lid "cr_kind (rq t)"] cl ok assms(5)
    by (auto simp: winner_def pc)
  have pair: "cr_key (rq t') = cr_key (rq t) \<and> cr_key (rq t) \<noteq> None" if "winner gid s' t" "winner gid s t'" for t'
  proof -
    from that(2) assms(3) have sp: "spent lid gid kind (cr_key (rq t')) (r_logs s)" by (simp add: winners_ok_def)
    from that(1) obtain g where g: "r = Inr g" "permitted g" "gg_gate_id g = Some gid" by (auto simp: winner_def pc)
    from cl g(1) assms(5) have "claim_approval (cr_process (rq t)) obs_root lid kind (cr_now (rq t)) (cr_policy (rq t))
      (cr_key (rq t)) (r_logs s) = (Inr g, r_logs s')" by simp
    from spent_claim [OF sp this g(2)] g(3) show ?thesis by (metis option.inject)
  qed
  have spent_all: "spent lid gid kind (cr_key (rq t')) (r_logs s')" if "winner gid s' t'" for t'
    using that new old keep assms(3) by (cases "t' = t") (auto simp: winners_ok_def)
  have "cr_key (rq a) = cr_key (rq b) \<and> cr_key (rq a) \<noteq> None"
    if "winner gid s' a" "winner gid s' b" "a \<noteq> b" for a b
    using that old pair assms(3) unfolding winners_ok_def by metis
  with spent_all gate_logs_ok_claim [OF cl ok] show ?thesis unfolding winners_ok_def by blast
qed

interpretation race_winners: step_invariant "race_step obs_root lid rq"
  "\<lambda>s. race_inv obs_root lid rq s \<and> winners_ok lid gid kind rq s \<and> kind \<in> set CONSUMED_APPROVAL_GATE_KINDS \<and>
       (\<forall>t. cr_kind (rq t) = kind)"
  for obs_root lid rq gid kind
  by unfold_locales (auto intro: race_step_inv winners_step)

lemma race_start: "gate_logs_ok logs \<Longrightarrow> winners_ok lid gid kind rq (init_race logs)"
  by (simp add: winners_ok_def winner_def init_race_def)

text \<open>A thread that finds the lock free runs its claim to the end, and leaves the lock free.\<close>

lemma enter_verified:
  "enter p own t lg w = Entered w' \<Longrightarrow>
   set (verified w' i) \<subseteq> insert (lock_path_for lg) (set (verified w i))"
  by (auto simp: enter_def checked_lock_path_for_def verify_lock_capability_def set_depth_def rbind_def
      split: sum.splits if_splits)

lemma race_solo:
  assumes inv: "race_inv obs_root lid rq s" and idle: "r_pc s t = Idle" and free: "\<forall>t'. \<not> inside (r_pc s t')"
    and guard: "access_guard (cr_process (rq t)) GATE_OWNERSHIP (gate_log_path obs_root lid) = Inr ()"
    and ver: "\<forall>q\<in>set (verified (r_locks s) (process_id (cr_process (rq t)))). flock_excludes (cr_process (rq t)) q"
    and d: "gate_current lid (r_logs s) = Inr d"
    and claim: "claim_of obs_root lid (rq t) (r_logs s) = (r, logs)"
  shows "\<exists>s'. (race_step obs_root lid rq)\<^sup>*\<^sup>* s s' \<and> race_inv obs_root lid rq s' \<and>
    r_pc s' = (r_pc s)(t := Finished r) \<and> r_logs s' = logs \<and>
    (\<forall>i. set (verified (r_locks s') i) \<subseteq> insert (lock_path_for (gate_log_path obs_root lid)) (set (verified (r_locks s) i)))"
proof -
  let ?log = "gate_log_path obs_root lid"
  have "depth (r_locks s) t (lock_path_for ?log) = 0" "holder (r_locks s) (lock_path_for ?log) = None"
    using inv free by (auto simp: race_inv_def not_Some_eq [symmetric] simp del: not_Some_eq)
  then obtain w where w: "enter (cr_process (rq t)) GATE_OWNERSHIP t ?log (r_locks s) = Entered w"
    using access_guard_enter ver guard by blast
  define s1 where "s1 = s\<lparr>r_locks := w, r_pc := (r_pc s)(t := Inside)\<rparr>"
  define s2 where "s2 = s1\<lparr>r_pc := (r_pc s1)(t := HasRead d)\<rparr>"
  define s3 where "s3 = s2\<lparr>r_locks := leave t ?log (r_locks s2), r_logs := logs, r_pc := (r_pc s2)(t := Finished r)\<rparr>"
  have 1: "race_step obs_root lid rq s s1" unfolding s1_def using idle guard w by (rule race_enter)
  have 2: "race_step obs_root lid rq s1 s2" unfolding s2_def by (rule race_read) (simp_all add: s1_def d)
  have "claim_with obs_root (rq t) d (r_logs s) = (r, logs)"
    using claim guard d unfolding claim_approval_split by (simp add: sbind_sget)
  then have 3: "race_step obs_root lid rq s2 s3"
    unfolding s3_def by (intro race_finish [of _ _ d]) (simp_all add: s2_def s1_def)
  have run: "(race_step obs_root lid rq)\<^sup>*\<^sup>* s s3" using 1 2 3 by (meson converse_rtranclp_into_rtranclp rtranclp.rtrancl_refl)
  have "verified (r_locks s3) = verified w"
    by (simp add: s3_def s2_def s1_def leave_def set_depth_def Let_def)
  with enter_verified [OF w] run race_machine.run_keeps [OF run inv] show ?thesis
    by (intro exI [of _ s3]) (simp add: s3_def s2_def s1_def)
qed

end
