(* ===== verification/Inbox_Store.thy ===== *)
theory Inbox_Store
  imports Retention Store_Access
begin

section \<open>The operator-inbox store\<close>

text \<open>
  \<^verbatim>\<open>controlplane/operator_inbox_store.py\<close>: one workspace log, read strictly, folded with terminal snapshots
  dominating. Every method takes the log's lock for the whole of its read and write, so each is one
  program over the log file. A transition is a function that returns \<^verbatim>\<open>None\<close> when it appends nothing
  (the source also treats "the same object" that way).
\<close>

type_synonym inbox = "operator_inbox_entry log_file"
type_synonym inbox_fold = "(string, operator_inbox_entry) dict"
type_synonym inbox_transition = "operator_inbox_entry \<Rightarrow> operator_inbox_entry option"

definition inbox_log_path :: "path \<Rightarrow> path" where
  "inbox_log_path obs_root = obs_root @ [''workspace'', ''operator-inbox.jsonl'']"

abbreviation inbox_exclusive :: "process \<Rightarrow> path \<Rightarrow> (inbox, 'a) prog \<Rightarrow> (inbox, 'a) prog" where
  "inbox_exclusive p obs_root \<equiv> exclusive_access p OPERATOR_INBOX_OWNERSHIP (inbox_log_path obs_root)"

definition inbox_validated :: "operator_inbox_entry \<Rightarrow> operator_inbox_entry res" where
  "inbox_validated record = (if inbox_ok record then Inr record else Inl (ValidationError ''operator inbox''))"

definition inbox_append_unlocked :: "process \<Rightarrow> path \<Rightarrow> operator_inbox_entry \<Rightarrow> (inbox, unit) prog" where
  "inbox_append_unlocked p obs_root record =
     sbind (slift (inbox_validated record)) (append_record p (inbox_log_path obs_root))"

definition inbox_read_unlocked :: "(inbox, operator_inbox_entry list) prog" where
  "inbox_read_unlocked = sget (read_strict inbox_ok)"

definition inbox_replace_unlocked :: "process \<Rightarrow> path \<Rightarrow> operator_inbox_entry list \<Rightarrow> (inbox, unit) prog" where
  "inbox_replace_unlocked p obs_root records =
     sbind (slift (rmap inbox_validated records)) (rewrite_records p (inbox_log_path obs_root))"

definition inbox_append :: "process \<Rightarrow> path \<Rightarrow> operator_inbox_entry \<Rightarrow> (inbox, unit) prog" where
  "inbox_append p obs_root record =
     sbind (slift (check_declared_writer OPERATOR_INBOX_OWNERSHIP p)) (\<lambda>_.
       inbox_exclusive p obs_root (inbox_append_unlocked p obs_root record))"

definition inbox_transition ::
  "process \<Rightarrow> path \<Rightarrow> string \<Rightarrow> inbox_transition \<Rightarrow> (inbox, operator_inbox_entry \<times> bool) prog" where
  "inbox_transition p obs_root entry_id transition =
     inbox_exclusive p obs_root
       (sbind inbox_read_unlocked (\<lambda>records.
          case dget (fold_operator_inbox_entries records) entry_id of
            None \<Rightarrow> slift (Inl (KeyError entry_id))
          | Some entry \<Rightarrow>
              (case transition entry of
                 None \<Rightarrow> sret (entry, False)
               | Some updated \<Rightarrow>
                   sbind (inbox_append_unlocked p obs_root updated) (\<lambda>_. sret (updated, True)))))"

fun transition_batch ::
  "inbox_fold \<Rightarrow> (string \<times> inbox_transition) list \<Rightarrow>
   ((operator_inbox_entry \<times> bool) list \<times> operator_inbox_entry list) res" where
  "transition_batch current [] = Inr ([], [])"
| "transition_batch current ((entry_id, transition) # rest) =
     (case dget current entry_id of
        None \<Rightarrow> Inl (KeyError entry_id)
      | Some entry \<Rightarrow>
          (case transition entry of
             None \<Rightarrow>
               rbind (transition_batch current rest)
                 (\<lambda>(results, appended). Inr ((entry, False) # results, appended))
           | Some updated \<Rightarrow>
               rbind (inbox_validated updated) (\<lambda>validated.
                 rbind (transition_batch (dput entry_id validated current) rest)
                   (\<lambda>(results, appended). Inr ((validated, True) # results, validated # appended)))))"

definition inbox_transition_many ::
  "process \<Rightarrow> path \<Rightarrow> (string \<times> inbox_transition) list \<Rightarrow> (inbox, (operator_inbox_entry \<times> bool) list) prog" where
  "inbox_transition_many p obs_root transitions =
     sbind (slift (check_declared_writer OPERATOR_INBOX_OWNERSHIP p)) (\<lambda>_.
       inbox_exclusive p obs_root
         (sbind inbox_read_unlocked (\<lambda>records.
            sbind (slift (transition_batch (fold_operator_inbox_entries records) transitions))
              (\<lambda>(results, appended).
                 sbind (append_records p (inbox_log_path obs_root) appended) (\<lambda>_. sret results)))))"

definition inbox_read :: "process \<Rightarrow> path \<Rightarrow> (inbox, operator_inbox_entry list) prog" where
  "inbox_read p obs_root = inbox_exclusive p obs_root inbox_read_unlocked"

definition inbox_current :: "process \<Rightarrow> path \<Rightarrow> (inbox, inbox_fold) prog" where
  "inbox_current p obs_root =
     sbind (inbox_read p obs_root) (\<lambda>records. sret (fold_operator_inbox_entries records))"

definition matches_mailbox ::
  "string option \<Rightarrow> string option \<Rightarrow> agent_role option \<Rightarrow> bool \<Rightarrow> operator_inbox_entry \<Rightarrow> bool" where
  "matches_mailbox lifecycle_id agent_id recipient_role include_terminal record \<longleftrightarrow>
     (i_state record = Pending \<or> include_terminal) \<and>
     (lifecycle_id = None \<or> i_lifecycleId record = lifecycle_id) \<and>
     (agent_id = None \<or> i_agentId record = agent_id) \<and>
     (recipient_role = None \<or> i_recipientRole record = recipient_role)"

definition list_for_mailbox ::
  "process \<Rightarrow> path \<Rightarrow> string option \<Rightarrow> string option \<Rightarrow> agent_role option \<Rightarrow> bool \<Rightarrow>
   (inbox, operator_inbox_entry list) prog" where
  "list_for_mailbox p obs_root lifecycle_id agent_id recipient_role include_terminal =
     sbind (slift (require_inbox_address None lifecycle_id agent_id recipient_role)) (\<lambda>_.
       sbind (inbox_current p obs_root) (\<lambda>current.
         sret (sort_key i_createdAt
                 (filter (matches_mailbox lifecycle_id agent_id recipient_role include_terminal)
                    (dvalues current)))))"

definition list_pending ::
  "process \<Rightarrow> path \<Rightarrow> string option \<Rightarrow> string option \<Rightarrow> agent_role option \<Rightarrow>
   (inbox, operator_inbox_entry list) prog" where
  "list_pending p obs_root lifecycle_id agent_id recipient_role =
     list_for_mailbox p obs_root lifecycle_id agent_id recipient_role False"

definition list_redeliverable ::
  "iso_codec \<Rightarrow> process \<Rightarrow> path \<Rightarrow> clock \<Rightarrow> seconds option \<Rightarrow> inbox_fold option \<Rightarrow>
   (inbox, operator_inbox_entry list) prog" where
  "list_redeliverable c p obs_root now rate_limit current =
     sbind (case current of None \<Rightarrow> inbox_current p obs_root | Some d \<Rightarrow> sret d) (\<lambda>entries.
       let pending = filter (\<lambda>e. i_state e = Pending) (dvalues entries)
       in slift (redeliverable c pending now
                   (case rate_limit of Some r \<Rightarrow> r | None \<Rightarrow> DEFAULT_RATE_LIMIT_SECONDS)))"

definition inbox_consume ::
  "process \<Rightarrow> path \<Rightarrow> string \<Rightarrow> string \<Rightarrow> string \<Rightarrow> inbox_via \<Rightarrow> (inbox, operator_inbox_entry \<times> bool) prog" where
  "inbox_consume p obs_root entry_id now consumed_by consumed_via =
     inbox_exclusive p obs_root
       (sbind inbox_read_unlocked (\<lambda>records.
          case dget (fold_operator_inbox_entries records) entry_id of
            None \<Rightarrow> slift (Inl (KeyError entry_id))
          | Some current \<Rightarrow>
              if i_state current \<noteq> Pending then sret (current, False)
              else (case consume_operator_inbox_entry current now consumed_by consumed_via of
                      None \<Rightarrow> sret (current, False)
                    | Some consumed \<Rightarrow>
                        sbind (inbox_append_unlocked p obs_root consumed) (\<lambda>_. sret (consumed, True)))))"

definition inbox_delete :: "process \<Rightarrow> path \<Rightarrow> string \<Rightarrow> (inbox, bool) prog" where
  "inbox_delete p obs_root entry_id =
     inbox_exclusive p obs_root
       (sbind inbox_read_unlocked (\<lambda>records.
          let kept = filter (\<lambda>r. i_id r \<noteq> entry_id) records
          in if length kept = length records then sret False
             else sbind (inbox_replace_unlocked p obs_root kept) (\<lambda>_. sret True)))"

definition inbox_delete_by_gate :: "process \<Rightarrow> path \<Rightarrow> string \<Rightarrow> (inbox, nat) prog" where
  "inbox_delete_by_gate p obs_root gate_id =
     inbox_exclusive p obs_root
       (sbind inbox_read_unlocked (\<lambda>records.
          let kept = filter (\<lambda>r. i_gateId r \<noteq> Some gate_id) records
          in if length kept = length records then sret 0
             else sbind (inbox_replace_unlocked p obs_root kept)
                    (\<lambda>_. sret (length records - length kept))))"

definition inbox_compact :: "iso_codec \<Rightarrow> process \<Rightarrow> path \<Rightarrow> clock \<Rightarrow> (inbox, nat) prog" where
  "inbox_compact c p obs_root now =
     inbox_exclusive p obs_root
       (sbind inbox_read_unlocked (\<lambda>records.
          if records = [] then sret 0
          else let keep_ids = inbox_keep_ids c records now INBOX_MAX_CURRENT_ROWS None;
                   kept = filter (\<lambda>r. i_id r \<in> keep_ids) records
               in if length kept = length records then sret 0
                  else sbind (inbox_replace_unlocked p obs_root kept)
                         (\<lambda>_. sret (length records - length kept))))"

definition ladder_resolved :: "iso_codec \<Rightarrow> clock \<Rightarrow> string \<Rightarrow> operator_inbox_entry \<Rightarrow> operator_inbox_entry" where
  "ladder_resolved c now reason entry =
     entry\<lparr>i_ts := isoformat c (utc now), i_state := LadderResolved,
           i_ladderResolvedAt := Some (isoformat c (utc now)), i_ladderResolvedReason := Some reason,
           i_nextAttemptAt := None\<rparr>"

fun resolve_reviewed ::
  "iso_codec \<Rightarrow> clock \<Rightarrow> (string \<times> string) list \<Rightarrow> inbox_fold \<Rightarrow> operator_inbox_entry list \<times> inbox_fold" where
  "resolve_reviewed c now [] current = ([], current)"
| "resolve_reviewed c now ((entry_id, reason) # rest) current =
     (case dget current entry_id of
        None \<Rightarrow> resolve_reviewed c now rest current
      | Some entry \<Rightarrow>
          if i_state entry \<noteq> Pending then resolve_reviewed c now rest current
          else let terminal = ladder_resolved c now reason entry;
                   (resolved, final) = resolve_reviewed c now rest (dput entry_id terminal current)
               in (terminal # resolved, final))"

definition reconcile_and_compact ::
  "iso_codec \<Rightarrow> process \<Rightarrow> path \<Rightarrow> clock \<Rightarrow> (inbox_fold \<Rightarrow> (string, string) dict) \<Rightarrow>
   (inbox, nat \<times> inbox_fold \<times> operator_inbox_entry list) prog" where
  "reconcile_and_compact c p obs_root now reconcile =
     inbox_exclusive p obs_root
       (sbind inbox_read_unlocked (\<lambda>records0.
          let current0 = fold_operator_inbox_entries records0;
              (resolved, current) = resolve_reviewed c now (reconcile current0) current0;
              records = records0 @ resolved;
              keep_ids = inbox_keep_ids c records now INBOX_MAX_CURRENT_ROWS (Some current);
              kept_records = filter (\<lambda>r. i_id r \<in> keep_ids) records;
              kept_current = filter (\<lambda>kv. fst kv \<in> keep_ids) current;
              removed = card (set (map fst current0) - set (map fst kept_current))
          in if removed \<noteq> 0
             then sbind (inbox_replace_unlocked p obs_root kept_records)
                    (\<lambda>_. sret (removed, kept_current, resolved))
             else sret (removed, kept_current, resolved)))"

subsection \<open>Outcomes\<close>

definition inbox_view :: "inbox \<Rightarrow> (string \<rightharpoonup> operator_inbox_entry) option" where
  "inbox_view s =
     (case read_strict inbox_ok s of Inl _ \<Rightarrow> None | Inr rs \<Rightarrow> Some (map_of (fold_operator_inbox_entries rs)))"

lemma inbox_view_Some:
  "inbox_view s = Some m \<longleftrightarrow>
   (\<exists>rs. read_strict inbox_ok s = Inr rs \<and> m = map_of (fold_operator_inbox_entries rs))"
  by (auto simp: inbox_view_def split: sum.splits)

lemma inbox_validated_Inr [simp]: "inbox_validated e = Inr v \<longleftrightarrow> inbox_ok e \<and> v = e"
  by (auto simp: inbox_validated_def)

lemma inbox_validated_all: "list_all inbox_ok rs \<Longrightarrow> rmap inbox_validated rs = Inr rs"
  by (induction rs) (simp_all add: inbox_validated_def)

lemma inbox_append_unlocked_Inr:
  assumes "access_guard p own (inbox_log_path obs_root) = Inr ()"
  shows "inbox_append_unlocked p obs_root e s = (Inr u, s') \<longleftrightarrow> inbox_ok e \<and> s' = append_line e s"
  using assms by (auto simp: inbox_append_unlocked_def sbind_eq_Inr inbox_validated_def)

lemma inbox_append_unlocked_Inl:
  assumes "access_guard p own (inbox_log_path obs_root) = Inr ()"
    "inbox_append_unlocked p obs_root e s = (Inl x, s')"
  shows "s' = s"
  using assms by (cases "inbox_ok e") (auto simp: inbox_append_unlocked_def inbox_validated_def)

lemma inbox_append_Inr:
  "inbox_append p obs_root e s = (Inr u, s') \<Longrightarrow> inbox_ok e \<and> s' = append_line e s"
  using inbox_append_unlocked_Inr
  by (auto simp: inbox_append_def sbind_eq_Inr exclusive_access_Inr)

lemma inbox_append_Inl:
  assumes "inbox_append p obs_root e s = (Inl x, s')"
  shows "s' = s"
proof (cases "check_declared_writer OPERATOR_INBOX_OWNERSHIP p")
  case (Inl y)
  with assms show ?thesis by (simp add: inbox_append_def)
next
  case (Inr u)
  then show ?thesis
    using assms inbox_append_unlocked_Inl [of p OPERATOR_INBOX_OWNERSHIP obs_root e s x s']
    by (cases "access_guard p OPERATOR_INBOX_OWNERSHIP (inbox_log_path obs_root)")
      (auto simp: inbox_append_def)
qed

lemma inbox_view_append:
  assumes "inbox_view s = Some m" "inbox_ok e"
  shows "inbox_view (append_line e s) =
    Some (case m (i_id e) of
            Some pv \<Rightarrow> if i_state pv \<noteq> Pending \<and> i_state e = Pending then m else m(i_id e \<mapsto> e)
          | None \<Rightarrow> m(i_id e \<mapsto> e))"
proof -
  from assms(1) obtain rs where rs: "read_strict inbox_ok s = Inr rs"
    "m = map_of (fold_operator_inbox_entries rs)" by (auto simp: inbox_view_Some)
  have "map_of (fold_operator_inbox_entries (rs @ [e])) =
    (case m (i_id e) of
            Some pv \<Rightarrow> if i_state pv \<noteq> Pending \<and> i_state e = Pending then m else m(i_id e \<mapsto> e)
          | None \<Rightarrow> m(i_id e \<mapsto> e))"
    by (rule ext) (simp add: fold_inbox_snoc fold_inbox_step_def rs(2) update_conv' split: option.splits)
  with strict_log.read_app [OF rs(1) assms(2)] show ?thesis by (simp add: inbox_view_def)
qed

lemma inbox_transition_outcome:
  assumes "inbox_transition p obs_root k f s = (r, s')"
  shows "(\<exists>x. r = Inl x \<and> s' = s) \<or>
    (\<exists>m e. inbox_view s = Some m \<and> m k = Some e \<and>
       (case f e of
          None \<Rightarrow> r = Inr (e, False) \<and> s' = s
        | Some u \<Rightarrow> r = Inr (u, True) \<and> inbox_ok u \<and> s' = append_line u s))"
proof (cases "access_guard p OPERATOR_INBOX_OWNERSHIP (inbox_log_path obs_root)")
  case (Inl x)
  with assms show ?thesis by (auto simp: inbox_transition_def)
next
  case (Inr g)
  then have g: "access_guard p OPERATOR_INBOX_OWNERSHIP (inbox_log_path obs_root) = Inr ()" by simp
  show ?thesis
  proof (cases "read_strict inbox_ok s")
    case (Inl x)
    with g assms show ?thesis by (auto simp: inbox_transition_def inbox_read_unlocked_def sbind_sget)
  next
    case (Inr rs)
    then have v: "inbox_view s = Some (map_of (fold_operator_inbox_entries rs))" by (simp add: inbox_view_def)
    show ?thesis
    proof (cases "dget (fold_operator_inbox_entries rs) k")
      case None
      with g Inr assms show ?thesis by (auto simp: inbox_transition_def inbox_read_unlocked_def sbind_sget)
    next
      case (Some e)
      show ?thesis
      proof (cases "f e")
        case None
        with g Inr Some assms v show ?thesis
          by (auto simp: inbox_transition_def inbox_read_unlocked_def sbind_sget)
      next
        case fe: (Some u)
        with g Inr Some assms
        have *: "sbind (inbox_append_unlocked p obs_root u) (\<lambda>_. sret (u, True)) s = (r, s')"
          by (simp add: inbox_transition_def inbox_read_unlocked_def sbind_sget)
        show ?thesis
        proof (cases "inbox_ok u")
          case True
          then have "inbox_append_unlocked p obs_root u s = (Inr (), append_line u s)"
            using inbox_append_unlocked_Inr [OF g] by simp
          with * v Some fe True show ?thesis by (auto simp: sbind_Inr)
        next
          case False
          with * show ?thesis by (auto simp: inbox_append_unlocked_def inbox_validated_def sbind_def slift_def)
        qed
      qed
    qed
  qed
qed

text \<open>\<^verbatim>\<open>consume\<close> is the transition that stamps a pending row without a stamp.\<close>

definition consume_transition :: "string \<Rightarrow> string \<Rightarrow> inbox_via \<Rightarrow> inbox_transition" where
  "consume_transition now by via e =
     (if i_state e \<noteq> Pending then None else consume_operator_inbox_entry e now by via)"

lemma inbox_consume_transition:
  "inbox_consume p obs_root k now by via = inbox_transition p obs_root k (consume_transition now by via)"
proof -
  have "(if i_state e \<noteq> Pending then sret (e, False)
         else case consume_operator_inbox_entry e now by via of
                None \<Rightarrow> sret (e, False)
              | Some u \<Rightarrow> sbind (inbox_append_unlocked p obs_root u) (\<lambda>_. sret (u, True))) =
        (case consume_transition now by via e of
           None \<Rightarrow> sret (e, False)
         | Some u \<Rightarrow> sbind (inbox_append_unlocked p obs_root u) (\<lambda>_. sret (u, True)))" for e
    by (simp add: consume_transition_def)
  then show ?thesis unfolding inbox_consume_def inbox_transition_def by (simp only:)
qed

subsection \<open>Physical removal\<close>

definition inbox_filtered :: "(operator_inbox_entry \<Rightarrow> bool) \<Rightarrow> inbox \<Rightarrow> inbox \<Rightarrow> bool" where
  "inbox_filtered Q s s' \<longleftrightarrow>
     (\<exists>rs. read_strict inbox_ok s = Inr rs \<and> read_strict inbox_ok s' = Inr (filter Q rs))"

lemma inbox_replace_run:
  assumes "access_guard p own (inbox_log_path obs_root) = Inr ()" "list_all inbox_ok rs"
  shows "inbox_replace_unlocked p obs_root rs s = (Inr (), rewrite_lines rs s)"
  using assms by (simp add: inbox_replace_unlocked_def inbox_validated_all)

lemma inbox_filter_body:
  assumes g: "access_guard p own (inbox_log_path obs_root) = Inr ()"
    and rs: "read_strict inbox_ok s = Inr rs"
    and run: "(if length (filter Q rs) = length rs then sret a
               else sbind (inbox_replace_unlocked p obs_root (filter Q rs)) (\<lambda>_. sret b)) s = (r, s')"
  shows "r = Inr (if \<forall>x\<in>set rs. Q x then a else b) \<and> inbox_filtered Q s s'"
proof (cases "\<forall>x\<in>set rs. Q x")
  case True
  with run rs show ?thesis by (auto simp: length_filter_eq inbox_filtered_def filter_id_conv [THEN iffD2])
next
  case False
  from read_strict_ok [OF rs] have ok: "list_all inbox_ok (filter Q rs)" by (simp add: list_all_iff)
  from False run have "sbind (inbox_replace_unlocked p obs_root (filter Q rs)) (\<lambda>_. sret b) s = (r, s')"
    by (simp add: length_filter_eq split: if_splits)
  with inbox_replace_run [OF g ok, of s] have "r = Inr b" "s' = rewrite_lines (filter Q rs) s"
    by (simp_all add: sbind_Inr)
  with False rs strict_log.filtered_read [OF rs] show ?thesis by (auto simp: inbox_filtered_def)
qed

lemma inbox_delete_outcome:
  assumes "inbox_delete p obs_root k s = (Inr b, s')"
  shows "\<exists>rs. read_strict inbox_ok s = Inr rs \<and> (b \<longleftrightarrow> (\<exists>x\<in>set rs. i_id x = k)) \<and>
              inbox_filtered (\<lambda>x. i_id x \<noteq> k) s s'"
proof -
  from assms obtain rs where g: "access_guard p OPERATOR_INBOX_OWNERSHIP (inbox_log_path obs_root) = Inr ()"
    and rs: "read_strict inbox_ok s = Inr rs"
    and run: "(if length (filter (\<lambda>r. i_id r \<noteq> k) rs) = length rs then sret False
       else sbind (inbox_replace_unlocked p obs_root (filter (\<lambda>r. i_id r \<noteq> k) rs)) (\<lambda>_. sret True)) s = (Inr b, s')"
    by (auto simp: inbox_delete_def exclusive_access_Inr inbox_read_unlocked_def sbind_eq_Inr Let_def)
  from inbox_filter_body [OF g rs run] rs show ?thesis by (auto split: if_splits)
qed

lemma inbox_delete_by_gate_outcome:
  assumes "inbox_delete_by_gate p obs_root gid s = (Inr n, s')"
  shows "\<exists>rs. read_strict inbox_ok s = Inr rs \<and> n = length (filter (\<lambda>r. i_gateId r = Some gid) rs) \<and>
              inbox_filtered (\<lambda>r. i_gateId r \<noteq> Some gid) s s'"
proof -
  from assms obtain rs where g: "access_guard p OPERATOR_INBOX_OWNERSHIP (inbox_log_path obs_root) = Inr ()"
    and rs: "read_strict inbox_ok s = Inr rs"
    and run: "(if length (filter (\<lambda>r. i_gateId r \<noteq> Some gid) rs) = length rs then sret 0
       else sbind (inbox_replace_unlocked p obs_root (filter (\<lambda>r. i_gateId r \<noteq> Some gid) rs))
         (\<lambda>_. sret (length rs - length (filter (\<lambda>r. i_gateId r \<noteq> Some gid) rs)))) s = (Inr n, s')"
    by (auto simp: inbox_delete_by_gate_def exclusive_access_Inr inbox_read_unlocked_def sbind_eq_Inr Let_def)
  have "length rs - length (filter (\<lambda>r. i_gateId r \<noteq> Some gid) rs) = length (filter (\<lambda>r. i_gateId r = Some gid) rs)"
    using sum_length_filter_compl [of "\<lambda>r. i_gateId r = Some gid" rs] by simp
  with inbox_filter_body [OF g rs run] rs show ?thesis by (auto simp: filter_empty_conv split: if_splits)
qed

lemma inbox_compact_outcome:
  assumes "inbox_compact c p obs_root now s = (Inr n, s')"
  shows "\<exists>rs. read_strict inbox_ok s = Inr rs \<and>
    inbox_filtered (\<lambda>r. i_id r \<in> inbox_keep_ids c rs now INBOX_MAX_CURRENT_ROWS None) s s'"
proof -
  from assms obtain rs where g: "access_guard p OPERATOR_INBOX_OWNERSHIP (inbox_log_path obs_root) = Inr ()"
    and rs: "read_strict inbox_ok s = Inr rs"
    and run: "(if rs = [] then sret 0
       else if length (filter (\<lambda>r. i_id r \<in> inbox_keep_ids c rs now INBOX_MAX_CURRENT_ROWS None) rs) = length rs
       then sret 0 else sbind (inbox_replace_unlocked p obs_root
        (filter (\<lambda>r. i_id r \<in> inbox_keep_ids c rs now INBOX_MAX_CURRENT_ROWS None) rs))
        (\<lambda>_. sret (length rs - length (filter (\<lambda>r. i_id r \<in> inbox_keep_ids c rs now INBOX_MAX_CURRENT_ROWS None) rs)))) s
       = (Inr n, s')"
    unfolding inbox_compact_def Let_def
    by (auto simp: exclusive_access_Inr inbox_read_unlocked_def sbind_eq_Inr)
  show ?thesis
  proof (cases "rs = []")
    case True
    with rs run show ?thesis by (auto simp: inbox_filtered_def)
  next
    case False
    note inbox_filter_body [OF g rs run [unfolded if_not_P [OF False]]]
    with rs show ?thesis by blast
  qed
qed

lemma inbox_view_filtered:
  assumes "inbox_filtered (\<lambda>r. i_id r \<in> K) s s'" "inbox_view s = Some m"
  shows "inbox_view s' = Some (m |` K)"
proof -
  from assms obtain rs where rs: "read_strict inbox_ok s = Inr rs"
    "read_strict inbox_ok s' = Inr (filter (\<lambda>r. i_id r \<in> K) rs)" "m = map_of (fold_operator_inbox_entries rs)"
    by (auto simp: inbox_filtered_def inbox_view_Some)
  have "map_of (fold_operator_inbox_entries (filter (\<lambda>r. i_id r \<in> K) rs)) = m |` K"
    by (rule ext) (auto simp: rs(3) restrict_map_def fold_inbox_filter_get fold_inbox_filter_drop)
  then show ?thesis by (simp add: inbox_view_def rs(2))
qed

subsection \<open>Reconciling and compacting in one locked pass\<close>

definition fold_keyed :: "inbox_fold \<Rightarrow> bool" where
  "fold_keyed d \<longleftrightarrow> dict_ok d \<and> (\<forall>(k, e)\<in>set d. i_id e = k)"

lemma fold_keyed_get: "fold_keyed d \<Longrightarrow> dget d k = Some e \<Longrightarrow> i_id e = k"
  by (auto simp: fold_keyed_def dest: map_of_SomeD)

lemma fold_keyed_fold: "fold_keyed (fold_operator_inbox_entries es)"
  using fold_inbox_key [of es] by (auto simp: fold_keyed_def)

lemma fold_keyed_dput: "fold_keyed d \<Longrightarrow> i_id e = k \<Longrightarrow> fold_keyed (dput k e d)"
  unfolding fold_keyed_def using distinct_update [of d k e]
  by (metis (mono_tags, lifting) case_prodI2 dget_dput map_of_eq_Some_iff option.inject)

lemma ladder_resolved_simps [simp]:
  "i_id (ladder_resolved c now reason e) = i_id e" "i_state (ladder_resolved c now reason e) = LadderResolved"
  "inbox_ok (ladder_resolved c now reason e) = inbox_ok e"
  by (simp_all add: ladder_resolved_def inbox_ok_def)

lemma resolve_reviewed_cases:
  assumes "resolve_reviewed c now ((k, reason) # rv) cur = (res, fin)" "fold_keyed cur"
  obtains (skip) "resolve_reviewed c now rv cur = (res, fin)"
  | (resolve) e res' where "dget cur k = Some e" "i_state e = Pending" "i_id e = k"
      "res = ladder_resolved c now reason e # res'"
      "resolve_reviewed c now rv (dput k (ladder_resolved c now reason e) cur) = (res', fin)"
      "fold_keyed (dput k (ladder_resolved c now reason e) cur)"
proof (cases "\<exists>e. dget cur k = Some e \<and> i_state e = Pending")
  case False
  with assms(1) show thesis by (intro skip) (auto split: option.splits if_splits)
next
  case True
  then obtain e where e: "dget cur k = Some e" "i_state e = Pending" by blast
  note id = fold_keyed_get [OF assms(2) e(1)]
  from e assms(1) obtain res' where "res = ladder_resolved c now reason e # res'"
    "resolve_reviewed c now rv (dput k (ladder_resolved c now reason e) cur) = (res', fin)"
    by (auto simp: Let_def split: prod.splits)
  then show thesis
    using e id fold_keyed_dput [OF assms(2), of "ladder_resolved c now reason e" k] by (intro resolve) simp_all
qed

lemma fst_dput_known: "dget d k = Some e \<Longrightarrow> set (map fst (dput k v d)) = set (map fst d)"
  by (auto simp: dom_update map_of_SomeD image_iff) (metis fst_conv map_of_SomeD)

lemma resolve_reviewed_fold:
  assumes "resolve_reviewed c now rv cur = (res, fin)" "fold_keyed cur"
  shows "fin = foldl fold_inbox_step cur res \<and> fold_keyed fin \<and> set (map fst fin) = set (map fst cur)"
  using assms
proof (induction rv arbitrary: cur res)
  case Nil
  then show ?case by simp
next
  case (Cons kr rv)
  obtain k reason where kr: "kr = (k, reason)" by fastforce
  from Cons.prems show ?case unfolding kr
  proof (cases rule: resolve_reviewed_cases)
    case skip
    then show ?thesis using Cons.IH Cons.prems(2) by blast
  next
    case (resolve e res')
    then have "fold_inbox_step cur (ladder_resolved c now reason e) = dput k (ladder_resolved c now reason e) cur"
      by (simp add: fold_inbox_step_def)
    with Cons.IH [OF resolve(5,6)] resolve(4) fst_dput_known [OF resolve(1)] show ?thesis by auto
  qed
qed

lemma resolve_reviewed_terminal:
  assumes "resolve_reviewed c now rv cur = (res, fin)" "fold_keyed cur" "dget cur j = Some e" "i_state e \<noteq> Pending"
  shows "dget fin j = Some e \<and> j \<notin> i_id ` set res"
  using assms
proof (induction rv arbitrary: cur res)
  case Nil
  then show ?case by simp
next
  case (Cons kr rv)
  obtain k reason where kr: "kr = (k, reason)" by fastforce
  from Cons.prems(1,2) show ?case unfolding kr
  proof (cases rule: resolve_reviewed_cases)
    case skip
    then show ?thesis using Cons.IH Cons.prems(2-4) by blast
  next
    case (resolve e' res')
    with Cons.prems(3,4) have "j \<noteq> k" by auto
    with Cons.IH [OF resolve(5,6)] Cons.prems(3,4) resolve(3,4) show ?thesis by simp
  qed
qed

text \<open>Every resolved row was pending, was named by the reviewer, and is stamped with the reviewer's reason.\<close>

definition reviewed_row ::
  "iso_codec \<Rightarrow> clock \<Rightarrow> (string \<times> string) list \<Rightarrow> inbox_fold \<Rightarrow> operator_inbox_entry \<Rightarrow> bool" where
  "reviewed_row c now rv cur t \<longleftrightarrow>
     (\<exists>e reason. dget cur (i_id t) = Some e \<and> i_state e = Pending \<and> (i_id t, reason) \<in> set rv \<and>
                 t = ladder_resolved c now reason e)"

lemma resolve_reviewed_rows:
  assumes "resolve_reviewed c now rv cur = (res, fin)" "fold_keyed cur" "t \<in> set res"
  shows "reviewed_row c now rv cur t \<and> dget fin (i_id t) = Some t"
  using assms
proof (induction rv arbitrary: cur res)
  case Nil
  then show ?case by simp
next
  case (Cons kr rv)
  obtain k reason where kr: "kr = (k, reason)" by fastforce
  from Cons.prems(1,2) [unfolded kr] show ?case
  proof (cases rule: resolve_reviewed_cases)
    case skip
    with Cons.IH [OF skip Cons.prems(2,3)] show ?thesis by (auto simp: reviewed_row_def kr)
  next
    case (resolve e res')
    note stays = resolve_reviewed_terminal [OF resolve(5,6), of k "ladder_resolved c now reason e"]
    show ?thesis
    proof (cases "t \<in> set res'")
      case True
      with stays have "i_id t \<noteq> k" by auto
      with Cons.IH [OF resolve(5,6) True] show ?thesis by (auto simp: reviewed_row_def kr)
    next
      case False
      with Cons.prems(3) resolve(4) have "t = ladder_resolved c now reason e" by simp
      with resolve(1-3) stays show ?thesis by (auto simp: reviewed_row_def kr)
    qed
  qed
qed

lemma resolve_reviewed_other:
  assumes "resolve_reviewed c now rv cur = (res, fin)" "fold_keyed cur" "j \<notin> i_id ` set res"
  shows "dget fin j = dget cur j"
  using assms
proof (induction rv arbitrary: cur res)
  case Nil
  then show ?case by simp
next
  case (Cons kr rv)
  obtain k reason where kr: "kr = (k, reason)" by fastforce
  from Cons.prems(1,2) show ?case unfolding kr
  proof (cases rule: resolve_reviewed_cases)
    case skip
    then show ?thesis using Cons.IH Cons.prems(2,3) by blast
  next
    case (resolve e res')
    with Cons.prems(3) have "j \<noteq> k" "j \<notin> i_id ` set res'" by auto
    with Cons.IH [OF resolve(5,6)] show ?thesis by simp
  qed
qed

lemma inbox_keep_ids_cur:
  assumes "k \<in> inbox_keep_ids c es now n (Some cur)" "fold_keyed cur"
  shows "\<exists>e. dget cur k = Some e \<and> keep_inbox_entry c now e"
proof -
  from assms(1) obtain e where e: "k = i_id e" "e \<in> set (filter (keep_inbox_entry c now) (dvalues cur))"
    using set_cap_rows [of n] by (auto simp only: inbox_keep_ids_def Let_def option.case image_iff)
  then obtain j where "(j, e) \<in> set cur" by auto
  moreover from this assms(2) have "i_id e = j" unfolding fold_keyed_def by blast
  ultimately have "(k, e) \<in> set cur" using e(1) by simp
  moreover from assms(2) have "dict_ok cur" by (simp add: fold_keyed_def)
  ultimately have "dget cur k = Some e" by (rule map_of_is_SomeI [rotated])
  with e(2) show ?thesis by auto
qed

lemma keep_not_ladder: "keep_inbox_entry c now e \<Longrightarrow> i_state e \<noteq> LadderResolved"
  by (cases "i_state e") (simp_all add: keep_inbox_entry_def)

lemma resolve_reviewed_ok:
  assumes "resolve_reviewed c now rv (fold_operator_inbox_entries rs) = (res, fin)" "list_all inbox_ok rs"
  shows "list_all inbox_ok res"
  unfolding list_all_iff
proof
  fix t assume "t \<in> set res"
  then have "reviewed_row c now rv (fold_operator_inbox_entries rs) t"
    using resolve_reviewed_rows [OF assms(1) fold_keyed_fold] by blast
  then obtain e reason where e: "dget (fold_operator_inbox_entries rs) (i_id t) = Some e"
    and t: "t = ladder_resolved c now reason e" unfolding reviewed_row_def by blast
  from fold_inbox_key [OF e] assms(2) have "inbox_ok e" by (simp add: list_all_iff)
  then show "inbox_ok t" unfolding t by simp
qed

text \<open>
  The locked pass in terms of the folds: the snapshot it returns is the snapshot the log then has,
  it is part of the one it started from, and no resolved row is in it.
\<close>

lemma reconcile_run:
  assumes "reconcile_and_compact c p obs_root now rc s = (Inr (removed, kept, resolved), s')"
  obtains rs fin K where
    "read_strict inbox_ok s = Inr rs"
    "resolve_reviewed c now (rc (fold_operator_inbox_entries rs)) (fold_operator_inbox_entries rs) = (resolved, fin)"
    "K = inbox_keep_ids c (rs @ resolved) now INBOX_MAX_CURRENT_ROWS (Some fin)"
    "kept = filter (\<lambda>kv. fst kv \<in> K) fin"
    "removed = card (set (map fst (fold_operator_inbox_entries rs)) - set (map fst kept))"
    "if removed = 0 then s' = s else read_strict inbox_ok s' = Inr (filter (\<lambda>r. i_id r \<in> K) (rs @ resolved))"
proof -
  from assms obtain rs where g: "access_guard p OPERATOR_INBOX_OWNERSHIP (inbox_log_path obs_root) = Inr ()"
    and rs: "read_strict inbox_ok s = Inr rs"
    by (auto simp: reconcile_and_compact_def exclusive_access_Inr inbox_read_unlocked_def sbind_eq_Inr)
  obtain res fin where rv:
    "resolve_reviewed c now (rc (fold_operator_inbox_entries rs)) (fold_operator_inbox_entries rs) = (res, fin)"
    by fastforce
  define K where "K = inbox_keep_ids c (rs @ res) now INBOX_MAX_CURRENT_ROWS (Some fin)"
  have ok: "list_all inbox_ok (filter (\<lambda>r. i_id r \<in> K) (rs @ res))"
    using read_strict_ok [OF rs] resolve_reviewed_ok [OF rv] by (auto simp: list_all_iff)
  define n where "n = card (set (map fst (fold_operator_inbox_entries rs)) - set (map fst (filter (\<lambda>kv. fst kv \<in> K) fin)))"
  from assms have "(if n \<noteq> 0 then sbind (inbox_replace_unlocked p obs_root (filter (\<lambda>r. i_id r \<in> K) (rs @ res)))
                (\<lambda>_. sret (n, filter (\<lambda>kv. fst kv \<in> K) fin, res)) else sret (n, filter (\<lambda>kv. fst kv \<in> K) fin, res)) s
       = (Inr (removed, kept, resolved), s')"
    unfolding K_def n_def
    by (simp only: reconcile_and_compact_def exclusive_access_ok [OF g] inbox_read_unlocked_def sbind_sget rs
        sum.case Let_def rv prod.case)
  then have "removed = n" "kept = filter (\<lambda>kv. fst kv \<in> K) fin" "resolved = res"
    "if n = 0 then s' = s else s' = rewrite_lines (filter (\<lambda>r. i_id r \<in> K) (rs @ res)) s"
    using inbox_replace_run [OF g ok, of s] by (auto simp: sbind_Inr split: if_splits)
  then show thesis
    using that [OF rs _ _ _ _ , of fin K] rv strict_log.read_repl [OF ok, of s]
    by (simp add: n_def K_def split: if_splits)
qed

lemma reconcile_outcome:
  assumes "reconcile_and_compact c p obs_root now rc s = (Inr (removed, kept, resolved), s')"
    "inbox_view s = Some m"
  shows "inbox_view s' = Some (map_of kept)" "map_of kept \<subseteq>\<^sub>m m"
    "\<forall>t\<in>set resolved. i_state t = LadderResolved \<and> map_of kept (i_id t) = None \<and>
       (\<exists>e. m (i_id t) = Some e \<and> i_state e = Pending)"
proof -
  obtain rs fin K where r: "read_strict inbox_ok s = Inr rs"
    "resolve_reviewed c now (rc (fold_operator_inbox_entries rs)) (fold_operator_inbox_entries rs) = (resolved, fin)"
    "K = inbox_keep_ids c (rs @ resolved) now INBOX_MAX_CURRENT_ROWS (Some fin)"
    "kept = filter (\<lambda>kv. fst kv \<in> K) fin"
    "removed = card (set (map fst (fold_operator_inbox_entries rs)) - set (map fst kept))"
    "if removed = 0 then s' = s else read_strict inbox_ok s' = Inr (filter (\<lambda>r. i_id r \<in> K) (rs @ resolved))"
    using assms(1) by (rule reconcile_run)
  from assms(2) r(1) have m: "m = map_of (fold_operator_inbox_entries rs)" by (simp add: inbox_view_def)
  note fin = resolve_reviewed_fold [OF r(2) fold_keyed_fold]
  note rows = resolve_reviewed_rows [OF r(2) fold_keyed_fold]
  have kept: "map_of kept k = (if k \<in> K then dget fin k else None)" for k by (simp add: r(4) dget_filter)
  have res_gone: "i_id t \<notin> K" if t: "t \<in> set resolved" for t
  proof
    assume "i_id t \<in> K"
    then obtain e where "dget fin (i_id t) = Some e" "keep_inbox_entry c now e"
      using inbox_keep_ids_cur r(3) fin by blast
    moreover from rows [OF t] have "dget fin (i_id t) = Some t" "i_state t = LadderResolved"
      by (auto simp: reviewed_row_def)
    ultimately show False using keep_not_ladder [of c now t] by simp
  qed
  have agree: "dget fin k = m k" if "k \<in> K" for k
    using resolve_reviewed_other [OF r(2) fold_keyed_fold, of k] res_gone that m by auto
  show "map_of kept \<subseteq>\<^sub>m m" by (auto simp: map_le_def kept agree split: if_splits)
  show "\<forall>t\<in>set resolved. i_state t = LadderResolved \<and> map_of kept (i_id t) = None \<and>
       (\<exists>e. m (i_id t) = Some e \<and> i_state e = Pending)"
  proof
    fix t assume t: "t \<in> set resolved"
    from rows [OF t] obtain e reason where "dget (fold_operator_inbox_entries rs) (i_id t) = Some e"
      "i_state e = Pending" "t = ladder_resolved c now reason e" unfolding reviewed_row_def by blast
    with res_gone [OF t] show "i_state t = LadderResolved \<and> map_of kept (i_id t) = None \<and>
       (\<exists>e. m (i_id t) = Some e \<and> i_state e = Pending)" by (simp add: kept m)
  qed
  show "inbox_view s' = Some (map_of kept)"
  proof (cases "removed = 0")
    case False
    have "fold_operator_inbox_entries (rs @ resolved) = fin"
      using fin by (simp add: fold_operator_inbox_entries_def)
    then have "map_of (fold_operator_inbox_entries (filter (\<lambda>r. i_id r \<in> K) (rs @ resolved))) = map_of kept"
      using fold_inbox_filter_get [of _ K "rs @ resolved"] fold_inbox_filter_drop [of _ K "rs @ resolved"]
      by (auto simp: kept intro!: ext simp del: filter_append)
    with False r(6) show ?thesis by (simp add: inbox_view_def)
  next
    case True
    then have "set (map fst (fold_operator_inbox_entries rs)) \<subseteq> set (map fst kept)" using r(5) by simp
    then have "dom m \<subseteq> dom (map_of kept)" by (simp add: m dom_map_of_conv_image_fst)
    with \<open>map_of kept \<subseteq>\<^sub>m m\<close> have "map_of kept = m" by (metis map_le_antisym map_le_def subset_iff)
    with True r(6) assms(2) show ?thesis by simp
  qed
qed

end
