(* ===== verification/Expectation_Rows.thy ===== *)
theory Expectation_Rows
  imports Py_Time Task_Ref Store_Access
begin

section \<open>Expectation rows\<close>

text \<open>
  \<^verbatim>\<open>controlplane/expectation_rows.py\<close>: durable deadline rows, written at dispatch, marked met or missed once,
  and reclaimed to the pending and recently settled ones. \<^verbatim>\<open>None\<close> from the pure marks stands for the row
  itself, which the store tests with \<^verbatim>\<open>is\<close>.
\<close>

datatype expectation_kind = BriefedBy | VerdictBy | TurnReportBy | AckBy
datatype expectation_state = XPending | XMet | XMissed

record expectation_row =
  x_schemaVersion :: string
  x_schema :: string
  x_id :: string
  x_ts :: string
  x_kind :: expectation_kind
  x_state :: expectation_state
  x_createdAt :: string
  x_dueAt :: string
  x_sourceId :: string
  x_subjectAgentId :: "string option"
  x_subjectLifecycleId :: "string option"
  x_taskDocumentRef :: "task_document_ref option"
  x_seatRole :: "string option"
  x_note :: "string option"
  x_metAt :: "string option"
  x_missedAt :: "string option"

record expectation_subject =
  xs_agent_id :: "string option"
  xs_lifecycle_id :: "string option"
  xs_task_document_ref :: "task_document_ref option"
  xs_seat_role :: "string option"

record expectation =
  xp_kind :: expectation_kind
  xp_source_id :: string
  xp_subject :: expectation_subject
  xp_note :: "string option"

type_synonym row_log = "expectation_row log_file"
type_synonym row_fold = "(string, expectation_row) dict"

definition EXPECTATION_ROW_SCHEMA :: string where
  "EXPECTATION_ROW_SCHEMA = ''ar-expectation-row/v2''"

definition EXPECTATION_RETENTION_SECONDS :: seconds where
  "EXPECTATION_RETENTION_SECONDS = 3600"

definition row_ok :: "expectation_row \<Rightarrow> bool" where
  "row_ok r \<longleftrightarrow> schema_version_supported (x_schemaVersion r)"

definition create_expectation_row :: "expectation \<Rightarrow> string \<Rightarrow> string \<Rightarrow> string \<Rightarrow> expectation_row" where
  "create_expectation_row expectation row_id now due_at =
     (let subject = xp_subject expectation in
      \<lparr>x_schemaVersion = SCHEMA_VERSION, x_schema = EXPECTATION_ROW_SCHEMA, x_id = row_id, x_ts = now,
       x_kind = xp_kind expectation, x_state = XPending, x_createdAt = now, x_dueAt = due_at,
       x_sourceId = xp_source_id expectation, x_subjectAgentId = xs_agent_id subject,
       x_subjectLifecycleId = xs_lifecycle_id subject, x_taskDocumentRef = xs_task_document_ref subject,
       x_seatRole = xs_seat_role subject, x_note = xp_note expectation, x_metAt = None, x_missedAt = None\<rparr>)"

definition due_at_from_sla :: "iso_codec \<Rightarrow> clock \<Rightarrow> seconds \<Rightarrow> string res" where
  "due_at_from_sla c now sla_seconds =
     rbind (dt_add (utc now) (timedelta_seconds sla_seconds)) (\<lambda>t. Inr (isoformat c t))"

definition mark_met :: "expectation_row \<Rightarrow> string \<Rightarrow> expectation_row option" where
  "mark_met row now =
     (if x_state row \<noteq> XPending then None else Some (row\<lparr>x_ts := now, x_state := XMet, x_metAt := Some now\<rparr>))"

definition mark_missed :: "expectation_row \<Rightarrow> string \<Rightarrow> expectation_row option" where
  "mark_missed row now =
     (if x_state row \<noteq> XPending then None
      else Some (row\<lparr>x_ts := now, x_state := XMissed, x_missedAt := Some now\<rparr>))"

definition pending_rows :: "expectation_row list \<Rightarrow> expectation_row list" where
  "pending_rows rows = sort_key x_dueAt (filter (\<lambda>r. x_state r = XPending) (dvalues (fold_by x_id rows)))"

definition terminal_time :: "iso_codec \<Rightarrow> expectation_row \<Rightarrow> datetime option" where
  "terminal_time c row = fromisoformat c (the (str_or (x_metAt row) (str_or (x_missedAt row) (Some (x_ts row)))))"

definition row_log_path :: "path \<Rightarrow> path" where
  "row_log_path obs_root = obs_root @ [''workspace'', ''expectation-rows.jsonl'']"

definition row_append :: "process \<Rightarrow> path \<Rightarrow> expectation_row \<Rightarrow> (row_log, unit) prog" where
  "row_append p obs_root row =
     sbind (slift (check_declared_writer EXPECTATION_ROW_OWNERSHIP p)) (\<lambda>_.
       let path = row_log_path obs_root
       in exclusive_access p EXPECTATION_ROW_OWNERSHIP path (append_record p path row))"

definition row_read :: "row_log \<Rightarrow> expectation_row list res" where
  "row_read s = read_strict row_ok s"

definition row_read_for_projection :: "row_log \<Rightarrow> expectation_row list" where
  "row_read_for_projection s = read_tolerant row_ok s"

definition row_current :: "row_log \<Rightarrow> row_fold res" where
  "row_current s = rbind (row_read s) (\<lambda>rs. Inr (fold_by x_id rs))"

definition row_pending :: "row_log \<Rightarrow> expectation_row list res" where
  "row_pending s = rbind (row_read s) (\<lambda>rs. Inr (pending_rows rs))"

definition row_pending_for_projection :: "row_log \<Rightarrow> expectation_row list" where
  "row_pending_for_projection s = pending_rows (row_read_for_projection s)"

definition find_by_source ::
  "string \<Rightarrow> expectation_kind option \<Rightarrow> row_fold option \<Rightarrow> row_log \<Rightarrow> expectation_row option res" where
  "find_by_source source_id kind current s =
     rbind (case current of None \<Rightarrow> row_current s | Some d \<Rightarrow> Inr d)
       (\<lambda>rows. Inr (max_by x_createdAt
          (filter (\<lambda>r. x_state r = XPending \<and> x_sourceId r = source_id \<and> (kind = None \<or> kind = Some (x_kind r)))
             (dvalues rows))))"

text \<open>\<^verbatim>\<open>now >= due_at\<close> raises for a naive deadline; an unparseable one is skipped.\<close>

definition overdue :: "iso_codec \<Rightarrow> clock \<Rightarrow> row_log \<Rightarrow> expectation_row list res" where
  "overdue c now s =
     rbind (row_pending s)
       (rfilter (\<lambda>r. case fromisoformat c (x_dueAt r) of None \<Rightarrow> Inr False | Some due_at \<Rightarrow> dt_le due_at (utc now)))"

text \<open>
  \<^verbatim>\<open>ExpectationRowStore.mark_met\<close> and \<^verbatim>\<open>mark_missed\<close> return the row and, for the caller's mutable fold, what it
  then holds: \<^verbatim>\<open>mark_met\<close> writes the mark back into a passed fold, \<^verbatim>\<open>mark_missed\<close> does not.
\<close>

definition store_mark_met ::
  "process \<Rightarrow> path \<Rightarrow> string \<Rightarrow> string \<Rightarrow> row_fold option \<Rightarrow> (row_log, expectation_row \<times> row_fold option) prog" where
  "store_mark_met p obs_root row_id now current =
     sbind (case current of None \<Rightarrow> sget row_current | Some d \<Rightarrow> sret d) (\<lambda>rows.
       case dget rows row_id of
         None \<Rightarrow> slift (Inl (KeyError row_id))
       | Some row \<Rightarrow>
           (case mark_met row now of
              None \<Rightarrow> sret (row, current)
            | Some met \<Rightarrow>
                sbind (row_append p obs_root met) (\<lambda>_. sret (met, map_option (dput row_id met) current))))"

definition store_mark_missed ::
  "process \<Rightarrow> path \<Rightarrow> string \<Rightarrow> string \<Rightarrow> row_fold option \<Rightarrow> (row_log, expectation_row) prog" where
  "store_mark_missed p obs_root row_id now current =
     sbind (case current of None \<Rightarrow> sget row_current | Some d \<Rightarrow> sret d) (\<lambda>rows.
       case dget rows row_id of
         None \<Rightarrow> slift (Inl (KeyError row_id))
       | Some row \<Rightarrow>
           (case mark_missed row now of
              None \<Rightarrow> sret row
            | Some missed \<Rightarrow> sbind (row_append p obs_root missed) (\<lambda>_. sret missed)))"

text \<open>The \<^verbatim>\<open>TypeError\<close> of comparing a naive and an aware stamp means "keep".\<close>

definition row_stale :: "iso_codec \<Rightarrow> datetime \<Rightarrow> expectation_row \<Rightarrow> bool" where
  "row_stale c cutoff row \<longleftrightarrow>
     x_state row \<noteq> XPending \<and>
     (case terminal_time c row of None \<Rightarrow> False | Some terminal \<Rightarrow> dt_lt terminal cutoff = Inr True)"

definition row_compact_locked ::
  "iso_codec \<Rightarrow> process \<Rightarrow> path \<Rightarrow> clock \<Rightarrow> seconds \<Rightarrow> (row_log, nat \<times> row_fold) prog" where
  "row_compact_locked c p obs_root now retain_seconds =
     sbind (sget row_read) (\<lambda>records.
       if records = [] then sret (0, [])
       else sbind (slift (dt_add (utc now) (- timedelta_seconds retain_seconds))) (\<lambda>cutoff.
              let kept = filter (\<lambda>(_, row). \<not> row_stale c cutoff row) (fold_by x_id records);
                  removed = length records - length kept
              in if removed \<noteq> 0
                 then sbind (rewrite_records p (row_log_path obs_root) (dvalues kept)) (\<lambda>_. sret (removed, kept))
                 else sret (removed, kept)))"

definition row_compact ::
  "iso_codec \<Rightarrow> process \<Rightarrow> path \<Rightarrow> clock \<Rightarrow> seconds \<Rightarrow> (row_log, nat \<times> row_fold) prog" where
  "row_compact c p obs_root now retain_seconds =
     exclusive_access p EXPECTATION_ROW_OWNERSHIP (row_log_path obs_root)
       (row_compact_locked c p obs_root now retain_seconds)"

definition write_expectation_row ::
  "iso_codec \<Rightarrow> process \<Rightarrow> path \<Rightarrow> expectation \<Rightarrow> string \<Rightarrow> clock \<Rightarrow> seconds \<Rightarrow> (row_log, expectation_row) prog" where
  "write_expectation_row c p obs_root expectation row_id now sla_seconds =
     sbind (slift (due_at_from_sla c now sla_seconds)) (\<lambda>due_at.
       let row = create_expectation_row expectation row_id (isoformat c (utc now)) due_at
       in sbind (row_append p obs_root row) (\<lambda>_. sret row))"

subsection \<open>What the marks and the compaction do to the fold\<close>

lemma row_append_Inr:
  "row_append p obs_root r s = (Inr u, s') \<Longrightarrow> s' = append_line r s"
  by (auto simp: row_append_def sbind_eq_Inr Let_def exclusive_access_Inr)

lemma row_append_Inl: "row_append p obs_root r s = (Inl e, s') \<Longrightarrow> s' = s"
  by (cases "check_declared_writer EXPECTATION_ROW_OWNERSHIP p";
      cases "access_guard p EXPECTATION_ROW_OWNERSHIP (row_log_path obs_root)")
    (auto simp: row_append_def Let_def)

lemma row_current_append:
  assumes "row_append p obs_root r s = (Inr u, s')" "row_current s = Inr d" "row_ok r"
  shows "row_current s' = Inr (dput (x_id r) r d)"
  using assms strict_log.read_app [of row_ok s]
  by (auto simp: row_current_def row_read_def rbind_eq_Inr dest!: row_append_Inr)

lemma row_current_Inr:
  "row_current s = Inr d \<longleftrightarrow> (\<exists>rs. row_read s = Inr rs \<and> d = fold_by x_id rs)"
  by (auto simp: row_current_def rbind_eq_Inr)

lemma row_current_ok:
  assumes "row_current s = Inr d" "dget d k = Some r"
  shows "row_ok r \<and> x_id r = k"
proof -
  from assms obtain rs where rs: "row_read s = Inr rs" "dget (fold_by x_id rs) k = Some r"
    by (auto simp: row_current_Inr)
  from rs(1) have "list_all row_ok rs" unfolding row_read_def by (rule read_strict_ok)
  with fold_by_key [OF rs(2)] show ?thesis by (simp add: list_all_iff)
qed

lemma mark_met_Some:
  "mark_met row now = Some met \<Longrightarrow>
   x_state row = XPending \<and> x_state met = XMet \<and> x_id met = x_id row \<and> row_ok met = row_ok row \<and> x_metAt met = Some now"
  by (auto simp: mark_met_def row_ok_def split: if_splits)

lemma store_mark_met_fresh:
  assumes "store_mark_met p obs_root k now None s = (Inr (row', cur'), s')" "row_current s = Inr d"
  shows "\<exists>row. dget d k = Some row \<and>
    (if x_state row = XPending then x_state row' = XMet \<and> x_id row' = k \<and> row_current s' = Inr (dput k row' d)
     else row' = row \<and> s' = s)"
proof -
  from assms obtain row where row: "dget d k = Some row"
    by (auto simp: store_mark_met_def sbind_sget split: option.splits)
  show ?thesis
  proof (cases "mark_met row now")
    case None
    with assms row have "row' = row \<and> s' = s" by (auto simp: store_mark_met_def sbind_sget)
    with None row show ?thesis by (auto simp: mark_met_def split: if_splits)
  next
    case (Some met)
    with assms row have r: "row' = met" "row_append p obs_root met s = (Inr (), s')"
      by (auto simp: store_mark_met_def sbind_sget sbind_eq_Inr)
    note met = mark_met_Some [OF Some] and ok = row_current_ok [OF assms(2) row]
    with row_current_append [OF r(2) assms(2)] r(1) row show ?thesis by auto
  qed
qed

lemma row_compact_current:
  assumes "row_compact c p obs_root now ret s = (Inr (n, kept), s')" "row_read s = Inr rs"
  obtains cutoff where "dt_add (utc now) (- timedelta_seconds ret) = Inr cutoff"
      "kept = filter (\<lambda>(_, row). \<not> row_stale c cutoff row) (fold_by x_id rs)" "n = length rs - length kept"
      "if n \<noteq> 0 then s' = Some (map Rec (dvalues kept)) else s' = s"
  | "rs = []" "kept = []" "n = 0" "s' = s"
  using assms
  by (fastforce simp: row_compact_def row_compact_locked_def exclusive_access_Inr sbind_eq_Inr Let_def
      rewrite_lines_def split: if_splits)

lemma row_compact_fold:
  assumes "row_compact c p obs_root now ret s = (Inr (n, kept), s')" "row_current s = Inr d"
  shows "row_current s' = Inr kept"
    and "\<forall>k r. dget d k = Some r \<longrightarrow> x_state r = XPending \<longrightarrow> dget kept k = Some r"
    and "\<forall>k r. dget kept k = Some r \<longrightarrow> dget d k = Some r"
proof -
  from assms(2) obtain rs where rs: "row_read s = Inr rs" "d = fold_by x_id rs" by (auto simp: row_current_Inr)
  from rs(1) have ok: "list_all row_ok rs" unfolding row_read_def by (rule read_strict_ok)
  from assms(1) rs(1) have "row_current s' = Inr kept \<and>
    (\<forall>k r. dget d k = Some r \<longrightarrow> x_state r = XPending \<longrightarrow> dget kept k = Some r) \<and>
    (\<forall>k r. dget kept k = Some r \<longrightarrow> dget d k = Some r)"
  proof (rule row_compact_current)
    assume "rs = []" "kept = []" "n = 0" "s' = s"
    then show ?thesis using rs by (simp add: row_current_def)
  next
    fix cutoff
    assume k: "kept = filter (\<lambda>(_, row). \<not> row_stale c cutoff row) (fold_by x_id rs)"
      and n: "n = length rs - length kept"
      and s': "if n \<noteq> 0 then s' = Some (map Rec (dvalues kept)) else s' = s"
    have dk: "dict_ok kept" unfolding k by (rule dict_ok_filter) (rule dict_ok_fold_by)
    have member: "dget kept j = Some r \<longleftrightarrow> dget d j = Some r \<and> \<not> row_stale c cutoff r" for j r
      using dk by (auto simp: k rs(2))
    have "row_current s' = Inr kept"
    proof (cases "n = 0")
      case True
      have "length kept \<le> length (fold_by x_id rs)" by (simp add: k)
      with True n length_fold_by [of x_id rs] have "length kept = length (fold_by x_id rs)" by simp
      then have "kept = fold_by x_id rs"
        using length_filter_eq [of "\<lambda>(_, row). \<not> row_stale c cutoff row" "fold_by x_id rs"]
        by (simp add: k filter_id_conv [THEN iffD2])
      with True s' rs show ?thesis by (simp add: row_current_def)
    next
      case False
      have "\<forall>(k, v)\<in>set kept. x_id v = k" by (auto simp: k dest: fold_by_keyed)
      then have "fold_by x_id (dvalues kept) = kept" by (rule fold_by_values_id [OF dk])
      moreover have "list_all row_ok (dvalues kept)"
        using ok fold_by_key [of x_id rs] by (auto simp: k list_all_iff)
      ultimately show ?thesis
        using False s' strict_log.read_repl [of row_ok "dvalues kept" s]
        by (simp add: row_current_def row_read_def rewrite_lines_def)
    qed
    with member show ?thesis by (auto simp: row_stale_def)
  qed
  then show "row_current s' = Inr kept"
    and "\<forall>k r. dget d k = Some r \<longrightarrow> x_state r = XPending \<longrightarrow> dget kept k = Some r"
    and "\<forall>k r. dget kept k = Some r \<longrightarrow> dget d k = Some r" by blast+
qed

end
