(* ===== verification/Gate_Decisions.thy ===== *)
theory Gate_Decisions
  imports Gate_Store Inbox_Store Expectation_Rows
begin

section \<open>Recording a decision\<close>

text \<open>
  \<^verbatim>\<open>controlplane/gate_decisions.py\<close>: the one service that turns a verdict into a gate snapshot. It works on three
  stores at once, so the state is the record of them; a context names their roots, the policy and the
  clock. An exception half-way leaves the writes made before it.
\<close>

record control_state =
  cs_gates :: gate_logs
  cs_inbox :: inbox
  cs_rows :: row_log

abbreviation on_gates :: "(gate_logs, 'a) prog \<Rightarrow> (control_state, 'a) prog" where
  "on_gates \<equiv> zoom cs_gates (\<lambda>g t. t\<lparr>cs_gates := g\<rparr>)"

abbreviation on_inbox :: "(inbox, 'a) prog \<Rightarrow> (control_state, 'a) prog" where
  "on_inbox \<equiv> zoom cs_inbox (\<lambda>i t. t\<lparr>cs_inbox := i\<rparr>)"

abbreviation on_rows :: "(row_log, 'a) prog \<Rightarrow> (control_state, 'a) prog" where
  "on_rows \<equiv> zoom cs_rows (\<lambda>r t. t\<lparr>cs_rows := r\<rparr>)"

record gate_decision_context =
  dc_store :: path
  dc_inbox_store :: path
  dc_expectation_store :: "path option"
  dc_policy :: gate_policy
  dc_now :: clock

record gate_decision_response =
  resp_gateId :: string
  resp_state :: gate_state
  resp_decidedBy :: "string option"
  resp_decidedVia :: "decided_via option"
  resp_decidingRole :: "string option"
  resp_evidenceRefs :: "gate_evidence_ref list"

definition target_gate :: "string \<Rightarrow> string option \<Rightarrow> gate_logs \<Rightarrow> gate_record res" where
  "target_gate gate_id lifecycle_id s =
     rbind (gate_current lifecycle_id s) (\<lambda>d.
       rbind (if dget d gate_id = None \<and> lifecycle_id = None then gate_find gate_id s else Inr (dget d gate_id))
         (\<lambda>gate. case gate of None \<Rightarrow> Inl (KeyError gate_id) | Some g \<Rightarrow> Inr g))"

definition require_undelegated_cli_decision :: "gate_record \<Rightarrow> gate_policy \<Rightarrow> unit res" where
  "require_undelegated_cli_decision gate policy =
     (if delegated_role (rule_for policy (g_kind gate)) \<noteq> None
      then Inl (ValueError ''delegated by the active gate policy'') else Inr ())"

definition decision_evidence_refs :: "json list option \<Rightarrow> gate_evidence_ref list res" where
  "decision_evidence_refs raw = (case raw of None \<Rightarrow> Inr [] | Some js \<Rightarrow> rmap validate_evidence js)"

definition meet_verdict_expectation ::
  "process \<Rightarrow> path option \<Rightarrow> gate_record \<Rightarrow> string \<Rightarrow> (row_log, unit) prog" where
  "meet_verdict_expectation p store gate now =
     (case store of
        None \<Rightarrow> sret ()
      | Some obs_root \<Rightarrow>
          sbind (sget (find_by_source (g_id gate) (Some VerdictBy) None)) (\<lambda>row.
            case row of
              None \<Rightarrow> sret ()
            | Some r \<Rightarrow> sbind (store_mark_met p obs_root (x_id r) now None) (\<lambda>_. sret ())))"

text \<open>\<^verbatim>\<open>contextlib.suppress(OSError, ValidationError)\<close>: of the errors the compaction raises here, the second.\<close>

definition suppress_validation :: "('s, 'a) prog \<Rightarrow> ('s, unit) prog" where
  "suppress_validation m s =
     (case m s of
        (Inl (ValidationError _), s') \<Rightarrow> (Inr (), s')
      | (Inl e, s') \<Rightarrow> (Inl e, s')
      | (Inr _, s') \<Rightarrow> (Inr (), s'))"

definition reclaim_gate_log ::
  "iso_codec \<Rightarrow> process \<Rightarrow> path \<Rightarrow> string option \<Rightarrow> clock \<Rightarrow> (gate_logs, unit) prog" where
  "reclaim_gate_log c p obs_root lifecycle_id now =
     (if \<not> is_compaction_owner GATE_OWNERSHIP p then sret ()
      else suppress_validation (gate_compact c p obs_root lifecycle_id now))"

definition decision_response :: "gate_record \<Rightarrow> gate_decision_response" where
  "decision_response g =
     \<lparr>resp_gateId = g_id g, resp_state = g_state g, resp_decidedBy = g_decidedBy g,
      resp_decidedVia = g_decidedVia g, resp_decidingRole = g_decidingRole g,
      resp_evidenceRefs = g_evidenceRefs g\<rparr>"

text \<open>The two guards on the channel a decision came through.\<close>

definition cli_decision_check :: "gate_verdict \<Rightarrow> gate_record \<Rightarrow> gate_policy \<Rightarrow> unit res" where
  "cli_decision_check verdict gate policy =
     (if v_via verdict = ViaCli \<and> v_decision verdict \<noteq> ''cancel''
      then require_undelegated_cli_decision gate policy else Inr ())"

definition orchestration_check :: "gate_verdict \<Rightarrow> gate_record \<Rightarrow> gate_policy \<Rightarrow> unit res" where
  "orchestration_check verdict updated policy =
     (if v_via verdict = ViaOrchestration
      then rbind (delegated_decision_failure_reason updated policy)
             (\<lambda>failure. if failure \<noteq> None then Inl (ValueError ''gate decision rejected by delegation policy'')
                        else Inr ())
      else Inr ())"

text \<open>The snapshot a decision appends, or the exception that stops it before anything is written.\<close>

definition decided_snapshot ::
  "iso_codec \<Rightarrow> gate_decision_context \<Rightarrow> string \<Rightarrow> string option \<Rightarrow> gate_verdict \<Rightarrow> json list option \<Rightarrow>
   gate_logs \<Rightarrow> gate_record res" where
  "decided_snapshot c ctx gate_id lifecycle_id verdict evidence_refs s =
     (if dget DECISION_STATES (v_decision verdict) = None then Inl (ValueError ''unknown gate decision'')
      else rbind (target_gate gate_id lifecycle_id s) (\<lambda>gate.
        rbind (cli_decision_check verdict gate (dc_policy ctx)) (\<lambda>_.
        rbind (decision_evidence_refs evidence_refs) (\<lambda>refs.
        rbind (decide_gate gate verdict (isoformat c (utc (dc_now ctx))) (Some (map EvRef refs))) (\<lambda>updated.
        rbind (orchestration_check verdict updated (dc_policy ctx)) (\<lambda>_. Inr updated))))))"

definition remove_cancelled ::
  "process \<Rightarrow> gate_decision_context \<Rightarrow> gate_verdict \<Rightarrow> gate_record \<Rightarrow> (control_state, unit) prog" where
  "remove_cancelled p ctx verdict updated =
     (if v_decision verdict = ''cancel''
      then sbind (on_gates (gate_delete p (dc_store ctx) (g_id updated) (g_lifecycleId updated))) (\<lambda>_.
             sbind (on_inbox (inbox_delete_by_gate p (dc_inbox_store ctx) (g_id updated))) (\<lambda>_. sret ()))
      else sret ())"

definition record_gate_decision ::
  "iso_codec \<Rightarrow> process \<Rightarrow> gate_decision_context \<Rightarrow> string \<Rightarrow> string option \<Rightarrow> gate_verdict \<Rightarrow>
   json list option \<Rightarrow> (control_state, gate_decision_response) prog" where
  "record_gate_decision c p ctx gate_id lifecycle_id verdict evidence_refs =
     sbind (sget (\<lambda>t. decided_snapshot c ctx gate_id lifecycle_id verdict evidence_refs (cs_gates t))) (\<lambda>updated.
     sbind (on_gates (gate_append p (dc_store ctx) updated)) (\<lambda>_.
     sbind (remove_cancelled p ctx verdict updated) (\<lambda>_.
     sbind (on_rows (meet_verdict_expectation p (dc_expectation_store ctx) updated (isoformat c (utc (dc_now ctx))))) (\<lambda>_.
     sbind (on_gates (reclaim_gate_log c p (dc_store ctx) (g_lifecycleId updated) (dc_now ctx))) (\<lambda>_.
     sret (decision_response updated))))))"

definition record_lifecycle_gate_decision ::
  "iso_codec \<Rightarrow> process \<Rightarrow> gate_decision_context \<Rightarrow> string \<Rightarrow> string option \<Rightarrow> gate_verdict \<Rightarrow>
   json list option \<Rightarrow> (control_state, gate_decision_response) prog" where
  "record_lifecycle_gate_decision c p ctx lifecycle_id expected_gate_id verdict evidence_refs =
     sbind (sget (\<lambda>t. gate_current (Some lifecycle_id) (cs_gates t))) (\<lambda>current.
       case max_by g_ts (filter (\<lambda>g. g_state g = Open) (dvalues current)) of
         None \<Rightarrow> slift (Inl (KeyError ''no open gate''))
       | Some gate \<Rightarrow>
           if expected_gate_id \<noteq> None \<and> Some (g_id gate) \<noteq> expected_gate_id
           then slift (Inl (KeyError ''expected gate is not the current open gate''))
           else record_gate_decision c p ctx (g_id gate) (Some lifecycle_id) verdict evidence_refs)"

subsection \<open>What a recorded decision is\<close>

lemma find_in_logs_Some:
  "find_in_logs s gid ns = Inr (Some g) \<Longrightarrow> g_id g = gid"
proof (induction ns)
  case Nil
  then show ?case by simp
next
  case (Cons n ns)
  then show ?case
    by (auto simp: rbind_eq_Inr gate_current_Inr simp del: map_of_eq_Some_iff split: option.splits dest: fold_by_key)
qed

lemma gate_current_get_id: "gate_current lid s = Inr d \<Longrightarrow> dget d k = Some g \<Longrightarrow> g_id g = k"
  by (auto simp: gate_current_Inr simp del: map_of_eq_Some_iff dest: fold_by_key)

lemma gate_find_Some: "gate_find gid s = Inr (Some g) \<Longrightarrow> g_id g = gid"
  by (auto simp: gate_find_def rbind_eq_Inr simp del: map_of_eq_Some_iff split: option.splits
      dest: find_in_logs_Some gate_current_get_id)

lemma target_gate_Inr: "target_gate gid lid s = Inr g \<Longrightarrow> g_id g = gid"
  by (auto simp: target_gate_def rbind_eq_Inr simp del: map_of_eq_Some_iff split: option.splits if_splits
      dest: gate_find_Some gate_current_get_id)

lemma decided_snapshot_Inr:
  assumes "decided_snapshot c ctx gid lid v ev s = Inr u"
  obtains g refs where "target_gate gid lid s = Inr g" "decision_evidence_refs ev = Inr refs"
    "decide_gate g v (isoformat c (utc (dc_now ctx))) (Some (map EvRef refs)) = Inr u"
    "v_via v = ViaCli \<longrightarrow> v_decision v = ''cancel'' \<or> delegated_role (rule_for (dc_policy ctx) (g_kind g)) = None"
    "v_via v = ViaOrchestration \<longrightarrow> delegated_valid u (dc_policy ctx)"
  using assms that delegated_reason_None
  by (auto simp: decided_snapshot_def rbind_eq_Inr cli_decision_check_def orchestration_check_def
      require_undelegated_cli_decision_def split: if_splits)

text \<open>The first write of a decision, and that nothing is written when the snapshot is refused.\<close>

lemma record_gate_decision_refused:
  assumes "decided_snapshot c ctx gid lid v ev (cs_gates t) = Inl e"
  shows "record_gate_decision c p ctx gid lid v ev t = (Inl e, t)"
  using assms by (simp add: record_gate_decision_def sbind_sget)

lemma record_gate_decision_Inr:
  assumes "record_gate_decision c p ctx gid lid v ev t = (Inr resp, t')"
  obtains u g1 t2 r2 g3 where "decided_snapshot c ctx gid lid v ev (cs_gates t) = Inr u" "resp = decision_response u"
    "gate_append p (dc_store ctx) u (cs_gates t) = (Inr (), g1)"
    "remove_cancelled p ctx v u (t\<lparr>cs_gates := g1\<rparr>) = (Inr (), t2)"
    "meet_verdict_expectation p (dc_expectation_store ctx) u (isoformat c (utc (dc_now ctx))) (cs_rows t2) = (Inr (), r2)"
    "reclaim_gate_log c p (dc_store ctx) (g_lifecycleId u) (dc_now ctx) (cs_gates t2) = (Inr (), g3)"
    "t' = t2\<lparr>cs_rows := r2, cs_gates := g3\<rparr>"
  using assms that by (auto simp: record_gate_decision_def sbind_eq_Inr zoom_eq_Inr)

end
