(* ===== verification/Inbox_Transitions.thy ===== *)
theory Inbox_Transitions
  imports Inbox_Store
begin

section \<open>What the next snapshot of a row says\<close>

text \<open>
  \<^verbatim>\<open>controlplane/operator_inbox_transitions.py\<close>: delivery attempts, the four formal terminal marks, the
  rebind, adapter completion and renewal. The marks are transitions applied by the store under its lock
  to the latest fold; the others read a fold (the caller's or a fresh one) and append.
\<close>

record adapter_receipt =
  rc_delivery_state :: "adapter_delivery_state option"
  rc_request_id :: "string option"
  rc_vendor_correlation_id :: "string option"
  rc_accepted_at :: "string option"
  rc_detail :: "string option"

record delivery_attempt =
  at_delivery_state :: inbox_delivery_state
  at_delivered_to_session :: "string option"
  at_detail :: "string option"
  at_adapter :: adapter_receipt
  at_landed :: bool

record inbox_renewal =
  rn_response :: "string option"
  rn_subject :: inbox_subject
  rn_readdress_to :: "inbox_owner option"

record redelivery_floor =
  fl_current :: "inbox_fold option"
  fl_seconds :: "seconds option"

record adapter_completion =
  ac_vendor_correlation_id :: "string option"
  ac_detail :: "string option"

record expiry_options =
  ex_reason :: string
  ex_readdress_to :: "inbox_owner option"

definition NO_REDELIVERY_FLOOR :: redelivery_floor where
  "NO_REDELIVERY_FLOOR = \<lparr>fl_current = None, fl_seconds = None\<rparr>"

definition readdress_fields :: "inbox_owner \<Rightarrow> operator_inbox_entry \<Rightarrow> operator_inbox_entry" where
  "readdress_fields owner e =
     e\<lparr>i_recipientRole := owner_role owner, i_agentId := owner_agent_id owner,
       i_lifecycleId := owner_lifecycle_id owner, i_taskDocumentRef := owner_task_document_ref owner,
       i_ownerRole := owner_role owner, i_ownerTaskDocumentRef := owner_task_document_ref owner,
       i_ownerAgentId := owner_agent_id owner, i_ownerLifecycleId := owner_lifecycle_id owner\<rparr>"

definition require_entry ::
  "process \<Rightarrow> path \<Rightarrow> string \<Rightarrow> inbox_fold option \<Rightarrow> (inbox, operator_inbox_entry) prog" where
  "require_entry p obs_root entry_id current =
     sbind (case current of None \<Rightarrow> inbox_current p obs_root | Some d \<Rightarrow> sret d) (\<lambda>entries.
       case dget entries entry_id of
         None \<Rightarrow> slift (Inl (KeyError entry_id))
       | Some entry \<Rightarrow> sret entry)"

definition delivery_evidence_update ::
  "delivery_attempt \<Rightarrow> string \<Rightarrow> operator_inbox_entry \<Rightarrow> operator_inbox_entry" where
  "delivery_evidence_update attempt now e =
     (let adapter = at_adapter attempt; delivery_state = at_delivery_state attempt in
      e\<lparr>i_ts := now, i_deliveryState := delivery_state,
        i_deliveredAt := (if delivery_state = DDelivered then Some now else i_deliveredAt e),
        i_deliveredToSession := at_delivered_to_session attempt,
        i_deliveryDetail := at_detail attempt,
        i_adapterDeliveryState := lit_or (rc_delivery_state adapter) (i_adapterDeliveryState e),
        i_adapterRequestId := str_or (rc_request_id adapter) (i_adapterRequestId e),
        i_adapterVendorCorrelationId :=
          str_or (rc_vendor_correlation_id adapter) (i_adapterVendorCorrelationId e),
        i_adapterAcceptedAt := str_or (rc_accepted_at adapter) (i_adapterAcceptedAt e),
        i_adapterDeliveryDetail :=
          (if rc_detail adapter \<noteq> None then rc_detail adapter else i_adapterDeliveryDetail e),
        i_attemptCount := i_attemptCount e + 1, i_lastAttemptAt := Some now\<rparr>)"

definition land_latest :: "delivery_attempt \<Rightarrow> string \<Rightarrow> inbox_transition" where
  "land_latest attempt now latest =
     (if i_state latest \<noteq> Pending then None
      else Some ((delivery_evidence_update attempt now latest)
                   \<lparr>i_state := Landed, i_terminalAt := Some now,
                    i_terminalReason := Some ''adapter-accepted-at-turn-boundary'',
                    i_nextAttemptAt := None\<rparr>))"

text \<open>\<^verbatim>\<open>datetime.fromisoformat(now)\<close> raises \<^verbatim>\<open>ValueError\<close> on a string that is no stamp.\<close>

definition parse_now :: "iso_codec \<Rightarrow> string \<Rightarrow> datetime res" where
  "parse_now c now = (case fromisoformat c now of None \<Rightarrow> Inl (ValueError ''isoformat'') | Some t \<Rightarrow> Inr t)"

definition record_delivery ::
  "iso_codec \<Rightarrow> process \<Rightarrow> path \<Rightarrow> string \<Rightarrow> delivery_attempt \<Rightarrow> string \<Rightarrow> redelivery_floor \<Rightarrow>
   (inbox, operator_inbox_entry) prog" where
  "record_delivery c p obs_root entry_id attempt now fl0 =
     sbind (require_entry p obs_root entry_id (fl_current fl0)) (\<lambda>entry.
       if at_landed attempt \<and> rc_delivery_state (at_adapter attempt) = Some AAccepted \<and> i_state entry = Pending
       then sbind (inbox_transition p obs_root entry_id (land_latest attempt now)) (\<lambda>(e, _). sret e)
       else sbind (slift
              (if i_state entry = Pending
               then rbind (parse_now c now) (\<lambda>t.
                      rbind (next_attempt_at c t (i_attemptCount entry + 1) (fl_seconds fl0)) (\<lambda>s. Inr (Some s)))
               else Inr (i_nextAttemptAt entry)))
            (\<lambda>nxt. let delivered = (delivery_evidence_update attempt now entry)\<lparr>i_nextAttemptAt := nxt\<rparr>
                   in sbind (inbox_append p obs_root delivered) (\<lambda>_. sret delivered)))"

definition landed_transition :: "string \<Rightarrow> string \<Rightarrow> inbox_transition" where
  "landed_transition now why latest =
     (if i_state latest \<noteq> Pending then None
      else Some (latest\<lparr>i_ts := now, i_state := Landed, i_terminalAt := Some now,
                        i_terminalReason := Some why, i_nextAttemptAt := None\<rparr>))"

definition mark_landed ::
  "process \<Rightarrow> path \<Rightarrow> string \<Rightarrow> string \<Rightarrow> string \<Rightarrow> (inbox, operator_inbox_entry \<times> bool) prog" where
  "mark_landed p obs_root entry_id now why = inbox_transition p obs_root entry_id (landed_transition now why)"

definition superseded_transition :: "string \<Rightarrow> string \<Rightarrow> string option \<Rightarrow> inbox_transition" where
  "superseded_transition now why superseded_by latest =
     (if i_state latest \<noteq> Pending then None
      else Some (latest\<lparr>i_ts := now, i_state := Superseded, i_terminalAt := Some now,
                        i_terminalReason := Some why, i_supersededBy := superseded_by,
                        i_nextAttemptAt := None\<rparr>))"

definition mark_superseded ::
  "process \<Rightarrow> path \<Rightarrow> string \<Rightarrow> string \<Rightarrow> string \<Rightarrow> string option \<Rightarrow> (inbox, operator_inbox_entry \<times> bool) prog" where
  "mark_superseded p obs_root entry_id now why superseded_by =
     inbox_transition p obs_root entry_id (superseded_transition now why superseded_by)"

definition unresolved_transition :: "string \<Rightarrow> string \<Rightarrow> inbox_transition" where
  "unresolved_transition now why latest =
     (if i_state latest \<noteq> Pending then None
      else Some (latest\<lparr>i_ts := now, i_state := Unresolved, i_terminalAt := Some now,
                        i_terminalReason := Some why, i_nextAttemptAt := None\<rparr>))"

definition mark_unresolved ::
  "process \<Rightarrow> path \<Rightarrow> string \<Rightarrow> string \<Rightarrow> string \<Rightarrow> (inbox, operator_inbox_entry \<times> bool) prog" where
  "mark_unresolved p obs_root entry_id now why =
     inbox_transition p obs_root entry_id (unresolved_transition now why)"

definition expiry_transition :: "string \<Rightarrow> expiry_options \<Rightarrow> inbox_transition" where
  "expiry_transition now options latest =
     (if i_state latest \<noteq> Pending then None
      else let updated = latest\<lparr>i_ts := now, i_state := InboxExpired, i_terminalAt := Some now,
                                i_terminalReason := Some (ex_reason options), i_nextAttemptAt := None\<rparr>
           in Some (case ex_readdress_to options of
                      None \<Rightarrow> updated
                    | Some owner \<Rightarrow> readdress_fields owner updated))"

definition mark_expired ::
  "process \<Rightarrow> path \<Rightarrow> string \<Rightarrow> string \<Rightarrow> expiry_options \<Rightarrow> (inbox, operator_inbox_entry \<times> bool) prog" where
  "mark_expired p obs_root entry_id now options =
     inbox_transition p obs_root entry_id (expiry_transition now options)"

definition rebound :: "inbox_owner \<Rightarrow> string \<Rightarrow> operator_inbox_entry \<Rightarrow> operator_inbox_entry" where
  "rebound owner now e =
     (readdress_fields owner (e\<lparr>i_ts := now\<rparr>))
       \<lparr>i_deliveryState := DQueued, i_deliveredAt := None, i_deliveredToSession := None,
        i_deliveryDetail := None, i_adapterDeliveryState := None, i_adapterRequestId := None,
        i_adapterVendorCorrelationId := None, i_adapterAcceptedAt := None, i_adapterCompletedAt := None,
        i_adapterDeliveryDetail := None, i_attemptCount := 0, i_lastAttemptAt := None,
        i_nextAttemptAt := None\<rparr>"

definition rebind_entry ::
  "process \<Rightarrow> path \<Rightarrow> string \<Rightarrow> inbox_owner \<Rightarrow> string \<Rightarrow> inbox_fold option \<Rightarrow>
   (inbox, operator_inbox_entry \<times> bool) prog" where
  "rebind_entry p obs_root entry_id owner now current =
     sbind (require_entry p obs_root entry_id current) (\<lambda>entry.
       if i_state entry \<noteq> Pending then sret (entry, False)
       else sbind (inbox_append p obs_root (rebound owner now entry)) (\<lambda>_. sret (rebound owner now entry, True)))"

definition adapter_completed :: "adapter_completion \<Rightarrow> string \<Rightarrow> operator_inbox_entry \<Rightarrow> operator_inbox_entry" where
  "adapter_completed completion now e =
     e\<lparr>i_ts := now, i_adapterDeliveryState := Some ACompleted,
       i_adapterVendorCorrelationId :=
         str_or (ac_vendor_correlation_id completion) (i_adapterVendorCorrelationId e),
       i_adapterCompletedAt := Some now, i_adapterDeliveryDetail := ac_detail completion\<rparr>"

definition record_adapter_completion ::
  "process \<Rightarrow> path \<Rightarrow> string \<Rightarrow> adapter_completion \<Rightarrow> string \<Rightarrow> inbox_fold option \<Rightarrow>
   (inbox, operator_inbox_entry) prog" where
  "record_adapter_completion p obs_root entry_id completion now current =
     sbind (require_entry p obs_root entry_id current) (\<lambda>entry.
       sbind (inbox_append p obs_root (adapter_completed completion now entry))
         (\<lambda>_. sret (adapter_completed completion now entry)))"

definition renewed :: "inbox_renewal \<Rightarrow> string \<Rightarrow> operator_inbox_entry \<Rightarrow> operator_inbox_entry" where
  "renewed renewal now e =
     (let subject = rn_subject renewal;
          e1 = e\<lparr>i_ts := now\<rparr>;
          e2 = (case rn_response renewal of None \<Rightarrow> e1 | Some r \<Rightarrow> e1\<lparr>i_response := r\<rparr>);
          e3 = (if subj_task_document_ref subject = None then e2
                else e2\<lparr>i_subjectTaskDocumentRef := subj_task_document_ref subject\<rparr>);
          e4 = (if subj_seat_role subject = None then e3 else e3\<lparr>i_seatRole := subj_seat_role subject\<rparr>);
          e5 = (if subj_agent_id subject = None then e4 else e4\<lparr>i_subjectAgentId := subj_agent_id subject\<rparr>)
      in case rn_readdress_to renewal of None \<Rightarrow> e5 | Some owner \<Rightarrow> readdress_fields owner e5)"

definition renew ::
  "process \<Rightarrow> path \<Rightarrow> string \<Rightarrow> inbox_renewal \<Rightarrow> string \<Rightarrow> inbox_fold option \<Rightarrow>
   (inbox, operator_inbox_entry) prog" where
  "renew p obs_root entry_id renewal now current =
     sbind (require_entry p obs_root entry_id current) (\<lambda>entry.
       if i_state entry \<noteq> Pending then sret entry
       else sbind (inbox_append p obs_root (renewed renewal now entry)) (\<lambda>_. sret (renewed renewal now entry)))"

subsection \<open>The contract of a terminal mark\<close>

text \<open>
  What the five terminal transitions share: a row that is already terminal is left alone, a pending one
  becomes terminal under its own id with its schedule cleared. Everything about "the first terminal
  truth wins" is proved once from that.
\<close>

locale terminal_mark =
  fixes f :: inbox_transition
  assumes mark_skips: "i_state e \<noteq> Pending \<Longrightarrow> f e = None"
    and mark_acts: "i_state e = Pending \<Longrightarrow>
      \<exists>u. f e = Some u \<and> i_id u = i_id e \<and> i_state u \<noteq> Pending \<and> inbox_ok u = inbox_ok e \<and>
          i_nextAttemptAt u = None"
begin

lemma mark_on_terminal:
  assumes "access_guard p OPERATOR_INBOX_OWNERSHIP (inbox_log_path obs_root) = Inr ()"
    "inbox_view s = Some m" "m k = Some e" "i_state e \<noteq> Pending"
  shows "inbox_transition p obs_root k f s = (Inr (e, False), s)"
proof -
  from assms(2) obtain rs where "read_strict inbox_ok s = Inr rs" "m = map_of (fold_operator_inbox_entries rs)"
    by (auto simp: inbox_view_Some)
  with assms mark_skips show ?thesis
    by (simp add: inbox_transition_def inbox_read_unlocked_def sbind_sget sret_def)
qed

lemma mark_on_pending:
  assumes g: "access_guard p OPERATOR_INBOX_OWNERSHIP (inbox_log_path obs_root) = Inr ()"
    and v: "inbox_view s = Some m" and e: "m k = Some e" "i_state e = Pending"
  shows "\<exists>u. f e = Some u \<and> i_state u \<noteq> Pending \<and> i_nextAttemptAt u = None \<and>
             inbox_transition p obs_root k f s = (Inr (u, True), append_line u s) \<and>
             inbox_view (append_line u s) = Some (m(k \<mapsto> u))"
proof -
  from v obtain rs where rs: "read_strict inbox_ok s = Inr rs" "m = map_of (fold_operator_inbox_entries rs)"
    by (auto simp: inbox_view_Some)
  with e fold_inbox_key [of rs k e] read_strict_ok [OF rs(1)] have ok: "inbox_ok e" "i_id e = k"
    by (auto simp: list_all_iff)
  from mark_acts [OF e(2)] ok obtain u where u: "f e = Some u" "i_id u = k" "i_state u \<noteq> Pending"
    "inbox_ok u" "i_nextAttemptAt u = None" by auto
  have "inbox_append_unlocked p obs_root u s = (Inr (), append_line u s)"
    using inbox_append_unlocked_Inr [OF g] u(4) by simp
  then have "inbox_transition p obs_root k f s = (Inr (u, True), append_line u s)"
    using g rs e u(1) by (simp add: inbox_transition_def inbox_read_unlocked_def sbind_sget sbind_Inr sret_def)
  moreover have "inbox_view (append_line u s) = Some (m(k \<mapsto> u))"
    using inbox_view_append [OF v u(4)] u(2,3) e by simp
  ultimately show ?thesis using u by blast
qed

end

lemma readdress_frame [simp]:
  "i_id (readdress_fields owner e) = i_id e" "i_state (readdress_fields owner e) = i_state e"
  "inbox_ok (readdress_fields owner e) = inbox_ok e"
  "i_nextAttemptAt (readdress_fields owner e) = i_nextAttemptAt e"
  by (simp_all add: readdress_fields_def inbox_ok_def)

lemma delivery_evidence_frame [simp]:
  "i_id (delivery_evidence_update a now e) = i_id e" "i_state (delivery_evidence_update a now e) = i_state e"
  "inbox_ok (delivery_evidence_update a now e) = inbox_ok e"
  "i_lastAttemptAt (delivery_evidence_update a now e) = Some now"
  "i_attemptCount (delivery_evidence_update a now e) = i_attemptCount e + 1"
  by (simp_all add: delivery_evidence_update_def inbox_ok_def Let_def)

interpretation landed_mark: terminal_mark "landed_transition now why" for now why
  by unfold_locales (simp_all add: landed_transition_def inbox_ok_def)

interpretation superseded_mark: terminal_mark "superseded_transition now why by" for now why "by"
  by unfold_locales (simp_all add: superseded_transition_def inbox_ok_def)

interpretation unresolved_mark: terminal_mark "unresolved_transition now why" for now why
  by unfold_locales (simp_all add: unresolved_transition_def inbox_ok_def)

interpretation expiry_mark: terminal_mark "expiry_transition now options" for now options
  by unfold_locales
    (simp_all add: expiry_transition_def inbox_ok_def readdress_fields_def Let_def split: option.splits)

interpretation landing_mark: terminal_mark "land_latest attempt now" for attempt now
proof unfold_locales
  fix e :: operator_inbox_entry
  show "i_state e \<noteq> Pending \<Longrightarrow> land_latest attempt now e = None" by (simp add: land_latest_def)
  have "inbox_ok ((delivery_evidence_update attempt now e)\<lparr>i_state := Landed, i_terminalAt := Some now,
     i_terminalReason := Some ''adapter-accepted-at-turn-boundary'', i_nextAttemptAt := None\<rparr>)
     = inbox_ok (delivery_evidence_update attempt now e)" by (simp add: inbox_ok_def)
  then show "i_state e = Pending \<Longrightarrow> \<exists>u. land_latest attempt now e = Some u \<and> i_id u = i_id e \<and>
      i_state u \<noteq> Pending \<and> inbox_ok u = inbox_ok e \<and> i_nextAttemptAt u = None"
    by (simp add: land_latest_def)
qed

subsection \<open>Concurrent writers\<close>

text \<open>
  The calls that append to the inbox, by any process and in any order: a snapshot computed from any
  fold, however stale (\<^verbatim>\<open>append\<close>, which is all that delivery recording, rebinding, completion and renewal do
  to the log), a locked transition, a batch, a consume.
\<close>

inductive inbox_write :: "path \<Rightarrow> inbox \<Rightarrow> inbox \<Rightarrow> bool" for obs_root where
  write_append: "inbox_append p obs_root e s = (r, s') \<Longrightarrow> inbox_write obs_root s s'"
| write_transition: "inbox_transition p obs_root k f s = (r, s') \<Longrightarrow> inbox_write obs_root s s'"
| write_batch: "inbox_transition_many p obs_root ts s = (r, s') \<Longrightarrow> inbox_write obs_root s s'"
| write_consume: "inbox_consume p obs_root k now by via s = (r, s') \<Longrightarrow> inbox_write obs_root s s'"

inductive_cases inbox_writeE: "inbox_write obs_root s s'"

definition settled :: "string \<Rightarrow> inbox \<Rightarrow> bool" where
  "settled k s \<longleftrightarrow> (\<exists>m e. inbox_view s = Some m \<and> m k = Some e \<and> i_state e \<noteq> Pending)"

lemma settled_read:
  "settled k s \<longleftrightarrow> (\<exists>rs e. read_strict inbox_ok s = Inr rs \<and>
     dget (fold_operator_inbox_entries rs) k = Some e \<and> i_state e \<noteq> Pending)"
  by (auto simp: settled_def inbox_view_Some)

lemma settled_append_lines:
  assumes "settled k s" "list_all inbox_ok es"
  shows "settled k (append_lines es s)"
proof -
  from assms(1) obtain rs e where rs: "read_strict inbox_ok s = Inr rs"
    "dget (fold_operator_inbox_entries rs) k = Some e" "i_state e \<noteq> Pending" by (auto simp: settled_read)
  from read_strict_append_lines [OF rs(1) assms(2)] fold_inbox_terminal_stays [OF rs(2,3), of es]
  show ?thesis by (auto simp: settled_read)
qed

lemma append_line_lines: "append_line e s = append_lines [e] s"
  by (simp add: append_line_def append_lines_def)

lemma transition_batch_ok:
  "transition_batch cur ts = Inr (results, appended) \<Longrightarrow> list_all inbox_ok appended"
proof (induction cur ts arbitrary: results appended rule: transition_batch.induct)
  case (1 current)
  then show ?case by simp
next
  case (2 current k f rest)
  then show ?case
    by (cases "dget current k") (auto simp: rbind_eq_Inr split: option.splits)
qed

lemma inbox_transition_many_outcome:
  assumes "inbox_transition_many p obs_root ts s = (r, s')"
  shows "(\<exists>x. r = Inl x \<and> s' = s) \<or>
    (\<exists>rs results appended. read_strict inbox_ok s = Inr rs \<and>
       transition_batch (fold_operator_inbox_entries rs) ts = Inr (results, appended) \<and>
       r = Inr results \<and> s' = append_lines appended s)"
proof (cases "check_declared_writer OPERATOR_INBOX_OWNERSHIP p")
  case (Inl x)
  with assms show ?thesis by (auto simp: inbox_transition_many_def)
next
  case (Inr u)
  show ?thesis
  proof (cases "access_guard p OPERATOR_INBOX_OWNERSHIP (inbox_log_path obs_root)")
    case (Inl x)
    with Inr assms show ?thesis by (auto simp: inbox_transition_many_def)
  next
    case g: (Inr v)
    then have g': "access_guard p OPERATOR_INBOX_OWNERSHIP (inbox_log_path obs_root) = Inr ()" by simp
    note app = append_records_ok [OF g']
    show ?thesis
    proof (cases "read_strict inbox_ok s")
      case (Inl x)
      with Inr g' assms show ?thesis
        by (auto simp: inbox_transition_many_def inbox_read_unlocked_def sbind_sget)
    next
      case rs: (Inr rs)
      with Inr g' assms app show ?thesis
        by (cases "transition_batch (fold_operator_inbox_entries rs) ts")
          (auto simp: inbox_transition_many_def inbox_read_unlocked_def sbind_sget sbind_Inr split: prod.splits)
    qed
  qed
qed

lemma inbox_write_effect:
  assumes "inbox_write obs_root s s'"
  shows "\<exists>es. list_all inbox_ok es \<and> s' = append_lines es s"
proof -
  have none: "\<exists>es. list_all inbox_ok es \<and> s = append_lines es s"
    by (intro exI [of _ "[]"]) (simp add: append_lines_def)
  have one: "\<exists>es. list_all inbox_ok es \<and> append_line e s = append_lines es s" if "inbox_ok e" for e
    using that by (intro exI [of _ "[e]"]) (simp add: append_line_lines)
  have trans: "\<exists>es. list_all inbox_ok es \<and> s' = append_lines es s"
    if "inbox_transition p obs_root k f s = (r, s')" for p k f r
    using inbox_transition_outcome [OF that] none one by (auto split: option.splits)
  from assms show ?thesis
  proof (rule inbox_writeE)
    fix p e r
    assume "inbox_append p obs_root e s = (r, s')"
    then show ?thesis
      using none one inbox_append_Inl [of p obs_root e s _ s'] inbox_append_Inr [of p obs_root e s _ s']
      by (cases r) auto
  next
    fix p k f r
    assume "inbox_transition p obs_root k f s = (r, s')"
    then show ?thesis by (rule trans)
  next
    fix p ts r
    assume "inbox_transition_many p obs_root ts s = (r, s')"
    from inbox_transition_many_outcome [OF this] none transition_batch_ok show ?thesis by blast
  next
    fix p k now "by" via r
    assume "inbox_consume p obs_root k now by via s = (r, s')"
    then show ?thesis unfolding inbox_consume_transition by (rule trans)
  qed
qed

interpretation settled_kept: step_invariant "inbox_write obs_root" "settled k"
  for obs_root k
  by unfold_locales (auto dest!: inbox_write_effect intro: settled_append_lines)

subsection \<open>A batch is the sequence of its transitions\<close>

fun run_transitions ::
  "process \<Rightarrow> path \<Rightarrow> (string \<times> inbox_transition) list \<Rightarrow> (inbox, (operator_inbox_entry \<times> bool) list) prog" where
  "run_transitions p obs_root [] = sret []"
| "run_transitions p obs_root ((k, f) # ts) =
     sbind (inbox_transition p obs_root k f) (\<lambda>r.
       sbind (run_transitions p obs_root ts) (\<lambda>rs. sret (r # rs)))"

definition monotone_transition :: "inbox_transition \<Rightarrow> bool" where
  "monotone_transition f \<longleftrightarrow>
     (\<forall>e u. f e = Some u \<longrightarrow> i_id u = i_id e \<and> (i_state e \<noteq> Pending \<longrightarrow> i_state u \<noteq> Pending))"

lemma append_lines_Cons: "append_lines (e # es) s = append_lines es (append_line e s)"
  by (simp add: append_lines_def append_line_def)

lemma batch_is_sequence:
  assumes g: "access_guard p OPERATOR_INBOX_OWNERSHIP (inbox_log_path obs_root) = Inr ()"
    and mono: "\<forall>(k, f)\<in>set ts. monotone_transition f"
    and rs: "read_strict inbox_ok s = Inr rs"
    and cur: "\<And>j. dget cur j = dget (fold_operator_inbox_entries rs) j"
    and batch: "transition_batch cur ts = Inr (results, appended)"
  shows "run_transitions p obs_root ts s = (Inr results, append_lines appended s)"
  using mono rs cur batch
proof (induction ts arbitrary: s rs cur results appended)
  case Nil
  then show ?case by (simp add: append_lines_def sret_def)
next
  case (Cons kf ts)
  obtain k f where kf: "kf = (k, f)" by fastforce
  from Cons.prems(4) obtain e where e: "dget cur k = Some e" by (auto simp: kf split: option.splits)
  then have e': "dget (fold_operator_inbox_entries rs) k = Some e" using Cons.prems(3) by simp
  show ?case
  proof (cases "f e")
    case None
    with Cons.prems(4) e obtain res where res: "transition_batch cur ts = Inr (res, appended)"
      "results = (e, False) # res" by (auto simp: kf rbind_eq_Inr)
    have "inbox_transition p obs_root k f s = (Inr (e, False), s)"
      using g Cons.prems(2) e' None
      by (simp add: inbox_transition_def inbox_read_unlocked_def sbind_sget sret_def)
    with Cons.IH [OF _ Cons.prems(2,3) res(1)] Cons.prems(1) res(2) show ?thesis
      by (simp add: kf sbind_Inr sret_def)
  next
    case (Some u)
    with Cons.prems(4) e obtain res app where u: "inbox_ok u"
      "transition_batch (dput k u cur) ts = Inr (res, app)" "results = (u, True) # res" "appended = u # app"
      by (auto simp: kf rbind_eq_Inr)
    from Cons.prems(1) Some have id: "i_id u = i_id e" "i_state e \<noteq> Pending \<longrightarrow> i_state u \<noteq> Pending"
      by (auto simp: kf monotone_transition_def)
    from fold_inbox_key [OF e'] id(1) have "i_id u = k" by simp
    then have "dget (dput k u cur) j = dget (fold_operator_inbox_entries (rs @ [u])) j" for j
      using Cons.prems(3) [of j] e' id(2)
      by (cases "j = k") (auto simp: fold_inbox_get_snoc simp del: map_of_eq_Some_iff)
    note IH = Cons.IH [OF _ read_strict_append_line [OF Cons.prems(2) u(1)] this u(2)]
    have "inbox_append_unlocked p obs_root u s = (Inr (), append_line u s)"
      using inbox_append_unlocked_Inr [OF g] u(1) by simp
    then have "inbox_transition p obs_root k f s = (Inr (u, True), append_line u s)"
      using g Cons.prems(2) e' Some
      by (simp add: inbox_transition_def inbox_read_unlocked_def sbind_sget sbind_Inr sret_def)
    with IH Cons.prems(1) u(3,4) show ?thesis
      by (simp add: kf sbind_Inr append_lines_Cons sret_def)
  qed
qed

subsection \<open>Delivery attempts\<close>

lemma land_latest_not_pending:
  assumes "inbox_transition p obs_root k (land_latest a now) s = (Inr (e, b), s')"
  shows "i_state e \<noteq> Pending"
  using inbox_transition_outcome [OF assms] by (auto simp: land_latest_def split: if_splits)

lemma record_delivery_pending:
  assumes "record_delivery c p obs_root k a now fl0 s = (Inr e', s')" "i_state e' = Pending"
  obtains e t nxt where "require_entry p obs_root k (fl_current fl0) s = (Inr e, s)" "i_state e = Pending"
    "fromisoformat c now = Some t"
    "next_attempt_at c t (i_attemptCount e + 1) (fl_seconds fl0) = Inr nxt"
    "e' = (delivery_evidence_update a now e)\<lparr>i_nextAttemptAt := Some nxt\<rparr>"
    "inbox_append p obs_root e' s = (Inr (), s')"
proof -
  from assms(1) obtain e s1 where e: "require_entry p obs_root k (fl_current fl0) s = (Inr e, s1)"
    and rest: "(if at_landed a \<and> rc_delivery_state (at_adapter a) = Some AAccepted \<and> i_state e = Pending
       then sbind (inbox_transition p obs_root k (land_latest a now)) (\<lambda>(e, _). sret e)
       else sbind (slift (if i_state e = Pending
               then rbind (parse_now c now) (\<lambda>t.
                      rbind (next_attempt_at c t (i_attemptCount e + 1) (fl_seconds fl0)) (\<lambda>s. Inr (Some s)))
               else Inr (i_nextAttemptAt e)))
            (\<lambda>nxt. sbind (inbox_append p obs_root ((delivery_evidence_update a now e)\<lparr>i_nextAttemptAt := nxt\<rparr>))
               (\<lambda>_. sret ((delivery_evidence_update a now e)\<lparr>i_nextAttemptAt := nxt\<rparr>)))) s1 = (Inr e', s')"
    unfolding record_delivery_def Let_def by (auto simp: sbind_eq_Inr)
  have s1: "s1 = s" using e
    by (auto simp: require_entry_def inbox_current_def inbox_read_def inbox_read_unlocked_def sbind_eq_Inr
        exclusive_access_Inr split: option.splits)
  show thesis
  proof (cases "at_landed a \<and> rc_delivery_state (at_adapter a) = Some AAccepted \<and> i_state e = Pending")
    case True
    with rest obtain b where "inbox_transition p obs_root k (land_latest a now) s1 = (Inr (e', b), s')"
      by (auto simp: sbind_eq_Inr)
    from land_latest_not_pending [OF this] assms(2) show thesis by simp
  next
    case False
    with rest obtain nxt where nxt: "(if i_state e = Pending
               then rbind (parse_now c now) (\<lambda>t.
                      rbind (next_attempt_at c t (i_attemptCount e + 1) (fl_seconds fl0)) (\<lambda>s. Inr (Some s)))
               else Inr (i_nextAttemptAt e)) = Inr nxt"
      and e': "e' = (delivery_evidence_update a now e)\<lparr>i_nextAttemptAt := nxt\<rparr>"
      and app: "inbox_append p obs_root ((delivery_evidence_update a now e)\<lparr>i_nextAttemptAt := nxt\<rparr>) s1 = (Inr (), s')"
      by (auto simp: sbind_eq_Inr)
    from e' assms(2) have pend: "i_state e = Pending" by simp
    with nxt obtain t x where "fromisoformat c now = Some t"
      "next_attempt_at c t (i_attemptCount e + 1) (fl_seconds fl0) = Inr x" "nxt = Some x"
      by (auto simp: rbind_eq_Inr parse_now_def split: option.splits)
    with that [of e t x] e pend e' app s1 show thesis by simp
  qed
qed

lemma rate_limited_after_attempt:
  assumes "i_lastAttemptAt e = Some now" "fromisoformat c now = Some t" "n < utc_us t + 900 * 1000000"
  shows "is_rate_limited c e n rate \<noteq> Inr False"
proof
  assume "is_rate_limited c e n rate = Inr False"
  with assms(1,2) obtain fl d where fl: "require_redelivery_floor_seconds (Some rate) = Inr fl"
    and d: "dt_sub (utc n) t = Inr d" "\<not> total_seconds d < fl"
    by (auto simp: is_rate_limited_def rbind_eq_Inr)
  from d(1) have "d = n - utc_us t" by (auto simp: dt_sub_def utc_def split: if_splits)
  with assms(3) have "total_seconds d < 900" by simp
  with redelivery_floor_Inr [OF fl] d(2) show False by simp
qed

lemma rebound_fresh:
  "i_id (rebound owner now e) = i_id e" "i_state (rebound owner now e) = i_state e"
  "i_attemptCount (rebound owner now e) = 0" "i_nextAttemptAt (rebound owner now e) = None"
  "i_lastAttemptAt (rebound owner now e) = None" "i_deliveryState (rebound owner now e) = DQueued"
  "i_adapterRequestId (rebound owner now e) = None" "i_adapterDeliveryState (rebound owner now e) = None"
  "i_agentId (rebound owner now e) = owner_agent_id owner" "i_ownerAgentId (rebound owner now e) = owner_agent_id owner"
  "i_ask (rebound owner now e) = i_ask e" "i_response (rebound owner now e) = i_response e"
  "i_createdAt (rebound owner now e) = i_createdAt e"
  by (simp_all add: rebound_def readdress_fields_def)

lemma fresh_row_redeliverable:
  assumes "i_state e = Pending" "i_nextAttemptAt e = None" "i_lastAttemptAt e = None" "900 \<le> rate"
  shows "redeliverable_now c n rate e = Inr True"
  using assms
  by (cases "i_deliveryState e")
    (simp_all add: redeliverable_now_def is_ladder_resolved_def is_due_def is_rate_limited_def
      require_redelivery_floor_seconds_def MIN_REDELIVERY_INTERVAL_SECONDS_def REDELIVERABLE_DELIVERY_STATES_def)

end
