(* ===== verification/Event_Store.thy ===== *)
theory Event_Store
  imports Py_Time Durable_Store
begin

section \<open>Observer events and the served ledger\<close>

text \<open>
  \<^verbatim>\<open>observer/events.py\<close>, the lifecycle half of \<^verbatim>\<open>observer/store.py\<close> and \<^verbatim>\<open>observer/served_store.py\<close>. A lifecycle
  directory holds the event log, the coalesced heartbeat sidecar and the served log; the workspace log is
  beside them. Reads skip lines that do not validate. The byte-offset bookkeeping of the workspace log is
  not part of the model.
\<close>

datatype trust = Declared | Observed | Inferred | TrustApproved
datatype actor = ActorModel | ActorSystem | ActorDeveloper

record event =
  e_schema :: string
  e_id :: string
  e_ts :: string
  e_kind :: string
  e_trust :: trust
  e_actor :: actor
  e_data :: "(string \<times> json) list"
  e_lifecycleId :: "string option"
  e_enclosure :: "string option"
  e_repoId :: "string option"
  e_sessionId :: "string option"
  e_spanId :: "string option"

record served_record =
  sv_schema :: string
  sv_kind :: string
  sv_path :: string
  sv_hash :: string
  sv_ts :: string

record lifecycle_dir =
  ld_events :: "event log_file"
  ld_heartbeat :: "event log_line option"
  ld_served :: "served_record log_file"

record observer_files =
  of_workspace :: "event log_file"
  of_lifecycles :: "(string, lifecycle_dir) dict"

definition OBSERVER_EVENT_SCHEMA :: string where
  "OBSERVER_EVENT_SCHEMA = ''ar-observer-event/v1''"

definition HEARTBEAT_KIND :: string where
  "HEARTBEAT_KIND = ''lifecycle.heartbeat''"

definition empty_dir :: lifecycle_dir where
  "empty_dir = \<lparr>ld_events = None, ld_heartbeat = None, ld_served = None\<rparr>"

definition dir_of :: "string \<Rightarrow> observer_files \<Rightarrow> lifecycle_dir" where
  "dir_of l fs = (case dget (of_lifecycles fs) l of None \<Rightarrow> empty_dir | Some d \<Rightarrow> d)"

definition put_dir :: "string \<Rightarrow> lifecycle_dir \<Rightarrow> observer_files \<Rightarrow> observer_files" where
  "put_dir l d fs = fs\<lparr>of_lifecycles := dput l d (of_lifecycles fs)\<rparr>"

text \<open>\<^verbatim>\<open>append\<close>: a heartbeat of a lifecycle overwrites its sidecar, everything else is a line of its log.\<close>

definition event_append :: "event \<Rightarrow> observer_files \<Rightarrow> observer_files" where
  "event_append ev fs =
     (if truthy (e_lifecycleId ev) \<and> e_kind ev = HEARTBEAT_KIND
      then let l = the (e_lifecycleId ev)
           in put_dir l ((dir_of l fs)\<lparr>ld_heartbeat := Some (Rec ev)\<rparr>) fs
      else if truthy (e_lifecycleId ev)
      then let l = the (e_lifecycleId ev)
           in put_dir l ((dir_of l fs)\<lparr>ld_events := append_line ev (ld_events (dir_of l fs))\<rparr>) fs
      else fs\<lparr>of_workspace := append_line ev (of_workspace fs)\<rparr>)"

definition any_event :: "event \<Rightarrow> bool" where
  "any_event ev \<longleftrightarrow> True"

definition read_heartbeat_sidecar :: "string \<Rightarrow> observer_files \<Rightarrow> event option" where
  "read_heartbeat_sidecar l fs =
     (case ld_heartbeat (dir_of l fs) of
        Some (Rec ev) \<Rightarrow> if e_kind ev = HEARTBEAT_KIND then Some ev else None
      | _ \<Rightarrow> None)"

definition read_log :: "string option \<Rightarrow> observer_files \<Rightarrow> event list" where
  "read_log lifecycle_id fs =
     (if truthy lifecycle_id then read_tolerant any_event (ld_events (dir_of (the lifecycle_id) fs))
      else read_tolerant any_event (of_workspace fs))"

fun replace_Z :: "string \<Rightarrow> string" where
  "replace_Z [] = []"
| "replace_Z (ch # cs) = (if ch = CHR ''Z'' then ''+00:00'' @ replace_Z cs else ch # replace_Z cs)"

definition event_time :: "iso_codec \<Rightarrow> event \<Rightarrow> int option" where
  "event_time c ev = map_option (\<lambda>t. utc_us (as_utc t)) (fromisoformat c (replace_Z (e_ts ev)))"

definition event_before :: "iso_codec \<Rightarrow> event \<Rightarrow> event \<Rightarrow> bool" where
  "event_before c left right =
     (case (event_time c left, event_time c right) of
        (Some a, Some b) \<Rightarrow> a < b
      | _ \<Rightarrow> e_ts left < e_ts right)"

definition event_read :: "iso_codec \<Rightarrow> string option \<Rightarrow> observer_files \<Rightarrow> event list" where
  "event_read c lifecycle_id fs =
     (let events = read_log lifecycle_id fs
      in case lifecycle_id of
           None \<Rightarrow> events
         | Some l \<Rightarrow>
             (case read_heartbeat_sidecar l fs of
                None \<Rightarrow> events
              | Some hb \<Rightarrow> if events = [] \<or> \<not> event_before c hb (last events) then events @ [hb] else events))"

subsection \<open>The served ledger\<close>

definition served_key :: "string \<Rightarrow> string \<Rightarrow> string \<Rightarrow> string" where
  "served_key kind path content_hash = kind @ '':'' @ path @ '':'' @ content_hash"

definition served_record_key :: "served_record \<Rightarrow> string" where
  "served_record_key r = served_key (sv_kind r) (sv_path r) (sv_hash r)"

definition served_store_append :: "string \<Rightarrow> served_record \<Rightarrow> observer_files \<Rightarrow> observer_files" where
  "served_store_append l r fs =
     put_dir l ((dir_of l fs)\<lparr>ld_served := append_line r (ld_served (dir_of l fs))\<rparr>) fs"

definition served_store_read :: "string \<Rightarrow> observer_files \<Rightarrow> served_record list" where
  "served_store_read l fs = read_tolerant (\<lambda>_. True) (ld_served (dir_of l fs))"

definition served_set :: "string \<Rightarrow> observer_files \<Rightarrow> string set" where
  "served_set l fs = served_record_key ` set (served_store_read l fs)"

text \<open>\<^verbatim>\<open>ServedLedger\<close>: its cached sets and the files; the first use of a lifecycle reads its set through.\<close>

record served_ledger =
  sl_sets :: "(string, string set) dict"
  sl_files :: observer_files

definition hydrated :: "string \<Rightarrow> served_ledger \<Rightarrow> string set \<times> served_ledger" where
  "hydrated l w =
     (case dget (sl_sets w) l of
        Some cached \<Rightarrow> (cached, w)
      | None \<Rightarrow> let cached = served_set l (sl_files w)
                in (cached, w\<lparr>sl_sets := dput l cached (sl_sets w)\<rparr>))"

definition is_served :: "string \<Rightarrow> string \<Rightarrow> string \<Rightarrow> string \<Rightarrow> served_ledger \<Rightarrow> bool \<times> served_ledger" where
  "is_served l kind path content_hash w =
     (let (cached, w') = hydrated l w in (served_key kind path content_hash \<in> cached, w'))"

definition served_record_call ::
  "string \<Rightarrow> string \<Rightarrow> string \<Rightarrow> string \<Rightarrow> string \<Rightarrow> served_ledger \<Rightarrow> served_ledger" where
  "served_record_call l kind path content_hash ts w =
     (let (cached, w') = hydrated l w
      in w'\<lparr>sl_sets := dput l (insert (served_key kind path content_hash) cached) (sl_sets w'),
            sl_files := served_store_append l
              \<lparr>sv_schema = ''ar-served-record/v1'', sv_kind = kind, sv_path = path, sv_hash = content_hash,
               sv_ts = ts\<rparr> (sl_files w')\<rparr>)"

definition served_reset :: "string \<Rightarrow> served_ledger \<Rightarrow> served_ledger" where
  "served_reset l w =
     w\<lparr>sl_sets := filter (\<lambda>kv. fst kv \<noteq> l) (sl_sets w),
       sl_files := (case dget (of_lifecycles (sl_files w)) l of
                      None \<Rightarrow> sl_files w
                    | Some d \<Rightarrow> put_dir l (d\<lparr>ld_served := None\<rparr>) (sl_files w))\<rparr>"

definition served_forget :: "string \<Rightarrow> served_ledger \<Rightarrow> served_ledger" where
  "served_forget l w = w\<lparr>sl_sets := filter (\<lambda>kv. fst kv \<noteq> l) (sl_sets w)\<rparr>"

subsection \<open>Lemmas\<close>

lemma dir_of_put [simp]: "dir_of l (put_dir k d fs) = (if l = k then d else dir_of l fs)"
  by (simp add: dir_of_def put_dir_def)

lemma workspace_put_dir [simp]: "of_workspace (put_dir k d fs) = of_workspace fs"
  by (simp add: put_dir_def)

lemma dir_of_workspace [simp]: "dir_of l (fs\<lparr>of_workspace := w\<rparr>) = dir_of l fs"
  by (simp add: dir_of_def)

lemma served_set_append:
  "served_set l (served_store_append k r fs) =
   (if l = k then insert (served_record_key r) (served_set l fs) else served_set l fs)"
  by (simp add: served_set_def served_store_read_def served_store_append_def read_tolerant_def append_line_def
      tolerant_lines_append)

text \<open>The cache agrees with the log for every lifecycle it holds.\<close>

definition ledger_ok :: "served_ledger \<Rightarrow> bool" where
  "ledger_ok w \<longleftrightarrow> (\<forall>l s. dget (sl_sets w) l = Some s \<longrightarrow> s = served_set l (sl_files w))"

lemma hydrated_set: "ledger_ok w \<Longrightarrow> fst (hydrated l w) = served_set l (sl_files w)"
  by (auto simp: hydrated_def ledger_ok_def Let_def split: option.splits)

lemma hydrated_frame [simp]: "sl_files (snd (hydrated l w)) = sl_files w"
  by (simp add: hydrated_def Let_def split: option.splits)

lemma hydrated_ok: "ledger_ok w \<Longrightarrow> ledger_ok (snd (hydrated l w))"
  by (auto simp: hydrated_def ledger_ok_def Let_def split: option.splits)

lemma is_served_correct:
  assumes "ledger_ok w"
  shows "fst (is_served l kind path h w) \<longleftrightarrow> served_key kind path h \<in> served_set l (sl_files w)"
    and "ledger_ok (snd (is_served l kind path h w))"
  using hydrated_set [OF assms, of l] hydrated_ok [OF assms, of l]
  by (cases "hydrated l w", simp add: is_served_def)+

lemma map_of_filter_neq: "map_of (filter (\<lambda>kv. fst kv \<noteq> l) d) k = (if k = l then None else map_of d k)"
  by (induction d) auto

lemma served_record_ok:
  assumes "ledger_ok w"
  shows "ledger_ok (served_record_call l kind path h ts w)"
    and "served_set l (sl_files (served_record_call l kind path h ts w)) =
         insert (served_key kind path h) (served_set l (sl_files w))"
proof -
  obtain cached w' where h: "hydrated l w = (cached, w')" by fastforce
  have c: "cached = served_set l (sl_files w)" "sl_files w' = sl_files w" "ledger_ok w'"
    using hydrated_set [OF assms, of l] hydrated_frame [of l w] hydrated_ok [OF assms, of l] by (simp_all add: h)
  then show "ledger_ok (served_record_call l kind path h ts w)"
    by (auto simp: served_record_call_def h ledger_ok_def served_set_append served_record_key_def)
  show "served_set l (sl_files (served_record_call l kind path h ts w)) =
         insert (served_key kind path h) (served_set l (sl_files w))"
    using c by (simp add: served_record_call_def h served_set_append served_record_key_def)
qed

lemma served_record_other:
  "k \<noteq> l \<Longrightarrow> served_set k (sl_files (served_record_call l kind path h ts w)) = served_set k (sl_files w)"
  using hydrated_frame [of l w]
  by (cases "hydrated l w") (simp add: served_record_call_def served_set_append)

lemma served_forget_ok: "ledger_ok w \<Longrightarrow> ledger_ok (served_forget l w)"
  by (simp add: served_forget_def ledger_ok_def map_of_filter_neq)

lemma served_set_reset: "served_set l (sl_files (served_reset l w)) = {}"
  by (auto simp: served_reset_def served_set_def served_store_read_def read_tolerant_def dir_of_def empty_dir_def
      put_dir_def split: option.splits)

lemma served_set_reset_other: "k \<noteq> l \<Longrightarrow> served_set k (sl_files (served_reset l w)) = served_set k (sl_files w)"
  by (auto simp: served_reset_def served_set_def served_store_read_def split: option.splits)

lemma served_reset_ok: "ledger_ok w \<Longrightarrow> ledger_ok (served_reset l w)"
  unfolding ledger_ok_def using served_set_reset_other [of _ l w]
  by (auto simp: served_reset_def map_of_filter_neq split: if_splits)

end
