(* ===== verification/Lifecycle.thy ===== *)
theory Lifecycle
  imports Event_Store
begin

section \<open>The ambient lifecycle\<close>

text \<open>
  \<^verbatim>\<open>observer/lifecycle_state.py\<close>, \<^verbatim>\<open>observer/save_gate.py\<close> and \<^verbatim>\<open>observer/ambient.py\<close>: the one lifecycle a session
  holds, the signals that move it, the events they emit, and the sweep over dormant logs. Every signal runs
  under the object's lock, so it is one program over the ambient state. The clock and the id factory are
  sequences the state reads from (\<open>amb_reads\<close>, \<open>amb_minted\<close> count the reads); the ticker thread is the flag
  \<open>amb_ticking\<close> together with \<open>heartbeat_tick\<close>. Disk errors of the event log are not modelled.
\<close>

datatype lc_state = Running | Paused | Blocked | AwaitingDeveloper | Completed | Abandoned

fun lc_state_str :: "lc_state \<Rightarrow> string" where
  "lc_state_str Running = ''running''"
| "lc_state_str Paused = ''paused''"
| "lc_state_str Blocked = ''blocked''"
| "lc_state_str AwaitingDeveloper = ''awaiting-developer''"
| "lc_state_str Completed = ''completed''"
| "lc_state_str Abandoned = ''abandoned''"

datatype phase = PRequest | PTrustCheckpoint | PReframeResearch | PDecide | PBuild | PClose

fun phase_str :: "phase \<Rightarrow> string" where
  "phase_str PRequest = ''request''"
| "phase_str PTrustCheckpoint = ''trust-checkpoint''"
| "phase_str PReframeResearch = ''reframe-research''"
| "phase_str PDecide = ''decide''"
| "phase_str PBuild = ''build''"
| "phase_str PClose = ''close''"

definition LIVE_STATES :: "lc_state list" where
  "LIVE_STATES = [Running, Paused, Blocked, AwaitingDeveloper]"

definition TERMINAL_STATES :: "lc_state list" where
  "TERMINAL_STATES = [Completed, Abandoned]"

definition PHASES :: "phase list" where
  "PHASES = [PRequest, PTrustCheckpoint, PReframeResearch, PDecide, PBuild, PClose]"

definition coerce_end_outcome :: "string option \<Rightarrow> lc_state" where
  "coerce_end_outcome value =
     (case find (\<lambda>st. Some (lc_state_str st) = value) TERMINAL_STATES of Some st \<Rightarrow> st | None \<Rightarrow> Abandoned)"

definition coerce_phase :: "string \<Rightarrow> phase res" where
  "coerce_phase value =
     (case find (\<lambda>ph. phase_str ph = value) PHASES of Some ph \<Rightarrow> Inr ph | None \<Rightarrow> Inl (LifecycleError ''unknown phase''))"

record lifecycle_state =
  lc_id :: string
  lc_state :: lc_state
  lc_phase :: phase
  lc_fleeting :: bool
  lc_started_at :: string
  lc_enclosure :: "string option"
  lc_repo_id :: "string option"
  lc_scope :: "string option"

definition is_terminal :: "lifecycle_state \<Rightarrow> bool" where
  "is_terminal c \<longleftrightarrow> lc_state c \<in> set TERMINAL_STATES"

datatype save_decision = Save | Discard

definition coerce_save_decision :: "string \<Rightarrow> save_decision res" where
  "coerce_save_decision value =
     (if value = ''save'' then Inr Save else if value = ''discard'' then Inr Discard
      else Inl (LifecycleError ''unknown save decision''))"

definition compute_scope :: "string option \<Rightarrow> bool \<Rightarrow> string" where
  "compute_scope repo_id cross_repo =
     (if cross_repo then ''1_cross-repo'' else if truthy repo_id then the repo_id else ''0_unscoped'')"

record ambient_env =
  env_codec :: iso_codec
  env_clock :: "nat \<Rightarrow> clock"
  env_mint :: "nat \<Rightarrow> string"
  env_ttl_seconds :: seconds
  env_inactivity_cutoff_seconds :: seconds

record ambient =
  amb_current :: "lifecycle_state option"
  amb_last_activity :: "string option"
  amb_ticking :: bool
  amb_served :: "(string, string set) dict"
  amb_files :: observer_files
  amb_reads :: nat
  amb_minted :: nat

definition amb_now :: "ambient_env \<Rightarrow> (ambient, string) prog" where
  "amb_now env a = (Inr (isoformat (env_codec env) (utc (env_clock env (amb_reads a)))), a\<lparr>amb_reads := amb_reads a + 1\<rparr>)"

definition amb_mint :: "ambient_env \<Rightarrow> (ambient, string) prog" where
  "amb_mint env a = (Inr (env_mint env (amb_minted a)), a\<lparr>amb_minted := amb_minted a + 1\<rparr>)"

definition build_ask :: "string option \<Rightarrow> string option \<Rightarrow> string list option \<Rightarrow> (string \<times> json) list option" where
  "build_ask kind prompt options =
     (let ask = (case kind of None \<Rightarrow> [] | Some k \<Rightarrow> [(''kind'', JStr k)]) @
                (case prompt of None \<Rightarrow> [] | Some q \<Rightarrow> [(''prompt'', JStr q)]) @
                (case options of None \<Rightarrow> [] | Some xs \<Rightarrow> [(''options'', JList (map JStr xs))])
      in if ask = [] then None else Some ask)"

text \<open>\<^verbatim>\<open>_emit_locked\<close>: nothing without a current lifecycle; every other event is tagged with it.\<close>

definition emit_locked ::
  "ambient_env \<Rightarrow> string \<Rightarrow> trust \<Rightarrow> actor \<Rightarrow> (string \<times> json) list \<Rightarrow> (ambient, unit) prog" where
  "emit_locked env kind tr ac data =
     sbind (sget (\<lambda>a. Inr (amb_current a))) (\<lambda>cur.
       case cur of
         None \<Rightarrow> sret ()
       | Some current \<Rightarrow>
           sbind (amb_now env) (\<lambda>ts.
           sbind (if kind \<noteq> HEARTBEAT_KIND then smodify (\<lambda>a. a\<lparr>amb_last_activity := Some ts\<rparr>) else sret ()) (\<lambda>_.
           sbind (amb_mint env) (\<lambda>eid.
             smodify (\<lambda>a. a\<lparr>amb_files := event_append
               \<lparr>e_schema = OBSERVER_EVENT_SCHEMA, e_id = eid, e_ts = ts, e_kind = kind, e_trust = tr, e_actor = ac,
                e_data = data, e_lifecycleId = Some (lc_id current), e_enclosure = lc_enclosure current,
                e_repoId = lc_repo_id current, e_sessionId = None, e_spanId = None\<rparr> (amb_files a)\<rparr>)))))"

definition start_ticker :: "(ambient, unit) prog" where
  "start_ticker = smodify (\<lambda>a. a\<lparr>amb_ticking := True\<rparr>)"

definition stop_ticker :: "(ambient, unit) prog" where
  "stop_ticker = smodify (\<lambda>a. a\<lparr>amb_ticking := False\<rparr>)"

definition set_current :: "lifecycle_state option \<Rightarrow> (ambient, unit) prog" where
  "set_current c = smodify (\<lambda>a. a\<lparr>amb_current := c\<rparr>)"

definition forget_served :: "string \<Rightarrow> (ambient, unit) prog" where
  "forget_served l = smodify (\<lambda>a. a\<lparr>amb_served := filter (\<lambda>kv. fst kv \<noteq> l) (amb_served a)\<rparr>)"

definition require_active :: "(ambient, lifecycle_state) prog" where
  "require_active =
     sget (\<lambda>a. case amb_current a of None \<Rightarrow> Inl (LifecycleError ''no active lifecycle'') | Some c \<Rightarrow> Inr c)"

text \<open>The dormancy sweep. The order in which directories are visited does not matter: each decision is its own.\<close>

definition is_dormant_fleeting :: "ambient_env \<Rightarrow> observer_files \<Rightarrow> clock \<Rightarrow> string \<Rightarrow> bool" where
  "is_dormant_fleeting env fs now l =
     (case event_read (env_codec env) (Some l) fs of
        [] \<Rightarrow> False
      | started # rest \<Rightarrow>
          e_kind started = ''lifecycle.started'' \<and> dget (e_data started) ''fleeting'' = Some (JBool True) \<and>
          \<not> (\<exists>ev\<in>set (started # rest). e_kind ev = ''lifecycle.promoted'') \<and>
          (case age_seconds (env_codec env) (e_ts (last (started # rest))) now of
             None \<Rightarrow> False
           | Some age \<Rightarrow> env_ttl_seconds env < age))"

definition stale_fleeting :: "ambient_env \<Rightarrow> ambient \<Rightarrow> string list" where
  "stale_fleeting env a =
     filter (\<lambda>l. Some l \<noteq> map_option lc_id (amb_current a) \<and>
                 is_dormant_fleeting env (amb_files a) (env_clock env (amb_reads a)) l)
       (map fst (of_lifecycles (amb_files a)))"

definition reap_stale_fleeting :: "ambient_env \<Rightarrow> (ambient, string list) prog" where
  "reap_stale_fleeting env a =
     (if of_lifecycles (amb_files a) = [] then (Inr [], a)
      else let pruned = stale_fleeting env a
           in (Inr pruned,
               a\<lparr>amb_reads := amb_reads a + 1,
                 amb_files := (amb_files a)\<lparr>of_lifecycles :=
                   filter (\<lambda>kv. fst kv \<notin> set pruned) (of_lifecycles (amb_files a))\<rparr>\<rparr>))"

subsection \<open>Signals\<close>

definition fresh_lifecycle :: "ambient_env \<Rightarrow> bool \<Rightarrow> phase \<Rightarrow> (ambient, lifecycle_state) prog" where
  "fresh_lifecycle env fleeting ph =
     sbind (amb_mint env) (\<lambda>l.
     sbind (amb_now env) (\<lambda>ts.
     let current = \<lparr>lc_id = l, lc_state = Running, lc_phase = ph, lc_fleeting = fleeting, lc_started_at = ts,
                    lc_enclosure = None, lc_repo_id = None, lc_scope = None\<rparr>
     in sbind (set_current (Some current)) (\<lambda>_.
        sbind (emit_locked env ''lifecycle.started'' Declared ActorModel
                 [(''phase'', JStr (phase_str ph)), (''fleeting'', JBool fleeting)]) (\<lambda>_.
        sbind start_ticker (\<lambda>_. sret current)))))"

definition amb_start :: "ambient_env \<Rightarrow> bool \<Rightarrow> phase \<Rightarrow> (ambient, lifecycle_state) prog" where
  "amb_start env fleeting ph =
     sbind (sget (\<lambda>a. case amb_current a of Some c \<Rightarrow> Inl (GuardedStartError (lc_id c)) | None \<Rightarrow> Inr ())) (\<lambda>_.
     sbind (fresh_lifecycle env fleeting ph) (\<lambda>current.
     sbind (reap_stale_fleeting env) (\<lambda>_. sret current)))"

text \<open>The shape \<^verbatim>\<open>block\<close>, \<^verbatim>\<open>resume\<close>, \<^verbatim>\<open>await_developer\<close> and \<^verbatim>\<open>resume_from_await\<close> share.\<close>

definition move_state ::
  "ambient_env \<Rightarrow> lc_state \<Rightarrow> lc_state \<Rightarrow> string \<Rightarrow> string \<Rightarrow> (string \<times> json) list \<Rightarrow>
   (ambient, lifecycle_state) prog" where
  "move_state env from to refusal kind data =
     sbind require_active (\<lambda>current.
       if lc_state current \<noteq> from then slift (Inl (LifecycleError refusal))
       else let c = current\<lparr>lc_state := to\<rparr>
            in sbind (set_current (Some c)) (\<lambda>_.
               sbind (emit_locked env kind Declared ActorModel data) (\<lambda>_. sret c)))"

definition amb_block ::
  "ambient_env \<Rightarrow> string option \<Rightarrow> string option \<Rightarrow> string list option \<Rightarrow> (ambient, lifecycle_state) prog" where
  "amb_block env kind prompt options =
     move_state env Running Blocked ''only running blocks'' ''lifecycle.blocked''
       (case build_ask kind prompt options of None \<Rightarrow> [] | Some ask \<Rightarrow> [(''ask'', JObj ask)])"

definition amb_resume :: "ambient_env \<Rightarrow> (ambient, lifecycle_state) prog" where
  "amb_resume env = move_state env Blocked Running ''only blocked resumes'' ''lifecycle.resumed'' []"

definition amb_await_developer :: "ambient_env \<Rightarrow> string \<Rightarrow> (ambient, lifecycle_state) prog" where
  "amb_await_developer env summary =
     move_state env Running AwaitingDeveloper ''only running awaits'' ''lifecycle.awaiting-developer''
       [(''summary'', JStr summary)]"

definition amb_resume_from_await :: "ambient_env \<Rightarrow> (ambient, lifecycle_state) prog" where
  "amb_resume_from_await env =
     move_state env AwaitingDeveloper Running ''only awaiting-developer resumes this way'' ''lifecycle.resumed'' []"

definition release_current :: "string \<Rightarrow> (ambient, unit) prog" where
  "release_current l =
     sbind stop_ticker (\<lambda>_. sbind (forget_served l) (\<lambda>_. set_current None))"

definition amb_end :: "ambient_env \<Rightarrow> string \<Rightarrow> (ambient, lifecycle_state) prog" where
  "amb_end env outcome =
     (if outcome \<notin> set (map lc_state_str TERMINAL_STATES) then slift (Inl (LifecycleError ''end outcome''))
      else sbind require_active (\<lambda>current.
           sbind (emit_locked env ''lifecycle.ended'' Declared ActorModel [(''outcome'', JStr outcome)]) (\<lambda>_.
           sbind (release_current (lc_id current)) (\<lambda>_.
           sret (current\<lparr>lc_state := coerce_end_outcome (Some outcome)\<rparr>)))))"

definition amb_phase :: "ambient_env \<Rightarrow> phase \<Rightarrow> (ambient, lifecycle_state) prog" where
  "amb_phase env ph =
     sbind require_active (\<lambda>current.
     let c = current\<lparr>lc_phase := ph\<rparr>
     in sbind (set_current (Some c)) (\<lambda>_.
        sbind (emit_locked env ''lifecycle.phase-changed'' Declared ActorModel [(''phase'', JStr (phase_str ph))]) (\<lambda>_.
        sret c)))"

definition pause_locked :: "ambient_env \<Rightarrow> string \<Rightarrow> (ambient, unit) prog" where
  "pause_locked env cause =
     sbind (emit_locked env ''lifecycle.paused'' Observed ActorSystem [(''cause'', JStr cause)]) (\<lambda>_.
     sbind stop_ticker (\<lambda>_.
     sbind (sget (\<lambda>a. Inr (amb_current a))) (\<lambda>cur.
     sbind (case cur of None \<Rightarrow> sret () | Some c \<Rightarrow> forget_served (lc_id c)) (\<lambda>_.
     set_current None))))"

definition promote_to_landing_zone :: "ambient_env \<Rightarrow> (ambient, unit) prog" where
  "promote_to_landing_zone env =
     sbind (sget (\<lambda>a. Inr (amb_current a))) (\<lambda>cur.
       case cur of
         None \<Rightarrow> sret ()
       | Some current \<Rightarrow>
           let scope = compute_scope (lc_repo_id current) False
           in sbind (set_current (Some (current\<lparr>lc_fleeting := False, lc_scope := Some scope\<rparr>))) (\<lambda>_.
              emit_locked env ''lifecycle.promoted'' Observed ActorSystem [(''scope'', JStr scope)]))"

definition leave_current :: "ambient_env \<Rightarrow> save_decision option \<Rightarrow> (ambient, unit) prog" where
  "leave_current env decision =
     sbind (sget (\<lambda>a. Inr (amb_current a))) (\<lambda>cur.
       case cur of
         None \<Rightarrow> sret ()
       | Some current \<Rightarrow>
           if \<not> lc_fleeting current then pause_locked env ''switched-away''
           else case decision of
                  None \<Rightarrow> slift (Inl (SaveGateRequired (lc_id current)))
                | Some Save \<Rightarrow> sbind (promote_to_landing_zone env) (\<lambda>_. pause_locked env ''switched-away'')
                | Some Discard \<Rightarrow>
                    sbind (emit_locked env ''lifecycle.ended'' Declared ActorModel [(''outcome'', JStr ''abandoned'')]) (\<lambda>_.
                    release_current (lc_id current)))"

definition amb_switch :: "ambient_env \<Rightarrow> save_decision option \<Rightarrow> bool \<Rightarrow> phase \<Rightarrow> (ambient, lifecycle_state) prog" where
  "amb_switch env on_unsaved fleeting ph =
     sbind (leave_current env on_unsaved) (\<lambda>_.
     sbind (fresh_lifecycle env fleeting ph) (\<lambda>current.
     sbind (reap_stale_fleeting env) (\<lambda>_. sret current)))"

definition amb_promote :: "ambient_env \<Rightarrow> string \<Rightarrow> string option \<Rightarrow> string \<Rightarrow> (ambient, lifecycle_state) prog" where
  "amb_promote env enclosure repo_id scope =
     sbind require_active (\<lambda>current.
     let c = current\<lparr>lc_fleeting := False, lc_enclosure := Some enclosure, lc_repo_id := repo_id,
                     lc_scope := Some scope\<rparr>
     in sbind (set_current (Some c)) (\<lambda>_.
        sbind (emit_locked env ''lifecycle.promoted'' Observed ActorSystem [(''scope'', JStr scope)]) (\<lambda>_. sret c)))"

definition attach_other ::
  "ambient_env \<Rightarrow> string \<Rightarrow> string \<Rightarrow> string option \<Rightarrow> save_decision option \<Rightarrow> phase \<Rightarrow> (ambient, lifecycle_state) prog" where
  "attach_other env lifecycle_id enclosure repo_id on_unsaved ph =
     sbind (leave_current env on_unsaved) (\<lambda>_.
     sbind (amb_now env) (\<lambda>ts.
     let adopted = \<lparr>lc_id = lifecycle_id, lc_state = Running, lc_phase = ph, lc_fleeting = False,
                    lc_started_at = ts, lc_enclosure = Some enclosure, lc_repo_id = repo_id,
                    lc_scope = Some (compute_scope repo_id False)\<rparr>
     in sbind (set_current (Some adopted)) (\<lambda>_.
        sbind (emit_locked env ''lifecycle.resumed'' Observed ActorSystem [(''cause'', JStr ''adopted'')]) (\<lambda>_.
        sbind start_ticker (\<lambda>_.
        sbind (reap_stale_fleeting env) (\<lambda>_. sret adopted))))))"

definition amb_attach ::
  "ambient_env \<Rightarrow> string \<Rightarrow> string \<Rightarrow> string option \<Rightarrow> save_decision option \<Rightarrow> phase \<Rightarrow> (ambient, lifecycle_state) prog" where
  "amb_attach env lifecycle_id enclosure repo_id on_unsaved ph =
     sbind (sget (\<lambda>a. Inr (amb_current a))) (\<lambda>cur.
       case cur of
         Some current \<Rightarrow>
           if lc_id current = lifecycle_id then sret current
           else attach_other env lifecycle_id enclosure repo_id on_unsaved ph
       | None \<Rightarrow> attach_other env lifecycle_id enclosure repo_id on_unsaved ph)"

definition payload_field :: "(string \<times> json) list \<Rightarrow> string \<Rightarrow> json" where
  "payload_field payload k = (case dget payload k of None \<Rightarrow> JNull | Some v \<Rightarrow> v)"

definition emit_tool :: "ambient_env \<Rightarrow> string \<Rightarrow> (string \<times> json) list \<Rightarrow> (ambient, unit) prog" where
  "emit_tool env tool_name payload =
     emit_locked env ''tool.completed'' Observed ActorModel
       [(''tool'', JStr tool_name), (''tokens'', payload_field payload ''tokens''), (''ok'', payload_field payload ''ok'')]"

definition READ_PACKET_FACTS :: "string list" where
  "READ_PACKET_FACTS = [''path'', ''lines'', ''status'', ''bytes'']"

definition project_facts :: "(string \<times> json) list \<Rightarrow> (string \<times> json) list" where
  "project_facts entry =
     concat (map (\<lambda>k. case dget entry k of None \<Rightarrow> [] | Some v \<Rightarrow> [(k, v)]) READ_PACKET_FACTS)"

definition emit_read_packet :: "ambient_env \<Rightarrow> string \<Rightarrow> (string \<times> json) list list \<Rightarrow> (ambient, unit) prog" where
  "emit_read_packet env repo_id files =
     emit_locked env ''read.packet'' Observed ActorModel
       [(''repoId'', JStr repo_id), (''files'', JList (map (\<lambda>f. JObj (project_facts f)) files))]"

definition amb_shutdown :: "(ambient, unit) prog" where
  "amb_shutdown = stop_ticker"

definition inactive_seconds :: "ambient_env \<Rightarrow> (ambient, seconds) prog" where
  "inactive_seconds env a =
     (case amb_last_activity a of
        None \<Rightarrow> (Inr 0, a)
      | Some stamp \<Rightarrow>
          (Inr (case age_seconds (env_codec env) stamp (env_clock env (amb_reads a)) of None \<Rightarrow> 0 | Some age \<Rightarrow> age),
           a\<lparr>amb_reads := amb_reads a + 1\<rparr>))"

definition heartbeat_tick :: "ambient_env \<Rightarrow> (ambient, bool) prog" where
  "heartbeat_tick env =
     sbind (sget (\<lambda>a. Inr (amb_current a))) (\<lambda>cur.
       case cur of
         None \<Rightarrow> sret False
       | Some current \<Rightarrow>
           if is_terminal current then sret False
           else sbind (inactive_seconds env) (\<lambda>idle.
                if env_inactivity_cutoff_seconds env < idle then sret True
                else sbind (emit_locked env HEARTBEAT_KIND Observed ActorSystem
                       [(''state'', JStr (lc_state_str (lc_state current))),
                        (''phase'', JStr (phase_str (lc_phase current)))]) (\<lambda>_. sret True)))"

subsection \<open>What one emission changes\<close>

lemma sbind_amb_now [simp]:
  "sbind (amb_now env) f a =
   f (isoformat (env_codec env) (utc (env_clock env (amb_reads a)))) (a\<lparr>amb_reads := amb_reads a + 1\<rparr>)"
  by (simp add: sbind_def amb_now_def)

lemma sbind_amb_mint [simp]:
  "sbind (amb_mint env) f a = f (env_mint env (amb_minted a)) (a\<lparr>amb_minted := amb_minted a + 1\<rparr>)"
  by (simp add: sbind_def amb_mint_def)

definition emitted ::
  "ambient_env \<Rightarrow> string \<Rightarrow> trust \<Rightarrow> actor \<Rightarrow> (string \<times> json) list \<Rightarrow> ambient \<Rightarrow> ambient" where
  "emitted env kind tr ac data a = snd (emit_locked env kind tr ac data a)"

lemma emit_run: "emit_locked env kind tr ac data a = (Inr (), emitted env kind tr ac data a)"
  by (cases "amb_current a")
    (simp_all add: emitted_def emit_locked_def sbind_sget sbind_if sret_def smodify_def)

lemma sbind_emit [simp]: "sbind (emit_locked env kind tr ac data) f a = f () (emitted env kind tr ac data a)"
  by (simp add: sbind_def emit_run)

lemma emitted_frame [simp]:
  "amb_current (emitted env kind tr ac data a) = amb_current a"
  "amb_ticking (emitted env kind tr ac data a) = amb_ticking a"
  "amb_served (emitted env kind tr ac data a) = amb_served a"
  by (cases "amb_current a";
      simp add: emitted_def emit_locked_def sbind_sget sbind_if sret_def smodify_def)+

lemma emitted_files:
  "amb_current a = Some c \<Longrightarrow> \<exists>ev. amb_files (emitted env kind tr ac data a) = event_append ev (amb_files a) \<and>
     e_kind ev = kind \<and> e_data ev = data \<and> e_lifecycleId ev = Some (lc_id c) \<and> e_trust ev = tr \<and> e_actor ev = ac"
  by (simp add: emitted_def emit_locked_def sbind_sget sbind_if sret_def smodify_def) auto

lemma emitted_idle [simp]: "amb_current a = None \<Longrightarrow> emitted env kind tr ac data a = a"
  by (simp add: emitted_def emit_locked_def sbind_sget sret_def)

lemma sbind_set_current [simp]: "sbind (set_current c) f a = f () (a\<lparr>amb_current := c\<rparr>)"
  by (simp add: set_current_def)

lemma sbind_tickers [simp]:
  "sbind start_ticker f a = f () (a\<lparr>amb_ticking := True\<rparr>)" "sbind stop_ticker f a = f () (a\<lparr>amb_ticking := False\<rparr>)"
  by (simp_all add: start_ticker_def stop_ticker_def)

lemma sbind_forget [simp]:
  "sbind (forget_served l) f a = f () (a\<lparr>amb_served := filter (\<lambda>kv. fst kv \<noteq> l) (amb_served a)\<rparr>)"
  by (simp add: forget_served_def)

lemma sbind_require_active:
  "sbind require_active f a =
   (case amb_current a of None \<Rightarrow> (Inl (LifecycleError ''no active lifecycle''), a) | Some c \<Rightarrow> f c a)"
  by (simp add: require_active_def sbind_sget split: option.splits)

lemma release_run: "release_current l a =
  (Inr (), a\<lparr>amb_ticking := False, amb_served := filter (\<lambda>kv. fst kv \<noteq> l) (amb_served a), amb_current := None\<rparr>)"
  by (simp add: release_current_def set_current_def smodify_def)

lemma sbind_release [simp]: "sbind (release_current l) f a =
  f () (a\<lparr>amb_ticking := False, amb_served := filter (\<lambda>kv. fst kv \<noteq> l) (amb_served a), amb_current := None\<rparr>)"
  by (simp add: sbind_def release_run)

subsection \<open>The machine and its invariant\<close>

text \<open>
  A step is one call by the request thread or one beat of the ticker. The invariant: the held lifecycle is
  running, blocked or awaiting (never paused, never terminal); the ticker runs only while one is held; and
  every event in a lifecycle's log carries that lifecycle's id.
\<close>

inductive amb_step :: "ambient_env \<Rightarrow> ambient \<Rightarrow> ambient \<Rightarrow> bool" for env where
  step_start: "amb_step env a (snd (amb_start env fl ph a))"
| step_block: "amb_step env a (snd (amb_block env k q os a))"
| step_resume: "amb_step env a (snd (amb_resume env a))"
| step_await: "amb_step env a (snd (amb_await_developer env sm a))"
| step_resume_await: "amb_step env a (snd (amb_resume_from_await env a))"
| step_end: "amb_step env a (snd (amb_end env outcome a))"
| step_phase: "amb_step env a (snd (amb_phase env ph a))"
| step_switch: "amb_step env a (snd (amb_switch env d fl ph a))"
| step_promote: "amb_step env a (snd (amb_promote env enc rep sc a))"
| step_attach: "amb_step env a (snd (amb_attach env l enc rep d ph a))"
| step_tool: "amb_step env a (snd (emit_tool env tn pl a))"
| step_packet: "amb_step env a (snd (emit_read_packet env rep files a))"
| step_shutdown: "amb_step env a (snd (amb_shutdown a))"
| step_beat: "amb_ticking a \<Longrightarrow> amb_step env a (snd (heartbeat_tick env a))"

inductive_cases amb_stepE: "amb_step env a a'"

definition attributed :: "observer_files \<Rightarrow> bool" where
  "attributed fs \<longleftrightarrow> (\<forall>l. l \<noteq> '''' \<longrightarrow> (\<forall>ev\<in>set (read_log (Some l) fs). e_lifecycleId ev = Some l))"

definition held_states :: "lc_state set" where
  "held_states = {Running, Blocked, AwaitingDeveloper}"

definition amb_inv :: "ambient \<Rightarrow> bool" where
  "amb_inv a \<longleftrightarrow>
     (\<forall>c. amb_current a = Some c \<longrightarrow> lc_state c \<in> held_states) \<and>
     (amb_ticking a \<longrightarrow> amb_current a \<noteq> None) \<and> attributed (amb_files a)"

lemma read_log_append:
  "read_log (Some l) (event_append ev fs) =
   (if l \<noteq> '''' \<and> e_lifecycleId ev = Some l \<and> e_kind ev \<noteq> HEARTBEAT_KIND then read_log (Some l) fs @ [ev]
    else if l = '''' \<and> \<not> truthy (e_lifecycleId ev) then read_log (Some l) fs @ [ev]
    else read_log (Some l) fs)"
  by (cases "e_lifecycleId ev")
    (auto simp: read_log_def event_append_def Let_def read_tolerant_def append_line_def tolerant_lines_append any_event_def)

lemma attributed_append: "attributed fs \<Longrightarrow> attributed (event_append ev fs)"
  by (auto simp: attributed_def read_log_append)

lemma attributed_emitted [simp]: "attributed (amb_files a) \<Longrightarrow> attributed (amb_files (emitted env k t ac d a))"
  using emitted_files [of a _ env k t ac d] attributed_append by (cases "amb_current a") auto

lemma dir_of_filter:
  "dir_of l (fs\<lparr>of_lifecycles := filter (\<lambda>kv. fst kv \<notin> S) (of_lifecycles fs)\<rparr>) =
   (if l \<in> S then empty_dir else dir_of l fs)"
proof -
  have "map_of (filter (\<lambda>kv. fst kv \<notin> S) d) l = (if l \<in> S then None else map_of d l)" for d :: "(string, lifecycle_dir) dict"
    by (induction d) auto
  then show ?thesis by (simp add: dir_of_def)
qed

lemma attributed_filter:
  "attributed fs \<Longrightarrow> attributed (fs\<lparr>of_lifecycles := filter (\<lambda>kv. fst kv \<notin> S) (of_lifecycles fs)\<rparr>)"
  by (auto simp: attributed_def read_log_def dir_of_filter empty_dir_def read_tolerant_def)

lemma reap_frame:
  "amb_current (snd (reap_stale_fleeting env a)) = amb_current a"
  "amb_ticking (snd (reap_stale_fleeting env a)) = amb_ticking a"
  "attributed (amb_files a) \<Longrightarrow> attributed (amb_files (snd (reap_stale_fleeting env a)))"
  "\<exists>xs. fst (reap_stale_fleeting env a) = Inr xs"
  using attributed_filter [of "amb_files a"] by (simp_all add: reap_stale_fleeting_def Let_def)

lemma reap_inv: "amb_inv a \<Longrightarrow> amb_inv (snd (reap_stale_fleeting env a))"
  by (simp add: amb_inv_def reap_frame)

lemma sbind_reap: "sbind (reap_stale_fleeting env) (\<lambda>_. sret x) a = (Inr x, snd (reap_stale_fleeting env a))"
  using reap_frame(4) [of env a] by (cases "reap_stale_fleeting env a") (auto simp: sbind_def sret_def)

lemma fresh_lifecycle_inv:
  "amb_current a = None \<Longrightarrow> amb_inv a \<Longrightarrow>
   amb_inv (snd (fresh_lifecycle env fl ph a)) \<and> (\<exists>c. fst (fresh_lifecycle env fl ph a) = Inr c)"
  by (simp add: fresh_lifecycle_def Let_def amb_inv_def held_states_def sret_def)

lemma then_reap_inv:
  assumes "amb_inv (snd (m a))"
  shows "amb_inv (snd (sbind m (\<lambda>c. sbind (reap_stale_fleeting env) (\<lambda>_. sret c)) a))"
  using assms reap_inv by (cases "m a"; cases "fst (m a)") (auto simp: sbind_def [of m] sbind_reap)

lemma amb_start_inv: "amb_inv a \<Longrightarrow> amb_inv (snd (amb_start env fl ph a))"
  unfolding amb_start_def
  by (cases "amb_current a") (simp_all add: sbind_sget then_reap_inv fresh_lifecycle_inv)

lemma move_state_inv:
  "to \<in> held_states \<Longrightarrow> amb_inv a \<Longrightarrow> amb_inv (snd (move_state env from to why kind data a))"
  by (cases "amb_current a")
    (auto simp: move_state_def sbind_require_active Let_def amb_inv_def sret_def slift_def)

lemma pause_inv:
  "amb_inv a \<Longrightarrow> amb_inv (snd (pause_locked env why a)) \<and> amb_current (snd (pause_locked env why a)) = None \<and>
   fst (pause_locked env why a) = Inr ()"
  by (cases "amb_current a")
    (simp_all add: pause_locked_def sbind_sget set_current_def smodify_def amb_inv_def)

lemma promote_landing_inv:
  "amb_inv a \<Longrightarrow> amb_inv (snd (promote_to_landing_zone env a)) \<and> fst (promote_to_landing_zone env a) = Inr ()"
  by (cases "amb_current a")
    (simp_all add: promote_to_landing_zone_def sbind_sget Let_def sret_def emit_run amb_inv_def)

lemma leave_current_inv:
  assumes "amb_inv a"
  shows "amb_inv (snd (leave_current env d a)) \<and>
    (fst (leave_current env d a) = Inr () \<longrightarrow> amb_current (snd (leave_current env d a)) = None)"
proof (cases "amb_current a")
  case None
  with assms show ?thesis by (simp add: leave_current_def sbind_sget sret_def)
next
  case (Some c)
  show ?thesis
  proof (cases "lc_fleeting c")
    case False
    with assms Some pause_inv [OF assms, of env] show ?thesis by (simp add: leave_current_def sbind_sget)
  next
    case True
    show ?thesis
    proof (cases d)
      case None
      with True Some assms show ?thesis by (simp add: leave_current_def sbind_sget slift_def)
    next
      case d: (Some dec)
      obtain b where b: "promote_to_landing_zone env a = (Inr (), b)" "amb_inv b"
        using promote_landing_inv [OF assms, of env] by (cases "promote_to_landing_zone env a") auto
      show ?thesis
      proof (cases dec)
        case Save
        with True Some d b pause_inv [OF b(2), of env] show ?thesis by (simp add: leave_current_def sbind_sget sbind_Inr)
      next
        case Discard
        with True Some d assms show ?thesis by (simp add: leave_current_def sbind_sget release_run amb_inv_def)
      qed
    qed
  qed
qed

lemma amb_switch_inv:
  assumes "amb_inv a"
  shows "amb_inv (snd (amb_switch env d fl ph a))"
proof (cases "leave_current env d a")
  case (Pair r b)
  with leave_current_inv [OF assms, of env d] have b: "amb_inv b" "r = Inr () \<longrightarrow> amb_current b = None" by auto
  then show ?thesis
    by (cases r) (auto simp: amb_switch_def sbind_def [of "leave_current env d"] Pair
        intro!: then_reap_inv dest: fresh_lifecycle_inv)
qed

lemma attach_other_inv:
  assumes "amb_inv a"
  shows "amb_inv (snd (attach_other env l enc rep d ph a))"
proof (cases "leave_current env d a")
  case (Pair r b)
  with leave_current_inv [OF assms, of env d] have b: "amb_inv b" "r = Inr () \<longrightarrow> amb_current b = None" by auto
  then show ?thesis
    by (cases r) (auto simp: attach_other_def sbind_def [of "leave_current env d"] Pair Let_def sbind_reap
        intro!: reap_inv, simp_all add: amb_inv_def held_states_def)
qed

lemma amb_attach_inv: "amb_inv a \<Longrightarrow> amb_inv (snd (amb_attach env l enc rep d ph a))"
  by (cases "amb_current a") (simp_all add: amb_attach_def sbind_sget attach_other_inv sret_def)

lemma current_state_inv: "amb_inv a \<Longrightarrow> amb_current a = Some c \<Longrightarrow> lc_state c \<in> held_states"
  by (simp add: amb_inv_def)

lemma amb_end_inv: "amb_inv a \<Longrightarrow> amb_inv (snd (amb_end env outcome a))"
  by (cases "amb_current a") (simp_all add: amb_end_def sbind_require_active slift_def sret_def amb_inv_def)

lemma amb_phase_inv: "amb_inv a \<Longrightarrow> amb_inv (snd (amb_phase env ph a))"
  by (cases "amb_current a") (simp_all add: amb_phase_def sbind_require_active Let_def sret_def amb_inv_def)

lemma amb_promote_inv: "amb_inv a \<Longrightarrow> amb_inv (snd (amb_promote env enc rep sc a))"
  by (cases "amb_current a") (simp_all add: amb_promote_def sbind_require_active Let_def sret_def amb_inv_def)

lemma emitted_inv: "amb_inv a \<Longrightarrow> amb_inv (emitted env k t ac d a)"
  by (simp add: amb_inv_def)

lemma heartbeat_inv: "amb_inv a \<Longrightarrow> amb_inv (snd (heartbeat_tick env a))"
  by (cases "amb_current a"; cases "amb_last_activity a")
    (auto simp: heartbeat_tick_def sbind_sget inactive_seconds_def sbind_def [of "inactive_seconds env"] sret_def amb_inv_def)

lemma amb_step_inv: "amb_step env a a' \<Longrightarrow> amb_inv a \<Longrightarrow> amb_inv a'"
  by (erule amb_stepE)
    (simp_all add: amb_start_inv amb_block_def amb_resume_def amb_await_developer_def amb_resume_from_await_def
      move_state_inv held_states_def amb_end_inv amb_phase_inv amb_switch_inv amb_promote_inv amb_attach_inv
      emit_tool_def emit_read_packet_def emit_run emitted_inv amb_shutdown_def stop_ticker_def smodify_def heartbeat_inv,
     simp add: amb_inv_def)

interpretation ambient_machine: step_invariant "amb_step env" amb_inv for env
  by unfold_locales (rule amb_step_inv)

end
