(* ===== verification/Gate_Tools.thy ===== *)
theory Gate_Tools
  imports Gate_Authority Gate_Decisions Inbox_Transitions Lifecycle
begin

section \<open>The gate tools\<close>

text \<open>
  \<^verbatim>\<open>application/gate_tools.py\<close>: the use cases behind the MCP gate tools, over the three control-plane stores
  and the ambient lifecycle (\<open>None\<close> where no server process installed one). Fresh identifiers and clock
  readings are arguments. A blocking wait looks at the stores again and again while other processes write
  them: it is a recursion over the list of looks, each the stores as found and the monotonic clock as read;
  the value \<open>None\<close> means that the looks of the list did not end the wait. The settings file behind
  \<^verbatim>\<open>_expectation_sla_seconds\<close> is the configuration field \<open>tc_sla\<close>. Response dictionaries are records.
\<close>

record tool_config =
  tc_observer_root :: path
  tc_gate_policy :: gate_policy
  tc_coordination_root :: "path option"
  tc_sla :: "expectation_kind \<Rightarrow> seconds"

record tool_state =
  ts_control :: control_state
  ts_ambient :: "ambient option"

abbreviation on_control :: "(control_state, 'a) prog \<Rightarrow> (tool_state, 'a) prog" where
  "on_control \<equiv> zoom ts_control (\<lambda>c t. t\<lparr>ts_control := c\<rparr>)"

record gate_wait =
  w_block :: bool
  w_timeout_seconds :: "seconds option"
  w_poll_seconds :: seconds

record inbox_watch =
  iw_agent_id :: "string option"
  iw_allow_ungated_entries :: bool

record gate_raise =
  gr_kind :: string
  gr_anchor :: "gate_anchor option"
  gr_request :: "gate_request option"
  gr_ask :: "(string \<times> json) list option"

definition BLOCKING_GATE_WAIT :: gate_wait where
  "BLOCKING_GATE_WAIT =
     \<lparr>w_block = True, w_timeout_seconds = None, w_poll_seconds = GATE_RESPONSE_WAIT_POLL_SECONDS\<rparr>"

definition SHORT_GATE_WAIT :: gate_wait where
  "SHORT_GATE_WAIT = \<lparr>w_block = True, w_timeout_seconds = Some 30, w_poll_seconds = 1\<rparr>"

definition DEFAULT_GATE_WAIT :: gate_wait where
  "DEFAULT_GATE_WAIT =
     \<lparr>w_block = True, w_timeout_seconds = Some GATE_RESPONSE_WAIT_TIMEOUT_SECONDS,
      w_poll_seconds = GATE_RESPONSE_WAIT_POLL_SECONDS\<rparr>"

definition ANY_INBOX_ENTRY :: inbox_watch where
  "ANY_INBOX_ENTRY = \<lparr>iw_agent_id = None, iw_allow_ungated_entries = True\<rparr>"

definition ambient_current :: "tool_state \<Rightarrow> lifecycle_state option" where
  "ambient_current t = (case ts_ambient t of None \<Rightarrow> None | Some a \<Rightarrow> amb_current a)"

definition write_verdict_by_row ::
  "iso_codec \<Rightarrow> process \<Rightarrow> tool_config \<Rightarrow> string \<Rightarrow> clock \<Rightarrow> gate_record \<Rightarrow> (control_state, unit) prog" where
  "write_verdict_by_row c p cfg row_id now gate =
     (if tc_coordination_root cfg = None then sret ()
      else sbind (on_rows (write_expectation_row c p (tc_observer_root cfg)
             \<lparr>xp_kind = VerdictBy, xp_source_id = g_id gate,
              xp_subject = \<lparr>xs_agent_id = None, xs_lifecycle_id = g_lifecycleId gate,
                            xs_task_document_ref = None, xs_seat_role = None\<rparr>,
              xp_note = Some (''verdict-by: '' @ gate_kind_str (g_kind gate) @ '' gate '' @ g_id gate)\<rparr>
             row_id now (tc_sla cfg VerdictBy))) (\<lambda>_. sret ()))"

definition resolve_gate_lifecycle_id :: "lifecycle_state option \<Rightarrow> string option \<Rightarrow> string res" where
  "resolve_gate_lifecycle_id current lifecycle_id =
     (case lifecycle_id of
        Some l \<Rightarrow> if strip l \<noteq> '''' then Inr l else Inl (ValueError ''lifecycle_id must be non-empty'')
      | None \<Rightarrow>
          (case current of
             None \<Rightarrow> Inl (LifecycleError ''gate_create requires an active lifecycle'')
           | Some c \<Rightarrow> Inr (lc_id c)))"

definition resolve_deciding_actor ::
  "lifecycle_state option \<Rightarrow> string option \<Rightarrow> decided_via \<Rightarrow> string res" where
  "resolve_deciding_actor current decided_by decided_via =
     (if decided_via \<noteq> ViaOrchestration
      then (case decided_by of
              None \<Rightarrow> Inl (ValueError ''gate decision actor must be non-empty'')
            | Some by \<Rightarrow> if strip by = '''' then Inl (ValueError ''gate decision actor must be non-empty'') else Inr by)
      else if decided_by \<noteq> None \<and> strip (the decided_by) \<noteq> '''' then Inr (the decided_by)
      else (case current of
              None \<Rightarrow> Inl (LifecycleError ''orchestration gate decisions require an active deciding lifecycle'')
            | Some c \<Rightarrow> Inr (lc_id c)))"

text \<open>The expire sweep before a raise: every open gate of the lifecycle gets an expired snapshot.\<close>

fun expire_all :: "process \<Rightarrow> path \<Rightarrow> string \<Rightarrow> gate_record list \<Rightarrow> (gate_logs, unit) prog" where
  "expire_all p obs_root now [] = sret ()"
| "expire_all p obs_root now (g # gs) =
     (if g_state g = Open
      then sbind (gate_append p obs_root (expire_gate g now)) (\<lambda>_. expire_all p obs_root now gs)
      else expire_all p obs_root now gs)"

definition expire_open_gates :: "process \<Rightarrow> path \<Rightarrow> string \<Rightarrow> string \<Rightarrow> (gate_logs, unit) prog" where
  "expire_open_gates p obs_root now lifecycle_id =
     sbind (sget (gate_current (Some lifecycle_id))) (\<lambda>d. expire_all p obs_root now (dvalues d))"

text \<open>The fresh values one raise draws: the gate's stamp and id, the row's id and its clock reading.\<close>

record raise_draws =
  rd_now :: string
  rd_gate_id :: string
  rd_row_id :: string
  rd_row_now :: clock

definition open_gate ::
  "iso_codec \<Rightarrow> process \<Rightarrow> tool_config \<Rightarrow> raise_draws \<Rightarrow> gate_kind res \<Rightarrow> gate_anchor \<Rightarrow> string \<Rightarrow>
   gate_request option \<Rightarrow> (control_state, gate_record) prog" where
  "open_gate c p cfg dr kind anchor lifecycle_id request =
     sbind (on_gates (expire_open_gates p (tc_observer_root cfg) (rd_now dr) lifecycle_id)) (\<lambda>_.
     sbind (slift (rbind kind (\<lambda>k. create_gate k (rd_gate_id dr) (rd_now dr)
              (Some (anchor\<lparr>anchor_lifecycle_id := Some lifecycle_id\<rparr>)) request))) (\<lambda>gate.
     sbind (on_gates (gate_append p (tc_observer_root cfg) gate)) (\<lambda>_.
     sbind (write_verdict_by_row c p cfg (rd_row_id dr) (rd_row_now dr) gate) (\<lambda>_.
     sret gate))))"

definition anchor_or_empty :: "gate_anchor option \<Rightarrow> gate_anchor" where
  "anchor_or_empty anchor = (case anchor of None \<Rightarrow> empty_anchor | Some a \<Rightarrow> a)"

definition gate_create_tool ::
  "iso_codec \<Rightarrow> process \<Rightarrow> tool_config \<Rightarrow> raise_draws \<Rightarrow> string \<Rightarrow> gate_anchor option \<Rightarrow> gate_request option \<Rightarrow>
   (tool_state, gate_record) prog" where
  "gate_create_tool c p cfg dr kind anchor request =
     sbind (sget (\<lambda>t. resolve_gate_lifecycle_id (ambient_current t)
             (anchor_lifecycle_id (anchor_or_empty anchor)))) (\<lambda>lid.
     on_control (open_gate c p cfg dr (coerce_gate_kind kind) (anchor_or_empty anchor) lid request))"

definition gating_lifecycle :: "lifecycle_state option \<Rightarrow> string option \<Rightarrow> lifecycle_state res" where
  "gating_lifecycle current lifecycle_id =
     (case current of
        None \<Rightarrow> Inl (LifecycleError ''lifecycle_gate requires an active lifecycle'')
      | Some c \<Rightarrow>
          if lifecycle_id \<noteq> None \<and> lifecycle_id \<noteq> Some (lc_id c)
          then Inl (LifecycleError ''lifecycle_gate lifecycle_id does not match'')
          else if lc_state c \<noteq> Running then Inl (LifecycleError ''only running lifecycles gate'')
          else Inr c)"

fun json_is_str :: "json \<Rightarrow> bool" where
  "json_is_str (JStr _) = True"
| "json_is_str _ = False"

fun json_str :: "json \<Rightarrow> string" where
  "json_str (JStr s) = s"
| "json_str _ = ''''"

text \<open>\<^verbatim>\<open>payload.get(key)\<close>: a missing key and an explicit null are both \<^verbatim>\<open>None\<close>.\<close>

definition jget :: "(string \<times> json) list \<Rightarrow> string \<Rightarrow> json option" where
  "jget d k = (case dget d k of Some JNull \<Rightarrow> None | v \<Rightarrow> v)"

definition ask_string :: "json option \<Rightarrow> string \<Rightarrow> string option res" where
  "ask_string raw msg =
     (case raw of None \<Rightarrow> Inr None | Some j \<Rightarrow> if json_is_str j then Inr (Some (json_str j)) else Inl (ValueError msg))"

definition ask_options :: "json option \<Rightarrow> string list option res" where
  "ask_options raw =
     (case raw of
        None \<Rightarrow> Inr None
      | Some (JList js) \<Rightarrow>
          if \<exists>j\<in>set js. \<not> json_is_str j then Inl (ValueError ''ask.options must be a list of strings'')
          else Inr (Some (map json_str js))
      | Some _ \<Rightarrow> Inl (ValueError ''ask.options must be a list of strings''))"

definition validated_ask ::
  "(string \<times> json) list option \<Rightarrow> (string option \<times> string option \<times> string list option) res" where
  "validated_ask ask =
     (let payload = (case ask of None \<Rightarrow> [] | Some d \<Rightarrow> d) in
      rbind (ask_string (jget payload ''kind'') ''ask.kind must be a string'') (\<lambda>k.
      rbind (ask_string (jget payload ''prompt'') ''ask.prompt must be a string'') (\<lambda>q.
      rbind (ask_options (jget payload ''options'')) (\<lambda>opts. Inr (k, q, opts)))))"

definition require_raise_and_continue_allowed ::
  "tool_config \<Rightarrow> gate_kind \<Rightarrow> string option \<Rightarrow> unit res" where
  "require_raise_and_continue_allowed cfg kind enclosure =
     (if kind \<notin> set SEAM_GATE_KINDS then Inl (ValueError ''wait=false is reserved for delegated seam kinds'')
      else if delegated_role (rule_for (tc_gate_policy cfg) kind) = None
      then Inl (ValueError ''wait=false requires a kind the active policy delegates'')
      else if enclosure = None \<or> strip (the enclosure) = ''''
      then Inl (ValueError ''raise-and-continue requires enclosure'')
      else Inr ())"

subsection \<open>Waiting\<close>

record wait_payload =
  wp_gateId :: string
  wp_state :: gate_state
  wp_timedOut :: bool
  wp_entries :: "operator_inbox_entry list"
  wp_decidedBy :: "string option"
  wp_decidedVia :: "decided_via option"
  wp_decisionNote :: "string option"

definition cancelled_wait_payload :: "string \<Rightarrow> wait_payload" where
  "cancelled_wait_payload gate_id =
     \<lparr>wp_gateId = gate_id, wp_state = Cancelled, wp_timedOut = False, wp_entries = [],
      wp_decidedBy = None, wp_decidedVia = None, wp_decisionNote = None\<rparr>"

definition decision_payload :: "gate_record \<Rightarrow> bool \<Rightarrow> operator_inbox_entry list \<Rightarrow> wait_payload" where
  "decision_payload gate timed_out entries =
     \<lparr>wp_gateId = g_id gate, wp_state = g_state gate, wp_timedOut = timed_out, wp_entries = entries,
      wp_decidedBy = g_decidedBy gate, wp_decidedVia = g_decidedVia gate, wp_decisionNote = g_decisionNote gate\<rparr>"

definition deadline_passed :: "seconds option \<Rightarrow> seconds \<Rightarrow> bool" where
  "deadline_passed deadline reading = (case deadline of None \<Rightarrow> False | Some d \<Rightarrow> d \<le> reading)"

text \<open>\<open>started\<close> is the monotonic reading at the call, the second component of a look the one after it.\<close>

definition wait_deadline :: "gate_wait \<Rightarrow> seconds \<Rightarrow> seconds option" where
  "wait_deadline w started = map_option (\<lambda>timeout. started + timeout) (w_timeout_seconds w)"

fun gate_wait_loop ::
  "string \<Rightarrow> string option \<Rightarrow> seconds option \<Rightarrow> (control_state \<times> seconds) list \<Rightarrow> wait_payload res option" where
  "gate_wait_loop gate_id lid deadline [] = None"
| "gate_wait_loop gate_id lid deadline ((t, reading) # looks) =
     (case gate_current lid (cs_gates t) of
        Inl e \<Rightarrow> Some (Inl e)
      | Inr d \<Rightarrow>
          (case dget d gate_id of
             None \<Rightarrow> Some (Inl (KeyError gate_id))
           | Some gate \<Rightarrow>
               if g_state gate \<noteq> Open then Some (Inr (decision_payload gate False []))
               else if deadline_passed deadline reading then Some (Inr (decision_payload gate True []))
               else gate_wait_loop gate_id lid deadline looks))"

definition gate_wait_tool ::
  "string \<Rightarrow> string option \<Rightarrow> gate_wait \<Rightarrow> seconds \<Rightarrow> (control_state \<times> seconds) list \<Rightarrow> wait_payload res option" where
  "gate_wait_tool gate_id lid w started looks = gate_wait_loop gate_id lid (wait_deadline w started) looks"

text \<open>The inbox entries that end a wait on a gate.\<close>

definition watched_entry :: "inbox_watch \<Rightarrow> string \<Rightarrow> operator_inbox_entry \<Rightarrow> bool" where
  "watched_entry watch gate_id e \<longleftrightarrow>
     i_gateId e = Some gate_id \<or> (iw_allow_ungated_entries watch \<and> i_gateId e = None)"

definition watched_entries ::
  "process \<Rightarrow> path \<Rightarrow> string \<Rightarrow> string option \<Rightarrow> inbox_watch \<Rightarrow> (control_state, operator_inbox_entry list) prog" where
  "watched_entries p obs_root gate_id lid watch =
     (if lid \<noteq> None \<or> iw_agent_id watch \<noteq> None
      then sbind (on_inbox (list_pending p obs_root lid (iw_agent_id watch) None)) (\<lambda>es.
             sret (filter (watched_entry watch gate_id) es))
      else sret [])"

text \<open>One look: the response that ends the wait, or the open gate the loop goes on with.\<close>

definition gate_response_look ::
  "process \<Rightarrow> path \<Rightarrow> string \<Rightarrow> string option \<Rightarrow> inbox_watch \<Rightarrow> (control_state, wait_payload + gate_record) prog" where
  "gate_response_look p obs_root gate_id lid watch =
     sbind (sget (\<lambda>t. gate_current lid (cs_gates t))) (\<lambda>d.
       case dget d gate_id of
         None \<Rightarrow> sret (Inl (cancelled_wait_payload gate_id))
       | Some gate \<Rightarrow>
           sbind (watched_entries p obs_root gate_id lid watch) (\<lambda>entries.
             if g_state gate \<noteq> Open \<or> entries \<noteq> []
             then sbind (if g_state gate \<noteq> Open \<and> delete_after_wait gate
                         then sbind (on_gates (gate_delete p obs_root (g_id gate) lid)) (\<lambda>_. sret ()) else sret ())
                    (\<lambda>_. sret (Inl (decision_payload gate False entries)))
             else sret (Inr gate)))"

fun gate_response_wait_loop ::
  "process \<Rightarrow> path \<Rightarrow> string \<Rightarrow> string option \<Rightarrow> inbox_watch \<Rightarrow> seconds option \<Rightarrow>
   (control_state \<times> seconds) list \<Rightarrow> (wait_payload res \<times> control_state) option" where
  "gate_response_wait_loop p obs_root gate_id lid watch deadline [] = None"
| "gate_response_wait_loop p obs_root gate_id lid watch deadline ((t, reading) # looks) =
     (case gate_response_look p obs_root gate_id lid watch t of
        (Inl e, t') \<Rightarrow> Some (Inl e, t')
      | (Inr (Inl payload), t') \<Rightarrow> Some (Inr payload, t')
      | (Inr (Inr gate), t') \<Rightarrow>
          if deadline_passed deadline reading then Some (Inr (decision_payload gate True []), t')
          else gate_response_wait_loop p obs_root gate_id lid watch deadline looks)"

definition gate_response_wait_tool ::
  "process \<Rightarrow> tool_config \<Rightarrow> string \<Rightarrow> string option \<Rightarrow> inbox_watch \<Rightarrow> gate_wait \<Rightarrow> seconds \<Rightarrow>
   (control_state \<times> seconds) list \<Rightarrow> (wait_payload res \<times> control_state) option" where
  "gate_response_wait_tool p cfg gate_id lid watch w started looks =
     gate_response_wait_loop p (tc_observer_root cfg) gate_id lid watch (wait_deadline w started) looks"

subsection \<open>Raising and deciding\<close>

definition on_ambient :: "(ambient, 'a) prog \<Rightarrow> (tool_state, 'a) prog" where
  "on_ambient m t =
     (case ts_ambient t of
        None \<Rightarrow> (Inl (LifecycleError ''no ambient lifecycle installed''), t)
      | Some a \<Rightarrow> (case m a of (r, a') \<Rightarrow> (r, t\<lparr>ts_ambient := Some a'\<rparr>)))"

record raised_payload =
  rp_gate :: gate_record
  rp_gate_state :: gate_state
  rp_lifecycle :: lifecycle_state
  rp_wait :: "(wait_payload \<times> gate_wait) option"
  rp_ask :: "(string \<times> json) list option"

definition raised_gate_payload :: "gate_record \<Rightarrow> lifecycle_state \<Rightarrow> raised_payload" where
  "raised_gate_payload gate current =
     \<lparr>rp_gate = gate, rp_gate_state = Open, rp_lifecycle = current, rp_wait = None, rp_ask = None\<rparr>"

text \<open>Everything before the wait: the gate, the lifecycle it was raised on and the structured ask.\<close>

definition raise_gate ::
  "iso_codec \<Rightarrow> process \<Rightarrow> tool_config \<Rightarrow> ambient_env \<Rightarrow> raise_draws \<Rightarrow> gate_raise \<Rightarrow> gate_wait \<Rightarrow>
   (tool_state, gate_record \<times> lifecycle_state \<times> (string \<times> json) list option) prog" where
  "raise_gate c p cfg env dr raised w =
     sbind (on_ambient (sget (\<lambda>a. Inr (amb_current a)))) (\<lambda>amb_cur.
     sbind (slift (gating_lifecycle amb_cur (anchor_lifecycle_id (anchor_or_empty (gr_anchor raised))))) (\<lambda>current.
     sbind (slift (validated_ask (gr_ask raised))) (\<lambda>(ask_kind, prompt, options).
     sbind (slift (coerce_gate_kind (gr_kind raised))) (\<lambda>kind.
     sbind (slift (if \<not> w_block w
                   then require_raise_and_continue_allowed cfg kind (anchor_enclosure (anchor_or_empty (gr_anchor raised)))
                   else Inr ())) (\<lambda>_.
     sbind (on_control (open_gate c p cfg dr (Inr kind) (anchor_or_empty (gr_anchor raised)) (lc_id current)
              (gr_request raised))) (\<lambda>gate.
     if \<not> w_block w then sret (gate, current, None)
     else sbind (on_ambient (amb_block env ask_kind prompt options)) (\<lambda>blocked.
            sret (gate, blocked, build_ask ask_kind prompt options))))))))"

definition lifecycle_gate_tool ::
  "iso_codec \<Rightarrow> process \<Rightarrow> tool_config \<Rightarrow> ambient_env \<Rightarrow> raise_draws \<Rightarrow> gate_raise \<Rightarrow> gate_wait \<Rightarrow> seconds \<Rightarrow>
   (control_state \<times> seconds) list \<Rightarrow> tool_state \<Rightarrow> (raised_payload res \<times> tool_state) option" where
  "lifecycle_gate_tool c p cfg env dr raised w started looks t =
     (case raise_gate c p cfg env dr raised w t of
        (Inl e, t') \<Rightarrow> Some (Inl e, t')
      | (Inr (gate, lc, ask), t') \<Rightarrow>
          if \<not> w_block w then Some (Inr (raised_gate_payload gate lc), t')
          else map_option
                 (\<lambda>(r, ctl). (rbind r (\<lambda>wp. Inr \<lparr>rp_gate = gate, rp_gate_state = wp_state wp, rp_lifecycle = lc,
                                                rp_wait = Some (wp, w), rp_ask = ask\<rparr>),
                              t'\<lparr>ts_control := ctl\<rparr>))
                 (gate_response_wait_tool p cfg (g_id gate) (Some (lc_id lc))
                    \<lparr>iw_agent_id = None, iw_allow_ungated_entries = False\<rparr> w started looks))"

record lifecycle_gate_request =
  lgr_kind :: string
  lgr_ask :: "(string \<times> json) list option"
  lgr_lifecycle_id :: "string option"
  lgr_enclosure :: "string option"
  lgr_repo_id :: "string option"
  lgr_packet :: "(string \<times> json) list option"
  lgr_required_decision :: "string list option"
  lgr_evidence_refs :: "json list option"
  lgr_wait :: bool

definition raise_lifecycle_gate ::
  "iso_codec \<Rightarrow> process \<Rightarrow> tool_config \<Rightarrow> ambient_env \<Rightarrow> raise_draws \<Rightarrow> lifecycle_gate_request \<Rightarrow> seconds \<Rightarrow>
   (control_state \<times> seconds) list \<Rightarrow> tool_state \<Rightarrow> (raised_payload res \<times> tool_state) option" where
  "raise_lifecycle_gate c p cfg env dr request started looks =
     lifecycle_gate_tool c p cfg env dr
       \<lparr>gr_kind = lgr_kind request,
        gr_anchor = Some \<lparr>anchor_lifecycle_id = lgr_lifecycle_id request, anchor_enclosure = lgr_enclosure request,
                          anchor_repo_id = lgr_repo_id request\<rparr>,
        gr_request = Some \<lparr>req_packet = lgr_packet request, req_required_decision = lgr_required_decision request,
                           req_evidence_refs = map_option (map EvRaw) (lgr_evidence_refs request)\<rparr>,
        gr_ask = lgr_ask request\<rparr>
       \<lparr>w_block = lgr_wait request, w_timeout_seconds = None, w_poll_seconds = GATE_RESPONSE_WAIT_POLL_SECONDS\<rparr>
       started looks"

definition decision_context :: "tool_config \<Rightarrow> clock \<Rightarrow> gate_decision_context" where
  "decision_context cfg now =
     \<lparr>dc_store = tc_observer_root cfg, dc_inbox_store = tc_observer_root cfg,
      dc_expectation_store = (if tc_coordination_root cfg = None then None else Some (tc_observer_root cfg)),
      dc_policy = tc_gate_policy cfg, dc_now = now\<rparr>"

definition gate_decide_tool ::
  "iso_codec \<Rightarrow> process \<Rightarrow> tool_config \<Rightarrow> clock \<Rightarrow> string \<Rightarrow> string option \<Rightarrow> gate_verdict \<Rightarrow> json list option \<Rightarrow>
   (tool_state, gate_decision_response) prog" where
  "gate_decide_tool c p cfg now gate_id lifecycle_id verdict evidence_refs =
     sbind (sget (\<lambda>t. resolve_deciding_actor (ambient_current t) (v_by verdict) (v_via verdict))) (\<lambda>by.
     on_control (record_gate_decision c p (decision_context cfg now) gate_id lifecycle_id
                   (verdict\<lparr>v_by := Some by\<rparr>) evidence_refs))"

definition gate_decide_for_lifecycle_tool ::
  "iso_codec \<Rightarrow> process \<Rightarrow> tool_config \<Rightarrow> clock \<Rightarrow> string \<Rightarrow> string option \<Rightarrow> gate_verdict \<Rightarrow> json list option \<Rightarrow>
   (tool_state, gate_decision_response) prog" where
  "gate_decide_for_lifecycle_tool c p cfg now lifecycle_id expected_gate_id verdict evidence_refs =
     sbind (sget (\<lambda>t. resolve_deciding_actor (ambient_current t) (v_by verdict) (v_via verdict))) (\<lambda>by.
     on_control (record_lifecycle_gate_decision c p (decision_context cfg now) lifecycle_id expected_gate_id
                   (verdict\<lparr>v_by := Some by\<rparr>) evidence_refs))"

text \<open>The channel of a request is one of the four literals of \<^verbatim>\<open>DecidedVia\<close>.\<close>

record gate_decision_request =
  gdr_decision :: string
  gdr_gate_id :: "string option"
  gdr_lifecycle_id :: "string option"
  gdr_note :: "string option"
  gdr_decided_by :: "string option"
  gdr_decided_via :: decided_via
  gdr_deciding_role :: "string option"
  gdr_evidence_refs :: "json list option"

definition request_verdict :: "gate_decision_request \<Rightarrow> gate_verdict" where
  "request_verdict r =
     \<lparr>v_decision = gdr_decision r, v_via = gdr_decided_via r, v_by = gdr_decided_by r, v_note = gdr_note r,
      v_deciding_role = gdr_deciding_role r\<rparr>"

definition record_requested_gate_decision ::
  "iso_codec \<Rightarrow> process \<Rightarrow> tool_config \<Rightarrow> clock \<Rightarrow> gate_decision_request \<Rightarrow> (tool_state, gate_decision_response) prog" where
  "record_requested_gate_decision c p cfg now r =
     (case gdr_gate_id r of
        None \<Rightarrow> slift (Inl (ValueError ''an addressed gate decision requires gate_id''))
      | Some gid \<Rightarrow> gate_decide_tool c p cfg now gid (gdr_lifecycle_id r) (request_verdict r) (gdr_evidence_refs r))"

definition record_requested_lifecycle_gate_decision ::
  "iso_codec \<Rightarrow> process \<Rightarrow> tool_config \<Rightarrow> clock \<Rightarrow> gate_decision_request \<Rightarrow> (tool_state, gate_decision_response) prog" where
  "record_requested_lifecycle_gate_decision c p cfg now r =
     (case gdr_lifecycle_id r of
        None \<Rightarrow> slift (Inl (ValueError ''a lifecycle gate decision requires lifecycle_id''))
      | Some lid \<Rightarrow>
          gate_decide_for_lifecycle_tool c p cfg now lid (gdr_gate_id r) (request_verdict r) (gdr_evidence_refs r))"

definition gate_list_tool :: "string option \<Rightarrow> tool_state \<Rightarrow> (string option \<times> gate_record list) res" where
  "gate_list_tool lifecycle_id t =
     (let lid = (case lifecycle_id of Some l \<Rightarrow> Some l | None \<Rightarrow> map_option lc_id (ambient_current t))
      in rbind (gate_current lid (cs_gates (ts_control t))) (\<lambda>d. Inr (lid, dvalues d)))"

subsection \<open>One open gate per lifecycle\<close>

lemma expire_all_view:
  assumes "expire_all p obs_root now gs s = (Inr (), s')" "gate_view lid s = Some m"
    "\<forall>g\<in>set gs. gate_ok g \<and> same_log lid (g_lifecycleId g)"
  shows "\<exists>m'. gate_view lid s' = Some m' \<and>
    (\<forall>k. m' k = m k \<and> (\<forall>g\<in>set gs. g_id g = k \<longrightarrow> g_state g \<noteq> Open) \<or> (\<exists>g. m' k = Some g \<and> g_state g = Expired))"
  using assms
proof (induction gs arbitrary: s m)
  case Nil
  then show ?case by auto
next
  case (Cons g gs)
  show ?case
  proof (cases "g_state g = Open")
    case True
    with Cons.prems(1) obtain s1 where s1: "gate_append p obs_root (expire_gate g now) s = (Inr (), s1)"
      "expire_all p obs_root now gs s1 = (Inr (), s')" by (auto simp: sbind_eq_Inr)
    have v1: "gate_view lid s1 = Some (m(g_id g \<mapsto> expire_gate g now))"
      using gate_view_append [OF s1(1) Cons.prems(2)] Cons.prems(3) by simp
    from Cons.IH [OF s1(2) v1] Cons.prems(3) obtain m' where m': "gate_view lid s' = Some m'"
      "\<forall>k. m' k = (m(g_id g \<mapsto> expire_gate g now)) k \<and> (\<forall>g\<in>set gs. g_id g = k \<longrightarrow> g_state g \<noteq> Open) \<or>
           (\<exists>g. m' k = Some g \<and> g_state g = Expired)" by auto
    have "m' k = m k \<and> (\<forall>h\<in>set (g # gs). g_id h = k \<longrightarrow> g_state h \<noteq> Open) \<or> (\<exists>g. m' k = Some g \<and> g_state g = Expired)" for k
      using m'(2)[rule_format, of k] by (cases "k = g_id g") auto
    with m'(1) show ?thesis by blast
  next
    case False
    with Cons.prems have "expire_all p obs_root now gs s = (Inr (), s')" by simp
    from Cons.IH [OF this Cons.prems(2)] Cons.prems(3) False show ?thesis by auto
  qed
qed

lemma gate_logs_ok_expire_all:
  "expire_all p obs_root now gs s = (x, s') \<Longrightarrow> gate_logs_ok s \<Longrightarrow> gate_logs_ok s'"
proof (induction gs arbitrary: s)
  case Nil
  then show ?case by simp
next
  case (Cons g gs)
  then show ?case
    by (auto simp: sbind_def split: if_splits prod.splits sum.splits dest: gate_logs_ok_append)
qed

text \<open>After the sweep no gate of the lifecycle is open.\<close>

lemma expire_open_gates_view:
  assumes "expire_open_gates p obs_root now lid s = (Inr (), s')" "gate_logs_ok s"
  shows "gate_logs_ok s' \<and> (\<exists>m'. gate_view (Some lid) s' = Some m' \<and> (\<forall>k g. m' k = Some g \<longrightarrow> g_state g \<noteq> Open))"
proof -
  from assms(1) obtain d where d: "gate_current (Some lid) s = Inr d"
    "expire_all p obs_root now (dvalues d) s = (Inr (), s')" by (auto simp: expire_open_gates_def sbind_eq_Inr)
  then obtain rs where rs: "gate_read (Some lid) s = Inr rs" "d = fold_by g_id rs" by (auto simp: gate_current_Inr)
  have mem: "g \<in> set rs" if "g \<in> set (dvalues d)" for g
    using that fold_by_key [of g_id rs] by (simp only: rs(2) fold_by_values)
  have ok: "\<forall>g\<in>set (dvalues d). gate_ok g \<and> same_log (Some lid) (g_lifecycleId g)"
    using mem read_strict_ok [OF rs(1) [unfolded gate_read_def]] gate_logs_okD [OF assms(2) rs(1)]
    by (auto simp: list_all_iff intro: same_log_sym)
  have view: "gate_view (Some lid) s = Some (map_of d)" by (simp add: gate_view_def d(1))
  from expire_all_view [OF d(2) view ok] obtain m' where m': "gate_view (Some lid) s' = Some m'"
    "\<And>k. m' k = map_of d k \<and> (\<forall>g\<in>set (dvalues d). g_id g = k \<longrightarrow> g_state g \<noteq> Open) \<or>
         (\<exists>g. m' k = Some g \<and> g_state g = Expired)" by blast
  have "g_state g \<noteq> Open" if "m' k = Some g" for k g
  proof -
    have "g \<in> set (dvalues d) \<and> g_id g = k" if "map_of d k = Some g"
      using that fold_by_key [of g_id rs k g] by (simp only: rs(2) fold_by_values)
    with that m'(2) [of k] show ?thesis by auto
  qed
  with m'(1) gate_logs_ok_expire_all [OF d(2) assms(2)] show ?thesis by blast
qed

lemma write_verdict_by_row_frame:
  "write_verdict_by_row c p cfg rid now g t = (x, t') \<Longrightarrow> cs_gates t' = cs_gates t \<and> cs_inbox t' = cs_inbox t"
  by (auto simp: write_verdict_by_row_def sbind_def zoom_def split: if_splits prod.splits sum.splits)

lemma open_gate_Inr:
  assumes "open_gate c p cfg dr kind anchor lid request t = (Inr g, t')"
  obtains k s1 where "kind = Inr k"
    "create_gate k (rd_gate_id dr) (rd_now dr) (Some (anchor\<lparr>anchor_lifecycle_id := Some lid\<rparr>)) request = Inr g"
    "expire_open_gates p (tc_observer_root cfg) (rd_now dr) lid (cs_gates t) = (Inr (), s1)"
    "gate_append p (tc_observer_root cfg) g s1 = (Inr (), cs_gates t')"
    "write_verdict_by_row c p cfg (rd_row_id dr) (rd_row_now dr) g (t\<lparr>cs_gates := cs_gates t'\<rparr>) = (Inr (), t')"
proof -
  from assms obtain k s1 s2 where w: "kind = Inr k"
    "create_gate k (rd_gate_id dr) (rd_now dr) (Some (anchor\<lparr>anchor_lifecycle_id := Some lid\<rparr>)) request = Inr g"
    "expire_open_gates p (tc_observer_root cfg) (rd_now dr) lid (cs_gates t) = (Inr (), s1)"
    "gate_append p (tc_observer_root cfg) g s1 = (Inr (), s2)"
    "write_verdict_by_row c p cfg (rd_row_id dr) (rd_row_now dr) g (t\<lparr>cs_gates := s2\<rparr>) = (Inr (), t')"
    by (auto simp: open_gate_def sbind_eq_Inr zoom_eq_Inr rbind_eq_Inr)
  from write_verdict_by_row_frame [OF w(5)] have "cs_gates t' = s2" by simp
  with w that show thesis by metis
qed

lemma open_gate_only_open:
  assumes "open_gate c p cfg dr kind anchor lid request t = (Inr g, t')" "gate_logs_ok (cs_gates t)"
  shows "gate_logs_ok (cs_gates t')"
    "\<exists>m. gate_view (Some lid) (cs_gates t') = Some m \<and> m (rd_gate_id dr) = Some g \<and>
         (\<forall>k h. m k = Some h \<and> g_state h = Open \<longrightarrow> k = rd_gate_id dr)"
    "g_state g = Open" "g_lifecycleId g = Some lid" "g_id g = rd_gate_id dr" "kind = Inr (g_kind g)"
proof -
  from open_gate_Inr [OF assms(1)] obtain k s1 where k: "kind = Inr k"
    "create_gate k (rd_gate_id dr) (rd_now dr) (Some (anchor\<lparr>anchor_lifecycle_id := Some lid\<rparr>)) request = Inr g"
    "expire_open_gates p (tc_observer_root cfg) (rd_now dr) lid (cs_gates t) = (Inr (), s1)"
    "gate_append p (tc_observer_root cfg) g s1 = (Inr (), cs_gates t')" by metis
  note new = create_gate_Inr [OF k(2)]
  from expire_open_gates_view [OF k(3) assms(2)] obtain m where m: "gate_logs_ok s1" "gate_view (Some lid) s1 = Some m"
    "\<forall>k g. m k = Some g \<longrightarrow> g_state g \<noteq> Open" by blast
  show "gate_logs_ok (cs_gates t')" by (rule gate_logs_ok_append [OF k(4) m(1)])
  have "gate_view (Some lid) (cs_gates t') = Some (m(rd_gate_id dr \<mapsto> g))"
    using gate_view_append [OF k(4) m(2)] new by simp
  with m(3) show "\<exists>m. gate_view (Some lid) (cs_gates t') = Some m \<and> m (rd_gate_id dr) = Some g \<and>
         (\<forall>k h. m k = Some h \<and> g_state h = Open \<longrightarrow> k = rd_gate_id dr)" by auto
  show "g_state g = Open" "g_lifecycleId g = Some lid" "g_id g = rd_gate_id dr" "kind = Inr (g_kind g)"
    using new k(1) by simp_all
qed

subsection \<open>How a wait ends\<close>

lemma watched_entries_frame:
  "watched_entries p obs_root gid lid watch t = (x, t') \<Longrightarrow> cs_gates t' = cs_gates t"
  by (auto simp: watched_entries_def sbind_def zoom_def split: if_splits prod.splits sum.splits)

lemma gate_view_key: "gate_view lid s = Some m \<Longrightarrow> m k = Some g \<Longrightarrow> g_id g = k"
  by (auto simp del: map_of_eq_Some_iff dest!: gate_view_Some dest: fold_by_key)

lemma decision_payload_fields [simp]:
  "wp_entries (decision_payload g b es) = es" "wp_timedOut (decision_payload g b es) = b"
  "wp_state (decision_payload g b es) = g_state g" "wp_gateId (decision_payload g b es) = g_id g"
  by (simp_all add: decision_payload_def)

lemma gate_response_look_end:
  assumes "gate_response_look p obs_root gid lid watch t = (Inr (Inl wp), t')"
  obtains m where "gate_view lid (cs_gates t) = Some m" "m gid = None" "wp = cancelled_wait_payload gid" "t' = t"
  | m g where "gate_view lid (cs_gates t) = Some m" "m gid = Some g" "wp = decision_payload g False (wp_entries wp)"
      "g_state g \<noteq> Open \<or> wp_entries wp \<noteq> []" "\<forall>e\<in>set (wp_entries wp). watched_entry watch gid e"
      "if g_state g \<noteq> Open \<and> delete_after_wait g then gate_view lid (cs_gates t') = Some (m(gid := None))
       else cs_gates t' = cs_gates t"
proof -
  from assms obtain d where d: "gate_current lid (cs_gates t) = Inr d"
    by (auto simp: gate_response_look_def sbind_eq_Inr)
  then have view: "gate_view lid (cs_gates t) = Some (map_of d)" by (simp add: gate_view_def)
  show thesis
  proof (cases "map_of d gid")
    case None
    with assms d view that(1) show thesis by (auto simp: gate_response_look_def sbind_sget)
  next
    case (Some g)
    with gate_view_key [OF view] have gid: "g_id g = gid" by blast
    from assms d Some obtain es t1 where es: "watched_entries p obs_root gid lid watch t = (Inr es, t1)"
      "g_state g \<noteq> Open \<or> es \<noteq> []" "wp = decision_payload g False es"
      "(if g_state g \<noteq> Open \<and> delete_after_wait g
        then sbind (on_gates (gate_delete p obs_root (g_id g) lid)) (\<lambda>_. sret ()) else sret ()) t1 = (Inr (), t')"
      by (auto simp: gate_response_look_def sbind_sget sbind_eq_Inr split: if_splits)
    have t1: "cs_gates t1 = cs_gates t" by (rule watched_entries_frame [OF es(1)])
    have seen: "\<forall>e\<in>set es. watched_entry watch gid e"
      using es(1) by (auto simp: watched_entries_def sbind_eq_Inr split: if_splits)
    have "if g_state g \<noteq> Open \<and> delete_after_wait g then gate_view lid (cs_gates t') = Some ((map_of d)(gid := None))
       else cs_gates t' = cs_gates t"
      using es(4) t1 gid gate_view_delete(1) [OF _ view, of p obs_root gid]
      by (auto simp: sbind_eq_Inr zoom_eq_Inr)
    then show thesis using that(2) [OF view Some] es(2,3) seen by simp
  qed
qed

lemma gate_response_look_open:
  assumes "gate_response_look p obs_root gid lid watch t = (Inr (Inr g), t')"
  shows "\<exists>m. gate_view lid (cs_gates t) = Some m \<and> m gid = Some g" "g_state g = Open" "cs_gates t' = cs_gates t"
  using assms watched_entries_frame [of p obs_root gid lid watch t]
  by (auto simp: gate_response_look_def sbind_sget sbind_eq_Inr gate_view_def
      split: sum.splits option.splits if_splits)

text \<open>The two loops end at the first look that is past the deadline, or before it.\<close>

lemma gate_response_wait_deadline:
  assumes "(t, reading) \<in> set looks" "deadline_passed deadline reading"
  shows "\<exists>r. gate_response_wait_loop p obs_root gid lid watch deadline looks = Some r"
  using assms by (induction looks) (auto split: prod.splits sum.splits)

lemma gate_wait_deadline:
  assumes "(t, reading) \<in> set looks" "deadline_passed deadline reading"
  shows "\<exists>r. gate_wait_loop gid lid deadline looks = Some r"
  using assms by (induction looks) (auto split: sum.splits option.splits)

text \<open>A decided or vanished gate ends the wait at the look that sees it, deadline or not.\<close>

lemma gate_response_wait_decided:
  assumes "(t, reading) \<in> set looks" "gate_view lid (cs_gates t) = Some m"
    "\<forall>g. m gid = Some g \<longrightarrow> g_state g \<noteq> Open"
  shows "\<exists>r. gate_response_wait_loop p obs_root gid lid watch deadline looks = Some r"
  using assms(1)
proof (induction looks)
  case Nil
  then show ?case by simp
next
  case (Cons look looks)
  obtain t0 r0 where look: "look = (t0, r0)" by fastforce
  show ?case
  proof (cases "look = (t, reading)")
    case True
    have "gate_response_look p obs_root gid lid watch t \<noteq> (Inr (Inr g), t')" for g t'
      using gate_response_look_open [of p obs_root gid lid watch t g t'] assms(2,3) by auto
    with True show ?thesis by (auto split: prod.splits sum.splits)
  next
    case False
    with Cons show ?thesis by (auto simp: look split: prod.splits sum.splits)
  qed
qed

lemma gate_response_wait_result:
  assumes "gate_response_wait_loop p obs_root gid lid watch deadline looks = Some (Inr wp, t')"
  shows "\<exists>(t, reading)\<in>set looks. (gate_response_look p obs_root gid lid watch t = (Inr (Inl wp), t') \<or>
     (\<exists>g. gate_response_look p obs_root gid lid watch t = (Inr (Inr g), t') \<and> deadline_passed deadline reading \<and>
          wp = decision_payload g True []))"
  using assms
  by (induction looks) (auto split: prod.splits sum.splits if_splits)

subsection \<open>Who may raise and who may decide\<close>

lemma raise_and_continue_iff:
  "require_raise_and_continue_allowed cfg kind enclosure = Inr () \<longleftrightarrow>
   kind \<in> set SEAM_GATE_KINDS \<and> delegated_role (rule_for (tc_gate_policy cfg) kind) \<noteq> None \<and>
   (\<exists>e. enclosure = Some e \<and> strip e \<noteq> '''')"
  by (auto simp: require_raise_and_continue_allowed_def)

lemma on_ambient_current:
  "sbind (on_ambient (sget (\<lambda>a. Inr (amb_current a)))) f t =
   (case ts_ambient t of None \<Rightarrow> (Inl (LifecycleError ''no ambient lifecycle installed''), t) | Some a \<Rightarrow> f (amb_current a) t)"
  by (cases t) (auto simp: on_ambient_def sbind_def sget_def split: option.splits)

lemma sbind_slift_case:
  "sbind (slift r) f t = (case r of Inl e \<Rightarrow> (Inl e, t) | Inr x \<Rightarrow> f x t)"
  by (cases r) simp_all

lemma gating_lifecycle_Inr:
  "gating_lifecycle cur lid = Inr c \<longleftrightarrow> cur = Some c \<and> lc_state c = Running \<and> (lid = None \<or> lid = Some (lc_id c))"
  by (auto simp: gating_lifecycle_def split: option.splits)

lemma amb_block_Inr:
  "amb_block env k q os a = (Inr b, a') \<Longrightarrow>
   \<exists>c. amb_current a = Some c \<and> b = c\<lparr>lc_state := Blocked\<rparr> \<and> amb_current a' = Some b"
  by (auto simp: amb_block_def move_state_def require_active_def sbind_eq_Inr Let_def set_current_def emit_run
      split: option.splits if_splits)

lemma raise_gate_Inr:
  assumes "raise_gate c p cfg env dr raised w t = (Inr (gate, lc, ask), t')"
  obtains a current kind where "ts_ambient t = Some a" "amb_current a = Some current" "lc_state current = Running"
    "coerce_gate_kind (gr_kind raised) = Inr kind"
    "\<not> w_block w \<longrightarrow> require_raise_and_continue_allowed cfg kind (anchor_enclosure (anchor_or_empty (gr_anchor raised))) = Inr ()"
    "open_gate c p cfg dr (Inr kind) (anchor_or_empty (gr_anchor raised)) (lc_id current) (gr_request raised)
       (ts_control t) = (Inr gate, ts_control t')"
    "if w_block w then lc = current\<lparr>lc_state := Blocked\<rparr> \<and> map_option amb_current (ts_ambient t') = Some (Some lc)
     else lc = current \<and> ts_ambient t' = Some a"
proof -
  obtain a where a: "ts_ambient t = Some a"
    using assms by (cases "ts_ambient t") (auto simp: raise_gate_def on_ambient_current)
  from assms a obtain current ak q os kind t1 where r: "gating_lifecycle (amb_current a) (anchor_lifecycle_id (anchor_or_empty (gr_anchor raised))) = Inr current"
    "coerce_gate_kind (gr_kind raised) = Inr kind"
    "\<not> w_block w \<longrightarrow> require_raise_and_continue_allowed cfg kind (anchor_enclosure (anchor_or_empty (gr_anchor raised))) = Inr ()"
    "open_gate c p cfg dr (Inr kind) (anchor_or_empty (gr_anchor raised)) (lc_id current) (gr_request raised)
       (ts_control t) = (Inr gate, t1)"
    "if w_block w then on_ambient (amb_block env ak q os) (t\<lparr>ts_control := t1\<rparr>) = (Inr lc, t') else lc = current \<and> t' = t\<lparr>ts_control := t1\<rparr>"
    by (auto simp: raise_gate_def on_ambient_current sbind_slift_case sbind_eq_Inr zoom_eq_Inr split: sum.splits if_splits)
  have "ts_control t' = t1"
    "if w_block w then lc = current\<lparr>lc_state := Blocked\<rparr> \<and> map_option amb_current (ts_ambient t') = Some (Some lc)
     else lc = current \<and> ts_ambient t' = Some a"
    using r(1,5) a amb_block_Inr [of env ak q os a lc]
    by (auto simp: on_ambient_def gating_lifecycle_Inr split: prod.splits if_splits)
  then show thesis using that [OF a] r by (simp add: gating_lifecycle_Inr)
qed

lemma resolve_deciding_actor_orchestration:
  "strip (case by of None \<Rightarrow> '''' | Some b \<Rightarrow> b) = '''' \<Longrightarrow>
   resolve_deciding_actor (Some cur) by ViaOrchestration = Inr (lc_id cur)"
  by (auto simp: resolve_deciding_actor_def split: option.splits)

text \<open>A decision through orchestration that carries the gate's own lifecycle as its actor is refused.\<close>

lemma own_decision_refused:
  assumes "target_gate gid lid s = Inr g" "g_lifecycleId g = v_by v" "truthy (v_by v)" "v_via v = ViaOrchestration"
  shows "\<exists>e. decided_snapshot c ctx gid lid v ev s = Inl e"
proof (cases "decided_snapshot c ctx gid lid v ev s")
  case (Inr u)
  from decided_snapshot_Inr [OF Inr] assms(1,4) obtain refs where "decide_gate g v (isoformat c (utc (dc_now ctx))) (Some (map EvRef refs)) = Inr u"
    "delegated_valid u (dc_policy ctx)" by auto
  with assms(2,3) decide_gate_Inr(3,6) [OF this(1)] show ?thesis by (auto simp: delegated_valid_def)
qed blast


end
