(* ===== verification/Handover.thy ===== *)
theory Handover
  imports Gate_Authority
begin

section \<open>The master-handover seam\<close>

text \<open>
  \<^verbatim>\<open>worktrees/modules/integrate.py\<close>, the two pure functions the integration step asks before a master branch
  is merged: the guard over the cross-lifecycle gate fold, addressed by the contract's task or parent name,
  and the warning about open handover gates that address no contract.
\<close>

definition HANDOVER_GATE_KIND :: gate_kind where
  "HANDOVER_GATE_KIND = MasterHandoverApproval"

definition addresses :: "string \<Rightarrow> string \<Rightarrow> string set" where
  "addresses task_name parent_task_name = set (filter (\<lambda>n. n \<noteq> '''') [task_name, parent_task_name])"

definition addressed_by :: "string \<Rightarrow> string \<Rightarrow> gate_record \<Rightarrow> bool" where
  "addressed_by task_name parent_task_name g \<longleftrightarrow>
     (case g_enclosure g of None \<Rightarrow> False | Some e \<Rightarrow> e \<in> addresses task_name parent_task_name)"

definition handover_gate_guard ::
  "(string, gate_record) dict \<Rightarrow> string \<Rightarrow> string \<Rightarrow> gate_policy \<Rightarrow> gate_guard" where
  "handover_gate_guard gates task_name parent_task_name policy =
     evaluate_gate
       (filter (\<lambda>kv. g_kind (snd kv) = HANDOVER_GATE_KIND \<and> addressed_by task_name parent_task_name (snd kv)) gates)
       HANDOVER_GATE_KIND policy None"

definition unmatched_handover_gate_warning ::
  "(string, gate_record) dict \<Rightarrow> string \<Rightarrow> string \<Rightarrow> (string \<times> string option) list option" where
  "unmatched_handover_gate_warning gates task_name parent_task_name =
     (let handover_gates = filter (\<lambda>g. g_kind g = HANDOVER_GATE_KIND) (dvalues gates)
      in if \<exists>g\<in>set handover_gates. addressed_by task_name parent_task_name g then None
         else let unmatched = sort_key g_id (filter (\<lambda>g. g_state g = Open) handover_gates)
              in if unmatched = [] then None else Some (map (\<lambda>g. (g_id g, g_enclosure g)) unmatched))"

text \<open>The gate that decides: the latest handover gate addressed to the contract.\<close>

definition governing_handover ::
  "(string, gate_record) dict \<Rightarrow> string \<Rightarrow> string \<Rightarrow> gate_record option" where
  "governing_handover gates task_name parent_task_name =
     governing_gate (filter (\<lambda>kv. addressed_by task_name parent_task_name (snd kv)) gates) HANDOVER_GATE_KIND"

lemma handover_filter:
  "filter (\<lambda>g. g_kind g = k) (map snd (filter (\<lambda>kv. g_kind (snd kv) = k \<and> P (snd kv)) gates)) =
   filter (\<lambda>g. g_kind g = k) (map snd (filter (\<lambda>kv. P (snd kv)) gates))"
  by (induction gates) auto

lemma handover_guard_governing:
  "handover_gate_guard gates task parent policy =
   evaluate_gate (filter (\<lambda>kv. addressed_by task parent (snd kv)) gates) HANDOVER_GATE_KIND policy None"
  by (simp add: handover_gate_guard_def evaluate_gate_def handover_filter)

lemma handover_permitted:
  "permitted (handover_gate_guard gates task parent policy) \<longleftrightarrow>
   (case governing_handover gates task parent of
      None \<Rightarrow> True
    | Some g \<Rightarrow> g_state g = Approved \<and> policy_valid g policy)"
  by (simp add: handover_guard_governing evaluate_gate_permitted_iff governing_handover_def split: option.splits)

lemma governing_handover_None:
  "governing_handover gates task parent = None \<longleftrightarrow>
   (\<forall>g\<in>set (dvalues gates). g_kind g = HANDOVER_GATE_KIND \<longrightarrow> \<not> addressed_by task parent g)"
  by (auto simp: governing_handover_def governing_gate_None)

lemma unmatched_warning_Some:
  "unmatched_handover_gate_warning gates task parent \<noteq> None \<longleftrightarrow>
   governing_handover gates task parent = None \<and>
   (\<exists>g\<in>set (dvalues gates). g_kind g = HANDOVER_GATE_KIND \<and> g_state g = Open)"
  unfolding governing_handover_None
  by (auto simp: unmatched_handover_gate_warning_def Let_def filter_empty_conv sort_key_simps(1) split: if_splits
      simp flip: set_empty)

end
