(* ===== verification/Gate_Properties.thy ===== *)
theory Gate_Properties
  imports Claim_Race Gate_Tools Handover
begin

section \<open>Properties of the gates\<close>

text \<open>
  What the gate side of the control plane guarantees, stated over the models of the vocabulary, the policy, the
  store, the decision service, the tools and the integration seam, each with an instance on concrete logs.
\<close>

subsection \<open>Concrete gates and logs\<close>

definition ex_gate :: "string \<Rightarrow> gate_kind \<Rightarrow> gate_state \<Rightarrow> gate_record" where
  "ex_gate gid kind st =
     \<lparr>g_schemaVersion = SCHEMA_VERSION, g_schema = GATE_RECORD_SCHEMA, g_id = gid, g_ts = ''1'', g_kind = kind,
      g_state = st, g_lifecycleId = None, g_enclosure = None, g_repoId = None, g_packet = [],
      g_requiredDecision = None, g_decidedBy = Some HUMAN_DECIDER, g_decidedVia = Some ViaDashboard,
      g_decidingRole = None, g_decisionNote = None, g_decidedAt = None, g_evidenceRefs = [],
      g_appliedOperation = None\<rparr>"

definition ex_logs :: "gate_record list \<Rightarrow> gate_logs" where
  "ex_logs gs = \<lparr>workspace_log = Some (map Rec gs), lifecycle_logs = []\<rparr>"

definition ex_guard :: "gate_kind \<Rightarrow> guard_reason \<Rightarrow> gate_guard" where
  "ex_guard kind why = \<lparr>gg_kind = kind, permitted = True, reason = why, gg_gate_id = Some ''g''\<rparr>"

abbreviation ex_approved :: gate_record where
  "ex_approved \<equiv> ex_gate ''g'' CloseoutApproval Approved"

abbreviation ex_applied :: gate_record where
  "ex_applied \<equiv> apply_gate ex_approved ''2'' (Some ''op'')"

lemma ex_gate_ok [simp]: "gate_ok (ex_gate gid k st)"
  by (simp add: gate_ok_def ex_gate_def)

lemma ex_gate_fields [simp]:
  "g_id (ex_gate gid k st) = gid" "g_lifecycleId (ex_gate gid k st) = None" "g_kind (ex_gate gid k st) = k"
  "g_state (ex_gate gid k st) = st" "g_appliedOperation (ex_gate gid k st) = None"
  by (simp_all add: ex_gate_def)

lemma ex_gate_valid [simp]: "policy_valid (ex_gate gid k st) policy"
  by (simp add: policy_valid_def human_decided_def ex_gate_def)

lemma ex_logs_read [simp]:
  "list_all gate_ok gs \<Longrightarrow> gate_read lid (ex_logs gs) = Inr (if truthy lid then [] else gs)"
  by (simp add: gate_read_def log_at_def ex_logs_def read_strict_def rmap_validate_Rec)

lemma ex_logs_ok [simp]:
  assumes "list_all (\<lambda>g. gate_ok g \<and> g_lifecycleId g = None) gs"
  shows "gate_logs_ok (ex_logs gs)"
proof -
  have "list_all gate_ok gs" using assms by (simp add: list_all_iff)
  with assms show ?thesis by (auto simp: gate_logs_ok_def same_log_def list_all_iff split: if_splits)
qed

lemma ex_append [simp]:
  "g_lifecycleId g = None \<Longrightarrow> gate_append mcp_process obs_root g (ex_logs gs) = (Inr (), ex_logs (gs @ [g]))"
  by (subst gate_append_run)
    (simp_all add: check_declared_writer_def declared_daemon_role_def GATE_OWNERSHIP_def put_log_def log_at_def
      ex_logs_def append_line_def)

lemma ex_claim:
  "claim_approval mcp_process obs_root None CloseoutApproval ''2'' policy (Some ''op'') (ex_logs [ex_approved]) =
     (Inr (ex_guard CloseoutApproval ApprovedByValidDecider), ex_logs [ex_approved, ex_applied])"
  "claim_approval mcp_process obs_root None CloseoutApproval ''3'' policy (Some ''op'')
     (ex_logs [ex_approved, ex_applied]) =
     (Inr (ex_guard CloseoutApproval (BoundToThisOperation ''g'')), ex_logs [ex_approved, ex_applied])"
  "claim_approval mcp_process obs_root None CloseoutApproval ''2'' policy (Some ''op'')
     (ex_logs [ex_approved, ex_applied]) =
     (Inr (ex_guard CloseoutApproval (BoundToThisOperation ''g'')), ex_logs [ex_approved, ex_applied])"
  by (simp_all add: claim_approval_def sbind_sget gate_current_def Let_def evaluate_gate_def ex_guard_def
      approval_failure_None [THEN iffD2] sbind_Inr sret_def fold_by_def)

subsection \<open>Spending an approval\<close>

text \<open>
  Claim C1: an approval is spent once. After a permitted claim names a gate of a consumed kind, whatever any
  process then does to the store short of deciding or deleting that gate (appends, claims, deletions and
  compactions at any clock), a later permitted claim on the same lifecycle and kind either names another gate
  or is the recovery of the very same operation key.
\<close>

theorem approval_spent_once:
  assumes "claim_approval p obs_root lid kind now policy key s = (Inr guard, s1)"
    and "permitted guard" and "gg_gate_id guard = Some gid"
    and "gate_logs_ok s" and "kind \<in> set CONSUMED_APPROVAL_GATE_KINDS"
    and "(gate_step c obs_root gid)\<^sup>*\<^sup>* s1 s2"
    and "claim_approval p2 obs_root lid kind now2 policy2 key2 s2 = (Inr guard2, s3)"
    and "permitted guard2"
  shows "(\<exists>other. other \<noteq> gid \<and> gg_gate_id guard2 = Some other) \<or>
         (gg_gate_id guard2 = Some gid \<and> key2 \<noteq> None \<and> key2 = key)"
proof -
  have "spent lid gid kind key s1" by (rule claim_spends [OF assms(1-4)])
  with spent_kept.run_keeps [OF assms(6)] assms(5) have "spent lid gid kind key s2" by blast
  from spent_claim [OF this assms(7,8)] show ?thesis .
qed

theorem approval_spent_once_witness:
  "claim_approval mcp_process [] None CloseoutApproval ''2'' DEFAULT_GATE_POLICY (Some ''op'') (ex_logs [ex_approved]) =
     (Inr (ex_guard CloseoutApproval ApprovedByValidDecider), ex_logs [ex_approved, ex_applied]) \<and>
   claim_approval mcp_process [] None CloseoutApproval ''3'' DEFAULT_GATE_POLICY (Some ''op'')
     (ex_logs [ex_approved, ex_applied]) =
     (Inr (ex_guard CloseoutApproval (BoundToThisOperation ''g'')), ex_logs [ex_approved, ex_applied]) \<and>
   ((\<exists>other. other \<noteq> ''g'' \<and> gg_gate_id (ex_guard CloseoutApproval (BoundToThisOperation ''g'')) = Some other) \<or>
    (gg_gate_id (ex_guard CloseoutApproval (BoundToThisOperation ''g'')) = Some ''g'' \<and>
     Some ''op'' \<noteq> (None :: string option) \<and> Some ''op'' = Some ''op''))"
  using approval_spent_once [where gid = "''g''" and c = micro_codec, OF ex_claim(1) [of "[]" DEFAULT_GATE_POLICY] _ _ _ _
      rtranclp.rtrancl_refl ex_claim(2) [of "[]" DEFAULT_GATE_POLICY]]
  by (simp add: ex_claim ex_guard_def CONSUMED_APPROVAL_GATE_KINDS_def MUTATING_TOOL_GATE_KINDS_def)

definition ex_request :: claim_request where
  "ex_request = \<lparr>cr_process = mcp_process, cr_kind = CloseoutApproval, cr_now = ''2'', cr_policy = DEFAULT_GATE_POLICY,
                 cr_key = Some ''op''\<rparr>"

text \<open>Two threads, one after the other, with the same operation.\<close>

lemma ex_race:
  "\<exists>s. (race_step [] None (\<lambda>_. ex_request))\<^sup>*\<^sup>* (init_race (ex_logs [ex_approved])) s \<and>
       r_pc s 0 = Finished (Inr (ex_guard CloseoutApproval ApprovedByValidDecider)) \<and>
       r_pc s 1 = Finished (Inr (ex_guard CloseoutApproval (BoundToThisOperation ''g'')))"
proof -
  let ?rq = "\<lambda>_ :: tid. ex_request"
  have rq: "cr_process ex_request = mcp_process" "\<And>q. flock_excludes mcp_process q"
    by (simp_all add: ex_request_def mcp_process_def)
  have c1: "claim_of [] None ex_request (ex_logs [ex_approved]) =
    (Inr (ex_guard CloseoutApproval ApprovedByValidDecider), ex_logs [ex_approved, ex_applied])"
    using ex_claim(1) [of "[]" DEFAULT_GATE_POLICY] by (simp add: ex_request_def)
  then have c1': "claim_of [] None (?rq 0) (r_logs (init_race (ex_logs [ex_approved]))) =
    (Inr (ex_guard CloseoutApproval ApprovedByValidDecider), ex_logs [ex_approved, ex_applied])"
    by (simp add: init_race_def)
  have c2: "claim_of [] None ex_request (ex_logs [ex_approved, ex_applied]) =
    (Inr (ex_guard CloseoutApproval (BoundToThisOperation ''g'')), ex_logs [ex_approved, ex_applied])"
    using ex_claim(3) [of "[]" DEFAULT_GATE_POLICY] by (simp add: ex_request_def)
  have d: "gate_current None (ex_logs [ex_approved]) = Inr (fold_by g_id [ex_approved])"
    by (simp add: gate_current_def)
  from race_solo [of "[]" None ?rq "init_race (ex_logs [ex_approved])" 0, OF race_inv_init _ _ _ _ _ c1'] d
  obtain s1 where s1: "(race_step [] None ?rq)\<^sup>*\<^sup>* (init_race (ex_logs [ex_approved])) s1" "race_inv [] None ?rq s1"
    "r_pc s1 = (\<lambda>_. Idle)(0 := Finished (Inr (ex_guard CloseoutApproval ApprovedByValidDecider)))"
    "r_logs s1 = ex_logs [ex_approved, ex_applied]" by (auto simp: init_race_def init_locks_def rq)
  have free: "\<forall>t'. \<not> inside (r_pc s1 t')" by (auto simp: s1(3))
  have c2': "claim_of [] None (?rq 1) (r_logs s1) =
    (Inr (ex_guard CloseoutApproval (BoundToThisOperation ''g'')), ex_logs [ex_approved, ex_applied])"
    using c2 by (simp only: s1(4))
  from race_solo [where t = 1 and rq = ?rq, OF s1(2) _ free _ _ _ c2']
  obtain s2 where "(race_step [] None ?rq)\<^sup>*\<^sup>* s1 s2"
    "r_pc s2 = (r_pc s1)(1 := Finished (Inr (ex_guard CloseoutApproval (BoundToThisOperation ''g''))))"
    by (auto simp: rq gate_current_def s1(3,4))
  with s1(1,3) show ?thesis by (intro exI [of _ s2]) (auto intro: rtranclp_trans)
qed

text \<open>
  Claim C2: concurrent claims. However threads of any processes interleave inside \<^verbatim>\<open>claim_approval\<close> on one log (lock,
  read, evaluate and append, release), two different threads that both come out permitted on the same gate carry
  one and the same operation key, and a key was given.
\<close>

theorem concurrent_claims_agree:
  assumes "gate_logs_ok logs" and "kind \<in> set CONSUMED_APPROVAL_GATE_KINDS" and "\<forall>t. cr_kind (rq t) = kind"
    and "(race_step obs_root lid rq)\<^sup>*\<^sup>* (init_race logs) s"
    and "r_pc s t = Finished (Inr g)" and "permitted g" and "gg_gate_id g = Some gid"
    and "r_pc s t' = Finished (Inr g')" and "permitted g'" and "gg_gate_id g' = Some gid" and "t \<noteq> t'"
  shows "cr_key (rq t) = cr_key (rq t') \<and> cr_key (rq t) \<noteq> None"
proof -
  have "winners_ok lid gid kind rq s"
    using race_winners.run_keeps [OF assms(4), of gid kind] race_inv_init race_start [OF assms(1)] assms(2,3) by blast
  moreover have "winner gid s t" "winner gid s t'" using assms(5-10) by (auto simp: winner_def)
  ultimately show ?thesis using assms(11) unfolding winners_ok_def by blast
qed

theorem concurrent_claims_agree_witness:
  "\<exists>s. (race_step [] None (\<lambda>_. ex_request))\<^sup>*\<^sup>* (init_race (ex_logs [ex_approved])) s \<and>
       r_pc s 0 = Finished (Inr (ex_guard CloseoutApproval ApprovedByValidDecider)) \<and>
       r_pc s 1 = Finished (Inr (ex_guard CloseoutApproval (BoundToThisOperation ''g''))) \<and>
       cr_key ex_request = cr_key ex_request \<and> cr_key ex_request \<noteq> None"
proof -
  from ex_race obtain s where s: "(race_step [] None (\<lambda>_. ex_request))\<^sup>*\<^sup>* (init_race (ex_logs [ex_approved])) s"
    "r_pc s 0 = Finished (Inr (ex_guard CloseoutApproval ApprovedByValidDecider))"
    "r_pc s 1 = Finished (Inr (ex_guard CloseoutApproval (BoundToThisOperation ''g'')))" by blast
  have "cr_key ex_request = cr_key ex_request \<and> cr_key ex_request \<noteq> None"
    by (rule concurrent_claims_agree [OF _ _ _ s(1,2) _ _ s(3), of CloseoutApproval "''g''"])
      (simp_all add: ex_request_def ex_guard_def CONSUMED_APPROVAL_GATE_KINDS_def MUTATING_TOOL_GATE_KINDS_def)
  with s show ?thesis by blast
qed

text \<open>
  Claim C3: the locked claim is atomic. In every reachable state of the race, a step either leaves the log alone and
  finishes nobody with a verdict, or it is exactly one \<^verbatim>\<open>claim_approval\<close> call, run in one piece on the log as it is.
\<close>

theorem race_refines_atomic_claims:
  assumes "(race_step obs_root lid rq)\<^sup>*\<^sup>* (init_race logs) s" and "race_step obs_root lid rq s s'"
  shows "(r_logs s' = r_logs s \<and> (\<forall>t g. r_pc s' t = Finished (Inr g) \<longrightarrow> r_pc s t = Finished (Inr g))) \<or>
    (\<exists>t r. claim_approval (cr_process (rq t)) obs_root lid (cr_kind (rq t)) (cr_now (rq t)) (cr_policy (rq t))
              (cr_key (rq t)) (r_logs s) = (r, r_logs s') \<and>
           r_pc s' = (r_pc s)(t := Finished r))"
  using race_refines [OF assms(2)] race_machine.run_keeps [OF assms(1) race_inv_init] by blast

theorem race_refines_atomic_claims_witness:
  "\<exists>s s'. race_step [] None (\<lambda>_. ex_request) s s' \<and>
    ((r_logs s' = r_logs s \<and> (\<forall>t g. r_pc s' t = Finished (Inr g) \<longrightarrow> r_pc s t = Finished (Inr g))) \<or>
    (\<exists>t r. claim_approval mcp_process [] None CloseoutApproval ''2'' DEFAULT_GATE_POLICY (Some ''op'') (r_logs s) =
             (r, r_logs s') \<and> r_pc s' = (r_pc s)(t := Finished r)))"
proof -
  obtain s where s: "(race_step [] None (\<lambda>_. ex_request))\<^sup>*\<^sup>* (init_race (ex_logs [ex_approved])) s"
    "s \<noteq> init_race (ex_logs [ex_approved])"
    using ex_race by (fastforce simp: init_race_def)
  then obtain u where u: "(race_step [] None (\<lambda>_. ex_request))\<^sup>*\<^sup>* (init_race (ex_logs [ex_approved])) u"
    "race_step [] None (\<lambda>_. ex_request) u s" by (auto elim: rtranclp.cases)
  from race_refines_atomic_claims [OF u] u(2) show ?thesis
    by (intro exI [of _ u] exI [of _ s]) (simp add: ex_request_def)
qed

subsection \<open>What a gate permits\<close>

text \<open>
  Enforcement. A mutation is permitted exactly when no gate of its kind exists, or the latest one is approved
  by a decision the policy accepts (the developer's, or a valid delegated one), or the latest one is already applied
  and the request carries the very operation key it was applied for.
\<close>

theorem gate_permits_iff:
  "permitted (evaluate_gate gates kind policy key) \<longleftrightarrow>
   (case governing_gate gates kind of
      None \<Rightarrow> True
    | Some g \<Rightarrow> (g_state g = Approved \<and> (human_decided g \<or> delegated_valid g policy)) \<or>
                (g_state g = Applied \<and> key \<noteq> None \<and> g_appliedOperation g = key))"
  unfolding evaluate_gate_permitted_iff policy_valid_def ..

text \<open>
  Claim C4: what may be delegated. Under a policy built by \<^verbatim>\<open>make_gate_policy\<close> and bound to the seam requirement, a kind
  that is decided by a role is one of the delegable kinds, never a human-pinned one; the role is not the human one;
  and for a seam kind the rule asks for a reviewer verdict.
\<close>

theorem delegation_is_confined:
  assumes "make_gate_policy rs = Inr p"
    and "delegated_role (rule_for (apply_seam_verdict_requirement p) k) = Some role"
  shows "k \<in> set DELEGABLE_GATE_KINDS \<and> k \<notin> set HUMAN_PINNED_GATE_KINDS \<and> role \<noteq> Human \<and>
    (k \<in> set SEAM_GATE_KINDS \<longrightarrow> require_reviewer_verdict (rule_for (apply_seam_verdict_requirement p) k))"
proof -
  have "rule_safe (rule_for p k)" by (rule rule_for_safe [OF policy_safe_make [OF assms(1)]])
  moreover from assms(2) have "delegated_role (rule_for p k) = Some role" by (simp add: rule_for_seam)
  ultimately show ?thesis
    by (auto simp: rule_safe_def rule_for_seam seam_bound_rule_def DELEGABLE_GATE_KINDS_def HUMAN_PINNED_GATE_KINDS_def)
qed

definition ex_rule :: gate_policy_rule where
  "ex_rule = \<lparr>rule_kind = MasterHandoverApproval, delegated_role = Some Orchestrator, require_reviewer_verdict = False\<rparr>"

lemma ex_policy: "make_gate_policy [ex_rule] = Inr \<lparr>rules = [ex_rule]\<rparr>"
  by (simp add: make_gate_policy_def check_rule_def normalize_rule_def ex_rule_def HUMAN_PINNED_GATE_KINDS_def
      DELEGABLE_GATE_KINDS_def fold_by_def)

lemma ex_policy_role:
  "delegated_role (rule_for (apply_seam_verdict_requirement \<lparr>rules = [ex_rule]\<rparr>) MasterHandoverApproval) = Some Orchestrator"
  by (simp add: rule_for_def apply_seam_verdict_requirement_def seam_bound_rule_def ex_rule_def)

theorem delegation_is_confined_witness:
  "make_gate_policy [ex_rule] = Inr \<lparr>rules = [ex_rule]\<rparr> \<and>
   MasterHandoverApproval \<in> set DELEGABLE_GATE_KINDS \<and> MasterHandoverApproval \<notin> set HUMAN_PINNED_GATE_KINDS \<and>
   Orchestrator \<noteq> Human \<and>
   MasterHandoverApproval \<in> set SEAM_GATE_KINDS \<and>
   require_reviewer_verdict (rule_for (apply_seam_verdict_requirement \<lparr>rules = [ex_rule]\<rparr>) MasterHandoverApproval)"
  using delegation_is_confined [OF ex_policy ex_policy_role] ex_policy by (simp add: SEAM_GATE_KINDS_def)

subsection \<open>The store is a map of gates\<close>

text \<open>
  Claim C5: the gate store refines a partial map from gate ids to snapshots. An append updates the map of the log the
  record belongs to and no other, a deletion removes the id and reports whether it was there, and a compaction
  restricts the map to the gates the retention rule keeps.
\<close>

theorem gate_store_refines_map:
  assumes "gate_view lid s = Some m"
  shows "(gate_ok r \<and> gate_append p obs_root r s = (Inr (), s1) \<longrightarrow>
          gate_view lid s1 = Some (if same_log lid (g_lifecycleId r) then m(g_id r \<mapsto> r) else m))
    \<and> (gate_delete p obs_root gid lid s = (Inr b, s2) \<longrightarrow>
          gate_view lid s2 = Some (m(gid := None)) \<and> (b \<longleftrightarrow> m gid \<noteq> None))
    \<and> (gate_compact c p obs_root lid now s = (Inr n, s3) \<longrightarrow>
          gate_view lid s3 =
            Some (m |` {k. \<exists>g. m k = Some g \<and> keep_gate c now INTERACTION_RECORD_TTL_SECONDS g}))"
  using gate_view_append [OF _ assms] gate_view_delete [OF _ assms] gate_view_compact [OF _ assms] by blast

theorem gate_store_refines_map_witness:
  "gate_view None (ex_logs [ex_approved]) = Some [''g'' \<mapsto> ex_approved] \<and>
   gate_append mcp_process [] ex_applied (ex_logs [ex_approved]) = (Inr (), ex_logs [ex_approved, ex_applied]) \<and>
   gate_view None (ex_logs [ex_approved, ex_applied]) = Some ([''g'' \<mapsto> ex_approved](''g'' \<mapsto> ex_applied))"
proof -
  have v: "gate_view None (ex_logs [ex_approved]) = Some [''g'' \<mapsto> ex_approved]"
    by (simp add: gate_view_def gate_current_def fold_by_def fun_eq_iff)
  have "gate_view None (ex_logs [ex_approved, ex_applied]) = Some ([''g'' \<mapsto> ex_approved](''g'' \<mapsto> ex_applied))"
    using gate_store_refines_map [OF v, THEN conjunct1, of ex_applied mcp_process "[]" "ex_logs [ex_approved, ex_applied]"]
    by simp
  with v show ?thesis by simp
qed

text \<open>
  Records stay where they belong. Every run of store calls, by any processes, keeps the invariant that the
  log of a lifecycle holds only snapshots of that lifecycle.
\<close>

theorem gate_logs_invariant:
  assumes "(gate_step c obs_root gid)\<^sup>*\<^sup>* s s'" and "gate_logs_ok s"
    and "gate_read lid s' = Inr rs" and "r \<in> set rs"
  shows "same_log (g_lifecycleId r) lid"
  by (rule gate_logs_okD [OF logs_kept.run_keeps [OF assms(1,2)] assms(3,4)])

theorem gate_logs_invariant_witness:
  "(gate_step micro_codec [] ''other'')\<^sup>*\<^sup>* (ex_logs [ex_approved]) (ex_logs [ex_approved, ex_applied]) \<and>
   same_log (g_lifecycleId ex_applied) None"
proof -
  have run: "(gate_step micro_codec [] ''other'')\<^sup>*\<^sup>* (ex_logs [ex_approved]) (ex_logs [ex_approved, ex_applied])"
    by (rule r_into_rtranclp, rule gate_step.step_claim, rule ex_claim(1))
  have "same_log (g_lifecycleId ex_applied) None"
    by (rule gate_logs_invariant [OF run, of None "[ex_approved, ex_applied]"]) simp_all
  with run show ?thesis ..
qed

subsection \<open>Who decided\<close>

text \<open>
  Claim C6: no self-approval through orchestration. A decision recorded through the orchestration channel, on any gate,
  was made by an actor other than the gate's own lifecycle, in the one non-human role the active policy delegates
  that kind to, and carries reviewer-verdict evidence where the rule asks for it; the recorded state is the one the
  decision word names.
\<close>

theorem orchestration_decision_is_delegated:
  assumes "record_gate_decision c p ctx gid lid v ev t = (Inr resp, t')" and "v_via v = ViaOrchestration"
  shows "\<exists>g. target_gate gid lid (cs_gates t) = Inr g \<and> truthy (v_by v) \<and>
    (truthy (g_lifecycleId g) \<longrightarrow> v_by v \<noteq> g_lifecycleId g) \<and>
    (\<exists>role. v_deciding_role v = Some (decision_role_str role) \<and> role \<noteq> Human \<and>
            delegated_role (rule_for (dc_policy ctx) (g_kind g)) = Some role) \<and>
    (require_reviewer_verdict (rule_for (dc_policy ctx) (g_kind g)) \<longrightarrow>
       (\<exists>r\<in>set (resp_evidenceRefs resp). ev_kind r = ReviewerVerdict)) \<and>
    dget DECISION_STATES (v_decision v) = Some (resp_state resp)"
proof -
  from record_gate_decision_Inr [OF assms(1)] obtain u where
    u: "decided_snapshot c ctx gid lid v ev (cs_gates t) = Inr u" "resp = decision_response u" by metis
  from decided_snapshot_Inr [OF u(1)] assms(2) obtain g refs where g: "target_gate gid lid (cs_gates t) = Inr g"
    "decide_gate g v (isoformat c (utc (dc_now ctx))) (Some (map EvRef refs)) = Inr u"
    "delegated_valid u (dc_policy ctx)" by metis
  note d = decide_gate_Inr [OF g(2)]
  from g(3) d show ?thesis
    by (intro exI [of _ g])
      (auto simp: g(1) u(2) delegated_valid_def decision_response_def has_reviewer_verdict_evidence_def)
qed

definition ex_verdict :: "decided_via \<Rightarrow> string \<Rightarrow> gate_verdict" where
  "ex_verdict via decision =
     \<lparr>v_decision = decision, v_via = via, v_by = Some ''orch'', v_note = None, v_deciding_role = Some ''orchestrator''\<rparr>"

definition ex_context :: gate_decision_context where
  "ex_context = \<lparr>dc_store = [], dc_inbox_store = [], dc_expectation_store = None, dc_policy = \<lparr>rules = [ex_rule]\<rparr>,
                 dc_now = 5\<rparr>"

definition ex_control :: "gate_record list \<Rightarrow> control_state" where
  "ex_control gs = \<lparr>cs_gates = ex_logs gs, cs_inbox = None, cs_rows = None\<rparr>"

abbreviation ex_open :: gate_record where
  "ex_open \<equiv> ex_gate ''g'' MasterHandoverApproval Open"

lemma ex_append_dashboard [simp]:
  "g_lifecycleId g = None \<Longrightarrow> gate_append dashboard_process obs_root g (ex_logs gs) = (Inr (), ex_logs (gs @ [g]))"
  by (subst gate_append_run)
    (simp_all add: check_declared_writer_def declared_daemon_role_def GATE_OWNERSHIP_def put_log_def log_at_def
      ex_logs_def append_line_def)

lemma ex_target: "target_gate ''g'' None (ex_logs [ex_open]) = Inr ex_open"
  by (simp add: target_gate_def gate_current_def fold_by_def)

definition ex_decided :: "decided_via \<Rightarrow> gate_record" where
  "ex_decided via = ex_open\<lparr>g_ts := isoformat micro_codec (utc 5), g_state := Approved, g_decidedBy := Some ''orch'',
     g_decidedVia := Some via, g_decidingRole := Some ''orchestrator'', g_decisionNote := None,
     g_decidedAt := Some (isoformat micro_codec (utc 5))\<rparr>"

lemma ex_decision:
  "record_gate_decision micro_codec dashboard_process ex_context ''g'' None (ex_verdict ViaOrchestration ''approve'') None
     (ex_control [ex_open]) =
   (Inr (decision_response (ex_decided ViaOrchestration)), ex_control [ex_open, ex_decided ViaOrchestration])"
proof -
  have valid: "delegated_valid (ex_decided ViaOrchestration) \<lparr>rules = [ex_rule]\<rparr>"
    by (simp add: delegated_valid_def ex_decided_def ex_gate_def rule_for_def ex_rule_def)
  have dec: "decide_gate ex_open (ex_verdict ViaOrchestration ''approve'') (isoformat micro_codec (utc 5)) (Some []) =
    Inr (ex_decided ViaOrchestration)"
    by (simp add: decide_gate_def DECISION_STATES_def coerce_evidence_refs_def ex_verdict_def ex_decided_def ex_gate_def)
  have "orchestration_check (ex_verdict ViaOrchestration ''approve'') (ex_decided ViaOrchestration) \<lparr>rules = [ex_rule]\<rparr> = Inr ()"
    using delegated_reason_None [THEN iffD2, OF valid] by (simp add: orchestration_check_def)
  with dec have "decided_snapshot micro_codec ex_context ''g'' None (ex_verdict ViaOrchestration ''approve'') None (ex_logs [ex_open]) =
    Inr (ex_decided ViaOrchestration)"
    by (simp add: decided_snapshot_def ex_target ex_context_def cli_decision_check_def decision_evidence_refs_def,
        simp add: ex_verdict_def DECISION_STATES_def)
  moreover have "g_lifecycleId (ex_decided ViaOrchestration) = None" by (simp add: ex_decided_def)
  ultimately show ?thesis
    by (simp add: record_gate_decision_def sget_def ex_control_def sbind_def zoom_def remove_cancelled_def
        ex_verdict_def meet_verdict_expectation_def ex_context_def reclaim_gate_log_def is_compaction_owner_def
        declared_daemon_role_def GATE_OWNERSHIP_def Let_def sret_def)
qed

theorem orchestration_decision_is_delegated_witness:
  "record_gate_decision micro_codec dashboard_process ex_context ''g'' None (ex_verdict ViaOrchestration ''approve'') None
     (ex_control [ex_open]) =
   (Inr (decision_response (ex_decided ViaOrchestration)), ex_control [ex_open, ex_decided ViaOrchestration]) \<and>
   (\<exists>g. target_gate ''g'' None (ex_logs [ex_open]) = Inr g \<and>
     (\<exists>role. Some ''orchestrator'' = Some (decision_role_str role) \<and> role \<noteq> Human \<and>
             delegated_role (rule_for \<lparr>rules = [ex_rule]\<rparr> (g_kind g)) = Some role))"
proof -
  have "v_via (ex_verdict ViaOrchestration ''approve'') = ViaOrchestration" by (simp add: ex_verdict_def)
  from orchestration_decision_is_delegated [OF ex_decision this] ex_decision show ?thesis
    by (auto simp: ex_verdict_def ex_context_def ex_control_def)
qed

text \<open>
  A lifecycle cannot decide its own gate. When the decision tool is called through orchestration without an
  actor, the actor is the active lifecycle; if the addressed gate is that lifecycle's own, the call raises and neither
  the stores nor the ambient state change.
\<close>

theorem own_gate_decision_refused:
  assumes "ts_ambient t = Some a" and "amb_current a = Some cur" and "lc_id cur \<noteq> ''''"
    and "target_gate gid lid (cs_gates (ts_control t)) = Inr g" and "g_lifecycleId g = Some (lc_id cur)"
    and "v_via v = ViaOrchestration" and "strip (case v_by v of None \<Rightarrow> '''' | Some b \<Rightarrow> b) = ''''"
  shows "\<exists>e. gate_decide_tool c p cfg now gid lid v ev t = (Inl e, t)"
proof -
  have actor: "resolve_deciding_actor (ambient_current t) (v_by v) (v_via v) = Inr (lc_id cur)"
    using resolve_deciding_actor_orchestration [OF assms(7), of cur] assms(1,2,6) by (simp add: ambient_current_def)
  from own_decision_refused [OF assms(4), of "v\<lparr>v_by := Some (lc_id cur)\<rparr>" c "decision_context cfg now" ev] assms(3,5,6)
  obtain e where "decided_snapshot c (decision_context cfg now) gid lid (v\<lparr>v_by := Some (lc_id cur)\<rparr>) ev
    (cs_gates (ts_control t)) = Inl e" by auto
  from record_gate_decision_refused [OF this, of p]
  show ?thesis by (simp add: gate_decide_tool_def sbind_sget actor zoom_def)
qed

definition ex_lifecycle :: lifecycle_state where
  "ex_lifecycle = \<lparr>lc_id = ''L'', lc_state = Running, lc_phase = PBuild, lc_fleeting = False, lc_started_at = ''0'',
                   lc_enclosure = None, lc_repo_id = None, lc_scope = None\<rparr>"

definition ex_ambient :: ambient where
  "ex_ambient = \<lparr>amb_current = Some ex_lifecycle, amb_last_activity = None, amb_ticking = True, amb_served = [],
                 amb_files = \<lparr>of_workspace = None, of_lifecycles = []\<rparr>, amb_reads = 0, amb_minted = 0\<rparr>"

definition ex_config :: tool_config where
  "ex_config = \<lparr>tc_observer_root = [], tc_gate_policy = \<lparr>rules = [ex_rule]\<rparr>, tc_coordination_root = None,
                tc_sla = (\<lambda>_. 900)\<rparr>"

definition ex_own_gate :: gate_record where
  "ex_own_gate = ex_open\<lparr>g_lifecycleId := Some ''L''\<rparr>"

definition ex_tool_state :: "gate_record list \<Rightarrow> tool_state" where
  "ex_tool_state gs =
     \<lparr>ts_control = \<lparr>cs_gates = \<lparr>workspace_log = None, lifecycle_logs = [(''L'', Some (map Rec gs))]\<rparr>,
                     cs_inbox = None, cs_rows = None\<rparr>,
      ts_ambient = Some ex_ambient\<rparr>"

lemma ex_own_target: "target_gate ''g'' (Some ''L'') (cs_gates (ts_control (ex_tool_state [ex_own_gate]))) = Inr ex_own_gate"
  by (simp add: target_gate_def gate_current_def gate_read_def log_at_def ex_tool_state_def read_strict_def
      ex_own_gate_def gate_ok_def ex_gate_def fold_by_def)

theorem own_gate_decision_refused_witness:
  "target_gate ''g'' (Some ''L'') (cs_gates (ts_control (ex_tool_state [ex_own_gate]))) = Inr ex_own_gate \<and>
   (\<exists>e. gate_decide_tool micro_codec mcp_process ex_config 5 ''g'' (Some ''L'')
          \<lparr>v_decision = ''approve'', v_via = ViaOrchestration, v_by = None, v_note = None,
           v_deciding_role = Some ''orchestrator''\<rparr> None (ex_tool_state [ex_own_gate]) =
        (Inl e, ex_tool_state [ex_own_gate]))"
  using ex_own_target
  by (intro conjI own_gate_decision_refused [where a = ex_ambient and cur = ex_lifecycle and g = ex_own_gate])
    (simp_all add: ex_tool_state_def ex_ambient_def ex_lifecycle_def ex_own_gate_def strip_def)

text \<open>
  The command line cannot decide what the policy delegates. A decision that arrives through the CLI on a gate
  whose kind the active policy delegates, other than a cancellation, raises before anything is written.
\<close>

theorem cli_cannot_decide_delegated:
  assumes "target_gate gid lid (cs_gates t) = Inr g" and "v_via v = ViaCli" and "v_decision v \<noteq> ''cancel''"
    and "delegated_role (rule_for (dc_policy ctx) (g_kind g)) \<noteq> None"
  shows "\<exists>e. record_gate_decision c p ctx gid lid v ev t = (Inl e, t)"
proof (cases "decided_snapshot c ctx gid lid v ev (cs_gates t)")
  case (Inl e)
  then show ?thesis using record_gate_decision_refused by blast
next
  case (Inr u)
  from decided_snapshot_Inr [OF Inr] obtain g' where "target_gate gid lid (cs_gates t) = Inr g'"
    "v_via v = ViaCli \<longrightarrow> v_decision v = ''cancel'' \<or> delegated_role (rule_for (dc_policy ctx) (g_kind g')) = None"
    by metis
  with assms show ?thesis by simp
qed

theorem cli_cannot_decide_delegated_witness:
  "target_gate ''g'' None (cs_gates (ex_control [ex_open])) = Inr ex_open \<and>
   (\<exists>e. record_gate_decision micro_codec mcp_process ex_context ''g'' None (ex_verdict ViaCli ''approve'') None
          (ex_control [ex_open]) = (Inl e, ex_control [ex_open]))"
proof -
  have tg: "target_gate ''g'' None (cs_gates (ex_control [ex_open])) = Inr ex_open"
    using ex_target by (simp add: ex_control_def)
  then show ?thesis
    using cli_cannot_decide_delegated [OF tg, of "ex_verdict ViaCli ''approve''" ex_context]
    by (simp add: ex_verdict_def ex_context_def rule_for_def ex_rule_def)
qed

lemma gate_view_gone:
  assumes "gate_delete p obs_root gid lid s = (Inr b, s')"
  shows "\<exists>m. gate_view lid s' = Some m \<and> m gid = None"
proof -
  from gate_delete_outcome [OF assms] obtain rs where "gate_read lid s = Inr rs" by auto
  from gate_view_delete(1) [OF assms gate_view_read [OF this]] show ?thesis by auto
qed

lemma reclaim_keeps_gone:
  assumes "reclaim_gate_log c p obs_root lid now s = (Inr u, s')" "gate_view lid s = Some m" "m gid = None"
  shows "\<exists>m'. gate_view lid s' = Some m' \<and> m' gid = None"
proof -
  from assms(1) have "s' = s \<or> (\<exists>r. gate_compact c p obs_root lid now s = (r, s'))"
    by (auto simp: reclaim_gate_log_def suppress_validation_def split: if_splits prod.splits sum.splits py_error.splits)
  then show ?thesis
  proof (elim disjE exE)
    assume "s' = s"
    with assms(2,3) show ?thesis by blast
  next
    fix r assume "gate_compact c p obs_root lid now s = (r, s')"
    from gate_compact_outcome [OF this] have "s' = s \<or> (\<exists>K. filtered_to (\<lambda>x. g_id x \<in> K) lid s s')" by blast
    with gate_view_filtered [OF _ assms(2)] assms(2,3) show ?thesis by (auto simp: restrict_map_def)
  qed
qed

lemma remove_cancelled_Inr:
  assumes "remove_cancelled p ctx v u t = (Inr x, t2)" "v_decision v = ''cancel''"
  shows "\<exists>b n. gate_delete p (dc_store ctx) (g_id u) (g_lifecycleId u) (cs_gates t) = (Inr b, cs_gates t2) \<and>
    inbox_delete_by_gate p (dc_inbox_store ctx) (g_id u) (cs_inbox t) = (Inr n, cs_inbox t2)"
proof -
  from assms obtain b g' n i' where
    "gate_delete p (dc_store ctx) (g_id u) (g_lifecycleId u) (cs_gates t) = (Inr b, g')"
    "inbox_delete_by_gate p (dc_inbox_store ctx) (g_id u) (cs_inbox t) = (Inr n, i')"
    "t2 = t\<lparr>cs_gates := g', cs_inbox := i'\<rparr>"
    by (auto simp: remove_cancelled_def sbind_eq_Inr zoom_eq_Inr)
  then show ?thesis by simp
qed

text \<open>
  A cancelled gate is gone. After a cancellation is recorded, the gate's id is absent from the fold of its
  log, and the inbox log, which still reads, holds no row tied to the gate.
\<close>

theorem cancel_removes_gate_and_rows:
  assumes "record_gate_decision c p ctx gid lid v ev t = (Inr resp, t')" and "v_decision v = ''cancel''"
    and "target_gate gid lid (cs_gates t) = Inr g"
  shows "(\<exists>m. gate_view (g_lifecycleId g) (cs_gates t') = Some m \<and> m gid = None) \<and>
    (\<exists>rs. read_strict inbox_ok (cs_inbox t') = Inr rs \<and> filter (\<lambda>r. i_gateId r = Some gid) rs = [])"
proof -
  from record_gate_decision_Inr [OF assms(1)] obtain u g1 t2 r2 g3 where
    u: "decided_snapshot c ctx gid lid v ev (cs_gates t) = Inr u"
    and rem: "remove_cancelled p ctx v u (t\<lparr>cs_gates := g1\<rparr>) = (Inr (), t2)"
    and rec: "reclaim_gate_log c p (dc_store ctx) (g_lifecycleId u) (dc_now ctx) (cs_gates t2) = (Inr (), g3)"
    and t': "t' = t2\<lparr>cs_rows := r2, cs_gates := g3\<rparr>" by metis
  from decided_snapshot_Inr [OF u] assms(3) obtain refs where
    dec: "decide_gate g v (isoformat c (utc (dc_now ctx))) (Some (map EvRef refs)) = Inr u"
    by (metis sum.inject(2))
  from decide_gate_Inr(1,3) [OF dec] target_gate_Inr [OF assms(3)]
  have same: "g_id u = gid" "g_lifecycleId u = g_lifecycleId g" by simp_all
  from remove_cancelled_Inr [OF rem assms(2)] obtain b n where
    del: "gate_delete p (dc_store ctx) gid (g_lifecycleId g) g1 = (Inr b, cs_gates t2)"
    and rows: "inbox_delete_by_gate p (dc_inbox_store ctx) gid (cs_inbox t) = (Inr n, cs_inbox t2)"
    unfolding same by auto
  from gate_view_gone [OF del] obtain m where m: "gate_view (g_lifecycleId g) (cs_gates t2) = Some m" "m gid = None" by blast
  have gate: "\<exists>m. gate_view (g_lifecycleId g) (cs_gates t') = Some m \<and> m gid = None"
    using reclaim_keeps_gone [OF rec [unfolded same(2)] m] by (simp add: t')
  from inbox_delete_by_gate_outcome [OF rows] obtain rs where
    "read_strict inbox_ok (cs_inbox t2) = Inr (filter (\<lambda>r. i_gateId r \<noteq> Some gid) rs)" by (auto simp: inbox_filtered_def)
  with gate show ?thesis by (simp add: t' filter_empty_conv)
qed

lemma ex_delete:
  assumes "list_all gate_ok gs" "g \<in> set gs" "g_id g = gid"
  shows "gate_delete dashboard_process [] gid None (ex_logs gs) = (Inr True, ex_logs (filter (\<lambda>r. g_id r \<noteq> gid) gs))"
proof -
  from assms(2,3) have "\<not> (\<forall>x\<in>set gs. g_id x \<noteq> gid)" by blast
  with assms(1) show ?thesis
    by (simp add: gate_delete_def sbind_sget Let_def length_filter_eq gate_replace_run sbind_Inr sret_def)
      (simp add: put_log_def ex_logs_def)
qed

definition ex_cancelled :: gate_record where
  "ex_cancelled = ex_open\<lparr>g_ts := isoformat micro_codec (utc 5), g_state := Cancelled, g_decidedBy := Some ''orch'',
     g_decidedVia := Some ViaDashboard, g_decidingRole := Some ''orchestrator'', g_decisionNote := None,
     g_decidedAt := Some (isoformat micro_codec (utc 5))\<rparr>"

lemma ex_cancel:
  "record_gate_decision micro_codec dashboard_process ex_context ''g'' None (ex_verdict ViaDashboard ''cancel'') None
     (ex_control [ex_open]) = (Inr (decision_response ex_cancelled), ex_control [])"
proof -
  have dec: "decide_gate ex_open (ex_verdict ViaDashboard ''cancel'') (isoformat micro_codec (utc 5)) (Some []) = Inr ex_cancelled"
    by (simp add: decide_gate_def DECISION_STATES_def coerce_evidence_refs_def ex_verdict_def ex_cancelled_def ex_gate_def)
  have snap: "decided_snapshot micro_codec ex_context ''g'' None (ex_verdict ViaDashboard ''cancel'') None (ex_logs [ex_open]) =
    Inr ex_cancelled"
    using dec
    by (simp add: decided_snapshot_def ex_target ex_context_def cli_decision_check_def decision_evidence_refs_def
        orchestration_check_def, simp add: ex_verdict_def DECISION_STATES_def)
  have f: "g_lifecycleId ex_cancelled = None" "g_id ex_cancelled = ''g''" "gate_ok ex_cancelled"
    by (simp_all add: ex_cancelled_def gate_ok_def ex_gate_def)
  have del: "gate_delete dashboard_process [] ''g'' None (ex_logs [ex_open, ex_cancelled]) = (Inr True, ex_logs [])"
    using ex_delete [of "[ex_open, ex_cancelled]" ex_open "''g''"] f by simp
  have rows: "inbox_delete_by_gate dashboard_process [] ''g'' None = (Inr 0, None)"
    by (simp add: inbox_delete_by_gate_def inbox_read_unlocked_def sbind_sget sret_def)
  show ?thesis
    using snap f del rows
    by (simp add: record_gate_decision_def sget_def ex_control_def sbind_def zoom_def remove_cancelled_def
        ex_verdict_def meet_verdict_expectation_def ex_context_def reclaim_gate_log_def is_compaction_owner_def
        declared_daemon_role_def GATE_OWNERSHIP_def Let_def sret_def)
qed

theorem cancel_removes_gate_and_rows_witness:
  "record_gate_decision micro_codec dashboard_process ex_context ''g'' None (ex_verdict ViaDashboard ''cancel'') None
     (ex_control [ex_open]) = (Inr (decision_response ex_cancelled), ex_control []) \<and>
   (\<exists>m. gate_view None (cs_gates (ex_control [])) = Some m \<and> m ''g'' = None)"
  using cancel_removes_gate_and_rows [OF ex_cancel, of ex_open] ex_cancel ex_target
  by (simp add: ex_verdict_def ex_control_def)

end
