(* ===== verification/Operation_Store.thy ===== *)
theory Operation_Store
  imports Store_Access Py_Time
begin

section \<open>Durable lifecycle operations\<close>

text \<open>
  \<^verbatim>\<open>models/lifecycles/operation.py\<close> and \<^verbatim>\<open>worktrees/lifecycle_operation_store.py\<close>: the one snapshot a task keeps of its
  closeout or integrate operation, and the four guarded writes of it. The snapshot is a file that is absent, holds text that
  does not validate, or holds a record; validation is \<open>operation_ok\<close>, the field constraints of the pydantic model. A write
  replaces the whole file atomically.

  A transform is a function that may raise, because the cancellation request does.
\<close>

datatype operation_kind = OpCloseout | OpIntegrate

datatype integrate_strategy = FfOnly | Replay

datatype operation_status = OpQueued | OpRunning | OpInputRequired | OpCompleted | OpFailed | OpCancelled

datatype operation_phase =
  PhQueued | PhPreflight | PhMemoryPreflight | PhQuality | PhApprovalClaim | PhRecoveringAfterClaim | PhCodeCommit |
  PhMemoryRefresh | PhMemoryCommit | PhLedgerCommit | PhIntegrationReplay | PhIntegrationQuality | PhSourceMerge |
  PhContractFinalization | PhCompleted | PhFailed | PhCancelled

record recovery_commits =
  rc_codeCommit :: string
  rc_memoryContentCommit :: string
  rc_ledgerCommit :: string

record gate_policy_rule_snapshot =
  ps_kind :: string
  ps_delegatedRole :: "string option"
  ps_requireReviewerVerdict :: bool

record closeout_operation_input =
  ci_configPath :: string
  ci_contractPath :: string
  ci_codeCommitMessage :: string
  ci_memoryCommitMessage :: string
  ci_ledgerCommitMessage :: string
  ci_approvalNote :: string
  ci_gatePolicy :: "gate_policy_rule_snapshot list"

record integrate_operation_input =
  ii_configPath :: string
  ii_contractPath :: string
  ii_strategy :: integrate_strategy
  ii_ledgerCommitMessage :: string
  ii_gatePolicy :: "gate_policy_rule_snapshot list"
  ii_autoCompleteSeats :: bool

datatype operation_input =
  CloseoutInput closeout_operation_input
| IntegrateInput integrate_operation_input

record operation_record =
  o_schemaVersion :: string
  o_taskId :: string
  o_taskName :: string
  o_contractPath :: string
  o_operationKind :: operation_kind
  o_candidateState :: string
  o_candidateTree :: "string option"
  o_fingerprint :: string
  o_operationKey :: string
  o_input :: operation_input
  o_status :: operation_status
  o_phase :: operation_phase
  o_queuedAt :: string
  o_startedAt :: "string option"
  o_heartbeatAt :: "string option"
  o_finishedAt :: "string option"
  o_currentCommand :: string
  o_reportPath :: string
  o_result :: "(string \<times> json) list option"
  o_failure :: "string option"
  o_guidance :: "string option"
  o_cancelRequested :: bool
  o_irreversibleBoundaryEntered :: bool
  o_approvalClaimed :: bool
  o_recoveryCommits :: "recovery_commits option"
  o_attempt :: int
  o_workerPid :: "int option"

datatype operation_file = OpAbsent | OpInvalid | OpRecord operation_record

type_synonym transform = "operation_record \<Rightarrow> operation_record res"

subsection \<open>Validation of a snapshot\<close>

definition is_lower_hex :: "char \<Rightarrow> bool" where
  "is_lower_hex ch = (let n = (of_char ch :: nat) in (48 \<le> n \<and> n \<le> 57) \<or> (97 \<le> n \<and> n \<le> 102))"

definition hex_between :: "nat \<Rightarrow> nat \<Rightarrow> string \<Rightarrow> bool" where
  "hex_between lo hi s \<longleftrightarrow> lo \<le> length s \<and> length s \<le> hi \<and> list_all is_lower_hex s"

definition recovery_commits_ok :: "recovery_commits \<Rightarrow> bool" where
  "recovery_commits_ok rc \<longleftrightarrow>
     hex_between 40 64 (rc_codeCommit rc) \<and>
     (rc_memoryContentCommit rc = '''' \<or> hex_between 40 64 (rc_memoryContentCommit rc)) \<and>
     (rc_ledgerCommit rc = '''' \<or> hex_between 40 64 (rc_ledgerCommit rc))"

definition operation_ok :: "operation_record \<Rightarrow> bool" where
  "operation_ok r \<longleftrightarrow>
     o_schemaVersion r = ''1.0'' \<and> hex_between 64 64 (o_candidateState r) \<and>
     (case o_candidateTree r of None \<Rightarrow> True | Some t \<Rightarrow> hex_between 40 64 t) \<and>
     hex_between 64 64 (o_fingerprint r) \<and> hex_between 64 64 (o_operationKey r) \<and>
     (case o_recoveryCommits r of None \<Rightarrow> True | Some rc \<Rightarrow> recovery_commits_ok rc) \<and>
     1 \<le> o_attempt r \<and> (case o_workerPid r of None \<Rightarrow> True | Some pid \<Rightarrow> 1 \<le> pid)"

definition operation_validated :: "operation_record \<Rightarrow> operation_record res" where
  "operation_validated r = (if operation_ok r then Inr r else Inl (ValidationError ''LifecycleOperationRecord''))"

subsection \<open>The guards of a transition\<close>

definition OPERATION_OWNERSHIP :: store_ownership where
  "OPERATION_OWNERSHIP =
     \<lparr>store_name = ''lifecycle-operation'', writers = [RoleMcp], compaction_owner = None\<rparr>"

definition TERMINAL_OPERATIONS :: "operation_status list" where
  "TERMINAL_OPERATIONS = [OpCompleted, OpFailed, OpCancelled]"

fun ALLOWED_TRANSITIONS :: "operation_status \<Rightarrow> operation_status list" where
  "ALLOWED_TRANSITIONS OpQueued = [OpQueued, OpRunning, OpFailed, OpCancelled]"
| "ALLOWED_TRANSITIONS OpRunning = [OpQueued, OpRunning, OpInputRequired, OpCompleted, OpFailed, OpCancelled]"
| "ALLOWED_TRANSITIONS OpInputRequired = [OpQueued, OpInputRequired, OpCancelled]"
| "ALLOWED_TRANSITIONS OpCompleted = [OpCompleted]"
| "ALLOWED_TRANSITIONS OpFailed = [OpFailed]"
| "ALLOWED_TRANSITIONS OpCancelled = [OpCancelled]"

text \<open>A recorded commit cell that is not empty cannot change.\<close>

definition cell_kept :: "string \<Rightarrow> string \<Rightarrow> bool" where
  "cell_kept before after \<longleftrightarrow> before = '''' \<or> after = before"

definition validate_recovery_commits_transition :: "operation_record \<Rightarrow> operation_record \<Rightarrow> unit res" where
  "validate_recovery_commits_transition current updated =
     (case o_recoveryCommits current of
        None \<Rightarrow> Inr ()
      | Some before \<Rightarrow>
          (case o_recoveryCommits updated of
             None \<Rightarrow> Inl (RuntimeError ''recorded lifecycle recovery commits cannot be cleared'')
           | Some after \<Rightarrow>
               if cell_kept (rc_codeCommit before) (rc_codeCommit after) \<and>
                  cell_kept (rc_memoryContentCommit before) (rc_memoryContentCommit after) \<and>
                  cell_kept (rc_ledgerCommit before) (rc_ledgerCommit after)
               then Inr ()
               else Inl (RuntimeError ''recorded lifecycle recovery commits can only fill empty cells'')))"

definition same_identity :: "operation_record \<Rightarrow> operation_record \<Rightarrow> bool" where
  "same_identity current updated \<longleftrightarrow>
     o_taskId current = o_taskId updated \<and> o_taskName current = o_taskName updated \<and>
     o_contractPath current = o_contractPath updated \<and> o_operationKind current = o_operationKind updated \<and>
     o_candidateState current = o_candidateState updated \<and> o_candidateTree current = o_candidateTree updated \<and>
     o_fingerprint current = o_fingerprint updated"

definition validate_transition :: "operation_record \<Rightarrow> operation_record \<Rightarrow> unit res" where
  "validate_transition current updated =
     (if \<not> same_identity current updated
      then Inl (RuntimeError ''lifecycle operation transition cannot change its identity'')
      else if o_operationKey updated \<noteq> o_operationKey current \<or> o_input updated \<noteq> o_input current
      then Inl (RuntimeError ''lifecycle operation transition cannot change its durable input'')
      else if o_status updated \<notin> set (ALLOWED_TRANSITIONS (o_status current))
      then Inl (RuntimeError ''invalid lifecycle operation transition'')
      else if o_approvalClaimed current \<and> \<not> o_approvalClaimed updated
      then Inl (RuntimeError ''a claimed approval cannot become unclaimed'')
      else rbind (validate_recovery_commits_transition current updated) (\<lambda>_.
        if o_irreversibleBoundaryEntered current \<and> \<not> o_irreversibleBoundaryEntered updated
        then Inl (RuntimeError ''an entered irreversible boundary cannot be cleared'')
        else if o_status updated = OpCancelled \<and> o_irreversibleBoundaryEntered current
        then Inl (RuntimeError ''a lifecycle operation cannot cancel after its irreversible boundary'')
        else Inr ()))"

subsection \<open>The store\<close>

definition operation_kind_str :: "operation_kind \<Rightarrow> string" where
  "operation_kind_str k = (case k of OpCloseout \<Rightarrow> ''closeout'' | OpIntegrate \<Rightarrow> ''integrate'')"

definition operation_record_path :: "path \<Rightarrow> operation_kind \<Rightarrow> path" where
  "operation_record_path worktree_grp k = worktree_grp @ [''reports'', operation_kind_str k @ ''-operation.json'']"

definition operation_report_path :: "path \<Rightarrow> operation_kind \<Rightarrow> path" where
  "operation_report_path worktree_grp k = worktree_grp @ [''reports'', operation_kind_str k @ ''-operation.log'']"

definition operation_read :: "operation_file \<Rightarrow> operation_record option res" where
  "operation_read f =
     (case f of
        OpAbsent \<Rightarrow> Inr None
      | OpInvalid \<Rightarrow> Inl (RuntimeError ''invalid lifecycle operation record'')
      | OpRecord r \<Rightarrow> if operation_ok r then Inr (Some r) else Inl (RuntimeError ''invalid lifecycle operation record''))"

definition operation_write :: "operation_record \<Rightarrow> (operation_file, unit) prog" where
  "operation_write r = sbind (slift (operation_validated r)) (\<lambda>v. smodify (\<lambda>_. OpRecord v))"

definition operation_create ::
  "process \<Rightarrow> path \<Rightarrow> operation_record \<Rightarrow> (operation_file, operation_record \<times> bool) prog" where
  "operation_create p path r =
     exclusive_access p OPERATION_OWNERSHIP path
       (sbind (sget operation_read) (\<lambda>current.
          case current of
            Some c \<Rightarrow> sret (c, False)
          | None \<Rightarrow> sbind (operation_write r) (\<lambda>_. sret (r, True))))"

definition operation_update :: "process \<Rightarrow> path \<Rightarrow> transform \<Rightarrow> (operation_file, operation_record) prog" where
  "operation_update p path f =
     exclusive_access p OPERATION_OWNERSHIP path
       (sbind (sget operation_read) (\<lambda>current.
          case current of
            None \<Rightarrow> slift (Inl (RuntimeError ''lifecycle operation record does not exist''))
          | Some c \<Rightarrow>
              sbind (slift (rbind (f c) operation_validated)) (\<lambda>updated.
              sbind (slift (validate_transition c updated)) (\<lambda>_.
              sbind (operation_write updated) (\<lambda>_. sret updated)))))"

definition replace_for_recovery ::
  "process \<Rightarrow> path \<Rightarrow> transform \<Rightarrow> int \<Rightarrow> (operation_file, operation_record \<times> bool) prog" where
  "replace_for_recovery p path f expected_attempt =
     exclusive_access p OPERATION_OWNERSHIP path
       (sbind (sget operation_read) (\<lambda>current.
          case current of
            None \<Rightarrow> slift (Inl (RuntimeError ''a completed lifecycle operation cannot recover in place''))
          | Some c \<Rightarrow>
              if o_attempt c \<noteq> expected_attempt then sret (c, False)
              else if o_status c = OpCompleted
              then slift (Inl (RuntimeError ''a completed lifecycle operation cannot recover in place''))
              else if o_status c \<in> {OpFailed, OpCancelled} \<and> o_irreversibleBoundaryEntered c
              then slift (Inl (RuntimeError ''a terminal operation past its boundary cannot restart''))
              else sbind (slift (rbind (f c) operation_validated)) (\<lambda>updated.
                     if o_fingerprint updated \<noteq> o_fingerprint c
                     then slift (Inl (RuntimeError ''lifecycle operation recovery cannot change its fingerprint''))
                     else sbind (operation_write updated) (\<lambda>_. sret (updated, True)))))"

definition replace_terminal :: "process \<Rightarrow> path \<Rightarrow> operation_record \<Rightarrow> (operation_file, operation_record) prog" where
  "replace_terminal p path candidate =
     exclusive_access p OPERATION_OWNERSHIP path
       (sbind (sget operation_read) (\<lambda>current.
          case current of
            None \<Rightarrow> slift (Inl (RuntimeError ''an active lifecycle operation cannot be replaced''))
          | Some c \<Rightarrow>
              if o_status c \<notin> set TERMINAL_OPERATIONS
              then slift (Inl (RuntimeError ''an active lifecycle operation cannot be replaced''))
              else if o_taskId candidate \<noteq> o_taskId c \<or> o_taskName candidate \<noteq> o_taskName c \<or>
                      o_contractPath candidate \<noteq> o_contractPath c \<or> o_operationKind candidate \<noteq> o_operationKind c
              then slift (Inl (RuntimeError ''a sequential lifecycle operation cannot change its task''))
              else sbind (slift (operation_validated (candidate\<lparr>o_attempt := o_attempt c + 1\<rparr>))) (\<lambda>v.
                     sbind (operation_write v) (\<lambda>_. sret v))))"

subsection \<open>What a successful write means\<close>

lemma operation_validated_Inr [simp]: "operation_validated r = Inr v \<longleftrightarrow> operation_ok r \<and> v = r"
  by (auto simp: operation_validated_def)

lemma operation_write_run: "operation_ok r \<Longrightarrow> operation_write r f = (Inr (), OpRecord r)"
  by (simp add: operation_write_def operation_validated_def smodify_def)

lemma operation_read_Some [simp]: "operation_read f = Inr (Some c) \<longleftrightarrow> f = OpRecord c \<and> operation_ok c"
  by (cases f) (auto simp: operation_read_def)

lemma operation_read_None [simp]: "operation_read f = Inr None \<longleftrightarrow> f = OpAbsent"
  by (cases f) (auto simp: operation_read_def)

text \<open>The relation between a snapshot and a later one of the same operation.\<close>

definition commits_grow :: "recovery_commits option \<Rightarrow> recovery_commits option \<Rightarrow> bool" where
  "commits_grow before after \<longleftrightarrow>
     (case before of
        None \<Rightarrow> True
      | Some b \<Rightarrow> (case after of
           None \<Rightarrow> False
         | Some a \<Rightarrow> cell_kept (rc_codeCommit b) (rc_codeCommit a) \<and>
             cell_kept (rc_memoryContentCommit b) (rc_memoryContentCommit a) \<and>
             cell_kept (rc_ledgerCommit b) (rc_ledgerCommit a)))"

definition continues :: "operation_record \<Rightarrow> operation_record \<Rightarrow> bool" where
  "continues c u \<longleftrightarrow>
     same_identity c u \<and> o_operationKey u = o_operationKey c \<and> o_input u = o_input c \<and>
     (o_approvalClaimed c \<longrightarrow> o_approvalClaimed u) \<and>
     (o_irreversibleBoundaryEntered c \<longrightarrow> o_irreversibleBoundaryEntered u) \<and>
     commits_grow (o_recoveryCommits c) (o_recoveryCommits u)"

lemma validate_recovery_Inr:
  "validate_recovery_commits_transition c u = Inr () \<longleftrightarrow> commits_grow (o_recoveryCommits c) (o_recoveryCommits u)"
  by (auto simp: validate_recovery_commits_transition_def commits_grow_def split: option.splits if_splits)

lemma validate_transition_Inr:
  "validate_transition c u = Inr () \<longleftrightarrow>
     continues c u \<and> o_status u \<in> set (ALLOWED_TRANSITIONS (o_status c)) \<and>
     \<not> (o_status u = OpCancelled \<and> o_irreversibleBoundaryEntered c)"
  by (auto simp: validate_transition_def continues_def rbind_eq_Inr validate_recovery_Inr)

lemma operation_update_Inr:
  "operation_update p path f s = (Inr u, s') \<longleftrightarrow>
     access_guard p OPERATION_OWNERSHIP path = Inr () \<and>
     (\<exists>c. s = OpRecord c \<and> operation_ok c \<and> f c = Inr u \<and> operation_ok u \<and> validate_transition c u = Inr () \<and>
          s' = OpRecord u)"
  by (auto simp: operation_update_def exclusive_access_Inr sbind_eq_Inr rbind_eq_Inr operation_write_def
      split: option.splits)

lemma operation_update_Inl: "operation_update p path f s = (Inl e, s') \<Longrightarrow> s' = s"
  by (cases "access_guard p OPERATION_OWNERSHIP path"; cases "operation_read s")
    (auto simp: operation_update_def sbind_sget sbind_def slift_def operation_write_run rbind_eq_Inr sret_def
      split: option.splits sum.splits prod.splits)

lemma replace_for_recovery_Inr:
  "replace_for_recovery p path f n s = (Inr (u, b), s') \<longleftrightarrow>
     access_guard p OPERATION_OWNERSHIP path = Inr () \<and>
     (\<exists>c. s = OpRecord c \<and> operation_ok c \<and>
       (if o_attempt c \<noteq> n then u = c \<and> \<not> b \<and> s' = s
        else b \<and> o_status c \<noteq> OpCompleted \<and>
             \<not> (o_status c \<in> {OpFailed, OpCancelled} \<and> o_irreversibleBoundaryEntered c) \<and>
             f c = Inr u \<and> operation_ok u \<and> o_fingerprint u = o_fingerprint c \<and> s' = OpRecord u))"
  by (auto simp: replace_for_recovery_def exclusive_access_Inr sbind_eq_Inr rbind_eq_Inr operation_write_def
      split: option.splits if_splits)

lemma replace_terminal_Inr:
  "replace_terminal p path candidate s = (Inr v, s') \<longleftrightarrow>
     access_guard p OPERATION_OWNERSHIP path = Inr () \<and>
     (\<exists>c. s = OpRecord c \<and> operation_ok c \<and> o_status c \<in> set TERMINAL_OPERATIONS \<and>
       o_taskId candidate = o_taskId c \<and> o_taskName candidate = o_taskName c \<and>
       o_contractPath candidate = o_contractPath c \<and> o_operationKind candidate = o_operationKind c \<and>
       v = candidate\<lparr>o_attempt := o_attempt c + 1\<rparr> \<and> operation_ok v \<and> s' = OpRecord v)"
  by (auto simp: replace_terminal_def exclusive_access_Inr sbind_eq_Inr operation_write_def
      split: option.splits if_splits)

lemma operation_create_Inr:
  "operation_create p path r s = (Inr (c, b), s') \<longleftrightarrow>
     access_guard p OPERATION_OWNERSHIP path = Inr () \<and>
     (if b then s = OpAbsent \<and> operation_ok r \<and> c = r \<and> s' = OpRecord r
      else s = OpRecord c \<and> operation_ok c \<and> s' = s)"
  by (auto simp: operation_create_def exclusive_access_Inr sbind_eq_Inr operation_write_def
      split: option.splits if_splits)

end
