(* ===== verification/Operation_Control.thy ===== *)
theory Operation_Control
  imports Operation_Store
begin

section \<open>Starting, observing, recovering and cancelling an operation\<close>

text \<open>
  \<^verbatim>\<open>worktrees/lifecycle_operations.py\<close>. The loaded task contract is an argument (the cells an operation reads), as are the
  digests (\<^verbatim>\<open>hashlib\<close> over canonical JSON), path resolution, the text of an exception, the git tree of the candidate and the
  spawning of the worker process. \<open>now\<close> is the clock reading of the call; the code cuts it to whole seconds.

  A start first creates the record if there is none; a record with another fingerprint is a conflict unless it is over; a
  record that is stale, needs input past its boundary, or ended before its boundary is queued again under the attempt number
  that was read; whoever created or queued it launches the worker.
\<close>

record operation_contract =
  wc_task_id :: string
  wc_task_name :: string
  wc_contract_path :: path
  wc_worktree_group :: path
  wc_closeout_status :: string
  wc_code_commit :: string
  wc_memory_content_commit :: string
  wc_ledger_commit :: string
  wc_integration_status :: string
  wc_integrated_code_commit :: string
  wc_integrated_memory_content_commit :: string
  wc_integrated_ledger_commit :: string
  wc_cleanup :: string

record operation_env =
  oe_codec :: iso_codec
  oe_payload_digest :: "json \<Rightarrow> string"
  oe_text_digest :: "string \<Rightarrow> string"
  oe_resolve :: "string \<Rightarrow> path"
  oe_resolve_path :: "path \<Rightarrow> path"
  oe_str_error :: "py_error \<Rightarrow> string"
  oe_str_json :: "json \<Rightarrow> string"

record candidate_identity =
  cand_state :: string
  cand_tree :: "string option"
  cand_fingerprint :: string

record operation_projection =
  op_kind :: operation_kind
  op_status :: operation_status
  op_phase :: operation_phase
  op_startedAt :: "string option"
  op_heartbeatAt :: "string option"
  op_finishedAt :: "string option"
  op_elapsedSeconds :: seconds
  op_currentCommand :: string
  op_reportPath :: string
  op_result :: "(string \<times> json) list option"
  op_failure :: "string option"
  op_guidance :: "string option"
  op_cancellable :: bool

type_synonym launcher = "operation_record \<Rightarrow> (operation_file, unit) prog"

definition STALE_HEARTBEAT_SECONDS :: seconds where
  "STALE_HEARTBEAT_SECONDS = 30"

definition COMMAND_EVIDENCE_LIMIT :: nat where
  "COMMAND_EVIDENCE_LIMIT = 320"

subsection \<open>Fingerprints\<close>

definition input_kind :: "operation_input \<Rightarrow> operation_kind" where
  "input_kind inp = (case inp of CloseoutInput _ \<Rightarrow> OpCloseout | IntegrateInput _ \<Rightarrow> OpIntegrate)"

definition input_contract_path :: "operation_input \<Rightarrow> string" where
  "input_contract_path inp = (case inp of CloseoutInput c \<Rightarrow> ci_contractPath c | IntegrateInput i \<Rightarrow> ii_contractPath i)"

definition dump_rule :: "gate_policy_rule_snapshot \<Rightarrow> json" where
  "dump_rule r = JObj [(''kind'', JStr (ps_kind r)),
     (''delegatedRole'', case ps_delegatedRole r of None \<Rightarrow> JNull | Some x \<Rightarrow> JStr x),
     (''requireReviewerVerdict'', JBool (ps_requireReviewerVerdict r))]"

fun dump_input :: "operation_input \<Rightarrow> json" where
  "dump_input (CloseoutInput c) = JObj
     [(''kind'', JStr ''closeout''), (''configPath'', JStr (ci_configPath c)), (''contractPath'', JStr (ci_contractPath c)),
      (''codeCommitMessage'', JStr (ci_codeCommitMessage c)), (''memoryCommitMessage'', JStr (ci_memoryCommitMessage c)),
      (''ledgerCommitMessage'', JStr (ci_ledgerCommitMessage c)), (''approvalNote'', JStr (ci_approvalNote c)),
      (''gatePolicy'', JList (map dump_rule (ci_gatePolicy c)))]"
| "dump_input (IntegrateInput i) = JObj
     [(''kind'', JStr ''integrate''), (''configPath'', JStr (ii_configPath i)), (''contractPath'', JStr (ii_contractPath i)),
      (''strategy'', JStr (case ii_strategy i of FfOnly \<Rightarrow> ''ff-only'' | Replay \<Rightarrow> ''replay'')),
      (''ledgerCommitMessage'', JStr (ii_ledgerCommitMessage i)), (''gatePolicy'', JList (map dump_rule (ii_gatePolicy i))),
      (''autoCompleteSeats'', JBool (ii_autoCompleteSeats i))]"

definition operation_fingerprint :: "operation_env \<Rightarrow> operation_input \<Rightarrow> string" where
  "operation_fingerprint env inp = oe_payload_digest env (dump_input inp)"

definition operation_state_fingerprint :: "operation_env \<Rightarrow> operation_contract \<Rightarrow> string" where
  "operation_state_fingerprint env c = oe_payload_digest env (JObj
     [(''closeoutStatus'', JStr (wc_closeout_status c)), (''codeCommit'', JStr (wc_code_commit c)),
      (''memoryContentCommit'', JStr (wc_memory_content_commit c)), (''ledgerCommit'', JStr (wc_ledger_commit c)),
      (''integrationStatus'', JStr (wc_integration_status c)),
      (''integratedCodeCommit'', JStr (wc_integrated_code_commit c)),
      (''integratedMemoryContentCommit'', JStr (wc_integrated_memory_content_commit c)),
      (''integratedLedgerCommit'', JStr (wc_integrated_ledger_commit c)), (''cleanup'', JStr (wc_cleanup c))])"

definition operation_key :: "operation_env \<Rightarrow> path \<Rightarrow> operation_kind \<Rightarrow> string \<Rightarrow> string" where
  "operation_key env contract_path kind fingerprint =
     oe_text_digest env (path_str (oe_resolve_path env contract_path) @ [CHR 0x00] @ operation_kind_str kind @ [CHR 0x00] @
       fingerprint)"

definition candidate_fingerprint :: "operation_env \<Rightarrow> operation_input \<Rightarrow> string \<Rightarrow> string option \<Rightarrow> string" where
  "candidate_fingerprint env inp state tree = oe_payload_digest env (JObj
     [(''input'', dump_input inp), (''candidateState'', JStr state),
      (''candidateTree'', case tree of None \<Rightarrow> JNull | Some t \<Rightarrow> JStr t)])"

definition candidate_tree :: "operation_kind \<Rightarrow> string res \<Rightarrow> string option res" where
  "candidate_tree kind worktree_tree = (if kind \<noteq> OpCloseout then Inr None else rbind worktree_tree (\<lambda>t. Inr (Some t)))"

definition queued_record ::
  "operation_env \<Rightarrow> operation_contract \<Rightarrow> operation_input \<Rightarrow> candidate_identity \<Rightarrow> clock \<Rightarrow> operation_record" where
  "queued_record env contract inp candidate timestamp =
     \<lparr>o_schemaVersion = ''1.0'', o_taskId = wc_task_id contract, o_taskName = wc_task_name contract,
      o_contractPath = path_str (wc_contract_path contract), o_operationKind = input_kind inp,
      o_candidateState = cand_state candidate, o_candidateTree = cand_tree candidate,
      o_fingerprint = cand_fingerprint candidate,
      o_operationKey = operation_key env (wc_contract_path contract) (input_kind inp) (cand_fingerprint candidate),
      o_input = inp, o_status = OpQueued, o_phase = PhQueued, o_queuedAt = isoformat (oe_codec env) (utc timestamp),
      o_startedAt = None, o_heartbeatAt = None, o_finishedAt = None,
      o_currentCommand = ''waiting to start '' @ operation_kind_str (input_kind inp),
      o_reportPath = path_str (operation_report_path (wc_worktree_group contract) (input_kind inp)),
      o_result = None, o_failure = None, o_guidance = None, o_cancelRequested = False,
      o_irreversibleBoundaryEntered = False, o_approvalClaimed = False, o_recoveryCommits = None, o_attempt = 1,
      o_workerPid = None\<rparr>"

definition validate_input_identity :: "operation_env \<Rightarrow> operation_contract \<Rightarrow> operation_input \<Rightarrow> unit res" where
  "validate_input_identity env contract inp =
     (if oe_resolve env (input_contract_path inp) \<noteq> oe_resolve_path env (wc_contract_path contract)
      then Inl (RuntimeError ''lifecycle operation input does not resolve to its loaded contract'')
      else case inp of
             CloseoutInput c \<Rightarrow>
               if strip (ci_approvalNote c) = ''''
               then Inl (RuntimeError ''closeout apply requires a non-empty approval intent note'') else Inr ()
           | IntegrateInput _ \<Rightarrow> Inr ())"

subsection \<open>Recovery\<close>

definition parse_stamp :: "iso_codec \<Rightarrow> string \<Rightarrow> datetime res" where
  "parse_stamp c value =
     (case fromisoformat c value of None \<Rightarrow> Inl (ValueError ''Invalid isoformat string'') | Some t \<Rightarrow> Inr (as_utc t))"

definition requeued :: "operation_env \<Rightarrow> clock \<Rightarrow> operation_record \<Rightarrow> operation_record" where
  "requeued env timestamp r =
     r\<lparr>o_status := OpQueued, o_phase := (if o_irreversibleBoundaryEntered r then PhRecoveringAfterClaim else PhQueued),
       o_queuedAt := isoformat (oe_codec env) (utc timestamp), o_heartbeatAt := None, o_finishedAt := None,
       o_failure := None, o_guidance := None, o_currentCommand := ''recovering the same task-bound operation'',
       o_attempt := o_attempt r + 1, o_workerPid := None, o_cancelRequested := False\<rparr>"

definition recoverable_stale :: "iso_codec \<Rightarrow> operation_record \<Rightarrow> clock \<Rightarrow> bool res" where
  "recoverable_stale c r now =
     (if o_status r \<notin> {OpQueued, OpRunning} then Inr False
      else rbind (parse_stamp c (the (str_or (o_heartbeatAt r) (Some (o_queuedAt r))))) (\<lambda>stamp.
             rbind (dt_sub (utc now) stamp) (\<lambda>d. Inr (STALE_HEARTBEAT_SECONDS < total_seconds d))))"

definition should_recover :: "iso_codec \<Rightarrow> operation_record \<Rightarrow> clock \<Rightarrow> bool res" where
  "should_recover c r now =
     rbind (recoverable_stale c r now) (\<lambda>stale.
       Inr (stale \<or> (o_status r = OpInputRequired \<and> o_irreversibleBoundaryEntered r) \<or>
            (o_status r \<in> {OpFailed, OpCancelled} \<and> \<not> o_irreversibleBoundaryEntered r)))"

subsection \<open>Launching\<close>

definition worker_spawned :: "operation_record \<Rightarrow> int \<Rightarrow> operation_record \<Rightarrow> operation_record" where
  "worker_spawned launched pid current =
     (if o_status current = OpQueued \<and> o_fingerprint current = o_fingerprint launched
      then current\<lparr>o_workerPid := Some pid\<rparr> else current)"

definition launch_detached_worker :: "process \<Rightarrow> path \<Rightarrow> int res \<Rightarrow> launcher" where
  "launch_detached_worker p path spawned launched =
     sbind (slift spawned) (\<lambda>pid.
     sbind (operation_update p path (\<lambda>current. Inr (worker_spawned launched pid current))) (\<lambda>_. sret ()))"

definition launch_failed :: "string \<Rightarrow> string \<Rightarrow> operation_record \<Rightarrow> operation_record" where
  "launch_failed stamp failure current =
     current\<lparr>o_status := OpFailed, o_phase := PhFailed, o_finishedAt := Some stamp, o_failure := Some failure,
       o_guidance := Some ''Fix the native runner environment, then start the same task operation again.''\<rparr>"

text \<open>The exception of the launcher is recorded and raised again, unless recording it raises.\<close>

definition launch_or_fail ::
  "operation_env \<Rightarrow> process \<Rightarrow> path \<Rightarrow> launcher \<Rightarrow> string \<Rightarrow> operation_record \<Rightarrow> (operation_file, unit) prog" where
  "launch_or_fail env p path launch stamp r s =
     (case launch r s of
        (Inr u, s') \<Rightarrow> (Inr u, s')
      | (Inl e, s') \<Rightarrow>
          sbind (operation_update p path (\<lambda>current. Inr (launch_failed stamp
                   (''detached worker could not start: '' @ oe_str_error env e) current)))
            (\<lambda>_. slift (Inl e)) s')"

subsection \<open>The calls\<close>

definition whole_second :: "clock \<Rightarrow> clock" where
  "whole_second n = n div 1000000 * 1000000"

definition operation_view :: "iso_codec \<Rightarrow> operation_record \<Rightarrow> clock \<Rightarrow> operation_projection res" where
  "operation_view c r now =
     rbind (parse_stamp c (the (str_or (o_startedAt r) (Some (o_queuedAt r))))) (\<lambda>start.
     rbind (if truthy (o_finishedAt r) then parse_stamp c (the (o_finishedAt r)) else Inr (utc now)) (\<lambda>finish.
     rbind (dt_sub finish start) (\<lambda>d. Inr
       \<lparr>op_kind = o_operationKind r, op_status = o_status r, op_phase = o_phase r, op_startedAt = o_startedAt r,
        op_heartbeatAt = o_heartbeatAt r, op_finishedAt = o_finishedAt r, op_elapsedSeconds = max 0 (total_seconds d),
        op_currentCommand = take COMMAND_EVIDENCE_LIMIT (o_currentCommand r), op_reportPath = o_reportPath r,
        op_result = o_result r, op_failure = o_failure r, op_guidance = o_guidance r,
        op_cancellable = (o_status r \<in> {OpQueued, OpRunning, OpInputRequired} \<and> \<not> o_irreversibleBoundaryEntered r)\<rparr>)))"

definition settle_conflict ::
  "process \<Rightarrow> path \<Rightarrow> operation_record \<Rightarrow> operation_record \<times> bool \<Rightarrow> (operation_file, operation_record \<times> bool) prog" where
  "settle_conflict p path candidate = (\<lambda>(current, created).
     if o_fingerprint current \<noteq> o_fingerprint candidate
     then if o_status current \<notin> {OpCompleted, OpFailed, OpCancelled}
          then slift (Inl (RuntimeError ''conflicting operation already exists''))
          else if o_status current = OpCompleted \<and> o_candidateState current = o_candidateState candidate
          then slift (Inl (RuntimeError ''conflicting parameters target an already completed task state''))
          else sbind (replace_terminal p path candidate) (\<lambda>c. sret (c, True))
     else sret (current, created))"

definition recover_if_due ::
  "operation_env \<Rightarrow> process \<Rightarrow> path \<Rightarrow> clock \<Rightarrow> operation_record \<times> bool \<Rightarrow> (operation_file, operation_record \<times> bool) prog" where
  "recover_if_due env p path timestamp = (\<lambda>(current, created).
     if created then sret (current, True)
     else sbind (slift (should_recover (oe_codec env) current timestamp)) (\<lambda>due.
            if due then replace_for_recovery p path (\<lambda>r. Inr (requeued env timestamp r)) (o_attempt current)
            else sret (current, False)))"

definition launch_if_needed ::
  "operation_env \<Rightarrow> process \<Rightarrow> path \<Rightarrow> launcher \<Rightarrow> string \<Rightarrow> operation_record \<times> bool \<Rightarrow> (operation_file, operation_record) prog" where
  "launch_if_needed env p path launch stamp = (\<lambda>(current, should_launch).
     if should_launch
     then sbind (launch_or_fail env p path launch stamp current) (\<lambda>_.
          sbind (sget operation_read) (\<lambda>r. sret (case r of None \<Rightarrow> current | Some c \<Rightarrow> c)))
     else sret current)"

definition start_or_observe_operation ::
  "operation_env \<Rightarrow> process \<Rightarrow> operation_contract \<Rightarrow> operation_input \<Rightarrow> string res \<Rightarrow> launcher \<Rightarrow> clock \<Rightarrow> string \<Rightarrow>
   (operation_file, operation_projection) prog" where
  "start_or_observe_operation env p contract inp worktree_tree launch now fail_stamp =
     sbind (slift (validate_input_identity env contract inp)) (\<lambda>_.
     let state = operation_state_fingerprint env contract in
     sbind (slift (candidate_tree (input_kind inp) worktree_tree)) (\<lambda>tree.
     let timestamp = whole_second now;
         path = operation_record_path (wc_worktree_group contract) (input_kind inp);
         candidate = queued_record env contract inp
           \<lparr>cand_state = state, cand_tree = tree, cand_fingerprint = candidate_fingerprint env inp state tree\<rparr> timestamp in
     sbind (operation_create p path candidate) (\<lambda>x.
     sbind (settle_conflict p path candidate x) (\<lambda>x.
     sbind (recover_if_due env p path timestamp x) (\<lambda>x.
     sbind (launch_if_needed env p path launch fail_stamp x) (\<lambda>current.
       slift (operation_view (oe_codec env) current timestamp)))))))"

definition observe_operation :: "iso_codec \<Rightarrow> clock \<Rightarrow> operation_file \<Rightarrow> operation_projection option res" where
  "observe_operation c now s =
     rbind (operation_read s) (\<lambda>r. case r of
       None \<Rightarrow> Inr None
     | Some current \<Rightarrow> rbind (operation_view c current now) (\<lambda>v. Inr (Some v)))"

definition record_sort_stamp :: "operation_record \<Rightarrow> string" where
  "record_sort_stamp r =
     the (str_or (o_finishedAt r) (str_or (o_heartbeatAt r) (str_or (o_startedAt r) (Some (o_queuedAt r)))))"

definition latest_operation_projection ::
  "iso_codec \<Rightarrow> clock \<Rightarrow> operation_file \<Rightarrow> operation_file \<Rightarrow> operation_projection option res" where
  "latest_operation_projection c now closeout_file integrate_file =
     rbind (operation_read closeout_file) (\<lambda>rc. rbind (operation_read integrate_file) (\<lambda>ri.
       let records = (case rc of None \<Rightarrow> [] | Some r \<Rightarrow> [r]) @ (case ri of None \<Rightarrow> [] | Some r \<Rightarrow> [r]);
           active = filter (\<lambda>r. o_status r \<in> {OpQueued, OpRunning, OpInputRequired}) records
       in case max_by record_sort_stamp (if active \<noteq> [] then active else records) of
            None \<Rightarrow> Inr None
          | Some selected \<Rightarrow> rbind (operation_view c selected now) (\<lambda>v. Inr (Some v))))"

definition cancel_request :: "string \<Rightarrow> operation_record \<Rightarrow> operation_record res" where
  "cancel_request stamp r =
     (if o_status r \<in> {OpCompleted, OpFailed, OpCancelled} then Inr r
      else if o_irreversibleBoundaryEntered r
      then Inl (RuntimeError ''cancellation is refused past the irreversible boundary'')
      else Inr (r\<lparr>o_status := OpCancelled, o_phase := PhCancelled, o_cancelRequested := True, o_finishedAt := Some stamp,
                  o_guidance := Some ''The task-bound operation was cancelled before approval claim.'',
                  o_workerPid := None\<rparr>))"

text \<open>The process group to signal is the worker of the record the request changed.\<close>

definition worker_to_signal :: "operation_file \<Rightarrow> int option" where
  "worker_to_signal s =
     (case s of
        OpRecord r \<Rightarrow> if o_status r \<in> {OpCompleted, OpFailed, OpCancelled} then None else o_workerPid r
      | _ \<Rightarrow> None)"

definition cancel_operation ::
  "iso_codec \<Rightarrow> process \<Rightarrow> path \<Rightarrow> string \<Rightarrow> clock \<Rightarrow> (operation_file, operation_projection \<times> int option) prog" where
  "cancel_operation c p path stamp now s =
     sbind (operation_update p path (cancel_request stamp)) (\<lambda>current.
       slift (rbind (operation_view c current now) (\<lambda>v. Inr (v, worker_to_signal s)))) s"

subsection \<open>A start that meets an existing record\<close>

text \<open>What a start has established when it comes to the store: its candidate's fingerprint.\<close>

definition start_ready ::
  "operation_env \<Rightarrow> process \<Rightarrow> operation_contract \<Rightarrow> operation_input \<Rightarrow> string res \<Rightarrow> string \<Rightarrow> bool" where
  "start_ready env p contract inp worktree_tree fingerprint \<longleftrightarrow>
     validate_input_identity env contract inp = Inr () \<and>
     access_guard p OPERATION_OWNERSHIP (operation_record_path (wc_worktree_group contract) (input_kind inp)) = Inr () \<and>
     (\<exists>tree. candidate_tree (input_kind inp) worktree_tree = Inr tree \<and>
        fingerprint = candidate_fingerprint env inp (operation_state_fingerprint env contract) tree)"

lemma operation_create_existing:
  "access_guard p OPERATION_OWNERSHIP path = Inr () \<Longrightarrow> operation_ok c \<Longrightarrow>
   operation_create p path r (OpRecord c) = (Inr (c, False), OpRecord c)"
  by (simp add: operation_create_Inr)

lemma start_same_fingerprint:
  assumes "start_ready env p contract inp worktree_tree (o_fingerprint c)" "operation_ok c"
  shows "start_or_observe_operation env p contract inp worktree_tree launch now fail_stamp (OpRecord c) =
    (let path = operation_record_path (wc_worktree_group contract) (input_kind inp); timestamp = whole_second now in
     sbind (recover_if_due env p path timestamp (c, False)) (\<lambda>x.
     sbind (launch_if_needed env p path launch fail_stamp x) (\<lambda>current.
       slift (operation_view (oe_codec env) current timestamp))) (OpRecord c))"
proof -
  let ?path = "operation_record_path (wc_worktree_group contract) (input_kind inp)"
  from assms(1) obtain tree where r: "validate_input_identity env contract inp = Inr ()"
    "access_guard p OPERATION_OWNERSHIP ?path = Inr ()" "candidate_tree (input_kind inp) worktree_tree = Inr tree"
    "o_fingerprint c = candidate_fingerprint env inp (operation_state_fingerprint env contract) tree"
    unfolding start_ready_def by blast
  have "sbind (operation_create p ?path r) f (OpRecord c) = f (c, False) (OpRecord c)"
    for r and f :: "operation_record \<times> bool \<Rightarrow> (operation_file, operation_projection) prog"
    using operation_create_existing [OF r(2) assms(2)] by (rule sbind_Inr)
  moreover have "settle_conflict p ?path
      (queued_record env contract inp \<lparr>cand_state = st, cand_tree = tree, cand_fingerprint = o_fingerprint c\<rparr> ts) (c, False) =
      sret (c, False)" for st ts
    by (simp add: settle_conflict_def queued_record_def)
  ultimately show ?thesis
    using r by (simp add: start_or_observe_operation_def Let_def)
qed

lemma start_conflict:
  assumes "start_ready env p contract inp worktree_tree fingerprint" "operation_ok c" "o_fingerprint c \<noteq> fingerprint"
    "o_status c \<in> {OpQueued, OpRunning, OpInputRequired}"
  shows "start_or_observe_operation env p contract inp worktree_tree launch now fail_stamp (OpRecord c) =
    (Inl (RuntimeError ''conflicting operation already exists''), OpRecord c)"
proof -
  let ?path = "operation_record_path (wc_worktree_group contract) (input_kind inp)"
  from assms(1) obtain tree where r: "validate_input_identity env contract inp = Inr ()"
    "access_guard p OPERATION_OWNERSHIP ?path = Inr ()" "candidate_tree (input_kind inp) worktree_tree = Inr tree"
    "fingerprint = candidate_fingerprint env inp (operation_state_fingerprint env contract) tree"
    unfolding start_ready_def by blast
  have "sbind (operation_create p ?path r) f (OpRecord c) = f (c, False) (OpRecord c)"
    for r and f :: "operation_record \<times> bool \<Rightarrow> (operation_file, operation_projection) prog"
    using operation_create_existing [OF r(2) assms(2)] by (rule sbind_Inr)
  moreover have "settle_conflict p ?path
      (queued_record env contract inp \<lparr>cand_state = st, cand_tree = tree, cand_fingerprint = fingerprint\<rparr> ts) (c, False) =
      slift (Inl (RuntimeError ''conflicting operation already exists''))" for st ts
    using assms(3,4) by (auto simp: settle_conflict_def queued_record_def)
  ultimately show ?thesis
    using r by (simp add: start_or_observe_operation_def Let_def)
qed

lemma operation_ok_requeued: "operation_ok c \<Longrightarrow> operation_ok (requeued env t c)"
  by (simp add: operation_ok_def requeued_def)

lemma recover_if_due_run:
  assumes "access_guard p OPERATION_OWNERSHIP path = Inr ()" "operation_ok c" "should_recover (oe_codec env) c t = Inr True"
  shows "recover_if_due env p path t (c, False) (OpRecord c) = (Inr (requeued env t c, True), OpRecord (requeued env t c))"
proof -
  have "o_status c \<noteq> OpCompleted" "\<not> (o_status c \<in> {OpFailed, OpCancelled} \<and> o_irreversibleBoundaryEntered c)"
    using assms(3) by (auto simp: should_recover_def recoverable_stale_def rbind_eq_Inr split: if_splits)
  then have "replace_for_recovery p path (\<lambda>r. Inr (requeued env t r)) (o_attempt c) (OpRecord c) =
      (Inr (requeued env t c, True), OpRecord (requeued env t c))"
    using assms(1,2) by (auto simp: replace_for_recovery_Inr operation_ok_requeued) (simp_all add: requeued_def)
  with assms(3) show ?thesis by (simp add: recover_if_due_def)
qed

lemma launch_failed_recorded:
  assumes "access_guard p OPERATION_OWNERSHIP path = Inr ()" "operation_ok c" "o_status c = OpQueued" "launch c (OpRecord c) = (Inl e, OpRecord c)"
  shows "launch_or_fail env p path launch stamp c (OpRecord c) =
    (Inl e, OpRecord (launch_failed stamp (''detached worker could not start: '' @ oe_str_error env e) c))"
proof -
  let ?u = "launch_failed stamp (''detached worker could not start: '' @ oe_str_error env e) c"
  have "operation_update p path (\<lambda>r. Inr (launch_failed stamp (''detached worker could not start: '' @ oe_str_error env e) r))
      (OpRecord c) = (Inr ?u, OpRecord ?u)"
    using assms by (auto simp: operation_update_Inr validate_transition_Inr continues_def same_identity_def commits_grow_def
        cell_kept_def launch_failed_def operation_ok_def split: option.splits)
  with assms(4) show ?thesis by (simp add: launch_or_fail_def sbind_Inr [of _ _ ?u] slift_def)
qed

end
