(* ===== verification/Operation_Worker.thy ===== *)
theory Operation_Worker
  imports Operation_Control
begin

section \<open>The detached worker and the runs of an operation\<close>

text \<open>
  \<^verbatim>\<open>application/lifecycle_operation_worker.py\<close>: what the worker writes into the record as it starts, advances, beats and
  finishes. The closeout or integrate work itself is an argument, a program over the record that returns a payload and whether
  it succeeded; its reports of progress are calls of \<open>runtime_progress\<close>.

  The second half is the machine: any process may start, cancel, launch, or be the worker, in any order. A snapshot evolves
  within one operation (\<open>continue_step\<close>) until it is over and a new one replaces it.
\<close>

record progress_evidence =
  pe_current_command :: "string option"
  pe_irreversible_boundary :: bool
  pe_approval_claimed :: bool
  pe_recovery_commits :: "recovery_commits option"

fun operation_phase_str :: "operation_phase \<Rightarrow> string" where
  "operation_phase_str PhQueued = ''queued''"
| "operation_phase_str PhPreflight = ''preflight''"
| "operation_phase_str PhMemoryPreflight = ''memory-preflight''"
| "operation_phase_str PhQuality = ''quality''"
| "operation_phase_str PhApprovalClaim = ''approval-claim''"
| "operation_phase_str PhRecoveringAfterClaim = ''recovering-after-claim''"
| "operation_phase_str PhCodeCommit = ''code-commit''"
| "operation_phase_str PhMemoryRefresh = ''memory-refresh''"
| "operation_phase_str PhMemoryCommit = ''memory-commit''"
| "operation_phase_str PhLedgerCommit = ''ledger-commit''"
| "operation_phase_str PhIntegrationReplay = ''integration-replay''"
| "operation_phase_str PhIntegrationQuality = ''integration-quality''"
| "operation_phase_str PhSourceMerge = ''source-merge''"
| "operation_phase_str PhContractFinalization = ''contract-finalization''"
| "operation_phase_str PhCompleted = ''completed''"
| "operation_phase_str PhFailed = ''failed''"
| "operation_phase_str PhCancelled = ''cancelled''"

definition json_get :: "(string \<times> json) list \<Rightarrow> string \<Rightarrow> json" where
  "json_get d k = (case dget d k of None \<Rightarrow> JNull | Some v \<Rightarrow> v)"

definition running :: "string \<Rightarrow> int \<Rightarrow> operation_record \<Rightarrow> operation_record" where
  "running stamp pid r =
     (if o_status r \<noteq> OpQueued then r
      else r\<lparr>o_status := OpRunning,
             o_phase := (if o_irreversibleBoundaryEntered r then PhRecoveringAfterClaim else PhPreflight),
             o_startedAt := str_or (o_startedAt r) (Some stamp), o_heartbeatAt := Some stamp,
             o_currentCommand := (if o_irreversibleBoundaryEntered r then ''recover task state''
                                  else ''validate lifecycle operation''),
             o_workerPid := Some pid\<rparr>)"

definition runtime_start :: "process \<Rightarrow> path \<Rightarrow> string \<Rightarrow> int \<Rightarrow> (operation_file, operation_record) prog" where
  "runtime_start p path stamp pid = operation_update p path (\<lambda>r. Inr (running stamp pid r))"

definition advance ::
  "string \<Rightarrow> operation_phase \<Rightarrow> progress_evidence \<Rightarrow> operation_record \<Rightarrow> operation_record" where
  "advance stamp ph ev r =
     (if o_cancelRequested r \<or> o_status r = OpCancelled then r
      else r\<lparr>o_status := OpRunning, o_phase := ph, o_heartbeatAt := Some stamp,
             o_currentCommand := the (str_or (pe_current_command ev) (Some (operation_phase_str ph))),
             o_irreversibleBoundaryEntered := o_irreversibleBoundaryEntered r \<or> pe_irreversible_boundary ev,
             o_approvalClaimed := o_approvalClaimed r \<or> pe_approval_claimed ev,
             o_recoveryCommits := (case pe_recovery_commits ev of None \<Rightarrow> o_recoveryCommits r | Some rc \<Rightarrow> Some rc)\<rparr>)"

definition checked_commits :: "recovery_commits option \<Rightarrow> unit res" where
  "checked_commits rc =
     (case rc of
        None \<Rightarrow> Inr ()
      | Some x \<Rightarrow> if recovery_commits_ok x then Inr ()
                  else Inl (ValidationError ''LifecycleOperationRecoveryCommits''))"

definition runtime_progress ::
  "process \<Rightarrow> path \<Rightarrow> string \<Rightarrow> operation_phase \<Rightarrow> progress_evidence \<Rightarrow> (operation_file, unit) prog" where
  "runtime_progress p path stamp ph ev =
     sbind (slift (checked_commits (pe_recovery_commits ev))) (\<lambda>_.
     sbind (operation_update p path (\<lambda>r. Inr (advance stamp ph ev r))) (\<lambda>current.
       if o_status current = OpCancelled then slift (Inl OperationCancelled) else sret ()))"

definition beat :: "string \<Rightarrow> string option \<Rightarrow> operation_record \<Rightarrow> operation_record" where
  "beat stamp command_evidence r =
     (if o_status r \<noteq> OpRunning then r
      else r\<lparr>o_heartbeatAt := Some stamp,
             o_currentCommand := the (str_or command_evidence (Some (o_currentCommand r)))\<rparr>)"

definition runtime_beat :: "process \<Rightarrow> path \<Rightarrow> string \<Rightarrow> string option \<Rightarrow> (operation_file, operation_record) prog" where
  "runtime_beat p path stamp command_evidence = operation_update p path (\<lambda>r. Inr (beat stamp command_evidence r))"

definition failure_text :: "operation_env \<Rightarrow> (string \<times> json) list \<Rightarrow> string" where
  "failure_text env payload =
     oe_str_json env
       (if json_truthy (json_get payload ''reason'') then json_get payload ''reason''
        else if json_truthy (json_get payload ''summary'') then json_get payload ''summary'' else JObj payload)"

definition terminal ::
  "operation_env \<Rightarrow> string \<Rightarrow> (string \<times> json) list \<Rightarrow> bool \<Rightarrow> operation_record \<Rightarrow> operation_record" where
  "terminal env stamp payload ok r =
     (if o_status r = OpCancelled then r
      else if ok
      then r\<lparr>o_status := OpCompleted, o_phase := PhCompleted, o_heartbeatAt := Some stamp, o_finishedAt := Some stamp,
             o_currentCommand := ''operation completed'', o_result := Some payload,
             o_guidance := Some ''Observe the task contract for the next lifecycle edge.'', o_workerPid := None\<rparr>
      else let needs_recovery = o_irreversibleBoundaryEntered r;
               needs_input = needs_recovery \<or> json_truthy (json_get payload ''developer_decision_required'')
           in r\<lparr>o_status := (if needs_input then OpInputRequired else OpFailed),
                o_phase := (if needs_recovery then PhContractFinalization else PhFailed),
                o_heartbeatAt := Some stamp, o_finishedAt := (if needs_input then None else Some stamp),
                o_currentCommand := (if needs_recovery then ''reconcile the same operation'' else ''operation failed''),
                o_result := Some payload, o_failure := Some (failure_text env payload),
                o_guidance := Some (if needs_recovery
                  then ''Restart this exact task operation; its consumed approval remains bound to the same internal fingerprint and recovery will not replay a different mutation.''
                  else if needs_input
                  then ''Resolve the reported developer decision, cancel this pre-boundary attempt, then start the task operation with the selected input.''
                  else ''Fix the reported preflight failure, then restart this task operation.''),
                o_workerPid := None\<rparr>)"

definition runtime_finish ::
  "operation_env \<Rightarrow> process \<Rightarrow> path \<Rightarrow> string \<Rightarrow> (string \<times> json) list \<Rightarrow> bool \<Rightarrow> (operation_file, operation_record) prog" where
  "runtime_finish env p path stamp payload ok = operation_update p path (\<lambda>r. Inr (terminal env stamp payload ok r))"

definition runtime_fail ::
  "operation_env \<Rightarrow> process \<Rightarrow> path \<Rightarrow> string \<Rightarrow> py_error \<Rightarrow> (operation_file, operation_record) prog" where
  "runtime_fail env p path stamp e = runtime_finish env p path stamp [(''reason'', JStr (oe_str_error env e))] False"

type_synonym operation_work = "operation_record \<Rightarrow> (operation_file, (string \<times> json) list \<times> bool) prog"

definition execute_operation ::
  "operation_env \<Rightarrow> process \<Rightarrow> path \<Rightarrow> string \<Rightarrow> operation_work \<Rightarrow> operation_record \<Rightarrow> (operation_file, unit) prog" where
  "execute_operation env p path stamp work r =
     sbind (work r) (\<lambda>(payload, ok). sbind (runtime_finish env p path stamp payload ok) (\<lambda>_. sret ()))"

definition run_worker ::
  "operation_env \<Rightarrow> process \<Rightarrow> path \<Rightarrow> operation_kind \<Rightarrow> string \<Rightarrow> int \<Rightarrow> string \<Rightarrow> operation_work \<Rightarrow> (operation_file, int) prog" where
  "run_worker env p path kind start_stamp pid finish_stamp work =
     sbind (sget operation_read) (\<lambda>r.
       case r of
         None \<Rightarrow> slift (Inl (RuntimeError ''no operation is queued''))
       | Some c \<Rightarrow>
           if o_operationKind c \<noteq> kind then slift (Inl (RuntimeError ''no operation is queued''))
           else sbind (runtime_start p path start_stamp pid) (\<lambda>current.
             if o_status current \<in> {OpCancelled, OpCompleted} then sret 0
             else if o_status current \<noteq> OpRunning
             then slift (Inl (RuntimeError ''worker cannot start from durable state''))
             else (\<lambda>s. case execute_operation env p path finish_stamp work current s of
                     (Inr _, s') \<Rightarrow> (Inr 0, s')
                   | (Inl OperationCancelled, s') \<Rightarrow> (Inr 0, s')
                   | (Inl e, s') \<Rightarrow> sbind (runtime_fail env p path finish_stamp e) (\<lambda>_. sret 1) s')))"

subsection \<open>The machine\<close>

text \<open>
  One write of a snapshot by the code: a transform of the starter, the canceller, the launcher or the worker under the store's
  guards, or a recovery. \<open>p\<close> is the process that writes.
\<close>

inductive continue_step :: "operation_env \<Rightarrow> path \<Rightarrow> operation_file \<Rightarrow> operation_file \<Rightarrow> bool" for env path where
  step_update: "operation_update p path f s = (Inr u, s') \<Longrightarrow> continue_step env path s s'"
| step_recover: "replace_for_recovery p path (\<lambda>r. Inr (requeued env timestamp r)) n s = (Inr (u, True), s') \<Longrightarrow>
    continue_step env path s s'"


lemma commits_grow_refl [simp]: "commits_grow rc rc"
  by (simp add: commits_grow_def cell_kept_def split: option.splits)

lemma cell_kept_trans: "cell_kept a b \<Longrightarrow> cell_kept b c \<Longrightarrow> cell_kept a c"
  by (auto simp: cell_kept_def)

lemma commits_grow_trans: "commits_grow a b \<Longrightarrow> commits_grow b c \<Longrightarrow> commits_grow a c"
  by (auto simp: commits_grow_def split: option.splits intro: cell_kept_trans)

lemma continues_refl [simp]: "continues c c"
  by (simp add: continues_def same_identity_def)

lemma continues_trans: "continues a b \<Longrightarrow> continues b c \<Longrightarrow> continues a c"
  unfolding continues_def same_identity_def using commits_grow_trans by metis

lemma continues_requeued: "continues c (requeued env t c)"
  by (simp add: continues_def same_identity_def requeued_def)

text \<open>
  What the file holds along a run from \<open>c\<close>: a snapshot that continues it, still completed if \<open>c\<close> was, and not cancelled if \<open>c\<close>
  was past its boundary and not cancelled.
\<close>

definition holds_continuation :: "operation_record \<Rightarrow> operation_file \<Rightarrow> bool" where
  "holds_continuation c s \<longleftrightarrow>
     (\<exists>u. s = OpRecord u \<and> operation_ok u \<and> continues c u \<and> (o_status c = OpCompleted \<longrightarrow> o_status u = OpCompleted) \<and>
        (o_irreversibleBoundaryEntered c \<and> o_status c \<noteq> OpCancelled \<longrightarrow> o_status u \<noteq> OpCancelled))"

lemma continue_step_continues:
  assumes "continue_step env path (OpRecord c) s'"
  shows "holds_continuation c s'"
  using assms
proof (cases rule: continue_step.cases)
  case step_update
  then show ?thesis
    unfolding holds_continuation_def by (auto simp: operation_update_Inr validate_transition_Inr)
next
  case step_recover
  then show ?thesis
    unfolding holds_continuation_def
    by (auto simp: replace_for_recovery_Inr continues_requeued split: if_splits) (simp add: requeued_def)
qed

lemma holds_continuation_step:
  assumes "continue_step env path s s'" "holds_continuation c s"
  shows "holds_continuation c s'"
proof -
  from assms(2) obtain u where u: "s = OpRecord u" "continues c u"
    "o_status c = OpCompleted \<longrightarrow> o_status u = OpCompleted"
    "o_irreversibleBoundaryEntered c \<and> o_status c \<noteq> OpCancelled \<longrightarrow> o_status u \<noteq> OpCancelled"
    unfolding holds_continuation_def by blast
  from assms(1) u(1) have "holds_continuation u s'" using continue_step_continues by blast
  then obtain v where v: "s' = OpRecord v" "operation_ok v" "continues u v"
    "o_status u = OpCompleted \<longrightarrow> o_status v = OpCompleted"
    "o_irreversibleBoundaryEntered u \<and> o_status u \<noteq> OpCancelled \<longrightarrow> o_status v \<noteq> OpCancelled"
    unfolding holds_continuation_def by blast
  have "o_irreversibleBoundaryEntered c \<longrightarrow> o_irreversibleBoundaryEntered u" using u(2) by (simp add: continues_def)
  moreover note continues_trans [OF u(2) v(3)]
  ultimately have "operation_ok v \<and> continues c v \<and> (o_status c = OpCompleted \<longrightarrow> o_status v = OpCompleted) \<and>
      (o_irreversibleBoundaryEntered c \<and> o_status c \<noteq> OpCancelled \<longrightarrow> o_status v \<noteq> OpCancelled)"
    using u(3,4) v(2,4,5) by blast
  with v(1) show ?thesis unfolding holds_continuation_def by blast
qed

interpretation operation_machine: step_invariant "continue_step env path" "holds_continuation c" for env path c
  by unfold_locales (rule holds_continuation_step)

text \<open>The writes the code makes within one operation, and that they count attempts.\<close>

inductive code_transform :: "operation_env \<Rightarrow> transform \<Rightarrow> bool" for env where
  ct_running: "code_transform env (\<lambda>r. Inr (running stamp pid r))"
| ct_advance: "code_transform env (\<lambda>r. Inr (advance stamp ph ev r))"
| ct_beat: "code_transform env (\<lambda>r. Inr (beat stamp command r))"
| ct_terminal: "code_transform env (\<lambda>r. Inr (terminal env stamp payload ok r))"
| ct_cancel: "code_transform env (cancel_request stamp)"
| ct_spawned: "code_transform env (\<lambda>r. Inr (worker_spawned launched pid r))"
| ct_launch_failed: "code_transform env (\<lambda>r. Inr (launch_failed stamp failure r))"

text \<open>
  The writes that never take a finished operation up again (\<open>write_step\<close>): the transforms, and the attempt of a start to create
  the record. With the two writes by which a start takes one up again, the recovery in place and the replacement of a finished
  record by the next operation of the task, they are all the writes of the code (\<open>code_step\<close>); nothing removes the record.
\<close>

inductive write_step :: "operation_env \<Rightarrow> path \<Rightarrow> operation_file \<Rightarrow> operation_file \<Rightarrow> bool" for env path where
  write_update: "code_transform env f \<Longrightarrow> operation_update p path f s = (Inr u, s') \<Longrightarrow> write_step env path s s'"
| write_create: "operation_create p path r s = (Inr (u, b), s') \<Longrightarrow> write_step env path s s'"

inductive code_step :: "operation_env \<Rightarrow> path \<Rightarrow> operation_file \<Rightarrow> operation_file \<Rightarrow> bool" for env path where
  code_write: "write_step env path s s' \<Longrightarrow> code_step env path s s'"
| code_recover: "replace_for_recovery p path (\<lambda>r. Inr (requeued env timestamp r)) n s = (Inr (u, b), s') \<Longrightarrow>
    code_step env path s s'"
| code_replace: "replace_terminal p path candidate s = (Inr u, s') \<Longrightarrow> code_step env path s s'"

lemma code_transform_attempt: "code_transform env f \<Longrightarrow> f r = Inr u \<Longrightarrow> o_attempt u = o_attempt r"
  by (erule code_transform.cases)
    (auto simp: running_def advance_def beat_def terminal_def cancel_request_def worker_spawned_def launch_failed_def Let_def
      split: if_splits)

definition past_attempt :: "int \<Rightarrow> operation_file \<Rightarrow> bool" where
  "past_attempt n s \<longleftrightarrow> (\<exists>u. s = OpRecord u \<and> operation_ok u \<and> n < o_attempt u)"

lemma write_step_past_attempt: "write_step env path s s' \<Longrightarrow> past_attempt n s \<Longrightarrow> past_attempt n s'"
  by (erule write_step.cases)
    (auto simp: past_attempt_def operation_update_Inr operation_create_Inr dest: code_transform_attempt split: if_splits)

lemma code_step_past_attempt: "code_step env path s s' \<Longrightarrow> past_attempt n s \<Longrightarrow> past_attempt n s'"
  by (erule code_step.cases)
    (auto simp: past_attempt_def replace_for_recovery_Inr replace_terminal_Inr requeued_def
      intro: write_step_past_attempt [unfolded past_attempt_def] split: if_splits)

interpretation attempt_machine: step_invariant "code_step env path" "past_attempt n" for env path n
  by unfold_locales (rule code_step_past_attempt)

text \<open>Nothing but a start that takes the operation up again changes a cancelled record.\<close>

lemma code_transform_cancelled: "code_transform env f \<Longrightarrow> o_status r = OpCancelled \<Longrightarrow> f r = Inr u \<Longrightarrow> validate_transition r u = Inr () \<Longrightarrow> u = r"
  by (erule code_transform.cases)
    (auto simp: running_def advance_def beat_def terminal_def cancel_request_def worker_spawned_def launch_failed_def
      validate_transition_Inr split: if_splits)

definition holds_cancelled :: "operation_record \<Rightarrow> operation_file \<Rightarrow> bool" where
  "holds_cancelled u s \<longleftrightarrow> o_status u = OpCancelled \<and> s = OpRecord u"

lemma write_step_cancelled: "write_step env path s s' \<Longrightarrow> holds_cancelled u s \<Longrightarrow> holds_cancelled u s'"
  by (erule write_step.cases)
    (auto simp: holds_cancelled_def operation_update_Inr operation_create_Inr dest: code_transform_cancelled split: if_splits)

interpretation cancelled_machine: step_invariant "write_step env path" "holds_cancelled u" for env path u
  by unfold_locales (rule write_step_cancelled)

text \<open>Evidence whose recovery commits, if any, validate.\<close>

definition recovery_ok_evidence :: "progress_evidence \<Rightarrow> bool" where
  "recovery_ok_evidence ev \<longleftrightarrow> (case pe_recovery_commits ev of None \<Rightarrow> True | Some rc \<Rightarrow> recovery_commits_ok rc)"

end
