(* ===== verification/Operation_Properties.thy ===== *)
theory Operation_Properties
  imports Operation_Worker
begin

section \<open>Properties of the durable operations\<close>

text \<open>
  What holds of a closeout or integrate operation whoever writes its record and in whatever order: nothing irreversible is
  forgotten, one starter recovers an attempt, a cancellation stops the worker, and what happens when the worker cannot be
  spawned during a recovery.
\<close>

subsection \<open>Nothing irreversible is forgotten\<close>

text \<open>
  Claim C7: monotone progress. Along any sequence of updates, by arbitrary transforms, and recoveries of an operation, the task,
  the candidate, the fingerprint, the operation key and the input stay the same; a claimed approval stays claimed, an entered
  irreversible boundary stays entered, recorded recovery commits are only filled in; a completed operation stays completed, and
  one past its boundary is never cancelled.
\<close>

theorem operation_progress_is_monotone:
  assumes "(continue_step env path)\<^sup>*\<^sup>* (OpRecord c) s" and "operation_ok c"
  shows "\<exists>u. s = OpRecord u \<and> operation_ok u \<and> same_identity c u \<and> o_operationKey u = o_operationKey c \<and>
    o_input u = o_input c \<and>
    (o_approvalClaimed c \<longrightarrow> o_approvalClaimed u) \<and>
    (o_irreversibleBoundaryEntered c \<longrightarrow> o_irreversibleBoundaryEntered u) \<and>
    commits_grow (o_recoveryCommits c) (o_recoveryCommits u) \<and>
    (o_status c = OpCompleted \<longrightarrow> o_status u = OpCompleted) \<and>
    (o_irreversibleBoundaryEntered c \<and> o_status c \<noteq> OpCancelled \<longrightarrow> o_status u \<noteq> OpCancelled)"
proof -
  have "holds_continuation c (OpRecord c)" using assms(2) by (simp add: holds_continuation_def)
  from operation_machine.run_keeps [OF assms(1) this]
  obtain u where u: "s = OpRecord u" "operation_ok u" "continues c u"
    "o_status c = OpCompleted \<longrightarrow> o_status u = OpCompleted"
    "o_irreversibleBoundaryEntered c \<and> o_status c \<noteq> OpCancelled \<longrightarrow> o_status u \<noteq> OpCancelled"
    unfolding holds_continuation_def by blast
  from u(3) have "same_identity c u \<and> o_operationKey u = o_operationKey c \<and> o_input u = o_input c \<and>
    (o_approvalClaimed c \<longrightarrow> o_approvalClaimed u) \<and>
    (o_irreversibleBoundaryEntered c \<longrightarrow> o_irreversibleBoundaryEntered u) \<and>
    commits_grow (o_recoveryCommits c) (o_recoveryCommits u)" unfolding continues_def .
  with u(1,2,4,5) show ?thesis by blast
qed

definition ex_hash :: string where
  "ex_hash = replicate 64 CHR ''a''"

definition ex_operation_env :: operation_env where
  "ex_operation_env = \<lparr>oe_codec = micro_codec, oe_payload_digest = (\<lambda>_. ex_hash), oe_text_digest = (\<lambda>_. ex_hash),
     oe_resolve = (\<lambda>_. [''task'', ''contract.md'']), oe_resolve_path = (\<lambda>q. q), oe_str_error = (\<lambda>_. ''error''),
     oe_str_json = (\<lambda>_. ''json'')\<rparr>"

definition ex_contract :: operation_contract where
  "ex_contract = \<lparr>wc_task_id = ''T'', wc_task_name = ''task'', wc_contract_path = [''task'', ''contract.md''],
     wc_worktree_group = [''group''], wc_closeout_status = ''open'', wc_code_commit = '''', wc_memory_content_commit = '''',
     wc_ledger_commit = '''', wc_integration_status = ''none'', wc_integrated_code_commit = '''',
     wc_integrated_memory_content_commit = '''', wc_integrated_ledger_commit = '''', wc_cleanup = ''none''\<rparr>"

definition ex_input :: operation_input where
  "ex_input = IntegrateInput \<lparr>ii_configPath = ''c'', ii_contractPath = ''/task/contract.md'', ii_strategy = FfOnly,
     ii_ledgerCommitMessage = '''', ii_gatePolicy = [], ii_autoCompleteSeats = True\<rparr>"

definition ex_operation :: operation_record where
  "ex_operation = (queued_record ex_operation_env ex_contract ex_input
     \<lparr>cand_state = ex_hash, cand_tree = None, cand_fingerprint = ex_hash\<rparr> 0)
     \<lparr>o_status := OpRunning, o_heartbeatAt := Some ''1'', o_irreversibleBoundaryEntered := True, o_approvalClaimed := True\<rparr>"

lemma ex_hash_ok: "hex_between 64 64 ex_hash"
  by (simp add: hex_between_def ex_hash_def is_lower_hex_def list_all_iff)

lemma ex_operation_ok: "operation_ok ex_operation"
  by (simp add: operation_ok_def ex_operation_def queued_record_def ex_hash_ok operation_key_def ex_operation_env_def)

lemma ex_operation_fields:
  "o_status ex_operation = OpRunning" "o_irreversibleBoundaryEntered ex_operation" "o_approvalClaimed ex_operation"
  "o_attempt ex_operation = 1" "o_heartbeatAt ex_operation = Some ''1''" "o_fingerprint ex_operation = ex_hash"
  by (simp_all add: ex_operation_def queued_record_def)

lemma ex_operation_beat:
  "operation_update mcp_process [] (\<lambda>r. Inr (beat ''2'' None r)) (OpRecord ex_operation) =
     (Inr (beat ''2'' None ex_operation), OpRecord (beat ''2'' None ex_operation))"
  using ex_operation_ok
  by (simp add: operation_update_Inr validate_transition_Inr continues_def same_identity_def beat_def operation_ok_def
      ex_operation_fields)

theorem operation_progress_is_monotone_witness:
  "(continue_step ex_operation_env [])\<^sup>*\<^sup>* (OpRecord ex_operation) (OpRecord (beat ''2'' None ex_operation)) \<and>
   operation_ok ex_operation \<and>
   (\<exists>u. OpRecord (beat ''2'' None ex_operation) = OpRecord u \<and> o_approvalClaimed u \<and> o_irreversibleBoundaryEntered u)"
proof -
  have run: "(continue_step ex_operation_env [])\<^sup>*\<^sup>* (OpRecord ex_operation) (OpRecord (beat ''2'' None ex_operation))"
    by (rule r_into_rtranclp) (rule step_update [OF ex_operation_beat])
  from operation_progress_is_monotone [OF run ex_operation_ok] run ex_operation_ok ex_operation_fields show ?thesis by blast
qed

subsection \<open>Starting and recovering\<close>

text \<open>
  Claim C8: one starter recovers an attempt. When a starter has queued an operation again under the attempt number it read, then
  after any further writes of the code, by whatever processes (updates, recoveries, starts that create the record or replace a
  finished one by the next operation), another starter that read the same attempt number writes nothing and is told not to
  launch.
\<close>

theorem attempt_recovered_once:
  assumes "replace_for_recovery p path (\<lambda>r. Inr (requeued env t r)) n s = (Inr (u, True), s1)"
    and "(code_step env path)\<^sup>*\<^sup>* s1 s2"
    and "replace_for_recovery p' path (\<lambda>r. Inr (requeued env t' r)) n s2 = (Inr (u', launches), s3)"
  shows "\<not> launches \<and> s3 = s2 \<and> s2 = OpRecord u' \<and> n < o_attempt u'"
proof -
  from assms(1) have "past_attempt n s1"
    by (auto simp: replace_for_recovery_Inr past_attempt_def requeued_def split: if_splits)
  from attempt_machine.run_keeps [OF assms(2) this] have "past_attempt n s2" .
  with assms(3) show ?thesis by (auto simp: replace_for_recovery_Inr past_attempt_def split: if_splits)
qed

lemma ex_recovered:
  "replace_for_recovery mcp_process [] (\<lambda>r. Inr (requeued ex_operation_env 60000000 r)) 1 (OpRecord ex_operation) =
     (Inr (requeued ex_operation_env 60000000 ex_operation, True), OpRecord (requeued ex_operation_env 60000000 ex_operation))"
  using ex_operation_ok operation_ok_requeued [OF ex_operation_ok]
  by (simp add: replace_for_recovery_Inr ex_operation_fields) (simp add: requeued_def ex_operation_fields)
theorem attempt_recovered_once_witness:
  "\<exists>u' launches s3. replace_for_recovery mcp_process [] (\<lambda>r. Inr (requeued ex_operation_env 60000000 r)) 1
     (OpRecord (requeued ex_operation_env 60000000 ex_operation)) = (Inr (u', launches), s3) \<and> \<not> launches \<and>
     s3 = OpRecord u'"
proof -
  let ?s = "OpRecord (requeued ex_operation_env 60000000 ex_operation)"
  have again: "replace_for_recovery mcp_process [] (\<lambda>r. Inr (requeued ex_operation_env 60000000 r)) 1 ?s =
      (Inr (requeued ex_operation_env 60000000 ex_operation, False), ?s)"
    using operation_ok_requeued [OF ex_operation_ok]
    by (simp add: replace_for_recovery_Inr) (simp add: requeued_def ex_operation_fields)
  from attempt_recovered_once [OF ex_recovered rtranclp.rtrancl_refl again] again show ?thesis by blast
qed

text \<open>
  A start never disturbs another operation. While the record of a task is queued, running or waiting for input, a start
  with a different fingerprint raises, launches nothing and leaves the record as it is.
\<close>

theorem start_leaves_active_operation:
  assumes "start_ready env p contract inp worktree_tree fingerprint" and "operation_ok c"
    and "o_fingerprint c \<noteq> fingerprint" and "o_status c \<in> {OpQueued, OpRunning, OpInputRequired}"
  shows "\<exists>e. start_or_observe_operation env p contract inp worktree_tree launch now fail_stamp (OpRecord c) =
    (Inl e, OpRecord c)"
  using start_conflict [OF assms] by blast

lemma ex_start_ready: "start_ready ex_operation_env mcp_process ex_contract ex_input (Inl TypeError) ex_hash"
  by (simp add: start_ready_def validate_input_identity_def ex_operation_env_def ex_contract_def ex_input_def
      candidate_tree_def input_kind_def candidate_fingerprint_def)

theorem start_leaves_active_operation_witness:
  "\<exists>e c. o_status c = OpRunning \<and>
     start_or_observe_operation ex_operation_env mcp_process ex_contract ex_input (Inl TypeError) (\<lambda>_. sret ()) 5 ''5''
       (OpRecord c) = (Inl e, OpRecord c)"
proof -
  let ?c = "ex_operation\<lparr>o_fingerprint := replicate 64 CHR ''b''\<rparr>"
  have "operation_ok ?c" using ex_operation_ok by (simp add: operation_ok_def hex_between_def is_lower_hex_def list_all_iff)
  moreover have "o_fingerprint ?c \<noteq> ex_hash" by (simp add: ex_hash_def)
  moreover have st: "o_status ?c = OpRunning" by (simp add: ex_operation_fields)
  ultimately obtain e where "start_or_observe_operation ex_operation_env mcp_process ex_contract ex_input (Inl TypeError)
      (\<lambda>_. sret ()) 5 ''5'' (OpRecord ?c) = (Inl e, OpRecord ?c)"
    using start_leaves_active_operation [OF ex_start_ready, of ?c "\<lambda>_. sret ()" 5 "''5''"] by blast
  with st show ?thesis by blast
qed

text \<open>
  A failed relaunch strands an operation past its boundary. If the worker cannot be spawned while a stale operation past
  its irreversible boundary is being recovered, the start raises and the record is failed with the boundary entered; from then
  on no start of the same operation writes or launches anything, although the record's guidance is to start it again.
\<close>

theorem failed_relaunch_strands_operation:
  assumes "start_ready env p contract inp worktree_tree (o_fingerprint c)" and "operation_ok c"
    and "o_irreversibleBoundaryEntered c" and "should_recover (oe_codec env) c (whole_second now) = Inr True"
  shows "\<exists>u. start_or_observe_operation env p contract inp worktree_tree (\<lambda>_. slift (Inl e)) now stamp (OpRecord c) =
      (Inl e, OpRecord u) \<and> o_status u = OpFailed \<and> o_irreversibleBoundaryEntered u \<and>
      o_guidance u = Some ''Fix the native runner environment, then start the same task operation again.'' \<and>
      (\<forall>launch now' stamp'. snd (start_or_observe_operation env p contract inp worktree_tree launch now' stamp' (OpRecord u)) =
         OpRecord u)"
proof -
  let ?path = "operation_record_path (wc_worktree_group contract) (input_kind inp)"
  let ?q = "requeued env (whole_second now) c"
  let ?u = "launch_failed stamp (''detached worker could not start: '' @ oe_str_error env e) ?q"
  from assms(1) have guard: "access_guard p OPERATION_OWNERSHIP ?path = Inr ()" by (simp add: start_ready_def)
  have "o_status ?q = OpQueued" by (simp add: requeued_def)
  from launch_failed_recorded [OF guard operation_ok_requeued [OF assms(2)] this, of "\<lambda>_. slift (Inl e)"]
  have "launch_or_fail env p ?path (\<lambda>_. slift (Inl e)) stamp ?q (OpRecord ?q) = (Inl e, OpRecord ?u)"
    by (simp add: slift_def)
  then have start: "start_or_observe_operation env p contract inp worktree_tree (\<lambda>_. slift (Inl e)) now stamp (OpRecord c) =
      (Inl e, OpRecord ?u)"
    using recover_if_due_run [OF guard assms(2,4)]
    by (simp add: start_same_fingerprint [OF assms(1,2)] Let_def sbind_Inr launch_if_needed_def sbind_Inl)
  have u: "o_status ?u = OpFailed" "o_irreversibleBoundaryEntered ?u" "o_fingerprint ?u = o_fingerprint c" "operation_ok ?u"
    using assms(2,3) by (simp_all add: launch_failed_def requeued_def operation_ok_def)
  then have "should_recover (oe_codec env) ?u t = Inr False" for t
    by (simp add: should_recover_def recoverable_stale_def)
  then have "snd (start_or_observe_operation env p contract inp worktree_tree launch now' stamp' (OpRecord ?u)) = OpRecord ?u"
    for launch now' stamp'
    using start_same_fingerprint [of env p contract inp worktree_tree ?u] assms(1) u(3,4)
    by (simp add: Let_def recover_if_due_def launch_if_needed_def slift_def)
  with start u(1,2) show ?thesis by (intro exI [of _ ?u]) (simp add: launch_failed_def)
qed

lemma ex_stale: "should_recover (oe_codec ex_operation_env) ex_operation (whole_second 60000000) = Inr True"
proof -
  have "fromisoformat micro_codec ''1'' = Some (utc 1)" by (simp add: micro_codec_def) code_simp
  then show ?thesis
    by (simp add: should_recover_def recoverable_stale_def ex_operation_fields ex_operation_env_def str_or_def parse_stamp_def
        as_utc_def is_naive_def utc_def dt_sub_def STALE_HEARTBEAT_SECONDS_def total_seconds_def whole_second_def)
qed

theorem failed_relaunch_strands_operation_witness:
  "\<exists>u. start_or_observe_operation ex_operation_env mcp_process ex_contract ex_input (Inl TypeError) (\<lambda>_. slift (Inl TypeError))
      60000000 ''60'' (OpRecord ex_operation) = (Inl TypeError, OpRecord u) \<and> o_status u = OpFailed \<and>
      o_irreversibleBoundaryEntered u"
proof -
  have "start_ready ex_operation_env mcp_process ex_contract ex_input (Inl TypeError) (o_fingerprint ex_operation)"
    using ex_start_ready by (simp add: ex_operation_fields)
  from failed_relaunch_strands_operation [OF this ex_operation_ok ex_operation_fields(2) ex_stale, of TypeError "''60''"]
  show ?thesis by blast
qed

subsection \<open>Cancelling\<close>

text \<open>A progress report on a cancelled record.\<close>

lemma report_after_cancellation:
  assumes "operation_ok u" "o_status u = OpCancelled" "\<not> o_irreversibleBoundaryEntered u"
  shows "\<exists>e. runtime_progress q path stamp ph ev (OpRecord u) = (Inl e, OpRecord u) \<and>
    (access_guard q OPERATION_OWNERSHIP path = Inr () \<and> recovery_ok_evidence ev \<longrightarrow> e = OperationCancelled)"
proof (cases "checked_commits (pe_recovery_commits ev)")
  case (Inl e)
  then have "\<not> recovery_ok_evidence ev"
    by (auto simp: checked_commits_def recovery_ok_evidence_def split: option.splits)
  with Inl show ?thesis by (simp add: runtime_progress_def sbind_Inl slift_def)
next
  case commits: (Inr a)
  show ?thesis
  proof (cases "access_guard q OPERATION_OWNERSHIP path")
    case (Inl e)
    then have "operation_update q path f (OpRecord u) = (Inl e, OpRecord u)" for f by (simp add: operation_update_def)
    with commits Inl show ?thesis by (simp add: runtime_progress_def sbind_Inl slift_def)
  next
    case (Inr b)
    then have "operation_update q path (\<lambda>r. Inr (advance stamp ph ev r)) (OpRecord u) = (Inr u, OpRecord u)"
      using assms by (simp add: operation_update_Inr advance_def validate_transition_Inr)
    with commits assms(2) show ?thesis by (simp add: runtime_progress_def sbind_Inr slift_def)
  qed
qed

text \<open>
  Claim C9: cancellation. Cancelling an operation past its boundary that is not over is refused and changes nothing. One that
  takes effect happened before the boundary, and then, whatever the worker, the launcher, other cancellations and starts write,
  until a start takes the operation up again by recovering or replacing the record, the record stays exactly the cancelled one
  and every progress report raises and changes nothing: it raises the cancellation itself when the process may write the record
  and the commits it reports are well-formed. So the worker cannot enter the boundary before such a start; after it, the record
  is again one the same worker may report on.
\<close>

theorem cancellation_stops_the_worker:
  assumes "operation_ok c" and "o_status c \<in> {OpQueued, OpRunning, OpInputRequired}"
    and "access_guard p OPERATION_OWNERSHIP path = Inr ()"
  shows "if o_irreversibleBoundaryEntered c
    then \<exists>e. cancel_operation codec p path stamp now (OpRecord c) = (Inl e, OpRecord c)
    else \<exists>u. snd (cancel_operation codec p path stamp now (OpRecord c)) = OpRecord u \<and> o_status u = OpCancelled \<and>
           \<not> o_irreversibleBoundaryEntered u \<and>
           (\<forall>s. (write_step env path)\<^sup>*\<^sup>* (OpRecord u) s \<longrightarrow> s = OpRecord u \<and>
              (\<forall>q stamp' ph ev. \<exists>e. runtime_progress q path stamp' ph ev s = (Inl e, s) \<and>
                 (access_guard q OPERATION_OWNERSHIP path = Inr () \<and> recovery_ok_evidence ev \<longrightarrow> e = OperationCancelled)))"
proof (cases "o_irreversibleBoundaryEntered c")
  case True
  then have refused: "cancel_request stamp c = Inl (RuntimeError ''cancellation is refused past the irreversible boundary'')"
    using assms(2) by (auto simp: cancel_request_def)
  have "operation_update p path (cancel_request stamp) (OpRecord c) =
      (Inl (RuntimeError ''cancellation is refused past the irreversible boundary''), OpRecord c)"
    using assms(1,3) refused by (simp add: operation_update_def sbind_sget operation_read_def)
  with True show ?thesis by (simp add: cancel_operation_def sbind_Inl)
next
  case False
  let ?u = "c\<lparr>o_status := OpCancelled, o_phase := PhCancelled, o_cancelRequested := True, o_finishedAt := Some stamp,
    o_guidance := Some ''The task-bound operation was cancelled before approval claim.'', o_workerPid := None\<rparr>"
  have ok: "operation_ok ?u" using assms(1) by (simp add: operation_ok_def)
  have "operation_update p path (cancel_request stamp) (OpRecord c) = (Inr ?u, OpRecord ?u)"
    using assms False ok
    by (auto simp: operation_update_Inr cancel_request_def validate_transition_Inr continues_def same_identity_def)
  then have "snd (cancel_operation codec p path stamp now (OpRecord c)) = OpRecord ?u"
    by (simp add: cancel_operation_def sbind_Inr slift_def)
  moreover have "s = OpRecord ?u \<and> (\<forall>q stamp' ph ev. \<exists>e. runtime_progress q path stamp' ph ev s = (Inl e, s) \<and>
      (access_guard q OPERATION_OWNERSHIP path = Inr () \<and> recovery_ok_evidence ev \<longrightarrow> e = OperationCancelled))"
    if "(write_step env path)\<^sup>*\<^sup>* (OpRecord ?u) s" for s
  proof -
    have s: "s = OpRecord ?u"
      using cancelled_machine.run_keeps [OF that, of ?u] by (simp add: holds_cancelled_def)
    show ?thesis unfolding s using False by (auto intro!: report_after_cancellation [OF ok])
  qed
  ultimately show ?thesis using False by (intro iffD2 [OF if_not_P]) (blast, intro exI [of _ ?u], simp)
qed


theorem cancellation_stops_the_worker_witness:
  "(\<exists>e. cancel_operation micro_codec mcp_process [] ''5'' 5 (OpRecord ex_operation) = (Inl e, OpRecord ex_operation)) \<and>
   (\<exists>u. snd (cancel_operation micro_codec mcp_process [] ''5'' 5
       (OpRecord (ex_operation\<lparr>o_irreversibleBoundaryEntered := False\<rparr>))) = OpRecord u \<and> o_status u = OpCancelled)"
proof -
  have "operation_ok (ex_operation\<lparr>o_irreversibleBoundaryEntered := False\<rparr>)"
    using ex_operation_ok by (simp add: operation_ok_def)
  from cancellation_stops_the_worker [OF this, of mcp_process "[]" micro_codec "''5''" 5 ex_operation_env] ex_operation_fields
  have "\<exists>u. snd (cancel_operation micro_codec mcp_process [] ''5'' 5
      (OpRecord (ex_operation\<lparr>o_irreversibleBoundaryEntered := False\<rparr>))) = OpRecord u \<and> o_status u = OpCancelled"
    by (simp del: split_paired_Ex) blast
  moreover from cancellation_stops_the_worker [OF ex_operation_ok, of mcp_process "[]" micro_codec "''5''" 5 ex_operation_env]
    ex_operation_fields
  have "\<exists>e. cancel_operation micro_codec mcp_process [] ''5'' 5 (OpRecord ex_operation) = (Inl e, OpRecord ex_operation)"
    by simp
  ultimately show ?thesis by blast
qed

end
