(* ===== verification/Tool_Properties.thy ===== *)
theory Tool_Properties
  imports Gate_Properties
begin

section \<open>Properties of the gate tools and the integration seam\<close>

text \<open>
  Raising a gate, waiting on it and the master-handover seam: what a successful raise leaves behind, when a raise that
  does not block is refused, when a wait returns and what it reports, and what the integration guard permits.
\<close>

subsection \<open>Raising\<close>

text \<open>
  One open gate per lifecycle. After \<^verbatim>\<open>gate_create\<close> succeeds on logs that hold only their own records, the new
  gate is open on the resolved lifecycle, and it is the only open gate in that lifecycle's fold.
\<close>

theorem created_gate_is_the_open_one:
  assumes "gate_create_tool c p cfg dr kind anchor request t = (Inr g, t')"
    and "gate_logs_ok (cs_gates (ts_control t))"
  shows "g_state g = Open \<and> coerce_gate_kind kind = Inr (g_kind g) \<and>
    (\<exists>lid m. g_lifecycleId g = Some lid \<and> gate_view (Some lid) (cs_gates (ts_control t')) = Some m \<and>
       m (g_id g) = Some g \<and> (\<forall>k h. m k = Some h \<and> g_state h = Open \<longrightarrow> k = g_id g))"
proof -
  from assms(1) obtain lid ct where run:
    "open_gate c p cfg dr (coerce_gate_kind kind) (anchor_or_empty anchor) lid request (ts_control t) = (Inr g, ct)"
    and t': "ts_control t' = ct"
    by (auto simp: gate_create_tool_def sbind_eq_Inr zoom_eq_Inr)
  from open_gate_only_open(2-6) [OF run assms(2)] show ?thesis by (simp add: t')
qed

definition ex_draws :: raise_draws where
  "ex_draws = \<lparr>rd_now = ''9'', rd_gate_id = ''new'', rd_row_id = ''row'', rd_row_now = 9\<rparr>"

definition ex_new_gate :: gate_record where
  "ex_new_gate =
     \<lparr>g_schemaVersion = SCHEMA_VERSION, g_schema = GATE_RECORD_SCHEMA, g_id = ''new'', g_ts = ''9'',
      g_kind = CloseoutApproval, g_state = Open, g_lifecycleId = Some ''L'', g_enclosure = None, g_repoId = None,
      g_packet = [], g_requiredDecision = None, g_decidedBy = None, g_decidedVia = None, g_decidingRole = None,
      g_decisionNote = None, g_decidedAt = None, g_evidenceRefs = [], g_appliedOperation = None\<rparr>"

lemma ex_tool_read:
  "list_all gate_ok gs \<Longrightarrow> gate_read lid (cs_gates (ts_control (ex_tool_state gs))) = Inr (if lid = Some ''L'' then gs else [])"
  by (cases lid) (auto simp: gate_read_def log_at_def ex_tool_state_def read_strict_def rmap_validate_Rec)

lemma ex_tool_logs_ok:
  assumes "list_all (\<lambda>g. gate_ok g \<and> g_lifecycleId g = Some ''L'') gs"
  shows "gate_logs_ok (cs_gates (ts_control (ex_tool_state gs)))"
proof -
  have "list_all gate_ok gs" using assms by (simp add: list_all_iff)
  from ex_tool_read [OF this] assms show ?thesis
    by (auto simp: gate_logs_ok_def list_all_iff split: if_splits)
qed

lemma ex_tool_append:
  "g_lifecycleId g = Some ''L'' \<Longrightarrow>
   gate_append mcp_process [] g (cs_gates (ts_control (ex_tool_state gs))) =
   (Inr (), cs_gates (ts_control (ex_tool_state (gs @ [g]))))"
  by (subst gate_append_run)
    (simp_all add: check_declared_writer_def declared_daemon_role_def GATE_OWNERSHIP_def put_log_def log_at_def
      ex_tool_state_def append_line_def)

lemma ex_own_gate_fields [simp]:
  "g_id ex_own_gate = ''g''" "g_state ex_own_gate = Open" "g_lifecycleId ex_own_gate = Some ''L''" "gate_ok ex_own_gate"
  "g_kind ex_own_gate = MasterHandoverApproval"
  by (simp_all add: ex_own_gate_def gate_ok_def ex_gate_def)

lemma ex_create:
  "gate_create_tool micro_codec mcp_process ex_config ex_draws ''closeout-approval'' None None (ex_tool_state [ex_own_gate]) =
   (Inr ex_new_gate, ex_tool_state [ex_own_gate, expire_gate ex_own_gate ''9'', ex_new_gate])"
proof -
  let ?t = "\<lambda>gs. cs_gates (ts_control (ex_tool_state gs))"
  have kind: "coerce_gate_kind ''closeout-approval'' = Inr CloseoutApproval"
    using coerce_gate_kind_str [of CloseoutApproval] by simp
  have lid: "resolve_gate_lifecycle_id (ambient_current (ex_tool_state [ex_own_gate])) (anchor_lifecycle_id (anchor_or_empty None)) = Inr ''L''"
    by (simp add: resolve_gate_lifecycle_id_def ambient_current_def ex_tool_state_def ex_ambient_def ex_lifecycle_def
        anchor_or_empty_def empty_anchor_def)
  have sweep: "expire_open_gates mcp_process [] ''9'' ''L'' (?t [ex_own_gate]) =
    (Inr (), ?t [ex_own_gate, expire_gate ex_own_gate ''9''])"
    using ex_tool_append [of "expire_gate ex_own_gate ''9''" "[ex_own_gate]"]
    by (simp add: expire_open_gates_def sbind_sget gate_current_def ex_tool_read fold_by_def sbind_Inr sret_def)
  have new: "create_gate CloseoutApproval ''new'' ''9'' (Some (empty_anchor\<lparr>anchor_lifecycle_id := Some ''L''\<rparr>)) None = Inr ex_new_gate"
    by (simp add: create_gate_def empty_anchor_def empty_request_def coerce_evidence_refs_def ex_new_gate_def Let_def)
  have app: "gate_append mcp_process [] ex_new_gate (?t [ex_own_gate, expire_gate ex_own_gate ''9'']) =
    (Inr (), ?t [ex_own_gate, expire_gate ex_own_gate ''9'', ex_new_gate])"
    using ex_tool_append [of ex_new_gate "[ex_own_gate, expire_gate ex_own_gate ''9'']"] by (simp add: ex_new_gate_def)
  have "open_gate micro_codec mcp_process ex_config ex_draws (Inr CloseoutApproval) empty_anchor ''L'' None
      (ts_control (ex_tool_state [ex_own_gate])) =
    (Inr ex_new_gate, ts_control (ex_tool_state [ex_own_gate, expire_gate ex_own_gate ''9'', ex_new_gate]))"
    using sweep new app
    by (simp add: open_gate_def ex_config_def ex_draws_def sbind_def zoom_def slift_def write_verdict_by_row_def sret_def)
      (simp add: ex_tool_state_def)
  then show ?thesis
    using lid kind by (simp add: gate_create_tool_def sbind_sget zoom_def anchor_or_empty_def) (simp add: ex_tool_state_def)
qed

theorem created_gate_is_the_open_one_witness:
  "gate_create_tool micro_codec mcp_process ex_config ex_draws ''closeout-approval'' None None (ex_tool_state [ex_own_gate]) =
   (Inr ex_new_gate, ex_tool_state [ex_own_gate, expire_gate ex_own_gate ''9'', ex_new_gate]) \<and>
   (\<exists>lid m. g_lifecycleId ex_new_gate = Some lid \<and>
      gate_view (Some lid) (cs_gates (ts_control (ex_tool_state [ex_own_gate, expire_gate ex_own_gate ''9'', ex_new_gate]))) = Some m \<and>
      m (g_id ex_new_gate) = Some ex_new_gate \<and> (\<forall>k h. m k = Some h \<and> g_state h = Open \<longrightarrow> k = g_id ex_new_gate))"
  using created_gate_is_the_open_one [OF ex_create] ex_tool_logs_ok [of "[ex_own_gate]"] ex_create by simp

text \<open>
  Raise-and-continue is guarded. A \<^verbatim>\<open>lifecycle_gate\<close> call with \<^verbatim>\<open>wait=false\<close> and a known kind either has a seam kind
  that the active policy delegates and a non-blank enclosure to address it by, or it raises and changes nothing: no
  gate is opened and no sibling expired.
\<close>

theorem raise_and_continue_guarded:
  assumes "lifecycle_gate_tool c p cfg env dr raised w started looks t = Some (r, t')" and "\<not> w_block w"
    and "coerce_gate_kind (gr_kind raised) = Inr kind"
  shows "(kind \<in> set SEAM_GATE_KINDS \<and> delegated_role (rule_for (tc_gate_policy cfg) kind) \<noteq> None \<and>
      (\<exists>e. anchor_enclosure (anchor_or_empty (gr_anchor raised)) = Some e \<and> strip e \<noteq> '''')) \<or>
    ((\<exists>e. r = Inl e) \<and> t' = t)"
proof (cases "require_raise_and_continue_allowed cfg kind (anchor_enclosure (anchor_or_empty (gr_anchor raised)))")
  case (Inr u)
  then show ?thesis using raise_and_continue_iff by simp
next
  case (Inl e)
  have "\<exists>e. raise_gate c p cfg env dr raised w t = (Inl e, t)"
    using assms(2,3) Inl
    by (auto simp: raise_gate_def on_ambient_current sbind_slift_case split: option.splits sum.splits)
  with assms(1) show ?thesis by (auto simp: lifecycle_gate_tool_def)
qed

definition ex_raise :: gate_raise where
  "ex_raise = \<lparr>gr_kind = ''closeout-approval'', gr_anchor = None, gr_request = None, gr_ask = None\<rparr>"

definition ex_env :: ambient_env where
  "ex_env = \<lparr>env_codec = micro_codec, env_clock = (\<lambda>_. 0), env_mint = (\<lambda>_. ''id''), env_ttl_seconds = 60,
             env_inactivity_cutoff_seconds = 60\<rparr>"

definition ex_no_wait :: gate_wait where
  "ex_no_wait = \<lparr>w_block = False, w_timeout_seconds = None, w_poll_seconds = 5\<rparr>"

lemma ex_raise_refused:
  "lifecycle_gate_tool micro_codec mcp_process ex_config ex_env ex_draws ex_raise ex_no_wait 0 [] (ex_tool_state []) =
   Some (Inl (ValueError ''wait=false is reserved for delegated seam kinds''), ex_tool_state [])"
  using coerce_gate_kind_str [of CloseoutApproval]
  by (simp add: lifecycle_gate_tool_def raise_gate_def on_ambient_current sbind_slift_case ex_tool_state_def ex_ambient_def
      ex_lifecycle_def ex_raise_def ex_no_wait_def gating_lifecycle_def anchor_or_empty_def empty_anchor_def
      validated_ask_def ask_string_def ask_options_def jget_def require_raise_and_continue_allowed_def SEAM_GATE_KINDS_def)

theorem raise_and_continue_guarded_witness:
  "lifecycle_gate_tool micro_codec mcp_process ex_config ex_env ex_draws ex_raise ex_no_wait 0 [] (ex_tool_state []) =
     Some (Inl (ValueError ''wait=false is reserved for delegated seam kinds''), ex_tool_state []) \<and>
   ((CloseoutApproval \<in> set SEAM_GATE_KINDS \<and> delegated_role (rule_for (tc_gate_policy ex_config) CloseoutApproval) \<noteq> None \<and>
      (\<exists>e. anchor_enclosure (anchor_or_empty (gr_anchor ex_raise)) = Some e \<and> strip e \<noteq> '''')) \<or>
    ((\<exists>e. (Inl (ValueError ''wait=false is reserved for delegated seam kinds'') :: raised_payload res) = Inl e) \<and>
     ex_tool_state [] = ex_tool_state []))"
  using raise_and_continue_guarded [OF ex_raise_refused] coerce_gate_kind_str [of CloseoutApproval] ex_raise_refused
  by (simp add: ex_no_wait_def ex_raise_def)

subsection \<open>Waiting\<close>

text \<open>
  Claim C19: a bounded wait returns. With a timeout, the gate poll and the response wait both return at the latest at the
  first look whose clock reading is past the deadline, whatever other processes do to the stores between the looks.
\<close>

theorem bounded_wait_returns:
  assumes "w_timeout_seconds w = Some timeout" and "(ct, reading) \<in> set looks" and "started + timeout \<le> reading"
  shows "(\<exists>r. gate_response_wait_tool p cfg gid lid watch w started looks = Some r) \<and>
         (\<exists>r. gate_wait_tool gid lid w started looks = Some r)"
proof -
  have "deadline_passed (wait_deadline w started) reading"
    using assms(1,3) by (simp add: deadline_passed_def wait_deadline_def)
  then show ?thesis
    using gate_response_wait_deadline [OF assms(2)] gate_wait_deadline [OF assms(2)]
    by (simp add: gate_response_wait_tool_def gate_wait_tool_def)
qed

theorem bounded_wait_returns_witness:
  "(\<exists>r. gate_response_wait_tool mcp_process ex_config ''g'' None ANY_INBOX_ENTRY SHORT_GATE_WAIT 0
          [(ex_control [ex_open], 1), (ex_control [ex_open], 31)] = Some r) \<and>
   (\<exists>r. gate_wait_tool ''g'' None SHORT_GATE_WAIT 0 [(ex_control [ex_open], 1), (ex_control [ex_open], 31)] = Some r)"
  by (rule bounded_wait_returns [of _ 30 "ex_control [ex_open]" 31]) (simp_all add: SHORT_GATE_WAIT_def)

text \<open>
  Claim C20: a decision ends the wait. Even without a timeout, the response wait returns once a look finds the gate decided
  or gone; waiting on an open gate forever is the only way not to return.
\<close>

theorem decided_gate_ends_wait:
  assumes "(ct, reading) \<in> set looks" and "gate_view lid (cs_gates ct) = Some m"
    and "\<forall>g. m gid = Some g \<longrightarrow> g_state g \<noteq> Open"
  shows "\<exists>r. gate_response_wait_tool p cfg gid lid watch w started looks = Some r"
  unfolding gate_response_wait_tool_def by (rule gate_response_wait_decided [OF assms])

theorem decided_gate_ends_wait_witness:
  "\<exists>r. gate_response_wait_tool mcp_process ex_config ''g'' None ANY_INBOX_ENTRY BLOCKING_GATE_WAIT 0
         [(ex_control [ex_approved], 1)] = Some r"
  by (rule decided_gate_ends_wait [where ct = "ex_control [ex_approved]" and reading = 1 and m = "[''g'' \<mapsto> ex_approved]"])
    (auto simp: ex_control_def gate_view_def gate_current_def fold_by_def fun_eq_iff)

text \<open>
  A wait reports what it saw. The response of a returned wait is the state of the gate in the stores of one of
  its looks: cancelled when the gate was gone; otherwise the gate's own state, timed out only on an open gate past the
  deadline, and not timed out only on a decided gate or with watched inbox entries. The gate log is then as found,
  unless the gate was decided and of a kind no mutating tool consumes.
\<close>

theorem wait_reports_a_look:
  assumes "gate_response_wait_tool p cfg gid lid watch w started looks = Some (Inr wp, ct')"
  shows "\<exists>(ct, reading)\<in>set looks. \<exists>m. gate_view lid (cs_gates ct) = Some m \<and>
    (case m gid of
       None \<Rightarrow> wp = cancelled_wait_payload gid
     | Some g \<Rightarrow> wp_gateId wp = gid \<and> wp_state wp = g_state g \<and>
         (if wp_timedOut wp then g_state g = Open \<and> deadline_passed (wait_deadline w started) reading
          else g_state g \<noteq> Open \<or> wp_entries wp \<noteq> []) \<and>
         (g_state g = Open \<or> g_kind g \<in> set MUTATING_TOOL_GATE_KINDS \<longrightarrow> cs_gates ct' = cs_gates ct))"
proof -
  from gate_response_wait_result [OF assms [unfolded gate_response_wait_tool_def]] obtain ct reading where
    look: "(ct, reading) \<in> set looks" and out:
    "gate_response_look p (tc_observer_root cfg) gid lid watch ct = (Inr (Inl wp), ct') \<or>
     (\<exists>g. gate_response_look p (tc_observer_root cfg) gid lid watch ct = (Inr (Inr g), ct') \<and>
          deadline_passed (wait_deadline w started) reading \<and> wp = decision_payload g True [])" by auto
  have "\<exists>m. gate_view lid (cs_gates ct) = Some m \<and>
    (case m gid of
       None \<Rightarrow> wp = cancelled_wait_payload gid
     | Some g \<Rightarrow> wp_gateId wp = gid \<and> wp_state wp = g_state g \<and>
         (if wp_timedOut wp then g_state g = Open \<and> deadline_passed (wait_deadline w started) reading
          else g_state g \<noteq> Open \<or> wp_entries wp \<noteq> []) \<and>
         (g_state g = Open \<or> g_kind g \<in> set MUTATING_TOOL_GATE_KINDS \<longrightarrow> cs_gates ct' = cs_gates ct))"
    using out
  proof (elim disjE exE conjE)
    assume "gate_response_look p (tc_observer_root cfg) gid lid watch ct = (Inr (Inl wp), ct')"
    then show ?thesis
    proof (cases rule: gate_response_look_end)
      case (1 m)
      then show ?thesis by (intro exI [of _ m]) simp
    next
      case (2 m g)
      have "wp_gateId wp = gid" "wp_state wp = g_state g" "\<not> wp_timedOut wp"
        using 2(3) gate_view_key [OF 2(1,2)] decision_payload_fields by metis+
      with 2 show ?thesis by (intro exI [of _ m]) (auto simp: delete_after_wait_def split: if_splits)
    qed
  next
    fix g
    assume open_look: "gate_response_look p (tc_observer_root cfg) gid lid watch ct = (Inr (Inr g), ct')"
      and late: "deadline_passed (wait_deadline w started) reading" and wp: "wp = decision_payload g True []"
    from gate_response_look_open [OF open_look] obtain m where "gate_view lid (cs_gates ct) = Some m" "m gid = Some g"
      "g_state g = Open" "cs_gates ct' = cs_gates ct" by blast
    with late gate_view_key [of lid "cs_gates ct" m gid g] show ?thesis by (intro exI [of _ m]) (simp add: wp)
  qed
  with look show ?thesis by blast
qed

lemma ex_wait_approved:
  "gate_response_wait_tool mcp_process ex_config ''g'' None ANY_INBOX_ENTRY BLOCKING_GATE_WAIT 0
     [(ex_control [ex_approved], 1)] = Some (Inr (decision_payload ex_approved False []), ex_control [ex_approved])"
  by (simp add: gate_response_wait_tool_def gate_response_look_def sbind_sget ex_control_def gate_current_def fold_by_def
      watched_entries_def ANY_INBOX_ENTRY_def delete_after_wait_def MUTATING_TOOL_GATE_KINDS_def sret_def)

theorem wait_reports_a_look_witness:
  "gate_response_wait_tool mcp_process ex_config ''g'' None ANY_INBOX_ENTRY BLOCKING_GATE_WAIT 0
     [(ex_control [ex_approved], 1)] = Some (Inr (decision_payload ex_approved False []), ex_control [ex_approved]) \<and>
   (\<exists>(ct, reading)\<in>set [(ex_control [ex_approved], 1 :: seconds)]. \<exists>m g. gate_view None (cs_gates ct) = Some m \<and>
      m ''g'' = Some g \<and> g_state g = Approved \<and>
      (g_kind g \<in> set MUTATING_TOOL_GATE_KINDS \<longrightarrow> cs_gates (ex_control [ex_approved]) = cs_gates ct))"
  using wait_reports_a_look [OF ex_wait_approved] ex_wait_approved
  by (auto simp: cancelled_wait_payload_def decision_payload_def split: option.splits)

subsection \<open>The master-handover seam\<close>

text \<open>
  The integration guard. Integrating a contract is permitted exactly when no handover gate addresses its task or
  parent name, or the latest one that does is approved by a policy-valid decision; and the spelling warning is given
  exactly when no handover gate addresses the contract while some handover gate is open.
\<close>

theorem handover_guard_iff:
  "(permitted (handover_gate_guard gates task parent policy) \<longleftrightarrow>
    (case governing_handover gates task parent of
       None \<Rightarrow> True
     | Some g \<Rightarrow> g_state g = Approved \<and> policy_valid g policy)) \<and>
   (unmatched_handover_gate_warning gates task parent \<noteq> None \<longleftrightarrow>
    governing_handover gates task parent = None \<and>
    (\<exists>g. g \<in> set (dvalues gates) \<and> g_kind g = HANDOVER_GATE_KIND \<and> g_state g = Open))"
  using handover_permitted [of gates task parent policy] unmatched_warning_Some [of gates task parent] by blast

text \<open>
  A decided handover gate does not survive a blocking wait. Once the response wait of a raiser reports a decision
  on a master-handover gate, the gate's id is absent from the fold of its log, whatever the decision was: a rejection
  is forgotten with it, and the integration guard no longer sees it. (The retention rule counts this kind among the
  consumed approvals it keeps; the wait's deletion does not.)
\<close>

theorem handover_decision_forgotten_after_wait:
  assumes "gate_response_look p obs_root gid lid watch ct = (Inr (Inl wp), ct')"
    and "gate_view lid (cs_gates ct) = Some m" and "m gid = Some g" and "g_state g \<noteq> Open"
    and "g_kind g = HANDOVER_GATE_KIND"
  shows "g_kind g \<in> set CONSUMED_APPROVAL_GATE_KINDS \<and> gate_view lid (cs_gates ct') = Some (m(gid := None))"
  using assms(1)
proof (cases rule: gate_response_look_end)
  case (1 m')
  with assms(2,3) show ?thesis by simp
next
  case (2 m' g')
  with assms(2-5) show ?thesis
    by (simp add: delete_after_wait_def MUTATING_TOOL_GATE_KINDS_def HANDOVER_GATE_KIND_def CONSUMED_APPROVAL_GATE_KINDS_def
        SEAM_CONSUMED_GATE_KINDS_def)
qed

abbreviation ex_rejected :: gate_record where
  "ex_rejected \<equiv> ex_gate ''g'' MasterHandoverApproval Rejected"

lemma ex_look_rejected:
  "gate_response_look dashboard_process [] ''g'' None ANY_INBOX_ENTRY (ex_control [ex_rejected]) =
   (Inr (Inl (decision_payload ex_rejected False [])), ex_control [])"
  using ex_delete [of "[ex_rejected]" ex_rejected "''g''"]
  by (simp add: gate_response_look_def sget_def ex_control_def gate_current_def fold_by_def watched_entries_def
      ANY_INBOX_ENTRY_def delete_after_wait_def MUTATING_TOOL_GATE_KINDS_def sret_def sbind_def zoom_def)

theorem handover_decision_forgotten_after_wait_witness:
  "gate_response_look dashboard_process [] ''g'' None ANY_INBOX_ENTRY (ex_control [ex_rejected]) =
   (Inr (Inl (decision_payload ex_rejected False [])), ex_control []) \<and>
   gate_view None (cs_gates (ex_control [])) = Some ([''g'' \<mapsto> ex_rejected](''g'' := None))"
proof -
  have v: "gate_view None (cs_gates (ex_control [ex_rejected])) = Some [''g'' \<mapsto> ex_rejected]"
    by (simp add: ex_control_def gate_view_def gate_current_def fold_by_def fun_eq_iff)
  have "gate_view None (cs_gates (ex_control [])) = Some ([''g'' \<mapsto> ex_rejected](''g'' := None))"
    using handover_decision_forgotten_after_wait [OF ex_look_rejected v, of ex_rejected]
    by (simp add: HANDOVER_GATE_KIND_def)
  with ex_look_rejected show ?thesis by simp
qed

end
