(* ===== verification/Inbox_Properties.thy ===== *)
theory Inbox_Properties
  imports Inbox_Transitions
begin

section \<open>Properties of the operator inbox\<close>

text \<open>
  Terminal truth, batches, redelivery timing, rebinding, the hard cap and the reconciling compaction of the operator
  inbox, over the models of its records, store and transitions, each with an instance on a concrete row.
\<close>

subsection \<open>A concrete row\<close>

definition ex_message :: inbox_message where
  "ex_message = \<lparr>msg_ask = ''ask'', msg_response = ''answer'', msg_kind = DispatchBrief, msg_gate_id = None,
     msg_artifact_path = None,
     msg_subject = \<lparr>subj_task_document_ref = None, subj_seat_role = None, subj_agent_id = None\<rparr>\<rparr>"

definition ex_owner :: "string \<Rightarrow> inbox_owner" where
  "ex_owner a = \<lparr>owner_role = None, owner_task_document_ref = None, owner_agent_id = Some a, owner_lifecycle_id = None\<rparr>"

definition ex_routing :: inbox_routing where
  "ex_routing = \<lparr>routing_address = \<lparr>addr_task_document_ref = None, addr_lifecycle_id = None, addr_agent_id = Some ''a'',
     addr_recipient_role = None\<rparr>, routing_owner = ex_owner ''a''\<rparr>"

definition ex_poster :: inbox_poster where
  "ex_poster = \<lparr>post_created_by = ''dev'', post_created_via = InboxCli, post_sender_agent_id = None, post_sender_role = None\<rparr>"

definition ex_entry :: operator_inbox_entry where
  "ex_entry = projr (create_operator_inbox_entry ex_message ''e'' ''0'' ex_routing ex_poster)"

definition ex_inbox :: inbox where
  "ex_inbox = Some [Rec ex_entry]"

lemma ex_entry_fields [simp]:
  "i_id ex_entry = ''e''" "i_state ex_entry = Pending" "inbox_ok ex_entry" "i_attemptCount ex_entry = 0"
  "i_createdAt ex_entry = ''0''" "i_gateId ex_entry = None" "i_ask ex_entry = ''ask''"
  "i_nextAttemptAt ex_entry = None" "i_lastAttemptAt ex_entry = None"
  "i_schemaVersion ex_entry = SCHEMA_VERSION" "i_model_extra ex_entry = []"
  by (simp_all add: ex_entry_def create_operator_inbox_entry_def require_inbox_address_def ex_routing_def ex_message_def
      inbox_ok_def Let_def)

lemma ex_inbox_read [simp]: "read_strict inbox_ok ex_inbox = Inr [ex_entry]"
  by (simp add: ex_inbox_def read_strict_def)

lemma ex_fold [simp]: "fold_operator_inbox_entries [ex_entry] = [(''e'', ex_entry)]"
  by (simp add: fold_operator_inbox_entries_def fold_inbox_step_def)

lemma ex_inbox_view [simp]: "inbox_view ex_inbox = Some [''e'' \<mapsto> ex_entry]"
  by (auto simp: inbox_view_def)

subsection \<open>Terminal truth\<close>

text \<open>
  Claim C31: a terminal row stays terminal. Once the fold of the inbox shows an id in a terminal state, no sequence of
  appends, locked transitions, batches and consumes, by any processes and computed from folds however stale, makes the
  fold show it pending again or lose it.
\<close>

theorem terminal_row_stays_terminal:
  assumes "(inbox_write obs_root)\<^sup>*\<^sup>* s s'" and "inbox_view s = Some m" and "m k = Some e" and "i_state e \<noteq> Pending"
  shows "\<exists>m' e'. inbox_view s' = Some m' \<and> m' k = Some e' \<and> i_state e' \<noteq> Pending"
  using settled_kept.run_keeps [OF assms(1), of k] assms(2-4) unfolding settled_def by blast

text \<open>
  The first terminal mark wins. Landing a pending row appends its landed snapshot with the redelivery schedule
  cleared; every later landing, supersession, unresolved mark or expiry of it returns that same snapshot, reports that
  it did nothing, and leaves the log as it is.
\<close>

theorem first_terminal_mark_wins:
  assumes "access_guard p OPERATOR_INBOX_OWNERSHIP (inbox_log_path obs_root) = Inr ()"
    and "inbox_view s = Some m" and "m k = Some e" and "i_state e = Pending"
  shows "\<exists>u s1. mark_landed p obs_root k now why s = (Inr (u, True), s1) \<and> i_state u = Landed \<and>
    i_nextAttemptAt u = None \<and> inbox_view s1 = Some (m(k \<mapsto> u)) \<and>
    mark_landed p obs_root k now2 why2 s1 = (Inr (u, False), s1) \<and>
    mark_superseded p obs_root k now2 why2 replaced_by s1 = (Inr (u, False), s1) \<and>
    mark_unresolved p obs_root k now2 why2 s1 = (Inr (u, False), s1) \<and>
    mark_expired p obs_root k now2 opts s1 = (Inr (u, False), s1)"
proof -
  from landed_mark.mark_on_pending [OF assms, of now why] obtain u where
    u: "landed_transition now why e = Some u" "i_state u \<noteq> Pending" "i_nextAttemptAt u = None"
    "inbox_transition p obs_root k (landed_transition now why) s = (Inr (u, True), append_line u s)"
    "inbox_view (append_line u s) = Some (m(k \<mapsto> u))" by blast
  have "i_state u = Landed" using u(1) assms(4) by (auto simp: landed_transition_def)
  moreover have "(m(k \<mapsto> u)) k = Some u" by simp
  note again = landed_mark.mark_on_terminal [OF assms(1) u(5) this u(2)]
    superseded_mark.mark_on_terminal [OF assms(1) u(5) this u(2)]
    unresolved_mark.mark_on_terminal [OF assms(1) u(5) this u(2)]
    expiry_mark.mark_on_terminal [OF assms(1) u(5) this u(2)]
  ultimately show ?thesis
    using u(3-5) again unfolding mark_landed_def mark_superseded_def mark_unresolved_def mark_expired_def by blast
qed

theorem first_terminal_mark_wins_witness:
  "inbox_view ex_inbox = Some [''e'' \<mapsto> ex_entry] \<and>
   (\<exists>u s1. mark_landed mcp_process [] ''e'' ''5'' ''ok'' ex_inbox = (Inr (u, True), s1) \<and> i_state u = Landed \<and>
      mark_expired mcp_process [] ''e'' ''6'' \<lparr>ex_reason = ''ttl'', ex_readdress_to = None\<rparr> s1 = (Inr (u, False), s1))"
  using first_terminal_mark_wins [of mcp_process "[]" ex_inbox "[''e'' \<mapsto> ex_entry]" "''e''" ex_entry "''5''" "''ok''"
      "''6''" "''x''" None "\<lparr>ex_reason = ''ttl'', ex_readdress_to = None\<rparr>"]
  by auto

text \<open>A stale pending snapshot, appended after the row has landed, changes nothing of the fold.\<close>

theorem terminal_row_stays_terminal_witness:
  "\<exists>s1 u. mark_landed mcp_process [] ''e'' ''5'' ''ok'' ex_inbox = (Inr (u, True), s1) \<and>
     inbox_append mcp_process [] ex_entry s1 = (Inr (), append_line ex_entry s1) \<and>
     (\<exists>m' e'. inbox_view (append_line ex_entry s1) = Some m' \<and> m' ''e'' = Some e' \<and> i_state e' \<noteq> Pending)"
proof -
  from landed_mark.mark_on_pending [where p = mcp_process and obs_root = "[]" and s = ex_inbox and m = "[''e'' \<mapsto> ex_entry]"
      and k = "''e''" and e = ex_entry and now = "''5''" and why = "''ok''"]
  obtain u where u: "i_state u \<noteq> Pending"
    "inbox_transition mcp_process [] ''e'' (landed_transition ''5'' ''ok'') ex_inbox = (Inr (u, True), append_line u ex_inbox)"
    "inbox_view (append_line u ex_inbox) = Some ([''e'' \<mapsto> ex_entry](''e'' \<mapsto> u))" by auto
  have app: "inbox_append mcp_process [] ex_entry (append_line u ex_inbox) =
    (Inr (), append_line ex_entry (append_line u ex_inbox))"
    by (simp add: inbox_append_def check_declared_writer_def declared_daemon_role_def OPERATOR_INBOX_OWNERSHIP_def
        inbox_append_unlocked_def inbox_validated_def)
  have "(inbox_write [])\<^sup>*\<^sup>* (append_line u ex_inbox) (append_line ex_entry (append_line u ex_inbox))"
    by (rule r_into_rtranclp, rule inbox_write.write_append, rule app)
  from terminal_row_stays_terminal [OF this u(3), of "''e''" u] u(1,2) app show ?thesis
    unfolding mark_landed_def by auto
qed

subsection \<open>Batches\<close>

text \<open>
  A batch is all or nothing, and equals the sequence. \<^verbatim>\<open>transition_many\<close> with transitions that keep ids and never
  turn a terminal row pending either raises and leaves the log untouched, or ends in the same results and the same log
  as applying the transitions one after the other.
\<close>

theorem batch_equals_sequence:
  assumes "inbox_transition_many p obs_root ts s = (r, s')" and "\<forall>(k, f)\<in>set ts. monotone_transition f"
  shows "(\<exists>e. r = Inl e \<and> s' = s) \<or> (\<exists>results. r = Inr results \<and> run_transitions p obs_root ts s = (Inr results, s'))"
proof (cases "access_guard p OPERATOR_INBOX_OWNERSHIP (inbox_log_path obs_root)")
  case (Inl e)
  with assms(1) have "(\<exists>e. r = Inl e) \<and> s' = s"
    by (cases "check_declared_writer OPERATOR_INBOX_OWNERSHIP p") (auto simp: inbox_transition_many_def)
  then show ?thesis by blast
next
  case (Inr u)
  from inbox_transition_many_outcome [OF assms(1)] show ?thesis
    using batch_is_sequence [OF _ assms(2)] Inr by (auto 4 3)
qed

text \<open>Superseding a row that is not there after one that is: the batch raises and the log is as before.\<close>

theorem batch_equals_sequence_witness:
  "(\<exists>r. inbox_transition_many mcp_process [] [(''e'', landed_transition ''5'' ''ok'')] ex_inbox = r \<and>
     ((\<exists>e. fst r = Inl e \<and> snd r = ex_inbox) \<or>
      (\<exists>results. fst r = Inr results \<and>
         run_transitions mcp_process [] [(''e'', landed_transition ''5'' ''ok'')] ex_inbox = (Inr results, snd r))))"
proof -
  have mono: "monotone_transition (landed_transition ''5'' ''ok'')"
    by (auto simp: monotone_transition_def landed_transition_def split: if_splits)
  obtain r s' where r: "inbox_transition_many mcp_process [] [(''e'', landed_transition ''5'' ''ok'')] ex_inbox = (r, s')"
    by fastforce
  from batch_equals_sequence [OF r] mono r show ?thesis by auto
qed

subsection \<open>Redelivery\<close>

text \<open>
  No redelivery within fifteen minutes of an attempt. A row that is still pending after a recorded delivery
  attempt at time \<open>t\<close> is not redeliverable at any clock reading before \<open>t\<close> plus 900 seconds, whatever rate limit the
  sweep is configured with: it is reported as not due, or the configured limit is refused.
\<close>

theorem no_early_redelivery:
  assumes "record_delivery c p obs_root k a now fl0 s = (Inr e, s')" and "i_state e = Pending"
    and "fromisoformat c now = Some t" and "n < utc_us t + 900 * 1000000"
  shows "redeliverable_now c n rate e \<noteq> Inr True"
proof
  assume "redeliverable_now c n rate e = Inr True"
  then have "is_rate_limited c e n rate = Inr False" by (rule redeliverable_now_True(3))
  moreover have "i_lastAttemptAt e = Some now"
  proof -
    from record_delivery_pending [OF assms(1,2)] obtain e0 nxt
      where "e = (delivery_evidence_update a now e0)\<lparr>i_nextAttemptAt := Some nxt\<rparr>" by metis
    then show ?thesis by simp
  qed
  ultimately show False using rate_limited_after_attempt [OF _ assms(3,4)] by blast
qed

definition ex_attempt :: delivery_attempt where
  "ex_attempt = \<lparr>at_delivery_state = DDelivered, at_delivered_to_session = None, at_detail = None,
     at_adapter = \<lparr>rc_delivery_state = None, rc_request_id = None, rc_vendor_correlation_id = None, rc_accepted_at = None,
                   rc_detail = None\<rparr>,
     at_landed = False\<rparr>"

definition ex_delivered :: operator_inbox_entry where
  "ex_delivered = (delivery_evidence_update ex_attempt (show_digits 7) ex_entry)
     \<lparr>i_nextAttemptAt := Some (isoformat micro_codec (utc 900000007))\<rparr>"

lemma ex_delivered_fields [simp]: "inbox_ok ex_delivered" "i_state ex_delivered = Pending"
  by (simp_all add: ex_delivered_def inbox_ok_def delivery_evidence_update_def Let_def)

lemma ex_next: "next_attempt_at micro_codec (utc 7) 1 None = Inr (isoformat micro_codec (utc 900000007))"
  by (simp add: next_attempt_at_def require_redelivery_floor_seconds_def DEFAULT_RATE_LIMIT_SECONDS_def
      MIN_REDELIVERY_INTERVAL_SECONDS_def backoff_cases dt_add_def dt_in_range_def max_wall_def utc_def
      timedelta_seconds_def round_half_even_def)

lemma ex_stamp: "fromisoformat micro_codec (show_digits 7) = Some (utc 7)"
  using micro_codec_reads_back [of 7] by (simp add: micro_codec_def iso_reads_back_def show_digits_isdigit int_of_digits_show)

lemma ex_record_delivery:
  shows "record_delivery micro_codec mcp_process [] ''e'' ex_attempt (show_digits 7) NO_REDELIVERY_FLOOR ex_inbox =
    (Inr ex_delivered, append_line ex_delivered ex_inbox)"
proof -
  have app: "inbox_append mcp_process [] ex_delivered ex_inbox = (Inr (), append_line ex_delivered ex_inbox)"
    by (simp add: inbox_append_def check_declared_writer_def declared_daemon_role_def OPERATOR_INBOX_OWNERSHIP_def
        inbox_append_unlocked_def inbox_validated_def)
  have req: "require_entry mcp_process [] ''e'' None ex_inbox = (Inr ex_entry, ex_inbox)"
    by (simp add: require_entry_def inbox_current_def inbox_read_def inbox_read_unlocked_def sbind_sget sbind_assoc sret_def)
  have "\<not> at_landed ex_attempt" by (simp add: ex_attempt_def)
  with req app show ?thesis
    by (simp add: record_delivery_def NO_REDELIVERY_FLOOR_def sbind_Inr parse_now_def ex_stamp ex_next Let_def
        ex_delivered_def [symmetric] sret_def)
qed

theorem no_early_redelivery_witness:
  "record_delivery micro_codec mcp_process [] ''e'' ex_attempt (show_digits 7) NO_REDELIVERY_FLOOR ex_inbox =
     (Inr ex_delivered, append_line ex_delivered ex_inbox) \<and>
   redeliverable_now micro_codec 900000006 900 ex_delivered \<noteq> Inr True"
  using no_early_redelivery [OF ex_record_delivery _ ex_stamp, of 900000006 900] ex_record_delivery
  by (simp add: utc_def)

text \<open>
  A rebound row starts afresh. When a pending row is rebound to a new owner, the snapshot appended keeps the id,
  the ask and the creation time, is addressed to the new owner, has no attempts, no schedule and no adapter evidence,
  and is redeliverable at once under every admissible rate limit.
\<close>

theorem rebound_row_redeliverable:
  assumes "rebind_entry p obs_root k owner now current s = (Inr (e, True), s')" and "900 \<le> rate"
  shows "\<exists>e0 :: operator_inbox_entry. i_state e0 = Pending \<and> i_id e = i_id e0 \<and> i_ask e = i_ask e0 \<and> i_createdAt e = i_createdAt e0 \<and>
      i_ownerAgentId e = owner_agent_id owner \<and> i_attemptCount e = 0 \<and> i_adapterRequestId e = None \<and>
      s' = append_line e s \<and> redeliverable_now c n rate e = Inr True"
proof -
  from assms(1) obtain e0 s1 where e0: "require_entry p obs_root k current s = (Inr e0, s1)" "i_state e0 = Pending"
    "e = rebound owner now e0" "inbox_append p obs_root (rebound owner now e0) s1 = (Inr (), s')"
    by (auto simp: rebind_entry_def sbind_eq_Inr split: if_splits)
  have "s1 = s" using e0(1)
    by (auto simp: require_entry_def inbox_current_def inbox_read_def inbox_read_unlocked_def sbind_eq_Inr
        exclusive_access_Inr split: option.splits)
  with e0 inbox_append_Inr have s': "s' = append_line e s" by blast
  have "redeliverable_now c n rate e = Inr True"
    by (rule fresh_row_redeliverable) (simp_all add: e0(2,3) rebound_fresh assms(2))
  with e0(2) s' show ?thesis by (intro exI [of _ e0]) (simp add: e0(3) rebound_fresh)
qed

lemma ex_rebind:
  "rebind_entry mcp_process [] ''e'' (ex_owner ''b'') ''9'' None ex_inbox =
   (Inr (rebound (ex_owner ''b'') ''9'' ex_entry, True), append_line (rebound (ex_owner ''b'') ''9'' ex_entry) ex_inbox)"
proof -
  have "inbox_ok (rebound (ex_owner ''b'') ''9'' ex_entry)" by (simp add: rebound_def readdress_fields_def inbox_ok_def)
  then have app: "inbox_append mcp_process [] (rebound (ex_owner ''b'') ''9'' ex_entry) ex_inbox =
    (Inr (), append_line (rebound (ex_owner ''b'') ''9'' ex_entry) ex_inbox)"
    by (simp add: inbox_append_def check_declared_writer_def declared_daemon_role_def OPERATOR_INBOX_OWNERSHIP_def
        inbox_append_unlocked_def inbox_validated_def)
  have req: "require_entry mcp_process [] ''e'' None ex_inbox = (Inr ex_entry, ex_inbox)"
    by (simp add: require_entry_def inbox_current_def inbox_read_def inbox_read_unlocked_def sbind_sget sbind_assoc sret_def)
  from req app show ?thesis by (simp add: rebind_entry_def sbind_Inr sret_def)
qed

theorem rebound_row_redeliverable_witness:
  "rebind_entry mcp_process [] ''e'' (ex_owner ''b'') ''9'' None ex_inbox =
   (Inr (rebound (ex_owner ''b'') ''9'' ex_entry, True), append_line (rebound (ex_owner ''b'') ''9'' ex_entry) ex_inbox) \<and>
   redeliverable_now micro_codec 0 900 (rebound (ex_owner ''b'') ''9'' ex_entry) = Inr True"
  using rebound_row_redeliverable [OF ex_rebind, of 900 micro_codec 0] ex_rebind by auto

subsection \<open>Compaction\<close>

lemma kept_pending:
  assumes "t \<in> set (dvalues (fold_operator_inbox_entries rs))" "i_state t \<noteq> Pending"
    "i_id t \<in> inbox_keep_ids c rs now n None"
    "e \<in> set (dvalues (fold_operator_inbox_entries rs))" "i_state e = Pending"
  shows "i_id e \<in> inbox_keep_ids c rs now n None"
proof -
  let ?kept = "filter (keep_inbox_entry c now) (dvalues (fold_operator_inbox_entries rs))"
  from assms(3) obtain t' where t': "i_id t' = i_id t" "t' \<in> set (cap_rows n ?kept)"
    unfolding inbox_keep_ids_def Let_def option.case by (elim imageE) metis
  from t'(2) set_cap_rows [of n ?kept] have "t' \<in> set ?kept" by (rule subsetD [rotated])
  then have "t' \<in> set (dvalues (fold_operator_inbox_entries rs))" by (simp only: set_filter mem_Collect_eq)
  then have "dget (fold_operator_inbox_entries rs) (i_id t) = Some t'" using fold_inbox_values [of t' rs] t'(1) by metis
  moreover have "dget (fold_operator_inbox_entries rs) (i_id t) = Some t" using fold_inbox_values [of t rs] assms(1) by metis
  ultimately have "t' = t" by (metis option.inject)
  with t'(2) assms(2) have "\<forall>e\<in>set ?kept. i_state e = Pending \<longrightarrow> e \<in> set (cap_rows n ?kept)"
    using cap_rows_terminal_only_with_room [of t n ?kept] by blast
  moreover have "e \<in> set ?kept" using assms(4,5) by (simp only: set_filter mem_Collect_eq) (simp add: keep_inbox_entry_def)
  ultimately have "e \<in> set (cap_rows n ?kept)" using assms(5) by blast
  then show ?thesis unfolding inbox_keep_ids_def Let_def option.case by (rule imageI)
qed

text \<open>
  The inbox is bounded, and pending rows go last. A compaction leaves at most 500 ids, each with the snapshot it
  had before, and a terminal row is kept only when every pending row is kept too.
\<close>

theorem inbox_compaction_bounded:
  assumes "inbox_compact c p obs_root now s = (Inr n, s')" and "inbox_view s = Some m"
  shows "\<exists>m'. inbox_view s' = Some m' \<and> m' \<subseteq>\<^sub>m m \<and> card (dom m') \<le> 500 \<and>
    (\<forall>k t. m' k = Some t \<and> i_state t \<noteq> Pending \<longrightarrow>
       (\<forall>j e. m j = Some e \<and> i_state e = Pending \<longrightarrow> m' j = Some e))"
proof -
  from inbox_compact_outcome [OF assms(1)] obtain rs where rs: "read_strict inbox_ok s = Inr rs"
    "inbox_filtered (\<lambda>r. i_id r \<in> inbox_keep_ids c rs now INBOX_MAX_CURRENT_ROWS None) s s'" by blast
  let ?K = "inbox_keep_ids c rs now INBOX_MAX_CURRENT_ROWS None"
  have m: "m = map_of (fold_operator_inbox_entries rs)" using assms(2) rs(1) by (simp add: inbox_view_def)
  have view: "inbox_view s' = Some (m |` ?K)" by (rule inbox_view_filtered [OF rs(2) assms(2)])
  have member: "i_id e = k \<and> e \<in> set (dvalues (fold_operator_inbox_entries rs))" if "m k = Some e" for k e
    using that fold_inbox_key [of rs k e] fold_inbox_values [of e rs] by (simp only: m)
  have fin: "finite ?K" by (simp add: inbox_keep_ids_def Let_def)
  have "card (dom (m |` ?K)) \<le> card ?K" by (rule card_mono [OF fin]) (auto simp: restrict_map_def split: if_splits)
  also have "\<dots> \<le> 500" using inbox_keep_ids_card [of c rs now INBOX_MAX_CURRENT_ROWS None] by (simp add: INBOX_MAX_CURRENT_ROWS_def)
  finally have card: "card (dom (m |` ?K)) \<le> 500" .
  have "(m |` ?K) j = Some e" if "(m |` ?K) k = Some t" "i_state t \<noteq> Pending" "m j = Some e" "i_state e = Pending" for k t j e
  proof -
    from that(1) have "m k = Some t" "k \<in> ?K" by (simp_all add: restrict_map_def split: if_splits)
    with member [of k t] member [OF that(3)] kept_pending [of t rs c now INBOX_MAX_CURRENT_ROWS e] that(2,4)
    have "j \<in> ?K" by blast
    with that(3) show ?thesis by (simp add: restrict_map_def)
  qed
  moreover have "m |` ?K \<subseteq>\<^sub>m m" by (auto simp: map_le_def restrict_map_def split: if_splits)
  ultimately show ?thesis using view card by blast
qed

lemma ex_compact: "inbox_compact micro_codec mcp_process [] 5 ex_inbox = (Inr 0, ex_inbox)"
proof -
  have "inbox_keep_ids micro_codec [ex_entry] 5 INBOX_MAX_CURRENT_ROWS None = {''e''}"
    by (simp add: inbox_keep_ids_def keep_inbox_entry_def cap_rows_def INBOX_MAX_CURRENT_ROWS_def)
  then show ?thesis by (simp add: inbox_compact_def inbox_read_unlocked_def sbind_sget sret_def Let_def)
qed

theorem inbox_compaction_bounded_witness:
  "inbox_compact micro_codec mcp_process [] 5 ex_inbox = (Inr 0, ex_inbox) \<and>
   (\<exists>m'. inbox_view ex_inbox = Some m' \<and> card (dom m') \<le> 500)"
  using inbox_compaction_bounded [OF ex_compact ex_inbox_view] ex_compact by blast

text \<open>
  Reconciling compaction. The fold \<^verbatim>\<open>reconcile_and_compact\<close> returns is the fold of the log it leaves; it holds only
  rows the log held, with unchanged snapshots; and every row it reports as resolved was pending, is marked
  ladder-resolved and is gone from the log.
\<close>

theorem reconcile_result_is_the_log:
  assumes "reconcile_and_compact c p obs_root now rc s = (Inr (removed, kept, resolved), s')"
    and "inbox_view s = Some m"
  shows "inbox_view s' = Some (map_of kept) \<and> map_of kept \<subseteq>\<^sub>m m \<and>
    (\<forall>t\<in>set resolved. i_state t = LadderResolved \<and> map_of kept (i_id t) = None \<and>
       (\<exists>e. m (i_id t) = Some e \<and> i_state e = Pending))"
  using reconcile_outcome [OF assms] by blast

definition ex_resolved :: operator_inbox_entry where
  "ex_resolved = ladder_resolved micro_codec 5 ''stale'' ex_entry"

lemma ex_reconcile:
  "reconcile_and_compact micro_codec mcp_process [] 5 (\<lambda>_. [(''e'', ''stale'')]) ex_inbox =
   (Inr (1, [], [ex_resolved]), Some [])"
proof -
  have st: "i_state ex_resolved = LadderResolved" by (simp add: ex_resolved_def)
  have "resolve_reviewed micro_codec 5 [(''e'', ''stale'')] [(''e'', ex_entry)] = ([ex_resolved], [(''e'', ex_resolved)])"
    by (simp add: ex_resolved_def Let_def)
  moreover have "inbox_keep_ids micro_codec [ex_entry, ex_resolved] 5 INBOX_MAX_CURRENT_ROWS (Some [(''e'', ex_resolved)]) = {}"
    by (simp add: inbox_keep_ids_def keep_inbox_entry_def st cap_rows_def)
  moreover have "inbox_replace_unlocked mcp_process [] [] ex_inbox = (Inr (), rewrite_lines [] ex_inbox)"
    by (rule inbox_replace_run [where own = OPERATOR_INBOX_OWNERSHIP]) simp_all
  ultimately show ?thesis
    by (simp add: reconcile_and_compact_def inbox_read_unlocked_def sbind_sget Let_def sbind_Inr sret_def rewrite_lines_def
        del: resolve_reviewed.simps)
qed

theorem reconcile_result_is_the_log_witness:
  "reconcile_and_compact micro_codec mcp_process [] 5 (\<lambda>_. [(''e'', ''stale'')]) ex_inbox =
     (Inr (1, [], [ex_resolved]), Some []) \<and>
   inbox_view (Some []) = Some (map_of []) \<and> i_state ex_resolved = LadderResolved"
  using reconcile_result_is_the_log [OF ex_reconcile ex_inbox_view] ex_reconcile by simp

end
