(* ===== verification/Event_River.thy ===== *)
theory Event_River
  imports Event_Store
begin

section \<open>The event river\<close>

text \<open>
  \<^verbatim>\<open>observer/event_retention.py\<close>, the workspace cursor of \<^verbatim>\<open>observer/store.py\<close> and the tail reader of \<^verbatim>\<open>serving/events.py\<close>: byte-offset
  cursors into append-only logs, one of which is compacted while clients hold cursors into it. A file is its list of bytes;
  \<open>json.loads\<close> (with the decoding before it) is an argument, \<open>loads\<close>. The base offset of the workspace log is the number of
  bytes already reclaimed; a client's cursor into it is virtual, base plus physical offset. The lock makes an append, a
  compaction and a read atomic steps of the log. An SSE cursor is the map of offsets itself; its base64 text is not modelled.
\<close>

type_synonym bytes = string
type_synonym payload = "(string \<times> json) list"
type_synonym offsets = "(string, nat) dict"
type_synonym json_loads = "string \<Rightarrow> json option"

record river =
  rv_lifecycles :: "(string, bytes) dict"
  rv_workspace :: "bytes option"
  rv_base :: nat

record raw_event =
  re_source :: string
  re_data :: string
  re_payload :: payload
  re_cursor :: offsets

abbreviation nl :: char where
  "nl \<equiv> CHR 0x0A"

definition WORKSPACE_SOURCE :: string where
  "WORKSPACE_SOURCE = ''workspace''"

definition WORKSPACE_EVENT_TTL_SECONDS :: seconds where
  "WORKSPACE_EVENT_TTL_SECONDS = 3600"

definition FLEETING_INACTIVE_TTL_SECONDS :: seconds where
  "FLEETING_INACTIVE_TTL_SECONDS = 3600"

definition ENCLOSURE_INACTIVE_GRACE_SECONDS :: seconds where
  "ENCLOSURE_INACTIVE_GRACE_SECONDS = 3600"

definition REPLAY_WINDOW_SECONDS :: seconds where
  "REPLAY_WINDOW_SECONDS = 3600"

subsection \<open>Complete lines\<close>

text \<open>The complete lines of a chunk that starts at a given offset: where each starts, and its bytes without the newline.\<close>

function complete_lines :: "nat \<Rightarrow> bytes \<Rightarrow> (nat \<times> bytes) list" where
  "complete_lines start chunk =
     (if nl \<in> set chunk
      then let line = takeWhile (\<lambda>b. b \<noteq> nl) chunk
           in (start, line) # complete_lines (start + length line + 1) (drop (length line + 1) chunk)
      else [])"
  by pat_completeness auto

termination complete_lines
  by (relation "measure (length \<circ> snd)") (auto simp: length_pos_if_in_set intro: diff_less)

declare complete_lines.simps [simp del]

definition line_end :: "nat \<times> bytes \<Rightarrow> nat" where
  "line_end x = fst x + length (snd x) + 1"

definition lines_end :: "nat \<Rightarrow> (nat \<times> bytes) list \<Rightarrow> nat" where
  "lines_end start ls = (if ls = [] then start else line_end (last ls))"

subsection \<open>Retention\<close>

definition payload_of :: "json_loads \<Rightarrow> string \<Rightarrow> payload option" where
  "payload_of loads text = (case loads text of Some (JObj kvs) \<Rightarrow> Some kvs | _ \<Rightarrow> None)"

text \<open>\<^verbatim>\<open>_iter_event_payloads\<close>: start, offset after, payload of every complete line that holds an object.\<close>

definition iter_event_payloads :: "json_loads \<Rightarrow> bytes \<Rightarrow> (nat \<times> nat \<times> payload) list" where
  "iter_event_payloads loads bs =
     concat (map (\<lambda>x. case payload_of loads (snd x @ [nl]) of None \<Rightarrow> [] | Some p \<Rightarrow> [(fst x, line_end x, p)])
       (complete_lines 0 bs))"

definition payload_time :: "iso_codec \<Rightarrow> payload \<Rightarrow> int option" where
  "payload_time c p =
     (case dget p ''ts'' of
        Some (JStr ts) \<Rightarrow> if ts = '''' then None
                           else map_option (\<lambda>t. utc_us (as_utc t)) (fromisoformat c (replace_Z ts))
      | _ \<Rightarrow> None)"

text \<open>Whether a row cannot be shown to be older than the cutoff.\<close>

definition retained :: "iso_codec \<Rightarrow> clock \<Rightarrow> payload \<Rightarrow> bool" where
  "retained c cutoff p = (case payload_time c p of None \<Rightarrow> True | Some t \<Rightarrow> cutoff \<le> t)"

fun first_retained_offset_from :: "iso_codec \<Rightarrow> clock \<Rightarrow> nat \<Rightarrow> (nat \<times> nat \<times> payload) list \<Rightarrow> nat" where
  "first_retained_offset_from c cutoff end0 [] = end0"
| "first_retained_offset_from c cutoff end0 ((start, after, p) # rows) =
     (if retained c cutoff p then start else first_retained_offset_from c cutoff after rows)"

definition first_retained_offset :: "json_loads \<Rightarrow> iso_codec \<Rightarrow> bytes \<Rightarrow> clock \<Rightarrow> nat" where
  "first_retained_offset loads c bs cutoff = first_retained_offset_from c cutoff 0 (iter_event_payloads loads bs)"

fun retention_loop :: "iso_codec \<Rightarrow> payload list \<Rightarrow> int option \<times> bool \<times> bool \<Rightarrow> int option \<times> bool \<times> bool" where
  "retention_loop c [] acc = acc"
| "retention_loop c (p # ps) (last_activity, fleeting, promoted) =
     (if dget p ''kind'' = Some (JStr HEARTBEAT_KIND) then retention_loop c ps (last_activity, fleeting, promoted)
      else let last_activity = (case payload_time c p of None \<Rightarrow> last_activity | Some t \<Rightarrow> Some t) in
           if dget p ''kind'' = Some (JStr ''lifecycle.started'')
           then retention_loop c ps (last_activity,
                  (case dget p ''data'' of
                     Some (JObj d) \<Rightarrow> (case dget d ''fleeting'' of None \<Rightarrow> False | Some v \<Rightarrow> json_truthy v)
                   | _ \<Rightarrow> False), promoted)
           else if dget p ''kind'' = Some (JStr ''lifecycle.promoted'')
           then retention_loop c ps (last_activity, fleeting, True)
           else retention_loop c ps (last_activity, fleeting, promoted))"

definition retention_facts :: "json_loads \<Rightarrow> iso_codec \<Rightarrow> bytes \<Rightarrow> int option \<times> bool" where
  "retention_facts loads c bs =
     (case retention_loop c (map (snd \<circ> snd) (iter_event_payloads loads bs)) (None, False, False) of
        (last_activity, fleeting, promoted) \<Rightarrow> (last_activity, fleeting \<and> \<not> promoted))"

text \<open>The readers of an explicit \<^verbatim>\<open>lifecycle.ended\<close> event.\<close>

fun terminal_loop :: "iso_codec \<Rightarrow> payload list \<Rightarrow> int option \<Rightarrow> int option" where
  "terminal_loop c [] terminal_at = terminal_at"
| "terminal_loop c (p # ps) terminal_at =
     (if dget p ''kind'' \<noteq> Some (JStr ''lifecycle.ended'') then terminal_loop c ps terminal_at
      else terminal_loop c ps (case payload_time c p of None \<Rightarrow> terminal_at | Some t \<Rightarrow> Some t))"

definition lifecycle_terminal_at :: "json_loads \<Rightarrow> iso_codec \<Rightarrow> bytes \<Rightarrow> int option" where
  "lifecycle_terminal_at loads c bs = terminal_loop c (map (snd \<circ> snd) (iter_event_payloads loads bs)) None"

definition LIFECYCLE_EVENT_GRACE_SECONDS :: seconds where
  "LIFECYCLE_EVENT_GRACE_SECONDS = 3600"

definition is_expired :: "int \<Rightarrow> clock \<Rightarrow> bool" where
  "is_expired terminal_at now \<longleftrightarrow> LIFECYCLE_EVENT_GRACE_SECONDS < total_seconds (now - terminal_at)"

definition last_activity_at :: "json_loads \<Rightarrow> iso_codec \<Rightarrow> bytes \<Rightarrow> int option" where
  "last_activity_at loads c bs = fst (retention_facts loads c bs)"

definition lifecycle_is_dormant :: "json_loads \<Rightarrow> iso_codec \<Rightarrow> bytes \<Rightarrow> clock \<Rightarrow> bool" where
  "lifecycle_is_dormant loads c bs now =
     (case retention_facts loads c bs of
        (None, _) \<Rightarrow> False
      | (Some t, is_fleeting) \<Rightarrow>
          (if is_fleeting then FLEETING_INACTIVE_TTL_SECONDS else ENCLOSURE_INACTIVE_GRACE_SECONDS) < total_seconds (now - t))"

definition initial_event_offsets :: "json_loads \<Rightarrow> iso_codec \<Rightarrow> river \<Rightarrow> clock \<Rightarrow> offsets" where
  "initial_event_offsets loads c rv now =
     map (\<lambda>(l, bs). (l, if lifecycle_is_dormant loads c bs now then length bs
                        else first_retained_offset loads c bs (now - timedelta_seconds REPLAY_WINDOW_SECONDS)))
       (sort_key fst (rv_lifecycles rv)) @
     (case rv_workspace rv of
        None \<Rightarrow> []
      | Some bs \<Rightarrow> [(WORKSPACE_SOURCE, rv_base rv +
          first_retained_offset loads c bs (now - timedelta_seconds WORKSPACE_EVENT_TTL_SECONDS))])"

definition prune_expired_lifecycle_event_logs ::
  "json_loads \<Rightarrow> iso_codec \<Rightarrow> clock \<Rightarrow> string set \<Rightarrow> river \<Rightarrow> string list \<times> river" where
  "prune_expired_lifecycle_event_logs loads c now protected_ids rv =
     (let expired = (\<lambda>(l, bs). l \<notin> protected_ids \<and> lifecycle_is_dormant loads c bs now)
      in (map fst (filter expired (sort_key fst (rv_lifecycles rv))),
          rv\<lparr>rv_lifecycles := filter (\<lambda>x. \<not> expired x) (rv_lifecycles rv)\<rparr>))"

text \<open>The compaction: the offset of the first row to keep, and how many rows come before it.\<close>

fun retained_scan :: "iso_codec \<Rightarrow> clock \<Rightarrow> nat \<Rightarrow> (nat \<times> nat \<times> payload) list \<Rightarrow> nat option \<times> nat" where
  "retained_scan c cutoff dropped [] = (None, dropped)"
| "retained_scan c cutoff dropped ((start, after, p) # rows) =
     (if retained c cutoff p then (Some start, dropped) else retained_scan c cutoff (dropped + 1) rows)"

definition compact_workspace_river :: "json_loads \<Rightarrow> iso_codec \<Rightarrow> clock \<Rightarrow> seconds \<Rightarrow> river \<Rightarrow> nat \<times> river" where
  "compact_workspace_river loads c now ttl_seconds rv =
     (case rv_workspace rv of
        None \<Rightarrow> (0, rv)
      | Some bs \<Rightarrow>
          let cutoff = now - timedelta_seconds ttl_seconds;
              (retained_start, dropped) = retained_scan c cutoff 0 (iter_event_payloads loads bs)
          in if dropped = 0 then (0, rv)
             else let start = (case retained_start of None \<Rightarrow> length bs | Some s \<Rightarrow> s)
                  in (dropped, rv\<lparr>rv_workspace := Some (drop start bs), rv_base := rv_base rv + start\<rparr>))"

definition workspace_logical_size :: "river \<Rightarrow> nat" where
  "workspace_logical_size rv = rv_base rv + (case rv_workspace rv of None \<Rightarrow> 0 | Some bs \<Rightarrow> length bs)"

definition workspace_append :: "bytes \<Rightarrow> river \<Rightarrow> river" where
  "workspace_append line rv =
     rv\<lparr>rv_workspace := Some ((case rv_workspace rv of None \<Rightarrow> [] | Some bs \<Rightarrow> bs) @ line @ [nl])\<rparr>"

subsection \<open>The tail reader\<close>

definition readline_length :: "bytes \<Rightarrow> nat" where
  "readline_length chunk = (if nl \<in> set chunk then length (takeWhile (\<lambda>b. b \<noteq> nl) chunk) + 1 else length chunk)"

definition aligned_start :: "bytes \<Rightarrow> nat \<Rightarrow> nat" where
  "aligned_start bs start0 =
     (let start = min start0 (length bs)
      in if 0 < start \<and> bs ! (start - 1) \<noteq> nl then start + readline_length (drop start bs) else start)"

definition read_lines_from :: "bytes \<Rightarrow> nat \<Rightarrow> (bytes \<times> nat) list \<times> nat" where
  "read_lines_from bs start0 =
     (let start = aligned_start bs start0; ls = complete_lines start (drop start bs)
      in (map (\<lambda>x. (snd x, line_end x)) ls, lines_end start ls))"

definition read_source_lines :: "river \<Rightarrow> string \<Rightarrow> nat \<Rightarrow> (bytes \<times> nat) list \<times> nat" where
  "read_source_lines rv source virtual_start =
     (if source \<noteq> WORKSPACE_SOURCE
      then read_lines_from (case dget (rv_lifecycles rv) source of None \<Rightarrow> [] | Some bs \<Rightarrow> bs) virtual_start
      else let base = rv_base rv; bs = (case rv_workspace rv of None \<Rightarrow> [] | Some bs \<Rightarrow> bs);
               (ls, physical_end) = read_lines_from bs (min (virtual_start - base) (length bs))
           in (map (\<lambda>(line, after). (line, base + after)) ls, base + physical_end))"

definition discover_sources :: "river \<Rightarrow> string list" where
  "discover_sources rv =
     sort (map fst (rv_lifecycles rv)) @ (case rv_workspace rv of None \<Rightarrow> [] | Some _ \<Rightarrow> [WORKSPACE_SOURCE])"

definition is_heartbeat_event :: "payload \<Rightarrow> bool" where
  "is_heartbeat_event p \<longleftrightarrow> dget p ''kind'' = Some (JStr ''lifecycle.heartbeat'')"

text \<open>What one line emits: nothing for blank text, text that is no object, and heartbeats.\<close>

definition emitted_payload :: "json_loads \<Rightarrow> bytes \<Rightarrow> payload option" where
  "emitted_payload loads line =
     (let text = strip line
      in if text = '''' then None
         else case payload_of loads text of
                None \<Rightarrow> None
              | Some p \<Rightarrow> if is_heartbeat_event p then None else Some p)"

text \<open>The inner loop over the lines of a source; the flag says that the limit was reached.\<close>

fun emit_lines ::
  "json_loads \<Rightarrow> nat option \<Rightarrow> string \<Rightarrow> (bytes \<times> nat) list \<Rightarrow> offsets \<Rightarrow> raw_event list \<Rightarrow>
   offsets \<times> raw_event list \<times> bool" where
  "emit_lines loads limit source [] current events = (current, events, False)"
| "emit_lines loads limit source ((line, after) # ls) current events =
     (let current = dput source after current in
      case emitted_payload loads line of
        None \<Rightarrow> emit_lines loads limit source ls current events
      | Some p \<Rightarrow>
          let events = events @ [\<lparr>re_source = source, re_data = strip line, re_payload = p, re_cursor = current\<rparr>]
          in if limit \<noteq> None \<and> the limit \<le> length events then (current, events, True)
             else emit_lines loads limit source ls current events)"

fun read_sources ::
  "json_loads \<Rightarrow> nat option \<Rightarrow> river \<Rightarrow> string list \<Rightarrow> offsets \<Rightarrow> raw_event list \<Rightarrow> raw_event list \<times> offsets" where
  "read_sources loads limit rv [] current events = (events, current)"
| "read_sources loads limit rv (source # sources) current events =
     (let (ls, end0) = read_source_lines rv source (case dget current source of None \<Rightarrow> 0 | Some n \<Rightarrow> n)
      in case emit_lines loads limit source ls current events of
           (current', events', True) \<Rightarrow> (events', current')
         | (current', events', False) \<Rightarrow> read_sources loads limit rv sources (dput source end0 current') events')"

definition read_new_events ::
  "json_loads \<Rightarrow> river \<Rightarrow> offsets \<Rightarrow> nat option \<Rightarrow> raw_event list \<times> offsets" where
  "read_new_events loads rv offs limit = read_sources loads limit rv (discover_sources rv) offs []"

subsection \<open>The stream\<close>

definition DEFAULT_EVENT_BATCH :: nat where
  "DEFAULT_EVENT_BATCH = 500"

definition PRUNE_INTERVAL_SECONDS :: int where
  "PRUNE_INTERVAL_SECONDS = 60"

text \<open>
  What happens around the stream: the time of each look, and what other tasks and processes do to the files while it waits. A batch
  waits twice, before it prunes and before it reads.
\<close>

record stream_world =
  sw_moment :: "nat \<Rightarrow> clock"
  sw_others :: "nat \<Rightarrow> river \<Rightarrow> river"

definition prune_is_due :: "clock \<Rightarrow> clock \<Rightarrow> bool" where
  "prune_is_due moment last_prune \<longleftrightarrow> PRUNE_INTERVAL_SECONDS * 1000000 \<le> moment - last_prune"

text \<open>
  The backlog phase of \<^verbatim>\<open>stream_raw_events\<close>, up to the \<open>ready\<close> marker: the loop prunes when the last prune is long ago and reads a
  batch of the files as they then are, until a batch is empty. It is a partial function, since nothing in its text says that it ends:
  writers may keep it busy.
\<close>

partial_function (option) stream_backlog ::
  "json_loads \<Rightarrow> iso_codec \<Rightarrow> stream_world \<Rightarrow> nat \<Rightarrow> clock \<Rightarrow> river \<Rightarrow> offsets \<Rightarrow> raw_event list \<Rightarrow>
   ((raw_event list \<times> offsets) \<times> river) option" where
  "stream_backlog loads c world n last_prune rv offs sent =
     (let moment = sw_moment world n;
          due = prune_is_due moment last_prune;
          rv1 = sw_others world (2 * n) rv;
          rv2 = (if due then snd (prune_expired_lifecycle_event_logs loads c moment {} rv1) else rv1);
          rv3 = sw_others world (2 * n + 1) rv2;
          (events, offs') = read_new_events loads rv3 offs (Some DEFAULT_EVENT_BATCH)
      in if events \<noteq> []
         then stream_backlog loads c world (Suc n) (if due then moment else last_prune) rv3 offs' (sent @ events)
         else Some ((sent, offs'), rv3))"

text \<open>
  Connecting: expired logs are pruned, then the backlog is streamed from the client's cursor or from the retained window. The files
  after the prune are returned with it.
\<close>

definition stream_connect ::
  "json_loads \<Rightarrow> iso_codec \<Rightarrow> clock \<Rightarrow> stream_world \<Rightarrow> offsets \<Rightarrow> river \<Rightarrow>
   ((raw_event list \<times> offsets) \<times> river) option \<times> river" where
  "stream_connect loads c now world cursor_offsets rv =
     (let rv' = snd (prune_expired_lifecycle_event_logs loads c now {} rv);
          rv1 = sw_others world 0 rv';
          offs = (if cursor_offsets \<noteq> [] then cursor_offsets else initial_event_offsets loads c rv1 now)
      in (stream_backlog loads c world 1 now rv1 offs [], rv'))"

subsection \<open>Lines of a file that grows or is cut\<close>

lemma complete_lines_none [simp]: "nl \<notin> set chunk \<Longrightarrow> complete_lines s chunk = []"
  by (subst complete_lines.simps) simp

lemma complete_lines_Nil [simp]: "complete_lines s [] = []"
  by simp

lemma complete_lines_line [simp]:
  "nl \<notin> set line \<Longrightarrow> complete_lines s (line @ nl # rest) = (s, line) # complete_lines (s + length line + 1) rest"
proof -
  assume "nl \<notin> set line"
  then have "takeWhile (\<lambda>b. b \<noteq> nl) (line @ nl # rest) = line" by (subst takeWhile_append2) auto
  then show ?thesis by (subst complete_lines.simps) simp
qed

text \<open>Induction over the complete lines of a chunk.\<close>

lemma line_cases:
  obtains (partial_line) "nl \<notin> set chunk"
  | (full_line) line rest where "chunk = line @ nl # rest" "nl \<notin> set line"
  by (metis split_list_first)

lemma line_induct [case_names partial_line full_line]:
  assumes "\<And>chunk. nl \<notin> set chunk \<Longrightarrow> P chunk"
    and "\<And>line rest. nl \<notin> set line \<Longrightarrow> P rest \<Longrightarrow> P (line @ nl # rest)"
  shows "P chunk"
proof (induction chunk rule: length_induct)
  case (1 chunk)
  show ?case
  proof (cases chunk rule: line_cases)
    case partial_line
    then show ?thesis by (rule assms(1))
  next
    case (full_line line rest)
    then have "P rest" using 1 by simp
    with full_line show ?thesis using assms(2) by blast
  qed
qed

definition at_boundary :: "bytes \<Rightarrow> bool" where
  "at_boundary pre \<longleftrightarrow> pre = [] \<or> last pre = nl"

lemma at_boundary_simps [simp]: "at_boundary []" "at_boundary (line @ nl # rest) \<longleftrightarrow> at_boundary rest"
  by (auto simp: at_boundary_def)

lemma complete_lines_append:
  "at_boundary pre \<Longrightarrow> complete_lines s (pre @ post) = complete_lines s pre @ complete_lines (s + length pre) post"
proof (induction pre arbitrary: s rule: line_induct)
  case (partial_line chunk)
  then have "chunk = []" unfolding at_boundary_def by (metis last_in_set)
  then show ?case by simp
next
  case (full_line line rest)
  from full_line.prems full_line.IH [of "s + length line + 1"] full_line.hyps show ?case by (simp add: algebra_simps)
qed

lemma complete_lines_shift: "complete_lines (k + s) chunk = map (\<lambda>x. (k + fst x, snd x)) (complete_lines s chunk)"
proof (induction chunk arbitrary: s rule: line_induct)
  case (full_line line rest)
  from full_line.IH [of "s + length line + 1"] full_line.hyps show ?case by (simp add: algebra_simps)
qed simp

lemma complete_lines_split:
  assumes "(a, line) \<in> set (complete_lines s chunk)"
  obtains pre post where "chunk = pre @ post" "a = s + length pre" "at_boundary pre"
  using assms
proof (induction chunk arbitrary: s thesis rule: line_induct)
  case (full_line l rest)
  show ?case
  proof (cases "(a, line) = (s, l)")
    case True
    then show ?thesis using full_line.prems(1) [of "[]" "l @ nl # rest"] by simp
  next
    case False
    with full_line.prems(2) full_line.hyps have "(a, line) \<in> set (complete_lines (s + length l + 1) rest)" by auto
    from full_line.IH [OF _ this] obtain pre post where
      "rest = pre @ post" "a = s + length l + 1 + length pre" "at_boundary pre" by blast
    then show ?thesis using full_line.prems(1) [of "l @ nl # pre" post] by simp
  qed
qed simp

lemma complete_lines_bounds: "(a, line) \<in> set (complete_lines s chunk) \<Longrightarrow> s \<le> a \<and> line_end (a, line) \<le> s + length chunk"
proof (induction chunk arbitrary: s rule: line_induct)
  case (full_line l rest)
  show ?case
  proof (cases "(a, line) = (s, l)")
    case True
    then show ?thesis by (simp add: line_end_def)
  next
    case False
    with full_line.prems full_line.hyps have "(a, line) \<in> set (complete_lines (s + length l + 1) rest)" by auto
    from full_line.IH [OF this] show ?thesis by simp
  qed
qed simp

lemma complete_lines_sorted: "sorted_wrt (<) (map fst (complete_lines s chunk))"
proof (induction chunk arbitrary: s rule: line_induct)
  case (full_line l rest)
  have "s < a" if "a \<in> fst ` set (complete_lines (s + length l + 1) rest)" for a
    using that complete_lines_bounds [of _ _ "s + length l + 1" rest] by fastforce
  with full_line.IH [of "s + length l + 1"] full_line.hyps show ?case by simp
qed simp

lemma lines_end_shift: "lines_end (k + s) (map (\<lambda>x. (k + fst x, snd x)) ls) = k + lines_end s ls"
  by (simp add: lines_end_def line_end_def last_map)

lemma lines_end_ge: "s \<le> lines_end s (complete_lines s chunk)"
proof (cases "complete_lines s chunk" rule: rev_cases)
  case (snoc xs x)
  then have "s \<le> fst x" using complete_lines_bounds [of "fst x" "snd x" s chunk] by simp
  with snoc show ?thesis by (simp add: lines_end_def line_end_def)
qed (simp add: lines_end_def)

lemma lines_end_le: "lines_end s (complete_lines s chunk) \<le> s + length chunk"
proof -
  consider "complete_lines s chunk = []" | x where "x \<in> set (complete_lines s chunk)" "x = last (complete_lines s chunk)"
    using last_in_set by blast
  then show ?thesis
  proof cases
    case 2
    with complete_lines_bounds [of "fst x" "snd x" s chunk] show ?thesis by (auto simp: lines_end_def)
  qed (simp add: lines_end_def)
qed

text \<open>A chunk is its complete lines and what follows the last newline.\<close>

lemma complete_lines_tail:
  obtains pre post where "chunk = pre @ post" "nl \<notin> set post" "at_boundary pre"
    "lines_end s (complete_lines s chunk) = s + length pre"
proof (induction chunk arbitrary: s thesis rule: line_induct)
  case (partial_line chunk)
  then show ?case using partial_line.prems [of "[]" chunk] by (simp add: lines_end_def)
next
  case (full_line line rest)
  let ?s = "s + length line + 1"
  obtain pre post where p: "rest = pre @ post" "nl \<notin> set post" "at_boundary pre"
    "lines_end ?s (complete_lines ?s rest) = ?s + length pre"
    using full_line.IH [of ?s] by blast
  have "lines_end s (complete_lines s (line @ nl # rest)) = lines_end ?s (complete_lines ?s rest)"
    using full_line.hyps by (auto simp: lines_end_def line_end_def)
  with p show ?case using full_line.prems [of "line @ nl # pre" post] by simp
qed

subsection \<open>Reading on\<close>

lemma readline_length_line [simp]: "nl \<notin> set line \<Longrightarrow> readline_length (line @ nl # rest) = length line + 1"
proof -
  assume "nl \<notin> set line"
  then have "takeWhile (\<lambda>b. b \<noteq> nl) (line @ nl # rest) = line" by (subst takeWhile_append2) auto
  then show ?thesis by (simp add: readline_length_def)
qed

lemma readline_length_le: "readline_length chunk \<le> length chunk"
  by (cases chunk rule: line_cases) (simp_all add: readline_length_def [of chunk])

lemma aligned_start_le: "aligned_start bs v \<le> length bs"
  using readline_length_le [of "drop (min v (length bs)) bs"] by (auto simp: aligned_start_def Let_def)

lemma at_boundary_take: "v \<le> length bs \<Longrightarrow> at_boundary (take v bs) \<longleftrightarrow> v = 0 \<or> bs ! (v - 1) = nl"
proof -
  assume v: "v \<le> length bs"
  show ?thesis
  proof (cases "v = 0")
    case False
    with v have "take v bs \<noteq> []" by auto
    then have "last (take v bs) = take v bs ! (length (take v bs) - 1)" by (rule last_conv_nth)
    also have "\<dots> = bs ! (v - 1)" using v False by (simp add: min_absorb2)
    finally show ?thesis using False \<open>take v bs \<noteq> []\<close> by (simp add: at_boundary_def)
  qed simp
qed

lemma aligned_boundary: "v \<le> length bs \<Longrightarrow> at_boundary (take v bs) \<Longrightarrow> aligned_start bs v = v"
  by (auto simp: aligned_start_def Let_def at_boundary_take min_absorb1)

lemma aligned_end [simp]: "aligned_start bs (length bs) = length bs"
  by (simp add: aligned_start_def readline_length_def Let_def)

lemma read_lines_boundary:
  assumes "bs = pre @ post" "at_boundary pre"
  shows "read_lines_from bs (length pre) =
    (map (\<lambda>x. (snd x, line_end x)) (complete_lines (length pre) post), lines_end (length pre) (complete_lines (length pre) post))"
  using assms aligned_boundary [of "length pre" bs] by (simp add: read_lines_from_def Let_def)

text \<open>The aligned start is a boundary, or the end of a file without a newline from the cursor on.\<close>

lemma aligned_start_boundary:
  "at_boundary (take (aligned_start bs v) bs) \<or> (aligned_start bs v = length bs \<and> nl \<notin> set (drop (min v (length bs)) bs))"
proof -
  let ?v = "min v (length bs)"
  show ?thesis
  proof (cases "0 < ?v \<and> bs ! (?v - 1) \<noteq> nl")
    case False
    then have "aligned_start bs v = ?v" by (auto simp: aligned_start_def Let_def)
    moreover have "at_boundary (take ?v bs)" using False at_boundary_take [of ?v bs] by (metis gr0I min.cobounded2)
    ultimately show ?thesis by simp
  next
    case True
    show ?thesis
    proof (cases "drop ?v bs" rule: line_cases)
      case partial_line
      with True show ?thesis by (simp add: aligned_start_def readline_length_def Let_def)
    next
      case (full_line line rest)
      then have "readline_length (drop ?v bs) = length line + 1" by simp
      with True have "aligned_start bs v = ?v + length line + 1" by (simp add: aligned_start_def Let_def)
      moreover have "take (?v + length line + 1) bs = take ?v bs @ take (length line + 1) (drop ?v bs)"
        by (simp only: add.assoc take_add)
      then have "take (?v + length line + 1) bs = take ?v bs @ line @ [nl]" by (simp add: full_line(1))
      ultimately show ?thesis by (simp add: at_boundary_def)
    qed
  qed
qed

lemma readline_length_append:
  "readline_length (chunk @ added) = (if nl \<in> set chunk then readline_length chunk else length chunk + readline_length added)"
proof (cases chunk rule: line_cases)
  case (full_line line rest)
  then show ?thesis by simp
next
  case partial_line
  then have "takeWhile (\<lambda>b. b \<noteq> nl) (chunk @ added) = chunk @ takeWhile (\<lambda>b. b \<noteq> nl) added"
    by (subst takeWhile_append2) auto
  with partial_line show ?thesis by (simp add: readline_length_def)
qed

lemma readline_length_partial: "nl \<notin> set chunk \<Longrightarrow> readline_length chunk = length chunk"
  by (simp add: readline_length_def)

text \<open>Whether a cursor into a file lies inside a line.\<close>

definition mid_line :: "bytes \<Rightarrow> nat \<Rightarrow> bool" where
  "mid_line bs v \<longleftrightarrow> 0 < v \<and> bs ! (v - 1) \<noteq> nl"

lemma aligned_start_mid:
  "v \<le> length bs \<Longrightarrow> aligned_start bs v = (if mid_line bs v then v + readline_length (drop v bs) else v)"
  by (simp add: aligned_start_def mid_line_def Let_def min_absorb1)

lemma mid_line_append: "v \<le> length bs \<Longrightarrow> mid_line (bs @ added) v = mid_line bs v"
  by (auto simp: mid_line_def nth_append)

lemma mid_line_end:
  assumes "v \<le> length bs" "mid_line bs v" "nl \<notin> set (drop v bs)"
  shows "mid_line bs (length bs)"
proof (cases "v = length bs")
  case False
  with assms have "length bs - 1 - v < length (drop v bs)" by simp
  then have "drop v bs ! (length bs - 1 - v) \<noteq> nl" using assms(3) by (metis nth_mem)
  moreover have "0 < length bs" using assms(1) False by (metis le_neq_implies_less not_less_zero gr0I)
  ultimately show ?thesis using False assms(1) by (simp add: mid_line_def)
qed (use assms in simp)

lemma aligned_start_append:
  assumes v: "v \<le> length bs"
  shows "aligned_start (bs @ added) v =
    (if mid_line bs v \<and> nl \<notin> set (drop v bs) then aligned_start (bs @ added) (length bs) else aligned_start bs v)"
proof (cases "mid_line bs v \<and> nl \<notin> set (drop v bs)")
  case True
  then have "mid_line bs (length bs)" using mid_line_end v by blast
  with True v show ?thesis by (simp add: aligned_start_mid mid_line_append readline_length_append)
next
  case False
  with v show ?thesis by (auto simp: aligned_start_mid mid_line_append readline_length_append)
qed

lemma read_lines_aligned:
  "aligned_start bs v = aligned_start bs w \<Longrightarrow> read_lines_from bs v = read_lines_from bs w"
  by (simp add: read_lines_from_def)

lemma read_lines_clamp: "read_lines_from bs (min v (length bs)) = read_lines_from bs v"
  by (rule read_lines_aligned) (simp add: aligned_start_def)

lemma lines_end_append: "lines_end s (xs @ ys) = lines_end (lines_end s xs) ys"
  by (simp add: lines_end_def)

lemma at_boundary_append: "at_boundary pre \<Longrightarrow> at_boundary post \<Longrightarrow> at_boundary (pre @ post)"
  by (cases "post = []") (auto simp: at_boundary_def)

text \<open>What a read leaves unread is read by the next one, also when the file has grown meanwhile.\<close>

lemma read_lines_resume:
  assumes v: "v \<le> length bs" and ls: "read_lines_from bs v = (ls, e)"
  shows "read_lines_from (bs @ added) v =
    (ls @ fst (read_lines_from (bs @ added) e), snd (read_lines_from (bs @ added) e))"
proof (cases "mid_line bs v \<and> nl \<notin> set (drop v bs)")
  case True
  with v have "aligned_start bs v = length bs" by (simp add: aligned_start_mid readline_length_partial)
  with ls have "ls = []" "e = length bs" by (simp_all add: read_lines_from_def lines_end_def)
  moreover have "read_lines_from (bs @ added) v = read_lines_from (bs @ added) (length bs)"
    using True aligned_start_append [OF v, of added] by (intro read_lines_aligned) simp
  ultimately show ?thesis by simp
next
  case False
  let ?a = "aligned_start bs v"
  define pre where "pre = take ?a bs"
  have al: "aligned_start (bs @ added) v = ?a" using False by (simp only: aligned_start_append [OF v, of added] if_False)
  have len: "length pre = ?a" using aligned_start_le [of bs v] by (simp add: pre_def min_absorb2)
  have b: "at_boundary pre"
    using aligned_start_boundary [of bs v] False v by (auto simp: pre_def min_absorb1 aligned_start_mid at_boundary_take mid_line_def)
  obtain p q where pq: "drop ?a bs = p @ q" "nl \<notin> set q" "at_boundary p"
    "lines_end ?a (complete_lines ?a (drop ?a bs)) = ?a + length p"
    using complete_lines_tail by blast
  have bs: "bs = pre @ p @ q" using pq(1) by (metis append_take_drop_id pre_def)
  have ls': "ls = map (\<lambda>x. (snd x, line_end x)) (complete_lines ?a p)" and e: "e = ?a + length p"
    using ls pq complete_lines_append [OF pq(3), of ?a q] by (simp_all add: read_lines_from_def Let_def)
  have dr: "drop ?a (bs @ added) = p @ q @ added" using bs len by simp
  have p_end: "lines_end ?a (complete_lines ?a p) = ?a + length p"
    using pq complete_lines_append [OF pq(3), of ?a q] by simp
  have "read_lines_from (bs @ added) e = read_lines_from ((pre @ p) @ q @ added) (length (pre @ p))" using bs len e by simp
  also have "\<dots> = (map (\<lambda>x. (snd x, line_end x)) (complete_lines e (q @ added)), lines_end e (complete_lines e (q @ added)))"
    using read_lines_boundary [OF refl at_boundary_append [OF b pq(3)], of "q @ added"] e len by simp
  finally show ?thesis
    using ls' e p_end complete_lines_append [OF pq(3), of ?a "q @ added"]
    by (simp add: read_lines_from_def [of "bs @ added" v] al dr Let_def lines_end_append del: drop_append)
qed

lemma read_lines_end: 
  assumes "read_lines_from bs v = (ls, e)"
  shows "read_lines_from bs e = ([], e)"
proof -
  have "read_lines_from bs (min v (length bs)) = (ls, e)" using assms by (simp add: read_lines_clamp)
  from read_lines_resume [OF _ this, of "[]"] this show ?thesis by (auto simp: prod_eq_iff)
qed

subsection \<open>Reading on from a line, and reading a file whose head was cut\<close>

lemma complete_lines_after:
  assumes "complete_lines s chunk = xs @ x # ys"
  obtains pre post where "chunk = pre @ post" "line_end x = s + length pre" "at_boundary pre"
    "complete_lines (line_end x) post = ys"
  using assms
proof (induction chunk arbitrary: s xs thesis rule: line_induct)
  case (full_line l rest)
  let ?s = "s + length l + 1"
  have eq: "(s, l) # complete_lines ?s rest = xs @ x # ys" using full_line.prems(2) full_line.hyps by simp
  show ?case
  proof (cases xs)
    case Nil
    with eq have "x = (s, l)" "complete_lines ?s rest = ys" by simp_all
    then show ?thesis using full_line.prems(1) [of "l @ [nl]" rest] by (simp add: line_end_def)
  next
    case (Cons y xs')
    with eq have "complete_lines ?s rest = xs' @ x # ys" by simp
    from full_line.IH [OF _ this] obtain pre post where
      "rest = pre @ post" "line_end x = ?s + length pre" "at_boundary pre" "complete_lines (line_end x) post = ys" by blast
    then show ?thesis using full_line.prems(1) [of "l @ nl # pre" post] by simp
  qed
qed simp

lemma aligned_split:
  obtains (boundary) pre post where "bs = pre @ post" "at_boundary pre" "aligned_start bs v = length pre"
  | (no_line) "aligned_start bs v = length bs"
proof -
  let ?a = "aligned_start bs v"
  have "length (take ?a bs) = ?a" using aligned_start_le [of bs v] by (simp add: min_absorb2)
  then show thesis
    using aligned_start_boundary [of bs v] boundary [of "take ?a bs" "drop ?a bs"] no_line by auto
qed

lemma read_lines_after:
  assumes "read_lines_from bs v = (ls1 @ (l, a) # ls2, e)"
  shows "read_lines_from bs a = (ls2, e)"
proof (cases bs v rule: aligned_split)
  case (boundary pre post)
  let ?s = "length pre" and ?f = "\<lambda>x. (snd x, line_end x)"
  let ?cl = "complete_lines ?s post"
  have r: "map ?f ?cl = ls1 @ (l, a) # ls2" "e = lines_end ?s ?cl"
    using assms boundary by (simp_all add: read_lines_from_def Let_def)
  then obtain xs x ys where c: "?cl = xs @ x # ys" "ls2 = map ?f ys" "line_end x = a"
    by (auto simp: map_eq_append_conv map_eq_Cons_conv)
  obtain p q where pq: "post = p @ q" "a = ?s + length p" "at_boundary p" "complete_lines a q = ys"
    using complete_lines_after [OF c(1)] c(3) by metis
  have "read_lines_from bs a = (map ?f (complete_lines a q), lines_end a (complete_lines a q))"
    using read_lines_boundary [OF refl at_boundary_append [OF boundary(2) pq(3)], of q] boundary(1) pq by simp
  with c pq r(2) show ?thesis by (simp add: lines_end_append) (simp add: lines_end_def)
next
  case no_line
  with assms show ?thesis by (simp add: read_lines_from_def)
qed

text \<open>A file cut at a line boundary, or cut whole, reads on as before in the coordinates of the old file.\<close>

lemma aligned_start_suffix:
  assumes "at_boundary pre \<or> post = []" "i \<le> length post"
  shows "aligned_start (pre @ post) (length pre + i) = length pre + aligned_start post i"
proof (cases "i = 0")
  case True
  with assms show ?thesis
    using aligned_boundary [of "length pre" "pre @ post"] by (auto simp: aligned_start_def [of post] Let_def)
next
  case False
  with assms(2) have "mid_line (pre @ post) (length pre + i) = mid_line post i"
    by (auto simp: mid_line_def nth_append)
  with False assms(2) show ?thesis by (simp add: aligned_start_mid)
qed

lemma read_lines_suffix:
  assumes "at_boundary pre \<or> post = []" "i \<le> length post"
  shows "read_lines_from (pre @ post) (length pre + i) =
    (map (\<lambda>(line, after). (line, length pre + after)) (fst (read_lines_from post i)), length pre + snd (read_lines_from post i))"
proof -
  let ?a = "aligned_start post i"
  have "complete_lines (length pre + ?a) (drop ?a post) =
      map (\<lambda>x. (length pre + fst x, snd x)) (complete_lines ?a (drop ?a post))"
    by (rule complete_lines_shift)
  then show ?thesis
    using aligned_start_suffix [OF assms] by (simp add: read_lines_from_def Let_def lines_end_shift line_end_def o_def)
qed

subsection \<open>Bounded reads\<close>

abbreviation workspace_bytes :: "river \<Rightarrow> bytes" where
  "workspace_bytes rv \<equiv> (case rv_workspace rv of None \<Rightarrow> [] | Some bs \<Rightarrow> bs)"

lemma read_source_workspace:
  "read_source_lines rv WORKSPACE_SOURCE v =
     (map (\<lambda>(line, after). (line, rv_base rv + after)) (fst (read_lines_from (workspace_bytes rv) (v - rv_base rv))),
      rv_base rv + snd (read_lines_from (workspace_bytes rv) (v - rv_base rv)))"
  by (simp add: read_source_lines_def Let_def read_lines_clamp split: prod.split)

lemma read_source_end:
  assumes "read_source_lines rv source v = (ls, e)"
  shows "read_source_lines rv source e = ([], e)"
proof (cases "source = WORKSPACE_SOURCE")
  case True
  obtain l n where r: "read_lines_from (workspace_bytes rv) (v - rv_base rv) = (l, n)" by fastforce
  with assms True have "e = rv_base rv + n" by (simp add: read_source_workspace)
  with True read_lines_end [OF r] show ?thesis by (simp add: read_source_workspace)
next
  case False
  with assms read_lines_end show ?thesis by (simp add: read_source_lines_def)
qed

lemma read_source_after:
  assumes "read_source_lines rv source v = (ls1 @ (l, a) # ls2, e)"
  shows "read_source_lines rv source a = (ls2, e)"
proof (cases "source = WORKSPACE_SOURCE")
  case True
  obtain k n where r: "read_lines_from (workspace_bytes rv) (v - rv_base rv) = (k, n)" by fastforce
  with assms True have "map (\<lambda>(line, after). (line, rv_base rv + after)) k = ls1 @ (l, a) # ls2" and e: "e = rv_base rv + n"
    by (simp_all add: read_source_workspace)
  then obtain k1 m k2 where k: "k = k1 @ (l, m) # k2" "a = rv_base rv + m"
    "ls2 = map (\<lambda>(line, after). (line, rv_base rv + after)) k2"
    by (auto simp: map_eq_append_conv map_eq_Cons_conv)
  with r have "read_lines_from (workspace_bytes rv) m = (k2, n)" using read_lines_after by blast
  with True k e show ?thesis by (simp add: read_source_workspace)
next
  case False
  with assms have "read_lines_from (case dget (rv_lifecycles rv) source of None \<Rightarrow> [] | Some bs \<Rightarrow> bs) v = (ls1 @ (l, a) # ls2, e)"
    by (simp add: read_source_lines_def)
  from read_lines_after [OF this] False show ?thesis by (simp add: read_source_lines_def)
qed

lemma emit_lines_unbounded:
  "emit_lines loads limit source ls current events = (current', events', False) \<Longrightarrow>
   emit_lines loads None source ls current events = (current', events', False)"
proof (induction loads limit source ls current events rule: emit_lines.induct)
  case (2 loads limit source line after ls current events)
  then show ?case by (auto simp: Let_def split: option.splits if_splits)
qed simp


lemma emit_lines_none_sends:
  "emit_lines loads None source ls current events =
     (fst (emit_lines loads None source ls current []), events @ fst (snd (emit_lines loads None source ls current [])), False)"
proof (induction ls arbitrary: current events)
  case (Cons x ls)
  obtain line after where x: "x = (line, after)" by fastforce
  show ?case
  proof (cases "emitted_payload loads line")
    case None
    with x Cons.IH [of "dput source after current" events] show ?thesis by (simp add: Let_def)
  next
    case (Some p)
    let ?ev = "\<lparr>re_source = source, re_data = strip line, re_payload = p, re_cursor = dput source after current\<rparr>"
    from Some x Cons.IH [of "dput source after current" "events @ [?ev]"] Cons.IH [of "dput source after current" "[?ev]"]
    show ?thesis by (simp add: Let_def)
  qed
qed simp

lemma emit_lines_stop:
  "emit_lines loads limit source ls current events = (current', events', True) \<Longrightarrow>
   \<exists>ls1 l a ls2. ls = ls1 @ (l, a) # ls2 \<and> dget current' source = Some a \<and> events' \<noteq> [] \<and>
     emit_lines loads None source ls2 current' events' = emit_lines loads None source ls current events"
proof (induction loads limit source ls current events rule: emit_lines.induct)
  case (2 loads limit source line after ls current events)
  let ?c = "dput source after current"
  show ?case
  proof (cases "emitted_payload loads line")
    case None
    with 2 have "emit_lines loads limit source ls ?c events = (current', events', True)" by (simp add: Let_def)
    from "2.IH"(1) [OF refl None this] obtain ls1 l a ls2 where
      "ls = ls1 @ (l, a) # ls2" "dget current' source = Some a" "events' \<noteq> []"
      "emit_lines loads None source ls2 current' events' = emit_lines loads None source ls ?c events" by blast
    with None show ?thesis by (intro exI [of _ "(line, after) # ls1"]) (simp add: Let_def)
  next
    case (Some p)
    let ?ev = "events @ [\<lparr>re_source = source, re_data = strip line, re_payload = p, re_cursor = ?c\<rparr>]"
    show ?thesis
    proof (cases "limit \<noteq> None \<and> the limit \<le> length ?ev")
      case True
      have "emit_lines loads limit source ((line, after) # ls) current events = (?c, ?ev, True)"
        using True Some by (simp add: Let_def)
      then have "(?c, ?ev, True) = (current', events', True)" using "2.prems" by (rule trans [OF sym])
      then have "current' = ?c" "events' = ?ev" by blast+
      with Some show ?thesis
        by (intro exI [of _ "[] :: (bytes \<times> nat) list"] exI [of _ after] exI [of _ ls] conjI exI [of _ line]) (simp_all add: Let_def)
    next
      case False
      then have "emit_lines loads limit source ((line, after) # ls) current events = emit_lines loads limit source ls ?c ?ev"
        using Some by (auto simp: Let_def)
      then have "emit_lines loads limit source ls ?c ?ev = (current', events', True)" using "2.prems" by (rule trans [OF sym])
      from "2.IH"(2) [OF refl Some refl False this] obtain ls1 l a ls2 where
        "ls = ls1 @ (l, a) # ls2" "dget current' source = Some a" "events' \<noteq> []"
        "emit_lines loads None source ls2 current' events' = emit_lines loads None source ls ?c ?ev" by blast
      with Some show ?thesis by (intro exI [of _ "(line, after) # ls1"]) (simp add: Let_def)
    qed
  qed
qed simp

lemma read_sources_none_sends:
  "read_sources loads None rv srcs current events =
     (events @ fst (read_sources loads None rv srcs current []), snd (read_sources loads None rv srcs current []))"
proof (induction srcs arbitrary: current events)
  case (Cons source srcs)
  obtain ls e where r: "read_source_lines rv source (case dget current source of None \<Rightarrow> 0 | Some n \<Rightarrow> n) = (ls, e)"
    by fastforce
  obtain c n where em: "emit_lines loads None source ls current [] = (c, n, False)"
    using emit_lines_none_sends [of loads source ls current "[]"] by metis
  have "emit_lines loads None source ls current events = (c, events @ n, False)"
    using emit_lines_none_sends [of loads source ls current events] em by simp
  with r em Cons.IH [of "dput source e c" "events @ n"] Cons.IH [of "dput source e c" n] show ?case by simp
qed simp

lemma emit_lines_keeps: "source' \<noteq> source \<Longrightarrow> emit_lines loads limit source ls current events = (current', events', b) \<Longrightarrow>
   dget current' source' = dget current source'"
proof (induction ls arbitrary: current events)
  case (Cons x ls)
  obtain line after where x: "x = (line, after)" by fastforce
  with Cons.prems Cons.IH [OF Cons.prems(1), of "dput source after current"] show ?case
    by (cases "emitted_payload loads line") (auto simp: Let_def split: if_splits)
qed simp

lemma read_sources_keeps:
  "source \<notin> set srcs \<Longrightarrow> read_sources loads limit rv srcs current events = (events', current') \<Longrightarrow>
   dget current' source = dget current source"
proof (induction srcs arbitrary: current events)
  case (Cons s srcs)
  obtain ls e where r: "read_source_lines rv s (case dget current s of None \<Rightarrow> 0 | Some n \<Rightarrow> n) = (ls, e)"
    by fastforce
  obtain c n b where em: "emit_lines loads limit s ls current events = (c, n, b)" by (metis prod_cases3)
  have k: "dget c source = dget current source" using emit_lines_keeps [OF _ em] Cons.prems(1) by simp
  show ?case
  proof (cases b)
    case True
    with r em k Cons.prems(2) show ?thesis by simp
  next
    case False
    with r em Cons.prems have "read_sources loads limit rv srcs (dput s e c) n = (events', current')" by simp
    with Cons.IH Cons.prems(1) k show ?thesis by fastforce
  qed
qed simp

text \<open>A bounded read followed by an unbounded one is one unbounded read.\<close>

lemma read_sources_resume:
  "distinct srcs \<Longrightarrow> read_sources loads limit rv srcs current events = (events', current') \<Longrightarrow>
   read_sources loads None rv srcs current' events' = read_sources loads None rv srcs current events"
proof (induction srcs arbitrary: current events)
  case (Cons s srcs)
  obtain ls e where r: "read_source_lines rv s (case dget current s of None \<Rightarrow> 0 | Some n \<Rightarrow> n) = (ls, e)"
    by fastforce
  obtain c n b where em: "emit_lines loads limit s ls current events = (c, n, b)" by (metis prod_cases3)
  show ?case
  proof (cases b)
    case True
    with r em Cons.prems(2) have eq: "c = current'" "n = events'" by simp_all
    with True em have "emit_lines loads limit s ls current events = (current', events', True)" by simp
    from emit_lines_stop [OF this] obtain ls1 l a ls2 where stop: "ls = ls1 @ (l, a) # ls2" "dget current' s = Some a"
      "emit_lines loads None s ls2 current' events' = emit_lines loads None s ls current events"
      by (elim exE conjE)
    have "read_source_lines rv s a = (ls2, e)" using read_source_after r stop(1) by blast
    with stop(2,3) r show ?thesis by simp
  next
    case False
    with em have "emit_lines loads limit s ls current events = (c, n, False)" by simp
    then have un: "emit_lines loads None s ls current events = (c, n, False)" by (rule emit_lines_unbounded)
    from False r em Cons.prems have rest: "read_sources loads limit rv srcs (dput s e c) n = (events', current')" by simp
    have e: "dget current' s = Some e" using read_sources_keeps [OF _ rest, of s] Cons.prems(1) by simp
    then have "dput s e current' = current'" by (rule update_triv)
    then have "read_sources loads None rv (s # srcs) current' events' = read_sources loads None rv srcs current' events'"
      using e read_source_end [OF r] by simp
    also have "\<dots> = read_sources loads None rv srcs (dput s e c) n" using Cons.IH [OF _ rest] Cons.prems(1) by simp
    also have "\<dots> = read_sources loads None rv (s # srcs) current events" using r un by simp
    finally show ?thesis .
  qed
qed simp

lemma emit_lines_events_grow: 
  "emit_lines loads limit source ls current events = (current', events', b) \<Longrightarrow> \<exists>new. events' = events @ new"
proof (induction ls arbitrary: current events)
  case (Cons x ls)
  obtain line after where x: "x = (line, after)" by fastforce
  show ?case
  proof (cases "emitted_payload loads line")
    case None
    with x Cons.prems Cons.IH [of "dput source after current" events] show ?thesis by (simp add: Let_def)
  next
    case (Some p)
    with x Cons.prems Cons.IH [of "dput source after current" "events @ [y]" for y] show ?thesis
      by (fastforce simp: Let_def split: if_splits)
  qed
qed simp

lemma read_sources_events_grow:
  "read_sources loads limit rv srcs current events = (events', current') \<Longrightarrow> \<exists>new. events' = events @ new"
proof (induction srcs arbitrary: current events)
  case (Cons s srcs)
  obtain ls e where r: "read_source_lines rv s (case dget current s of None \<Rightarrow> 0 | Some n \<Rightarrow> n) = (ls, e)"
    by fastforce
  obtain c n b where em: "emit_lines loads limit s ls current events = (c, n, b)" by (metis prod_cases3)
  obtain new where "n = events @ new" using emit_lines_events_grow [OF em] by blast
  with r em Cons show ?case by (cases b) fastforce+
qed simp

lemma emit_lines_limit:
  assumes "emit_lines loads limit source ls current events = (current', events', b)" "events' = []"
  shows "emit_lines loads None source ls current events = (current', events', False) \<and> \<not> b"
proof (cases b)
  case True
  with assms(1) have "emit_lines loads limit source ls current events = (current', events', True)" by simp
  from emit_lines_stop [OF this] assms(2) show ?thesis by simp
next
  case False
  with assms(1) have "emit_lines loads limit source ls current events = (current', events', False)" by simp
  from emit_lines_unbounded [OF this] False show ?thesis by simp
qed

text \<open>A bounded read that sends nothing has read everything.\<close>

lemma read_sources_empty:
  "read_sources loads limit rv srcs current [] = ([], current') \<Longrightarrow> read_sources loads None rv srcs current [] = ([], current')"
proof (induction srcs arbitrary: current)
  case (Cons s srcs)
  obtain ls e where r: "read_source_lines rv s (case dget current s of None \<Rightarrow> 0 | Some n \<Rightarrow> n) = (ls, e)"
    by fastforce
  obtain c n b where em: "emit_lines loads limit s ls current [] = (c, n, b)" by (metis prod_cases3)
  have "n = []"
  proof (cases b)
    case True
    with r em Cons.prems show ?thesis by simp
  next
    case False
    with r em Cons.prems have "read_sources loads limit rv srcs (dput s e c) n = ([], current')" by simp
    from read_sources_events_grow [OF this] show ?thesis by simp
  qed
  from emit_lines_limit [OF em this] this r em Cons show ?case by simp
qed simp

lemma discover_sources_distinct:
  "dict_ok (rv_lifecycles rv) \<Longrightarrow> WORKSPACE_SOURCE \<notin> fst ` set (rv_lifecycles rv) \<Longrightarrow> distinct (discover_sources rv)"
  by (auto simp: discover_sources_def split: option.split)

lemma read_new_events_resume:
  assumes "distinct (discover_sources rv)" "read_new_events loads rv offs limit = (ev1, offs1)"
  shows "read_new_events loads rv offs None =
    (ev1 @ fst (read_new_events loads rv offs1 None), snd (read_new_events loads rv offs1 None))"
  using read_sources_resume [OF assms(1) assms(2) [unfolded read_new_events_def]]
    read_sources_none_sends [of loads rv "discover_sources rv" offs1 ev1]
  by (simp add: read_new_events_def)

subsection \<open>Compaction\<close>

definition event_row :: "json_loads \<Rightarrow> nat \<times> bytes \<Rightarrow> (nat \<times> nat \<times> payload) list" where
  "event_row loads x = (case payload_of loads (snd x @ [nl]) of None \<Rightarrow> [] | Some p \<Rightarrow> [(fst x, line_end x, p)])"

lemma iter_event_payloads_rows: "iter_event_payloads loads bs = concat (map (event_row loads) (complete_lines 0 bs))"
  by (simp add: iter_event_payloads_def event_row_def cong: map_cong)

lemma iter_row_split:
  assumes "(s, a, p) \<in> set (iter_event_payloads loads bs)"
  obtains pre post where "bs = pre @ post" "s = length pre" "at_boundary pre"
proof -
  from assms obtain line where "(s, line) \<in> set (complete_lines 0 bs)"
    by (auto simp: iter_event_payloads_def split: option.splits)
  from complete_lines_split [OF this] that show thesis by (metis add_0)
qed

lemma iter_rows_sorted: "sorted_wrt (<) (map fst (iter_event_payloads loads bs))"
proof -
  have "sorted_wrt (<) (map fst (concat (map (event_row loads) xs)))" if "sorted_wrt (<) (map fst xs)" for xs :: "(nat \<times> bytes) list"
    using that by (induction xs) (auto simp: event_row_def sorted_wrt_append split: option.splits)
  then show ?thesis using complete_lines_sorted by (simp add: iter_event_payloads_rows)
qed

lemma retained_scan_Some:
  "sorted_wrt (<) (map fst rows) \<Longrightarrow> retained_scan c cutoff d rows = (Some s, n) \<Longrightarrow>
   s \<in> fst ` set rows \<and> (\<forall>(s', a, p) \<in> set rows. retained c cutoff p \<longrightarrow> s \<le> s')"
proof (induction c cutoff d rows rule: retained_scan.induct)
  case (2 c cutoff dropped start after p rows)
  then show ?case by (cases "retained c cutoff p") fastforce+
qed simp

lemma retained_scan_None:
  "retained_scan c cutoff d rows = (None, n) \<Longrightarrow> \<forall>(s', a, p) \<in> set rows. \<not> retained c cutoff p"
  by (induction c cutoff d rows rule: retained_scan.induct) (auto split: if_splits)

lemma compaction_cut:
  assumes ws: "rv_workspace rv = Some bs" and run: "compact_workspace_river loads c now ttl rv = (n, rv')"
  obtains pre post where "bs = pre @ post" "at_boundary pre \<or> post = []" "rv' = rv\<lparr>rv_workspace := Some post, rv_base := rv_base rv + length pre\<rparr>"
    "\<forall>(s, a, p) \<in> set (iter_event_payloads loads bs). retained c (now - timedelta_seconds ttl) p \<longrightarrow> length pre \<le> s"
proof -
  let ?rows = "iter_event_payloads loads bs" and ?cut = "now - timedelta_seconds ttl"
  obtain rs d where sc: "retained_scan c ?cut 0 ?rows = (rs, d)" by fastforce
  show thesis
  proof (cases "d = 0")
    case True
    with ws run sc have "rv' = rv" by (simp add: compact_workspace_river_def Let_def)
    then show thesis using that [of "[]" bs] ws by simp
  next
    case False
    show thesis
    proof (cases rs)
      case None
      with ws run sc False have "rv' = rv\<lparr>rv_workspace := Some [], rv_base := rv_base rv + length bs\<rparr>"
        by (simp add: compact_workspace_river_def Let_def)
      moreover have "\<forall>(s, a, p) \<in> set ?rows. \<not> retained c ?cut p" using sc None retained_scan_None by blast
      ultimately show thesis using that [of bs "[]"] by fastforce
    next
      case (Some s)
      then have s: "s \<in> fst ` set ?rows" "\<forall>(s', a, p) \<in> set ?rows. retained c ?cut p \<longrightarrow> s \<le> s'"
        using retained_scan_Some [OF iter_rows_sorted, of c ?cut 0 loads bs s d] sc by blast+
      from s(1) obtain a p where "(s, a, p) \<in> set ?rows" by (metis imageE prod.exhaust_sel)
      then obtain pre post where pp: "bs = pre @ post" "s = length pre" "at_boundary pre" by (rule iter_row_split)
      with ws run sc False Some have "rv' = rv\<lparr>rv_workspace := Some post, rv_base := rv_base rv + length pre\<rparr>"
        by (simp add: compact_workspace_river_def Let_def)
      from that [OF pp(1) _ this] pp(2,3) s(2) show thesis by simp
    qed
  qed
qed

lemma read_source_cut:
  assumes "rv_workspace rv = Some (pre @ post)" "at_boundary pre \<or> post = []"
    and rv': "rv' = rv\<lparr>rv_workspace := Some post, rv_base := rv_base rv + length pre\<rparr>"
  shows "read_source_lines rv' WORKSPACE_SOURCE v = read_source_lines rv WORKSPACE_SOURCE (max v (rv_base rv'))"
proof -
  let ?w = "v - rv_base rv'"
  have split: "max v (rv_base rv') - rv_base rv = length pre + ?w" using rv' by simp
  have "read_lines_from (pre @ post) (length pre + ?w) = read_lines_from (pre @ post) (length pre + min ?w (length post))"
    by (rule read_lines_aligned) (simp add: aligned_start_def min_add_distrib_right)
  also have "\<dots> = (map (\<lambda>(line, after). (line, length pre + after)) (fst (read_lines_from post ?w)),
      length pre + snd (read_lines_from post ?w))"
    using read_lines_suffix [OF assms(2), of "min ?w (length post)"] by (simp add: read_lines_clamp)
  finally have "read_lines_from (pre @ post) (length pre + ?w) = \<dots>" .
  then show ?thesis
    unfolding read_source_workspace split using assms(1) rv' by (simp add: case_prod_unfold o_def add.assoc)
qed

subsection \<open>The backlog ends\<close>

text \<open>Nobody else writes the files \<open>rv\<close>, and a prune that becomes due finds nothing to remove.\<close>

definition quiet_files :: "json_loads \<Rightarrow> iso_codec \<Rightarrow> stream_world \<Rightarrow> clock \<Rightarrow> river \<Rightarrow> bool" where
  "quiet_files loads c world now rv \<longleftrightarrow>
     (\<forall>k. sw_others world k rv = rv) \<and>
     (\<forall>k. prune_is_due (sw_moment world k) now \<longrightarrow>
        snd (prune_expired_lifecycle_event_logs loads c (sw_moment world k) {} rv) = rv)"

lemma stream_backlog_sends:
  assumes "distinct (discover_sources rv)" "quiet_files loads c world now rv" "now \<le> last_prune"
  shows "stream_backlog loads c world n last_prune rv offs sent =
    Some ((sent @ fst (read_new_events loads rv offs None), snd (read_new_events loads rv offs None)), rv)"
  using assms(3)
proof (induction "length (fst (read_new_events loads rv offs None))" arbitrary: n last_prune offs sent rule: less_induct)
  case less
  let ?m = "sw_moment world n"
  have others: "sw_others world k rv = rv" for k using assms(2) by (simp add: quiet_files_def)
  have later: "prune_is_due ?m now" if "prune_is_due ?m last_prune" using that less.prems by (simp add: prune_is_due_def)
  then have same: "(if prune_is_due ?m last_prune then snd (prune_expired_lifecycle_event_logs loads c ?m {} rv) else rv) = rv"
    using assms(2) by (simp add: quiet_files_def)
  have next_prune: "now \<le> (if prune_is_due ?m last_prune then ?m else last_prune)"
    using less.prems by (simp add: prune_is_due_def PRUNE_INTERVAL_SECONDS_def)
  obtain ev offs1 where b: "read_new_events loads rv offs (Some DEFAULT_EVENT_BATCH) = (ev, offs1)" by fastforce
  have rest: "read_new_events loads rv offs None =
      (ev @ fst (read_new_events loads rv offs1 None), snd (read_new_events loads rv offs1 None))"
    by (rule read_new_events_resume [OF assms(1) b])
  show ?case
  proof (cases "ev = []")
    case True
    with b have "read_new_events loads rv offs None = ([], offs1)"
      unfolding read_new_events_def using read_sources_empty by blast
    with b True show ?thesis by (subst stream_backlog.simps) (simp add: others same)
  next
    case False
    with rest have "length (fst (read_new_events loads rv offs1 None)) < length (fst (read_new_events loads rv offs None))" by simp
    from less.hyps [OF this next_prune, of "Suc n" "sent @ ev"] b False rest show ?thesis
      by (subst stream_backlog.simps) (simp add: others same)
  qed
qed

end
