(* ===== verification/River_Properties.thy ===== *)
theory River_Properties
  imports Event_River
begin

section \<open>Properties of the event river\<close>

text \<open>
  What a client that tails the logs by byte-offset cursors relies on: a cursor survives compaction, a read resumes exactly where
  the last one stopped, the bounded batches of a connection end and are together one full read; and what a connection does to
  logs that are protected from pruning.
\<close>

subsection \<open>Cursors and compaction\<close>

text \<open>
  Claim C32: compaction is invisible to cursors. After the workspace log is compacted, reading from any cursor gives what reading
  the old log from that cursor would have given, with the reclaimed prefix skipped; the lines carry the same cursors as before.
  The base offset only grows, the logical size does not change, and no row that is younger than the cutoff or whose time cannot
  be read is reclaimed.
\<close>

theorem compaction_keeps_cursors:
  assumes "rv_workspace rv = Some bs" and "compact_workspace_river loads c now ttl rv = (n, rv')"
  shows "(\<forall>v. read_source_lines rv' WORKSPACE_SOURCE v = read_source_lines rv WORKSPACE_SOURCE (max v (rv_base rv'))) \<and>
    rv_base rv \<le> rv_base rv' \<and> workspace_logical_size rv' = workspace_logical_size rv \<and>
    rv_lifecycles rv' = rv_lifecycles rv \<and>
    (\<forall>(s, a, p) \<in> set (iter_event_payloads loads bs).
       retained c (now - timedelta_seconds ttl) p \<longrightarrow> rv_base rv' \<le> rv_base rv + s)"
proof -
  from compaction_cut [OF assms] obtain pre post where cut: "bs = pre @ post" "at_boundary pre \<or> post = []"
    "rv' = rv\<lparr>rv_workspace := Some post, rv_base := rv_base rv + length pre\<rparr>"
    "\<forall>(s, a, p) \<in> set (iter_event_payloads loads bs). retained c (now - timedelta_seconds ttl) p \<longrightarrow> length pre \<le> s" .
  have "\<forall>v. read_source_lines rv' WORKSPACE_SOURCE v = read_source_lines rv WORKSPACE_SOURCE (max v (rv_base rv'))"
    using read_source_cut [OF _ cut(2,3)] assms(1) cut(1) by simp
  moreover have "rv_base rv' = rv_base rv + length pre" "rv_lifecycles rv' = rv_lifecycles rv"
    "workspace_logical_size rv' = workspace_logical_size rv"
    using cut assms(1) by (simp_all add: workspace_logical_size_def)
  ultimately show ?thesis using cut(4) by (simp add: case_prod_unfold)
qed

text \<open>A log of three lines, the first two of them old; a line is its own time stamp.\<close>

definition ex_loads :: json_loads where
  "ex_loads text = (if strip text = '''' then None else Some (JObj [(''kind'', JStr ''note''), (''ts'', JStr (strip text))]))"

definition ex_river :: river where
  "ex_river = \<lparr>rv_lifecycles = [(''L1'', ''1'' @ [nl])], rv_workspace = Some (''1'' @ [nl] @ ''2'' @ [nl] @ ''4000000000'' @ [nl]), rv_base = 10\<rparr>"

definition ex_river_compacted :: river where
  "ex_river_compacted = ex_river\<lparr>rv_workspace := Some (''4000000000'' @ [nl]), rv_base := 14\<rparr>"

lemma ex_river_compacts: "compact_workspace_river ex_loads micro_codec 4000000000 3600 ex_river = (2, ex_river_compacted)"
  by code_simp

theorem compaction_keeps_cursors_witness:
  "read_source_lines ex_river_compacted WORKSPACE_SOURCE 12 = read_source_lines ex_river WORKSPACE_SOURCE 14 \<and>
   read_source_lines ex_river WORKSPACE_SOURCE 14 = ([(''4000000000'', 25)], 25)"
proof -
  have "rv_workspace ex_river = Some (the (rv_workspace ex_river))" "rv_base ex_river_compacted = 14"
    by (simp_all add: ex_river_def ex_river_compacted_def)
  with compaction_keeps_cursors [OF _ ex_river_compacts] have
    "read_source_lines ex_river_compacted WORKSPACE_SOURCE 12 = read_source_lines ex_river WORKSPACE_SOURCE 14" by simp
  moreover have "read_source_lines ex_river WORKSPACE_SOURCE 14 = ([(''4000000000'', 25)], 25)" by code_simp
  ultimately show ?thesis ..
qed

subsection \<open>Resuming\<close>

text \<open>
  Claim C33: exact resumption. Reading a file from any cursor within it, and reading on from the returned end after any bytes
  were appended, gives together exactly what one read of the grown file from the first cursor gives: no line is lost or
  delivered twice, whether or not the file ended in a partial line and whether or not the cursor was at a line start.
\<close>

theorem tail_resumes_exactly:
  assumes "v \<le> length bs" and "read_lines_from bs v = (ls, e)" and "read_lines_from (bs @ appended) e = (ls2, e2)"
  shows "read_lines_from (bs @ appended) v = (ls @ ls2, e2)"
  using read_lines_resume [OF assms(1,2), of appended] assms(3) by simp

theorem tail_resumes_exactly_witness:
  "read_lines_from (''ab'' @ [nl] @ ''c'') 0 = ([(''ab'', 3)], 3) \<and>
   read_lines_from ((''ab'' @ [nl] @ ''c'') @ ''d'' @ [nl]) 0 = ([(''ab'', 3)] @ [(''cd'', 6)], 6)"
proof -
  have r: "read_lines_from (''ab'' @ [nl] @ ''c'') 0 = ([(''ab'', 3)], 3)" by code_simp
  moreover have "read_lines_from ((''ab'' @ [nl] @ ''c'') @ ''d'' @ [nl]) 3 = ([(''cd'', 6)], 6)" by code_simp
  ultimately show ?thesis using tail_resumes_exactly [OF _ r] by simp
qed

text \<open>
  Claim C34: the backlog of a connection ends and is complete. When the sources are distinct, nobody else writes the files while the
  backlog is streamed, and a prune that becomes due meanwhile finds nothing to remove, the loop that reads bounded batches until one is
  empty terminates, and what it has sent is exactly, and in the order of, one unbounded read from the initial cursor; the cursor it
  ends with is the one that read returns, and the files are as they were.
\<close>

theorem backlog_is_one_read:
  assumes "dict_ok (rv_lifecycles rv)" and "WORKSPACE_SOURCE \<notin> fst ` set (rv_lifecycles rv)" and "quiet_files loads c world now rv"
  shows "stream_backlog loads c world n now rv offs [] = Some (read_new_events loads rv offs None, rv)"
  using stream_backlog_sends [OF discover_sources_distinct [OF assms(1,2)] assms(3), of now n offs "[]"] by simp

text \<open>Nobody writes, and the second look comes two minutes after the first, when a prune is due.\<close>

definition ex_stream_world :: stream_world where
  "ex_stream_world = \<lparr>sw_moment = (\<lambda>n. if n = 0 then 0 else 120000000), sw_others = (\<lambda>k rv. rv)\<rparr>"

theorem backlog_is_one_read_witness:
  "stream_backlog ex_loads micro_codec ex_stream_world 0 0 ex_river [] [] = Some (read_new_events ex_loads ex_river [] None, ex_river) \<and>
   map re_data (fst (read_new_events ex_loads ex_river [] None)) = [''1'', ''1'', ''2'', ''4000000000'']"
proof -
  have "dict_ok (rv_lifecycles ex_river)" "WORKSPACE_SOURCE \<notin> fst ` set (rv_lifecycles ex_river)"
    by (simp_all add: ex_river_def WORKSPACE_SOURCE_def)
  moreover have "snd (prune_expired_lifecycle_event_logs ex_loads micro_codec 120000000 {} ex_river) = ex_river" by code_simp
  then have "quiet_files ex_loads micro_codec ex_stream_world 0 ex_river"
    by (simp add: quiet_files_def ex_stream_world_def prune_is_due_def PRUNE_INTERVAL_SECONDS_def)
  ultimately have "stream_backlog ex_loads micro_codec ex_stream_world 0 0 ex_river [] [] =
      Some (read_new_events ex_loads ex_river [] None, ex_river)" by (rule backlog_is_one_read)
  moreover have "map re_data (fst (read_new_events ex_loads ex_river [] None)) = [''1'', ''1'', ''2'', ''4000000000'']" by code_simp
  ultimately show ?thesis ..
qed

subsection \<open>Pruning\<close>

text \<open>
  A connection prunes protected logs. The pass that prunes with a set of protected lifecycles keeps the log of every
  one of them; a client that connects to the stream prunes with no protected set, and the log of a protected lifecycle that has
  gone dormant is removed all the same.
\<close>

theorem connect_prunes_protected_logs:
  assumes "dget (rv_lifecycles rv) l = Some bs" and "dict_ok (rv_lifecycles rv)"
    and "l \<in> protected_ids" and "lifecycle_is_dormant loads c bs now"
  shows "dget (rv_lifecycles (snd (prune_expired_lifecycle_event_logs loads c now protected_ids rv))) l = Some bs \<and>
    dget (rv_lifecycles (snd (stream_connect loads c now world cursor_offsets rv))) l = None"
proof
  have m: "(l, bs) \<in> set (rv_lifecycles rv)" using assms(1) by (rule map_of_SomeD)
  have "dict_ok (filter P (rv_lifecycles rv))" for P using assms(2) by (simp add: distinct_map_filter)
  with m assms(3) show "dget (rv_lifecycles (snd (prune_expired_lifecycle_event_logs loads c now protected_ids rv))) l = Some bs"
    by (auto simp: prune_expired_lifecycle_event_logs_def Let_def intro!: map_of_is_SomeI)
  have "x = bs" if "(l, x) \<in> set (rv_lifecycles rv)" for x using that m assms(2) eq_key_imp_eq_value by fast
  with assms(4) show "dget (rv_lifecycles (snd (stream_connect loads c now world cursor_offsets rv))) l = None"
    by (auto simp: stream_connect_def prune_expired_lifecycle_event_logs_def Let_def map_of_eq_None_iff)
qed

theorem connect_prunes_protected_logs_witness:
  "dget (rv_lifecycles (snd (prune_expired_lifecycle_event_logs ex_loads micro_codec 4000000000 {''L1''} ex_river))) ''L1'' =
     Some (''1'' @ [nl]) \<and>
   dget (rv_lifecycles (snd (stream_connect ex_loads micro_codec 4000000000 ex_stream_world [] ex_river))) ''L1'' = None"
proof -
  have "dget (rv_lifecycles ex_river) ''L1'' = Some (''1'' @ [nl])" "dict_ok (rv_lifecycles ex_river)"
    by (simp_all add: ex_river_def)
  moreover have "lifecycle_is_dormant ex_loads micro_codec (''1'' @ [nl]) 4000000000" by code_simp
  ultimately show ?thesis using connect_prunes_protected_logs [of ex_river "''L1''" _ "{''L1''}"] by simp
qed

end
