(* ===== verification/Notifier_Signals.thy ===== *)
theory Notifier_Signals
  imports Inbox_Records Store_Access
begin

section \<open>Signal cooldown\<close>

text \<open>
  \<^verbatim>\<open>controlplane/agent_notifier_signals.py\<close>: the cooldown memory of the notifier sweep. The log is read tolerantly
  and compacted to a retention window; a compaction must not make a signal leave its cooldown early.
\<close>

datatype signal_state = SignalSent

record signal_record =
  sg_schemaVersion :: string
  sg_schema :: string
  sg_id :: string
  sg_ts :: string
  sg_state :: signal_state
  sg_targetAgentId :: "string option"
  sg_targetLifecycleId :: "string option"
  sg_targetRole :: "agent_role option"
  sg_taskDocumentRef :: "task_document_ref option"
  sg_seatRole :: "string option"
  sg_findingKind :: string
  sg_detail :: string
  sg_deliveryState :: inbox_delivery_state

record signal_target =
  tg_agent_id :: "string option"
  tg_lifecycle_id :: "string option"
  tg_role :: "agent_role option"
  tg_task_document_ref :: "task_document_ref option"
  tg_seat_role :: "string option"

record signal_key =
  sk_target :: signal_target
  sk_finding_kind :: string
  sk_detail :: string

type_synonym signal_log = "signal_record log_file"

definition AGENT_NOTIFIER_SIGNAL_SCHEMA :: string where
  "AGENT_NOTIFIER_SIGNAL_SCHEMA = ''ar-agent-notifier-signal/v2''"

definition signal_ok :: "signal_record \<Rightarrow> bool" where
  "signal_ok r \<longleftrightarrow> schema_version_supported (sg_schemaVersion r)"

definition signal_log_path :: "path \<Rightarrow> path" where
  "signal_log_path obs_root = obs_root @ [''workspace'', ''supervisor-signals.jsonl'']"

definition signal_read :: "signal_log \<Rightarrow> signal_record list" where
  "signal_read s = read_tolerant signal_ok s"

definition signal_append :: "process \<Rightarrow> path \<Rightarrow> signal_record \<Rightarrow> (signal_log, unit) prog" where
  "signal_append p obs_root record =
     sbind (slift (check_declared_writer AGENT_NOTIFIER_SIGNAL_OWNERSHIP p)) (\<lambda>_.
       let path = signal_log_path obs_root
       in exclusive_access p AGENT_NOTIFIER_SIGNAL_OWNERSHIP path (append_record p path record))"

definition same_signal :: "signal_key \<Rightarrow> signal_record \<Rightarrow> bool" where
  "same_signal signal record \<longleftrightarrow>
     (let target = sk_target signal in
      sg_state record = SignalSent \<and> sg_targetAgentId record = tg_agent_id target \<and>
      sg_targetLifecycleId record = tg_lifecycle_id target \<and> sg_targetRole record = tg_role target \<and>
      sg_taskDocumentRef record = tg_task_document_ref target \<and> sg_seatRole record = tg_seat_role target \<and>
      sg_findingKind record = sk_finding_kind signal \<and> sg_detail record = sk_detail signal)"

definition signal_last_sent ::
  "signal_key \<Rightarrow> signal_record list option \<Rightarrow> signal_log \<Rightarrow> signal_record option" where
  "signal_last_sent signal records s =
     max_by sg_ts (filter (same_signal signal) (case records of None \<Rightarrow> signal_read s | Some rs \<Rightarrow> rs))"

text \<open>The subtraction of a naive stamp from the aware clock raises \<^verbatim>\<open>TypeError\<close>, which this method does not catch.\<close>

definition in_cooldown ::
  "iso_codec \<Rightarrow> signal_key \<Rightarrow> clock \<Rightarrow> seconds \<Rightarrow> signal_record list option \<Rightarrow> signal_log \<Rightarrow> bool res" where
  "in_cooldown c signal now cooldown_seconds records s =
     rbind (require_redelivery_floor_seconds (Some cooldown_seconds)) (\<lambda>fl.
       case signal_last_sent signal records s of
         None \<Rightarrow> Inr False
       | Some previous \<Rightarrow>
           (case fromisoformat c (sg_ts previous) of
              None \<Rightarrow> Inr False
            | Some t \<Rightarrow> rbind (dt_sub (utc now) t) (\<lambda>d. Inr (total_seconds d < fl))))"

definition signal_fresh :: "iso_codec \<Rightarrow> datetime \<Rightarrow> signal_record \<Rightarrow> bool" where
  "signal_fresh c cutoff record =
     (case fromisoformat c (sg_ts record) of
        None \<Rightarrow> True
      | Some ts \<Rightarrow> (case dt_le cutoff ts of Inl _ \<Rightarrow> True | Inr fresh \<Rightarrow> fresh))"

definition signal_compact_locked ::
  "iso_codec \<Rightarrow> process \<Rightarrow> path \<Rightarrow> clock \<Rightarrow> seconds \<Rightarrow> (signal_log, nat \<times> signal_record list) prog" where
  "signal_compact_locked c p obs_root now retain_seconds =
     sbind (sget (\<lambda>s. Inr (signal_read s))) (\<lambda>records.
       if records = [] then sret (0, [])
       else sbind (slift (dt_add (utc now) (- timedelta_seconds retain_seconds))) (\<lambda>cutoff.
              let kept = filter (signal_fresh c cutoff) records;
                  removed = length records - length kept
              in if removed \<noteq> 0
                 then sbind (rewrite_records p (signal_log_path obs_root) kept) (\<lambda>_. sret (removed, kept))
                 else sret (removed, kept)))"

definition signal_compact ::
  "iso_codec \<Rightarrow> process \<Rightarrow> path \<Rightarrow> clock \<Rightarrow> seconds \<Rightarrow> (signal_log, nat \<times> signal_record list) prog" where
  "signal_compact c p obs_root now retain_seconds =
     exclusive_access p AGENT_NOTIFIER_SIGNAL_OWNERSHIP (signal_log_path obs_root)
       (signal_compact_locked c p obs_root now retain_seconds)"

subsection \<open>Compaction and cooldown\<close>

lemma signal_compact_kept:
  assumes "signal_compact c p obs_root now ret s = (Inr (n, kept), s')" "signal_read s \<noteq> []"
  obtains cutoff where "dt_add (utc now) (- timedelta_seconds ret) = Inr cutoff"
    "kept = filter (signal_fresh c cutoff) (signal_read s)" "signal_read s' = kept"
proof -
  from assms obtain cutoff where cut: "dt_add (utc now) (- timedelta_seconds ret) = Inr cutoff"
    and run: "kept = filter (signal_fresh c cutoff) (signal_read s)" "n = length (signal_read s) - length kept"
      "if n \<noteq> 0 then s' = rewrite_lines kept s else s' = s"
    unfolding signal_compact_def signal_compact_locked_def Let_def
    by (auto simp: exclusive_access_Inr sbind_eq_Inr rewrite_records_def split: if_splits)
  have "signal_read s' = kept"
  proof (cases "n = 0")
    case True
    with run have "length kept = length (signal_read s)"
      using length_filter_le [of "signal_fresh c cutoff" "signal_read s"] by simp
    with run(1) have "kept = signal_read s" by (simp add: length_filter_eq filter_id_conv [THEN iffD2])
    with True run(3) show ?thesis by simp
  next
    case False
    have "list_all signal_ok (signal_read s)" by (simp add: signal_read_def read_tolerant_def tolerant_lines_ok)
    then have "list_all signal_ok kept" by (simp add: run(1) list_all_iff)
    with False run(3) show ?thesis
      by (simp add: signal_read_def read_tolerant_def rewrite_lines_def tolerant_lines_Rec)
  qed
  with cut run(1) that show thesis by blast
qed

text \<open>A record the compaction drops is older than the window, so it suppresses nothing from then on.\<close>

lemma dropped_signal_expired:
  assumes "dt_add (utc now) (- timedelta_seconds (of_int ret)) = Inr cutoff" "\<not> signal_fresh c cutoff r" "now \<le> later"
  shows "\<exists>t. fromisoformat c (sg_ts r) = Some t \<and> (\<exists>d. dt_sub (utc later) t = Inr d \<and> of_int ret < total_seconds d)"
proof -
  from assms(2) obtain t where t: "fromisoformat c (sg_ts r) = Some t" "dt_le cutoff t = Inr False"
    by (auto simp: signal_fresh_def split: option.splits sum.splits)
  from assms(1) have cutoff: "cutoff = utc (now - ret * 1000000)"
    by (auto simp: dt_add_def utc_def split: if_splits)
  from t(2) have "utcoffset t \<noteq> None" "utc_us t < now - ret * 1000000"
    by (auto simp: dt_le_def dt_sub_def cutoff is_naive_def utc_def split: if_splits)
  then have "dt_sub (utc later) t = Inr (later - utc_us t)" "ret * 1000000 < later - utc_us t"
    using assms(3) by (auto simp: dt_sub_def is_naive_def utc_def)
  moreover have "of_int ret < total_seconds (later - utc_us t)"
    using calculation(2) total_seconds_le_iff [of "later - utc_us t" ret] by linarith
  ultimately show ?thesis using t(1) by blast
qed

lemma in_cooldown_True:
  "in_cooldown c signal now cd None s = Inr True \<longleftrightarrow>
     (\<exists>fl r t d. require_redelivery_floor_seconds (Some cd) = Inr fl \<and>
        max_by sg_ts (filter (same_signal signal) (signal_read s)) = Some r \<and> fromisoformat c (sg_ts r) = Some t \<and>
        dt_sub (utc now) t = Inr d \<and> total_seconds d < fl)"
  by (cases "max_by sg_ts (filter (same_signal signal) (signal_read s))")
    (auto simp: in_cooldown_def signal_last_sent_def rbind_eq_Inr split: option.splits)

lemma floor_seconds_Some: "require_redelivery_floor_seconds (Some cd) = Inr fl \<Longrightarrow> fl = cd"
  by (simp add: require_redelivery_floor_seconds_def split: if_splits)

lemma compaction_keeps_cooldown:
  assumes run: "signal_compact c p obs_root now (of_int ret) s = (Inr (n, kept), s')"
    and cool: "in_cooldown c signal later cd None s = Inr True" and le: "cd \<le> of_int ret" "now \<le> later"
  shows "in_cooldown c signal later cd None s' = Inr True"
proof -
  from cool obtain fl r t d where fl: "require_redelivery_floor_seconds (Some cd) = Inr fl"
    and r: "max_by sg_ts (filter (same_signal signal) (signal_read s)) = Some r" "fromisoformat c (sg_ts r) = Some t"
      "dt_sub (utc later) t = Inr d" "total_seconds d < fl"
    unfolding in_cooldown_True by blast
  from max_by_in [OF r(1)] have "signal_read s \<noteq> []" by auto
  from run this obtain cutoff where cut: "dt_add (utc now) (- timedelta_seconds (of_int ret)) = Inr cutoff"
    and kept: "kept = filter (signal_fresh c cutoff) (signal_read s)" "signal_read s' = kept"
    by (rule signal_compact_kept)
  have "signal_fresh c cutoff r"
    using dropped_signal_expired [OF cut _ le(2), of c r] r floor_seconds_Some [OF fl] le(1) by fastforce
  with max_by_filter [OF r(1), of "signal_fresh c cutoff"]
  have "max_by sg_ts (filter (same_signal signal) (signal_read s')) = Some r"
    by (simp add: kept filter_filter conj_commute)
  with fl r(2-4) show ?thesis unfolding in_cooldown_True by blast
qed

end
