(* ===== verification/Nudges.thy ===== *)
theory Nudges
  imports Py_Time Store_Access
begin

section \<open>Orchestration nudges\<close>

text \<open>
  \<^verbatim>\<open>controlplane/orchestration_nudges.py\<close>: a nudge is recorded as sent, or as rate-limited when the same nudge
  was sent less than the limit ago. The check and the append are two separate calls on the log, so the
  rate limit is a statement about one call and the log it read. The nudge vocabulary is that of
  \<^verbatim>\<open>models/orchestration.py\<close>.
\<close>

datatype nudge_state = NudgeSent | NudgeRateLimited
datatype nudge_reason = NudgeInactive | NudgeMissingTurnReport | NudgeManual

record nudge_record =
  n_schemaVersion :: string
  n_schema :: string
  n_id :: string
  n_ts :: string
  n_state :: nudge_state
  n_reason :: nudge_reason
  n_targetAgentId :: "string option"
  n_targetLifecycleId :: "string option"
  n_subjectAgentId :: "string option"
  n_subjectLifecycleId :: "string option"
  n_artifactPath :: "string option"
  n_message :: string

type_synonym nudge_log = "nudge_record log_file"

definition ORCHESTRATION_NUDGE_SCHEMA :: string where
  "ORCHESTRATION_NUDGE_SCHEMA = ''ar-orchestration-nudge/v1''"

definition nudge_ok :: "nudge_record \<Rightarrow> bool" where
  "nudge_ok r \<longleftrightarrow> schema_version_supported (n_schemaVersion r)"

definition nudge_log_path :: "path \<Rightarrow> path" where
  "nudge_log_path obs_root = obs_root @ [''workspace'', ''orchestration-nudges.jsonl'']"

definition nudge_read :: "nudge_log \<Rightarrow> nudge_record list" where
  "nudge_read s = read_tolerant nudge_ok s"

definition nudge_append :: "process \<Rightarrow> path \<Rightarrow> nudge_record \<Rightarrow> (nudge_log, unit) prog" where
  "nudge_append p obs_root record =
     sbind (slift (check_declared_writer ORCHESTRATION_NUDGE_OWNERSHIP p)) (\<lambda>_.
       let path = nudge_log_path obs_root
       in exclusive_access p ORCHESTRATION_NUDGE_OWNERSHIP path (append_record p path record))"

definition nudge_last_sent ::
  "string option \<Rightarrow> string option \<Rightarrow> string option \<Rightarrow> string option \<Rightarrow> nudge_reason \<Rightarrow> nudge_log \<Rightarrow>
   nudge_record option" where
  "nudge_last_sent target_agent target_lifecycle subject_agent subject_lifecycle why s =
     max_by n_ts (filter (\<lambda>r. n_state r = NudgeSent \<and> n_reason r = why \<and> n_targetAgentId r = target_agent \<and>
        n_targetLifecycleId r = target_lifecycle \<and> n_subjectAgentId r = subject_agent \<and>
        n_subjectLifecycleId r = subject_lifecycle) (nudge_read s))"

definition nudge_rewrite :: "process \<Rightarrow> path \<Rightarrow> nudge_record list \<Rightarrow> (nudge_log, unit) prog" where
  "nudge_rewrite p obs_root records = rewrite_records p (nudge_log_path obs_root) records"

definition nudge_compact :: "process \<Rightarrow> path \<Rightarrow> (nudge_record \<Rightarrow> bool) \<Rightarrow> (nudge_log, nat) prog" where
  "nudge_compact p obs_root keep =
     exclusive_access p ORCHESTRATION_NUDGE_OWNERSHIP (nudge_log_path obs_root)
       (sbind (sget (\<lambda>s. Inr (nudge_read s))) (\<lambda>records.
          let kept = filter keep records
          in if length kept = length records then sret 0
             else sbind (nudge_rewrite p obs_root kept) (\<lambda>_. sret (length records - length kept))))"

text \<open>\<^verbatim>\<open>None\<close> for an unparseable stamp; mixing a naive and an aware one raises \<^verbatim>\<open>TypeError\<close>.\<close>

definition elapsed_seconds :: "iso_codec \<Rightarrow> string \<Rightarrow> string \<Rightarrow> seconds option res" where
  "elapsed_seconds c previous current =
     (case (fromisoformat c current, fromisoformat c previous) of
        (Some a, Some b) \<Rightarrow> rbind (dt_sub a b) (\<lambda>d. Inr (Some (total_seconds d)))
      | _ \<Rightarrow> Inr None)"

definition nudge_record_call ::
  "iso_codec \<Rightarrow> process \<Rightarrow> path \<Rightarrow> nudge_record \<Rightarrow> int \<Rightarrow> (nudge_log, nudge_record) prog" where
  "nudge_record_call c p obs_root record rate_limit_seconds =
     sbind (sget (\<lambda>s. case nudge_last_sent (n_targetAgentId record) (n_targetLifecycleId record)
                           (n_subjectAgentId record) (n_subjectLifecycleId record) (n_reason record) s of
              None \<Rightarrow> Inr record
            | Some previous \<Rightarrow>
                rbind (elapsed_seconds c (n_ts previous) (n_ts record)) (\<lambda>elapsed.
                  case elapsed of
                    Some e \<Rightarrow> Inr (if e < of_int rate_limit_seconds then record\<lparr>n_state := NudgeRateLimited\<rparr> else record)
                  | None \<Rightarrow> Inr record)))
       (\<lambda>r. sbind (nudge_append p obs_root r) (\<lambda>_. sret r))"

definition nudge_message :: "nudge_reason \<Rightarrow> string \<Rightarrow> string option \<Rightarrow> string" where
  "nudge_message why subject artifact_path =
     (case why of
        NudgeInactive \<Rightarrow> ''Nudge: '' @ subject @ '' appears inactive. Check the worker and record the next action.''
      | NudgeMissingTurnReport \<Rightarrow>
          (let suffix = (if truthy artifact_path then '' Expected artifact: '' @ the artifact_path @ ''.'' else '''')
           in ''Nudge: '' @ subject @ '' ended a turn without its worker turn report.'' @ suffix)
      | NudgeManual \<Rightarrow> ''Nudge: '' @ subject)"

text \<open>\<^verbatim>\<open>path.exists()\<close> and the size, when it exists.\<close>

definition missing_artifact :: "nat option \<Rightarrow> bool" where
  "missing_artifact st_size = (case st_size of None \<Rightarrow> True | Some n \<Rightarrow> n = 0)"

definition replace_records ::
  "tid \<Rightarrow> lock_world \<Rightarrow> process \<Rightarrow> path \<Rightarrow> nudge_record list \<Rightarrow> (nudge_log, unit) prog" where
  "replace_records t w p obs_root records =
     sbind (slift (require_lock_held t (nudge_log_path obs_root) (store_name ORCHESTRATION_NUDGE_OWNERSHIP) w))
       (\<lambda>_. nudge_rewrite p obs_root records)"

lemma nudge_append_Inr: "nudge_append p obs_root r s = (Inr u, s') \<Longrightarrow> s' = append_line r s"
  by (auto simp: nudge_append_def sbind_eq_Inr Let_def exclusive_access_Inr)

lemma nudge_read_append: "nudge_ok r \<Longrightarrow> nudge_read (append_line r s) = nudge_read s @ [r]"
  by (simp add: nudge_read_def read_tolerant_def append_line_def tolerant_lines_append)

end
