(* ===== verification/Dismissals.thy ===== *)
theory Dismissals
  imports Store_Access
begin

section \<open>Attention dismissals\<close>

text \<open>
  \<^verbatim>\<open>controlplane/attention_dismissals.py\<close>: the current acknowledgement per attention item, rewritten in place
  from a tolerant read.
\<close>

record dismissal_record =
  dm_schemaVersion :: string
  dm_schema :: string
  dm_itemId :: string
  dm_dismissedAt :: string
  dm_kind :: "string option"
  dm_lifecycleId :: "string option"
  dm_gateId :: "string option"

type_synonym dismissal_log = "dismissal_record log_file"

definition ATTENTION_DISMISSAL_SCHEMA :: string where
  "ATTENTION_DISMISSAL_SCHEMA = ''ar-attention-dismissal/v1''"

definition dismissal_ok :: "dismissal_record \<Rightarrow> bool" where
  "dismissal_ok r \<longleftrightarrow> schema_version_supported (dm_schemaVersion r)"

definition dismissal_log_path :: "path \<Rightarrow> path" where
  "dismissal_log_path obs_root = obs_root @ [''workspace'', ''attention-dismissals.jsonl'']"

definition dismissal_read :: "dismissal_log \<Rightarrow> dismissal_record list" where
  "dismissal_read s = read_tolerant dismissal_ok s"

definition dismissal_current :: "dismissal_log \<Rightarrow> (string, dismissal_record) dict" where
  "dismissal_current s = fold_by dm_itemId (dismissal_read s)"

definition dismissal_replace :: "process \<Rightarrow> path \<Rightarrow> dismissal_record list \<Rightarrow> (dismissal_log, unit) prog" where
  "dismissal_replace p obs_root records = rewrite_records p (dismissal_log_path obs_root) records"

definition dismiss :: "process \<Rightarrow> path \<Rightarrow> dismissal_record \<Rightarrow> (dismissal_log, unit) prog" where
  "dismiss p obs_root record =
     sbind (slift (check_declared_writer ATTENTION_DISMISSAL_OWNERSHIP p)) (\<lambda>_.
       exclusive_access p ATTENTION_DISMISSAL_OWNERSHIP (dismissal_log_path obs_root)
         (sbind (sget (\<lambda>s. Inr (dismissal_current s))) (\<lambda>records.
            dismissal_replace p obs_root (dvalues (dput (dm_itemId record) record records)))))"

definition keep_current_record :: "string list \<Rightarrow> dismissal_record \<Rightarrow> bool" where
  "keep_current_record live_lifecycle_ids record =
     (case dm_lifecycleId record of
        Some l \<Rightarrow> l \<in> set live_lifecycle_ids
      | None \<Rightarrow> dm_kind record = Some ''actionable-drift'')"

definition prune_locked :: "process \<Rightarrow> path \<Rightarrow> string list \<Rightarrow> (dismissal_log, nat) prog" where
  "prune_locked p obs_root live_lifecycle_ids =
     sbind (sget (\<lambda>s. Inr (dismissal_read s, dismissal_current s))) (\<lambda>(records, current).
       let kept = filter (keep_current_record live_lifecycle_ids) (dvalues current)
       in if length kept = length records then sret 0
          else sbind (dismissal_replace p obs_root kept) (\<lambda>_. sret (length records - length kept)))"

definition prune_lifecycles :: "process \<Rightarrow> path \<Rightarrow> string list \<Rightarrow> (dismissal_log, nat) prog" where
  "prune_lifecycles p obs_root live_lifecycle_ids =
     sbind (slift (check_declared_writer ATTENTION_DISMISSAL_OWNERSHIP p)) (\<lambda>_.
       exclusive_access p ATTENTION_DISMISSAL_OWNERSHIP (dismissal_log_path obs_root)
         (prune_locked p obs_root live_lifecycle_ids))"

subsection \<open>Upsert and prune\<close>

lemma dismissal_read_ok: "list_all dismissal_ok (dismissal_read s)"
  by (simp add: dismissal_read_def read_tolerant_def tolerant_lines_ok)

lemma dismissal_read_rewrite: "list_all dismissal_ok rs \<Longrightarrow> dismissal_read (rewrite_lines rs s) = rs"
  by (simp add: dismissal_read_def read_tolerant_def rewrite_lines_def tolerant_lines_Rec)

lemma dismissal_current_keyed: "\<forall>(k, v)\<in>set (dismissal_current s). dm_itemId v = k"
  by (auto simp: dismissal_current_def dest: fold_by_keyed)

lemma dismissal_values_ok: "list_all dismissal_ok (dvalues (dismissal_current s))"
proof -
  have "v \<in> set (dismissal_read s)" if "(k, v) \<in> set (dismissal_current s)" for k v
    using that fold_by_key [of dm_itemId "dismissal_read s" k v] by (simp add: dismissal_current_def)
  with dismissal_read_ok [of s] show ?thesis by (auto simp: list_all_iff)
qed

lemma dput_keyed:
  assumes "dict_ok d" "\<forall>(k, v)\<in>set d. key v = k" "key x = j"
  shows "\<forall>(k, v)\<in>set (dput j x d). key v = k"
  using assms by (auto simp: dput_members split: if_splits)

lemma dismiss_current:
  assumes "dismiss p obs_root r s = (Inr (), s')" "dismissal_ok r"
  shows "dismissal_current s' = dput (dm_itemId r) r (dismissal_current s)"
proof -
  let ?d = "dput (dm_itemId r) r (dismissal_current s)"
  have dk: "dict_ok (dismissal_current s)" by (simp add: dismissal_current_def)
  then have dk': "dict_ok ?d" by (rule dict_ok_dput)
  have key: "\<forall>(k, v)\<in>set ?d. dm_itemId v = k"
    by (rule dput_keyed [OF dk dismissal_current_keyed]) simp
  have "dismissal_ok v" if "(k, v) \<in> set ?d" for k v
    using that assms(2) dismissal_values_ok [of s] by (auto simp: dput_members [OF dk] list_all_iff split: if_splits)
  then have ok: "list_all dismissal_ok (dvalues ?d)" by (auto simp: list_all_iff)
  from assms(1) have "s' = rewrite_lines (dvalues ?d) s"
    by (auto simp: dismiss_def dismissal_replace_def rewrite_records_def sbind_eq_Inr exclusive_access_Inr)
  with dismissal_read_rewrite [OF ok] fold_by_values_id [OF dk' key] show ?thesis
    by (simp add: dismissal_current_def)
qed

text \<open>After a prune exactly the acknowledgements worth keeping are current.\<close>

lemma prune_current:
  assumes "prune_lifecycles p obs_root live s = (Inr n, s')"
  shows "dget (dismissal_current s') k = Some d \<longleftrightarrow> dget (dismissal_current s) k = Some d \<and> keep_current_record live d"
proof -
  let ?cur = "dismissal_current s" and ?keep = "keep_current_record live"
  let ?kept = "filter (\<lambda>kv. ?keep (snd kv)) ?cur"
  have dk: "dict_ok ?cur" by (simp add: dismissal_current_def)
  then have dk': "dict_ok ?kept" by (rule dict_ok_filter)
  have key: "\<forall>(k, v)\<in>set ?kept. dm_itemId v = k" using dismissal_current_keyed [of s] by auto
  have vals: "dvalues ?kept = filter ?keep (dvalues ?cur)" by (simp add: filter_map o_def)
  from assms have "prune_locked p obs_root live s = (Inr n, s')"
    by (auto simp: prune_lifecycles_def sbind_eq_Inr exclusive_access_Inr)
  then consider "length (filter ?keep (dvalues ?cur)) = length (dismissal_read s)" "s' = s"
    | "s' = rewrite_lines (filter ?keep (dvalues ?cur)) s"
    by (auto simp: prune_locked_def Let_def sbind_eq_Inr dismissal_replace_def rewrite_records_def split: if_splits)
  then show ?thesis
  proof cases
    case 1
    have "length (dvalues ?cur) \<le> length (dismissal_read s)" unfolding dismissal_current_def by (simp add: length_fold_by)
    with 1(1) length_filter_le [of ?keep "dvalues ?cur"] have "\<forall>v\<in>set (dvalues ?cur). ?keep v"
      by (subst length_filter_eq [symmetric]) linarith
    moreover have "dget ?cur k = Some d \<Longrightarrow> d \<in> set (dvalues ?cur)" using dict_ok_value_iff [OF dk] by blast
    ultimately show ?thesis using 1(2) by blast
  next
    case 2
    have "list_all dismissal_ok (filter ?keep (dvalues ?cur))" using dismissal_values_ok [of s] by (auto simp: list_all_iff)
    from dismissal_read_rewrite [OF this] have "dismissal_current s' = ?kept"
      unfolding 2 dismissal_current_def [of "rewrite_lines _ _"] vals [symmetric] by (simp add: fold_by_values_id [OF dk' key])
    then show ?thesis using map_of_eq_Some_iff [OF dk] map_of_eq_Some_iff [OF dk'] by auto
  qed
qed

end
