(* ===== verification/Store_Properties.thy ===== *)
theory Store_Properties
  imports Task_Ref Expectation_Rows Notifier_Signals Nudges Dismissals
begin

section \<open>Properties of the durable stores\<close>

text \<open>
  The contract every control-plane log rests on (the lock, the two readings, the migration, where a process may write)
  and what the smaller stores built on it promise: task-document references, expectation rows, the signal cooldown and
  nudges.
\<close>

subsection \<open>The contract of a log\<close>

text \<open>
  Claim C37: mutual exclusion. In every state the threads of any processes can reach by entering and leaving locks, at most
  one thread is inside a log's lock, and a thread passes the lock-held check exactly when it is that one.
\<close>

theorem lock_mutual_exclusion:
  assumes "lock_reachable w"
  shows "(depth w t (lock_path_for lg) \<noteq> 0 \<and> depth w t' (lock_path_for lg) \<noteq> 0 \<longrightarrow> t = t') \<and>
    (require_lock_held t lg store w = Inr () \<longleftrightarrow> holder w (lock_path_for lg) = Some t)"
proof -
  from lock_reachable_inv [OF assms]
  have inv: "\<And>u p. depth w u p \<noteq> 0 \<longleftrightarrow> holder w p = Some u" by (simp add: lock_inv_def)
  have "require_lock_held t lg store w = Inr () \<longleftrightarrow> depth w t (lock_path_for lg) \<noteq> 0"
    by (simp add: require_lock_held_def)
  with inv show ?thesis by (metis option.inject)
qed

definition ex_lock_log :: path where
  "ex_lock_log = [''workspace'', ''gates.jsonl'']"

lemma ex_locked:
  "\<exists>w. lock_reachable w \<and> holder w (lock_path_for ex_lock_log) = Some 0"
proof -
  obtain w where w: "enter mcp_process GATE_OWNERSHIP 0 ex_lock_log init_locks = Entered w"
    using access_guard_enter [of init_locks 0 ex_lock_log mcp_process GATE_OWNERSHIP] by (auto simp: init_locks_def)
  have "lock_reachable w" by (rule lock_next [OF lock_start step_enter [OF w]])
  moreover have "holder w (lock_path_for ex_lock_log) = Some 0"
    using w by (cases rule: enter_cases) (simp_all add: init_locks_def set_depth_def)
  ultimately show ?thesis by blast
qed

theorem lock_mutual_exclusion_witness:
  "\<exists>w. lock_reachable w \<and> holder w (lock_path_for ex_lock_log) = Some 0 \<and>
     require_lock_held 0 ex_lock_log ''gate'' w = Inr () \<and> require_lock_held 1 ex_lock_log ''gate'' w \<noteq> Inr ()"
proof -
  obtain w where w: "lock_reachable w" "holder w (lock_path_for ex_lock_log) = Some 0" using ex_locked by blast
  with lock_mutual_exclusion [OF w(1), of 0 ex_lock_log 1 "''gate''"]
    lock_mutual_exclusion [OF w(1), of 1 ex_lock_log 0 "''gate''"]
  show ?thesis by auto
qed

text \<open>
  Reading back. If the strict reading of a log succeeds, the tolerant one gives the same records; appending valid
  records and reading again gives the old records followed by the new ones, under either reading; and rewriting the log
  with valid records and reading gives exactly those.
\<close>

theorem log_reads_back:
  assumes "read_strict ok f = Inr rs" and "list_all ok new"
  shows "read_tolerant ok f = rs \<and>
    read_strict ok (append_lines new f) = Inr (rs @ new) \<and> read_tolerant ok (append_lines new f) = rs @ new \<and>
    read_strict ok (rewrite_lines new f) = Inr new \<and> read_tolerant ok (rewrite_lines new f) = new"
  using read_tolerant_of_strict [OF assms(1)] read_strict_append_lines [OF assms] read_strict_rewrite [OF assms(2), of f]
    read_tolerant_of_strict [OF read_strict_append_lines [OF assms]]
    read_tolerant_of_strict [OF read_strict_rewrite [OF assms(2), of f]]
  by blast

theorem log_reads_back_witness:
  "read_strict (\<lambda>n. n < 10) (Some [Rec (1 :: nat), Blank]) = Inr [1] \<and>
   read_strict (\<lambda>n. n < 10) (append_lines [2] (Some [Rec (1 :: nat), Blank])) = Inr [1, 2] \<and>
   read_tolerant (\<lambda>n. n < 10) (Some [Rec (1 :: nat), Blank]) = [1]"
proof -
  have r: "read_strict (\<lambda>n. n < 10) (Some [Rec (1 :: nat), Blank]) = Inr [1]" by (simp add: read_strict_def)
  from log_reads_back [OF r, of "[2]"] r show ?thesis by simp
qed

text \<open>
  Migration is all or nothing. A migration that raises leaves the log untouched; one that succeeds returns the
  number of rows the transformation changed, and with no change leaves the log untouched; otherwise the log becomes the
  serialised form of every transformed, validated row, in order.
\<close>

theorem migration_all_or_nothing:
  "(case migrate_jsonl_records own p transform validate dump lg of
      (Inl e, lg') \<Rightarrow> lg' = lg
    | (Inr n, lg') \<Rightarrow>
        (n = 0 \<and> lg' = lg) \<or>
        (\<exists>rows. rmap (migrate_row transform validate) (filter (\<lambda>l. \<not> raw_blank l) lg) = Inr rows \<and>
                n = length (filter fst rows) \<and> lg' = map (\<lambda>x. RawObject (dump (snd x))) rows))"
  by (auto simp: migrate_jsonl_records_def Let_def split: sum.splits prod.splits)

text \<open>
  A linked worktree cannot write outside its own roots. A process that declared no execution mode and runs from
  a checkout passes the write-target check only from a linked worktree, and then only for a path inside that
  worktree's coordination or reports root; from the primary checkout every target is refused.
\<close>

theorem undeclared_write_confined:
  assumes "require_durable_write_target p target = Inr ()" and "declared p = None"
    and "resolve_checkout_location p None = Some l"
  shows "checkout_kind_of l = Linked \<and>
    (is_relative_to (resolve_path p target) (resolve_path p (coordination_root l)) \<or>
     is_relative_to (resolve_path p target) (resolve_path p (reports_root l)))"
  using assms(1) by (cases rule: write_target_cases) (use assms(2,3) in simp_all)

definition ex_worktree_process :: process where
  "ex_worktree_process =
     \<lparr>process_id = 3, declared = None, package_source = [''g'', ''w'', ''mcp'', ''src'', ''agents_remember''],
      is_file = (\<lambda>q. q \<in> {[''g'', ''w'', ''mcp'', ''pyproject.toml''], [''g'', ''w'', ''.git'']}),
      is_dir = (\<lambda>q. q = [''g'', ''w'', ''mcp'', ''src'', ''agents_remember'']),
      resolve_path = (\<lambda>q. q), flock_excludes = (\<lambda>_. True)\<rparr>"

lemma ex_worktree_location:
  "resolve_checkout_location ex_worktree_process None = Some \<lparr>checkout_root = [''g'', ''w''], checkout_kind_of = Linked\<rparr>"
  by (simp add: resolve_checkout_location_def ex_worktree_process_def parents.simps checkout_at_def)

theorem undeclared_write_confined_witness:
  "require_durable_write_target ex_worktree_process [''g'', ''reports'', ''x.jsonl''] = Inr () \<and>
   is_relative_to [''g'', ''reports'', ''x.jsonl''] [''g'', ''reports''] \<and>
   require_durable_write_target ex_worktree_process [''home'', ''x.jsonl''] \<noteq> Inr ()"
proof -
  have d: "declared ex_worktree_process = None" and res: "\<And>q. resolve_path ex_worktree_process q = q"
    by (simp_all add: ex_worktree_process_def)
  have ok: "require_durable_write_target ex_worktree_process [''g'', ''reports'', ''x.jsonl''] = Inr ()"
    by (simp add: require_durable_write_target_def checkout_cli_location_def d ex_worktree_location res
        is_relative_to_def reports_root_def coordination_root_def worktree_group_def)
  from undeclared_write_confined [OF ok d ex_worktree_location] 
  have "is_relative_to [''g'', ''reports'', ''x.jsonl''] [''g'', ''reports'']"
    by (simp add: res reports_root_def coordination_root_def worktree_group_def is_relative_to_def)
  moreover have "require_durable_write_target ex_worktree_process [''home'', ''x.jsonl''] \<noteq> Inr ()"
    using undeclared_write_confined [OF _ d ex_worktree_location, of "[''home'', ''x.jsonl'']"]
    by (auto simp: res reports_root_def coordination_root_def worktree_group_def is_relative_to_def)
  ultimately show ?thesis using ok by blast
qed

subsection \<open>What the smaller stores promise\<close>

text \<open>
  Claim C38: task-document references are confined. A reference that validates names one repository segment and a relative
  path that has no empty, dot or dot-dot segment, whose last segment ends in a JSON suffix, and that is its own
  normal form: splitting it into segments and joining them again gives it back.
\<close>

theorem task_document_ref_confined:
  assumes "make_task_document_ref repository path = Inr r"
  shows "ref_repository r \<notin> {'''', ''.'', ''..''} \<and> CHR ''/'' \<notin> set (ref_repository r) \<and>
    (\<forall>q\<in>set (posix_parts (ref_path r)). q \<notin> {'''', ''.'', ''..''} \<and> CHR ''/'' \<notin> set q) \<and>
    map lower_char (path_suffix (ref_path r)) = ''.json'' \<and> join_slash (posix_parts (ref_path r)) = ref_path r"
proof -
  from assms have rep: "ref_repository r \<notin> {'''', ''.'', ''..''}" "CHR ''/'' \<notin> set (ref_repository r)"
    and "path_is_confined_json path = Inr (ref_path r)"
    by (auto simp: make_task_document_ref_def rbind_eq_Inr repository_is_one_segment_def Let_def split: if_splits)
  from this(3) obtain s where s: "posix_parts (ref_path r) = posix_parts s"
      "posix_parts s \<noteq> []" "ref_path r = join_slash (posix_parts s)" "''..'' \<notin> set (posix_parts s)"
      "map lower_char (suffix_of_name (last (posix_parts s))) = ''.json''"
    by (rule path_is_confined_json_Inr)
  have "q \<notin> {'''', ''.'', ''..''} \<and> CHR ''/'' \<notin> set q" if "q \<in> set (posix_parts (ref_path r))" for q
    using that s(4) unfolding s(1) by (auto simp: posix_parts_def dest: split_on_parts)
  moreover have "map lower_char (path_suffix (ref_path r)) = ''.json''"
    using s(1,2,5) by (simp add: path_suffix_def Let_def)
  moreover have "join_slash (posix_parts (ref_path r)) = ref_path r" using s(1) s(3) by metis
  ultimately show ?thesis using rep by blast
qed

theorem task_document_ref_confined_witness:
  "make_task_document_ref ''repo'' ''tasks/./t.JSON'' = Inr \<lparr>ref_repository = ''repo'', ref_path = ''tasks/t.JSON''\<rparr> \<and>
   posix_parts ''tasks/t.JSON'' = [''tasks'', ''t.JSON''] \<and>
   map lower_char (path_suffix ''tasks/t.JSON'') = ''.json'' \<and>
   make_task_document_ref ''repo'' ''../t.json'' = Inl (ValueError ''task document path must be a confined relative path'')"
proof -
  have r: "make_task_document_ref ''repo'' ''tasks/./t.JSON'' = Inr \<lparr>ref_repository = ''repo'', ref_path = ''tasks/t.JSON''\<rparr>"
    by code_simp
  have "make_task_document_ref ''repo'' ''../t.json'' = Inl (ValueError ''task document path must be a confined relative path'')"
    "posix_parts ''tasks/t.JSON'' = [''tasks'', ''t.JSON'']"
    by code_simp+
  with r task_document_ref_confined [OF r] show ?thesis by simp
qed

text \<open>
  An expectation is settled once. Marking a row met through the store returns the row; if the row was pending
  it becomes met and the log's current view changes at that row only; if it was already settled the row and the log
  are returned as they were. Marking it met or missed again after that changes nothing.
\<close>

theorem expectation_settled_once:
  assumes "store_mark_met p obs_root k now None s = (Inr (row', cur'), s')" and "row_current s = Inr d"
  shows "\<exists>row. dget d k = Some row \<and>
      (if x_state row = XPending
       then x_state row' = XMet \<and> x_id row' = k \<and> row_current s' = Inr (dput k row' d)
       else row' = row \<and> s' = s) \<and>
      store_mark_met p obs_root k later None s' = (Inr (row', None), s') \<and>
      store_mark_missed p obs_root k later None s' = (Inr row', s')"
proof -
  from store_mark_met_fresh [OF assms] obtain row where row: "dget d k = Some row"
    and r': "if x_state row = XPending then x_state row' = XMet \<and> x_id row' = k \<and> row_current s' = Inr (dput k row' d)
       else row' = row \<and> s' = s"
    by blast
  have "\<exists>d'. row_current s' = Inr d' \<and> dget d' k = Some row'" and "x_state row' \<noteq> XPending"
    using row r' assms(2) by (auto split: if_splits)
  then have "store_mark_met p obs_root k later None s' = (Inr (row', None), s')"
      "store_mark_missed p obs_root k later None s' = (Inr row', s')"
    by (auto simp: store_mark_met_def store_mark_missed_def sbind_sget mark_met_def mark_missed_def)
  with row r' show ?thesis by blast
qed

definition ex_row :: expectation_row where
  "ex_row = create_expectation_row
     \<lparr>xp_kind = AckBy, xp_source_id = ''src'',
      xp_subject = \<lparr>xs_agent_id = Some ''a'', xs_lifecycle_id = None, xs_task_document_ref = None, xs_seat_role = None\<rparr>,
      xp_note = None\<rparr> ''r'' ''1'' ''9''"

definition ex_row_log :: row_log where
  "ex_row_log = Some [Rec ex_row]"

lemma ex_row_ok: "row_ok ex_row"
  by (simp add: row_ok_def ex_row_def create_expectation_row_def) code_simp

lemma ex_row_fields: "x_state ex_row = XPending" "x_id ex_row = ''r''"
  by (simp_all add: ex_row_def create_expectation_row_def)

lemma ex_row_current: "row_current ex_row_log = Inr [(''r'', ex_row)]"
  by (simp add: row_current_def row_read_def read_strict_def ex_row_log_def read_log_text_def validate_line_def ex_row_ok
      fold_by_def ex_row_fields)

lemma ex_row_writer: "check_declared_writer EXPECTATION_ROW_OWNERSHIP mcp_process = Inr ()"
  by (simp add: check_declared_writer_def declared_daemon_role_def EXPECTATION_ROW_OWNERSHIP_def)

lemma ex_mark_met:
  "store_mark_met mcp_process [] ''r'' ''5'' None ex_row_log =
     (Inr (ex_row\<lparr>x_ts := ''5'', x_state := XMet, x_metAt := Some ''5''\<rparr>, None),
      append_line (ex_row\<lparr>x_ts := ''5'', x_state := XMet, x_metAt := Some ''5''\<rparr>) ex_row_log)"
proof -
  have "row_append mcp_process [] r s = (Inr (), append_line r s)" for r s
    using ex_row_writer append_record_ok [of mcp_process EXPECTATION_ROW_OWNERSHIP]
    by (simp add: row_append_def Let_def)
  then show ?thesis
    by (simp add: store_mark_met_def sbind_sget ex_row_current mark_met_def ex_row_fields) (simp add: sbind_def)
qed

theorem expectation_settled_once_witness:
  "\<exists>row' s'. store_mark_met mcp_process [] ''r'' ''5'' None ex_row_log = (Inr (row', None), s') \<and> x_state row' = XMet \<and>
     store_mark_missed mcp_process [] ''r'' ''7'' None s' = (Inr row', s')"
  using expectation_settled_once [OF ex_mark_met ex_row_current, of "''7''"] ex_mark_met by auto

text \<open>
  Expectation compaction is sound. After a compaction the current view of the log is exactly the fold it
  returned; every pending row is still there unchanged, and every row there was there before.
\<close>

theorem expectation_compaction_sound:
  assumes "row_compact c p obs_root now ret s = (Inr (n, kept), s')" and "row_current s = Inr d"
  shows "row_current s' = Inr kept \<and>
    (\<forall>k r. dget d k = Some r \<and> x_state r = XPending \<longrightarrow> dget kept k = Some r) \<and>
    (\<forall>k r. dget kept k = Some r \<longrightarrow> dget d k = Some r)"
  using row_compact_fold [OF assms] by blast

lemma ex_row_compact:
  "row_compact micro_codec mcp_process [] 4000000000 3600 ex_row_log = (Inr (0, [(''r'', ex_row)]), ex_row_log)"
proof -
  have "row_read ex_row_log = Inr [ex_row]"
    by (simp add: row_read_def read_strict_def ex_row_log_def read_log_text_def validate_line_def ex_row_ok)
  moreover have "dt_add (utc 4000000000) (- timedelta_seconds 3600) = Inr (utc 400000000)"
    by (simp add: dt_add_def utc_def dt_in_range_def max_wall_def)
  ultimately show ?thesis
    by (simp add: row_compact_def row_compact_locked_def sbind_sget fold_by_def ex_row_fields row_stale_def)
qed

theorem expectation_compaction_sound_witness:
  "row_compact micro_codec mcp_process [] 4000000000 3600 ex_row_log = (Inr (0, [(''r'', ex_row)]), ex_row_log) \<and>
   dget [(''r'', ex_row)] ''r'' = Some ex_row"
  using expectation_compaction_sound [OF ex_row_compact ex_row_current] ex_row_compact ex_row_fields by simp

text \<open>
  Compaction does not end a cooldown. If the cooldown is at most the retention window, a signal that would be
  in cooldown at some time from the compaction on is still in cooldown at that time after it.
\<close>

theorem cooldown_survives_compaction:
  assumes "signal_compact c p obs_root now (of_int ret) s = (Inr (n, kept), s')"
    and "in_cooldown c signal later cd None s = Inr True" and "cd \<le> of_int ret" and "now \<le> later"
  shows "in_cooldown c signal later cd None s' = Inr True"
  using assms by (rule compaction_keeps_cooldown)

definition ex_target :: signal_target where
  "ex_target = \<lparr>tg_agent_id = Some ''a'', tg_lifecycle_id = None, tg_role = None, tg_task_document_ref = None,
     tg_seat_role = None\<rparr>"

definition ex_signal :: "string \<Rightarrow> signal_record" where
  "ex_signal ts = \<lparr>sg_schemaVersion = SCHEMA_VERSION, sg_schema = AGENT_NOTIFIER_SIGNAL_SCHEMA, sg_id = ''s'', sg_ts = ts,
     sg_state = SignalSent, sg_targetAgentId = Some ''a'', sg_targetLifecycleId = None, sg_targetRole = None,
     sg_taskDocumentRef = None, sg_seatRole = None, sg_findingKind = ''idle'', sg_detail = '''',
     sg_deliveryState = DDelivered\<rparr>"

definition ex_signal_key :: signal_key where
  "ex_signal_key = \<lparr>sk_target = ex_target, sk_finding_kind = ''idle'', sk_detail = ''''\<rparr>"

definition ex_signal_log :: signal_log where
  "ex_signal_log = Some (map Rec [ex_signal ''1'', ex_signal ''4000000000''])"

lemma ex_signal_read: "signal_read ex_signal_log = [ex_signal ''1'', ex_signal ''4000000000'']"
proof -
  have "signal_ok (ex_signal ts)" for ts by (simp add: signal_ok_def ex_signal_def) code_simp
  then show ?thesis
    by (simp add: signal_read_def read_tolerant_def ex_signal_log_def read_log_text_def validate_line_def)
qed

lemma ex_signal_times:
  "fromisoformat micro_codec ''1'' = Some (utc 1)" "fromisoformat micro_codec ''4000000000'' = Some (utc 4000000000)"
  by (simp_all add: micro_codec_def) (code_simp+)

lemma ex_signal_compact:
  "\<exists>s'. signal_compact micro_codec dashboard_process [] 4000000000 (of_int 3600) ex_signal_log =
     (Inr (1, [ex_signal ''4000000000'']), s')"
proof -
  have "dt_add (utc 4000000000) (- timedelta_seconds (of_int 3600)) = Inr (utc 400000000)"
    by (simp add: dt_add_def utc_def dt_in_range_def max_wall_def)
  moreover have "signal_fresh micro_codec (utc 400000000) (ex_signal ''4000000000'')"
      "\<not> signal_fresh micro_codec (utc 400000000) (ex_signal ''1'')"
    by (simp_all add: signal_fresh_def ex_signal_times ex_signal_def dt_le_def dt_sub_def utc_def is_naive_def)
  moreover have "rewrite_records dashboard_process q rs s = (Inr (), rewrite_lines rs s)"
    for q and rs :: "signal_record list" and s
    by (rule rewrite_records_ok [of _ AGENT_NOTIFIER_SIGNAL_OWNERSHIP]) simp
  ultimately show ?thesis
    by (simp add: signal_compact_def signal_compact_locked_def sbind_sget ex_signal_read Let_def) (simp add: sbind_def)
qed

lemma ex_signal_cooling: "in_cooldown micro_codec ex_signal_key 4000000000 900 None ex_signal_log = Inr True"
proof -
  have "same_signal ex_signal_key (ex_signal ts)" for ts
    by (simp add: same_signal_def ex_signal_key_def ex_target_def ex_signal_def)
  then show ?thesis
    by (simp add: in_cooldown_def signal_last_sent_def ex_signal_read require_redelivery_floor_seconds_def
        MIN_REDELIVERY_INTERVAL_SECONDS_def)
      (simp add: ex_signal_def ex_signal_times dt_sub_def utc_def is_naive_def total_seconds_def)
qed

theorem cooldown_survives_compaction_witness:
  "\<exists>s'. signal_compact micro_codec dashboard_process [] 4000000000 (of_int 3600) ex_signal_log =
     (Inr (1, [ex_signal ''4000000000'']), s') \<and>
     in_cooldown micro_codec ex_signal_key 4000000000 900 None s' = Inr True"
proof -
  from ex_signal_compact obtain s' where s': "signal_compact micro_codec dashboard_process [] 4000000000 (of_int 3600)
      ex_signal_log = (Inr (1, [ex_signal ''4000000000'']), s')" by blast
  from cooldown_survives_compaction [OF s' ex_signal_cooling] s' show ?thesis by simp
qed

text \<open>
  The nudge rate limit. A recorded nudge is appended to the log and returned; a nudge asked for as sent is
  recorded as rate-limited exactly when the last one sent with the same target, subject and reason is less than the
  limit ago, and otherwise is recorded as it is.
\<close>

theorem nudge_rate_limited_iff:
  assumes "nudge_record_call c p obs_root record rate s = (Inr r, s')" and "nudge_ok record" and "n_state record = NudgeSent"
  shows "nudge_read s' = nudge_read s @ [r] \<and>
    (n_state r = NudgeRateLimited \<longleftrightarrow>
       (\<exists>previous e. nudge_last_sent (n_targetAgentId record) (n_targetLifecycleId record) (n_subjectAgentId record)
            (n_subjectLifecycleId record) (n_reason record) s = Some previous \<and>
          elapsed_seconds c (n_ts previous) (n_ts record) = Inr (Some e) \<and> e < of_int rate)) \<and>
    (n_state r \<noteq> NudgeRateLimited \<longrightarrow> r = record)"
proof -
  let ?last = "nudge_last_sent (n_targetAgentId record) (n_targetLifecycleId record) (n_subjectAgentId record)
    (n_subjectLifecycleId record) (n_reason record) s"
  from assms(1) have app: "nudge_append p obs_root r s = (Inr (), s')"
    and r: "(case ?last of None \<Rightarrow> Inr record
             | Some previous \<Rightarrow> rbind (elapsed_seconds c (n_ts previous) (n_ts record)) (\<lambda>elapsed. case elapsed of
                 Some e \<Rightarrow> Inr (if e < of_int rate then record\<lparr>n_state := NudgeRateLimited\<rparr> else record)
               | None \<Rightarrow> Inr record)) = Inr r"
    by (auto simp: nudge_record_call_def sget_def sbind_eq_Inr)
  have shape: "r = record \<or> r = record\<lparr>n_state := NudgeRateLimited\<rparr>"
    using r by (auto simp: rbind_eq_Inr split: option.splits if_splits)
  then have "nudge_ok r" using assms(2) by (auto simp: nudge_ok_def)
  with nudge_append_Inr [OF app] have "nudge_read s' = nudge_read s @ [r]" by (simp add: nudge_read_append)
  moreover have "n_state r = NudgeRateLimited \<longleftrightarrow>
      (\<exists>previous e. ?last = Some previous \<and> elapsed_seconds c (n_ts previous) (n_ts record) = Inr (Some e) \<and> e < of_int rate)"
  proof (cases ?last)
    case None
    with r assms(3) show ?thesis by auto
  next
    case (Some previous)
    with r obtain x where x: "elapsed_seconds c (n_ts previous) (n_ts record) = Inr x" by (auto simp: rbind_eq_Inr)
    show ?thesis
    proof (cases x)
      case None
      with Some r x assms(3) show ?thesis by auto
    next
      case (Some e)
      with \<open>?last = Some previous\<close> r x assms(3) show ?thesis by (cases "e < of_int rate") auto
    qed
  qed
  moreover have "n_state r \<noteq> NudgeRateLimited \<longrightarrow> r = record" using shape by auto
  ultimately show ?thesis by blast
qed

definition ex_nudge :: "string \<Rightarrow> nudge_record" where
  "ex_nudge ts = \<lparr>n_schemaVersion = SCHEMA_VERSION, n_schema = ORCHESTRATION_NUDGE_SCHEMA, n_id = ''n'', n_ts = ts,
     n_state = NudgeSent, n_reason = NudgeInactive, n_targetAgentId = None, n_targetLifecycleId = None,
     n_subjectAgentId = Some ''a'', n_subjectLifecycleId = None, n_artifactPath = None, n_message = ''m''\<rparr>"

definition ex_nudge_log :: nudge_log where
  "ex_nudge_log = Some [Rec (ex_nudge ''1'')]"

lemma ex_nudge_ok: "nudge_ok (ex_nudge ts)"
  by (simp add: nudge_ok_def ex_nudge_def) code_simp

lemma ex_nudge_call:
  "nudge_record_call micro_codec mcp_process [] (ex_nudge ''4000000000'') 5000 ex_nudge_log =
     (Inr ((ex_nudge ''4000000000'')\<lparr>n_state := NudgeRateLimited\<rparr>),
      append_line ((ex_nudge ''4000000000'')\<lparr>n_state := NudgeRateLimited\<rparr>) ex_nudge_log)"
proof -
  have "check_declared_writer ORCHESTRATION_NUDGE_OWNERSHIP mcp_process = Inr ()"
    by (simp add: check_declared_writer_def declared_daemon_role_def ORCHESTRATION_NUDGE_OWNERSHIP_def)
  then have app: "nudge_append mcp_process [] r s = (Inr (), append_line r s)" for r s
    using append_record_ok [of mcp_process ORCHESTRATION_NUDGE_OWNERSHIP] by (simp add: nudge_append_def Let_def)
  have last_one: "nudge_last_sent None None (Some ''a'') None NudgeInactive ex_nudge_log = Some (ex_nudge ''1'')"
    by (simp add: nudge_last_sent_def nudge_read_def read_tolerant_def ex_nudge_log_def read_log_text_def
        validate_line_def ex_nudge_ok) (simp add: ex_nudge_def)
  have el: "elapsed_seconds micro_codec ''1'' ''4000000000'' = Inr (Some (total_seconds 3999999999))"
    by (simp add: elapsed_seconds_def ex_signal_times dt_sub_def utc_def is_naive_def)
  show ?thesis
    by (simp add: nudge_record_call_def sbind_sget ex_nudge_def [of "''4000000000''"] last_one)
      (simp add: ex_nudge_def el total_seconds_def sbind_def app)
qed

theorem nudge_rate_limited_iff_witness:
  "\<exists>r s'. nudge_record_call micro_codec mcp_process [] (ex_nudge ''4000000000'') 5000 ex_nudge_log = (Inr r, s') \<and>
     n_state r = NudgeRateLimited \<and> nudge_read s' = nudge_read ex_nudge_log @ [r]"
  using nudge_rate_limited_iff [OF ex_nudge_call ex_nudge_ok] ex_nudge_call by (simp add: ex_nudge_def)

end
