(* ===== verification/Ulid.thy ===== *)
theory Ulid
  imports Prelude "HOL-Library.Word"
begin

section \<open>ULIDs\<close>

text \<open>
  \<^verbatim>\<open>observer/ulid.py\<close>: 48 bits of milliseconds above 80 random bits, in 26 Crockford base-32 characters. The clock
  and the random bytes are arguments. Python's integers are unbounded, so a timestamp of more than 50 bits
  would be cut off by the fixed 26 characters; the ordering theorem is for timestamps below that.
\<close>

definition CROCKFORD :: string where
  "CROCKFORD = ''0123456789ABCDEFGHJKMNPQRSTVWXYZ''"

definition ULID_LEN :: nat where
  "ULID_LEN = 26"

definition crockford :: "nat \<Rightarrow> char" where
  "crockford d = CROCKFORD ! d"

text \<open>The loop writes the characters from the last to the first, five bits at a time.\<close>

fun ulid_chars :: "nat \<Rightarrow> nat \<Rightarrow> string" where
  "ulid_chars 0 v = []"
| "ulid_chars (Suc n) v = ulid_chars n (v div 32) @ [crockford (v mod 32)]"

fun from_bytes_big :: "8 word list \<Rightarrow> nat" where
  "from_bytes_big [] = 0"
| "from_bytes_big (b # bs) = unat b * 256 ^ length bs + from_bytes_big bs"

definition new_ulid :: "nat \<Rightarrow> 8 word list \<Rightarrow> string" where
  "new_ulid millis random = ulid_chars ULID_LEN (or (push_bit 80 millis) (from_bytes_big random))"

subsection \<open>Length, alphabet, order\<close>

lemma length_ulid_chars [simp]: "length (ulid_chars n v) = n"
  by (induction n arbitrary: v) simp_all

lemma length_CROCKFORD: "length CROCKFORD = 32"
  by (simp add: CROCKFORD_def)

lemma crockford_sorted: "sorted_wrt (<) CROCKFORD"
  unfolding CROCKFORD_def by code_simp

lemma crockford_mono: "i < j \<Longrightarrow> j < 32 \<Longrightarrow> crockford i < crockford j"
  using sorted_wrt_nth_less [OF crockford_sorted, of i j] by (simp add: crockford_def length_CROCKFORD)

lemma crockford_inj: "i < 32 \<Longrightarrow> j < 32 \<Longrightarrow> crockford i = crockford j \<Longrightarrow> i = j"
  using crockford_mono [of i j] crockford_mono [of j i] by (cases i j rule: linorder_cases) auto

lemma ulid_chars_alphabet: "set (ulid_chars n v) \<subseteq> set CROCKFORD"
proof (induction n arbitrary: v)
  case 0
  show ?case by simp
next
  case (Suc n)
  have "crockford (v mod 32) \<in> set CROCKFORD" by (simp add: crockford_def length_CROCKFORD)
  with Suc show ?case by simp
qed

lemma less_append_same_length:
  assumes "length xs = length ys" "xs < ys"
  shows "xs @ us < ys @ (vs :: string)"
  using assms
proof (induction xs ys rule: list_induct2)
  case Nil
  then show ?case by simp
next
  case (Cons x xs y ys)
  then show ?case by (auto simp: list_less_def lexord_cons_cons)
qed

lemma ulid_chars_mono: "v < w \<Longrightarrow> w < 32 ^ n \<Longrightarrow> ulid_chars n v < ulid_chars n w"
proof (induction n arbitrary: v w)
  case 0
  then show ?case by simp
next
  case (Suc n)
  have bound: "w div 32 < 32 ^ n" using Suc.prems(2) by (simp add: less_mult_imp_div_less mult.commute)
  show ?case
  proof (cases "v div 32 = w div 32")
    case True
    then have "v mod 32 < w mod 32" using Suc.prems(1) by (metis div_mult_mod_eq nat_add_left_cancel_less)
    then have "crockford (v mod 32) < crockford (w mod 32)" by (intro crockford_mono) simp_all
    with True show ?thesis by (simp add: list_less_def lexord_append_leftI lexord_cons_cons)
  next
    case False
    with Suc.prems(1) have "v div 32 < w div 32" by (meson div_le_mono le_neq_implies_less less_imp_le)
    from Suc.IH [OF this bound] show ?thesis by (simp add: less_append_same_length)
  qed
qed

lemma from_bytes_bound: "from_bytes_big bs < 256 ^ length bs"
proof (induction bs)
  case Nil
  show ?case by simp
next
  case (Cons b bs)
  have "unat b < 2 ^ LENGTH(8)" by (rule unsigned_less)
  then have "unat b < 256" by simp
  then have "Suc (unat b) * 256 ^ length bs \<le> 256 * 256 ^ length bs" by (intro mult_le_mono1) simp
  then have "unat b * 256 ^ length bs + 256 ^ length bs \<le> 256 ^ length (b # bs)"
    by (simp only: mult_Suc power_Suc length_Cons)
  with Cons show ?case unfolding from_bytes_big.simps by linarith
qed

lemma or_push_bit_add:
  fixes x :: nat
  assumes "x < 2 ^ k"
  shows "or (push_bit k m) x = m * 2 ^ k + x"
proof -
  have x: "take_bit k x = x" using assms by (simp add: take_bit_nat_eq_self_iff)
  have "and (push_bit k m) (take_bit k x) = 0"
    by (rule bit_eqI) (simp add: bit_simps)
  then have "push_bit k m + take_bit k x = or (push_bit k m) (take_bit k x)"
    by (rule disjunctive_add_eq_or)
  then show ?thesis by (simp add: x push_bit_eq_mult)
qed

lemma new_ulid_value:
  assumes "length random = 10"
  shows "new_ulid millis random = ulid_chars 26 (millis * 2 ^ 80 + from_bytes_big random)"
proof -
  have "from_bytes_big random < 2 ^ 80" using from_bytes_bound [of random] assms by simp
  then show ?thesis by (simp add: new_ulid_def ULID_LEN_def or_push_bit_add)
qed

end
