(* ===== verification/Signal_Routing.thy ===== *)
theory Signal_Routing
  imports Inbox_Records
begin

section \<open>Seats and structural routing\<close>

text \<open>
  \<^verbatim>\<open>controlplane/seats.py\<close> and \<^verbatim>\<open>controlplane/signal_routing.py\<close>. The seat catalog and the task hierarchy are
  protocols the caller satisfies: a directory is its two reads, a hierarchy its parent function. A route
  that is absent or ambiguous is an error, never a guess.

  The walk up to the sprint document remembers what it has seen and reports a containment cycle. It is a
  \<^theory_text>\<open>partial_function\<close>: over a hierarchy with infinitely many documents it need not return (\<^verbatim>\<open>None\<close>).
\<close>

record seat_row =
  seat_id :: string
  seat_kind :: string
  seat_status :: string
  seat_lifecycle_id :: "string option"
  seat_created_at :: string
  seat_last_attached_at :: string
  seat_landed_at :: "string option"
  seat_task_document_ref :: "task_document_ref option"
  seat_replacement_for :: "task_document_ref option"
  seat_spawned_by_session :: "string option"
  seat_spawned_by_lifecycle :: "string option"
  seat_spawn_role :: "string option"
  seat_turn_state :: "string option"
  seat_turn_state_changed_at :: "string option"
  seat_binding_role :: string
  seat_binding_task_document_ref :: "task_document_ref option"

record seat_directory =
  sd_get :: "string \<Rightarrow> seat_row option"
  sd_list :: "seat_row list"

type_synonym hierarchy = "task_document_ref \<Rightarrow> task_document_ref option"

record routed_owner =
  ro_role :: "agent_role option"
  ro_task_document_ref :: "task_document_ref option"
  ro_agent_id :: "string option"
  ro_lifecycle_id :: "string option"

definition no_owner :: routed_owner where
  "no_owner = \<lparr>ro_role = None, ro_task_document_ref = None, ro_agent_id = None, ro_lifecycle_id = None\<rparr>"

definition LEAF_ROLES :: "string list" where
  "LEAF_ROLES = [''worker'', ''reviewer'', ''curator'']"

definition primary_claims :: "seat_directory \<Rightarrow> task_document_ref \<Rightarrow> agent_role \<Rightarrow> seat_row list" where
  "primary_claims catalog document role =
     filter (\<lambda>row. seat_status row = ''running'' \<and> seat_binding_role row = agent_role_str role \<and>
                   seat_task_document_ref row = Some document) (sd_list catalog)"

definition replacement_claims :: "seat_directory \<Rightarrow> task_document_ref \<Rightarrow> agent_role \<Rightarrow> seat_row list" where
  "replacement_claims catalog document role =
     filter (\<lambda>row. seat_status row = ''running'' \<and> seat_binding_role row = agent_role_str role \<and>
                   seat_replacement_for row = Some document) (sd_list catalog)"

definition seat_candidates :: "seat_directory \<Rightarrow> task_document_ref \<Rightarrow> agent_role \<Rightarrow> seat_row list res" where
  "seat_candidates catalog document role =
     (let primary = primary_claims catalog document role
      in if 1 < length primary then Inl (StructuralRoutingError ''multiple running occupants'')
         else if primary \<noteq> [] then Inr primary
         else let replacements = replacement_claims catalog document role
              in if 1 < length replacements then Inl (StructuralRoutingError ''multiple running replacements'')
                 else Inr replacements)"

definition current_occupant :: "seat_directory \<Rightarrow> task_document_ref \<Rightarrow> agent_role \<Rightarrow> routed_owner res" where
  "current_occupant catalog document role =
     rbind (seat_candidates catalog document role) (\<lambda>candidates. Inr
       (case candidates of
          [] \<Rightarrow> \<lparr>ro_role = Some role, ro_task_document_ref = Some document,
                ro_agent_id = None, ro_lifecycle_id = None\<rparr>
        | occupant # _ \<Rightarrow>
            \<lparr>ro_role = Some role, ro_task_document_ref = Some document,
             ro_agent_id = Some (seat_id occupant), ro_lifecycle_id = seat_lifecycle_id occupant\<rparr>))"

definition sender_seat :: "seat_directory \<Rightarrow> string option \<Rightarrow> seat_row option" where
  "sender_seat catalog sender = (case sender of None \<Rightarrow> None | Some a \<Rightarrow> sd_get catalog a)"

definition signal_task_document_ref ::
  "seat_directory \<Rightarrow> string option \<Rightarrow> task_document_ref option \<Rightarrow> task_document_ref option" where
  "signal_task_document_ref catalog sender_agent_id doc =
     (case doc of
        Some d \<Rightarrow> Some d
      | None \<Rightarrow> (case sender_seat catalog sender_agent_id of
                   Some sender \<Rightarrow> seat_binding_task_document_ref sender
                 | None \<Rightarrow> None))"

definition required_parent :: "hierarchy \<Rightarrow> task_document_ref \<Rightarrow> task_document_ref res" where
  "required_parent parent document =
     (case parent document of
        None \<Rightarrow> Inl (StructuralRoutingError ''no structural parent'')
      | Some p \<Rightarrow> Inr p)"

partial_function (option) sprint_walk ::
  "hierarchy \<Rightarrow> task_document_ref list \<Rightarrow> task_document_ref \<Rightarrow> task_document_ref res option" where
  "sprint_walk parent seen current =
     (if current \<in> set seen then Some (Inl (StructuralRoutingError ''task containment cycle''))
      else case parent current of
             None \<Rightarrow> Some (Inr current)
           | Some p \<Rightarrow> sprint_walk parent (current # seen) p)"

definition sprint_document :: "hierarchy \<Rightarrow> task_document_ref \<Rightarrow> task_document_ref res option" where
  "sprint_document parent document = sprint_walk parent [] document"

definition derive_manager_owner :: "seat_directory \<Rightarrow> hierarchy \<Rightarrow> task_document_ref \<Rightarrow> routed_owner res" where
  "derive_manager_owner catalog parent doc =
     rbind (required_parent parent doc) (\<lambda>master. current_occupant catalog master RoleManager)"

definition derive_architect_owner ::
  "seat_directory \<Rightarrow> hierarchy \<Rightarrow> task_document_ref \<Rightarrow> routed_owner res option" where
  "derive_architect_owner catalog parent doc =
     map_option (\<lambda>r. rbind r (\<lambda>sprint. current_occupant catalog sprint Architect)) (sprint_document parent doc)"

definition structural_parent_owner ::
  "seat_directory \<Rightarrow> hierarchy \<Rightarrow> task_document_ref \<Rightarrow> string \<Rightarrow> routed_owner option res" where
  "structural_parent_owner catalog parent document role =
     (if role \<in> set LEAF_ROLES then rbind (derive_manager_owner catalog parent document) (\<lambda>o1. Inr (Some o1))
      else if role = ''manager''
      then rbind (required_parent parent document) (\<lambda>d.
             rbind (current_occupant catalog d RoleOrchestrator) (\<lambda>o1. Inr (Some o1)))
      else if role \<in> {''orchestrator'', ''strategist'', ''designer''}
      then rbind (current_occupant catalog document Architect) (\<lambda>o1. Inr (Some o1))
      else if role = ''system-specialist''
      then rbind (current_occupant catalog document RoleOrchestrator) (\<lambda>o1. Inr (Some o1))
      else Inr None)"

definition or_no_owner :: "routed_owner option \<Rightarrow> routed_owner" where
  "or_no_owner r = (case r of None \<Rightarrow> no_owner | Some x \<Rightarrow> x)"

definition derive_signal_owner ::
  "seat_directory \<Rightarrow> hierarchy \<Rightarrow> string option \<Rightarrow> inbox_message_kind \<Rightarrow> task_document_ref option \<Rightarrow>
   routed_owner res option" where
  "derive_signal_owner catalog parent sender_agent_id message_kind doc =
     (case signal_task_document_ref catalog sender_agent_id doc of
        None \<Rightarrow> Some (Inr no_owner)
      | Some document \<Rightarrow>
          if message_kind = DecisionItem then derive_architect_owner catalog parent document
          else case sender_seat catalog sender_agent_id of
                 None \<Rightarrow> Some (Inr no_owner)
               | Some sender \<Rightarrow>
                   Some (rbind (structural_parent_owner catalog parent document (seat_binding_role sender))
                           (\<lambda>r. Inr (or_no_owner r))))"

definition is_seat_dead :: "seat_directory \<Rightarrow> string option \<Rightarrow> bool" where
  "is_seat_dead catalog agent_id =
     (case agent_id of
        None \<Rightarrow> True
      | Some a \<Rightarrow> (case sd_get catalog a of None \<Rightarrow> True | Some e \<Rightarrow> seat_status e \<noteq> ''running''))"

definition parsed_at :: "iso_codec \<Rightarrow> string option \<Rightarrow> datetime option" where
  "parsed_at c value = (case value of None \<Rightarrow> None | Some v \<Rightarrow> fromisoformat c v)"

definition entry_progressed_after :: "iso_codec \<Rightarrow> seat_row \<Rightarrow> datetime \<Rightarrow> bool res" where
  "entry_progressed_after c entry since =
     (if seat_status entry = ''running'' \<and> seat_turn_state entry = Some ''working'' then Inr True
      else rany (\<lambda>v. case parsed_at c v of None \<Rightarrow> Inr False | Some t \<Rightarrow> dt_lt since t)
             [Some (seat_created_at entry), Some (seat_last_attached_at entry),
              seat_turn_state_changed_at entry, seat_landed_at entry])"

definition entry_tracks_task_chain :: "seat_row \<Rightarrow> task_document_ref \<Rightarrow> task_document_ref \<Rightarrow> bool" where
  "entry_tracks_task_chain entry doc manager_document =
     (let candidate_documents = (if seat_binding_role entry = ''manager'' then [Some doc, Some manager_document]
                                 else [Some doc])
      in seat_task_document_ref entry \<in> set candidate_documents \<or>
         seat_replacement_for entry \<in> set candidate_documents)"

definition task_chain_has_progress ::
  "iso_codec \<Rightarrow> seat_directory \<Rightarrow> hierarchy \<Rightarrow> task_document_ref \<Rightarrow> string option \<Rightarrow> string \<Rightarrow> bool res" where
  "task_chain_has_progress c catalog parent doc subject_agent_id since =
     (case parsed_at c (Some since) of
        None \<Rightarrow> Inr False
      | Some since_at \<Rightarrow>
          rbind (required_parent parent doc) (\<lambda>manager_document.
            rany (\<lambda>entry. if Some (seat_id entry) \<noteq> subject_agent_id \<and>
                             seat_status entry \<in> {''running'', ''landed''} \<and>
                             entry_tracks_task_chain entry doc manager_document
                          then entry_progressed_after c entry since_at else Inr False)
              (sd_list catalog)))"

definition owner_for_stamped_seat :: "seat_directory \<Rightarrow> operator_inbox_entry \<Rightarrow> routed_owner res" where
  "owner_for_stamped_seat catalog entry =
     (case (i_ownerRole entry, i_ownerTaskDocumentRef entry) of
        (Some role, Some doc) \<Rightarrow> current_occupant catalog doc role
      | _ \<Rightarrow> Inr no_owner)"

definition derive_row_owner ::
  "seat_directory \<Rightarrow> hierarchy \<Rightarrow> operator_inbox_entry \<Rightarrow> routed_owner res" where
  "derive_row_owner catalog parent entry =
     (if i_messageKind entry = DispatchBrief then Inr no_owner
      else case (i_subjectTaskDocumentRef entry,
                 str_or (i_seatRole entry) (map_option agent_role_str (i_senderRole entry))) of
             (Some document, Some role) \<Rightarrow>
               rbind (structural_parent_owner catalog parent document role)
                 (\<lambda>r. case r of Some own \<Rightarrow> Inr own | None \<Rightarrow> owner_for_stamped_seat catalog entry)
           | _ \<Rightarrow> owner_for_stamped_seat catalog entry)"

subsection \<open>The occupant of a seat\<close>

text \<open>Reference: who may be named as the occupant of a document and role.\<close>

definition claims_seat :: "seat_directory \<Rightarrow> task_document_ref \<Rightarrow> agent_role \<Rightarrow> seat_row \<Rightarrow> bool" where
  "claims_seat catalog document role row \<longleftrightarrow>
     row \<in> set (sd_list catalog) \<and> seat_status row = ''running'' \<and>
     seat_binding_role row = agent_role_str role \<and>
     (seat_task_document_ref row = Some document \<or> seat_replacement_for row = Some document)"

lemma current_occupant_named:
  assumes "current_occupant catalog document role = Inr own" "ro_agent_id own = Some a"
  shows "\<exists>row. claims_seat catalog document role row \<and> seat_id row = a \<and> ro_lifecycle_id own = seat_lifecycle_id row"
proof -
  obtain cs where cs: "seat_candidates catalog document role = Inr cs"
    using assms(1) by (auto simp: current_occupant_def rbind_eq_Inr)
  with assms obtain x xs where x: "seat_candidates catalog document role = Inr (x # xs)"
    "seat_id x = a" "ro_lifecycle_id own = seat_lifecycle_id x"
    by (cases cs) (auto simp: current_occupant_def)
  then have "x \<in> set (primary_claims catalog document role) \<or> x \<in> set (replacement_claims catalog document role)"
    by (auto simp: seat_candidates_def Let_def split: if_splits)
  with x show ?thesis by (auto simp: claims_seat_def primary_claims_def replacement_claims_def)
qed

lemma current_occupant_address:
  assumes "current_occupant catalog document role = Inr own"
  shows "ro_role own = Some role \<and> ro_task_document_ref own = Some document"
proof -
  obtain cs where "seat_candidates catalog document role = Inr cs"
    using assms by (auto simp: current_occupant_def rbind_eq_Inr)
  with assms show ?thesis by (cases cs) (auto simp: current_occupant_def)
qed

lemma two_primaries_refused:
  assumes "r1 \<in> set (sd_list catalog)" "r2 \<in> set (sd_list catalog)" "r1 \<noteq> r2"
    "\<forall>r\<in>{r1, r2}. seat_status r = ''running'' \<and> seat_binding_role r = agent_role_str role \<and>
        seat_task_document_ref r = Some document"
  shows "current_occupant catalog document role = Inl (StructuralRoutingError ''multiple running occupants'')"
proof -
  let ?prim = "primary_claims catalog document role"
  have "{r1, r2} \<subseteq> set ?prim" using assms by (auto simp: primary_claims_def)
  then have "card {r1, r2} \<le> card (set ?prim)" by (intro card_mono) auto
  also have "\<dots> \<le> length ?prim" by (rule card_length)
  finally have "1 < length ?prim" using assms(3) by simp
  then show ?thesis by (simp add: current_occupant_def seat_candidates_def)
qed

subsection \<open>The walk to the sprint document\<close>

text \<open>\<open>ancestor parent n\<close> follows the parent relation for \<open>n\<close> steps.\<close>

fun ancestor :: "hierarchy \<Rightarrow> nat \<Rightarrow> task_document_ref \<Rightarrow> task_document_ref option" where
  "ancestor parent 0 d = Some d"
| "ancestor parent (Suc n) d = (case parent d of None \<Rightarrow> None | Some p \<Rightarrow> ancestor parent n p)"

lemma ancestor_add:
  "ancestor parent i d = Some x \<Longrightarrow> ancestor parent (i + j) d = ancestor parent j x"
  by (induction i arbitrary: d) (auto split: option.splits)

lemma ancestor_past_root:
  assumes "ancestor parent n d = Some sprint" "parent sprint = None" "ancestor parent m d = Some x"
  shows "m \<le> n"
proof (rule ccontr)
  assume "\<not> m \<le> n"
  then obtain k where "m = n + Suc k" using less_iff_Suc_add [of n m] by auto
  with ancestor_add [OF assms(1), of "Suc k"] assms(2,3) show False by simp
qed

lemma ancestor_cycle:
  assumes "ancestor parent m d = Some x" "ancestor parent (m + q) d = Some x"
  shows "ancestor parent (m + k * q) d = Some x"
proof (induction k)
  case 0
  then show ?case using assms(1) by simp
next
  case (Suc k)
  have "ancestor parent q x = Some x" using ancestor_add [OF assms(1), of q] assms(2) by simp
  with ancestor_add [OF Suc, of q] show ?case by (simp add: algebra_simps)
qed

text \<open>What a returned value means, whatever the hierarchy.\<close>

definition walk_meaning :: "hierarchy \<Rightarrow> task_document_ref list \<Rightarrow> task_document_ref \<Rightarrow> task_document_ref res \<Rightarrow> bool" where
  "walk_meaning parent seen d r \<longleftrightarrow>
     (case r of
        Inr sprint \<Rightarrow> parent sprint = None \<and> (\<exists>n. ancestor parent n d = Some sprint)
      | Inl _ \<Rightarrow> \<exists>n x. ancestor parent n d = Some x \<and> (x \<in> set seen \<or> (\<exists>m<n. ancestor parent m d = Some x)))"

lemma walk_meaning_step:
  assumes "parent d = Some p" "walk_meaning parent (d # seen) p r"
  shows "walk_meaning parent seen d r"
proof (cases r)
  case (Inr sprint)
  with assms obtain n where "parent sprint = None" "ancestor parent n p = Some sprint"
    by (auto simp: walk_meaning_def)
  then have "parent sprint = None" "ancestor parent (Suc n) d = Some sprint" using assms(1) by simp_all
  with Inr show ?thesis unfolding walk_meaning_def by (simp only: sum.case) blast
next
  case (Inl e)
  with assms(2) obtain n x where x: "ancestor parent n p = Some x"
    "x = d \<or> x \<in> set seen \<or> (\<exists>m<n. ancestor parent m p = Some x)" by (auto simp: walk_meaning_def)
  have n: "ancestor parent (Suc n) d = Some x" using assms(1) x(1) by simp
  have "x \<in> set seen \<or> (\<exists>m<Suc n. ancestor parent m d = Some x)"
    using x(2)
  proof (elim disjE exE conjE)
    assume "x = d"
    then show ?thesis by (intro disjI2 exI [of _ 0]) simp
  next
    fix m assume "m < n" "ancestor parent m p = Some x"
    then show ?thesis using assms(1) by (intro disjI2 exI [of _ "Suc m"]) simp
  qed simp
  with n Inl show ?thesis unfolding walk_meaning_def by (simp only: sum.case) blast
qed

lemma sprint_walk_meaning:
  assumes "sprint_walk parent seen d = Some r"
  shows "walk_meaning parent seen d r"
proof (rule sprint_walk.raw_induct [OF _ assms])
  fix walk parent seen d r
  assume IH: "\<And>parent seen d r. walk parent seen d = Some r \<Longrightarrow> walk_meaning parent seen d r"
    and run: "(if d \<in> set seen then Some (Inl (StructuralRoutingError ''task containment cycle''))
      else case parent d of None \<Rightarrow> Some (Inr d) | Some p \<Rightarrow> walk parent (d # seen) p) = Some r"
  show "walk_meaning parent seen d r"
  proof (cases "d \<in> set seen")
    case True
    with run have r: "r = Inl (StructuralRoutingError ''task containment cycle'')" by simp
    have "ancestor parent 0 d = Some d" by simp
    with True show ?thesis unfolding r walk_meaning_def by (simp only: sum.case) blast
  next
    case False
    show ?thesis
    proof (cases "parent d")
      case None
      with False run have r: "r = Inr d" by simp
      have "ancestor parent 0 d = Some d" by simp
      with None show ?thesis unfolding r walk_meaning_def by (simp only: sum.case) blast
    next
      case (Some p)
      with False run IH [of parent "d # seen" p r] have "walk_meaning parent (d # seen) p r" by simp
      with Some show ?thesis by (rule walk_meaning_step)
    qed
  qed
qed

lemma sprint_walk_returns:
  assumes "finite S" "d \<in> S" "\<And>x p. x \<in> S \<Longrightarrow> parent x = Some p \<Longrightarrow> p \<in> S"
  shows "\<exists>r. sprint_walk parent seen d = Some r"
  using assms(2)
proof (induction "card (S - set seen)" arbitrary: seen d rule: less_induct)
  case less
  show ?case
  proof (cases "d \<in> set seen \<or> parent d = None")
    case True
    then show ?thesis by (subst sprint_walk.simps) auto
  next
    case False
    then obtain p where p: "parent d = Some p" "d \<notin> set seen" by auto
    have "S - set (d # seen) \<subset> S - set seen" using less.prems p(2) by auto
    then have "card (S - set (d # seen)) < card (S - set seen)" using assms(1) by (simp add: psubset_card_mono)
    from less.hyps [OF this, of p] assms(3) less.prems p obtain r where "sprint_walk parent (d # seen) p = Some r" by blast
    with p show ?thesis by (subst sprint_walk.simps) simp
  qed
qed

text \<open>Where the chain of parents ends, the walk returns its end and never reports a cycle.\<close>

lemma sprint_document_root:
  assumes "ancestor parent n d = Some sprint" "parent sprint = None"
  shows "sprint_document parent d = Some (Inr sprint)"
proof -
  let ?S = "{x. \<exists>m\<le>n. ancestor parent m d = Some x}"
  have "?S \<subseteq> (\<lambda>m. the (ancestor parent m d)) ` {..n}" by force
  then have fin: "finite ?S" by (rule finite_surj [rotated]) simp
  have closed: "p \<in> ?S" if "x \<in> ?S" "parent x = Some p" for x p
  proof -
    from that obtain m where m: "ancestor parent m d = Some x" "m \<le> n" by blast
    have "ancestor parent (m + Suc 0) d = Some p" using ancestor_add [OF m(1), of "Suc 0"] that(2) by simp
    moreover from ancestor_past_root [OF assms this] have "m + Suc 0 \<le> n" .
    ultimately show ?thesis by blast
  qed
  have "d \<in> ?S" by (intro CollectI exI [of _ 0]) simp
  then have "\<exists>r. sprint_walk parent [] d = Some r"
    by (rule sprint_walk_returns [OF fin]) (rule closed)
  then obtain r where r: "sprint_walk parent [] d = Some r" ..
  note meaning = sprint_walk_meaning [OF r]
  show ?thesis
  proof (cases r)
    case (Inr sprint')
    with meaning obtain n' where n': "parent sprint' = None" "ancestor parent n' d = Some sprint'"
      by (auto simp: walk_meaning_def)
    have "n = n'" using ancestor_past_root [OF assms n'(2)] ancestor_past_root [OF n'(2,1) assms(1)] by simp
    with n'(2) assms(1) r Inr show ?thesis by (simp add: sprint_document_def)
  next
    case (Inl e)
    with meaning obtain k x m where x: "ancestor parent k d = Some x" "m < k" "ancestor parent m d = Some x"
      by (auto simp: walk_meaning_def)
    obtain q where q: "k = m + q" "0 < q" using x(2) less_imp_add_positive by blast
    with ancestor_cycle [OF x(3), of q "Suc n"] x(1) have "ancestor parent (m + Suc n * q) d = Some x" by simp
    from ancestor_past_root [OF assms this] have "m + (q + n * q) \<le> n" by simp
    moreover have "n \<le> n * q" using q(2) by simp
    ultimately have False using q(2) by linarith
    then show ?thesis ..
  qed
qed

end
