(* ===== verification/Artifacts.thy ===== *)
theory Artifacts
  imports Inbox_Backoff Signal_Routing
begin

section \<open>Orchestration artifacts and the escalation ladder\<close>

text \<open>
  \<^verbatim>\<open>controlplane/orchestration_artifacts.py\<close>: report locations with a safe stem, the one-rung escalation
  packet, and the rendered handover packet. \<^verbatim>\<open>_SAFE_STEM.sub("-", s)\<close> replaces every maximal run of characters
  outside \<^verbatim>\<open>[A-Za-z0-9_.-]\<close> by one dash. A path is printed with slashes.
\<close>

datatype orchestration_role =
  OArchitect | ODesigner | OStrategist | OOrchestrator | OManager | OWorker | OCurator | OReviewer | OSystemSpecialist

datatype escalation_target = ToRole orchestration_role | ToDeveloper

datatype escalation_reason = EscBlocked | EscPlanDelta | EscQualityFailure | EscMissingArtifact

fun ROLE_ESCALATION :: "orchestration_role \<Rightarrow> escalation_target" where
  "ROLE_ESCALATION OWorker = ToRole OManager"
| "ROLE_ESCALATION OManager = ToRole OOrchestrator"
| "ROLE_ESCALATION OOrchestrator = ToRole OArchitect"
| "ROLE_ESCALATION OArchitect = ToDeveloper"
| "ROLE_ESCALATION ODesigner = ToRole OArchitect"
| "ROLE_ESCALATION OStrategist = ToRole OOrchestrator"
| "ROLE_ESCALATION OCurator = ToRole OManager"
| "ROLE_ESCALATION OReviewer = ToRole OOrchestrator"
| "ROLE_ESCALATION OSystemSpecialist = ToRole OOrchestrator"

record turn_report_artifact_data =
  tr_leafId :: string
  tr_title :: string
  tr_path :: string
  tr_templatePath :: string

datatype verdict_outcome = Pass | PassWithNotes

fun verdict_outcome_str :: "verdict_outcome \<Rightarrow> string" where
  "verdict_outcome_str Pass = ''pass''"
| "verdict_outcome_str PassWithNotes = ''pass-with-notes''"

record master_handover_packet =
  mh_masterId :: string
  mh_title :: string
  mh_manager :: string
  mh_integrationBranch :: string
  mh_base :: string
  mh_verdict :: string
  mh_verdictOutcome :: verdict_outcome
  mh_written :: string
  mh_changeSetSummary :: "string list"
  mh_leavesLanded :: "string list"
  mh_requirementsAddressed :: string
  mh_carryOverState :: "string list"
  mh_knownFollowUps :: "string list"

record escalation_packet_data =
  ep_fromRole :: orchestration_role
  ep_toRole :: escalation_target
  ep_reason :: escalation_reason
  ep_subject :: string
  ep_summary :: string
  ep_artifactPath :: "string option"

definition template_path :: "path \<Rightarrow> string \<Rightarrow> path" where
  "template_path runtime_root name = runtime_root @ [''skills'', ''l-01-agent-lifecycles'', ''templates'', name]"

definition is_safe_char :: "char \<Rightarrow> bool" where
  "is_safe_char ch =
     (let n = (of_char ch :: nat)
      in (65 \<le> n \<and> n \<le> 90) \<or> (97 \<le> n \<and> n \<le> 122) \<or> (48 \<le> n \<and> n \<le> 57) \<or>
         ch = CHR ''_'' \<or> ch = CHR ''.'' \<or> ch = CHR ''-'')"

fun safe_sub :: "bool \<Rightarrow> string \<Rightarrow> string" where
  "safe_sub in_run [] = []"
| "safe_sub in_run (ch # cs) =
     (if is_safe_char ch then ch # safe_sub False cs
      else if in_run then safe_sub True cs else CHR ''-'' # safe_sub True cs)"

definition strip_dashes :: "string \<Rightarrow> string" where
  "strip_dashes s = rev (dropWhile (\<lambda>ch. ch = CHR ''-'') (rev (dropWhile (\<lambda>ch. ch = CHR ''-'') s)))"

definition safe_stem :: "string \<Rightarrow> string" where
  "safe_stem leaf_id = (let s = strip_dashes (safe_sub False leaf_id) in if s = '''' then ''leaf'' else s)"

definition turn_report_artifact :: "path \<Rightarrow> string \<Rightarrow> string \<Rightarrow> path \<Rightarrow> turn_report_artifact_data" where
  "turn_report_artifact task_root leaf_id title runtime_root =
     \<lparr>tr_leafId = leaf_id, tr_title = title,
      tr_path = path_str (task_root @ [''notes'', ''reports'', safe_stem leaf_id @ ''-worker-report.md'']),
      tr_templatePath = path_str (template_path runtime_root ''turn-report.md'')\<rparr>"

definition escalation_packet ::
  "orchestration_role \<Rightarrow> escalation_reason \<Rightarrow> string \<Rightarrow> string \<Rightarrow> string option \<Rightarrow> escalation_packet_data" where
  "escalation_packet from_role why subject summary artifact_path =
     \<lparr>ep_fromRole = from_role, ep_toRole = ROLE_ESCALATION from_role, ep_reason = why,
      ep_subject = subject, ep_summary = summary, ep_artifactPath = artifact_path\<rparr>"

fun join_with :: "string \<Rightarrow> string list \<Rightarrow> string" where
  "join_with sep [] = []"
| "join_with sep [x] = x"
| "join_with sep (x # y # ys) = x @ sep @ join_with sep (y # ys)"

definition handover_lines :: "master_handover_packet \<Rightarrow> string list" where
  "handover_lines packet =
     [''# Master Handover - '' @ mh_masterId packet @ '' - '' @ mh_title packet, '''',
      ''| Field | Value |'', ''| --- | --- |'',
      ''| master | '' @ mh_masterId packet @ '' |'',
      ''| manager | '' @ mh_manager packet @ '' |'',
      ''| integration branch | '' @ mh_integrationBranch packet @ '' |'',
      ''| base | '' @ mh_base packet @ '' |'',
      ''| verdict | '' @ mh_verdict packet @ '' |'',
      ''| verdict outcome | '' @ verdict_outcome_str (mh_verdictOutcome packet) @ '' |'',
      ''| written | '' @ mh_written packet @ '' |'', '''',
      ''## Change-Set Summary'']
     @ map (\<lambda>item. ''- '' @ item) (mh_changeSetSummary packet)
     @ [''- Leaves landed: '' @
          (if mh_leavesLanded packet \<noteq> [] then join_with '', '' (mh_leavesLanded packet) else ''none''), '''',
        ''## Requirements / Steps Completion'',
        ''- All master requirements addressed: '' @ mh_requirementsAddressed packet, '''',
        ''## Carry-Over State (for the orchestrator's master -> super C-11)'']
     @ map (\<lambda>item. ''- '' @ item) (mh_carryOverState packet)
     @ ['''', ''## Known Follow-Ups'']
     @ map (\<lambda>item. ''- '' @ item) (if mh_knownFollowUps packet = [] then [''none''] else mh_knownFollowUps packet)
     @ ['''', ''## Reachability'', ''- Manager seat stays reachable until the series retires.'', '''']"

definition render_master_handover_packet :: "master_handover_packet \<Rightarrow> string" where
  "render_master_handover_packet packet = join_with [CHR 0x0A] (handover_lines packet)"

subsection \<open>Safe stems and the ladder\<close>

lemma is_safe_dash [simp]: "is_safe_char CHR ''-''"
  by code_simp

lemma safe_sub_safe: "list_all is_safe_char (safe_sub b s)"
  by (induction b s rule: safe_sub.induct) simp_all

lemma set_strip_dashes: "set (strip_dashes s) \<subseteq> set s"
  by (auto simp: strip_dashes_def dest!: set_dropWhileD)

lemma safe_stem_safe: "list_all is_safe_char (safe_stem leaf_id)"
proof -
  have leaf: "list_all is_safe_char ''leaf''" by code_simp
  have "list_all is_safe_char (strip_dashes (safe_sub False leaf_id))"
    using safe_sub_safe [of False leaf_id] set_strip_dashes [of "safe_sub False leaf_id"]
    by (auto simp: list_all_iff)
  with leaf show ?thesis by (simp add: safe_stem_def Let_def)
qed

fun escalate_n :: "nat \<Rightarrow> escalation_target \<Rightarrow> escalation_target" where
  "escalate_n 0 t = t"
| "escalate_n (Suc n) ToDeveloper = ToDeveloper"
| "escalate_n (Suc n) (ToRole r) = escalate_n n (ROLE_ESCALATION r)"

lemma escalation_reaches_developer: "escalate_n 4 (ToRole r) = ToDeveloper"
  by (cases r) (simp_all add: numeral_eq_Suc)

end
