(* ===== verification/Observer_Properties.thy ===== *)
theory Observer_Properties
  imports Ulid Artifacts Lifecycle
begin

section \<open>Properties of routing and of the observer\<close>

text \<open>
  Who a signal is routed to (the walk up the task hierarchy, the occupant of a seat), the identifiers, the served ledger
  and the one lifecycle a session holds.
\<close>

subsection \<open>Routing\<close>

text \<open>
  The walk to the sprint document terminates and is exact. Over a hierarchy in which finitely many documents are
  reachable the walk returns; what it returns is the end of the chain of parents, and it reports a containment cycle
  only when that chain has no end.
\<close>

theorem sprint_document_exact:
  assumes "finite S" and "d \<in> S" and "\<forall>x\<in>S. \<forall>p. parent x = Some p \<longrightarrow> p \<in> S"
  shows "\<exists>r. sprint_document parent d = Some r \<and>
    (case r of
       Inr sprint \<Rightarrow> parent sprint = None \<and> (\<exists>n. ancestor parent n d = Some sprint)
     | Inl e \<Rightarrow> \<nexists>n sprint. ancestor parent n d = Some sprint \<and> parent sprint = None)"
proof -
  have "\<exists>r. sprint_walk parent [] d = Some r"
    using assms(3) by (intro sprint_walk_returns [OF assms(1,2)]) blast
  then obtain r where r: "sprint_walk parent [] d = Some r" ..
  note meaning = sprint_walk_meaning [OF r]
  show ?thesis
  proof (cases r)
    case (Inr sprint)
    with meaning r show ?thesis by (auto simp: walk_meaning_def sprint_document_def)
  next
    case (Inl e)
    then have "\<nexists>n sprint. ancestor parent n d = Some sprint \<and> parent sprint = None"
      using sprint_document_root [of parent _ d] r by (auto simp: sprint_document_def)
    with Inl r show ?thesis by (simp add: sprint_document_def)
  qed
qed

definition ex_doc :: "string \<Rightarrow> task_document_ref" where
  "ex_doc n = \<lparr>ref_repository = ''repo'', ref_path = n\<rparr>"

definition ex_parent :: hierarchy where
  "ex_parent d = (if d = ex_doc ''leaf.json'' then Some (ex_doc ''master.json'')
     else if d = ex_doc ''master.json'' then Some (ex_doc ''sprint.json'') else None)"

theorem sprint_document_exact_witness:
  "sprint_document ex_parent (ex_doc ''leaf.json'') = Some (Inr (ex_doc ''sprint.json'')) \<and>
   (\<exists>n. ancestor ex_parent n (ex_doc ''leaf.json'') = Some (ex_doc ''sprint.json''))"
proof -
  let ?S = "{ex_doc ''leaf.json'', ex_doc ''master.json'', ex_doc ''sprint.json''}"
  have "\<forall>x\<in>?S. \<forall>p. ex_parent x = Some p \<longrightarrow> p \<in> ?S" by (simp add: ex_parent_def ex_doc_def)
  from sprint_document_exact [OF _ _ this, of "ex_doc ''leaf.json''"] obtain r where
    r: "sprint_document ex_parent (ex_doc ''leaf.json'') = Some r" and
    c: "case r of Inr sprint \<Rightarrow> ex_parent sprint = None \<and> (\<exists>n. ancestor ex_parent n (ex_doc ''leaf.json'') = Some sprint)
        | Inl e \<Rightarrow> \<nexists>n sprint. ancestor ex_parent n (ex_doc ''leaf.json'') = Some sprint \<and> ex_parent sprint = None"
    by auto
  have "sprint_document ex_parent (ex_doc ''leaf.json'') = Some (Inr (ex_doc ''sprint.json''))"
    unfolding sprint_document_def
    by (simp add: sprint_walk.simps [of ex_parent] ex_parent_def ex_doc_def)
  with r c show ?thesis by auto
qed

text \<open>
  A seat's occupant is never guessed. When the occupant of a document and role is resolved, the answer is
  addressed to that seat; an agent it names is a running one bound to that role that claims the document, itself or as
  its replacement; and no two different running seats of that role claim the document itself.
\<close>

theorem occupant_never_guessed:
  assumes "current_occupant catalog document role = Inr own"
  shows "ro_role own = Some role \<and> ro_task_document_ref own = Some document \<and>
    (\<forall>a. ro_agent_id own = Some a \<longrightarrow>
       (\<exists>row. claims_seat catalog document role row \<and> seat_id row = a \<and> ro_lifecycle_id own = seat_lifecycle_id row)) \<and>
    (\<forall>r1\<in>set (primary_claims catalog document role). \<forall>r2\<in>set (primary_claims catalog document role). r1 = r2)"
proof -
  have "r1 = r2" if "r1 \<in> set (primary_claims catalog document role)" "r2 \<in> set (primary_claims catalog document role)"
    for r1 r2
    using that two_primaries_refused [of r1 catalog r2 role document] assms by (auto simp: primary_claims_def)
  with current_occupant_address [OF assms] current_occupant_named [OF assms] show ?thesis by blast
qed

definition ex_seat :: "string \<Rightarrow> seat_row" where
  "ex_seat a = \<lparr>seat_id = a, seat_kind = ''claude'', seat_status = ''running'', seat_lifecycle_id = Some ''L'',
     seat_created_at = ''1'', seat_last_attached_at = ''1'', seat_landed_at = None,
     seat_task_document_ref = Some (ex_doc ''master.json''), seat_replacement_for = None, seat_spawned_by_session = None,
     seat_spawned_by_lifecycle = None, seat_spawn_role = None, seat_turn_state = None, seat_turn_state_changed_at = None,
     seat_binding_role = ''manager'', seat_binding_task_document_ref = Some (ex_doc ''master.json'')\<rparr>"

definition ex_catalog :: "string list \<Rightarrow> seat_directory" where
  "ex_catalog as = \<lparr>sd_get = (\<lambda>a. if a \<in> set as then Some (ex_seat a) else None), sd_list = map ex_seat as\<rparr>"

theorem occupant_never_guessed_witness:
  "\<exists>own. current_occupant (ex_catalog [''m'']) (ex_doc ''master.json'') RoleManager = Inr own \<and>
     ro_agent_id own = Some ''m'' \<and>
     (\<exists>row. claims_seat (ex_catalog [''m'']) (ex_doc ''master.json'') RoleManager row \<and> seat_id row = ''m'')"
proof -
  have own: "current_occupant (ex_catalog [''m'']) (ex_doc ''master.json'') RoleManager =
      Inr \<lparr>ro_role = Some RoleManager, ro_task_document_ref = Some (ex_doc ''master.json''),
           ro_agent_id = Some ''m'', ro_lifecycle_id = Some ''L''\<rparr>"
    by (simp add: current_occupant_def seat_candidates_def primary_claims_def ex_catalog_def ex_seat_def Let_def)
  with occupant_never_guessed [OF own] show ?thesis by auto
qed

subsection \<open>Identifiers and the served ledger\<close>

text \<open>
  Claim C39: ULIDs. An identifier has 26 characters of the Crockford alphabet, and one minted at an earlier millisecond is
  smaller as a string than one minted later, whatever the random bytes; this holds while the later clock reading is
  below two to the fiftieth.
\<close>

theorem ulid_orders_by_time:
  assumes "length random = 10" and "length random' = 10" and "millis < millis'" and "millis' < 2 ^ 50"
  shows "new_ulid millis random < new_ulid millis' random' \<and>
    length (new_ulid millis random) = 26 \<and> set (new_ulid millis random) \<subseteq> set CROCKFORD"
proof -
  have bound: "from_bytes_big random < 2 ^ 80" "from_bytes_big random' < 2 ^ 80"
    using from_bytes_bound [of random] from_bytes_bound [of random'] assms(1,2) by simp_all
  have "Suc millis * 2 ^ 80 \<le> millis' * 2 ^ 80" using assms(3) by (intro mult_le_mono1) simp
  with bound(1) have lt: "millis * 2 ^ 80 + from_bytes_big random < millis' * 2 ^ 80 + from_bytes_big random'"
    by simp
  have "Suc millis' * 2 ^ 80 \<le> 2 ^ 50 * 2 ^ 80" using assms(4) by (intro mult_le_mono1) simp
  with bound(2) have "millis' * 2 ^ 80 + from_bytes_big random' < 32 ^ 26" by simp
  from ulid_chars_mono [OF lt this] ulid_chars_alphabet assms(1,2) show ?thesis by (simp add: new_ulid_value)
qed

theorem ulid_orders_by_time_witness:
  "new_ulid 1 (replicate 10 255) < new_ulid 2 (replicate 10 0) \<and> length (new_ulid 1 (replicate 10 255)) = 26"
  using ulid_orders_by_time [of "replicate 10 255" "replicate 10 0" 1 2] by simp

text \<open>
  The served ledger is a write-through cache. While the cached sets agree with the logs, a query answers what the
  log says; recording a serve makes exactly the queries with its key true, for its lifecycle only; resetting a lifecycle
  makes every query of it false and leaves the others; dropping a cached set changes no answer; and the agreement is
  kept by all of them.
\<close>

theorem served_ledger_write_through:
  assumes "ledger_ok w"
  shows "(fst (is_served l k p h w) \<longleftrightarrow> served_key k p h \<in> served_set l (sl_files w)) \<and>
    (fst (is_served l k p h (served_record_call l' k' p' h' ts w)) \<longleftrightarrow>
       fst (is_served l k p h w) \<or> (l = l' \<and> served_key k p h = served_key k' p' h')) \<and>
    (fst (is_served l k p h (served_reset l' w)) \<longleftrightarrow> l \<noteq> l' \<and> fst (is_served l k p h w)) \<and>
    (fst (is_served l k p h (served_forget l' w)) \<longleftrightarrow> fst (is_served l k p h w)) \<and>
    ledger_ok (snd (is_served l k p h w)) \<and> ledger_ok (served_record_call l' k' p' h' ts w) \<and>
    ledger_ok (served_reset l' w) \<and> ledger_ok (served_forget l' w)"
proof -
  note rec = served_record_ok [OF assms, of l' k' p' h' ts]
  have other: "served_set l (sl_files (served_record_call l' k' p' h' ts w)) =
      (if l = l' then insert (served_key k' p' h') (served_set l (sl_files w)) else served_set l (sl_files w))"
    using rec(2) by (cases "l = l'") (simp_all add: served_record_other)
  have "served_set l (sl_files (served_reset l' w)) = (if l = l' then {} else served_set l (sl_files w))"
    using served_set_reset served_set_reset_other by simp
  moreover have "sl_files (served_forget l' w) = sl_files w" by (simp add: served_forget_def)
  ultimately show ?thesis
    using is_served_correct [OF assms] is_served_correct(1) [OF rec(1)] is_served_correct(1) [OF served_reset_ok [OF assms]]
      is_served_correct(1) [OF served_forget_ok [OF assms]] other served_reset_ok [OF assms] served_forget_ok [OF assms] rec(1)
    by auto
qed

theorem served_ledger_write_through_witness:
  "fst (is_served ''L'' ''note'' ''p'' ''h''
     (served_record_call ''L'' ''note'' ''p'' ''h'' ''1'' \<lparr>sl_sets = [], sl_files = \<lparr>of_workspace = None, of_lifecycles = []\<rparr>\<rparr>))"
proof -
  have "ledger_ok \<lparr>sl_sets = [], sl_files = \<lparr>of_workspace = None, of_lifecycles = []\<rparr>\<rparr>" by (simp add: ledger_ok_def)
  from served_ledger_write_through [OF this, of "''L''" "''note''" "''p''" "''h''" "''L''" "''note''" "''p''" "''h''" "''1''"]
  show ?thesis by blast
qed

subsection \<open>The ambient lifecycle\<close>

text \<open>
  Claim C40: the ambient invariant. Whatever sequence of signals and heartbeats a session receives, starting with no
  lifecycle and empty logs, the lifecycle it holds is running, blocked or awaiting the developer, the ticker runs only while
  one is held, and every event in a lifecycle's log carries that lifecycle's id.
\<close>

theorem ambient_invariant:
  assumes "(amb_step env)\<^sup>*\<^sup>* a0 a" and "amb_current a0 = None" and "\<not> amb_ticking a0"
    and "amb_files a0 = \<lparr>of_workspace = None, of_lifecycles = []\<rparr>"
  shows "(\<forall>c. amb_current a = Some c \<longrightarrow> lc_state c \<in> {Running, Blocked, AwaitingDeveloper}) \<and>
    (amb_ticking a \<longrightarrow> amb_current a \<noteq> None) \<and>
    (\<forall>l ev. l \<noteq> '''' \<and> ev \<in> set (read_log (Some l) (amb_files a)) \<longrightarrow> e_lifecycleId ev = Some l)"
proof -
  have "amb_inv a0"
    using assms(2-4) by (simp add: amb_inv_def attributed_def read_log_def dir_of_def empty_dir_def read_tolerant_def
        read_log_text_def)
  from ambient_machine.run_keeps [OF assms(1) this]
  show ?thesis by (simp add: amb_inv_def attributed_def held_states_def)
qed

definition ex_amb_env :: ambient_env where
  "ex_amb_env = \<lparr>env_codec = micro_codec, env_clock = int, env_mint = (\<lambda>n. CHR ''e'' # show_digits n), env_ttl_seconds = 60,
     env_inactivity_cutoff_seconds = 600\<rparr>"

definition ex_amb :: ambient where
  "ex_amb = \<lparr>amb_current = None, amb_last_activity = None, amb_ticking = False, amb_served = [],
     amb_files = \<lparr>of_workspace = None, of_lifecycles = []\<rparr>, amb_reads = 0, amb_minted = 0\<rparr>"

theorem ambient_invariant_witness:
  "\<exists>a. (amb_step ex_amb_env)\<^sup>*\<^sup>* ex_amb a \<and> amb_current a \<noteq> None \<and>
     (\<forall>c. amb_current a = Some c \<longrightarrow> lc_state c \<in> {Running, Blocked, AwaitingDeveloper})"
proof -
  let ?a = "snd (amb_start ex_amb_env True PRequest ex_amb)"
  have run: "(amb_step ex_amb_env)\<^sup>*\<^sup>* ex_amb ?a" by (blast intro: step_start)
  obtain c b where b: "fresh_lifecycle ex_amb_env True PRequest ex_amb = (Inr c, b)" "amb_current b = Some c"
    by (simp add: ex_amb_def fresh_lifecycle_def Let_def sret_def)
  have "?a = snd (reap_stale_fleeting ex_amb_env b)"
  proof -
    have "amb_current ex_amb = None" by (simp add: ex_amb_def)
    with b(1) show ?thesis
      by (simp add: amb_start_def sbind_sget sbind_def [of "fresh_lifecycle ex_amb_env True PRequest"] sbind_reap)
  qed
  then have "amb_current ?a \<noteq> None" using b(2) by (simp add: reap_frame)
  with run ambient_invariant [OF run] show ?thesis by (auto simp: ex_amb_def)
qed

text \<open>
  The save gate. Switching away from a lifecycle, or attaching to another one, while a fleeting one is held and
  without saying what to do with it, is refused and changes nothing at all.
\<close>

theorem save_gate_blocks:
  assumes "amb_current a = Some c" and "lc_fleeting c" and "lc_id c \<noteq> l"
  shows "\<exists>e. amb_switch env None fl ph a = (Inl e, a) \<and> amb_attach env l enc rep None ph a = (Inl e, a)"
proof -
  have "leave_current env None a = (Inl (SaveGateRequired (lc_id c)), a)"
    using assms by (simp add: leave_current_def sbind_sget slift_def)
  with assms show ?thesis
    by (simp add: amb_switch_def amb_attach_def attach_other_def sbind_sget sbind_def [of "leave_current env None"])
qed

theorem save_gate_blocks_witness:
  "\<exists>a e. amb_current a \<noteq> None \<and> amb_switch ex_amb_env None False PBuild a = (Inl e, a)"
proof -
  let ?a = "ex_amb\<lparr>amb_current := Some \<lparr>lc_id = ''L'', lc_state = Running, lc_phase = PRequest, lc_fleeting = True,
    lc_started_at = ''1'', lc_enclosure = None, lc_repo_id = None, lc_scope = None\<rparr>\<rparr>"
  have "\<exists>e. amb_switch ex_amb_env None False PBuild ?a = (Inl e, ?a)"
    using save_gate_blocks [of ?a _ "''M''" ex_amb_env False PBuild "''x''" None] by auto
  then show ?thesis by (intro exI [of _ ?a]) auto
qed

end
