(* ===== verification/Projection.thy ===== *)
theory Projection
  imports Lifecycle Gate_Records "HOL-Library.Sublist"
begin

section \<open>The observer's reducer\<close>

text \<open>
  \<^verbatim>\<open>observer/reducer.py\<close> with the token series of \<^verbatim>\<open>observer/reducer_impl/_metrics.py\<close> and the records of
  \<^verbatim>\<open>observer/projection.py\<close> they fill: one lifecycle's event log folded into what the dashboard shows, and the lifecycles of a
  workspace assembled from the logs and the worktree enclosures. The fold raises where \<^verbatim>\<open>coerce_phase\<close> does. Payload values stay
  JSON, since \<^verbatim>\<open>model_copy\<close> does not validate. The operation projection an enclosure carries is not read here and left out.
\<close>

record action_availability =
  aa_action :: string
  aa_enabled :: bool
  aa_disabledReason :: "string option"
  aa_nextSafeAction :: "string option"

record token_sample =
  tk_ts :: string
  tk_cumulative :: int

record gate_node =
  gn_id :: string
  gn_kind :: gate_kind
  gn_state :: gate_state
  gn_decidedBy :: "string option"
  gn_decidedVia :: "decided_via option"
  gn_evidenceRefs :: "gate_evidence_ref list"
  gn_decisions :: "string list"
  gn_packet :: "(string \<times> json) list"
  gn_ts :: string

record lifecycle_projection =
  pj_id :: string
  pj_state :: lc_state
  pj_phase :: phase
  pj_fleeting :: bool
  pj_enclosure :: "string option"
  pj_repoId :: "string option"
  pj_scope :: json
  pj_tokens :: int
  pj_startedAt :: string
  pj_lastEventTs :: string
  pj_stateEnteredAt :: string
  pj_staleSeconds :: "seconds option"
  pj_inferred :: bool
  pj_ask :: json
  pj_gate :: "gate_node option"
  pj_actions :: "action_availability list"
  pj_tokenSeries :: "token_sample list"

record enclosure_node =
  en_enclosure :: string
  en_enclosureId :: string
  en_leafId :: string
  en_taskId :: string
  en_taskName :: string
  en_repoName :: string
  en_taskRoot :: string
  en_lifecycleId :: string
  en_worktreeGroup :: string
  en_humanReviewStatus :: string
  en_closeoutStatus :: string
  en_integrationStatus :: string
  en_cleanup :: string
  en_codeWorktreeExists :: bool
  en_memoryWorktreeExists :: bool
  en_actions :: "action_availability list"

definition STALE_AFTER_SECONDS :: seconds where
  "STALE_AFTER_SECONDS = 180"

definition TTL_SECONDS :: seconds where
  "TTL_SECONDS = 3600"

definition INITIAL_PHASE :: phase where
  "INITIAL_PHASE = PRequest"

definition data_get :: "event \<Rightarrow> string \<Rightarrow> json" where
  "data_get ev k = (case dget (e_data ev) k of None \<Rightarrow> JNull | Some v \<Rightarrow> v)"

text \<open>
  \<^verbatim>\<open>coerce_phase(str(data.get("phase", default)))\<close>: the text of a value that is not a string is never the name of a phase.
\<close>

definition phase_of_data :: "event \<Rightarrow> phase \<Rightarrow> phase res" where
  "phase_of_data ev fallback =
     (case dget (e_data ev) ''phase'' of
        None \<Rightarrow> Inr fallback
      | Some (JStr s) \<Rightarrow> coerce_phase s
      | Some _ \<Rightarrow> Inl (LifecycleError ''unknown phase''))"

subsection \<open>Token series\<close>

definition TOKEN_SERIES_MAX :: nat where
  "TOKEN_SERIES_MAX = 512"

definition TOKEN_SERIES_RECENT :: nat where
  "TOKEN_SERIES_RECENT = 256"

text \<open>
  The budget is 256, a power of two: the quotient and the products are exact in a float, so \<^verbatim>\<open>int(index * step)\<close> is the integer
  quotient below.
\<close>

definition decimate_token_series :: "token_sample list \<Rightarrow> token_sample list" where
  "decimate_token_series samples =
     (if length samples \<le> TOKEN_SERIES_MAX then samples
      else let history = take (length samples - TOKEN_SERIES_RECENT) samples;
               budget = TOKEN_SERIES_MAX - TOKEN_SERIES_RECENT
           in map (\<lambda>index. history ! (index * length history div budget)) [0..<budget] @
              drop (length samples - TOKEN_SERIES_RECENT) samples)"

text \<open>\<^verbatim>\<open>isinstance(tokens, int)\<close> holds for a bool.\<close>

fun int_tokens :: "json \<Rightarrow> int option" where
  "int_tokens (JNum n) = Some n"
| "int_tokens (JBool b) = Some (if b then 1 else 0)"
| "int_tokens _ = None"

fun token_samples :: "event list \<Rightarrow> int \<Rightarrow> token_sample list" where
  "token_samples [] spent = []"
| "token_samples (ev # evs) spent =
     (if e_kind ev \<noteq> ''tool.completed'' then token_samples evs spent
      else case int_tokens (data_get ev ''tokens'') of
             None \<Rightarrow> token_samples evs spent
           | Some n \<Rightarrow> \<lparr>tk_ts = e_ts ev, tk_cumulative = spent + n\<rparr> # token_samples evs (spent + n))"

definition token_series :: "event list \<Rightarrow> token_sample list" where
  "token_series events = decimate_token_series (token_samples events 0)"

subsection \<open>The fold\<close>

definition seed_from_started :: "event \<Rightarrow> lifecycle_projection res" where
  "seed_from_started ev =
     rbind (phase_of_data ev INITIAL_PHASE) (\<lambda>ph. Inr
       \<lparr>pj_id = (case e_lifecycleId ev of None \<Rightarrow> '''' | Some l \<Rightarrow> l), pj_state = Running, pj_phase = ph,
        pj_fleeting = (case dget (e_data ev) ''fleeting'' of None \<Rightarrow> True | Some v \<Rightarrow> json_truthy v),
        pj_enclosure = e_enclosure ev, pj_repoId = e_repoId ev, pj_scope = JNull, pj_tokens = 0,
        pj_startedAt = e_ts ev, pj_lastEventTs = e_ts ev, pj_stateEnteredAt = e_ts ev, pj_staleSeconds = None,
        pj_inferred = False, pj_ask = JNull, pj_gate = None, pj_actions = [], pj_tokenSeries = []\<rparr>)"

definition promoted_updates :: "lifecycle_projection \<Rightarrow> event \<Rightarrow> lifecycle_projection" where
  "promoted_updates p ev =
     p\<lparr>pj_fleeting := False, pj_scope := data_get ev ''scope'',
       pj_enclosure := (case e_enclosure ev of None \<Rightarrow> pj_enclosure p | Some e \<Rightarrow> Some e),
       pj_repoId := (case e_repoId ev of None \<Rightarrow> pj_repoId p | Some r \<Rightarrow> Some r)\<rparr>"

definition ended_updates :: "lifecycle_projection \<Rightarrow> event \<Rightarrow> lifecycle_projection" where
  "ended_updates p ev =
     p\<lparr>pj_state := coerce_end_outcome (case data_get ev ''outcome'' of JStr s \<Rightarrow> Some s | _ \<Rightarrow> None)\<rparr>"

definition awaiting_developer_updates :: "lifecycle_projection \<Rightarrow> event \<Rightarrow> lifecycle_projection" where
  "awaiting_developer_updates p ev =
     p\<lparr>pj_state := AwaitingDeveloper,
       pj_ask := (case data_get ev ''summary'' of JNull \<Rightarrow> JNull | summary \<Rightarrow> JObj [(''summary'', summary)])\<rparr>"

definition tool_completed_updates :: "lifecycle_projection \<Rightarrow> event \<Rightarrow> lifecycle_projection" where
  "tool_completed_updates p ev =
     (case int_tokens (data_get ev ''tokens'') of None \<Rightarrow> p | Some n \<Rightarrow> p\<lparr>pj_tokens := pj_tokens p + n\<rparr>)"

definition apply_kind :: "lifecycle_projection \<Rightarrow> event \<Rightarrow> lifecycle_projection res" where
  "apply_kind p ev =
     (if e_kind ev = ''lifecycle.phase-changed'' then rbind (phase_of_data ev (pj_phase p)) (\<lambda>ph. Inr (p\<lparr>pj_phase := ph\<rparr>))
      else if e_kind ev = ''lifecycle.blocked'' then Inr (p\<lparr>pj_state := Blocked, pj_ask := data_get ev ''ask''\<rparr>)
      else if e_kind ev = ''lifecycle.awaiting-developer'' then Inr (awaiting_developer_updates p ev)
      else if e_kind ev = ''lifecycle.resumed'' then Inr (p\<lparr>pj_state := Running, pj_ask := JNull\<rparr>)
      else if e_kind ev = ''lifecycle.paused'' then Inr (p\<lparr>pj_state := Paused\<rparr>)
      else if e_kind ev = ''lifecycle.promoted'' then Inr (promoted_updates p ev)
      else if e_kind ev = ''lifecycle.ended'' then Inr (ended_updates p ev)
      else if e_kind ev = ''tool.completed'' then Inr (tool_completed_updates p ev)
      else Inr p)"

definition STATES :: "lc_state list" where
  "STATES = LIVE_STATES @ TERMINAL_STATES"

definition state_of_str :: "string \<Rightarrow> lc_state option" where
  "state_of_str s = find (\<lambda>st. lc_state_str st = s) STATES"

definition index_correction :: "(string, lc_state) dict \<Rightarrow> event \<Rightarrow> (string, lc_state) dict" where
  "index_correction index ev =
     (if e_kind ev \<noteq> ''correction.recorded'' then index
      else case (data_get ev ''corrects'', data_get ev ''state'') of
             (JStr corrected, JStr new_state) \<Rightarrow>
               (case state_of_str new_state of None \<Rightarrow> index | Some st \<Rightarrow> dput corrected st index)
           | _ \<Rightarrow> index)"

definition index_corrections :: "event list \<Rightarrow> (string, lc_state) dict" where
  "index_corrections events = foldl index_correction [] events"

definition project_step ::
  "(string, lc_state) dict \<Rightarrow> lifecycle_projection \<Rightarrow> event \<Rightarrow> lifecycle_projection res" where
  "project_step corrections p ev =
     (if e_kind ev = ''correction.recorded'' then Inr p
      else rbind (apply_kind p ev) (\<lambda>p1.
        let p2 = (case dget corrections (e_id ev) of None \<Rightarrow> p1 | Some st \<Rightarrow> p1\<lparr>pj_state := st\<rparr>)
        in Inr (if pj_state p2 \<noteq> pj_state p then p2\<lparr>pj_stateEnteredAt := e_ts ev\<rparr> else p2)))"

fun project_fold ::
  "(string, lc_state) dict \<Rightarrow> lifecycle_projection \<Rightarrow> event list \<Rightarrow> lifecycle_projection res" where
  "project_fold corrections p [] = Inr p"
| "project_fold corrections p (ev # evs) = rbind (project_step corrections p ev) (\<lambda>p'. project_fold corrections p' evs)"

definition project_inferred :: "iso_codec \<Rightarrow> lifecycle_projection \<Rightarrow> event list \<Rightarrow> clock \<Rightarrow> lifecycle_projection" where
  "project_inferred c p events now =
     (let age = age_seconds c (e_ts (last events)) now; p = p\<lparr>pj_staleSeconds := age\<rparr> in
      case age of
        None \<Rightarrow> p
      | Some a \<Rightarrow>
          if pj_state p \<in> set TERMINAL_STATES then p
          else if pj_fleeting p \<and> TTL_SECONDS < a then p\<lparr>pj_state := Abandoned, pj_inferred := True\<rparr>
          else if pj_state p = Running \<and> STALE_AFTER_SECONDS < a then p\<lparr>pj_state := Paused, pj_inferred := True\<rparr>
          else p)"

definition lifecycle_actions :: "lifecycle_projection \<Rightarrow> action_availability list" where
  "lifecycle_actions p =
     (let blocked = pj_state p = Blocked
      in [\<lparr>aa_action = ''resume'', aa_enabled = blocked,
           aa_disabledReason = (if blocked then None else Some ''lifecycle is not blocked''),
           aa_nextSafeAction = (if blocked then None else Some ''resume becomes safe once the gate is resolved'')\<rparr>])"

definition project_lifecycle :: "iso_codec \<Rightarrow> event list \<Rightarrow> clock \<Rightarrow> lifecycle_projection res" where
  "project_lifecycle c events now =
     (case events of
        [] \<Rightarrow> Inl (ValueError ''cannot project an empty event log'')
      | started # rest \<Rightarrow>
          rbind (seed_from_started started) (\<lambda>p0.
          rbind (project_fold (index_corrections events) p0 rest) (\<lambda>p.
            let p1 = project_inferred c (p\<lparr>pj_lastEventTs := e_ts (last events)\<rparr>) events now
            in Inr (p1\<lparr>pj_actions := lifecycle_actions p1, pj_tokenSeries := token_series events\<rparr>))))"

subsection \<open>The lifecycles of a workspace\<close>

definition missing_enclosure_is_still_materializing :: "lifecycle_projection \<Rightarrow> bool" where
  "missing_enclosure_is_still_materializing p \<longleftrightarrow>
     pj_state p \<notin> set TERMINAL_STATES \<and> \<not> pj_inferred p \<and>
     (case pj_staleSeconds p of None \<Rightarrow> False | Some a \<Rightarrow> a \<le> STALE_AFTER_SECONDS)"

definition event_backed_lifecycle_is_current ::
  "lifecycle_projection \<Rightarrow> (string, enclosure_node) dict \<Rightarrow> bool" where
  "event_backed_lifecycle_is_current p enclosures \<longleftrightarrow>
     (if pj_fleeting p then True
      else if \<not> truthy (pj_enclosure p) then missing_enclosure_is_still_materializing p
      else case dget enclosures (the (pj_enclosure p)) of
             None \<Rightarrow> missing_enclosure_is_still_materializing p
           | Some enclosure \<Rightarrow> en_lifecycleId enclosure = '''' \<or> en_lifecycleId enclosure = pj_id p)"

definition current_event_backed_lifecycles ::
  "enclosure_node list \<Rightarrow> lifecycle_projection list \<Rightarrow> lifecycle_projection list" where
  "current_event_backed_lifecycles enclosures lifecycles =
     (let by_enclosure = fold_by en_enclosure enclosures
      in filter (\<lambda>p. event_backed_lifecycle_is_current p by_enclosure) lifecycles)"

definition terminalize_abandoned_anchor_lifecycles ::
  "enclosure_node list \<Rightarrow> lifecycle_projection list \<Rightarrow> lifecycle_projection list" where
  "terminalize_abandoned_anchor_lifecycles enclosures lifecycles =
     (let abandoned_anchors = map en_enclosure (filter (\<lambda>e. en_cleanup e = ''abandoned'') enclosures) in
      if abandoned_anchors = [] then lifecycles
      else map (\<lambda>p. if \<not> pj_fleeting p \<and> pj_enclosure p \<in> Some ` set abandoned_anchors \<and> pj_state p \<notin> set TERMINAL_STATES
                    then p\<lparr>pj_state := Abandoned\<rparr> else p) lifecycles)"

definition persistent_from_enclosure :: "enclosure_node \<Rightarrow> lifecycle_projection" where
  "persistent_from_enclosure e =
     (let closed = (en_closeoutStatus e = ''completed'' \<or> en_integrationStatus e = ''completed'');
          p = \<lparr>pj_id = (if en_lifecycleId e \<noteq> '''' then en_lifecycleId e else en_repoName e @ ''/'' @ en_taskName e),
               pj_state = Paused, pj_phase = (if closed then PClose else PBuild), pj_fleeting = False,
               pj_enclosure = Some (en_enclosure e), pj_repoId = Some (en_repoName e), pj_scope = JNull, pj_tokens = 0,
               pj_startedAt = '''', pj_lastEventTs = '''', pj_stateEnteredAt = '''', pj_staleSeconds = None,
               pj_inferred = True, pj_ask = JNull, pj_gate = None, pj_actions = [], pj_tokenSeries = []\<rparr>
      in p\<lparr>pj_actions := lifecycle_actions p\<rparr>)"

definition worktree_backed :: "enclosure_node \<Rightarrow> bool" where
  "worktree_backed e \<longleftrightarrow> en_cleanup e \<notin> {''abandoned'', ''reopened''}"

definition persistent_lifecycles ::
  "enclosure_node list \<Rightarrow> lifecycle_projection list \<Rightarrow> lifecycle_projection list" where
  "persistent_lifecycles enclosures event_backed =
     (let known_ids = set (map pj_id event_backed);
          known_enclosures = set (map (\<lambda>p. the (pj_enclosure p)) (filter (\<lambda>p. truthy (pj_enclosure p)) event_backed))
      in map persistent_from_enclosure
           (filter (\<lambda>e. \<not> (en_lifecycleId e \<noteq> '''' \<and> en_lifecycleId e \<in> known_ids) \<and>
                        en_enclosure e \<notin> known_enclosures \<and> worktree_backed e) enclosures))"

definition make_gate_node :: "gate_record \<Rightarrow> gate_node" where
  "make_gate_node g =
     \<lparr>gn_id = g_id g, gn_kind = g_kind g, gn_state = g_state g, gn_decidedBy = g_decidedBy g, gn_decidedVia = g_decidedVia g,
      gn_evidenceRefs = g_evidenceRefs g, gn_decisions = (if g_state g = Open then sort (map fst DECISION_STATES) else []),
      gn_packet = g_packet g, gn_ts = g_ts g\<rparr>"

definition attach_gate :: "gate_record list \<Rightarrow> lifecycle_projection \<Rightarrow> lifecycle_projection" where
  "attach_gate gates p =
     (case max_by g_ts (filter (\<lambda>g. g_state g = Open)
             (filter (\<lambda>g. (case g_lifecycleId g of None \<Rightarrow> '''' | Some l \<Rightarrow> l) = pj_id p) gates)) of
        None \<Rightarrow> p
      | Some latest \<Rightarrow> p\<lparr>pj_gate := Some (make_gate_node latest)\<rparr>)"

definition integrate_action :: "enclosure_node \<Rightarrow> action_availability" where
  "integrate_action e =
     (if en_closeoutStatus e \<noteq> ''completed''
      then \<lparr>aa_action = ''integrate'', aa_enabled = False, aa_disabledReason = Some ''closeout not complete'',
            aa_nextSafeAction = Some ''run worktree_closeout_preview then apply''\<rparr>
      else if en_integrationStatus e \<noteq> ''not-started''
      then \<lparr>aa_action = ''integrate'', aa_enabled = False,
            aa_disabledReason = Some (''integration already '' @ en_integrationStatus e), aa_nextSafeAction = None\<rparr>
      else \<lparr>aa_action = ''integrate'', aa_enabled = True, aa_disabledReason = None, aa_nextSafeAction = None\<rparr>)"

definition cleanup_action :: "enclosure_node \<Rightarrow> action_availability" where
  "cleanup_action e =
     (if en_integrationStatus e \<noteq> ''completed''
      then \<lparr>aa_action = ''cleanup'', aa_enabled = False, aa_disabledReason = Some ''integration not complete'',
            aa_nextSafeAction = Some ''integrate first''\<rparr>
      else if en_cleanup e \<noteq> ''pending''
      then \<lparr>aa_action = ''cleanup'', aa_enabled = False, aa_disabledReason = Some (''already '' @ en_cleanup e),
            aa_nextSafeAction = None\<rparr>
      else \<lparr>aa_action = ''cleanup'', aa_enabled = True, aa_disabledReason = None, aa_nextSafeAction = None\<rparr>)"

definition enclosure_actions :: "enclosure_node \<Rightarrow> action_availability list" where
  "enclosure_actions e = [integrate_action e, cleanup_action e]"

definition project_logs :: "iso_codec \<Rightarrow> event list list \<Rightarrow> clock \<Rightarrow> lifecycle_projection list res" where
  "project_logs c logs now = rmap (\<lambda>log. project_lifecycle c log now) (filter (\<lambda>log. log \<noteq> []) logs)"

text \<open>The lifecycles and enclosures of \<^verbatim>\<open>project_workspace\<close>, up to the attached gates.\<close>

definition workspace_lifecycles ::
  "enclosure_node list \<Rightarrow> gate_record list \<Rightarrow> lifecycle_projection list \<Rightarrow> lifecycle_projection list" where
  "workspace_lifecycles enriched gates lifecycles =
     (let current = terminalize_abandoned_anchor_lifecycles enriched (current_event_backed_lifecycles enriched lifecycles)
      in map (attach_gate gates) (current @ persistent_lifecycles enriched current))"

definition project_workspace ::
  "iso_codec \<Rightarrow> event list list \<Rightarrow> enclosure_node list \<Rightarrow> gate_record list \<Rightarrow> clock \<Rightarrow>
   (lifecycle_projection list \<times> enclosure_node list) res" where
  "project_workspace c logs enclosures gates now =
     rbind (project_logs c logs now) (\<lambda>lifecycles.
       let enriched = map (\<lambda>e. e\<lparr>en_actions := enclosure_actions e\<rparr>) enclosures
       in Inr (workspace_lifecycles enriched gates lifecycles, enriched))"

subsection \<open>The token series\<close>

lemma subseq_indices:
  "sorted_wrt (<) idx \<Longrightarrow> \<forall>i\<in>set idx. i < length xs \<Longrightarrow> subseq (map ((!) xs) idx) xs"
proof (induction idx arbitrary: xs rule: rev_induct)
  case (snoc i idx)
  then have i: "i < length xs" "\<forall>j\<in>set idx. j < i" by (auto simp: sorted_wrt_append)
  have "map ((!) xs) idx = map ((!) (take i xs)) idx" using i by simp
  moreover have "subseq (map ((!) (take i xs)) idx) (take i xs)"
    using snoc i by (intro snoc.IH) (auto simp: sorted_wrt_append)
  ultimately have "subseq (map ((!) xs) idx) (take i xs)" by (simp only:)
  moreover have "subseq [xs ! i] (drop i xs)" using i(1) by (simp add: Cons_nth_drop_Suc [symmetric])
  ultimately have "subseq (map ((!) xs) idx @ [xs ! i]) (take i xs @ drop i xs)" by (rule list_emb_append_mono)
  then show ?case by simp
qed simp

lemma thinned_indices:
  assumes "256 < n"
  shows "sorted_wrt (<) (map (\<lambda>index. index * n div 256) [0..<256])" and "index < 256 \<Longrightarrow> index * n div 256 < n"
proof -
  have "i * n div 256 < j * n div 256" if "i < j" for i j :: nat
  proof -
    have "Suc i * n \<le> j * n" using that by (intro mult_le_mono1) simp
    with assms have "i * n + 256 \<le> j * n" by simp
    then have "(i * n + 256) div 256 \<le> j * n div 256" by (rule div_le_mono)
    then show ?thesis by simp
  qed
  then show "sorted_wrt (<) (map (\<lambda>index. index * n div 256) [0..<256])"
    unfolding sorted_wrt_map by (rule sorted_wrt_mono_rel [rotated, OF sorted_wrt_upt]) 
  show "index < 256 \<Longrightarrow> index * n div 256 < n" using assms
    by (metis less_mult_imp_div_less mult.commute mult_less_mono1 gr0I not_less_zero)
qed

lemma decimate_bound: "length (decimate_token_series samples) \<le> TOKEN_SERIES_MAX"
  by (simp add: decimate_token_series_def TOKEN_SERIES_MAX_def TOKEN_SERIES_RECENT_def Let_def)

lemma decimate_subseq: "subseq (decimate_token_series samples) samples"
proof (cases "length samples \<le> 512")
  case True
  then show ?thesis by (simp add: decimate_token_series_def TOKEN_SERIES_MAX_def)
next
  case False
  let ?n = "length samples - 256"
  let ?h = "take ?n samples"
  have n: "256 < ?n" "length ?h = ?n" using False by simp_all
  have "subseq (map ((!) ?h) (map (\<lambda>index. index * ?n div 256) [0..<256])) ?h"
    using thinned_indices [OF n(1)] n(2) by (intro subseq_indices) auto
  then have "subseq (map ((!) ?h) (map (\<lambda>index. index * ?n div 256) [0..<256]) @ drop ?n samples) (?h @ drop ?n samples)"
    by (rule list_emb_append_mono) simp
  then have "subseq (map ((!) ?h) (map (\<lambda>index. index * ?n div 256) [0..<256]) @ drop ?n samples) samples"
    by (simp only: append_take_drop_id)
  then show ?thesis
    using False n by (simp add: decimate_token_series_def TOKEN_SERIES_MAX_def TOKEN_SERIES_RECENT_def Let_def o_def)
qed

lemma decimate_recent:
  "drop (length (decimate_token_series samples) - TOKEN_SERIES_RECENT) (decimate_token_series samples) =
   drop (length samples - TOKEN_SERIES_RECENT) samples"
  by (simp add: decimate_token_series_def TOKEN_SERIES_MAX_def TOKEN_SERIES_RECENT_def Let_def)

lemma token_samples_append:
  "token_samples (xs @ ys) n = token_samples xs n @ token_samples ys (if token_samples xs n = [] then n else tk_cumulative (last (token_samples xs n)))"
  by (induction xs arbitrary: n) (auto split: option.splits)

text \<open>The tokens a log reports, and that the gauge and the running total both show them.\<close>

definition event_tokens :: "event \<Rightarrow> int" where
  "event_tokens ev =
     (if e_kind ev = ''tool.completed'' then (case int_tokens (data_get ev ''tokens'') of None \<Rightarrow> 0 | Some n \<Rightarrow> n) else 0)"

lemma token_samples_end:
  "(if token_samples evs n = [] then n else tk_cumulative (last (token_samples evs n))) = n + sum_list (map event_tokens evs)"
proof (induction evs arbitrary: n)
  case (Cons ev evs)
  show ?case
  proof (cases "int_tokens (data_get ev ''tokens'')")
    case None
    then have "event_tokens ev = 0" by (simp add: event_tokens_def)
    with None Cons.IH [of n] show ?thesis by (auto split: if_splits)
  next
    case (Some k)
    then have "event_tokens ev = (if e_kind ev = ''tool.completed'' then k else 0)" by (simp add: event_tokens_def)
    with Some Cons.IH [of n] Cons.IH [of "n + k"] show ?thesis by (auto split: if_splits)
  qed
qed simp

lemma decimate_last: "samples \<noteq> [] \<Longrightarrow> decimate_token_series samples \<noteq> [] \<and> last (decimate_token_series samples) = last samples"
  by (auto simp: decimate_token_series_def TOKEN_SERIES_MAX_def TOKEN_SERIES_RECENT_def Let_def last_append)

lemma token_series_end: "token_series evs \<noteq> [] \<Longrightarrow> tk_cumulative (last (token_series evs)) = sum_list (map event_tokens evs)"
  using token_samples_end [of evs 0] decimate_last [of "token_samples evs 0"]
  by (cases "token_samples evs 0 = []") (auto simp: token_series_def decimate_token_series_def)

lemma apply_kind_tokens: "apply_kind p ev = Inr q \<Longrightarrow> pj_tokens q = pj_tokens p + event_tokens ev"
  by (auto simp: apply_kind_def event_tokens_def rbind_eq_Inr awaiting_developer_updates_def promoted_updates_def ended_updates_def
      tool_completed_updates_def split: if_splits option.splits)

lemma project_fold_tokens: "project_fold ix p evs = Inr q \<Longrightarrow> pj_tokens q = pj_tokens p + sum_list (map event_tokens evs)"
proof (induction evs arbitrary: p)
  case (Cons ev evs)
  then obtain p1 where p1: "project_step ix p ev = Inr p1" "project_fold ix p1 evs = Inr q" by (auto simp: rbind_eq_Inr)
  have "pj_tokens p1 = pj_tokens p + event_tokens ev"
  proof (cases "e_kind ev = ''correction.recorded''")
    case True
    with p1 show ?thesis by (simp add: project_step_def event_tokens_def)
  next
    case False
    with p1(1) obtain q1 where "apply_kind p ev = Inr q1" "pj_tokens p1 = pj_tokens q1"
      by (auto simp: project_step_def Let_def rbind_eq_Inr split: option.splits)
    then show ?thesis by (simp add: apply_kind_tokens)
  qed
  with Cons.IH [OF p1(2)] show ?case by simp
qed simp

lemma project_inferred_tokens [simp]: "pj_tokens (project_inferred c p evs now) = pj_tokens p"
  by (simp add: project_inferred_def Let_def split: option.split)

lemma project_lifecycle_tokens:
  assumes "project_lifecycle c evs now = Inr p"
  shows "pj_tokenSeries p = token_series evs" "pj_tokens p = sum_list (map event_tokens (tl evs))"
  using assms
  by (auto simp: project_lifecycle_def rbind_eq_Inr Let_def seed_from_started_def project_fold_tokens split: list.splits)

subsection \<open>Enclosures and lifecycles\<close>

lemma attach_gate_frame [simp]:
  "pj_id (attach_gate gates p) = pj_id p" "pj_state (attach_gate gates p) = pj_state p"
  "pj_enclosure (attach_gate gates p) = pj_enclosure p" "pj_fleeting (attach_gate gates p) = pj_fleeting p"
  "pj_actions (attach_gate gates p) = pj_actions p" "pj_inferred (attach_gate gates p) = pj_inferred p"
  by (simp_all add: attach_gate_def split: option.split)

lemma persistent_from_enclosure_fields [simp]:
  "pj_enclosure (persistent_from_enclosure e) = Some (en_enclosure e)" "pj_state (persistent_from_enclosure e) = Paused"
  "pj_fleeting (persistent_from_enclosure e) = False" "pj_inferred (persistent_from_enclosure e)"
  by (simp_all add: persistent_from_enclosure_def Let_def)

lemma persistent_lifecycles_set:
  "set (persistent_lifecycles es ps) = persistent_from_enclosure ` {e \<in> set es.
     \<not> (en_lifecycleId e \<noteq> '''' \<and> en_lifecycleId e \<in> pj_id ` set ps) \<and>
     \<not> (\<exists>p\<in>set ps. truthy (pj_enclosure p) \<and> pj_enclosure p = Some (en_enclosure e)) \<and> worktree_backed e}"
proof -
  have "en_enclosure e \<in> set (map (\<lambda>p. the (pj_enclosure p)) (filter (\<lambda>p. truthy (pj_enclosure p)) ps)) \<longleftrightarrow>
      (\<exists>p\<in>set ps. truthy (pj_enclosure p) \<and> pj_enclosure p = Some (en_enclosure e))" for e
    by (force elim: truthy.elims)
  then show ?thesis by (auto simp: persistent_lifecycles_def Let_def)
qed

lemma terminalize_set:
  "set (terminalize_abandoned_anchor_lifecycles es ps) =
   (\<lambda>p. if \<not> pj_fleeting p \<and> (\<exists>e\<in>set es. en_cleanup e = ''abandoned'' \<and> pj_enclosure p = Some (en_enclosure e)) \<and>
           pj_state p \<notin> set TERMINAL_STATES then p\<lparr>pj_state := Abandoned\<rparr> else p) ` set ps"
proof (cases "filter (\<lambda>e. en_cleanup e = ''abandoned'') es = []")
  case True
  then have no: "(\<exists>e\<in>set es. en_cleanup e = ''abandoned'' \<and> pj_enclosure p = Some (en_enclosure e)) = False" for p
    by (auto simp: filter_empty_conv)
  from True have "terminalize_abandoned_anchor_lifecycles es ps = ps" by (simp add: terminalize_abandoned_anchor_lifecycles_def)
  then show ?thesis unfolding no by simp
next
  case False
  have "pj_enclosure p \<in> Some ` set (map en_enclosure (filter (\<lambda>e. en_cleanup e = ''abandoned'') es)) \<longleftrightarrow>
      (\<exists>e\<in>set es. en_cleanup e = ''abandoned'' \<and> pj_enclosure p = Some (en_enclosure e))" for p :: lifecycle_projection
    by auto
  then show ?thesis
    using False unfolding terminalize_abandoned_anchor_lifecycles_def Let_def by (simp only: map_is_Nil_conv if_False set_map)
qed

lemma workspace_lifecycles_set:
  "set (workspace_lifecycles es gates ps) =
   attach_gate gates ` (set (terminalize_abandoned_anchor_lifecycles es (current_event_backed_lifecycles es ps)) \<union>
     set (persistent_lifecycles es (terminalize_abandoned_anchor_lifecycles es (current_event_backed_lifecycles es ps))))"
  by (simp add: workspace_lifecycles_def Let_def image_Un)

lemma workspace_shows_each:
  assumes "e \<in> set es" "worktree_backed e"
  shows "\<exists>p\<in>set (workspace_lifecycles es gates ps).
    pj_enclosure p = Some (en_enclosure e) \<or> en_lifecycleId e \<noteq> '''' \<and> pj_id p = en_lifecycleId e"
proof -
  let ?cur = "terminalize_abandoned_anchor_lifecycles es (current_event_backed_lifecycles es ps)"
  consider p where "p \<in> set ?cur" "pj_enclosure p = Some (en_enclosure e) \<or> en_lifecycleId e \<noteq> '''' \<and> pj_id p = en_lifecycleId e"
    | "persistent_from_enclosure e \<in> set (persistent_lifecycles es ?cur)"
    using assms unfolding persistent_lifecycles_set by fastforce
  then obtain q where "q \<in> set ?cur \<union> set (persistent_lifecycles es ?cur)"
    "pj_enclosure q = Some (en_enclosure e) \<or> en_lifecycleId e \<noteq> '''' \<and> pj_id q = en_lifecycleId e"
  proof cases
    case 2
    then show thesis using that [of "persistent_from_enclosure e"] by simp
  qed blast
  then show ?thesis unfolding workspace_lifecycles_set by (intro bexI [of _ "attach_gate gates q"]) auto
qed

text \<open>What is shown of an enclosure in the list is anchored at that very node, since the paths are distinct.\<close>

lemma enclosure_lookup:
  "distinct (map en_enclosure es) \<Longrightarrow> e \<in> set es \<Longrightarrow> dget (fold_by en_enclosure es) (en_enclosure e) = Some e"
proof -
  assume d: "distinct (map en_enclosure es)" and e: "e \<in> set es"
  have "en_enclosure e \<in> set (map fst (fold_by en_enclosure es))" unfolding fold_by_dom using e by simp
  then obtain r where "dget (fold_by en_enclosure es) (en_enclosure e) = Some r" "en_enclosure r = en_enclosure e" "r \<in> set es"
    by (rule fold_by_the_key)
  with d e show ?thesis by (metis distinct_map inj_onD)
qed

lemma workspace_over:
  assumes "distinct (map en_enclosure es)" "p \<in> set (workspace_lifecycles es gates ps)" "e \<in> set es"
    and "\<not> pj_fleeting p" "pj_enclosure p = Some (en_enclosure e)"
  shows "(en_cleanup e = ''abandoned'' \<longrightarrow> pj_state p \<in> set TERMINAL_STATES) \<and>
    (en_enclosure e \<noteq> '''' \<and> en_lifecycleId e \<noteq> '''' \<longrightarrow> pj_id p = en_lifecycleId e)"
proof -
  let ?live = "current_event_backed_lifecycles es ps"
  let ?cur = "terminalize_abandoned_anchor_lifecycles es ?live"
  from assms(2) obtain q where q: "p = attach_gate gates q" "q \<in> set ?cur \<or> q \<in> set (persistent_lifecycles es ?cur)"
    unfolding workspace_lifecycles_set by blast
  from q(2) show ?thesis
  proof
    assume "q \<in> set (persistent_lifecycles es ?cur)"
    then obtain e' where e': "q = persistent_from_enclosure e'" "e' \<in> set es" "worktree_backed e'"
      unfolding persistent_lifecycles_set by blast
    with q(1) assms(5) have "en_enclosure e' = en_enclosure e" by simp
    with e'(2) assms(1,3) have "e' = e" by (metis distinct_map inj_onD)
    with e' q(1) show ?thesis by (auto simp: worktree_backed_def persistent_from_enclosure_def Let_def)
  next
    assume "q \<in> set ?cur"
    then obtain r where r: "r \<in> set ?live" "q = (if \<not> pj_fleeting r \<and>
        (\<exists>e\<in>set es. en_cleanup e = ''abandoned'' \<and> pj_enclosure r = Some (en_enclosure e)) \<and> pj_state r \<notin> set TERMINAL_STATES
        then r\<lparr>pj_state := Abandoned\<rparr> else r)"
      unfolding terminalize_set by blast
    then have same: "pj_fleeting r = pj_fleeting p" "pj_enclosure r = pj_enclosure p" "pj_id r = pj_id p"
      using q(1) by simp_all
    have "en_cleanup e = ''abandoned'' \<longrightarrow> pj_state p \<in> set TERMINAL_STATES"
    proof
      assume ab: "en_cleanup e = ''abandoned''"
      have "\<exists>e\<in>set es. en_cleanup e = ''abandoned'' \<and> pj_enclosure r = Some (en_enclosure e)" "\<not> pj_fleeting r"
        using ab same assms(3-5) by auto
      then have "pj_state q \<in> set TERMINAL_STATES" using r(2) by (cases "pj_state r \<in> set TERMINAL_STATES") (simp_all add: TERMINAL_STATES_def)
      with q(1) show "pj_state p \<in> set TERMINAL_STATES" by simp
    qed
    moreover have "event_backed_lifecycle_is_current r (fold_by en_enclosure es)"
      using r(1) by (simp add: current_event_backed_lifecycles_def Let_def)
    ultimately show ?thesis
      using same assms(3-5) enclosure_lookup [OF assms(1,3)] by (auto simp: event_backed_lifecycle_is_current_def)
  qed
qed

end
