(* ===== verification/Projection_Agreement.thy ===== *)
theory Projection_Agreement
  imports Projection
begin

section \<open>Reader and writer agree\<close>

text \<open>
  The reducer reads what the ambient lifecycle writes. The invariant below ties the two: along any run of a session, the fold of
  the log of the held lifecycle gives the state the session is in and, for a lifecycle born in its own log, the phase, the
  fleeting flag, the scope and the enclosure as well. Logs written by others are assumed to fold, and the corrections in them to name
  no event of this session and no heartbeat.
\<close>

subsection \<open>The fold of a evs\<close>

definition written :: "event list \<Rightarrow> lifecycle_projection res" where
  "written evs =
     (case evs of
        [] \<Rightarrow> Inl (ValueError ''cannot project an empty event log'')
      | started # rest \<Rightarrow> rbind (seed_from_started started) (\<lambda>p. project_fold (index_corrections evs) p rest))"

text \<open>No correction in the log names an event with an id of \<open>V\<close>.\<close>

definition uncorrected :: "string set \<Rightarrow> event list \<Rightarrow> bool" where
  "uncorrected V evs \<longleftrightarrow> (\<forall>i\<in>V. dget (index_corrections evs) i = None)"

lemma index_corrections_snoc:
  "e_kind ev \<noteq> ''correction.recorded'' \<Longrightarrow> index_corrections (evs @ [ev]) = index_corrections evs"
  by (simp add: index_corrections_def index_correction_def)

lemma index_corrections_Nil [simp]: "index_corrections [] = []"
  by (simp add: index_corrections_def)

lemma project_fold_append:
  "project_fold ix p (xs @ ys) = rbind (project_fold ix p xs) (\<lambda>q. project_fold ix q ys)"
  by (induction xs arbitrary: p) (simp_all add: rbind_def split: sum.split)

lemma rbind_Inr [simp]: "rbind m Inr = m"
  by (simp add: rbind_def split: sum.split)

lemma written_snoc:
  assumes "dget (index_corrections evs) (e_id ev) = None" "e_kind ev \<noteq> ''correction.recorded''" "evs \<noteq> []"
  shows "written (evs @ [ev]) = rbind (written evs) (\<lambda>p. project_step [] p ev)"
proof -
  obtain s r where evs: "evs = s # r" using assms(3) by (cases evs) auto
  let ?ix = "index_corrections evs"
  have ix: "index_corrections (evs @ [ev]) = ?ix" by (rule index_corrections_snoc [OF assms(2)])
  have step: "project_step ?ix p ev = project_step [] p ev" for p using assms(1) by (simp add: project_step_def)
  have "written (evs @ [ev]) = rbind (seed_from_started s) (\<lambda>p. rbind (project_fold ?ix p r) (\<lambda>q. project_step [] q ev))"
    using ix by (simp add: written_def evs project_fold_append step [unfolded evs])
  then show ?thesis by (simp add: written_def evs) (simp add: rbind_def split: sum.split)
qed

lemma written_single: "written [ev] = seed_from_started ev"
  by (simp add: written_def rbind_def split: sum.split)

text \<open>Events the fold accepts: no correction, and a phase, if given, that is one.\<close>

definition good_event :: "event \<Rightarrow> bool" where
  "good_event ev \<longleftrightarrow> e_kind ev \<noteq> ''correction.recorded'' \<and>
     (\<forall>v. dget (e_data ev) ''phase'' = Some v \<longrightarrow> (\<exists>ph. v = JStr (phase_str ph)))"

lemma coerce_phase_str [simp]: "coerce_phase (phase_str ph) = Inr ph"
  by (cases ph) (simp_all add: coerce_phase_def PHASES_def)

lemma phase_of_data_good:
  assumes "good_event ev"
  obtains ph where "phase_of_data ev d = Inr ph"
    "dget (e_data ev) ''phase'' = None \<and> ph = d \<or> dget (e_data ev) ''phase'' = Some (JStr (phase_str ph))"
proof (cases "dget (e_data ev) ''phase''")
  case None
  then show ?thesis using that by (simp add: phase_of_data_def)
next
  case (Some v)
  with assms obtain ph where "v = JStr (phase_str ph)" by (auto simp: good_event_def)
  with Some show ?thesis using that by (simp add: phase_of_data_def)
qed

lemma seed_good: "good_event ev \<Longrightarrow> \<exists>p. seed_from_started ev = Inr p"
  by (rule phase_of_data_good [of ev INITIAL_PHASE]) (auto simp: seed_from_started_def)

lemma apply_kind_good: "good_event ev \<Longrightarrow> \<exists>q. apply_kind p ev = Inr q"
  by (rule phase_of_data_good [of ev "pj_phase p"]) (auto simp: apply_kind_def)

lemma project_step_good:
  assumes "good_event ev"
  obtains q where "apply_kind p ev = Inr q"
    "project_step [] p ev = Inr (if pj_state q \<noteq> pj_state p then q\<lparr>pj_stateEnteredAt := e_ts ev\<rparr> else q)"
  using apply_kind_good [OF assms, of p] assms that by (auto simp: project_step_def good_event_def)

text \<open>Only the inference marks a state as inferred.\<close>

lemma apply_kind_inferred: "apply_kind p ev = Inr q \<Longrightarrow> pj_inferred q = pj_inferred p"
  by (auto simp: apply_kind_def rbind_eq_Inr awaiting_developer_updates_def promoted_updates_def ended_updates_def
      tool_completed_updates_def split: if_splits option.splits)

lemma project_fold_inferred: "project_fold ix p evs = Inr q \<Longrightarrow> pj_inferred q = pj_inferred p"
proof (induction evs arbitrary: p)
  case (Cons ev evs)
  then obtain p1 where p1: "project_step ix p ev = Inr p1" "project_fold ix p1 evs = Inr q" by (auto simp: rbind_eq_Inr)
  then have "pj_inferred p1 = pj_inferred p"
    by (auto simp: project_step_def Let_def rbind_eq_Inr apply_kind_inferred split: if_splits option.splits)
  with Cons.IH [OF p1(2)] show ?case by simp
qed simp

lemma written_inferred: "written evs = Inr p \<Longrightarrow> \<not> pj_inferred p"
  by (cases evs) (auto simp: written_def rbind_eq_Inr seed_from_started_def dest!: project_fold_inferred)

subsection \<open>What agrees\<close>

definition agree :: "lifecycle_state \<Rightarrow> lifecycle_projection \<Rightarrow> bool" where
  "agree c p \<longleftrightarrow> pj_state p = lc_state c \<and> \<not> pj_inferred p"

definition agree_full :: "lifecycle_state \<Rightarrow> lifecycle_projection \<Rightarrow> bool" where
  "agree_full c p \<longleftrightarrow> pj_phase p = lc_phase c \<and> pj_fleeting p = lc_fleeting c \<and> pj_enclosure p = lc_enclosure c \<and>
     pj_scope p = (case lc_scope c of None \<Rightarrow> JNull | Some s \<Rightarrow> JStr s)"

text \<open>A log that starts with its birth and in which no other session adopted the lifecycle.\<close>

definition adopted_event :: "event \<Rightarrow> bool" where
  "adopted_event ev \<longleftrightarrow> e_kind ev = ''lifecycle.resumed'' \<and> dget (e_data ev) ''cause'' = Some (JStr ''adopted'')"

definition own_log :: "event list \<Rightarrow> bool" where
  "own_log evs \<longleftrightarrow> evs \<noteq> [] \<and> e_kind (hd evs) = ''lifecycle.started'' \<and> \<not> (\<exists>ev\<in>set evs. adopted_event ev)"

definition agrees_with :: "event list \<Rightarrow> lifecycle_state \<Rightarrow> bool" where
  "agrees_with evs c \<longleftrightarrow>
     (\<exists>p. written evs = Inr p \<and> agree c p \<and> (own_log evs \<longrightarrow> agree_full c p))"

definition foldable :: "string set \<Rightarrow> event list \<Rightarrow> bool" where
  "foldable V evs \<longleftrightarrow> uncorrected V evs \<and> (evs \<noteq> [] \<longrightarrow> (\<exists>p. written evs = Inr p))"

lemma foldable_snoc: "foldable V evs \<Longrightarrow> good_event ev \<Longrightarrow> e_id ev \<in> V \<Longrightarrow> foldable V (evs @ [ev])"
proof -
  assume f: "foldable V evs" and g: "good_event ev" and i: "e_id ev \<in> V"
  then have u: "uncorrected V (evs @ [ev])" "dget (index_corrections evs) (e_id ev) = None"
    by (simp_all add: foldable_def uncorrected_def good_event_def index_corrections_snoc)
  show ?thesis
  proof (cases "evs = []")
    case True
    with u seed_good [OF g] show ?thesis by (simp add: foldable_def written_single)
  next
    case False
    with f obtain p where "written evs = Inr p" by (auto simp: foldable_def)
    with project_step_good [OF g, of p] g u False show ?thesis by (auto simp: foldable_def written_snoc good_event_def)
  qed
qed

lemma agrees_snoc:
  assumes "foldable V evs" "good_event ev" "e_id ev \<in> V" "agrees_with evs c"
    and "\<And>p. agree c p \<Longrightarrow> \<exists>q. apply_kind p ev = Inr q \<and> agree c' q \<and> (agree_full c p \<longrightarrow> agree_full c' q)"
  shows "agrees_with (evs @ [ev]) c'"
proof -
  from assms(4) obtain p where p: "written evs = Inr p" "agree c p" "own_log evs \<longrightarrow> agree_full c p"
    by (auto simp: agrees_with_def)
  from p(1) have ne: "evs \<noteq> []" by (auto simp: written_def)
  have u: "dget (index_corrections evs) (e_id ev) = None" "e_kind ev \<noteq> ''correction.recorded''"
    using assms(1-3) by (simp_all add: foldable_def uncorrected_def good_event_def)
  obtain q where q: "apply_kind p ev = Inr q"
    "project_step [] p ev = Inr (if pj_state q \<noteq> pj_state p then q\<lparr>pj_stateEnteredAt := e_ts ev\<rparr> else q)"
    using project_step_good [OF assms(2)] by blast
  from assms(5) [OF p(2)] q(1) have "agree c' q" "agree_full c p \<longrightarrow> agree_full c' q" by simp_all
  moreover have "own_log (evs @ [ev]) \<Longrightarrow> own_log evs" using ne by (auto simp: own_log_def)
  ultimately show ?thesis
    using p q(2) written_snoc [OF u ne] by (auto simp: agrees_with_def agree_def agree_full_def)
qed

subsection \<open>What an emission does to the logs\<close>

definition log_of :: "ambient \<Rightarrow> string \<Rightarrow> event list" where
  "log_of a l = read_log (Some l) (amb_files a)"

definition beat_of :: "ambient \<Rightarrow> string \<Rightarrow> event option" where
  "beat_of a l = read_heartbeat_sidecar l (amb_files a)"

definition emission ::
  "ambient_env \<Rightarrow> string \<Rightarrow> trust \<Rightarrow> actor \<Rightarrow> (string \<times> json) list \<Rightarrow> lifecycle_state \<Rightarrow> ambient \<Rightarrow> event" where
  "emission env kind tr ac data c a =
     \<lparr>e_schema = OBSERVER_EVENT_SCHEMA, e_id = env_mint env (amb_minted a),
      e_ts = isoformat (env_codec env) (utc (env_clock env (amb_reads a))), e_kind = kind, e_trust = tr, e_actor = ac,
      e_data = data, e_lifecycleId = Some (lc_id c), e_enclosure = lc_enclosure c, e_repoId = lc_repo_id c,
      e_sessionId = None, e_spanId = None\<rparr>"

lemma emission_fields [simp]:
  "e_kind (emission env kind tr ac data c a) = kind" "e_data (emission env kind tr ac data c a) = data"
  "e_enclosure (emission env kind tr ac data c a) = lc_enclosure c" "e_repoId (emission env kind tr ac data c a) = lc_repo_id c"
  "e_lifecycleId (emission env kind tr ac data c a) = Some (lc_id c)"
  "e_id (emission env kind tr ac data c a) = env_mint env (amb_minted a)"
  by (simp_all add: emission_def)

lemma emitted_event:
  "amb_current a = Some c \<Longrightarrow>
   amb_files (emitted env kind tr ac data a) = event_append (emission env kind tr ac data c a) (amb_files a)"
  "amb_current a = Some c \<Longrightarrow> amb_minted (emitted env kind tr ac data a) = amb_minted a + 1"
  by (simp_all add: emitted_def emit_locked_def sbind_sget sbind_if sret_def smodify_def emission_def)

lemma emitted_log:
  assumes "amb_current a = Some c" "lc_id c \<noteq> ''''" "l \<noteq> ''''"
  shows "log_of (emitted env kind tr ac data a) l =
    (if l = lc_id c \<and> kind \<noteq> HEARTBEAT_KIND then log_of a l @ [emission env kind tr ac data c a] else log_of a l)"
  using assms by (auto simp: log_of_def emitted_event read_log_append)

lemma emitted_beat:
  assumes "amb_current a = Some c" "lc_id c \<noteq> ''''"
  shows "beat_of (emitted env kind tr ac data a) l =
    (if l = lc_id c \<and> kind = HEARTBEAT_KIND then Some (emission env kind tr ac data c a) else beat_of a l)"
  using assms by (auto simp: beat_of_def emitted_event event_append_def read_heartbeat_sidecar_def Let_def)

definition dirs :: "ambient \<Rightarrow> string set" where
  "dirs a = fst ` set (of_lifecycles (amb_files a))"

lemma dir_logged: "log_of a l \<noteq> [] \<Longrightarrow> l \<noteq> '''' \<Longrightarrow> l \<in> dirs a"
  by (force simp: log_of_def read_log_def dirs_def dir_of_def empty_dir_def read_tolerant_def dest: map_of_SomeD split: option.splits)

lemma no_dir_no_log: "l \<notin> dirs a \<Longrightarrow> l \<noteq> '''' \<Longrightarrow> log_of a l = []"
  using dir_logged by blast

lemma emitted_dirs:
  assumes "amb_current a = Some c" "lc_id c \<noteq> ''''"
  shows "dirs (emitted env kind tr ac data a) = insert (lc_id c) (dirs a)"
  using assms by (simp add: dirs_def emitted_event event_append_def put_dir_def Let_def dom_map_of_conv_image_fst [symmetric] update_conv')

subsection \<open>The invariant\<close>

text \<open>No id yet to be minted names a lifecycle already, and the held lifecycle has a name.\<close>

definition ids_fresh :: "ambient_env \<Rightarrow> ambient \<Rightarrow> bool" where
  "ids_fresh env a \<longleftrightarrow> (\<forall>n\<ge>amb_minted a. env_mint env n \<notin> dirs a) \<and> (\<forall>n. env_mint env n \<noteq> '''') \<and>
     (\<forall>c. amb_current a = Some c \<longrightarrow> lc_id c \<noteq> '''')"

text \<open>
  Every log folds, and no correction in it names an event with an id of this session's mint or the heartbeat beside it.
\<close>

definition logs_fold :: "ambient_env \<Rightarrow> ambient \<Rightarrow> bool" where
  "logs_fold env a \<longleftrightarrow> (\<forall>l. l \<noteq> '''' \<longrightarrow> foldable (range (env_mint env)) (log_of a l) \<and>
     (\<forall>hb. beat_of a l = Some hb \<longrightarrow> dget (index_corrections (log_of a l)) (e_id hb) = None))"

definition held_agrees :: "ambient \<Rightarrow> bool" where
  "held_agrees a \<longleftrightarrow> (\<forall>c. amb_current a = Some c \<longrightarrow> lc_id c \<noteq> '''' \<and> agrees_with (log_of a (lc_id c)) c)"

definition session_ok :: "ambient_env \<Rightarrow> ambient \<Rightarrow> bool" where
  "session_ok env a \<longleftrightarrow> logs_fold env a \<and> held_agrees a"

lemma log_of_current [simp]: "log_of (a\<lparr>amb_current := c\<rparr>) l = log_of a l" "log_of (a\<lparr>amb_ticking := b\<rparr>) l = log_of a l"
  "log_of (a\<lparr>amb_served := s\<rparr>) l = log_of a l" "log_of (a\<lparr>amb_reads := r\<rparr>) l = log_of a l" "log_of (a\<lparr>amb_minted := m\<rparr>) l = log_of a l"
  by (simp_all add: log_of_def)

lemma beat_of_frame [simp]: "beat_of (a\<lparr>amb_current := c\<rparr>) l = beat_of a l" "beat_of (a\<lparr>amb_ticking := b\<rparr>) l = beat_of a l"
  "beat_of (a\<lparr>amb_served := s\<rparr>) l = beat_of a l" "beat_of (a\<lparr>amb_reads := r\<rparr>) l = beat_of a l"
  "beat_of (a\<lparr>amb_minted := m\<rparr>) l = beat_of a l"
  by (simp_all add: beat_of_def)

lemma logs_fold_frame [simp]: "logs_fold env (a\<lparr>amb_current := c\<rparr>) = logs_fold env a" "logs_fold env (a\<lparr>amb_ticking := b\<rparr>) = logs_fold env a"
  "logs_fold env (a\<lparr>amb_served := s\<rparr>) = logs_fold env a" "logs_fold env (a\<lparr>amb_reads := r\<rparr>) = logs_fold env a" "logs_fold env (a\<lparr>amb_minted := m\<rparr>) = logs_fold env a"
  by (simp_all add: logs_fold_def)

lemma held_agrees_frame [simp]: "held_agrees (a\<lparr>amb_ticking := b\<rparr>) = held_agrees a"
  "held_agrees (a\<lparr>amb_served := s\<rparr>) = held_agrees a" "held_agrees (a\<lparr>amb_reads := r\<rparr>) = held_agrees a"
  "held_agrees (a\<lparr>amb_current := None\<rparr>)"
  by (simp_all add: held_agrees_def)

definition good_data :: "string \<Rightarrow> (string \<times> json) list \<Rightarrow> bool" where
  "good_data kind data \<longleftrightarrow> kind \<noteq> ''correction.recorded'' \<and>
     (\<forall>v. dget data ''phase'' = Some v \<longrightarrow> (\<exists>ph. v = JStr (phase_str ph)))"

lemma good_emission: "good_event (emission env kind tr ac data c a) \<longleftrightarrow> good_data kind data"
  by (simp add: good_event_def good_data_def)

lemma emitted_logs_fold:
  assumes f: "logs_fold env a" and g: "kind = HEARTBEAT_KIND \<or> good_data kind data" and c: "amb_current a = Some c" "lc_id c \<noteq> ''''"
  shows "logs_fold env (emitted env kind tr ac data a)"
proof -
  let ?a = "emitted env kind tr ac data a" and ?V = "range (env_mint env)" and ?ev = "emission env kind tr ac data c a"
  have "foldable ?V (log_of ?a l) \<and> (\<forall>hb. beat_of ?a l = Some hb \<longrightarrow> dget (index_corrections (log_of ?a l)) (e_id hb) = None)"
    if l: "l \<noteq> ''''" for l
  proof -
    have o: "foldable ?V (log_of a l)" "\<And>hb. beat_of a l = Some hb \<Longrightarrow> dget (index_corrections (log_of a l)) (e_id hb) = None"
      using f l by (simp_all add: logs_fold_def)
    have i: "index_corrections (log_of ?a l) = index_corrections (log_of a l)"
      using g by (auto simp: emitted_log [OF c l] index_corrections_snoc good_data_def)
    have "foldable ?V (log_of ?a l)"
      using g foldable_snoc [OF o(1), of ?ev] o(1) by (auto simp: emitted_log [OF c l] good_emission)
    moreover have "dget (index_corrections (log_of a l)) (e_id ?ev) = None"
      using o(1) by (simp add: foldable_def uncorrected_def)
    ultimately show ?thesis using o(2) by (auto simp: i emitted_beat [OF c])
  qed
  then show ?thesis unfolding logs_fold_def by blast
qed

text \<open>Moving the held lifecycle and emitting the event that says so.\<close>

lemma move_agrees:
  assumes ok: "session_ok env a" and cur: "amb_current a = Some c" and id: "lc_id c' = lc_id c"
    and kind: "kind \<noteq> HEARTBEAT_KIND" "good_data kind data"
    and step: "\<And>p ev. e_kind ev = kind \<Longrightarrow> e_data ev = data \<Longrightarrow> e_enclosure ev = lc_enclosure c' \<Longrightarrow> agree c p \<Longrightarrow>
      \<exists>q. apply_kind p ev = Inr q \<and> agree c' q \<and> (agree_full c p \<longrightarrow> agree_full c' q)"
  shows "session_ok env (emitted env kind tr ac data (a\<lparr>amb_current := Some c'\<rparr>))"
proof -
  let ?a = "a\<lparr>amb_current := Some c'\<rparr>" and ?ev = "emission env kind tr ac data c' (a\<lparr>amb_current := Some c'\<rparr>)"
  have f: "logs_fold env a" and ne: "lc_id c \<noteq> ''''" and ag: "agrees_with (log_of a (lc_id c)) c"
    using ok cur by (simp_all add: session_ok_def held_agrees_def)
  have "agrees_with (log_of a (lc_id c) @ [?ev]) c'"
    using f ne kind by (intro agrees_snoc [OF _ _ _ ag, of "range (env_mint env)"] step) (simp_all add: logs_fold_def good_emission)
  then show ?thesis
    using emitted_logs_fold [of env ?a kind data c' tr ac] f ne id kind
    by (simp add: session_ok_def held_agrees_def emitted_log)
qed

lemma emitted_agrees:
  assumes "session_ok env a" "kind \<noteq> HEARTBEAT_KIND" "good_data kind data"
    and "\<And>c p ev. e_kind ev = kind \<Longrightarrow> e_data ev = data \<Longrightarrow> agree c p \<Longrightarrow>
      \<exists>q. apply_kind p ev = Inr q \<and> agree c q \<and> (agree_full c p \<longrightarrow> agree_full c q)"
  shows "session_ok env (emitted env kind tr ac data a)"
proof (cases "amb_current a")
  case (Some c)
  then have "a\<lparr>amb_current := Some c\<rparr> = a" by simp
  with move_agrees [OF assms(1) Some refl assms(2,3), of tr ac] assms(4) show ?thesis by simp
qed (use assms in simp)

subsection \<open>Every step keeps it\<close>

lemma move_state_agrees:
  assumes "session_ok env a" "kind \<noteq> HEARTBEAT_KIND" "good_data kind data"
    and "\<And>p ev. e_kind ev = kind \<Longrightarrow> \<exists>q. apply_kind p ev = Inr q \<and> pj_state q = to \<and> pj_inferred q = pj_inferred p \<and>
      pj_phase q = pj_phase p \<and> pj_fleeting q = pj_fleeting p \<and> pj_enclosure q = pj_enclosure p \<and> pj_scope q = pj_scope p"
  shows "session_ok env (snd (move_state env from to why kind data a))"
proof (cases "amb_current a")
  case None
  with assms(1) show ?thesis by (simp add: move_state_def sbind_require_active)
next
  case (Some c)
  have "session_ok env (emitted env kind Declared ActorModel data (a\<lparr>amb_current := Some (c\<lparr>lc_state := to\<rparr>)\<rparr>))"
  proof (rule move_agrees [OF assms(1) Some _ assms(2,3)])
    fix p and ev :: event assume "e_kind ev = kind" "agree c p"
    then show "\<exists>q. apply_kind p ev = Inr q \<and> agree (c\<lparr>lc_state := to\<rparr>) q \<and>
        (agree_full c p \<longrightarrow> agree_full (c\<lparr>lc_state := to\<rparr>) q)"
      using assms(4) [of ev p] by (auto simp: agree_def agree_full_def)
  qed simp
  with Some assms(1) show ?thesis by (simp add: move_state_def sbind_require_active Let_def slift_def sret_def)
qed

lemma amb_block_agrees: "session_ok env a \<Longrightarrow> session_ok env (snd (amb_block env k q os a))"
  unfolding amb_block_def
  by (rule move_state_agrees) (auto simp: HEARTBEAT_KIND_def good_data_def apply_kind_def split: option.splits)

lemma amb_resume_agrees: "session_ok env a \<Longrightarrow> session_ok env (snd (amb_resume env a))"
  unfolding amb_resume_def by (rule move_state_agrees) (auto simp: HEARTBEAT_KIND_def good_data_def apply_kind_def)

lemma amb_await_agrees: "session_ok env a \<Longrightarrow> session_ok env (snd (amb_await_developer env sm a))"
  unfolding amb_await_developer_def
  by (rule move_state_agrees) (auto simp: HEARTBEAT_KIND_def good_data_def apply_kind_def awaiting_developer_updates_def)

lemma amb_resume_await_agrees: "session_ok env a \<Longrightarrow> session_ok env (snd (amb_resume_from_await env a))"
  unfolding amb_resume_from_await_def
  by (rule move_state_agrees) (auto simp: HEARTBEAT_KIND_def good_data_def apply_kind_def)

lemma amb_phase_agrees: "session_ok env a \<Longrightarrow> session_ok env (snd (amb_phase env ph a))"
proof (cases "amb_current a")
  case None
  then show "session_ok env a \<Longrightarrow> ?thesis" by (simp add: amb_phase_def sbind_require_active)
next
  case (Some c)
  assume ok: "session_ok env a"
  have "session_ok env (emitted env ''lifecycle.phase-changed'' Declared ActorModel [(''phase'', JStr (phase_str ph))]
      (a\<lparr>amb_current := Some (c\<lparr>lc_phase := ph\<rparr>)\<rparr>))"
    by (rule move_agrees [OF ok Some])
      (auto simp: HEARTBEAT_KIND_def good_data_def apply_kind_def phase_of_data_def agree_def agree_full_def)
  with Some show ?thesis by (simp add: amb_phase_def sbind_require_active Let_def sret_def)
qed

lemma promoted_agrees:
  assumes "session_ok env a" "amb_current a = Some c"
    and "lc_id c' = lc_id c" "lc_state c' = lc_state c" "lc_phase c' = lc_phase c" "\<not> lc_fleeting c'" "lc_scope c' = Some sc"
    and "lc_enclosure c' = lc_enclosure c \<or> lc_enclosure c' \<noteq> None"
  shows "session_ok env (emitted env ''lifecycle.promoted'' tr ac [(''scope'', JStr sc)] (a\<lparr>amb_current := Some c'\<rparr>))"
proof (rule move_agrees [OF assms(1,2)])
  fix p and ev :: event assume "e_kind ev = ''lifecycle.promoted''" "e_data ev = [(''scope'', JStr sc)]" "e_enclosure ev = lc_enclosure c'" "agree c p"
  then show "\<exists>q. apply_kind p ev = Inr q \<and> agree c' q \<and> (agree_full c p \<longrightarrow> agree_full c' q)"
    using assms(4-)
    by (auto simp: apply_kind_def promoted_updates_def data_get_def agree_def agree_full_def split: option.splits)
qed (simp_all add: assms HEARTBEAT_KIND_def good_data_def)

lemma amb_promote_agrees: "session_ok env a \<Longrightarrow> session_ok env (snd (amb_promote env enc rep sc a))"
  by (cases "amb_current a") (auto simp: amb_promote_def sbind_require_active Let_def sret_def intro!: promoted_agrees)

lemma session_released: "logs_fold env a \<Longrightarrow> session_ok env (a\<lparr>amb_ticking := False, amb_served := s, amb_current := None\<rparr>)"
  by (simp add: session_ok_def held_agrees_def logs_fold_def log_of_def)

lemma held_emits:
  assumes "session_ok env a" "amb_current a = Some c" "good_data kind data"
  shows "logs_fold env (emitted env kind tr ac data a)"
  using assms by (auto simp: session_ok_def held_agrees_def intro: emitted_logs_fold)

lemma amb_end_agrees: "session_ok env a \<Longrightarrow> session_ok env (snd (amb_end env outcome a))"
  by (cases "amb_current a")
    (simp_all add: amb_end_def sbind_require_active slift_def sret_def session_released held_emits good_data_def)

lemma pause_agrees:
  assumes "session_ok env a" "amb_current a = Some c"
  shows "session_ok env (snd (pause_locked env why a))"
proof -
  have "logs_fold env (emitted env ''lifecycle.paused'' Observed ActorSystem [(''cause'', JStr why)] a)"
    by (rule held_emits [OF assms]) (simp add: good_data_def)
  with assms(2) show ?thesis
    by (simp add: pause_locked_def sbind_sget set_current_def smodify_def session_ok_def held_agrees_def logs_fold_def log_of_def)
qed

lemma leave_current_agrees:
  assumes ok: "session_ok env a" and run: "leave_current env d a = (r, b)"
  shows "session_ok env b \<and> (r = Inr () \<longrightarrow> amb_current b = None) \<and> (r \<noteq> Inr () \<longrightarrow> b = a)"
proof (cases "amb_current a")
  case None
  with assms show ?thesis by (simp add: leave_current_def sbind_sget sret_def)
next
  case (Some c)
  have paused: "\<exists>x'. pause_locked env w x = (Inr (), x') \<and> session_ok env x' \<and> amb_current x' = None"
    if "session_ok env x" "amb_current x = Some y" for x y w
    using pause_agrees [OF that, of w] that by (simp add: pause_locked_def sbind_sget set_current_def smodify_def)
  show ?thesis
  proof (cases "lc_fleeting c")
    case False
    with Some run paused [OF ok Some, of "''switched-away''"] show ?thesis by (auto simp: leave_current_def sbind_sget)
  next
    case True
    let ?c = "c\<lparr>lc_fleeting := False, lc_scope := Some (compute_scope (lc_repo_id c) False)\<rparr>"
    let ?b = "emitted env ''lifecycle.promoted'' Observed ActorSystem [(''scope'', JStr (compute_scope (lc_repo_id c) False))]
      (a\<lparr>amb_current := Some ?c\<rparr>)"
    have pr: "promote_to_landing_zone env a = (Inr (), ?b)"
      using Some by (simp add: promote_to_landing_zone_def sbind_sget Let_def emit_run)
    have okb: "session_ok env ?b" by (rule promoted_agrees [OF ok Some]) auto
    have "logs_fold env (emitted env ''lifecycle.ended'' Declared ActorModel [(''outcome'', JStr ''abandoned'')] a)"
      by (rule held_emits [OF ok Some]) (simp add: good_data_def)
    with True Some run pr paused [OF okb, of ?c "''switched-away''"] ok session_released show ?thesis
      by (cases d; cases "the d")
        (auto simp: leave_current_def sbind_sget slift_def sbind_Inr release_run)
  qed
qed

lemma reap_log:
  assumes "l \<noteq> ''''"
  shows "log_of (snd (reap_stale_fleeting env a)) l = (if l \<in> set (stale_fleeting env a) then [] else log_of a l)"
proof (cases "of_lifecycles (amb_files a) = []")
  case True
  then have "log_of a l = []" using assms no_dir_no_log [of l a] by (simp add: dirs_def)
  with True show ?thesis by (simp add: reap_stale_fleeting_def)
next
  case False
  then show ?thesis
    using assms by (simp add: reap_stale_fleeting_def Let_def log_of_def read_log_def dir_of_filter empty_dir_def read_tolerant_def)
qed

lemma reap_beat:
  "l \<notin> set (stale_fleeting env a) \<Longrightarrow> beat_of (snd (reap_stale_fleeting env a)) l = beat_of a l"
  by (simp add: reap_stale_fleeting_def Let_def beat_of_def read_heartbeat_sidecar_def dir_of_filter)

lemma held_not_stale: "amb_current a = Some c \<Longrightarrow> lc_id c \<notin> set (stale_fleeting env a)"
  by (auto simp: stale_fleeting_def)

lemma foldable_Nil [simp]: "foldable V []"
  by (simp add: foldable_def uncorrected_def)

lemma reap_agrees:
  assumes "session_ok env a"
  shows "session_ok env (snd (reap_stale_fleeting env a))"
proof -
  let ?b = "snd (reap_stale_fleeting env a)"
  have "logs_fold env ?b"
    using assms reap_log [of _ env a] reap_beat [of _ env a] by (simp add: session_ok_def logs_fold_def)
  moreover have "held_agrees ?b"
    using assms reap_log [of _ env a] held_not_stale [of a _ env] by (simp add: session_ok_def held_agrees_def reap_frame)
  ultimately show ?thesis by (simp add: session_ok_def)
qed

lemma then_reap_agrees:
  assumes "session_ok env (snd (m a))"
  shows "session_ok env (snd (sbind m (\<lambda>c. sbind (reap_stale_fleeting env) (\<lambda>_. sret c)) a))"
  using assms reap_agrees by (cases "m a"; cases "fst (m a)") (auto simp: sbind_def [of m] sbind_reap)

lemma fresh_lifecycle_agrees:
  assumes ok: "session_ok env a" and new: "log_of a (env_mint env (amb_minted a)) = []" "env_mint env (amb_minted a) \<noteq> ''''"
  shows "session_ok env (snd (fresh_lifecycle env fl ph a))"
proof -
  let ?l = "env_mint env (amb_minted a)" and ?d = "[(''phase'', JStr (phase_str ph)), (''fleeting'', JBool fl)]"
  let ?c = "\<lparr>lc_id = ?l, lc_state = Running, lc_phase = ph, lc_fleeting = fl,
    lc_started_at = isoformat (env_codec env) (utc (env_clock env (amb_reads a))), lc_enclosure = None, lc_repo_id = None, lc_scope = None\<rparr>"
  let ?a = "a\<lparr>amb_minted := amb_minted a + 1, amb_reads := amb_reads a + 1, amb_current := Some ?c\<rparr>"
  let ?b = "emitted env ''lifecycle.started'' Declared ActorModel ?d ?a"
  let ?ev = "emission env ''lifecycle.started'' Declared ActorModel ?d ?c ?a"
  have g: "good_data ''lifecycle.started'' ?d" by (auto simp: good_data_def)
  have f: "logs_fold env ?b" using emitted_logs_fold [OF _ disjI2 [OF g], of env ?a ?c] ok new by (simp add: session_ok_def)
  have "agrees_with [?ev] ?c"
    by (simp add: agrees_with_def written_single seed_from_started_def phase_of_data_def agree_def agree_full_def)
  then have "held_agrees ?b" using new by (simp add: held_agrees_def emitted_log HEARTBEAT_KIND_def)
  with f show ?thesis by (simp add: fresh_lifecycle_def Let_def sret_def session_ok_def)
qed

lemma amb_start_agrees:
  assumes "session_ok env a" "ids_fresh env a"
  shows "session_ok env (snd (amb_start env fl ph a))"
proof (cases "amb_current a")
  case None
  have "session_ok env (snd (fresh_lifecycle env fl ph a))"
    using assms by (intro fresh_lifecycle_agrees no_dir_no_log) (simp_all add: ids_fresh_def)
  with None show ?thesis by (simp add: amb_start_def sbind_sget then_reap_agrees)
qed (simp add: amb_start_def sbind_sget assms)

text \<open>Leaving a lifecycle names no new one.\<close>

lemma emitted_held_dirs:
  assumes "session_ok env a" "amb_current a = Some c" "lc_id c' = lc_id c"
  shows "dirs (emitted env k t ac d (a\<lparr>amb_current := Some c'\<rparr>)) = dirs a"
proof -
  have id: "lc_id c \<noteq> ''''" "agrees_with (log_of a (lc_id c)) c" using assms by (simp_all add: session_ok_def held_agrees_def)
  then have "log_of a (lc_id c) \<noteq> []" by (auto simp: agrees_with_def written_def)
  with id have "lc_id c \<in> dirs a" using dir_logged by blast
  moreover have "dirs (a\<lparr>amb_current := Some c'\<rparr>) = dirs a" by (simp add: dirs_def)
  ultimately show ?thesis using emitted_dirs [of "a\<lparr>amb_current := Some c'\<rparr>" c'] id assms(3) by (simp add: insert_absorb)
qed

lemma dirs_frame [simp]: "dirs (a\<lparr>amb_current := c\<rparr>) = dirs a" "dirs (a\<lparr>amb_ticking := b\<rparr>) = dirs a"
  "dirs (a\<lparr>amb_served := s\<rparr>) = dirs a"
  by (simp_all add: dirs_def)

lemma pause_dirs:
  assumes "session_ok env a" "amb_current a = Some c"
  shows "dirs (snd (pause_locked env why a)) = dirs a \<and> amb_minted (snd (pause_locked env why a)) = amb_minted a + 1"
proof -
  have "a\<lparr>amb_current := Some c\<rparr> = a" using assms(2) by simp
  with emitted_held_dirs [OF assms refl] assms(2) show ?thesis
    by (simp add: pause_locked_def sbind_sget set_current_def smodify_def emitted_event)
qed

lemma leave_current_dirs:
  assumes ok: "session_ok env a" and run: "leave_current env d a = (r, b)"
  shows "dirs b = dirs a \<and> amb_minted a \<le> amb_minted b"
proof (cases "amb_current a")
  case None
  with assms show ?thesis by (simp add: leave_current_def sbind_sget sret_def)
next
  case (Some c)
  have self: "a\<lparr>amb_current := Some c\<rparr> = a" using Some by simp
  show ?thesis
  proof (cases "lc_fleeting c")
    case False
    with Some run pause_dirs [OF ok Some, of "''switched-away''"] show ?thesis by (auto simp: leave_current_def sbind_sget)
  next
    case True
    let ?c = "c\<lparr>lc_fleeting := False, lc_scope := Some (compute_scope (lc_repo_id c) False)\<rparr>"
    let ?b = "emitted env ''lifecycle.promoted'' Observed ActorSystem [(''scope'', JStr (compute_scope (lc_repo_id c) False))]
      (a\<lparr>amb_current := Some ?c\<rparr>)"
    have pr: "promote_to_landing_zone env a = (Inr (), ?b)"
      using Some by (simp add: promote_to_landing_zone_def sbind_sget Let_def emit_run)
    have okb: "session_ok env ?b" by (rule promoted_agrees [OF ok Some]) auto
    have b: "dirs ?b = dirs a" "amb_minted ?b = amb_minted a + 1"
      using emitted_held_dirs [OF ok Some, of ?c] by (simp_all add: emitted_event)
    have p: "dirs (snd (pause_locked env ''switched-away'' ?b)) = dirs ?b \<and>
        amb_minted (snd (pause_locked env ''switched-away'' ?b)) = amb_minted ?b + 1"
      by (rule pause_dirs [OF okb, of ?c]) simp
    have e: "dirs (emitted env ''lifecycle.ended'' Declared ActorModel [(''outcome'', JStr ''abandoned'')] a) = dirs a"
      using emitted_held_dirs [OF ok Some refl] self by simp
    from True Some run pr b p e show ?thesis
      by (cases d; cases "the d")
        (auto simp: leave_current_def sbind_sget slift_def sbind_Inr release_run emitted_event)
  qed
qed

lemma amb_switch_agrees:
  assumes "session_ok env a" "ids_fresh env a"
  shows "session_ok env (snd (amb_switch env d fl ph a))"
proof -
  obtain r b where run: "leave_current env d a = (r, b)" by fastforce
  note left = leave_current_agrees [OF assms(1) run] leave_current_dirs [OF assms(1) run]
  show ?thesis
  proof (cases r)
    case (Inl e)
    with left run show ?thesis by (auto simp: amb_switch_def sbind_def)
  next
    case (Inr u)
    have "session_ok env (snd (fresh_lifecycle env fl ph b))"
      using left assms(2) by (intro fresh_lifecycle_agrees no_dir_no_log) (auto simp: ids_fresh_def)
    with run Inr show ?thesis by (simp add: amb_switch_def sbind_def [of "leave_current env d"] then_reap_agrees)
  qed
qed

lemma adopted_agrees:
  assumes "logs_fold env a" "lc_id c \<noteq> ''''" "lc_state c = Running"
  shows "session_ok env (emitted env ''lifecycle.resumed'' tr ac [(''cause'', JStr ''adopted'')] (a\<lparr>amb_current := Some c\<rparr>))"
proof -
  let ?d = "[(''cause'', JStr ''adopted'')]" and ?a = "a\<lparr>amb_current := Some c\<rparr>"
  let ?ev = "emission env ''lifecycle.resumed'' tr ac [(''cause'', JStr ''adopted'')] c (a\<lparr>amb_current := Some c\<rparr>)"
  let ?log = "log_of a (lc_id c)"
  have g: "good_data ''lifecycle.resumed'' ?d" by (simp add: good_data_def)
  have fo: "foldable (range (env_mint env)) ?log" using assms by (simp add: logs_fold_def)
  then have u: "dget (index_corrections ?log) (e_id ?ev) = None" "e_kind ?ev \<noteq> ''correction.recorded''"
    by (simp_all add: foldable_def uncorrected_def)
  have ad: "\<not> own_log (?log @ [?ev])" by (auto simp: own_log_def adopted_event_def)
  have "\<exists>p. written (?log @ [?ev]) = Inr p \<and> pj_state p = Running \<and> \<not> pj_inferred p"
  proof (cases "?log = []")
    case True
    then show ?thesis by (simp add: written_single seed_from_started_def phase_of_data_def)
  next
    case False
    with fo obtain p where "written ?log = Inr p" by (auto simp: foldable_def)
    moreover from this have "\<not> pj_inferred p" by (rule written_inferred)
    ultimately show ?thesis using written_snoc [OF u False] by (simp add: project_step_def apply_kind_def)
  qed
  with ad assms(3) have "agrees_with (?log @ [?ev]) c" by (auto simp: agrees_with_def agree_def)
  then have "held_agrees (emitted env ''lifecycle.resumed'' tr ac ?d ?a)"
    using assms(2) by (simp add: held_agrees_def emitted_log HEARTBEAT_KIND_def)
  with emitted_logs_fold [OF _ disjI2 [OF g], of env ?a c tr ac] assms show ?thesis by (simp add: session_ok_def)
qed

lemma attach_other_agrees:
  assumes ok: "session_ok env a" and run: "attach_other env l enc rep d ph a = (r, b)" and id: "\<And>c. amb_current b = Some c \<Longrightarrow> lc_id c \<noteq> ''''"
  shows "session_ok env b"
proof -
  obtain r1 b1 where lv: "leave_current env d a = (r1, b1)" by fastforce
  note left = leave_current_agrees [OF ok lv]
  show ?thesis
  proof (cases r1)
    case (Inl e)
    with left lv run show ?thesis by (auto simp: attach_other_def sbind_def)
  next
    case (Inr u)
    let ?b = "b1\<lparr>amb_reads := amb_reads b1 + 1\<rparr>"
    let ?c = "\<lparr>lc_id = l, lc_state = Running, lc_phase = ph, lc_fleeting = False,
      lc_started_at = isoformat (env_codec env) (utc (env_clock env (amb_reads b1))), lc_enclosure = Some enc, lc_repo_id = rep,
      lc_scope = Some (compute_scope rep False)\<rparr>"
    let ?e = "emitted env ''lifecycle.resumed'' Observed ActorSystem [(''cause'', JStr ''adopted'')] (?b\<lparr>amb_current := Some ?c\<rparr>)"
    have b: "b = snd (reap_stale_fleeting env (?e\<lparr>amb_ticking := True\<rparr>))"
      using run lv Inr by (simp add: attach_other_def sbind_def [of "leave_current env d"] Let_def sbind_reap)
    have "amb_current b = Some ?c" unfolding b by (simp add: reap_frame)
    from id [OF this] have "l \<noteq> ''''" by simp
    then have "session_ok env ?e" using left by (intro adopted_agrees) (simp_all add: session_ok_def)
    then have "session_ok env (?e\<lparr>amb_ticking := True\<rparr>)" by (simp add: session_ok_def)
    then show ?thesis unfolding b by (rule reap_agrees)
  qed
qed

lemma amb_attach_agrees:
  assumes "session_ok env a" "ids_fresh env (snd (amb_attach env l enc rep d ph a))"
  shows "session_ok env (snd (amb_attach env l enc rep d ph a))"
proof (cases "\<exists>c. amb_current a = Some c \<and> lc_id c = l")
  case True
  with assms show ?thesis by (auto simp: amb_attach_def sbind_sget sret_def)
next
  case False
  then have "amb_attach env l enc rep d ph a = attach_other env l enc rep d ph a"
    by (cases "amb_current a") (auto simp: amb_attach_def sbind_sget)
  moreover obtain r b where "attach_other env l enc rep d ph a = (r, b)" by fastforce
  ultimately show ?thesis using attach_other_agrees [OF assms(1)] assms(2) by (simp add: ids_fresh_def)
qed

lemma emit_tool_agrees: "session_ok env a \<Longrightarrow> session_ok env (snd (emit_tool env tn pl a))"
  unfolding emit_tool_def emit_run snd_conv
  by (rule emitted_agrees)
    (auto simp: HEARTBEAT_KIND_def good_data_def apply_kind_def tool_completed_updates_def agree_def agree_full_def split: option.splits)

lemma emit_read_packet_agrees: "session_ok env a \<Longrightarrow> session_ok env (snd (emit_read_packet env rep files a))"
  unfolding emit_read_packet_def emit_run snd_conv
  by (rule emitted_agrees) (auto simp: HEARTBEAT_KIND_def good_data_def apply_kind_def)

lemma beat_agrees: "session_ok env a \<Longrightarrow> session_ok env (emitted env HEARTBEAT_KIND t ac d a)"
  by (cases "amb_current a") (simp_all add: session_ok_def held_agrees_def emitted_log emitted_logs_fold)

lemma heartbeat_agrees: "session_ok env a \<Longrightarrow> session_ok env (snd (heartbeat_tick env a))"
  by (cases "amb_current a"; cases "amb_last_activity a")
    (auto simp: heartbeat_tick_def sbind_sget inactive_seconds_def sbind_def [of "inactive_seconds env"] sret_def beat_agrees,
     simp add: session_ok_def, rule beat_agrees, simp add: session_ok_def)

text \<open>A step of a session in which no id is minted twice.\<close>

definition fresh_step :: "ambient_env \<Rightarrow> ambient \<Rightarrow> ambient \<Rightarrow> bool" where
  "fresh_step env a a' \<longleftrightarrow> amb_step env a a' \<and> ids_fresh env a'"

definition session_inv :: "ambient_env \<Rightarrow> ambient \<Rightarrow> bool" where
  "session_inv env a \<longleftrightarrow> session_ok env a \<and> ids_fresh env a"

lemma session_ok_ticking [simp]: "session_ok env (a\<lparr>amb_ticking := b\<rparr>) = session_ok env a"
  by (simp add: session_ok_def)

lemma fresh_step_inv: "fresh_step env a a' \<Longrightarrow> session_inv env a \<Longrightarrow> session_inv env a'"
  unfolding fresh_step_def session_inv_def
  by (elim conjE amb_stepE)
    (simp_all add: amb_start_agrees amb_block_agrees amb_resume_agrees amb_await_agrees amb_resume_await_agrees amb_end_agrees
      amb_phase_agrees amb_switch_agrees amb_promote_agrees amb_attach_agrees emit_tool_agrees emit_read_packet_agrees
      heartbeat_agrees amb_shutdown_def stop_ticker_def smodify_def)

interpretation session_machine: step_invariant "fresh_step env" "session_inv env" for env
  by unfold_locales (rule fresh_step_inv)

subsection \<open>What the dashboard shows\<close>

lemma project_lifecycle_written:
  "project_lifecycle c evs now = rbind (written evs) (\<lambda>p.
     let p1 = project_inferred c (p\<lparr>pj_lastEventTs := e_ts (last evs)\<rparr>) evs now
     in Inr (p1\<lparr>pj_actions := lifecycle_actions p1, pj_tokenSeries := token_series evs\<rparr>))"
  by (cases evs) (simp_all add: project_lifecycle_def written_def rbind_assoc)

text \<open>A held state may be shown otherwise only because the log went quiet, and is then marked as inferred.\<close>

definition gone_quiet :: "lifecycle_state \<Rightarrow> lifecycle_projection \<Rightarrow> bool" where
  "gone_quiet c p \<longleftrightarrow> pj_inferred p \<and> (\<exists>age. pj_staleSeconds p = Some age \<and>
     (pj_fleeting p \<and> TTL_SECONDS < age \<and> pj_state p = Abandoned \<or>
      lc_state c = Running \<and> STALE_AFTER_SECONDS < age \<and> pj_state p = Paused))"

lemma project_inferred_frame:
  "pj_phase (project_inferred c p evs now) = pj_phase p" "pj_fleeting (project_inferred c p evs now) = pj_fleeting p"
  "pj_enclosure (project_inferred c p evs now) = pj_enclosure p" "pj_scope (project_inferred c p evs now) = pj_scope p"
  by (simp_all add: project_inferred_def Let_def split: option.split)

lemma inferred_state:
  "pj_state p = lc_state c \<Longrightarrow>
   pj_state (project_inferred k p evs now) = lc_state c \<or> gone_quiet c (project_inferred k p evs now)"
  by (auto simp: project_inferred_def Let_def gone_quiet_def split: option.split)

lemma agrees_shown:
  assumes "agrees_with evs c" "own_log evs \<longrightarrow> own"
  obtains p where "project_lifecycle k evs now = Inr p" "pj_state p = lc_state c \<or> gone_quiet c p" "own_log evs \<longrightarrow> agree_full c p"
proof -
  from assms obtain q where q: "written evs = Inr q" "agree c q" "own_log evs \<longrightarrow> agree_full c q" by (auto simp: agrees_with_def)
  let ?p1 = "project_inferred k (q\<lparr>pj_lastEventTs := e_ts (last evs)\<rparr>) evs now"
  let ?p = "?p1\<lparr>pj_actions := lifecycle_actions ?p1, pj_tokenSeries := token_series evs\<rparr>"
  have "project_lifecycle k evs now = Inr ?p" using q(1) by (simp add: project_lifecycle_written Let_def)
  moreover have "pj_state ?p = lc_state c \<or> gone_quiet c ?p"
    using inferred_state [of "q\<lparr>pj_lastEventTs := e_ts (last evs)\<rparr>" c k evs now] q(2) by (simp add: agree_def gone_quiet_def)
  moreover have "own_log evs \<longrightarrow> agree_full c ?p" using q(3) by (simp add: agree_full_def project_inferred_frame)
  ultimately show thesis by (rule that)
qed

text \<open>The heartbeat sidecar that \<^verbatim>\<open>read\<close> appends changes nothing the fold looks at.\<close>

lemma agrees_beat:
  assumes "dget (index_corrections evs) (e_id hb) = None" "agrees_with evs c" "e_kind hb = HEARTBEAT_KIND"
  shows "agrees_with (evs @ [hb]) c"
proof -
  from assms(2) obtain p where p: "written evs = Inr p" by (auto simp: agrees_with_def)
  then have ne: "evs \<noteq> []" by (auto simp: written_def)
  have "written (evs @ [hb]) = Inr p"
    using written_snoc [OF assms(1) _ ne] p assms(3) by (simp add: project_step_def apply_kind_def HEARTBEAT_KIND_def)
  moreover have "own_log (evs @ [hb]) = own_log evs" using ne assms(3) by (auto simp: own_log_def adopted_event_def HEARTBEAT_KIND_def)
  ultimately show ?thesis using assms(2) p by (simp add: agrees_with_def)
qed

lemma own_beat: "evs \<noteq> [] \<Longrightarrow> e_kind hb = HEARTBEAT_KIND \<Longrightarrow> own_log (evs @ [hb]) = own_log evs"
  by (auto simp: own_log_def adopted_event_def HEARTBEAT_KIND_def)

lemma session_shown:
  assumes "session_ok env a" "amb_current a = Some c"
  shows "\<exists>p. project_lifecycle (env_codec env) (event_read (env_codec env) (Some (lc_id c)) (amb_files a)) now = Inr p \<and>
    (pj_state p = lc_state c \<or> gone_quiet c p) \<and> (own_log (log_of a (lc_id c)) \<longrightarrow> agree_full c p)"
proof -
  let ?evs = "log_of a (lc_id c)" and ?read = "event_read (env_codec env) (Some (lc_id c)) (amb_files a)"
  have f: "\<And>hb. beat_of a (lc_id c) = Some hb \<Longrightarrow> dget (index_corrections ?evs) (e_id hb) = None" and ag: "agrees_with ?evs c"
    using assms by (simp_all add: session_ok_def held_agrees_def logs_fold_def)
  then have ne: "?evs \<noteq> []" by (auto simp: agrees_with_def written_def)
  have "?read = ?evs \<or> (\<exists>hb. ?read = ?evs @ [hb] \<and> e_kind hb = HEARTBEAT_KIND \<and> beat_of a (lc_id c) = Some hb)"
    by (auto simp: event_read_def log_of_def beat_of_def Let_def read_heartbeat_sidecar_def split: option.splits log_line.splits if_splits)
  then have "agrees_with ?read c" "own_log ?read = own_log ?evs" using agrees_beat [OF f ag] own_beat [OF ne] ag by auto
  then show ?thesis by (elim agrees_shown [where own = True and k = "env_codec env" and now = now]) auto
qed

text \<open>The log a session attaches to, when none was left of it.\<close>

lemma attached_log:
  assumes run: "attach_other env l enc rep d ph a = (Inr c, b)" and ok: "session_ok env a" and l: "l \<noteq> ''''" and gone: "l \<notin> dirs a"
  obtains ev where "\<not> lc_fleeting c" "lc_scope c \<noteq> None" "read_log (Some l) (amb_files b) = [ev]"
    "e_kind ev = ''lifecycle.resumed''" "e_data ev = [(''cause'', JStr ''adopted'')]"
proof -
  obtain r1 b1 where lv: "leave_current env d a = (r1, b1)" by fastforce
  have "r1 = Inr ()" using run lv by (cases r1) (auto simp: attach_other_def sbind_def)
  let ?b = "b1\<lparr>amb_reads := amb_reads b1 + 1\<rparr>"
  let ?c = "\<lparr>lc_id = l, lc_state = Running, lc_phase = ph, lc_fleeting = False,
    lc_started_at = isoformat (env_codec env) (utc (env_clock env (amb_reads b1))), lc_enclosure = Some enc, lc_repo_id = rep,
    lc_scope = Some (compute_scope rep False)\<rparr>"
  let ?d = "[(''cause'', JStr ''adopted'')]"
  let ?e = "emitted env ''lifecycle.resumed'' Observed ActorSystem ?d (?b\<lparr>amb_current := Some ?c\<rparr>)"
  have "attach_other env l enc rep d ph a = (Inr ?c, snd (reap_stale_fleeting env (?e\<lparr>amb_ticking := True\<rparr>)))"
    using lv \<open>r1 = Inr ()\<close> by (simp add: attach_other_def sbind_def [of "leave_current env d"] Let_def sbind_reap)
  then have "(Inr ?c, snd (reap_stale_fleeting env (?e\<lparr>amb_ticking := True\<rparr>))) = (Inr c :: lifecycle_state res, b)"
    using run by (rule trans [OF sym])
  then have b: "b = snd (reap_stale_fleeting env (?e\<lparr>amb_ticking := True\<rparr>))" "c = ?c" by blast+
  have "l \<notin> dirs b1" using leave_current_dirs [OF ok lv] gone by simp
  then have "log_of b1 l = []" using l by (rule no_dir_no_log)
  then have e: "log_of ?e l = [emission env ''lifecycle.resumed'' Observed ActorSystem ?d ?c (?b\<lparr>amb_current := Some ?c\<rparr>)]"
    using l by (simp add: emitted_log HEARTBEAT_KIND_def)
  have "l \<notin> set (stale_fleeting env (?e\<lparr>amb_ticking := True\<rparr>))" using held_not_stale [of "?e\<lparr>amb_ticking := True\<rparr>" ?c env] by simp
  then have "log_of b l = log_of ?e l" unfolding b(1) using reap_log [OF l] by simp
  with e b(2) that show thesis by (simp add: log_of_def)
qed

end
