(* ===== verification/Projection_Properties.thy ===== *)
theory Projection_Properties
  imports Projection_Agreement
begin

section \<open>Properties of the projection\<close>

text \<open>
  What the dashboard can rely on: it shows the state the session is in; its fuel gauge is bounded and exact; every worktree is
  shown and abandoned ones are over. Two theorems show where the projection is wrong: a lifecycle adopted after its log was
  pruned, and the actions of a lifecycle whose worktree was abandoned.
\<close>

subsection \<open>Reader and writer\<close>

text \<open>
  Claim C35: the dashboard shows the state the session is in. Take any run of a session in which no id is minted twice, over logs that
  fold and whose corrections name neither an event of this session nor a heartbeat. The projection of the held lifecycle's log succeeds
  and shows its state, unless the log has gone quiet and the state shown is marked as inferred; and if the lifecycle was born in this
  log and never adopted, it shows its phase, its fleeting flag, its scope and its enclosure.
\<close>

theorem session_is_shown:
  assumes "(fresh_step env)\<^sup>*\<^sup>* a0 a" and "ids_fresh env a0" and "logs_fold env a0" and "amb_current a0 = None"
    and "amb_current a = Some c"
  shows "\<exists>p. project_lifecycle (env_codec env) (event_read (env_codec env) (Some (lc_id c)) (amb_files a)) now = Inr p \<and>
    (pj_state p = lc_state c \<or> gone_quiet c p) \<and> (own_log (log_of a (lc_id c)) \<longrightarrow> agree_full c p)"
proof -
  have "session_inv env a0" using assms(2-4) by (simp add: session_inv_def session_ok_def held_agrees_def)
  from session_machine.run_keeps [OF assms(1) this] have "session_ok env a" by (simp add: session_inv_def)
  then show ?thesis by (rule session_shown [OF _ assms(5)])
qed

definition ex_session_env :: ambient_env where
  "ex_session_env = \<lparr>env_codec = micro_codec, env_clock = int, env_mint = (\<lambda>n. replicate (Suc n) CHR ''x''), env_ttl_seconds = 60,
     env_inactivity_cutoff_seconds = 600\<rparr>"

definition ex_idle :: ambient where
  "ex_idle = \<lparr>amb_current = None, amb_last_activity = None, amb_ticking = False, amb_served = [],
     amb_files = \<lparr>of_workspace = None, of_lifecycles = []\<rparr>, amb_reads = 0, amb_minted = 0\<rparr>"

definition ex_started :: ambient where
  "ex_started = snd (amb_block ex_session_env None None None (snd (amb_start ex_session_env True PDecide ex_idle)))"

lemma ex_idle_fresh: "ids_fresh ex_session_env ex_idle" "logs_fold ex_session_env ex_idle" "amb_current ex_idle = None"
  by (simp_all add: ids_fresh_def logs_fold_def ex_idle_def ex_session_env_def dirs_def log_of_def read_log_def dir_of_def
      empty_dir_def read_tolerant_def foldable_def uncorrected_def beat_of_def read_heartbeat_sidecar_def)

lemma ex_run: "(fresh_step ex_session_env)\<^sup>*\<^sup>* ex_idle ex_started"
proof -
  let ?a = "snd (amb_start ex_session_env True PDecide ex_idle)"
  have d: "amb_minted ?a = 2 \<and> map fst (of_lifecycles (amb_files ?a)) = [''x''] \<and> map_option lc_id (amb_current ?a) = Some ''x''"
    "amb_minted ex_started = 3 \<and> map fst (of_lifecycles (amb_files ex_started)) = [''x''] \<and>
       map_option lc_id (amb_current ex_started) = Some ''x''"
    by code_simp+
  have f: "ids_fresh ex_session_env b" if "1 \<le> amb_minted b \<and> map fst (of_lifecycles (amb_files b)) = [''x''] \<and>
      map_option lc_id (amb_current b) = Some ''x''" for b
  proof -
    have "env_mint ex_session_env n \<noteq> ''x''" if "1 \<le> n" for n
      using that by (cases n) (simp_all add: ex_session_env_def)
    with that show ?thesis unfolding ids_fresh_def dirs_def set_map [symmetric] by (auto simp: ex_session_env_def)
  qed
  have "fresh_step ex_session_env ex_idle ?a" using f [of ?a] d by (simp add: fresh_step_def step_start)
  moreover have "fresh_step ex_session_env ?a ex_started"
    using f [of ex_started] d by (simp add: fresh_step_def) (simp add: ex_started_def step_block)
  ultimately show ?thesis by simp
qed

theorem session_is_shown_witness:
  "\<exists>p. project_lifecycle micro_codec (event_read micro_codec (Some ''x'') (amb_files ex_started)) 5 = Inr p \<and>
    pj_state p = Blocked \<and> pj_phase p = PDecide \<and> pj_fleeting p"
proof -
  obtain c where c: "amb_current ex_started = Some c" "lc_id c = ''x''" "lc_state c = Blocked" "lc_phase c = PDecide" "lc_fleeting c"
  proof -
    have "map_option (\<lambda>c. (lc_id c, lc_state c, lc_phase c, lc_fleeting c)) (amb_current ex_started) =
      Some (''x'', Blocked, PDecide, True)" by code_simp
    with that show thesis by auto
  qed
  have codec: "env_codec ex_session_env = micro_codec" by (simp add: ex_session_env_def)
  have "own_log (log_of ex_started ''x'')" by code_simp
  moreover from session_is_shown [OF ex_run ex_idle_fresh c(1), of 5, unfolded codec c(2)]
  obtain p where p: "project_lifecycle micro_codec (event_read micro_codec (Some ''x'') (amb_files ex_started)) 5 = Inr p"
    "pj_state p = lc_state c \<or> gone_quiet c p" "own_log (log_of ex_started ''x'') \<longrightarrow> agree_full c p" by blast
  moreover have "\<not> gone_quiet c p"
  proof -
    have "map_option pj_inferred (case project_lifecycle micro_codec (event_read micro_codec (Some ''x'') (amb_files ex_started)) 5 of
        Inl e \<Rightarrow> None | Inr p \<Rightarrow> Some p) = Some False" by code_simp
    with p(1) show ?thesis by (simp add: gone_quiet_def)
  qed
  ultimately show ?thesis using c by (auto simp: agree_full_def)
qed

text \<open>
  A lifecycle adopted after its log was pruned is shown as fleeting. When a session attaches to a lifecycle of which no
  log is left, it holds a persistent lifecycle, but the log now starts with the adoption, and the projection takes that first
  event for a birth without a flag: it shows a fleeting lifecycle without a scope, and abandoned once the log is an hour old.
\<close>

theorem adopted_after_prune_shown_fleeting:
  assumes "amb_attach env l enc rep d ph a = (Inr c, b)" and "session_ok env a" and "l \<noteq> ''''"
    and "map_option lc_id (amb_current a) \<noteq> Some l" and "l \<notin> dirs a"
    and "project_lifecycle (env_codec env) (read_log (Some l) (amb_files b)) now = Inr p"
  shows "\<not> lc_fleeting c \<and> lc_scope c \<noteq> None \<and> pj_fleeting p \<and> pj_scope p = JNull \<and>
    (\<forall>age. pj_staleSeconds p = Some age \<and> TTL_SECONDS < age \<longrightarrow> pj_state p = Abandoned)"
proof -
  have "attach_other env l enc rep d ph a = (Inr c, b)"
    using assms(1,4) by (cases "amb_current a") (simp_all add: amb_attach_def sbind_sget split: if_splits)
  from attached_log [OF this assms(2,3,5)] obtain ev where
    c: "\<not> lc_fleeting c" "lc_scope c \<noteq> None" and
    log: "read_log (Some l) (amb_files b) = [ev]" "e_kind ev = ''lifecycle.resumed''" "e_data ev = [(''cause'', JStr ''adopted'')]" .
  obtain q where q: "written [ev] = Inr q" "pj_fleeting q" "pj_scope q = JNull" "pj_state q = Running"
    using log(3) by (simp add: written_single seed_from_started_def phase_of_data_def)
  have "pj_fleeting (project_inferred k (q\<lparr>pj_lastEventTs := t\<rparr>) [ev] now) \<and> pj_scope (project_inferred k (q\<lparr>pj_lastEventTs := t\<rparr>) [ev] now) = JNull \<and>
      (\<forall>age. pj_staleSeconds (project_inferred k (q\<lparr>pj_lastEventTs := t\<rparr>) [ev] now) = Some age \<and> TTL_SECONDS < age \<longrightarrow>
        pj_state (project_inferred k (q\<lparr>pj_lastEventTs := t\<rparr>) [ev] now) = Abandoned)" for k t
    using q(2-4) by (simp add: project_inferred_def Let_def TERMINAL_STATES_def split: option.split)
  with assms(6) log(1) q(1) have "pj_fleeting p \<and> pj_scope p = JNull \<and>
      (\<forall>age. pj_staleSeconds p = Some age \<and> TTL_SECONDS < age \<longrightarrow> pj_state p = Abandoned)"
    by (auto simp: project_lifecycle_written Let_def)
  with c show ?thesis by simp
qed

definition ex_adopted :: ambient where
  "ex_adopted = snd (amb_attach ex_session_env ''L'' ''contract'' (Some ''repo'') None PBuild ex_idle)"

theorem adopted_after_prune_shown_fleeting_witness:
  "\<exists>c p. amb_current ex_adopted = Some c \<and> \<not> lc_fleeting c \<and>
     project_lifecycle micro_codec (read_log (Some ''L'') (amb_files ex_adopted)) 4000000001 = Inr p \<and> pj_fleeting p \<and>
     pj_state p = Abandoned"
proof -
  have r: "(case fst (amb_attach ex_session_env ''L'' ''contract'' (Some ''repo'') None PBuild ex_idle) of Inl e \<Rightarrow> None | Inr c \<Rightarrow> Some c) =
      amb_current ex_adopted \<and> amb_current ex_adopted \<noteq> None"
    by code_simp
  then obtain c where c: "amb_attach ex_session_env ''L'' ''contract'' (Some ''repo'') None PBuild ex_idle = (Inr c, ex_adopted)"
    "amb_current ex_adopted = Some c"
    by (cases "amb_attach ex_session_env ''L'' ''contract'' (Some ''repo'') None PBuild ex_idle")
      (auto simp: ex_adopted_def split: sum.splits)
  have shown: "(case project_lifecycle micro_codec (read_log (Some ''L'') (amb_files ex_adopted)) 4000000001 of
      Inl e \<Rightarrow> None | Inr p \<Rightarrow> pj_staleSeconds p) = Some 4000" by code_simp
  then obtain p where p: "project_lifecycle micro_codec (read_log (Some ''L'') (amb_files ex_adopted)) 4000000001 = Inr p"
    "pj_staleSeconds p = Some 4000" by (auto split: sum.splits)
  have ok: "session_ok ex_session_env ex_idle" "map_option lc_id (amb_current ex_idle) \<noteq> Some ''L''" "''L'' \<notin> dirs ex_idle"
    using ex_idle_fresh by (simp_all add: session_ok_def held_agrees_def dirs_def) (simp add: ex_idle_def)
  have "env_codec ex_session_env = micro_codec" by (simp add: ex_session_env_def)
  with p(1) have "project_lifecycle (env_codec ex_session_env) (read_log (Some ''L'') (amb_files ex_adopted)) 4000000001 = Inr p" by simp
  from adopted_after_prune_shown_fleeting [OF c(1) ok(1) _ ok(2,3) this] p(2) have "\<not> lc_fleeting c" "pj_fleeting p" "pj_state p = Abandoned"
    by (simp_all add: TTL_SECONDS_def)
  with c(2) p(1) show ?thesis by blast
qed

subsection \<open>The fuel gauge\<close>

text \<open>
  The fuel gauge is bounded and exact. The token series a projection serves has at most 512 samples; they are samples of
  the full cumulative series, in order, the newest 256 of them without a gap; the last one is the total of the tokens the log
  reports, and for a log that starts with its birth that total is the projection's own.
\<close>

theorem token_gauge_exact:
  assumes "project_lifecycle c evs now = Inr p"
  shows "length (pj_tokenSeries p) \<le> TOKEN_SERIES_MAX \<and> subseq (pj_tokenSeries p) (token_samples evs 0) \<and>
    drop (length (pj_tokenSeries p) - TOKEN_SERIES_RECENT) (pj_tokenSeries p) =
      drop (length (token_samples evs 0) - TOKEN_SERIES_RECENT) (token_samples evs 0) \<and>
    (pj_tokenSeries p \<noteq> [] \<longrightarrow> tk_cumulative (last (pj_tokenSeries p)) = sum_list (map event_tokens evs)) \<and>
    (e_kind (hd evs) \<noteq> ''tool.completed'' \<longrightarrow> pj_tokens p = sum_list (map event_tokens evs))"
proof -
  note t = project_lifecycle_tokens [OF assms]
  have "evs \<noteq> []" using assms by (auto simp: project_lifecycle_def)
  then have "e_kind (hd evs) \<noteq> ''tool.completed'' \<longrightarrow> sum_list (map event_tokens (tl evs)) = sum_list (map event_tokens evs)"
    by (cases evs) (simp_all add: event_tokens_def)
  then show ?thesis
    using t decimate_bound decimate_subseq decimate_recent token_series_end [of evs] by (simp add: token_series_def)
qed

definition ex_tool_log :: "event list" where
  "ex_tool_log = (let ev = (\<lambda>k d. \<lparr>e_schema = OBSERVER_EVENT_SCHEMA, e_id = k, e_ts = ''1'', e_kind = k, e_trust = Observed,
       e_actor = ActorModel, e_data = d, e_lifecycleId = Some ''L'', e_enclosure = None, e_repoId = None, e_sessionId = None,
       e_spanId = None\<rparr>)
     in [ev ''lifecycle.started'' [(''phase'', JStr ''build'')], ev ''tool.completed'' [(''tokens'', JNum 30)],
         ev ''tool.completed'' [(''tokens'', JNull)], ev ''tool.completed'' [(''tokens'', JNum 12)]])"

theorem token_gauge_exact_witness:
  "\<exists>p. project_lifecycle micro_codec ex_tool_log 5 = Inr p \<and> pj_tokens p = 42 \<and> tk_cumulative (last (pj_tokenSeries p)) = 42"
proof -
  have "(case project_lifecycle micro_codec ex_tool_log 5 of Inl e \<Rightarrow> None | Inr p \<Rightarrow> Some (length (pj_tokenSeries p))) = Some 2"
    by code_simp
  then obtain p where p: "project_lifecycle micro_codec ex_tool_log 5 = Inr p" "length (pj_tokenSeries p) = 2"
    by (auto split: sum.splits)
  have s: "sum_list (map event_tokens ex_tool_log) = 42" "e_kind (hd ex_tool_log) = ''lifecycle.started''" by code_simp+
  from p(2) have "pj_tokenSeries p \<noteq> []" by auto
  with token_gauge_exact [OF p(1)] s p(1) show ?thesis by auto
qed

subsection \<open>Worktrees\<close>

text \<open>
  Every worktree is shown, and abandoned ones are over. In the lifecycles of a workspace, an enclosure that is neither
  abandoned nor reopened is the anchor or the name of some lifecycle; a lifecycle that is not fleeting and anchored at an
  abandoned enclosure is in a terminal state; and a lifecycle anchored at an enclosure that names another one is not shown.
\<close>

theorem workspace_shows_worktrees:
  assumes "distinct (map en_enclosure es)"
  shows "(\<forall>e\<in>set es. worktree_backed e \<longrightarrow> (\<exists>p\<in>set (workspace_lifecycles es gates ps).
      pj_enclosure p = Some (en_enclosure e) \<or> en_lifecycleId e \<noteq> '''' \<and> pj_id p = en_lifecycleId e)) \<and>
    (\<forall>p\<in>set (workspace_lifecycles es gates ps). \<forall>e\<in>set es. \<not> pj_fleeting p \<and> pj_enclosure p = Some (en_enclosure e) \<longrightarrow>
      (en_cleanup e = ''abandoned'' \<longrightarrow> pj_state p \<in> set TERMINAL_STATES) \<and>
      (en_enclosure e \<noteq> '''' \<and> en_lifecycleId e \<noteq> '''' \<longrightarrow> pj_id p = en_lifecycleId e))"
  using workspace_shows_each workspace_over [OF assms] by blast

definition ex_enclosure :: "string \<Rightarrow> string \<Rightarrow> string \<Rightarrow> enclosure_node" where
  "ex_enclosure path l cleanup = \<lparr>en_enclosure = path, en_enclosureId = '''', en_leafId = '''', en_taskId = ''T'', en_taskName = ''task'',
     en_repoName = ''repo'', en_taskRoot = '''', en_lifecycleId = l, en_worktreeGroup = '''', en_humanReviewStatus = '''',
     en_closeoutStatus = ''not-started'', en_integrationStatus = ''not-started'', en_cleanup = cleanup,
     en_codeWorktreeExists = True, en_memoryWorktreeExists = True, en_actions = []\<rparr>"

theorem workspace_shows_worktrees_witness:
  "\<exists>p\<in>set (workspace_lifecycles [ex_enclosure ''A'' ''L'' ''pending'', ex_enclosure ''B'' ''M'' ''abandoned''] [] []).
    pj_enclosure p = Some ''A'' \<or> pj_id p = ''L''"
proof -
  let ?es = "[ex_enclosure ''A'' ''L'' ''pending'', ex_enclosure ''B'' ''M'' ''abandoned'']"
  have "distinct (map en_enclosure ?es)" by (simp add: ex_enclosure_def)
  from workspace_shows_worktrees [OF this, of "[]" "[]"]
  have "\<forall>e\<in>set ?es. worktree_backed e \<longrightarrow> (\<exists>p\<in>set (workspace_lifecycles ?es [] []).
      pj_enclosure p = Some (en_enclosure e) \<or> en_lifecycleId e \<noteq> '''' \<and> pj_id p = en_lifecycleId e)" by (rule conjunct1)
  then have "\<exists>p\<in>set (workspace_lifecycles ?es [] []). pj_enclosure p = Some ''A'' \<or> ''L'' \<noteq> '''' \<and> pj_id p = ''L''"
    by (simp add: ex_enclosure_def worktree_backed_def)
  then show ?thesis by auto
qed

text \<open>
  An abandoned worktree can be shown as resumable. A blocked lifecycle whose enclosure was abandoned is projected as
  abandoned, but with the actions computed while it was blocked: its resume action is enabled.
\<close>

theorem abandoned_lifecycle_resumable:
  assumes "project_lifecycle c evs now = Inr p" and "pj_state p = Blocked" and "\<not> pj_fleeting p"
    and "en_lifecycleId e = pj_id p" and "pj_enclosure p = Some (en_enclosure e)" and "en_enclosure e \<noteq> ''''" and "en_cleanup e = ''abandoned''"
  shows "\<exists>q\<in>set (workspace_lifecycles [e] gates [p]). pj_id q = pj_id p \<and> pj_state q = Abandoned \<and>
    (\<exists>act\<in>set (pj_actions q). aa_action act = ''resume'' \<and> aa_enabled act)"
proof -
  have act: "pj_actions p = lifecycle_actions (p\<lparr>pj_actions := x\<rparr>)" for x
    using assms(1) by (auto simp: project_lifecycle_written rbind_eq_Inr Let_def lifecycle_actions_def)
  let ?q = "attach_gate gates (p\<lparr>pj_state := Abandoned\<rparr>)"
  have "pj_actions ?q = lifecycle_actions p" using act [of "pj_actions p"] by simp
  then have "\<exists>act\<in>set (pj_actions ?q). aa_action act = ''resume'' \<and> aa_enabled act"
    using assms(2) by (simp add: lifecycle_actions_def)
  moreover have "?q \<in> set (workspace_lifecycles [e] gates [p])"
    using assms(2-)
    by (simp add: workspace_lifecycles_def current_event_backed_lifecycles_def event_backed_lifecycle_is_current_def fold_by_def
        terminalize_abandoned_anchor_lifecycles_def TERMINAL_STATES_def Let_def)
  ultimately show ?thesis by (intro bexI [of _ ?q]) simp_all
qed

definition ex_blocked_log :: "event list" where
  "ex_blocked_log = (let ev = (\<lambda>k d. \<lparr>e_schema = OBSERVER_EVENT_SCHEMA, e_id = k, e_ts = ''1'', e_kind = k, e_trust = Observed,
       e_actor = ActorModel, e_data = d, e_lifecycleId = Some ''M'', e_enclosure = Some ''B'', e_repoId = None, e_sessionId = None,
       e_spanId = None\<rparr>)
     in [ev ''lifecycle.started'' [(''fleeting'', JBool False)], ev ''lifecycle.blocked'' []])"

theorem abandoned_lifecycle_resumable_witness:
  "\<exists>p. project_lifecycle micro_codec ex_blocked_log 5 = Inr p \<and>
    (\<exists>q\<in>set (workspace_lifecycles [ex_enclosure ''B'' ''M'' ''abandoned''] [] [p]). pj_state q = Abandoned \<and>
      (\<exists>act\<in>set (pj_actions q). aa_action act = ''resume'' \<and> aa_enabled act))"
proof -
  have "(case project_lifecycle micro_codec ex_blocked_log 5 of Inl e \<Rightarrow> None
      | Inr p \<Rightarrow> Some (pj_state p, pj_fleeting p, pj_id p, pj_enclosure p)) = Some (Blocked, False, ''M'', Some ''B'')" by code_simp
  then obtain p where p: "project_lifecycle micro_codec ex_blocked_log 5 = Inr p" "pj_state p = Blocked" "\<not> pj_fleeting p" "pj_id p = ''M''"
    "pj_enclosure p = Some ''B''" by (auto split: sum.splits)
  have "en_lifecycleId (ex_enclosure ''B'' ''M'' ''abandoned'') = pj_id p" "pj_enclosure p = Some (en_enclosure (ex_enclosure ''B'' ''M'' ''abandoned''))"
    "en_enclosure (ex_enclosure ''B'' ''M'' ''abandoned'') \<noteq> ''''" "en_cleanup (ex_enclosure ''B'' ''M'' ''abandoned'') = ''abandoned''"
    using p by (simp_all add: ex_enclosure_def)
  from abandoned_lifecycle_resumable [OF p(1-3) this, of "[]"] p(1) show ?thesis by blast
qed

end
