(* ===== verification/Memory_Ledger.thy ===== *)
theory Memory_Ledger
  imports Py_Text
begin

section \<open>The memory ledger\<close>

text \<open>
  \<^verbatim>\<open>kernel/memory_ledger.py\<close>: which memory commit describes which code commit, as a markdown file: a fenced JSON block and a
  table. The text of \<^verbatim>\<open>json.dumps\<close> on the metadata is written out; \<^verbatim>\<open>json.loads\<close> is an argument, \<open>loads\<close> (\<open>None\<close> when it raises).
  The regular expressions are written out as the searches they stand for. The disk is the caller's.
\<close>

record ledger_row =
  lr_code_commit :: string
  lr_memory_commit :: string

record memory_ledger =
  ml_repo_name :: string
  ml_base_code_commit :: string
  ml_base_memory_commit :: string
  ml_last_verified_code_commit :: string
  ml_last_memory_content_commit :: string
  ml_sort_order :: string
  ml_rows :: "ledger_row list"
  ml_schema :: string

definition LEDGER_SCHEMA :: string where
  "LEDGER_SCHEMA = ''ar-memory-ledger/v1''"

definition LEGACY_LEDGER_SCHEMA :: string where
  "LEGACY_LEDGER_SCHEMA = ''ar-memory-branch-ledger/v1''"

subsection \<open>The metadata block\<close>

text \<open>The string literals of \<^verbatim>\<open>json.dumps\<close> with ASCII output, and a flat object with an indent of two.\<close>

definition json_char :: "char \<Rightarrow> string" where
  "json_char c =
     (let n = (of_char c :: nat) in
      if n = 34 then [CHR 0x5C, CHR 0x22] else if n = 92 then [CHR 0x5C, CHR 0x5C]
      else if n = 10 then [CHR 0x5C, CHR ''n''] else if n = 13 then [CHR 0x5C, CHR ''r''] else if n = 9 then [CHR 0x5C, CHR ''t'']
      else if n = 8 then [CHR 0x5C, CHR ''b''] else if n = 12 then [CHR 0x5C, CHR ''f'']
      else if 32 \<le> n \<and> n \<le> 126 then [c]
      else [CHR 0x5C, CHR ''u'', CHR ''0'', CHR ''0'', hex_digit (n div 16), hex_digit (n mod 16)])"

definition json_string :: "string \<Rightarrow> string" where
  "json_string s = CHR 0x22 # concat (map json_char s) @ [CHR 0x22]"

definition json_pair :: "string \<times> string \<Rightarrow> string" where
  "json_pair kv = ''  '' @ json_string (fst kv) @ '': '' @ json_string (snd kv)"

definition json_dumps :: "(string \<times> string) list \<Rightarrow> string" where
  "json_dumps kvs = CHR ''{'' # CHR 0x0A # join_text [CHR '','', CHR 0x0A] (map json_pair kvs) @ [CHR 0x0A, CHR ''}'']"

definition fence :: string where
  "fence = replicate 3 CHR 0x60"

text \<open>
  \<^verbatim>\<open>\s*\n(.*?)\n```\<close> behind the opening words: the white space is taken as far as it goes and given back to an earlier newline only
  when no closing fence follows; the body ends at the first closing fence.
\<close>

fun fence_body :: "string \<Rightarrow> (string \<times> string) option" where
  "fence_body [] = None"
| "fence_body (c # cs) =
     (if \<not> is_space c then None
      else case fence_body cs of
             Some r \<Rightarrow> Some r
           | None \<Rightarrow> if c = CHR 0x0A then cut_at (CHR 0x0A # fence) cs else None)"

definition fence_at :: "string \<Rightarrow> (string \<times> string) option" where
  "fence_at s =
     (if \<not> starts_with (fence @ ''json'') s then None
      else let s1 = drop 7 s; s2 = dropWhile is_space s1
           in if s2 = s1 \<or> \<not> starts_with ''ar-memory-ledger'' s2 then None else fence_body (drop 16 s2))"

text \<open>\<^verbatim>\<open>LEDGER_FENCE_RE.search\<close>: the body of the first match and the text behind it.\<close>

fun fence_search :: "string \<Rightarrow> (string \<times> string) option" where
  "fence_search [] = None"
| "fence_search (c # cs) = (case fence_at (c # cs) of Some r \<Rightarrow> Some r | None \<Rightarrow> fence_search cs)"

fun metadata_get :: "(string \<times> json) list \<Rightarrow> string list \<Rightarrow> string" where
  "metadata_get metadata [] = ''''"
| "metadata_get metadata (name # names) =
     (case dget metadata name of
        Some (JStr value) \<Rightarrow> if strip value \<noteq> '''' then strip value else metadata_get metadata names
      | _ \<Rightarrow> metadata_get metadata names)"

subsection \<open>The table\<close>

definition strip_pipes :: "string \<Rightarrow> string" where
  "strip_pipes s = rev (dropWhile (\<lambda>c. c = CHR ''|'') (rev (dropWhile (\<lambda>c. c = CHR ''|'') s)))"

definition table_cells :: "string \<Rightarrow> string list" where
  "table_cells line =
     (let stripped = strip line
      in if take 1 stripped \<noteq> ''|'' \<or> take 1 (rev stripped) \<noteq> ''|'' then []
         else map strip (split_on CHR ''|'' (strip_pipes stripped)))"

text \<open>\<^verbatim>\<open>:?-{3,}:?\<close> in full.\<close>

definition separator_cell :: "string \<Rightarrow> bool" where
  "separator_cell cell =
     (let s1 = (if take 1 cell = '':'' then drop 1 cell else cell);
          dashes = takeWhile (\<lambda>c. c = CHR ''-'') s1; rest = dropWhile (\<lambda>c. c = CHR ''-'') s1
      in 3 \<le> length dashes \<and> (rest = '''' \<or> rest = '':''))"

definition is_separator_row :: "string \<Rightarrow> bool" where
  "is_separator_row line = (let cells = table_cells line in cells \<noteq> [] \<and> list_all separator_cell cells)"

fun ledger_rows_loop :: "string list \<Rightarrow> ledger_row list \<Rightarrow> ledger_row list res" where
  "ledger_rows_loop [] rows = Inr rows"
| "ledger_rows_loop (line # ls) rows =
     (case table_cells line of
        [] \<Rightarrow> if rows \<noteq> [] then Inr rows else ledger_rows_loop ls rows
      | [code, mem] \<Rightarrow> ledger_rows_loop ls (rows @ [\<lparr>lr_code_commit = code, lr_memory_commit = mem\<rparr>])
      | _ \<Rightarrow> Inl (LedgerError ''memory.md ledger table rows must have exactly two columns''))"

definition ledger_rows_from :: "string list \<Rightarrow> ledger_row list res" where
  "ledger_rows_from row_lines =
     rbind (ledger_rows_loop row_lines []) (\<lambda>rows.
       if rows = [] then Inl (LedgerError ''memory.md ledger table must contain at least one mapping row'') else Inr rows)"

fun ledger_table :: "string list \<Rightarrow> ledger_row list res" where
  "ledger_table [] = Inl (LedgerError ''memory.md is missing the `Code commit | Memory commit` table'')"
| "ledger_table (line # ls) =
     (if map (map lower_char) (table_cells line) \<noteq> [''code commit'', ''memory commit''] then ledger_table ls
      else case ls of
             [] \<Rightarrow> Inl (LedgerError ''memory.md ledger table header is not followed by a separator row'')
           | separator # rows \<Rightarrow>
               if is_separator_row separator then ledger_rows_from rows
               else Inl (LedgerError ''memory.md ledger table header is not followed by a separator row''))"

definition parse_ledger_rows :: "string \<Rightarrow> ledger_row list res" where
  "parse_ledger_rows s = ledger_table (splitlines s)"

subsection \<open>The ledger\<close>

definition validate_ledger :: "memory_ledger \<Rightarrow> unit res" where
  "validate_ledger ledger =
     (if ml_sort_order ledger \<noteq> ''newest-first'' then Inl (LedgerError ''memory.md ledger sortOrder must be `newest-first`'')
      else case ml_rows ledger of
             [] \<Rightarrow> Inl (LedgerError ''memory.md ledger must contain at least one row'')
           | first # _ \<Rightarrow>
               if lr_code_commit first \<noteq> ml_last_verified_code_commit ledger
               then Inl (LedgerError ''memory.md first Code commit row must match lastVerifiedCodeCommit'')
               else if lr_memory_commit first \<noteq> ml_last_memory_content_commit ledger
               then Inl (LedgerError ''memory.md first Memory commit row must match lastMemoryContentCommit'')
               else Inr ())"

definition read_metadata :: "(string \<times> json) list \<Rightarrow> memory_ledger" where
  "read_metadata metadata =
     \<lparr>ml_repo_name = metadata_get metadata [''repoName'', ''repo_name''],
      ml_base_code_commit = metadata_get metadata [''baseCodeCommit'', ''base_code_commit''],
      ml_base_memory_commit = metadata_get metadata [''baseMemoryCommit'', ''base_memory_commit''],
      ml_last_verified_code_commit = metadata_get metadata [''lastVerifiedCodeCommit'', ''last_verified_code_commit''],
      ml_last_memory_content_commit = metadata_get metadata [''lastMemoryContentCommit'', ''last_memory_content_commit''],
      ml_sort_order = metadata_get metadata [''sortOrder'', ''sort_order''], ml_rows = [],
      ml_schema = metadata_get metadata [''schema'']\<rparr>"

definition missing_metadata :: "memory_ledger \<Rightarrow> bool" where
  "missing_metadata m \<longleftrightarrow>
     '''' \<in> {ml_schema m, ml_repo_name m, ml_base_code_commit m, ml_base_memory_commit m, ml_last_verified_code_commit m,
             ml_last_memory_content_commit m, ml_sort_order m}"

definition parse_ledger_text :: "(string \<Rightarrow> json option) \<Rightarrow> string \<Rightarrow> memory_ledger res" where
  "parse_ledger_text loads s =
     (case fence_search s of
        None \<Rightarrow> Inl (LedgerError ''memory.md is missing a fenced `json ar-memory-ledger` metadata block'')
      | Some (body, rest) \<Rightarrow>
          (case loads body of
             None \<Rightarrow> Inl (LedgerError ''memory.md ledger metadata is invalid JSON'')
           | Some (JObj metadata) \<Rightarrow>
               let m = read_metadata metadata in
               if missing_metadata m then Inl (LedgerError ''memory.md ledger metadata is missing required fields'')
               else if ml_schema m \<notin> {LEDGER_SCHEMA, LEGACY_LEDGER_SCHEMA} then Inl (LedgerError ''unsupported memory ledger schema'')
               else rbind (parse_ledger_rows rest) (\<lambda>rows.
                    let ledger = m\<lparr>ml_rows := rows\<rparr> in rbind (validate_ledger ledger) (\<lambda>_. Inr ledger))
           | Some _ \<Rightarrow> Inl (LedgerError ''memory.md ledger metadata must be a JSON object'')))"

definition ledger_metadata :: "memory_ledger \<Rightarrow> (string \<times> string) list" where
  "ledger_metadata ledger =
     [(''schema'', LEDGER_SCHEMA), (''repoName'', ml_repo_name ledger), (''baseCodeCommit'', ml_base_code_commit ledger),
      (''baseMemoryCommit'', ml_base_memory_commit ledger), (''lastVerifiedCodeCommit'', ml_last_verified_code_commit ledger),
      (''lastMemoryContentCommit'', ml_last_memory_content_commit ledger), (''sortOrder'', ml_sort_order ledger)]"

definition row_line :: "ledger_row \<Rightarrow> string" where
  "row_line row = ''| '' @ lr_code_commit row @ '' | '' @ lr_memory_commit row @ '' |''"

definition ledger_to_text :: "memory_ledger \<Rightarrow> string res" where
  "ledger_to_text ledger =
     rbind (validate_ledger ledger) (\<lambda>_. Inr (join_text [CHR 0x0A]
       ([''# Memory Ledger'', '''', fence @ ''json ar-memory-ledger'', json_dumps (ledger_metadata ledger), fence, '''',
         ''Newest entries are always inserted at the top.'', '''', ''| Code commit | Memory commit |'',
         ''| ----------- | ------------- |''] @ map row_line (ml_rows ledger) @ [''''])))"

definition load_ledger :: "(string \<Rightarrow> json option) \<Rightarrow> string option \<Rightarrow> memory_ledger res" where
  "load_ledger loads file =
     (case file of None \<Rightarrow> Inl (LedgerError ''memory ledger does not exist'') | Some s \<Rightarrow> parse_ledger_text loads s)"

definition write_ledger :: "memory_ledger \<Rightarrow> (string option, unit) prog" where
  "write_ledger ledger file =
     (case ledger_to_text ledger of Inl e \<Rightarrow> (Inl e, file) | Inr s \<Rightarrow> (Inr (), Some s))"

definition prepend_mapping :: "memory_ledger \<Rightarrow> string \<Rightarrow> string \<Rightarrow> memory_ledger res" where
  "prepend_mapping ledger code_commit memory_commit =
     (let code = strip code_commit; mem = strip memory_commit
      in if code = '''' \<or> mem = '''' then Inl (LedgerError ''code_commit and memory_commit are required'')
         else Inr (ledger\<lparr>ml_last_verified_code_commit := code, ml_last_memory_content_commit := mem,
                          ml_rows := \<lparr>lr_code_commit = code, lr_memory_commit = mem\<rparr> # ml_rows ledger\<rparr>))"

definition find_mapping :: "memory_ledger \<Rightarrow> string \<Rightarrow> ledger_row option" where
  "find_mapping ledger code_commit = (let wanted = strip code_commit in find (\<lambda>row. lr_code_commit row = wanted) (ml_rows ledger))"

definition create_initial_ledger :: "string \<Rightarrow> string \<Rightarrow> string \<Rightarrow> memory_ledger" where
  "create_initial_ledger repo_name code_commit memory_commit =
     \<lparr>ml_repo_name = repo_name, ml_base_code_commit = code_commit, ml_base_memory_commit = memory_commit,
      ml_last_verified_code_commit = code_commit, ml_last_memory_content_commit = memory_commit, ml_sort_order = ''newest-first'',
      ml_rows = [\<lparr>lr_code_commit = code_commit, lr_memory_commit = memory_commit\<rparr>], ml_schema = LEDGER_SCHEMA\<rparr>"

subsection \<open>Reading back what was written\<close>

abbreviation newline :: char where
  "newline \<equiv> CHR 0x0A"

definition clean_cell :: "string \<Rightarrow> bool" where
  "clean_cell s \<longleftrightarrow> strip s = s \<and> CHR ''|'' \<notin> set s \<and> (\<forall>c\<in>set s. \<not> line_break c)"

definition metadata_fields :: "memory_ledger \<Rightarrow> string list" where
  "metadata_fields l = [ml_repo_name l, ml_base_code_commit l, ml_base_memory_commit l,
     ml_last_verified_code_commit l, ml_last_memory_content_commit l]"

definition ledger_clean :: "memory_ledger \<Rightarrow> bool" where
  "ledger_clean l \<longleftrightarrow> (\<forall>s\<in>set (metadata_fields l). strip s = s) \<and>
     (\<forall>r\<in>set (ml_rows l). clean_cell (lr_code_commit r) \<and> clean_cell (lr_memory_commit r))"

lemma join_text_lines: "join_text sep (xs @ ['''']) = concat (map (\<lambda>x. x @ sep) xs)"
proof (induction xs)
  case (Cons x xs)
  then show ?case by (cases "xs @ ['''']") simp_all
qed simp

lemma row_cells:
  assumes "clean_cell (lr_code_commit r)" "clean_cell (lr_memory_commit r)"
  shows "table_cells (row_line r) = [lr_code_commit r, lr_memory_commit r]"
proof -
  let ?c = "lr_code_commit r" and ?m = "lr_memory_commit r"
  have line: "row_line r = CHR ''|'' # (CHR '' '' # ?c @ '' | '' @ ?m @ '' '') @ [CHR ''|'']" by (simp add: row_line_def)
  have "strip (row_line r) = row_line r" unfolding line by (rule strip_id) (simp add: is_space_def)
  moreover have "strip_pipes (row_line r) = (CHR '' '' # ?c @ [CHR '' '']) @ CHR ''|'' # (CHR '' '' # ?m @ [CHR '' ''])"
    unfolding line by (simp add: strip_pipes_def)
  moreover have "split_on CHR ''|'' ((CHR '' '' # ?c @ [CHR '' '']) @ CHR ''|'' # (CHR '' '' # ?m @ [CHR '' ''])) =
      [CHR '' '' # ?c @ [CHR '' ''], CHR '' '' # ?m @ [CHR '' '']]"
    using assms by (subst split_on_append) (auto simp: clean_cell_def split_on_no_sep)
  moreover have "is_space CHR '' ''" by (simp add: is_space_def)
  ultimately show ?thesis using assms by (simp add: table_cells_def clean_cell_def Let_def) (simp add: line)
qed

lemma rows_loop:
  "\<forall>r\<in>set rs. clean_cell (lr_code_commit r) \<and> clean_cell (lr_memory_commit r) \<Longrightarrow>
   ledger_rows_loop (map row_line rs) acc = Inr (acc @ rs)"
  by (induction rs arbitrary: acc) (simp_all add: row_cells)

lemma row_line_unbroken:
  "clean_cell (lr_code_commit r) \<Longrightarrow> clean_cell (lr_memory_commit r) \<Longrightarrow> c \<in> set (row_line r) \<Longrightarrow> \<not> line_break c"
  by (auto simp: row_line_def clean_cell_def line_break_def)

definition table_head :: "string list" where
  "table_head = ['''', '''', ''Newest entries are always inserted at the top.'', '''', ''| Code commit | Memory commit |'',
     ''| ----------- | ------------- |'']"

lemma table_head_unbroken: "\<forall>l\<in>set table_head. \<forall>c\<in>set l. \<not> line_break c"
  by code_simp

lemma table_head_cells: "map table_cells table_head = [[], [], [], [], [''Code commit'', ''Memory commit''], [''-----------'', ''-------------'']]"
  by code_simp

lemma table_head_separator: "is_separator_row ''| ----------- | ------------- |''"
  by code_simp

lemma header_lower: "map (map lower_char) [''Code commit'', ''Memory commit''] = [''code commit'', ''memory commit'']"
  by code_simp

lemma ledger_table_head:
  assumes "rs \<noteq> []" "\<forall>r\<in>set rs. clean_cell (lr_code_commit r) \<and> clean_cell (lr_memory_commit r)"
  shows "ledger_table (table_head @ map row_line rs) = Inr rs"
  using table_head_cells header_lower table_head_separator rows_loop [OF assms(2), of "[]"] assms(1)
  by (simp add: table_head_def ledger_rows_from_def)

lemma parse_rows_back:
  assumes "rs \<noteq> []" "\<forall>r\<in>set rs. clean_cell (lr_code_commit r) \<and> clean_cell (lr_memory_commit r)"
  shows "parse_ledger_rows (concat (map (\<lambda>l. l @ [newline]) (table_head @ map row_line rs))) = Inr rs"
proof -
  have "\<forall>l\<in>set (table_head @ map row_line rs). \<forall>c\<in>set l. \<not> line_break c"
    using table_head_unbroken row_line_unbroken assms(2) by auto
  from splitlines_lines [OF this, of "[]"] have
    "splitlines (concat (map (\<lambda>l. l @ [newline]) (table_head @ map row_line rs))) = table_head @ map row_line rs" by simp
  then show ?thesis using ledger_table_head [OF assms] by (simp only: parse_ledger_rows_def)
qed

text \<open>No newline of the metadata text stands before a backtick, so the first closing fence is the written one.\<close>

lemma cut_segment:
  "newline \<notin> set seg \<Longrightarrow> cut_at (newline # sub) (seg @ rest) = map_option (\<lambda>(b, r). (seg @ b, r)) (cut_at (newline # sub) rest)"
  by (induction seg) (auto simp: starts_with_def option.map_comp o_def case_prod_unfold option.map_ident)

lemma cut_fence_skip:
  "c \<noteq> CHR 0x60 \<Longrightarrow> cut_at (newline # fence) (newline # c # rest) = map_option (\<lambda>(b, r). (newline # b, r)) (cut_at (newline # fence) (c # rest))"
  by (simp add: starts_with_def fence_def numeral_eq_Suc)

lemma cut_fence_here: "cut_at (newline # fence) (newline # fence @ rest) = Some ([], rest)"
  by (simp add: starts_with_def fence_def numeral_eq_Suc)

lemma hex_digit_newline: "n < 16 \<Longrightarrow> hex_digit n \<noteq> newline"
proof -
  assume "n < 16"
  then have "hex_digit n \<in> set ''0123456789abcdef''" unfolding hex_digit_def by (intro nth_mem) simp
  moreover have "newline \<notin> set ''0123456789abcdef''" by simp
  ultimately show ?thesis by metis
qed

lemma json_char_newline: "newline \<notin> set (json_char c)"
proof -
  have "(of_char c :: nat) < 256" by (rule nat_of_char_less_256)
  then have "(of_char c :: nat) div 16 < 16" "(of_char c :: nat) mod 16 < 16" by (simp_all only: less_mult_imp_div_less mod_less_divisor)
  then have "hex_digit (of_char c div 16) \<noteq> newline" "hex_digit (of_char c mod 16) \<noteq> newline" by (simp_all only: hex_digit_newline not_False_eq_True)
  moreover have "(of_char c :: nat) \<noteq> 10 \<Longrightarrow> c \<noteq> newline" by auto
  ultimately show ?thesis by (auto simp: json_char_def Let_def)
qed

lemma json_pair_newline: "newline \<notin> set (json_pair kv)"
  using json_char_newline by (auto simp: json_pair_def json_string_def)

lemma json_pair_indent: "\<exists>t. json_pair kv = CHR '' '' # t"
  by (simp add: json_pair_def)

lemma cut_pairs:
  assumes "kvs \<noteq> []"
  shows "cut_at (newline # fence) (newline # join_text [CHR '','', newline] (map json_pair kvs) @ newline # CHR ''}'' # newline # fence @ rest) =
    Some (newline # join_text [CHR '','', newline] (map json_pair kvs) @ [newline, CHR ''}''], rest)"
  using assms
proof (induction kvs rule: list_nonempty_induct)
  case (single kv)
  obtain t where t: "json_pair kv = CHR '' '' # t" using json_pair_indent by blast
  have brace: "cut_at (newline # fence) (CHR ''}'' # newline # fence @ rest) = Some (''}'', rest)"
    using cut_segment [of "''}''" fence "newline # fence @ rest"] by (simp add: cut_fence_here del: cut_at.simps)
  have "cut_at (newline # fence) (json_pair kv @ newline # CHR ''}'' # newline # fence @ rest) = Some (json_pair kv @ [newline, CHR ''}''], rest)"
    by (simp add: cut_segment json_pair_newline cut_fence_skip brace del: cut_at.simps)
  then show ?case by (simp add: t cut_fence_skip del: cut_at.simps)
next
  case (cons kv kvs)
  obtain t where t: "json_pair kv = CHR '' '' # t" using json_pair_indent by blast
  have join: "join_text [CHR '','', newline] (map json_pair (kv # kvs)) =
      json_pair kv @ CHR '','' # newline # join_text [CHR '','', newline] (map json_pair kvs)"
    using cons.hyps by (cases kvs) simp_all
  have "newline \<notin> set (json_pair kv @ [CHR '',''])" using json_pair_newline by simp
  from cut_segment [OF this] cons.IH have
    "cut_at (newline # fence) (join_text [CHR '','', newline] (map json_pair (kv # kvs)) @ newline # CHR ''}'' # newline # fence @ rest) =
      Some (join_text [CHR '','', newline] (map json_pair (kv # kvs)) @ [newline, CHR ''}''], rest)"
    unfolding join by simp
  then show ?case unfolding join t by (simp add: cut_fence_skip del: cut_at.simps)
qed

lemma cut_dumps:
  "kvs \<noteq> [] \<Longrightarrow> cut_at (newline # fence) (json_dumps kvs @ newline # fence @ rest) = Some (json_dumps kvs, rest)"
  using cut_pairs [of kvs rest] cut_segment [of "[CHR ''{'']" fence] by (simp add: json_dumps_def del: cut_at.simps)

lemma fence_at_other: "c \<noteq> CHR 0x60 \<Longrightarrow> fence_at (c # s) = None"
  by (simp add: fence_at_def starts_with_def fence_def numeral_eq_Suc)

lemma fence_search_skip: "CHR 0x60 \<notin> set pre \<Longrightarrow> fence_search (pre @ s) = fence_search s"
  by (induction pre) (auto simp: fence_at_other)

lemma fence_search_here: "fence_at s = Some r \<Longrightarrow> fence_search s = Some r"
  by (cases s) (simp_all add: fence_at_def starts_with_def fence_def)

lemma fence_body_dumps:
  assumes "kvs \<noteq> []"
  shows "fence_body (newline # json_dumps kvs @ newline # fence @ rest) = Some (json_dumps kvs, rest)"
proof -
  have "fence_body (json_dumps kvs @ newline # fence @ rest) = None" by (simp add: json_dumps_def is_space_def)
  moreover have "is_space newline" by (simp add: is_space_def)
  ultimately show ?thesis using cut_dumps [OF assms] by simp
qed

lemma fence_at_written:
  assumes "kvs \<noteq> []"
  shows "fence_at (fence @ ''json ar-memory-ledger'' @ newline # json_dumps kvs @ newline # fence @ rest) = Some (json_dumps kvs, rest)"
proof -
  define tail where "tail = newline # json_dumps kvs @ newline # fence @ rest"
  have open_words: "fence @ ''json ar-memory-ledger'' @ tail = (fence @ ''json'') @ CHR '' '' # ''ar-memory-ledger'' @ tail" by simp
  have len: "length (fence @ ''json'') = 7" "length ''ar-memory-ledger'' = 16" by (simp_all add: fence_def)
  have "drop 7 ((fence @ ''json'') @ x) = x" for x using len(1) by (metis append_eq_conv_conj)
  moreover have "drop 16 (''ar-memory-ledger'' @ tail) = tail" using len(2) by (metis append_eq_conv_conj)
  moreover have "dropWhile is_space (CHR '' '' # ''ar-memory-ledger'' @ tail) = ''ar-memory-ledger'' @ tail" by (simp add: is_space_def)
  ultimately have "fence_at (fence @ ''json ar-memory-ledger'' @ tail) = fence_body tail"
    unfolding fence_at_def open_words by (simp only: starts_with_append Let_def) simp
  then show ?thesis using fence_body_dumps [OF assms] by (simp add: tail_def)
qed

lemma ledger_text_parts:
  assumes "validate_ledger l = Inr ()"
  shows "ledger_to_text l = Inr ((''# Memory Ledger'' @ [newline, newline]) @ fence @ ''json ar-memory-ledger'' @ newline #
    json_dumps (ledger_metadata l) @ newline # fence @ concat (map (\<lambda>x. x @ [newline]) (table_head @ map row_line (ml_rows l))))"
proof -
  have "[''# Memory Ledger'', '''', fence @ ''json ar-memory-ledger'', json_dumps (ledger_metadata l), fence, '''',
         ''Newest entries are always inserted at the top.'', '''', ''| Code commit | Memory commit |'',
         ''| ----------- | ------------- |''] @ map row_line (ml_rows l) @ [''''] =
    ([''# Memory Ledger'', '''', fence @ ''json ar-memory-ledger'', json_dumps (ledger_metadata l), fence] @ tl table_head @ map row_line (ml_rows l)) @ ['''']"
    by (simp add: table_head_def)
  then show ?thesis unfolding ledger_to_text_def assms rbind_simps by (simp only: join_text_lines) (simp add: table_head_def)
qed

lemma written_fence:
  assumes "validate_ledger l = Inr ()" "ledger_to_text l = Inr s"
  shows "fence_search s = Some (json_dumps (ledger_metadata l), concat (map (\<lambda>x. x @ [newline]) (table_head @ map row_line (ml_rows l))))"
proof -
  have "Inr s = ledger_to_text l" using assms(2) by simp
  then have s: "s = (''# Memory Ledger'' @ [newline, newline]) @ fence @ ''json ar-memory-ledger'' @ newline #
    json_dumps (ledger_metadata l) @ newline # fence @ concat (map (\<lambda>x. x @ [newline]) (table_head @ map row_line (ml_rows l)))"
    unfolding ledger_text_parts [OF assms(1)] sum.inject .
  have heading: "CHR 0x60 \<notin> set (''# Memory Ledger'' @ [newline, newline])" by simp
  have "ledger_metadata l \<noteq> []" by (simp add: ledger_metadata_def)
  then show ?thesis unfolding s fence_search_skip [OF heading] by (intro fence_search_here fence_at_written)
qed

lemma read_metadata_back:
  assumes "ledger_clean l" "ml_sort_order l = ''newest-first''"
  shows "read_metadata (map (\<lambda>(k, v). (k, JStr v)) (ledger_metadata l)) = l\<lparr>ml_rows := [], ml_schema := LEDGER_SCHEMA\<rparr>"
proof -
  have "strip LEDGER_SCHEMA = LEDGER_SCHEMA" "strip ''newest-first'' = ''newest-first''" by (simp_all add: LEDGER_SCHEMA_def strip_def is_space_def)
  then show ?thesis using assms
    by (simp add: read_metadata_def ledger_metadata_def ledger_clean_def metadata_fields_def LEDGER_SCHEMA_def)
qed

lemma written_missing:
  "ml_sort_order l = ''newest-first'' \<Longrightarrow>
   missing_metadata (l\<lparr>ml_rows := [], ml_schema := LEDGER_SCHEMA\<rparr>) \<longleftrightarrow> '''' \<in> set (metadata_fields l)"
  by (auto simp: missing_metadata_def metadata_fields_def LEDGER_SCHEMA_def)

lemma validate_ledger_iff:
  "validate_ledger l = Inr () \<longleftrightarrow> ml_sort_order l = ''newest-first'' \<and>
     (\<exists>rs. ml_rows l = \<lparr>lr_code_commit = ml_last_verified_code_commit l, lr_memory_commit = ml_last_memory_content_commit l\<rparr> # rs)"
  by (cases "ml_rows l") (auto simp: validate_ledger_def)

lemma validate_ledger_schema: "validate_ledger (l\<lparr>ml_schema := x\<rparr>) = validate_ledger l"
  by (simp add: validate_ledger_def split: list.split)

end
