(* ===== verification/Ledger_Properties.thy ===== *)
theory Ledger_Properties
  imports Memory_Ledger
begin

section \<open>The memory ledger: what it keeps\<close>

text \<open>
  A written ledger is read back as it was, or refused when a metadata field is empty, and a mapping that is put in front of a ledger is the one found for its commit.
\<close>

text \<open>
  Claim C36: The ledger file round-trips, save for empty metadata. If \<^verbatim>\<open>write_ledger\<close> succeeds on a ledger whose metadata fields
  carry no outer white space and whose table cells carry none and hold no pipe and no line break, and \<^verbatim>\<open>json.loads\<close> reads the one
  text that \<^verbatim>\<open>json.dumps\<close> made of its metadata, then \<^verbatim>\<open>load_ledger\<close> on the written file gives the same ledger, row for row, only
  the schema has become the current one, provided that the repository name and the four commits of the metadata are not empty; if
  one of them is, the ledger is written all the same and \<^verbatim>\<open>load_ledger\<close> refuses the file as missing required fields.
\<close>

theorem ledger_round_trip:
  assumes "ledger_clean l" "write_ledger l f = (Inr (), f')"
    "loads (json_dumps (ledger_metadata l)) = Some (JObj (map (\<lambda>(k, v). (k, JStr v)) (ledger_metadata l)))"
  shows "load_ledger loads f' = (if '''' \<in> set (metadata_fields l)
    then Inl (LedgerError ''memory.md ledger metadata is missing required fields'') else Inr (l\<lparr>ml_schema := LEDGER_SCHEMA\<rparr>))"
proof -
  obtain s where s: "ledger_to_text l = Inr s" "f' = Some s"
    using assms(2) by (auto simp: write_ledger_def split: sum.splits)
  then have valid: "validate_ledger l = Inr ()" by (auto simp: ledger_to_text_def rbind_eq_Inr)
  then have order: "ml_sort_order l = ''newest-first''" "ml_rows l \<noteq> []" by (auto simp: validate_ledger_iff)
  note rows = parse_rows_back [OF order(2)]
  show ?thesis
    using assms(1) s(2) written_fence [OF valid s(1)] assms(3) read_metadata_back [OF assms(1) order(1)]
      written_missing [OF order(1)] rows valid
    by (simp add: load_ledger_def parse_ledger_text_def Let_def ledger_clean_def validate_ledger_schema)
qed

definition sample_ledger :: "string \<Rightarrow> memory_ledger" where
  "sample_ledger name = create_initial_ledger name ''c1'' ''m1''"

definition sample_loads :: "string \<Rightarrow> string \<Rightarrow> json option" where
  "sample_loads name _ = Some (JObj (map (\<lambda>(k, v). (k, JStr v)) (ledger_metadata (sample_ledger name))))"

lemma sample_written: "\<exists>f. write_ledger (sample_ledger name) None = (Inr (), f)"
  by (simp add: write_ledger_def ledger_to_text_def sample_ledger_def create_initial_ledger_def validate_ledger_def)

theorem ledger_round_trip_witness:
  "\<exists>f g. write_ledger (sample_ledger ''repo'') None = (Inr (), f) \<and> load_ledger (sample_loads ''repo'') f = Inr (sample_ledger ''repo'') \<and>
     write_ledger (sample_ledger '''') None = (Inr (), g) \<and>
     load_ledger (sample_loads '''') g = Inl (LedgerError ''memory.md ledger metadata is missing required fields'')"
proof -
  have clean: "ledger_clean (sample_ledger ''repo'')" "ledger_clean (sample_ledger '''')" by code_simp+
  have named: "'''' \<notin> set (metadata_fields (sample_ledger ''repo''))" "'''' \<in> set (metadata_fields (sample_ledger ''''))" by code_simp+
  obtain f g where w: "write_ledger (sample_ledger ''repo'') None = (Inr (), f)" "write_ledger (sample_ledger '''') None = (Inr (), g)"
    using sample_written by blast
  have "sample_ledger ''repo''\<lparr>ml_schema := LEDGER_SCHEMA\<rparr> = sample_ledger ''repo''"
    by (simp add: sample_ledger_def create_initial_ledger_def)
  with w named ledger_round_trip [OF clean(1) w(1), of "sample_loads ''repo''"] ledger_round_trip [OF clean(2) w(2), of "sample_loads ''''"]
  show ?thesis by (simp add: sample_loads_def)
qed

text \<open>
  A mapping put in front of a valid ledger is the one found for its commit: \<^verbatim>\<open>prepend_mapping\<close> refuses a blank commit;
  otherwise the new ledger is valid, its last verified pair is the new one, \<^verbatim>\<open>find_mapping\<close> of the new code commit gives the new
  row even when an older row names the same commit, and every other commit is found as before.
\<close>

theorem prepended_mapping_found:
  assumes "validate_ledger l = Inr ()"
  shows "case prepend_mapping l code mem of
      Inl _ \<Rightarrow> strip code = '''' \<or> strip mem = ''''
    | Inr l' \<Rightarrow> validate_ledger l' = Inr () \<and> length (ml_rows l') = Suc (length (ml_rows l)) \<and>
        (\<forall>other. find_mapping l' other =
           (if strip other = strip code then Some \<lparr>lr_code_commit = strip code, lr_memory_commit = strip mem\<rparr> else find_mapping l other))"
  using assms by (auto simp: prepend_mapping_def Let_def validate_ledger_iff find_mapping_def)

theorem prepended_mapping_found_witness:
  "\<exists>l'. prepend_mapping (sample_ledger ''repo'') '' c1 '' ''m2'' = Inr l' \<and> find_mapping l' ''c1'' = Some \<lparr>lr_code_commit = ''c1'', lr_memory_commit = ''m2''\<rparr>"
proof -
  have valid: "validate_ledger (sample_ledger ''repo'') = Inr ()" by code_simp
  have strips: "strip '' c1 '' = ''c1''" "strip ''m2'' = ''m2''" "strip ''c1'' = ''c1''" by code_simp+
  then obtain l' where l': "prepend_mapping (sample_ledger ''repo'') '' c1 '' ''m2'' = Inr l'" by (simp add: prepend_mapping_def Let_def)
  with prepended_mapping_found [OF valid, of "'' c1 ''" "''m2''"] strips
  have "find_mapping l' ''c1'' = Some \<lparr>lr_code_commit = ''c1'', lr_memory_commit = ''m2''\<rparr>" by simp
  with l' show ?thesis by blast
qed

end
