(* ===== verification/Attention.thy ===== *)
theory Attention
  imports Projection Dismissals Py_Text "HOL-Library.Product_Lexorder"
begin

section \<open>The attention queue\<close>

text \<open>
  \<^verbatim>\<open>observer/reducer_impl/_attention.py\<close> and the rollups of \<^verbatim>\<open>_metrics.py\<close>: what needs the human, ranked. Every source
  contributes a builder; acknowledgements hide an item until a newer signal. Text outside ASCII stands in its UTF-8 bytes.
\<close>

datatype attention_severity = SevAlarm | SevWarn | SevInfo
datatype attention_lane = LaneRepo | LaneWorktree | LaneLifecycle

record attention_item =
  ai_id :: string
  ai_kind :: string
  ai_severity :: attention_severity
  ai_lane :: attention_lane
  ai_title :: string
  ai_detail :: "string option"
  ai_waitSeconds :: "seconds option"
  ai_lifecycleId :: "string option"
  ai_gateId :: "string option"
  ai_enclosure :: "string option"
  ai_repoId :: "string option"
  ai_providerId :: "string option"
  ai_signalTs :: "string option"

record provider_node =
  pn_id :: string
  pn_state :: string
  pn_ok :: "bool option"
  pn_watcherUp :: bool
  pn_indexingState :: string
  pn_snapshotStaleSeconds :: "seconds option"
  pn_scope :: string
  pn_role :: "string option"
  pn_repoId :: "string option"
  pn_worktreeGroup :: "string option"

record drift_snapshot_node =
  dn_repository :: string
  dn_branch :: string
  dn_counts :: "(string, int) dict"
  dn_actionableCount :: int
  dn_checkedAt :: "string option"
  dn_sourceRoot :: "string option"
  dn_memoryRoot :: "string option"
  dn_reportPath :: "string option"
  dn_snapshotStaleSeconds :: "seconds option"

record setup_progress_node =
  sp_group :: string
  sp_state :: string
  sp_currentPhase :: "string option"
  sp_heartbeatAgeSeconds :: "seconds option"
  sp_completedCount :: int
  sp_failedPhases :: "string list"

record sidecar_stale_node =
  ss_onboardingFile :: string
  ss_repository :: string
  ss_lastVerifiedDate :: string
  ss_ageSeconds :: "seconds option"

text \<open>Of the analytical inputs, those the queue and the rollups read.\<close>

record analytical_inputs =
  an_sidecar_staleness :: "sidecar_stale_node list"
  an_drift_snapshots :: "drift_snapshot_node list"
  an_setup_progress :: "setup_progress_node list"
  an_engine_start_progress :: "(string \<times> json) list list"
  an_gates :: "gate_record list"
  an_attention_dismissals :: "(string, dismissal_record) dict"

text \<open>An item with the fields that default to \<^verbatim>\<open>None\<close>.\<close>

definition bare_item :: "string \<Rightarrow> string \<Rightarrow> attention_severity \<Rightarrow> attention_lane \<Rightarrow> string \<Rightarrow> attention_item" where
  "bare_item i k sev lane title =
     \<lparr>ai_id = i, ai_kind = k, ai_severity = sev, ai_lane = lane, ai_title = title, ai_detail = None, ai_waitSeconds = None,
      ai_lifecycleId = None, ai_gateId = None, ai_enclosure = None, ai_repoId = None, ai_providerId = None, ai_signalTs = None\<rparr>"

definition em_dash :: string where
  "em_dash = [CHR 0xE2, CHR 0x80, CHR 0x94]"

definition middle_dot :: string where
  "middle_dot = [CHR 0xC2, CHR 0xB7]"

definition str_or_none :: "json option \<Rightarrow> string option" where
  "str_or_none v = (case v of Some (JStr s) \<Rightarrow> if s \<noteq> '''' then Some s else None | _ \<Rightarrow> None)"

text \<open>\<^verbatim>\<open>stamp or None\<close>.\<close>

definition stamp_or_none :: "string \<Rightarrow> string option" where
  "stamp_or_none s = (if s = '''' then None else Some s)"

subsection \<open>The builders\<close>

text \<open>\<^verbatim>\<open>_ask_text\<close> and \<^verbatim>\<open>_await_summary\<close>: one key of the block ask; an ask that is no object has no \<^verbatim>\<open>get\<close>.\<close>

definition ask_field :: "string \<Rightarrow> json \<Rightarrow> string option res" where
  "ask_field k ask =
     (if \<not> json_truthy ask then Inr None
      else case ask of
             JObj kvs \<Rightarrow> Inr (case dget kvs k of None \<Rightarrow> None | Some JNull \<Rightarrow> None | Some v \<Rightarrow> Some (py_str v))
           | _ \<Rightarrow> Inl AttributeError)"

definition ask_text :: "json \<Rightarrow> string option res" where
  "ask_text = ask_field ''question''"

definition await_summary :: "json \<Rightarrow> string option res" where
  "await_summary = ask_field ''summary''"

definition awaiting_item :: "lifecycle_projection \<Rightarrow> attention_item res" where
  "awaiting_item p =
     rbind (await_summary (pj_ask p)) (\<lambda>detail.
       Inr ((bare_item (''awaiting-developer:'' @ pj_id p) ''awaiting-developer'' SevInfo LaneLifecycle
               (''Turn complete '' @ em_dash @ '' your move''))
            \<lparr>ai_detail := detail, ai_waitSeconds := pj_staleSeconds p, ai_lifecycleId := Some (pj_id p),
             ai_enclosure := pj_enclosure p, ai_repoId := pj_repoId p, ai_signalTs := stamp_or_none (pj_stateEnteredAt p)\<rparr>))"

definition blocked_item :: "lifecycle_projection \<Rightarrow> attention_item res" where
  "blocked_item p =
     rbind (ask_text (pj_ask p)) (\<lambda>detail.
       Inr ((bare_item (''blocked-gate:'' @ pj_id p) ''blocked-gate'' SevWarn LaneLifecycle
               (''Gate '' @ em_dash @ '' input needed''))
            \<lparr>ai_detail := detail, ai_waitSeconds := pj_staleSeconds p, ai_lifecycleId := Some (pj_id p),
             ai_enclosure := pj_enclosure p, ai_repoId := pj_repoId p, ai_signalTs := stamp_or_none (pj_stateEnteredAt p)\<rparr>))"

definition quiet_item :: "string \<Rightarrow> string \<Rightarrow> lifecycle_projection \<Rightarrow> attention_item" where
  "quiet_item k title p =
     (bare_item (k @ '':'' @ pj_id p) k SevInfo LaneLifecycle title)
       \<lparr>ai_waitSeconds := pj_staleSeconds p, ai_lifecycleId := Some (pj_id p), ai_repoId := pj_repoId p,
        ai_signalTs := stamp_or_none (pj_lastEventTs p)\<rparr>"

definition lifecycle_item :: "lifecycle_projection \<Rightarrow> attention_item option res" where
  "lifecycle_item p =
     (if pj_state p = AwaitingDeveloper then rbind (awaiting_item p) (\<lambda>i. Inr (Some i))
      else if pj_state p = Blocked \<and> pj_gate p = None then rbind (blocked_item p) (\<lambda>i. Inr (Some i))
      else if pj_inferred p \<and> pj_state p = Paused \<and> pj_lastEventTs p \<noteq> ''''
      then Inr (Some (quiet_item ''stale-session'' ''Session gone quiet'' p))
      else if pj_inferred p \<and> pj_state p = Abandoned \<and> pj_lastEventTs p \<noteq> ''''
      then Inr (Some (quiet_item ''dormant-fleeting'' ''Fleeting session dormant'' p))
      else Inr None)"

definition somes :: "'a option list \<Rightarrow> 'a list" where
  "somes xs = map the (filter (\<lambda>x. x \<noteq> None) xs)"

definition lifecycle_attention :: "lifecycle_projection list \<Rightarrow> attention_item list res" where
  "lifecycle_attention lifecycles = rbind (rmap lifecycle_item lifecycles) (\<lambda>items. Inr (somes items))"

definition gate_item :: "gate_record \<Rightarrow> attention_item" where
  "gate_item g =
     (bare_item (''gate:'' @ g_id g) ''gate-open'' SevWarn LaneLifecycle (''Gate '' @ em_dash @ '' '' @ gate_kind_str (g_kind g)))
       \<lparr>ai_detail := Some ''awaiting your decision'', ai_lifecycleId := g_lifecycleId g, ai_gateId := Some (g_id g),
        ai_signalTs := stamp_or_none (g_ts g)\<rparr>"

definition gate_attention :: "gate_record list \<Rightarrow> attention_item list" where
  "gate_attention gates = map gate_item (filter (\<lambda>g. g_state g = Open) gates)"

definition PROVIDER_DOWN :: "string list" where
  "PROVIDER_DOWN = [''stopped'', ''failed'', ''error'']"

definition provider_attention :: "provider_node list \<Rightarrow> attention_item list" where
  "provider_attention providers =
     map (\<lambda>p. (bare_item (''provider-down:'' @ pn_id p) ''provider-down'' SevAlarm LaneRepo (''Provider '' @ pn_id p @ '' down''))
                \<lparr>ai_detail := Some (pn_state p), ai_waitSeconds := pn_snapshotStaleSeconds p, ai_providerId := Some (pn_id p)\<rparr>)
       (filter (\<lambda>p. pn_ok p = Some False \<or> pn_state p \<in> set PROVIDER_DOWN) providers)"

definition drift_attention_detail :: "drift_snapshot_node \<Rightarrow> string" where
  "drift_attention_detail d =
     join_text (CHR '' '' # middle_dot @ '' '')
       ([''branch '' @ dn_branch d] @
        [if truthy (dn_memoryRoot d) then ''memory '' @ the (dn_memoryRoot d) else ''memory root unknown''] @
        (if truthy (dn_reportPath d) then [''report '' @ the (dn_reportPath d)] else []) @
        (if truthy (dn_checkedAt d) then [''checked '' @ the (dn_checkedAt d)] else []))"

definition drift_attention :: "drift_snapshot_node list \<Rightarrow> attention_item list" where
  "drift_attention drift_snapshots =
     map (\<lambda>d. (bare_item (''actionable-drift:'' @ dn_repository d @ '':'' @ dn_branch d) ''actionable-drift'' SevWarn LaneRepo
                  (int_text (dn_actionableCount d) @ '' actionable drift in '' @ dn_repository d))
                \<lparr>ai_detail := Some (drift_attention_detail d), ai_waitSeconds := dn_snapshotStaleSeconds d,
                 ai_repoId := Some (dn_repository d), ai_signalTs := dn_checkedAt d\<rparr>)
       (filter (\<lambda>d. dn_actionableCount d > 0) drift_snapshots)"

definition setup_attention :: "setup_progress_node list \<Rightarrow> attention_item list" where
  "setup_attention setup_progress =
     map (\<lambda>s. (bare_item (''failed-setup:'' @ sp_group s) ''failed-setup'' (if sp_failedPhases s \<noteq> [] then SevAlarm else SevWarn)
                  LaneWorktree ''Provider setup needs attention'')
                \<lparr>ai_detail := sp_currentPhase s, ai_waitSeconds := sp_heartbeatAgeSeconds s, ai_enclosure := Some (sp_group s)\<rparr>)
       (filter (\<lambda>s. sp_failedPhases s \<noteq> [] \<or> sp_state s \<in> {''failed'', ''stale''}) setup_progress)"

definition start_item :: "(string \<times> json) list \<Rightarrow> attention_item option" where
  "start_item entry =
     (case str_or_none (dget entry ''blockedReason'') of
        None \<Rightarrow> None
      | Some reason \<Rightarrow>
          let group = (case dget entry ''worktreeGroup'' of None \<Rightarrow> '''' | Some v \<Rightarrow> py_str v)
          in Some ((bare_item (''blocked-start:'' @ last (split_on CHR ''/'' group)) ''blocked-start'' SevWarn LaneWorktree
                      ''Worktree start blocked'')
                   \<lparr>ai_detail := Some reason, ai_enclosure := stamp_or_none group, ai_repoId := str_or_none (dget entry ''repoName'')\<rparr>))"

definition start_attention :: "(string \<times> json) list list \<Rightarrow> attention_item list" where
  "start_attention start_progress = somes (map start_item start_progress)"

subsection \<open>Acknowledgements and ranking\<close>

definition DISMISSABLE_REPO_KINDS :: "string list" where
  "DISMISSABLE_REPO_KINDS = [''actionable-drift'']"

definition signal_after :: "iso_codec \<Rightarrow> string option \<Rightarrow> string \<Rightarrow> bool res" where
  "signal_after c signal_ts dismissed_at =
     (if \<not> truthy signal_ts then Inr False
      else case fromisoformat c (the signal_ts) of
             None \<Rightarrow> Inl (ValueError ''Invalid isoformat string'')
           | Some signal \<Rightarrow>
               (case fromisoformat c dismissed_at of
                  None \<Rightarrow> Inl (ValueError ''Invalid isoformat string'')
                | Some dismissed \<Rightarrow> dt_lt (as_utc dismissed) (as_utc signal)))"

definition is_dismissed :: "iso_codec \<Rightarrow> attention_item \<Rightarrow> (string, dismissal_record) dict \<Rightarrow> bool res" where
  "is_dismissed c item dismissals =
     (case dget dismissals (ai_id item) of
        None \<Rightarrow> Inr False
      | Some d \<Rightarrow>
          if dm_kind d \<noteq> None \<and> dm_kind d \<noteq> Some (ai_kind item) then Inr False
          else if ai_lifecycleId item \<noteq> None \<or> dm_lifecycleId d \<noteq> None
          then (if ai_lifecycleId item \<noteq> dm_lifecycleId d then Inr False
                else rbind (signal_after c (ai_signalTs item) (dm_dismissedAt d)) (\<lambda>b. Inr (\<not> b)))
          else if ai_kind item \<notin> set DISMISSABLE_REPO_KINDS then Inr False
          else rbind (signal_after c (ai_signalTs item) (dm_dismissedAt d)) (\<lambda>b. Inr (\<not> b)))"

fun severity_rank :: "attention_severity \<Rightarrow> nat" where
  "severity_rank SevAlarm = 0"
| "severity_rank SevWarn = 1"
| "severity_rank SevInfo = 2"

definition wait_of :: "attention_item \<Rightarrow> seconds" where
  "wait_of item = (case ai_waitSeconds item of None \<Rightarrow> 0 | Some w \<Rightarrow> w)"

definition queue_key :: "attention_item \<Rightarrow> nat \<times> seconds \<times> string" where
  "queue_key item = (severity_rank (ai_severity item), - wait_of item, ai_id item)"

definition attention_items ::
  "lifecycle_projection list \<Rightarrow> provider_node list \<Rightarrow> analytical_inputs \<Rightarrow> attention_item list res" where
  "attention_items lifecycles providers given =
     rbind (lifecycle_attention lifecycles) (\<lambda>items.
       Inr (items @ gate_attention (an_gates given) @ provider_attention providers @ drift_attention (an_drift_snapshots given) @
            setup_attention (an_setup_progress given) @ start_attention (an_engine_start_progress given)))"

definition build_attention_queue ::
  "iso_codec \<Rightarrow> lifecycle_projection list \<Rightarrow> provider_node list \<Rightarrow> analytical_inputs \<Rightarrow> attention_item list res" where
  "build_attention_queue c lifecycles providers given =
     rbind (attention_items lifecycles providers given) (\<lambda>items.
     rbind (rfilter (\<lambda>item. rbind (is_dismissed c item (an_attention_dismissals given)) (\<lambda>b. Inr (\<not> b))) items) (\<lambda>kept.
       Inr (sort_key queue_key kept)))"

subsection \<open>Rollups\<close>

text \<open>
  \<^verbatim>\<open>state_count_fields\<close>: one field of the rollup per live state, refused when two states would share one. The keyword
  arguments of \<^verbatim>\<open>Metrics\<close> are a dict; an unknown one is refused.
\<close>

definition state_count_field :: "string \<Rightarrow> string" where
  "state_count_field state =
     (let parts = split_on CHR ''-'' state
      in hd parts @ concat (map (\<lambda>word. map upper_char (take 1 word) @ drop 1 word) (tl parts)) @ ''Count'')"

fun state_count_loop :: "string list \<Rightarrow> (string, string) dict \<Rightarrow> (string, string) dict \<Rightarrow> (string, string) dict res" where
  "state_count_loop [] owner by_state = Inr by_state"
| "state_count_loop (state # states) owner by_state =
     (let bucket = state_count_field state in
      if dget owner bucket \<noteq> None then Inl (LifecycleVocabularyError ''one Metrics field cannot count two states'')
      else state_count_loop states (dput bucket state owner) (dput state bucket by_state))"

definition state_count_fields :: "string list \<Rightarrow> (string, string) dict res" where
  "state_count_fields states = state_count_loop states [] []"

definition ACTIVE_STATES :: "lc_state list" where
  "ACTIVE_STATES = LIVE_STATES"

record metrics =
  mt_lifecycleCount :: int
  mt_runningCount :: int
  mt_blockedCount :: int
  mt_pausedCount :: int
  mt_awaitingDeveloperCount :: int
  mt_totalTokens :: int
  mt_stalenessHistogram :: "(string, int) dict"

definition STALENESS_BUCKETS :: "(string \<times> seconds option) list" where
  "STALENESS_BUCKETS =
     [(''<7d'', Some (7 * 86400)), (''7-30d'', Some (30 * 86400)), (''30-90d'', Some (90 * 86400)), (''>90d'', None)]"

definition staleness_bucket :: "seconds option \<Rightarrow> string" where
  "staleness_bucket age =
     (case age of
        None \<Rightarrow> ''unknown''
      | Some a \<Rightarrow>
          (case find (\<lambda>(_, upper). case upper of None \<Rightarrow> True | Some u \<Rightarrow> a < u) STALENESS_BUCKETS of
             None \<Rightarrow> ''>90d''
           | Some (label, _) \<Rightarrow> label))"

definition count_into :: "(string, int) dict \<Rightarrow> string \<Rightarrow> (string, int) dict" where
  "count_into buckets label = dput label (the (dget buckets label) + 1) buckets"

definition staleness_histogram :: "sidecar_stale_node list \<Rightarrow> (string, int) dict" where
  "staleness_histogram nodes =
     foldl (\<lambda>buckets node. count_into buckets (staleness_bucket (ss_ageSeconds node)))
       (map (\<lambda>(label, _). (label, 0)) STALENESS_BUCKETS @ [(''unknown'', 0)]) nodes"

definition count_keyword :: "(string, int) dict \<Rightarrow> string \<Rightarrow> int" where
  "count_keyword kwargs name = (case dget kwargs name of None \<Rightarrow> 0 | Some n \<Rightarrow> n)"

definition make_metrics :: "lifecycle_projection list \<Rightarrow> sidecar_stale_node list \<Rightarrow> metrics res" where
  "make_metrics lifecycles sidecars =
     rbind (state_count_fields (map lc_state_str ACTIVE_STATES)) (\<lambda>by_state.
       let kwargs = map (\<lambda>(state, bucket).
             (bucket, int (length (filter (\<lambda>p. lc_state_str (pj_state p) = state) lifecycles)))) by_state
       in if \<not> set (map fst kwargs) \<subseteq> {''runningCount'', ''blockedCount'', ''pausedCount'', ''awaitingDeveloperCount''}
          then Inl (ValidationError ''Metrics'')
          else Inr \<lparr>mt_lifecycleCount = int (length lifecycles), mt_runningCount = count_keyword kwargs ''runningCount'',
                    mt_blockedCount = count_keyword kwargs ''blockedCount'', mt_pausedCount = count_keyword kwargs ''pausedCount'',
                    mt_awaitingDeveloperCount = count_keyword kwargs ''awaitingDeveloperCount'',
                    mt_totalTokens = sum_list (map pj_tokens lifecycles),
                    mt_stalenessHistogram = (if sidecars = [] then [] else staleness_histogram sidecars)\<rparr>)"

definition stalest :: "sidecar_stale_node list \<Rightarrow> nat \<Rightarrow> sidecar_stale_node list" where
  "stalest nodes limit =
     take limit (sort_key (\<lambda>n. (ss_ageSeconds n = None, - (case ss_ageSeconds n of None \<Rightarrow> 0 | Some a \<Rightarrow> a))) nodes)"

subsection \<open>What the queue holds\<close>

lemma bare_item_fields [simp]:
  "ai_id (bare_item i k sev lane title) = i" "ai_kind (bare_item i k sev lane title) = k"
  "ai_severity (bare_item i k sev lane title) = sev"
  by (simp_all add: bare_item_def)

lemma somes_set [simp]: "x \<in> set (somes xs) \<longleftrightarrow> Some x \<in> set xs"
  by (force simp: somes_def)

lemma lifecycle_attention_set:
  assumes "lifecycle_attention ls = Inr items"
  shows "i \<in> set items \<longleftrightarrow> (\<exists>p\<in>set ls. lifecycle_item p = Inr (Some i))"
proof -
  from assms obtain os where os: "list_all2 (\<lambda>p x. lifecycle_item p = Inr x) ls os" "items = somes os"
    by (auto simp: lifecycle_attention_def rbind_eq_Inr rmap_eq_Inr)
  from os(1) have "Some i \<in> set os \<longleftrightarrow> (\<exists>p\<in>set ls. lifecycle_item p = Inr (Some i))"
    by (induction rule: list_all2_induct) auto
  with os(2) show ?thesis by simp
qed

lemma queue_set:
  assumes "build_attention_queue c ls ps given = Inr q"
  obtains items where "attention_items ls ps given = Inr items" "sorted (map queue_key q)"
    "set q = {i \<in> set items. is_dismissed c i (an_attention_dismissals given) = Inr False}"
proof -
  from assms obtain items kept where items: "attention_items ls ps given = Inr items" and q: "q = sort_key queue_key kept"
    and kept: "rfilter (\<lambda>item. rbind (is_dismissed c item (an_attention_dismissals given)) (\<lambda>b. Inr (\<not> b))) items = Inr kept"
    by (auto simp: build_attention_queue_def rbind_eq_Inr)
  have "set q = {i \<in> set items. is_dismissed c i (an_attention_dismissals given) = Inr False}"
    using rfilter_Inr [OF kept] by (auto simp: q rbind_eq_Inr)
  with items show thesis by (intro that) (simp_all add: q)
qed

lemma queue_decides:
  assumes "build_attention_queue c ls ps given = Inr q" "attention_items ls ps given = Inr items" "i \<in> set items"
  shows "is_dismissed c i (an_attention_dismissals given) = Inr True \<or> i \<in> set q"
proof -
  from assms(1,2) obtain kept where
    kept: "rfilter (\<lambda>item. rbind (is_dismissed c item (an_attention_dismissals given)) (\<lambda>b. Inr (\<not> b))) items = Inr kept"
    by (auto simp: build_attention_queue_def rbind_eq_Inr)
  from rfilter_Inr [OF this] assms(3) obtain b where "is_dismissed c i (an_attention_dismissals given) = Inr b"
    by (auto simp: rbind_eq_Inr)
  note b = this
  obtain items' where items': "attention_items ls ps given = Inr items'"
    "set q = {i \<in> set items'. is_dismissed c i (an_attention_dismissals given) = Inr False}" by (rule queue_set [OF assms(1)])
  with assms(2,3) b show ?thesis by (cases b) simp_all
qed

text \<open>A lifecycle carries a gate exactly when it has an open one, so a bare block and an open gate are never both queued.\<close>

definition open_gate_of :: "gate_record list \<Rightarrow> string \<Rightarrow> gate_record \<Rightarrow> bool" where
  "open_gate_of gates l g \<longleftrightarrow> g \<in> set gates \<and> g_state g = Open \<and> (case g_lifecycleId g of None \<Rightarrow> '''' | Some x \<Rightarrow> x) = l"

lemma attach_gate_open:
  assumes "pj_gate p = None"
  shows "pj_gate (attach_gate gates p) = None \<longleftrightarrow> (\<nexists>g. open_gate_of gates (pj_id p) g)"
proof (cases "max_by g_ts (filter (\<lambda>g. g_state g = Open)
             (filter (\<lambda>g. (case g_lifecycleId g of None \<Rightarrow> '''' | Some l \<Rightarrow> l) = pj_id p) gates))")
  case None
  then have "filter (\<lambda>g. g_state g = Open) (filter (\<lambda>g. (case g_lifecycleId g of None \<Rightarrow> '''' | Some l \<Rightarrow> l) = pj_id p) gates) = []"
    by (simp only: max_by_None)
  with None assms show ?thesis by (auto simp: attach_gate_def open_gate_of_def filter_empty_conv)
next
  case (Some g)
  from max_by_in [OF Some] have "open_gate_of gates (pj_id p) g" by (auto simp: open_gate_of_def)
  with Some show ?thesis by (auto simp: attach_gate_def)
qed

lemma apply_kind_gate: "apply_kind p ev = Inr q \<Longrightarrow> pj_gate q = pj_gate p"
  by (auto simp: apply_kind_def rbind_eq_Inr promoted_updates_def ended_updates_def awaiting_developer_updates_def
      tool_completed_updates_def Let_def split: if_splits option.splits)

lemma project_fold_gate: "project_fold ix p evs = Inr q \<Longrightarrow> pj_gate q = pj_gate p"
proof (induction evs arbitrary: p)
  case (Cons ev evs)
  then obtain p' where p': "project_step ix p ev = Inr p'" "project_fold ix p' evs = Inr q" by (auto simp: rbind_eq_Inr)
  then have "pj_gate p' = pj_gate p"
    by (auto simp: project_step_def rbind_eq_Inr Let_def dest: apply_kind_gate split: if_splits option.splits)
  with Cons.IH [OF p'(2)] show ?case by simp
qed simp

lemma project_lifecycle_gate: "project_lifecycle c evs now = Inr p \<Longrightarrow> pj_gate p = None"
  by (auto simp: project_lifecycle_def rbind_eq_Inr Let_def seed_from_started_def project_inferred_def
      dest!: project_fold_gate split: list.splits option.splits)

text \<open>Where a lifecycle of the workspace comes from.\<close>

lemma workspace_origin:
  assumes "project_workspace c logs es gates now = Inr (ls, en)" "p \<in> set ls"
  obtains q where "p = attach_gate gates q"
    "(\<exists>evs r st. project_lifecycle c evs now = Inr r \<and> q = r\<lparr>pj_state := st\<rparr>) \<or> (\<exists>e. q = persistent_from_enclosure e)"
proof -
  from assms(1) obtain raw where raw: "project_logs c logs now = Inr raw" and ls: "ls = workspace_lifecycles en gates raw"
    by (auto simp: project_workspace_def rbind_eq_Inr Let_def)
  have logs: "\<exists>evs. project_lifecycle c evs now = Inr r" if "r \<in> set raw" for r
    using raw that by (auto simp: project_logs_def rmap_eq_Inr list_all2_conv_all_nth in_set_conv_nth)
  let ?cur = "terminalize_abandoned_anchor_lifecycles en (current_event_backed_lifecycles en raw)"
  from assms(2) obtain q where q: "p = attach_gate gates q" and mem: "q \<in> set ?cur \<or> q \<in> set (persistent_lifecycles en ?cur)"
    unfolding ls workspace_lifecycles_set by blast
  have "\<exists>r\<in>set raw. \<exists>st. q = r\<lparr>pj_state := st\<rparr>" if q: "q \<in> set ?cur"
  proof -
    have keep: "r = r\<lparr>pj_state := pj_state r\<rparr>" for r :: lifecycle_projection by simp
    from q obtain r where "r \<in> set raw" "q = r \<or> q = r\<lparr>pj_state := Abandoned\<rparr>"
      unfolding terminalize_set by (auto simp: current_event_backed_lifecycles_def split: if_splits)
    then show ?thesis using keep by blast
  qed
  with mem have "(\<exists>r\<in>set raw. \<exists>st. q = r\<lparr>pj_state := st\<rparr>) \<or> (\<exists>e. q = persistent_from_enclosure e)"
    unfolding persistent_lifecycles_set by blast
  with logs show thesis by (intro that [OF q]) blast
qed

lemma workspace_gate:
  assumes "project_workspace c logs es gates now = Inr (ls, en)" "p \<in> set ls"
  shows "pj_gate p = None \<longleftrightarrow> (\<nexists>g. open_gate_of gates (pj_id p) g)"
proof -
  obtain q where q: "p = attach_gate gates q"
    "(\<exists>evs r st. project_lifecycle c evs now = Inr r \<and> q = r\<lparr>pj_state := st\<rparr>) \<or> (\<exists>e. q = persistent_from_enclosure e)"
    by (rule workspace_origin [OF assms])
  from q(2) have "pj_gate q = None" by (auto simp: persistent_from_enclosure_def Let_def dest: project_lifecycle_gate)
  from attach_gate_open [OF this] show ?thesis by (simp add: q(1))
qed

lemma workspace_actions:
  assumes "project_workspace c logs es gates now = Inr (ls, en)" "p \<in> set ls" "a \<in> set (pj_actions p)"
  shows "aa_action a = ''resume''"
proof -
  obtain q where q: "p = attach_gate gates q"
    "(\<exists>evs r st. project_lifecycle c evs now = Inr r \<and> q = r\<lparr>pj_state := st\<rparr>) \<or> (\<exists>e. q = persistent_from_enclosure e)"
    by (rule workspace_origin [OF assms(1,2)])
  have "\<exists>s. pj_actions r = lifecycle_actions s" if "project_lifecycle c evs now = Inr r" for evs r
    using that by (cases evs) (auto simp: project_lifecycle_def rbind_eq_Inr Let_def)
  moreover have "\<exists>s. pj_actions (persistent_from_enclosure e) = lifecycle_actions s" for e
    by (auto simp: persistent_from_enclosure_def Let_def)
  ultimately obtain s where "pj_actions q = lifecycle_actions s" using q(2) by fastforce
  with assms(3) show ?thesis by (simp add: q(1) lifecycle_actions_def Let_def)
qed

subsection \<open>Counting\<close>

lemma state_counts: "state_count_fields (map lc_state_str ACTIVE_STATES) =
    Inr [(''running'', ''runningCount''), (''paused'', ''pausedCount''), (''blocked'', ''blockedCount''),
         (''awaiting-developer'', ''awaitingDeveloperCount'')]"
  by code_simp

lemma lc_state_str_iff: "lc_state_str a = lc_state_str b \<longleftrightarrow> a = b"
  by (cases a; cases b) simp_all

lemma count_split:
  "length ps = length (filter (\<lambda>p. pj_state p = Running) ps) + length (filter (\<lambda>p. pj_state p = Paused) ps) +
     length (filter (\<lambda>p. pj_state p = Blocked) ps) + length (filter (\<lambda>p. pj_state p = AwaitingDeveloper) ps) +
     length (filter (\<lambda>p. pj_state p \<in> set TERMINAL_STATES) ps)"
proof (induction ps)
  case (Cons p ps)
  then show ?case by (cases "pj_state p") (simp_all add: TERMINAL_STATES_def)
qed simp

end
