(* ===== verification/Operator_Actions.thy ===== *)
theory Operator_Actions
  imports Attention Gate_Decisions
begin

section \<open>Operator actions and the projection pass\<close>

text \<open>
  \<^verbatim>\<open>serving/actions.py\<close>: the pure evaluation of a dashboard action; \<^verbatim>\<open>serving/_app_routes.py\<close>: the router that carries its
  intent out on the stores; \<^verbatim>\<open>serving/projections/projection_store.py\<close>: the pass that reduces the workspace and prunes
  acknowledgements. The settings, the clock and the inputs a pass reads are arguments. The text of a \<^verbatim>\<open>KeyError\<close> is left out of
  the response bodies.
\<close>

subsection \<open>The workspace\<close>

record workspace_projection =
  wp_lifecycles :: "lifecycle_projection list"
  wp_enclosures :: "enclosure_node list"
  wp_providers :: "provider_node list"
  wp_metrics :: metrics
  wp_attentionQueue :: "attention_item list"

definition assemble_workspace ::
  "iso_codec \<Rightarrow> event list list \<Rightarrow> enclosure_node list \<Rightarrow> provider_node list \<Rightarrow> clock \<Rightarrow> analytical_inputs \<Rightarrow>
   workspace_projection res" where
  "assemble_workspace c logs enclosures providers now given =
     rbind (project_workspace c logs enclosures (an_gates given) now) (\<lambda>(lifecycles, enriched).
     rbind (build_attention_queue c lifecycles providers given) (\<lambda>queue.
     rbind (make_metrics lifecycles (an_sidecar_staleness given)) (\<lambda>rollup.
       Inr \<lparr>wp_lifecycles = lifecycles, wp_enclosures = enriched, wp_providers = providers, wp_metrics = rollup,
            wp_attentionQueue = queue\<rparr>)))"

text \<open>One pass: the acknowledgements are read, the workspace reduced, and those of lifecycles that are not live dropped.\<close>

definition live_ids :: "lifecycle_projection list \<Rightarrow> string list" where
  "live_ids lifecycles = map pj_id (filter (\<lambda>p. pj_state p \<notin> set TERMINAL_STATES) lifecycles)"

definition project_and_write ::
  "iso_codec \<Rightarrow> process \<Rightarrow> path \<Rightarrow> event list list \<Rightarrow> enclosure_node list \<Rightarrow> provider_node list \<Rightarrow> clock \<Rightarrow> analytical_inputs \<Rightarrow>
   (dismissal_log, workspace_projection) prog" where
  "project_and_write c p obs_root logs enclosures providers now inputs =
     sbind (sget (\<lambda>s. assemble_workspace c logs enclosures providers now (inputs\<lparr>an_attention_dismissals := dismissal_current s\<rparr>)))
       (\<lambda>projection.
     sbind (prune_lifecycles p obs_root (live_ids (wp_lifecycles projection))) (\<lambda>_. sret projection))"

subsection \<open>Evaluating an action\<close>

record gate_decision_intent =
  gi_lifecycle_id :: "string option"
  gi_decision :: string
  gi_gate_id :: "string option"
  gi_note :: "string option"

record dismissal_intent =
  di_item_id :: string
  di_dismissed_at :: string
  di_kind :: "string option"
  di_lifecycle_id :: "string option"
  di_gate_id :: "string option"
  di_note :: "string option"

record action_outcome =
  ao_status_code :: nat
  ao_body :: "(string \<times> json) list"
  ao_gate_decision :: "gate_decision_intent option"
  ao_dismissal :: "dismissal_intent option"

record action_evaluation_context =
  ac_actor :: string
  ac_now :: string
  ac_gate_id :: "string option"
  ac_note :: "string option"
  ac_item_id :: "string option"
  ac_kind :: "string option"

definition GATE_DECISION_ACTIONS :: "string list" where
  "GATE_DECISION_ACTIONS = [''approve'', ''reject'', ''request-revision'', ''cancel'']"

definition DISMISS_ACTION :: string where
  "DISMISS_ACTION = ''dismiss''"

definition opt_json :: "string option \<Rightarrow> json" where
  "opt_json v = (case v of None \<Rightarrow> JNull | Some s \<Rightarrow> JStr s)"

text \<open>\<^verbatim>\<open>if v is not None: body[key] = v\<close>.\<close>

definition opt_entry :: "string \<Rightarrow> string option \<Rightarrow> (string \<times> json) list" where
  "opt_entry key v = (case v of None \<Rightarrow> [] | Some s \<Rightarrow> [(key, JStr s)])"

definition or_empty :: "string option \<Rightarrow> string" where
  "or_empty v = (case v of None \<Rightarrow> '''' | Some s \<Rightarrow> s)"

definition outcome :: "nat \<Rightarrow> (string \<times> json) list \<Rightarrow> action_outcome" where
  "outcome status body = \<lparr>ao_status_code = status, ao_body = body, ao_gate_decision = None, ao_dismissal = None\<rparr>"

definition intent_head :: "action_evaluation_context \<Rightarrow> string \<Rightarrow> (string \<times> json) list" where
  "intent_head ctx action =
     [(''actor'', JStr (ac_actor ctx)), (''source'', JStr ''dashboard''), (''ts'', JStr (ac_now ctx)), (''action'', JStr action)]"

definition find_actions :: "workspace_projection \<Rightarrow> string \<Rightarrow> action_availability list option" where
  "find_actions projection target =
     (case find (\<lambda>p. pj_id p = target) (wp_lifecycles projection) of
        Some p \<Rightarrow> Some (pj_actions p)
      | None \<Rightarrow> map_option en_actions (find (\<lambda>e. en_enclosure e = target) (wp_enclosures projection)))"

definition dismiss_action_outcome :: "string \<Rightarrow> string option \<Rightarrow> action_evaluation_context \<Rightarrow> action_outcome" where
  "dismiss_action_outcome action target ctx =
     (let item = strip (or_empty (ac_item_id ctx)) in
      if item = ''''
      then outcome 400 [(''status'', JStr ''missing-item''),
             (''detail'', JStr ''dismiss requires the itemId of the attention item to clear''), (''action'', JStr action)]
      else if target = None \<and> \<not> ((ac_kind ctx = Some ''gate-open'' \<and> truthy (ac_gate_id ctx)) \<or> ac_kind ctx = Some ''actionable-drift'')
      then outcome 400 [(''status'', JStr ''missing-lifecycle''),
             (''detail'', JStr ''dismiss requires the lifecycle target for lifecycle-bound attention items''),
             (''action'', JStr action), (''itemId'', JStr item)]
      else (outcome 202 [(''status'', JStr ''received''), (''detail'', JStr ''attention item dismissed''),
             (''intent'', JObj (intent_head ctx action @ [(''itemId'', JStr item)] @ opt_entry ''kind'' (ac_kind ctx) @
                                opt_entry ''target'' target @ opt_entry ''gateId'' (ac_gate_id ctx)))])
           \<lparr>ao_dismissal := Some \<lparr>di_item_id = item, di_dismissed_at = ac_now ctx, di_kind = ac_kind ctx, di_lifecycle_id = target,
                                   di_gate_id = ac_gate_id ctx, di_note = ac_note ctx\<rparr>\<rparr>)"

definition gate_decision_outcome :: "string \<Rightarrow> string option \<Rightarrow> action_evaluation_context \<Rightarrow> action_outcome" where
  "gate_decision_outcome action target ctx =
     (if action = ''reject'' \<and> strip (or_empty (ac_note ctx)) = ''''
      then outcome 400 [(''status'', JStr ''missing-rejection-reason''), (''detail'', JStr ''reject decisions require a reason''),
             (''target'', opt_json target)]
      else if target = None \<and> \<not> (action = ''cancel'' \<and> truthy (ac_gate_id ctx))
      then outcome 400 [(''status'', JStr ''missing-target''),
             (''detail'', JStr ''gate decisions require a lifecycle target unless cancelling a gate id''), (''action'', JStr action)]
      else (outcome 202 [(''status'', JStr ''received''), (''detail'', JStr ''gate decision recorded''),
             (''intent'', JObj (intent_head ctx action @ opt_entry ''target'' target @ opt_entry ''gateId'' (ac_gate_id ctx) @
                                opt_entry ''note'' (ac_note ctx)))])
           \<lparr>ao_gate_decision := Some \<lparr>gi_lifecycle_id = target, gi_decision = action, gi_gate_id = ac_gate_id ctx,
                                       gi_note = ac_note ctx\<rparr>\<rparr>)"

definition precomputed_action_outcome ::
  "workspace_projection \<Rightarrow> string \<Rightarrow> string option \<Rightarrow> action_evaluation_context \<Rightarrow> action_outcome" where
  "precomputed_action_outcome projection action target ctx =
     (case target of
        None \<Rightarrow> outcome 400 [(''status'', JStr ''missing-target''), (''detail'', JStr ''action requires a target''), (''action'', JStr action)]
      | Some t \<Rightarrow>
          (case find_actions projection t of
             None \<Rightarrow> outcome 404 [(''status'', JStr ''unknown-target''), (''target'', JStr t)]
           | Some actions \<Rightarrow>
               (case find (\<lambda>entry. aa_action entry = action) actions of
                  None \<Rightarrow> outcome 409 [(''status'', JStr ''unavailable''), (''detail'', JStr (''no such action: '' @ action)), (''target'', JStr t)]
                | Some availability \<Rightarrow>
                    if \<not> aa_enabled availability
                    then outcome 409 ([(''status'', JStr ''disabled''),
                           (''detail'', opt_json (str_or (aa_disabledReason availability) (Some ''action not currently safe''))),
                           (''action'', JStr action), (''target'', JStr t)] @ opt_entry ''nextSafeAction'' (aa_nextSafeAction availability))
                    else outcome 202 [(''status'', JStr ''received''), (''detail'', JStr ''attributed intent recorded; enforced in slice 06''),
                           (''intent'', JObj (intent_head ctx action @ [(''target'', JStr t)]))])))"

definition evaluate_action ::
  "workspace_projection \<Rightarrow> string \<Rightarrow> string option \<Rightarrow> action_evaluation_context \<Rightarrow> action_outcome" where
  "evaluate_action projection action target ctx =
     (if action = DISMISS_ACTION then dismiss_action_outcome action target ctx
      else if action \<in> set GATE_DECISION_ACTIONS then gate_decision_outcome action target ctx
      else precomputed_action_outcome projection action target ctx)"

subsection \<open>Carrying it out\<close>

record serving_state =
  sv_control :: control_state
  sv_dismissals :: dismissal_log

record http_response =
  hr_status_code :: nat
  hr_content :: "(string \<times> json) list"
  hr_gate :: "gate_decision_response option"

text \<open>What the settings and the clock give the router.\<close>

record serving_env =
  se_codec :: iso_codec
  se_process :: process
  se_observer_root :: path
  se_gate_policy :: gate_policy
  se_now :: clock

abbreviation on_control :: "(control_state, 'a) prog \<Rightarrow> (serving_state, 'a) prog" where
  "on_control \<equiv> zoom sv_control (\<lambda>k t. t\<lparr>sv_control := k\<rparr>)"

abbreviation on_dismissals :: "(dismissal_log, 'a) prog \<Rightarrow> (serving_state, 'a) prog" where
  "on_dismissals \<equiv> zoom sv_dismissals (\<lambda>d t. t\<lparr>sv_dismissals := d\<rparr>)"

definition recorded_gate_decision ::
  "serving_env \<Rightarrow> gate_decision_intent \<Rightarrow> (control_state, gate_decision_response) prog" where
  "recorded_gate_decision env decision =
     (let root = se_observer_root env;
          context = \<lparr>dc_store = root, dc_inbox_store = root, dc_expectation_store = Some root, dc_policy = se_gate_policy env,
                     dc_now = se_now env\<rparr>;
          verdict = \<lparr>v_decision = gi_decision decision, v_via = ViaDashboard, v_by = Some ''developer'', v_note = gi_note decision,
                     v_deciding_role = None\<rparr>
      in case gi_lifecycle_id decision of
           Some l \<Rightarrow> record_lifecycle_gate_decision (se_codec env) (se_process env) context l (gi_gate_id decision) verdict None
         | None \<Rightarrow> record_gate_decision (se_codec env) (se_process env) context (the (gi_gate_id decision)) None verdict None)"

definition gate_decision_response_call ::
  "serving_env \<Rightarrow> action_outcome \<Rightarrow> gate_decision_intent \<Rightarrow> string option \<Rightarrow> (serving_state, http_response) prog" where
  "gate_decision_response_call env out decision target t =
     (case on_control (recorded_gate_decision env decision) t of
        (Inl (KeyError k), t') \<Rightarrow>
          (Inr \<lparr>hr_status_code = 409,
                hr_content = [(''status'', JStr (if truthy (gi_gate_id decision) then ''stale-gate'' else ''no-open-gate'')),
                              (''target'', opt_json target)], hr_gate = None\<rparr>, t')
      | (Inl e, t') \<Rightarrow> (Inl e, t')
      | (Inr gate, t') \<Rightarrow> (Inr \<lparr>hr_status_code = ao_status_code out, hr_content = ao_body out, hr_gate = Some gate\<rparr>, t'))"

definition suppress_key_error :: "('s, 'a) prog \<Rightarrow> ('s, 'a option) prog" where
  "suppress_key_error m s =
     (case m s of
        (Inl (KeyError _), s') \<Rightarrow> (Inr None, s')
      | (Inl e, s') \<Rightarrow> (Inl e, s')
      | (Inr x, s') \<Rightarrow> (Inr (Some x), s'))"

definition dismissal_of :: "dismissal_intent \<Rightarrow> dismissal_record" where
  "dismissal_of intent =
     \<lparr>dm_schemaVersion = SCHEMA_VERSION, dm_schema = ATTENTION_DISMISSAL_SCHEMA, dm_itemId = di_item_id intent,
      dm_dismissedAt = di_dismissed_at intent, dm_kind = di_kind intent, dm_lifecycleId = di_lifecycle_id intent,
      dm_gateId = di_gate_id intent\<rparr>"

definition dismissal_response :: "serving_env \<Rightarrow> action_outcome \<Rightarrow> dismissal_intent \<Rightarrow> (serving_state, http_response) prog" where
  "dismissal_response env out intent =
     sbind (if di_kind intent = Some ''gate-open'' \<and> di_gate_id intent \<noteq> None
            then suppress_key_error (on_control (recorded_gate_decision env
                   \<lparr>gi_lifecycle_id = di_lifecycle_id intent, gi_decision = ''cancel'', gi_gate_id = di_gate_id intent,
                    gi_note = str_or (di_note intent) (Some ''Dismissed from attention queue.'')\<rparr>))
            else sbind (on_dismissals (dismiss (se_process env) (se_observer_root env) (dismissal_of intent))) (\<lambda>_. sret None))
       (\<lambda>gate. sret \<lparr>hr_status_code = ao_status_code out, hr_content = ao_body out, hr_gate = gate\<rparr>)"

record action_request =
  ar_target :: "string option"
  ar_actor :: string
  ar_gateId :: "string option"
  ar_note :: "string option"
  ar_itemId :: "string option"
  ar_kind :: "string option"

definition action_response ::
  "serving_env \<Rightarrow> workspace_projection option \<Rightarrow> string \<Rightarrow> action_request \<Rightarrow> (serving_state, http_response) prog" where
  "action_response env snapshot action request =
     (case snapshot of
        None \<Rightarrow> sret \<lparr>hr_status_code = 503, hr_content = [(''detail'', JStr ''projection not ready'')], hr_gate = None\<rparr>
      | Some projection \<Rightarrow>
          let out = evaluate_action projection action (ar_target request)
                \<lparr>ac_actor = ar_actor request, ac_now = isoformat (se_codec env) (utc (se_now env)), ac_gate_id = ar_gateId request,
                 ac_note = ar_note request, ac_item_id = ar_itemId request, ac_kind = ar_kind request\<rparr>
          in case ao_dismissal out of
               Some intent \<Rightarrow> dismissal_response env out intent
             | None \<Rightarrow>
                 (case ao_gate_decision out of
                    Some decision \<Rightarrow> gate_decision_response_call env out decision (ar_target request)
                  | None \<Rightarrow> sret \<lparr>hr_status_code = ao_status_code out, hr_content = ao_body out, hr_gate = None\<rparr>))"

end
