(* ===== verification/Attention_Properties.thy ===== *)
theory Attention_Properties
  imports Operator_Actions
begin

section \<open>Properties of the queue and the operator's actions\<close>

text \<open>
  A blocked session always reaches the operator; an acknowledgement hides its item until a newer signal; an action is accepted
  only where the projection says it is safe. Two theorems show where the operator is misled: the acknowledgement of a dormant
  session does not outlive one pass, and dismissing an older gate of a lifecycle does nothing but says it did.
\<close>

lemma assemble_parts:
  assumes "assemble_workspace c logs es ps now given = Inr w"
  obtains en where "project_workspace c logs es (an_gates given) now = Inr (wp_lifecycles w, en)" "wp_enclosures w = en"
    "build_attention_queue c (wp_lifecycles w) ps given = Inr (wp_attentionQueue w)"
    "make_metrics (wp_lifecycles w) (an_sidecar_staleness given) = Inr (wp_metrics w)"
  using assms by (auto simp: assemble_workspace_def rbind_eq_Inr intro!: that)

subsection \<open>Nothing blocked is missed\<close>

definition queued_or_acknowledged :: "iso_codec \<Rightarrow> analytical_inputs \<Rightarrow> workspace_projection \<Rightarrow> attention_item \<Rightarrow> bool" where
  "queued_or_acknowledged c given w i \<longleftrightarrow>
     i \<in> set (wp_attentionQueue w) \<or> is_dismissed c i (an_attention_dismissals given) = Inr True"

lemma other_kinds:
  "i \<in> set (gate_attention gs) \<Longrightarrow> ai_kind i = ''gate-open''"
  "i \<in> set (provider_attention ps) \<Longrightarrow> ai_kind i = ''provider-down''"
  "i \<in> set (drift_attention ds) \<Longrightarrow> ai_kind i = ''actionable-drift''"
  "i \<in> set (setup_attention ss) \<Longrightarrow> ai_kind i = ''failed-setup''"
  "i \<in> set (start_attention es) \<Longrightarrow> ai_kind i = ''blocked-start''"
  by (auto simp: gate_attention_def gate_item_def provider_attention_def drift_attention_def setup_attention_def
      start_attention_def start_item_def Let_def split: option.splits)

lemma blocked_kind:
  assumes "attention_items ls ps given = Inr items" "i \<in> set items" "ai_kind i = ''blocked-gate''"
  obtains p where "p \<in> set ls" "pj_state p = Blocked" "pj_gate p = None" "ai_lifecycleId i = Some (pj_id p)"
proof -
  from assms(1) obtain lifted where l: "lifecycle_attention ls = Inr lifted" and items: "items = lifted @ gate_attention (an_gates given) @
      provider_attention ps @ drift_attention (an_drift_snapshots given) @ setup_attention (an_setup_progress given) @
      start_attention (an_engine_start_progress given)" by (auto simp: attention_items_def rbind_eq_Inr)
  with assms(2,3) have "i \<in> set lifted" by (auto dest: other_kinds)
  then obtain p where p: "p \<in> set ls" "lifecycle_item p = Inr (Some i)" by (auto simp: lifecycle_attention_set [OF l])
  with assms(3) show thesis
    by (intro that [of p]) (auto simp: lifecycle_item_def awaiting_item_def blocked_item_def quiet_item_def rbind_eq_Inr split: if_splits)
qed

lemma items_include:
  assumes "attention_items ls ps given = Inr items"
  shows "g \<in> set (an_gates given) \<Longrightarrow> g_state g = Open \<Longrightarrow> gate_item g \<in> set items"
    and "p \<in> set ls \<Longrightarrow> lifecycle_item p = Inr (Some i) \<Longrightarrow> i \<in> set items"
    and "p \<in> set ls \<Longrightarrow> \<exists>x. lifecycle_item p = Inr x"
proof -
  from assms obtain lifted where l: "lifecycle_attention ls = Inr lifted" and items: "items = lifted @ gate_attention (an_gates given) @
      provider_attention ps @ drift_attention (an_drift_snapshots given) @ setup_attention (an_setup_progress given) @
      start_attention (an_engine_start_progress given)" by (auto simp: attention_items_def rbind_eq_Inr)
  have sub: "set lifted \<subseteq> set items" "set (gate_attention (an_gates given)) \<subseteq> set items" by (auto simp: items)
  show "g \<in> set (an_gates given) \<Longrightarrow> g_state g = Open \<Longrightarrow> gate_item g \<in> set items" using sub(2) by (auto simp: gate_attention_def)
  show "p \<in> set ls \<Longrightarrow> lifecycle_item p = Inr (Some i) \<Longrightarrow> i \<in> set items" using lifecycle_attention_set [OF l] sub(1) by blast
  from l obtain os where "list_all2 (\<lambda>p x. lifecycle_item p = Inr x) ls os"
    by (auto simp: lifecycle_attention_def rbind_eq_Inr rmap_eq_Inr)
  then show "p \<in> set ls \<Longrightarrow> \<exists>x. lifecycle_item p = Inr x" by (auto simp: list_all2_conv_all_nth in_set_conv_nth)
qed

text \<open>
  A blocked session always reaches the operator, once. In every projected workspace, for a lifecycle that is shown as
  blocked: each of its open gates is queued; if it has none, its bare block is queued; and when it has one, no bare block
  is queued beside it. The only exception is an item the operator has acknowledged. The queue is in rank order: severity first,
  then the longest wait, then the id.
\<close>

theorem blocked_lifecycle_queued:
  assumes "assemble_workspace c logs es ps now given = Inr w" "p \<in> set (wp_lifecycles w)" "pj_state p = Blocked"
  shows "(\<forall>g. open_gate_of (an_gates given) (pj_id p) g \<longrightarrow> queued_or_acknowledged c given w (gate_item g)) \<and>
    (if \<exists>g. open_gate_of (an_gates given) (pj_id p) g
     then \<forall>i\<in>set (wp_attentionQueue w). \<not> (ai_kind i = ''blocked-gate'' \<and> ai_lifecycleId i = Some (pj_id p))
     else \<exists>i. blocked_item p = Inr i \<and> queued_or_acknowledged c given w i) \<and>
    sorted (map queue_key (wp_attentionQueue w))"
proof -
  from assemble_parts [OF assms(1)] obtain en where ws: "project_workspace c logs es (an_gates given) now = Inr (wp_lifecycles w, en)"
    and q: "build_attention_queue c (wp_lifecycles w) ps given = Inr (wp_attentionQueue w)" by metis
  obtain items where items: "attention_items (wp_lifecycles w) ps given = Inr items" and srt: "sorted (map queue_key (wp_attentionQueue w))"
    and set: "set (wp_attentionQueue w) = {i \<in> set items. is_dismissed c i (an_attention_dismissals given) = Inr False}"
    by (rule queue_set [OF q])
  have queued: "queued_or_acknowledged c given w i" if "i \<in> set items" for i
    using queue_decides [OF q items that] by (auto simp: queued_or_acknowledged_def)
  have gates: "\<forall>g. open_gate_of (an_gates given) (pj_id p) g \<longrightarrow> queued_or_acknowledged c given w (gate_item g)"
    using queued items_include(1) [OF items] by (auto simp: open_gate_of_def)
  have single: "\<not> (ai_kind i = ''blocked-gate'' \<and> ai_lifecycleId i = Some (pj_id p))"
    if "\<exists>g. open_gate_of (an_gates given) (pj_id p) g" "i \<in> set (wp_attentionQueue w)" for i
  proof
    assume i: "ai_kind i = ''blocked-gate'' \<and> ai_lifecycleId i = Some (pj_id p)"
    from that(2) set have "i \<in> set items" by simp
    with i obtain p' where "p' \<in> set (wp_lifecycles w)" "pj_gate p' = None" "pj_id p' = pj_id p"
      by (elim blocked_kind [OF items]) auto
    with that(1) workspace_gate [OF ws] show False by metis
  qed
  have bare: "\<exists>i. blocked_item p = Inr i \<and> queued_or_acknowledged c given w i"
    if "\<nexists>g. open_gate_of (an_gates given) (pj_id p) g"
  proof -
    from workspace_gate [OF ws assms(2)] that have "pj_gate p = None" by simp
    with assms(3) have item: "lifecycle_item p = rbind (blocked_item p) (\<lambda>i. Inr (Some i))" by (simp add: lifecycle_item_def)
    with items_include(3) [OF items assms(2)] obtain i where "blocked_item p = Inr i" by (auto simp: rbind_eq_Inr)
    with item items_include(2) [OF items assms(2)] queued show ?thesis by auto
  qed
  show ?thesis using gates single bare srt by simp
qed

definition ex_shown_event :: "string \<Rightarrow> (string \<times> json) list \<Rightarrow> event" where
  "ex_shown_event k d = \<lparr>e_schema = OBSERVER_EVENT_SCHEMA, e_id = k, e_ts = ''1'', e_kind = k, e_trust = Observed, e_actor = ActorModel,
     e_data = d, e_lifecycleId = Some ''L'', e_enclosure = None, e_repoId = None, e_sessionId = None, e_spanId = None\<rparr>"

definition ex_inputs :: analytical_inputs where
  "ex_inputs = \<lparr>an_sidecar_staleness = [], an_drift_snapshots = [], an_setup_progress = [], an_engine_start_progress = [],
     an_gates = [], an_attention_dismissals = []\<rparr>"

definition ex_block_logs :: "event list list" where
  "ex_block_logs = [[ex_shown_event ''lifecycle.started'' [], ex_shown_event ''lifecycle.blocked'' []]]"

theorem blocked_lifecycle_queued_witness:
  "\<exists>w p i. assemble_workspace micro_codec ex_block_logs [] [] 5 ex_inputs = Inr w \<and> p \<in> set (wp_lifecycles w) \<and> blocked_item p = Inr i \<and>
     i \<in> set (wp_attentionQueue w)"
proof -
  have "(case assemble_workspace micro_codec ex_block_logs [] [] 5 ex_inputs of Inl e \<Rightarrow> None
      | Inr w \<Rightarrow> Some (map (\<lambda>p. (pj_state p, pj_id p)) (wp_lifecycles w))) = Some [(Blocked, ''L'')]" by code_simp
  then obtain w where w: "assemble_workspace micro_codec ex_block_logs [] [] 5 ex_inputs = Inr w"
    "map (\<lambda>p. (pj_state p, pj_id p)) (wp_lifecycles w) = [(Blocked, ''L'')]" by (auto split: sum.splits)
  then obtain p where p: "p \<in> set (wp_lifecycles w)" "pj_state p = Blocked" by (cases "wp_lifecycles w") auto
  have "\<nexists>g. open_gate_of (an_gates ex_inputs) (pj_id p) g" by (simp add: ex_inputs_def open_gate_of_def)
  with blocked_lifecycle_queued [OF w(1) p] obtain i where "blocked_item p = Inr i" "queued_or_acknowledged micro_codec ex_inputs w i" by auto
  with w(1) p(1) show ?thesis by (auto simp: queued_or_acknowledged_def ex_inputs_def is_dismissed_def)
qed

subsection \<open>Acknowledgements\<close>

text \<open>The request that dismisses an item of the queue.\<close>

definition dismiss_request :: "attention_item \<Rightarrow> action_request" where
  "dismiss_request i = \<lparr>ar_target = ai_lifecycleId i, ar_actor = ''developer'', ar_gateId = ai_gateId i, ar_note = None,
     ar_itemId = Some (ai_id i), ar_kind = Some (ai_kind i)\<rparr>"

definition same_item :: "attention_item \<Rightarrow> attention_item \<Rightarrow> bool" where
  "same_item i j \<longleftrightarrow> ai_id j = ai_id i \<and> ai_kind j = ai_kind i \<and> ai_lifecycleId j = ai_lifecycleId i"

text \<open>What the code says of a later occurrence of the item: hidden unless its signal is after the moment of the dismissal.\<close>

definition hidden_at :: "iso_codec \<Rightarrow> clock \<Rightarrow> attention_item \<Rightarrow> bool res" where
  "hidden_at c now j =
     (if \<not> truthy (ai_signalTs j) then Inr True
      else case fromisoformat c (the (ai_signalTs j)) of
             None \<Rightarrow> Inl (ValueError ''Invalid isoformat string'')
           | Some signal \<Rightarrow> Inr (utc_us (as_utc signal) \<le> now))"

lemma dismiss_outcome:
  assumes "strip (ai_id i) = ai_id i" "ai_id i \<noteq> ''''" "ai_lifecycleId i \<noteq> None \<or> ai_kind i = ''actionable-drift''"
    "ai_kind i \<noteq> ''gate-open''"
    "action_response env (Some w) DISMISS_ACTION (dismiss_request i) t = (Inr r, t')"
  obtains d where "hr_status_code r = 202" "sv_control t' = sv_control t"
    "dismiss (se_process env) (se_observer_root env) d (sv_dismissals t) = (Inr (), sv_dismissals t')"
    "dm_itemId d = ai_id i" "dm_kind d = Some (ai_kind i)" "dm_lifecycleId d = ai_lifecycleId i" "dismissal_ok d"
    "dm_dismissedAt d = isoformat (se_codec env) (utc (se_now env))"
  using assms
  by (auto simp: action_response_def evaluate_action_def dismiss_action_outcome_def dismiss_request_def or_empty_def outcome_def Let_def
      dismissal_response_def dismissal_of_def sbind_eq_Inr zoom_eq_Inr dismissal_ok_def intro!: that)

lemma signal_after_now:
  assumes "iso_reads_back c (utc now)"
  shows "rbind (signal_after c (ai_signalTs j) (isoformat c (utc now))) (\<lambda>b. Inr (\<not> b)) = hidden_at c now j"
proof -
  have aware: "is_naive (as_utc x) = False" for x by (simp add: as_utc_def is_naive_def)
  have now: "utc_us (as_utc (utc now)) = now" by (simp add: as_utc_def is_naive_def utc_def)
  show ?thesis
    using assms by (auto simp: signal_after_def hidden_at_def iso_reads_back_def dt_lt_def dt_sub_def aware now not_less
        simp del: utc_us.simps split: option.splits)
qed

text \<open>
  Claim C21: What an acknowledgement hides, right after it was recorded. Take an item that is tied to a lifecycle, or a drift item,
  whose id is not empty and carries no outer white space, and that is no gate-open item (dismissing one of those cancels its gate);
  and let the present instant, written and read, be the same instant. When the handler returns an answer to the operator's dismissal
  of it, the answer is 202 and no gate, inbox or expectation changed; in the state it leaves, an occurrence of the same item is
  hidden exactly when its signal is not after the moment of the dismissal; another item under the same id is not hidden; and what is
  hidden among the items with other ids is as before. (Later the acknowledgement can be overwritten by another one or pruned.)
\<close>

theorem dismissal_holds_until_newer_signal:
  assumes "strip (ai_id i) = ai_id i" "ai_id i \<noteq> ''''" "ai_lifecycleId i \<noteq> None \<or> ai_kind i = ''actionable-drift''"
    "ai_kind i \<noteq> ''gate-open''" "iso_reads_back (se_codec env) (utc (se_now env))"
    "action_response env (Some w) DISMISS_ACTION (dismiss_request i) t = (Inr r, t')"
  shows "hr_status_code r = 202 \<and> sv_control t' = sv_control t \<and>
    (\<forall>j. is_dismissed (se_codec env) j (dismissal_current (sv_dismissals t')) =
       (if same_item i j then hidden_at (se_codec env) (se_now env) j
        else if ai_id j = ai_id i then Inr False
        else is_dismissed (se_codec env) j (dismissal_current (sv_dismissals t))))"
proof -
  obtain d where r: "hr_status_code r = 202" "sv_control t' = sv_control t"
    and d: "dismiss (se_process env) (se_observer_root env) d (sv_dismissals t) = (Inr (), sv_dismissals t')"
    "dm_itemId d = ai_id i" "dm_kind d = Some (ai_kind i)" "dm_lifecycleId d = ai_lifecycleId i" "dismissal_ok d"
    "dm_dismissedAt d = isoformat (se_codec env) (utc (se_now env))"
    by (rule dismiss_outcome [OF assms(1-4,6)])
  have cur: "dismissal_current (sv_dismissals t') = dput (ai_id i) d (dismissal_current (sv_dismissals t))"
    using dismiss_current [OF d(1,5)] by (simp add: d(2))
  have "is_dismissed (se_codec env) j (dismissal_current (sv_dismissals t')) =
       (if same_item i j then hidden_at (se_codec env) (se_now env) j
        else if ai_id j = ai_id i then Inr False
        else is_dismissed (se_codec env) j (dismissal_current (sv_dismissals t)))" for j
    using assms(3) d(3-4,6) signal_after_now [OF assms(5), of j]
    by (auto simp: is_dismissed_def cur same_item_def DISMISSABLE_REPO_KINDS_def)
  with r show ?thesis by simp
qed

definition ex_quiet_item :: attention_item where
  "ex_quiet_item = (bare_item ''stale-session:L'' ''stale-session'' SevInfo LaneLifecycle ''Session gone quiet'')
     \<lparr>ai_lifecycleId := Some ''L'', ai_signalTs := Some ''3''\<rparr>"

definition ex_control_plane :: "gate_record list \<Rightarrow> serving_state" where
  "ex_control_plane gs = \<lparr>sv_control = \<lparr>cs_gates = \<lparr>workspace_log = None, lifecycle_logs = [(''L'', Some (map Rec gs))]\<rparr>, cs_inbox = None, cs_rows = None\<rparr>,
     sv_dismissals = None\<rparr>"

definition ex_serving_env :: serving_env where
  "ex_serving_env = \<lparr>se_codec = micro_codec, se_process = dashboard_process, se_observer_root = [], se_gate_policy = DEFAULT_GATE_POLICY,
     se_now = 7\<rparr>"

definition ex_workspace :: workspace_projection where
  "ex_workspace = \<lparr>wp_lifecycles = [], wp_enclosures = [], wp_providers = [], wp_metrics = \<lparr>mt_lifecycleCount = 0, mt_runningCount = 0,
     mt_blockedCount = 0, mt_pausedCount = 0, mt_awaitingDeveloperCount = 0, mt_totalTokens = 0, mt_stalenessHistogram = []\<rparr>,
     wp_attentionQueue = []\<rparr>"

theorem dismissal_holds_until_newer_signal_witness:
  "\<exists>r t. action_response ex_serving_env (Some ex_workspace) DISMISS_ACTION (dismiss_request ex_quiet_item) (ex_control_plane []) = (Inr r, t) \<and>
     is_dismissed micro_codec ex_quiet_item (dismissal_current (sv_dismissals t)) = Inr True \<and>
     is_dismissed micro_codec (ex_quiet_item\<lparr>ai_signalTs := Some ''8''\<rparr>) (dismissal_current (sv_dismissals t)) = Inr False"
proof -
  have "(case action_response ex_serving_env (Some ex_workspace) DISMISS_ACTION (dismiss_request ex_quiet_item) (ex_control_plane []) of
      (Inl e, _) \<Rightarrow> None | (Inr r, _) \<Rightarrow> Some (hr_status_code r)) = Some 202" by code_simp
  then obtain r t where rt: "action_response ex_serving_env (Some ex_workspace) DISMISS_ACTION (dismiss_request ex_quiet_item) (ex_control_plane []) = (Inr r, t)"
    by (auto split: sum.splits prod.splits)
  have item: "strip (ai_id ex_quiet_item) = ai_id ex_quiet_item" "ai_id ex_quiet_item \<noteq> ''''"
    "ai_lifecycleId ex_quiet_item \<noteq> None \<or> ai_kind ex_quiet_item = ''actionable-drift''" "ai_kind ex_quiet_item \<noteq> ''gate-open''"
    by code_simp+
  have "iso_reads_back (se_codec ex_serving_env) (utc (se_now ex_serving_env))" using micro_codec_reads_back [of 7] by (simp add: ex_serving_env_def)
  note at = dismissal_holds_until_newer_signal [OF item this rt, THEN conjunct2, THEN conjunct2, rule_format]
  have "hidden_at micro_codec 7 ex_quiet_item = Inr True" "hidden_at micro_codec 7 (ex_quiet_item\<lparr>ai_signalTs := Some ''8''\<rparr>) = Inr False"
    by code_simp+
  with rt at [of ex_quiet_item] at [of "ex_quiet_item\<lparr>ai_signalTs := Some ''8''\<rparr>"] show ?thesis
    by (auto simp: same_item_def ex_serving_env_def)
qed

text \<open>After a pass no acknowledgement is left that names a lifecycle which is not live.\<close>

lemma pass_prunes:
  assumes "project_and_write c p obs_root logs es ps now given s = (Inr w, s')"
    "\<forall>q\<in>set (wp_lifecycles w). pj_id q = l \<longrightarrow> pj_state q \<in> set TERMINAL_STATES" "ai_lifecycleId j = Some l"
  shows "is_dismissed c j (dismissal_current s') = Inr False"
proof -
  from assms(1) obtain n where prune: "prune_lifecycles p obs_root (live_ids (wp_lifecycles w)) s = (Inr n, s')"
    by (auto simp: project_and_write_def sbind_eq_Inr)
  have "l \<notin> set (live_ids (wp_lifecycles w))" using assms(2) by (auto simp: live_ids_def)
  moreover have "keep_current_record (live_ids (wp_lifecycles w)) d" if "dget (dismissal_current s') (ai_id j) = Some d" for d
    using prune_current [OF prune] that by blast
  ultimately show ?thesis using assms(3)
    by (auto simp: is_dismissed_def keep_current_record_def split: option.splits)
qed

lemma pass_queue:
  assumes "project_and_write c p obs_root logs es ps now given s = (Inr w, s')"
    "q \<in> set (wp_lifecycles w)" "lifecycle_item q = Inr (Some i)" "is_dismissed c i (dismissal_current s) = Inr False"
  shows "i \<in> set (wp_attentionQueue w)"
proof -
  from assms(1) have "assemble_workspace c logs es ps now (given\<lparr>an_attention_dismissals := dismissal_current s\<rparr>) = Inr w"
    by (auto simp: project_and_write_def sbind_eq_Inr)
  from assemble_parts [OF this] have
    q: "build_attention_queue c (wp_lifecycles w) ps (given\<lparr>an_attention_dismissals := dismissal_current s\<rparr>) = Inr (wp_attentionQueue w)"
    by metis
  obtain items where items: "attention_items (wp_lifecycles w) ps (given\<lparr>an_attention_dismissals := dismissal_current s\<rparr>) = Inr items"
    "set (wp_attentionQueue w) = {i \<in> set items. is_dismissed c i (dismissal_current s) = Inr False}"
    by (rule queue_set [OF q]) simp
  from items_include(2) [OF items(1) assms(2,3)] items(2) assms(4) show ?thesis by simp
qed

definition dormant :: "lifecycle_projection \<Rightarrow> bool" where
  "dormant q \<longleftrightarrow> pj_inferred q \<and> pj_state q = Abandoned \<and> pj_lastEventTs q \<noteq> ''''"

text \<open>
  The acknowledgement of a dormant session does not outlive one pass. A dormant session is shown as abandoned, a
  terminal state, and every pass drops the acknowledgements of lifecycles in a terminal state. So whatever was acknowledged before a
  pass that shows the lifecycle as over, in the next pass that shows it dormant its item is back in the queue, although no newer
  signal has arrived.
\<close>

theorem dormant_dismissal_forgotten:
  assumes "project_and_write c p obs_root logs es ps now given s = (Inr w, s')"
    "\<forall>q\<in>set (wp_lifecycles w). pj_id q = l \<longrightarrow> pj_state q \<in> set TERMINAL_STATES"
    "project_and_write c p obs_root logs2 es2 ps2 now2 given2 s' = (Inr w2, s2)"
    "q \<in> set (wp_lifecycles w2)" "pj_id q = l" "dormant q"
  shows "quiet_item ''dormant-fleeting'' ''Fleeting session dormant'' q \<in> set (wp_attentionQueue w2)"
proof (rule pass_queue [OF assms(3,4)])
  show "lifecycle_item q = Inr (Some (quiet_item ''dormant-fleeting'' ''Fleeting session dormant'' q))"
    using assms(6) by (simp add: lifecycle_item_def dormant_def)
  show "is_dismissed c (quiet_item ''dormant-fleeting'' ''Fleeting session dormant'' q) (dismissal_current s') = Inr False"
    using pass_prunes [OF assms(1,2)] by (simp add: quiet_item_def assms(5))
qed

definition ex_quiet_logs :: "event list list" where
  "ex_quiet_logs = [[ex_shown_event ''lifecycle.started'' []]]"

definition ex_ack :: dismissal_record where
  "ex_ack = \<lparr>dm_schemaVersion = SCHEMA_VERSION, dm_schema = ATTENTION_DISMISSAL_SCHEMA, dm_itemId = ''dormant-fleeting:L'',
     dm_dismissedAt = ''9'', dm_kind = Some ''dormant-fleeting'', dm_lifecycleId = Some ''L'', dm_gateId = None\<rparr>"

abbreviation ex_pass :: "(dismissal_log, workspace_projection) prog" where
  "ex_pass \<equiv> project_and_write micro_codec dashboard_process [] ex_quiet_logs [] [] 4000000000 ex_inputs"

theorem dormant_dismissal_forgotten_witness:
  "\<exists>w w2 s s2 q. ex_pass (Some [Rec ex_ack]) = (Inr w, s) \<and> wp_attentionQueue w = [] \<and> ex_pass s = (Inr w2, s2) \<and>
     quiet_item ''dormant-fleeting'' ''Fleeting session dormant'' q \<in> set (wp_attentionQueue w2)"
proof -
  have "(case ex_pass (Some [Rec ex_ack]) of (Inl e, _) \<Rightarrow> None
      | (Inr w, s) \<Rightarrow> Some (s, map (\<lambda>p. (pj_id p, pj_state p)) (wp_lifecycles w), wp_attentionQueue w)) = Some (Some [], [(''L'', Abandoned)], [])"
    by code_simp
  then obtain w where w: "ex_pass (Some [Rec ex_ack]) = (Inr w, Some [])" "map (\<lambda>p. (pj_id p, pj_state p)) (wp_lifecycles w) = [(''L'', Abandoned)]"
    "wp_attentionQueue w = []" by (auto split: sum.splits prod.splits)
  have "(case ex_pass (Some []) of (Inl e, _) \<Rightarrow> None
      | (Inr w, _) \<Rightarrow> Some (map (\<lambda>p. (pj_id p, pj_state p, pj_inferred p, pj_lastEventTs p)) (wp_lifecycles w))) = Some [(''L'', Abandoned, True, ''1'')]"
    by code_simp
  then obtain w2 s2 where w2: "ex_pass (Some []) = (Inr w2, s2)"
    "map (\<lambda>p. (pj_id p, pj_state p, pj_inferred p, pj_lastEventTs p)) (wp_lifecycles w2) = [(''L'', Abandoned, True, ''1'')]"
    by (auto split: sum.splits prod.splits)
  then obtain q where q: "q \<in> set (wp_lifecycles w2)" "pj_id q = ''L''" "dormant q" by (cases "wp_lifecycles w2") (auto simp: dormant_def)
  have "\<forall>q\<in>set (wp_lifecycles w). pj_id q = ''L'' \<longrightarrow> pj_state q \<in> set TERMINAL_STATES"
    using w(2) by (cases "wp_lifecycles w") (auto simp: TERMINAL_STATES_def)
  from dormant_dismissal_forgotten [OF w(1) this w2(1) q] w(1,3) w2(1) show ?thesis by blast
qed

subsection \<open>Gates\<close>

text \<open>
  Dismissing an older gate does nothing and says it did. The queue shows every open gate of a lifecycle, but the
  dismissal of one is carried out as a cancellation of the lifecycle's latest open gate; when the dismissed one is not the latest,
  the refusal is swallowed: the answer is 202 with the text of a dismissal, and no store has changed.
\<close>

theorem older_gate_dismissal_lost:
  assumes "gate_current (Some l) (cs_gates (sv_control t)) = Inr d"
    "max_by g_ts (filter (\<lambda>g. g_state g = Open) (dvalues d)) = Some latest" "g_id latest \<noteq> g_id g" "g_lifecycleId g = Some l"
  shows "\<exists>r. action_response env (Some w) DISMISS_ACTION (dismiss_request (gate_item g)) t = (Inr r, t) \<and> hr_status_code r = 202 \<and>
    dget (hr_content r) ''detail'' = Some (JStr ''attention item dismissed'')"
proof -
  have id: "strip (''gate:'' @ g_id g) \<noteq> ''''" by (simp add: strip_eq_Nil is_space_def)
  have lost: "record_lifecycle_gate_decision cc pp ctx l (Some (g_id g)) v ev (sv_control t) =
      (Inl (KeyError ''expected gate is not the current open gate''), sv_control t)" for cc pp ctx v ev
    using assms(1-3) by (simp add: record_lifecycle_gate_decision_def sbind_sget)
  show ?thesis
    using id assms(4) by (simp add: action_response_def evaluate_action_def dismiss_action_outcome_def dismiss_request_def or_empty_def
        gate_item_def bare_item_def outcome_def Let_def dismissal_response_def suppress_key_error_def recorded_gate_decision_def zoom_def lost
        sbind_def sret_def)
qed

definition ex_shown_gate :: "string \<Rightarrow> string \<Rightarrow> gate_record" where
  "ex_shown_gate gid ts = \<lparr>g_schemaVersion = SCHEMA_VERSION, g_schema = GATE_RECORD_SCHEMA, g_id = gid, g_ts = ts, g_kind = CloseoutApproval,
     g_state = Open, g_lifecycleId = Some ''L'', g_enclosure = None, g_repoId = None, g_packet = [], g_requiredDecision = None, g_decidedBy = None,
     g_decidedVia = None, g_decidingRole = None, g_decisionNote = None, g_decidedAt = None, g_evidenceRefs = [], g_appliedOperation = None\<rparr>"

theorem older_gate_dismissal_lost_witness:
  "\<exists>r. action_response ex_serving_env (Some ex_workspace) DISMISS_ACTION (dismiss_request (gate_item (ex_shown_gate ''a'' ''1'')))
     (ex_control_plane [ex_shown_gate ''a'' ''1'', ex_shown_gate ''b'' ''2'']) =
     (Inr r, ex_control_plane [ex_shown_gate ''a'' ''1'', ex_shown_gate ''b'' ''2'']) \<and> hr_status_code r = 202"
proof -
  let ?t = "ex_control_plane [ex_shown_gate ''a'' ''1'', ex_shown_gate ''b'' ''2'']"
  have "gate_current (Some ''L'') (cs_gates (sv_control ?t)) = Inr [(''a'', ex_shown_gate ''a'' ''1''), (''b'', ex_shown_gate ''b'' ''2'')]"
    by code_simp
  moreover have "max_by g_ts (filter (\<lambda>g. g_state g = Open) (dvalues [(''a'', ex_shown_gate ''a'' ''1''), (''b'', ex_shown_gate ''b'' ''2'')])) =
      Some (ex_shown_gate ''b'' ''2'')" by code_simp
  moreover have "g_id (ex_shown_gate ''b'' ''2'') \<noteq> g_id (ex_shown_gate ''a'' ''1'')" "g_lifecycleId (ex_shown_gate ''a'' ''1'') = Some ''L''"
    by (simp_all add: ex_shown_gate_def)
  ultimately show ?thesis using older_gate_dismissal_lost by blast
qed

subsection \<open>Accepted actions\<close>

text \<open>The action of that name that a target offers, when it is enabled, is the one of a closed and unintegrated enclosure.\<close>

lemma offered_integration:
  assumes ws: "project_workspace c logs es gs now = Inr (wp_lifecycles w, wp_enclosures w)"
    and acts: "find_actions w tg = Some acts"
    and a: "find (\<lambda>entry. aa_action entry = ''integrate'') acts = Some a" "aa_enabled a"
  shows "\<exists>e\<in>set es. tg = en_enclosure e \<and> en_closeoutStatus e = ''completed'' \<and> en_integrationStatus e = ''not-started''"
proof -
  from ws have enr: "wp_enclosures w = map (\<lambda>e. e\<lparr>en_actions := enclosure_actions e\<rparr>) es"
    by (auto simp: project_workspace_def rbind_eq_Inr Let_def)
  from a(1) have a_in: "a \<in> set acts" "aa_action a = ''integrate''" by (auto simp: find_Some_iff)
  have no_lc: "\<not> (\<exists>p\<in>set (wp_lifecycles w). acts = pj_actions p)"
    using workspace_actions [OF ws, of _ a] a_in by fastforce
  have "find (\<lambda>p. pj_id p = tg) (wp_lifecycles w) = None"
    using acts no_lc by (cases "find (\<lambda>p. pj_id p = tg) (wp_lifecycles w)") (auto simp: find_actions_def find_Some_iff)
  with acts obtain e' where e': "find (\<lambda>e. en_enclosure e = tg) (wp_enclosures w) = Some e'" "acts = en_actions e'"
    by (auto simp: find_actions_def)
  from e'(1) have "e' \<in> set (wp_enclosures w)" "en_enclosure e' = tg" by (auto simp: find_Some_iff)
  then obtain e where e: "e \<in> set es" "e' = e\<lparr>en_actions := enclosure_actions e\<rparr>" unfolding enr set_map by (elim imageE)
  with \<open>en_enclosure e' = tg\<close> have tgt: "tg = en_enclosure e" by simp
  from e(2) e'(2) a(1) have "a = integrate_action e"
    by (simp add: enclosure_actions_def integrate_action_def split: if_splits)
  with a(2) have "en_closeoutStatus e = ''completed'' \<and> en_integrationStatus e = ''not-started''"
    by (simp add: integrate_action_def split: if_splits)
  with e(1) tgt show ?thesis by blast
qed

text \<open>
  An integration is accepted only where it is safe, and nothing is written. For a projected workspace, asking for
  \<^verbatim>\<open>integrate\<close> changes no store, and the answer is 202 only if the target is an enclosure whose closeout is completed and whose
  integration has not started; every other answer is a refusal (400, 404 or 409).
\<close>

theorem integrate_accepted_only_when_safe:
  assumes "assemble_workspace c logs es ps now given = Inr w"
    "action_response env (Some w) ''integrate'' req t = (Inr r, t')"
  shows "t' = t \<and> hr_status_code r \<in> {202, 400, 404, 409} \<and>
    (hr_status_code r = 202 \<longrightarrow> (\<exists>e\<in>set es. ar_target req = Some (en_enclosure e) \<and> en_closeoutStatus e = ''completed'' \<and>
       en_integrationStatus e = ''not-started''))"
proof -
  let ?ctx = "\<lparr>ac_actor = ar_actor req, ac_now = isoformat (se_codec env) (utc (se_now env)), ac_gate_id = ar_gateId req,
     ac_note = ar_note req, ac_item_id = ar_itemId req, ac_kind = ar_kind req\<rparr>"
  let ?out = "precomputed_action_outcome w ''integrate'' (ar_target req) ?ctx"
  have out: "evaluate_action w ''integrate'' (ar_target req) ?ctx = ?out"
    by (simp add: evaluate_action_def DISMISS_ACTION_def GATE_DECISION_ACTIONS_def)
  have pure: "ao_dismissal ?out = None" "ao_gate_decision ?out = None"
    by (auto simp: precomputed_action_outcome_def outcome_def split: option.splits)
  with assms(2) have r: "t' = t" "hr_status_code r = ao_status_code ?out" by (auto simp: action_response_def out Let_def)
  from assemble_parts [OF assms(1)] have ws: "project_workspace c logs es (an_gates given) now = Inr (wp_lifecycles w, wp_enclosures w)" by metis
  have "\<exists>e\<in>set es. ar_target req = Some (en_enclosure e) \<and> en_closeoutStatus e = ''completed'' \<and> en_integrationStatus e = ''not-started''"
    if "ao_status_code ?out = 202"
    using that by (auto simp: precomputed_action_outcome_def outcome_def split: option.splits if_splits dest!: offered_integration [OF ws])
  moreover have "ao_status_code ?out \<in> {202, 400, 404, 409}"
    by (auto simp: precomputed_action_outcome_def outcome_def split: option.splits)
  ultimately show ?thesis using r by simp
qed

definition ex_closed_enclosure :: enclosure_node where
  "ex_closed_enclosure = \<lparr>en_enclosure = ''A'', en_enclosureId = '''', en_leafId = '''', en_taskId = ''T'', en_taskName = ''task'', en_repoName = ''repo'',
     en_taskRoot = '''', en_lifecycleId = '''', en_worktreeGroup = '''', en_humanReviewStatus = '''', en_closeoutStatus = ''completed'',
     en_integrationStatus = ''not-started'', en_cleanup = ''pending'', en_codeWorktreeExists = True, en_memoryWorktreeExists = True, en_actions = []\<rparr>"

definition ex_integrate :: action_request where
  "ex_integrate = \<lparr>ar_target = Some ''A'', ar_actor = ''developer'', ar_gateId = None, ar_note = None, ar_itemId = None, ar_kind = None\<rparr>"

theorem integrate_accepted_only_when_safe_witness:
  "\<exists>w r t. assemble_workspace micro_codec [] [ex_closed_enclosure] [] 5 ex_inputs = Inr w \<and>
     action_response ex_serving_env (Some w) ''integrate'' ex_integrate (ex_control_plane []) = (Inr r, t) \<and> t = ex_control_plane [] \<and> hr_status_code r = 202"
proof -
  have "(case assemble_workspace micro_codec [] [ex_closed_enclosure] [] 5 ex_inputs of Inl e \<Rightarrow> None
      | Inr w \<Rightarrow> (case action_response ex_serving_env (Some w) ''integrate'' ex_integrate (ex_control_plane []) of (Inl e, _) \<Rightarrow> None
                 | (Inr r, t) \<Rightarrow> Some (hr_status_code r))) = Some 202" by code_simp
  then obtain w r t where wrt: "assemble_workspace micro_codec [] [ex_closed_enclosure] [] 5 ex_inputs = Inr w"
    "action_response ex_serving_env (Some w) ''integrate'' ex_integrate (ex_control_plane []) = (Inr r, t)" "hr_status_code r = 202"
    by (auto split: sum.splits prod.splits)
  from integrate_accepted_only_when_safe [OF wrt(1,2)] have "t = ex_control_plane []" by (rule conjunct1)
  with wrt show ?thesis by blast
qed

text \<open>The rollup always succeeds, and its buckets add up to the lifecycles that are not over.\<close>

theorem rollup_adds_up:
  "\<exists>m. make_metrics ls sidecars = Inr m \<and> mt_lifecycleCount m = int (length ls) \<and> mt_totalTokens m = sum_list (map pj_tokens ls) \<and>
     mt_runningCount m + mt_pausedCount m + mt_blockedCount m + mt_awaitingDeveloperCount m =
       int (length (filter (\<lambda>p. pj_state p \<notin> set TERMINAL_STATES) ls))"
proof -
  have "int (length ls) = int (length (filter (\<lambda>p. pj_state p \<in> set TERMINAL_STATES) ls)) +
      int (length (filter (\<lambda>p. pj_state p \<notin> set TERMINAL_STATES) ls))"
    using sum_length_filter_compl [of "\<lambda>p. pj_state p \<in> set TERMINAL_STATES" ls] by linarith
  moreover have "lc_state_str st = lc_state_str Running \<longleftrightarrow> st = Running" "lc_state_str st = lc_state_str Paused \<longleftrightarrow> st = Paused"
    "lc_state_str st = lc_state_str Blocked \<longleftrightarrow> st = Blocked" "lc_state_str st = lc_state_str AwaitingDeveloper \<longleftrightarrow> st = AwaitingDeveloper" for st
    by (simp_all only: lc_state_str_iff)
  ultimately show ?thesis using count_split [of ls] by (simp add: make_metrics_def state_counts count_keyword_def Let_def)
qed

text \<open>
  A lifecycle that had gone quiet before its worktree was abandoned is over, but still marked as inferred: the queue calls it a
  fleeting session, which it is not.
\<close>

theorem abandoned_worktree_called_fleeting:
  assumes "pj_state p = Paused" "pj_inferred p" "\<not> pj_fleeting p" "pj_lastEventTs p \<noteq> ''''" "en_lifecycleId e = pj_id p"
    "pj_enclosure p = Some (en_enclosure e)" "en_enclosure e \<noteq> ''''" "en_cleanup e = ''abandoned''"
  shows "\<exists>q\<in>set (workspace_lifecycles [e] gates [p]). \<not> pj_fleeting q \<and>
    lifecycle_item q = Inr (Some (quiet_item ''dormant-fleeting'' ''Fleeting session dormant'' q))"
proof -
  let ?q = "attach_gate gates (p\<lparr>pj_state := Abandoned\<rparr>)"
  have "?q \<in> set (workspace_lifecycles [e] gates [p])"
    using assms
    by (simp add: workspace_lifecycles_def current_event_backed_lifecycles_def event_backed_lifecycle_is_current_def fold_by_def
        terminalize_abandoned_anchor_lifecycles_def TERMINAL_STATES_def Let_def)
  moreover have "pj_lastEventTs ?q = pj_lastEventTs p" by (simp add: attach_gate_def split: option.split)
  ultimately show ?thesis using assms(2-4) by (intro bexI [of _ ?q]) (simp_all add: lifecycle_item_def)
qed

end
