(* ===== verification/Inbox_Delivery.thy ===== *)
theory Inbox_Delivery
  imports Inbox_Transitions Signal_Routing Py_Text
begin

section \<open>Delivering an inbox row\<close>

text \<open>
  \<^verbatim>\<open>serving/inbox_delivery.py\<close> with the gate of \<^verbatim>\<open>serving/dispatch_brief.py\<close> and \<^verbatim>\<open>seat_at_turn_boundary\<close> of
  \<^verbatim>\<open>models/terminal_catalog.py\<close>: which hosted session a row goes to, whether it may be pushed now, and what is recorded of the
  attempt. The control client (\<^verbatim>\<open>submit_control_prompt\<close>, \<^verbatim>\<open>reconcile_control_prompt\<close>), the tmux host and the readiness probe
  are arguments; the client's answer may depend on every call made before, and the calls are kept in order in \<open>dw_wire\<close>. Of a
  catalog row, the fields read here extend the seat row of \<^verbatim>\<open>Signal_Routing\<close>.
\<close>

record hosted_seat = seat_row +
  hs_tmux_name :: string
  hs_control_state :: "string option"
  hs_control_endpoint :: "path option"
  hs_prompt_keywords :: "string list option"

record hosted_catalog =
  hc_get :: "string \<Rightarrow> hosted_seat option"
  hc_list :: "hosted_seat list"

text \<open>\<^verbatim>\<open>ControlState\<close>, \<^verbatim>\<open>ActivityState\<close> and \<^verbatim>\<open>AcceptanceState\<close> of \<^verbatim>\<open>models/conversations/control_wire.py\<close>.\<close>

datatype bridge_state = CtlStarting | CtlReady | CtlDisconnected | CtlFailed | CtlUnsupported

fun bridge_state_str :: "bridge_state \<Rightarrow> string" where
  "bridge_state_str CtlStarting = ''starting''"
| "bridge_state_str CtlReady = ''ready''"
| "bridge_state_str CtlDisconnected = ''disconnected''"
| "bridge_state_str CtlFailed = ''failed''"
| "bridge_state_str CtlUnsupported = ''unsupported''"

datatype activity_state = ActIdle | ActRunning | ActBlocked | ActSettling | ActUnknown

fun activity_state_str :: "activity_state \<Rightarrow> string" where
  "activity_state_str ActIdle = ''idle''"
| "activity_state_str ActRunning = ''running''"
| "activity_state_str ActBlocked = ''blocked''"
| "activity_state_str ActSettling = ''settling''"
| "activity_state_str ActUnknown = ''unknown''"

datatype acceptance_state = AccImmediate | AccQueued | AccRejected | AccUnknown | AccUnsupported

record submission_receipt =
  sr_request_id :: string
  sr_acceptance :: acceptance_state
  sr_vendor_correlation_id :: "string option"
  sr_accepted_at :: "string option"
  sr_detail :: "string option"

datatype reconciliation_state = RecAccepted | RecRejected | RecUnresolved | RecUnsupported

record reconciliation_result =
  rr_request_id :: string
  rr_state :: reconciliation_state
  rr_vendor_correlation_id :: "string option"
  rr_detail :: "string option"

text \<open>A call on the wire: the session, the request id and, for a submission, the text.\<close>

datatype wire_call = WireSubmit string string string | WireReconcile string string

record readiness_result =
  rd_status :: string
  rd_entry :: "hosted_seat option"
  rd_detail :: "string option"

type_synonym readiness_check = "hosted_catalog \<Rightarrow> (string \<Rightarrow> bool) \<Rightarrow> string \<Rightarrow> readiness_result"

text \<open>The collaborators of a delivery; \<open>Inl\<close> from the client is a \<^verbatim>\<open>HarnessControlError\<close> with its text.\<close>

record delivery_env =
  de_codec :: iso_codec
  de_process :: process
  de_observer_root :: path
  de_submit :: "wire_call list \<Rightarrow> hosted_seat \<Rightarrow> string \<Rightarrow> string \<Rightarrow> string + submission_receipt"
  de_reconcile :: "wire_call list \<Rightarrow> hosted_seat \<Rightarrow> string \<Rightarrow> string + reconciliation_result"
  de_has_session :: "string \<Rightarrow> bool"
  de_readiness :: readiness_check

record delivery_world =
  dw_inbox :: inbox
  dw_wire :: "wire_call list"

record delivery_outcome =
  out_delivery_state :: inbox_delivery_state
  out_adapter_state :: "adapter_delivery_state option"
  out_detail :: string

record adapter_correlation =
  co_request_id :: "string option"
  co_vendor_correlation_id :: "string option"
  co_accepted_at :: "string option"

record inbox_delivery_log =
  lg_entry :: operator_inbox_entry
  lg_at :: string
  lg_floor :: redelivery_floor

record delivery_admission =
  ad_submit :: bool
  ad_dispatch_gate :: "readiness_check option"
  ad_boundary :: bool

definition NO_ADAPTER_CORRELATION :: adapter_correlation where
  "NO_ADAPTER_CORRELATION = \<lparr>co_request_id = None, co_vendor_correlation_id = None, co_accepted_at = None\<rparr>"

definition DEFAULT_DELIVERY_ADMISSION :: delivery_admission where
  "DEFAULT_DELIVERY_ADMISSION = \<lparr>ad_submit = True, ad_dispatch_gate = None, ad_boundary = False\<rparr>"

definition seat_at_turn_boundary :: "hosted_seat \<Rightarrow> bool" where
  "seat_at_turn_boundary seat =
     (if seat_status seat \<noteq> ''running'' then False
      else if seat_turn_state seat \<in> {Some ''turn-ended'', Some ''awaiting-input''} then True
      else seat_turn_state seat = None \<and> hs_control_state seat = Some ''ready'')"

subsection \<open>The text\<close>

fun message_kind_str :: "inbox_message_kind \<Rightarrow> string" where
  "message_kind_str PlainMessage = ''message''"
| "message_kind_str GateResponse = ''gate-response''"
| "message_kind_str TurnReport = ''turn-report''"
| "message_kind_str MasterHandover = ''master-handover''"
| "message_kind_str Nudge = ''nudge''"
| "message_kind_str Escalation = ''escalation''"
| "message_kind_str DegradationAlert = ''degradation-alert''"
| "message_kind_str DecisionItem = ''decision-item''"
| "message_kind_str DecisionRuling = ''decision-ruling''"
| "message_kind_str DispatchBrief = ''dispatch-brief''"
| "message_kind_str StateSignal = ''state-signal''"

fun adapter_state_str :: "adapter_delivery_state \<Rightarrow> string" where
  "adapter_state_str AAccepted = ''accepted''"
| "adapter_state_str AQueued = ''queued''"
| "adapter_state_str ARejected = ''rejected''"
| "adapter_state_str AUnknown = ''unknown''"
| "adapter_state_str ACompleted = ''completed''"
| "adapter_state_str AUnsupported = ''unsupported''"

definition push_text :: "operator_inbox_entry \<Rightarrow> string" where
  "push_text entry =
     join_text [CHR 0x0A]
       ([''[Agents Remember inbox:'' @ message_kind_str (i_messageKind entry) @ '']'',
         ''from: '' @ (case i_senderRole entry of None \<Rightarrow> ''operator'' | Some r \<Rightarrow> agent_role_str r),
         ''ack: reply in this chat; the control plane correlates acceptance automatically''] @
        (if truthy (i_artifactPath entry) then [''artifact: '' @ the (i_artifactPath entry)] else []) @
        ['''', i_ask entry, '''', i_response entry])"

definition with_prompt_keywords :: "hosted_seat \<Rightarrow> string \<Rightarrow> string" where
  "with_prompt_keywords target s =
     (case hs_prompt_keywords target of
        None \<Rightarrow> s
      | Some ks \<Rightarrow> if ks = [] then s else join_text '' '' ks @ [CHR 0x0A, CHR 0x0A] @ s)"

subsection \<open>The target\<close>

definition structural_target :: "hosted_catalog \<Rightarrow> operator_inbox_entry \<Rightarrow> hosted_seat option res" where
  "structural_target catalog entry =
     (case (i_taskDocumentRef entry, i_recipientRole entry) of
        (Some document, Some role) \<Rightarrow>
          let primary = filter (\<lambda>t. seat_status t = ''running'' \<and> seat_binding_role t = agent_role_str role \<and>
                                    seat_task_document_ref t = Some document) (hc_list catalog)
          in if 1 < length primary then Inl (ValueError ''ambiguous structural inbox target'')
             else if primary \<noteq> [] then Inr (Some (hd primary))
             else let replacements = filter (\<lambda>t. seat_status t = ''running'' \<and> seat_binding_role t = agent_role_str role \<and>
                                                 seat_replacement_for t = Some document) (hc_list catalog)
                  in if 1 < length replacements then Inl (ValueError ''ambiguous structural inbox replacement'')
                     else Inr (case replacements of [] \<Rightarrow> None | t # _ \<Rightarrow> Some t)
      | _ \<Rightarrow> Inr None)"

definition running_seat :: "hosted_seat option \<Rightarrow> hosted_seat option" where
  "running_seat t = (case t of None \<Rightarrow> None | Some s \<Rightarrow> if seat_status s = ''running'' then Some s else None)"

definition correlated_target :: "hosted_catalog \<Rightarrow> operator_inbox_entry \<Rightarrow> hosted_seat option" where
  "correlated_target catalog entry =
     (case if truthy (i_agentId entry) then running_seat (hc_get catalog (the (i_agentId entry))) else None of
        Some t \<Rightarrow> Some t
      | None \<Rightarrow>
          if truthy (i_lifecycleId entry)
          then find (\<lambda>t. seat_status t = ''running'' \<and> seat_lifecycle_id t = i_lifecycleId entry) (hc_list catalog)
          else None)"

definition target_session_for_entry :: "hosted_catalog \<Rightarrow> operator_inbox_entry \<Rightarrow> hosted_seat option res" where
  "target_session_for_entry catalog entry =
     (if i_messageKind entry = DispatchBrief
      then Inr (case i_agentId entry of None \<Rightarrow> None | Some a \<Rightarrow> running_seat (hc_get catalog a))
      else if i_taskDocumentRef entry \<noteq> None \<and> i_recipientRole entry \<noteq> None then structural_target catalog entry
      else Inr (correlated_target catalog entry))"

subsection \<open>Admission\<close>

definition hosted_session_identity :: "hosted_seat \<Rightarrow> string \<times> string \<times> string" where
  "hosted_session_identity t = (seat_id t, hs_tmux_name t, seat_created_at t)"

definition exact_running_failure :: "readiness_result \<Rightarrow> hosted_seat \<Rightarrow> string \<Rightarrow> string option" where
  "exact_running_failure observed target phase =
     (case rd_entry observed of
        None \<Rightarrow> Some (''dispatch target identity changed '' @ phase @ ''; no input sent'')
      | Some entry \<Rightarrow>
          if hosted_session_identity entry \<noteq> hosted_session_identity target
          then Some (''dispatch target identity changed '' @ phase @ ''; no input sent'')
          else if seat_status entry \<noteq> ''running''
          then Some (''dispatch target is '' @ rd_status observed @ '': '' @ the (str_or (rd_detail observed) (Some ''not running'')))
          else None)"

definition dispatch_gate_check :: "readiness_check \<Rightarrow> hosted_catalog \<Rightarrow> (string \<Rightarrow> bool) \<Rightarrow> hosted_seat \<Rightarrow> string option" where
  "dispatch_gate_check readiness catalog host target =
     (let observed = readiness catalog host (seat_id target)
      in case exact_running_failure observed target ''during adapter readiness check'' of
           Some failure \<Rightarrow> Some failure
         | None \<Rightarrow>
             if rd_status observed = ''ready'' then None
             else Some (''dispatch target is '' @ rd_status observed @ '': '' @ the (str_or (rd_detail observed) (Some ''not adapter-ready''))))"

definition delivery_refusal ::
  "delivery_env \<Rightarrow> hosted_catalog \<Rightarrow> operator_inbox_entry \<Rightarrow> hosted_seat \<Rightarrow> delivery_admission \<Rightarrow> delivery_outcome option" where
  "delivery_refusal env catalog entry target admission =
     (if \<not> de_has_session env (hs_tmux_name target)
      then Some \<lparr>out_delivery_state = DNoHostedSession, out_adapter_state = None,
                 out_detail = ''catalog row exists but tmux session is not running''\<rparr>
      else if seat_kind target \<noteq> ''harness'' \<or> hs_control_endpoint target = None
      then Some \<lparr>out_delivery_state = DUnconfirmed, out_adapter_state = Some AUnsupported,
                 out_detail = ''legacy or ordinary terminal session has no protocol delivery adapter''\<rparr>
      else if \<not> ad_submit admission
      then Some \<lparr>out_delivery_state = DUnconfirmed, out_adapter_state = Some ARejected,
                 out_detail = ''durable inbox delivery requires a committed adapter submission''\<rparr>
      else let brief = (if i_messageKind entry \<noteq> DispatchBrief then None
                        else dispatch_gate_check (case ad_dispatch_gate admission of None \<Rightarrow> de_readiness env | Some g \<Rightarrow> g)
                               catalog (de_has_session env) target)
           in case brief of
                Some gate_detail \<Rightarrow>
                  Some \<lparr>out_delivery_state = DUnconfirmed, out_adapter_state = Some ARejected, out_detail = gate_detail\<rparr>
              | None \<Rightarrow>
                  if (i_messageKind entry = StateSignal \<or> ad_boundary admission) \<and> \<not> seat_at_turn_boundary target
                  then Some \<lparr>out_delivery_state = DQueued, out_adapter_state = Some AQueued,
                             out_detail = (if i_messageKind entry = StateSignal
                                           then ''availability gate: state-signal rows push only at a turn boundary''
                                           else ''availability gate: target seat is not at a turn boundary'')\<rparr>
                  else None)"

subsection \<open>Recording\<close>

abbreviation on_inbox_log :: "(inbox, 'a) prog \<Rightarrow> (delivery_world, 'a) prog" where
  "on_inbox_log \<equiv> zoom dw_inbox (\<lambda>i w. w\<lparr>dw_inbox := i\<rparr>)"

definition attempt_of ::
  "inbox_delivery_log \<Rightarrow> hosted_seat option \<Rightarrow> delivery_outcome \<Rightarrow> adapter_correlation \<Rightarrow> bool \<Rightarrow> delivery_attempt" where
  "attempt_of lg target out correlation landed =
     \<lparr>at_delivery_state = out_delivery_state out, at_delivered_to_session = map_option seat_id target,
      at_detail = Some (out_detail out),
      at_adapter = \<lparr>rc_delivery_state = out_adapter_state out,
                    rc_request_id = str_or (i_adapterRequestId (lg_entry lg)) (co_request_id correlation),
                    rc_vendor_correlation_id = co_vendor_correlation_id correlation, rc_accepted_at = co_accepted_at correlation,
                    rc_detail = Some (out_detail out)\<rparr>,
      at_landed = landed\<rparr>"

definition record_outcome ::
  "delivery_env \<Rightarrow> inbox_delivery_log \<Rightarrow> hosted_seat option \<Rightarrow> delivery_outcome \<Rightarrow> adapter_correlation \<Rightarrow> bool \<Rightarrow>
   (delivery_world, operator_inbox_entry) prog" where
  "record_outcome env lg target out correlation landed =
     on_inbox_log (record_delivery (de_codec env) (de_process env) (de_observer_root env) (i_id (lg_entry lg))
       (attempt_of lg target out correlation landed) (lg_at lg) (lg_floor lg))"

text \<open>\<^verbatim>\<open>_try_reconcile\<close>: the call is made; an error answers nothing.\<close>

definition try_reconcile :: "delivery_env \<Rightarrow> hosted_seat \<Rightarrow> string \<Rightarrow> (delivery_world, reconciliation_result option) prog" where
  "try_reconcile env target request_id w =
     (Inr (case de_reconcile env (dw_wire w) target request_id of Inl _ \<Rightarrow> None | Inr r \<Rightarrow> Some r),
      w\<lparr>dw_wire := dw_wire w @ [WireReconcile (seat_id target) request_id]\<rparr>)"

definition submit_prompt :: "delivery_env \<Rightarrow> hosted_seat \<Rightarrow> string \<Rightarrow> string \<Rightarrow> (delivery_world, string + submission_receipt) prog" where
  "submit_prompt env target s request_id w =
     (Inr (de_submit env (dw_wire w) target s request_id),
      w\<lparr>dw_wire := dw_wire w @ [WireSubmit (seat_id target) request_id s]\<rparr>)"

fun acceptance_adapter_state :: "acceptance_state \<Rightarrow> adapter_delivery_state" where
  "acceptance_adapter_state AccImmediate = AAccepted"
| "acceptance_adapter_state AccQueued = AQueued"
| "acceptance_adapter_state AccRejected = ARejected"
| "acceptance_adapter_state AccUnknown = AUnknown"
| "acceptance_adapter_state AccUnsupported = AUnsupported"

definition record_receipt ::
  "delivery_env \<Rightarrow> inbox_delivery_log \<Rightarrow> hosted_seat \<Rightarrow> submission_receipt \<Rightarrow> bool \<Rightarrow> (delivery_world, operator_inbox_entry) prog" where
  "record_receipt env lg target receipt at_boundary =
     (let adapter_state = acceptance_adapter_state (sr_acceptance receipt);
          detail = ''adapter-'' @ adapter_state_str adapter_state @
                   (if truthy (sr_detail receipt) then '': '' @ the (sr_detail receipt) else '''')
      in record_outcome env lg (Some target)
           \<lparr>out_delivery_state = (if adapter_state \<in> {AAccepted, AQueued} then DDelivered else DUnconfirmed),
            out_adapter_state = Some adapter_state, out_detail = detail\<rparr>
           \<lparr>co_request_id = Some (sr_request_id receipt), co_vendor_correlation_id = sr_vendor_correlation_id receipt,
            co_accepted_at = sr_accepted_at receipt\<rparr>
           (at_boundary \<and> adapter_state = AAccepted))"

definition reconciled_outcome :: "reconciliation_result option \<Rightarrow> string \<Rightarrow> adapter_delivery_state \<times> string" where
  "reconciled_outcome reconciliation fallback_detail =
     (case reconciliation of
        None \<Rightarrow> (AUnknown, fallback_detail)
      | Some r \<Rightarrow>
          (case rr_state r of
             RecUnresolved \<Rightarrow> (AUnknown, fallback_detail)
           | RecAccepted \<Rightarrow> (AAccepted, the (str_or (rr_detail r) (Some ''adapter reconciliation accepted the request'')))
           | RecRejected \<Rightarrow> (ARejected, the (str_or (rr_detail r) (Some ''adapter reconciliation rejected'')))
           | RecUnsupported \<Rightarrow> (AUnsupported, the (str_or (rr_detail r) (Some ''adapter reconciliation unsupported'')))))"

definition record_reconciliation ::
  "delivery_env \<Rightarrow> inbox_delivery_log \<Rightarrow> hosted_seat \<Rightarrow> reconciliation_result option \<Rightarrow> string \<Rightarrow> bool \<Rightarrow>
   (delivery_world, operator_inbox_entry) prog" where
  "record_reconciliation env lg target reconciliation fallback_detail at_boundary =
     (let (state, detail) = reconciled_outcome reconciliation fallback_detail
      in record_outcome env lg (Some target)
           \<lparr>out_delivery_state = (if state = AAccepted then DDelivered else DUnconfirmed), out_adapter_state = Some state,
            out_detail = detail\<rparr>
           \<lparr>co_request_id = (case reconciliation of
                               Some r \<Rightarrow> Some (rr_request_id r)
                             | None \<Rightarrow> str_or (i_adapterRequestId (lg_entry lg)) (Some (i_id (lg_entry lg)))),
            co_vendor_correlation_id = (case reconciliation of Some r \<Rightarrow> rr_vendor_correlation_id r | None \<Rightarrow> None),
            co_accepted_at = None\<rparr>
           (at_boundary \<and> state = AAccepted))"

definition redelivery :: "delivery_env \<Rightarrow> inbox_delivery_log \<Rightarrow> hosted_seat \<Rightarrow> string \<Rightarrow> bool \<Rightarrow> (delivery_world, operator_inbox_entry) prog" where
  "redelivery env lg target request_id at_boundary =
     (let entry = lg_entry lg in
      case i_adapterDeliveryState entry of
        Some st \<Rightarrow>
          if st \<in> {AAccepted, AQueued, ACompleted}
          then record_outcome env lg (Some target)
                 \<lparr>out_delivery_state = DDelivered, out_adapter_state = Some st,
                  out_detail = ''adapter-'' @ adapter_state_str st @ '': already correlated''\<rparr>
                 NO_ADAPTER_CORRELATION (at_boundary \<and> st = AAccepted)
          else sbind (try_reconcile env target request_id) (\<lambda>r.
                 record_reconciliation env lg target r ''adapter request remains ambiguous; not resubmitted'' at_boundary)
      | None \<Rightarrow>
          sbind (try_reconcile env target request_id) (\<lambda>r.
            record_reconciliation env lg target r ''adapter request remains ambiguous; not resubmitted'' at_boundary))"

definition deliver_to_target ::
  "delivery_env \<Rightarrow> inbox_delivery_log \<Rightarrow> hosted_seat \<Rightarrow> (delivery_world, operator_inbox_entry) prog" where
  "deliver_to_target env lg target =
     (let entry = lg_entry lg; at_boundary = seat_at_turn_boundary target in
      case i_adapterRequestId entry of
        Some request_id \<Rightarrow> redelivery env lg target request_id at_boundary
      | None \<Rightarrow>
          let s = (if i_messageKind entry = DispatchBrief then with_prompt_keywords target (push_text entry) else push_text entry)
          in sbind (submit_prompt env target s (i_id entry)) (\<lambda>answer.
               case answer of
                 Inl exc \<Rightarrow>
                   sbind (try_reconcile env target (i_id entry)) (\<lambda>r.
                     record_reconciliation env lg target r (''ambiguous adapter transport: '' @ exc) at_boundary)
               | Inr receipt \<Rightarrow> record_receipt env lg target receipt at_boundary))"

definition deliver_inbox_entry ::
  "delivery_env \<Rightarrow> hosted_catalog \<Rightarrow> delivery_admission \<Rightarrow> inbox_delivery_log \<Rightarrow> (delivery_world, operator_inbox_entry) prog" where
  "deliver_inbox_entry env catalog admission lg =
     sbind (slift (target_session_for_entry catalog (lg_entry lg))) (\<lambda>found.
       case found of
         None \<Rightarrow>
           record_outcome env lg None
             \<lparr>out_delivery_state = DNoHostedSession, out_adapter_state = None,
              out_detail = ''no running hosted session matched the inbox address''\<rparr> NO_ADAPTER_CORRELATION False
       | Some target \<Rightarrow>
           (case delivery_refusal env catalog (lg_entry lg) target admission of
              Some refusal \<Rightarrow> record_outcome env lg (Some target) refusal NO_ADAPTER_CORRELATION False
            | None \<Rightarrow> deliver_to_target env lg target))"

subsection \<open>What an attempt leaves in the log\<close>

definition floor_fresh :: "redelivery_floor \<Rightarrow> string \<Rightarrow> operator_inbox_entry \<Rightarrow> bool" where
  "floor_fresh fl k e \<longleftrightarrow> (case fl_current fl of None \<Rightarrow> True | Some d \<Rightarrow> dget d k = Some e)"

lemma inbox_view_id: "inbox_view s = Some m \<Longrightarrow> m k = Some e \<Longrightarrow> i_id e = k \<and> inbox_ok e"
  using fold_inbox_key read_strict_ok by (fastforce simp: inbox_view_Some list_all_iff)

lemma require_entry_fresh:
  assumes "inbox_view s = Some m" "m k = Some e" "case current of None \<Rightarrow> True | Some d \<Rightarrow> dget d k = Some e"
    "require_entry p obs_root k current s = (Inr e', s')"
  shows "e' = e \<and> s' = s"
  using assms
  by (auto simp: require_entry_def inbox_current_def inbox_read_def inbox_read_unlocked_def sbind_eq_Inr exclusive_access_Inr
      inbox_view_Some split: option.splits)

lemma evidence_frame [simp]:
  "i_id (delivery_evidence_update a now e) = i_id e" "i_state (delivery_evidence_update a now e) = i_state e"
  "i_adapterRequestId (delivery_evidence_update a now e) = str_or (rc_request_id (at_adapter a)) (i_adapterRequestId e)"
  by (simp_all add: delivery_evidence_update_def Let_def)

lemma inbox_view_put:
  assumes "inbox_view s = Some m" "m k = Some e" "inbox_ok u" "i_id u = k" "i_state u = i_state e \<or> i_state u \<noteq> Pending"
  shows "inbox_view (append_line u s) = Some (m(k \<mapsto> u))"
  using inbox_view_append [OF assms(1,3)] assms(2,4,5) by auto

lemma record_delivery_view:
  assumes "inbox_view s = Some m" "m k = Some e" "floor_fresh fl k e" "record_delivery c p obs_root k a now fl s = (Inr r, s')"
  shows "inbox_view s' = Some (m(k \<mapsto> r))"
    and "i_adapterRequestId r = str_or (rc_request_id (at_adapter a)) (i_adapterRequestId e)"
    and "i_state r = i_state e \<or> i_state e = Pending \<and> i_state r = Landed \<and> at_landed a \<and> rc_delivery_state (at_adapter a) = Some AAccepted"
    and "i_messageKind r = i_messageKind e"
proof -
  let ?land = "at_landed a \<and> rc_delivery_state (at_adapter a) = Some AAccepted \<and> i_state e = Pending"
  from assms(4) obtain e' s1 where req: "require_entry p obs_root k (fl_current fl) s = (Inr e', s1)"
    unfolding record_delivery_def by (auto simp: sbind_eq_Inr)
  from require_entry_fresh [OF assms(1,2) _ req] assms(3) have same: "e' = e" "s1 = s" by (auto simp: floor_fresh_def split: option.splits)
  have id: "i_id e = k" "inbox_ok e" using inbox_view_id [OF assms(1,2)] by auto
  have "inbox_view s' = Some (m(k \<mapsto> r)) \<and> i_adapterRequestId r = str_or (rc_request_id (at_adapter a)) (i_adapterRequestId e) \<and>
      (i_state r = i_state e \<or> ?land \<and> i_state r = Landed) \<and> i_messageKind r = i_messageKind e"
  proof (cases ?land)
    case True
    with assms(4) req same obtain b where tr: "inbox_transition p obs_root k (land_latest a now) s = (Inr (r, b), s')"
      unfolding record_delivery_def by (auto simp: sbind_eq_Inr)
    from inbox_transition_outcome [OF tr] assms(1,2) True have r: "land_latest a now e = Some r" "inbox_ok r" "s' = append_line r s"
      by (auto simp: land_latest_def split: if_splits)
    then have "i_id r = k" "i_state r = Landed" "i_adapterRequestId r = str_or (rc_request_id (at_adapter a)) (i_adapterRequestId e)"
      "i_messageKind r = i_messageKind e"
      using True id by (auto simp: land_latest_def delivery_evidence_update_def Let_def)
    with inbox_view_put [OF assms(1,2) r(2)] True r(3) show ?thesis by simp
  next
    case False
    with assms(4) req same obtain nxt where r: "r = (delivery_evidence_update a now e)\<lparr>i_nextAttemptAt := nxt\<rparr>"
      and app: "inbox_append p obs_root r s = (Inr (), s')"
      unfolding record_delivery_def Let_def by (auto simp: sbind_eq_Inr)
    from inbox_append_Inr [OF app] have "inbox_ok r" "s' = append_line r s" by auto
    with inbox_view_put [OF assms(1,2), of r] id show ?thesis by (auto simp: r delivery_evidence_update_def Let_def)
  qed
  then show "inbox_view s' = Some (m(k \<mapsto> r))" "i_adapterRequestId r = str_or (rc_request_id (at_adapter a)) (i_adapterRequestId e)"
    "i_state r = i_state e \<or> i_state e = Pending \<and> i_state r = Landed \<and> at_landed a \<and> rc_delivery_state (at_adapter a) = Some AAccepted"
    "i_messageKind r = i_messageKind e" by blast+
qed

text \<open>A recorded outcome touches only the log.\<close>

lemma record_outcome_wire: "record_outcome env lg t out co landed w = (x, w') \<Longrightarrow> dw_wire w' = dw_wire w"
  by (auto simp: record_outcome_def zoom_def split: prod.splits)

lemma record_outcome_view:
  assumes "inbox_view (dw_inbox w) = Some m" "m (i_id (lg_entry lg)) = Some (lg_entry lg)"
    "floor_fresh (lg_floor lg) (i_id (lg_entry lg)) (lg_entry lg)" "record_outcome env lg t out co landed w = (Inr r, w')"
  shows "inbox_view (dw_inbox w') = Some (m(i_id (lg_entry lg) \<mapsto> r))"
    and "i_adapterRequestId r = str_or (str_or (i_adapterRequestId (lg_entry lg)) (co_request_id co)) (i_adapterRequestId (lg_entry lg))"
    and "i_state r = i_state (lg_entry lg) \<or> i_state (lg_entry lg) = Pending \<and> i_state r = Landed \<and> landed \<and> out_adapter_state out = Some AAccepted"
proof -
  from assms(4) obtain s' where rd: "record_delivery (de_codec env) (de_process env) (de_observer_root env) (i_id (lg_entry lg))
      (attempt_of lg t out co landed) (lg_at lg) (lg_floor lg) (dw_inbox w) = (Inr r, s')" "dw_inbox w' = s'"
    by (auto simp: record_outcome_def zoom_eq_Inr)
  note * = record_delivery_view [OF assms(1,2,3) rd(1)]
  show "inbox_view (dw_inbox w') = Some (m(i_id (lg_entry lg) \<mapsto> r))" using *(1) rd(2) by simp
  show "i_adapterRequestId r = str_or (str_or (i_adapterRequestId (lg_entry lg)) (co_request_id co)) (i_adapterRequestId (lg_entry lg))"
    using *(2) by (simp add: attempt_of_def)
  show "i_state r = i_state (lg_entry lg) \<or> i_state (lg_entry lg) = Pending \<and> i_state r = Landed \<and> landed \<and> out_adapter_state out = Some AAccepted"
    using *(3) by (simp add: attempt_of_def)
qed

text \<open>The three ways past the refusals.\<close>

lemma deliver_cases:
  assumes "deliver_inbox_entry env catalog admission lg w = (x, w')"
  obtains (failed) e where "x = Inl e" "w' = w" "target_session_for_entry catalog (lg_entry lg) = Inl e"
    | (refused) t out where "record_outcome env lg t out NO_ADAPTER_CORRELATION False w = (x, w')"
    | (pushed) t where "target_session_for_entry catalog (lg_entry lg) = Inr (Some t)"
        "delivery_refusal env catalog (lg_entry lg) t admission = None" "deliver_to_target env lg t w = (x, w')"
  using assms by (cases "target_session_for_entry catalog (lg_entry lg)")
    (auto simp: deliver_inbox_entry_def split: option.splits)

lemma deliver_to_target_cases:
  assumes "deliver_to_target env lg t w = (x, w')"
  obtains (known) st where "i_adapterRequestId (lg_entry lg) \<noteq> None" "i_adapterDeliveryState (lg_entry lg) = Some st"
        "record_outcome env lg (Some t) \<lparr>out_delivery_state = DDelivered, out_adapter_state = Some st,
           out_detail = ''adapter-'' @ adapter_state_str st @ '': already correlated''\<rparr> NO_ADAPTER_CORRELATION
           (seat_at_turn_boundary t \<and> st = AAccepted) w = (x, w')"
    | (reconciled) rid r detail calls where "calls = (if i_adapterRequestId (lg_entry lg) = None
            then [WireSubmit (seat_id t) (i_id (lg_entry lg)) (if i_messageKind (lg_entry lg) = DispatchBrief
              then with_prompt_keywords t (push_text (lg_entry lg)) else push_text (lg_entry lg))] else []) @ [WireReconcile (seat_id t) rid]"
        "rid = (case i_adapterRequestId (lg_entry lg) of None \<Rightarrow> i_id (lg_entry lg) | Some q \<Rightarrow> q)"
        "r = None \<or> (\<exists>h q. r = Some q \<and> de_reconcile env h t rid = Inr q)"
        "record_reconciliation env lg t r detail (seat_at_turn_boundary t) (w\<lparr>dw_wire := dw_wire w @ calls\<rparr>) = (x, w')"
    | (accepted) s rc where "i_adapterRequestId (lg_entry lg) = None" "de_submit env (dw_wire w) t s (i_id (lg_entry lg)) = Inr rc"
        "record_receipt env lg t rc (seat_at_turn_boundary t) (w\<lparr>dw_wire := dw_wire w @ [WireSubmit (seat_id t) (i_id (lg_entry lg)) s]\<rparr>) = (x, w')"
proof (cases "i_adapterRequestId (lg_entry lg)")
  case None
  let ?s = "if i_messageKind (lg_entry lg) = DispatchBrief then with_prompt_keywords t (push_text (lg_entry lg)) else push_text (lg_entry lg)"
  let ?w1 = "w\<lparr>dw_wire := dw_wire w @ [WireSubmit (seat_id t) (i_id (lg_entry lg)) ?s]\<rparr>"
  show thesis
  proof (cases "de_submit env (dw_wire w) t ?s (i_id (lg_entry lg))")
    case (Inr rc)
    with None assms show thesis by (intro accepted) (auto simp: deliver_to_target_def Let_def submit_prompt_def sbind_def)
  next
    case (Inl exc)
    with None assms show thesis
      by (intro reconciled [OF refl refl, of "case de_reconcile env (dw_wire ?w1) t (i_id (lg_entry lg)) of Inl _ \<Rightarrow> None | Inr r \<Rightarrow> Some r"
            "''ambiguous adapter transport: '' @ exc"])
        (auto simp: deliver_to_target_def Let_def submit_prompt_def try_reconcile_def sbind_def split: sum.splits)
  qed
next
  case (Some rid)
  let ?r = "case de_reconcile env (dw_wire w) t rid of Inl _ \<Rightarrow> None | Inr r \<Rightarrow> Some r"
  show thesis
  proof (cases "\<exists>st. i_adapterDeliveryState (lg_entry lg) = Some st \<and> st \<in> {AAccepted, AQueued, ACompleted}")
    case True
    then obtain st where "i_adapterDeliveryState (lg_entry lg) = Some st" "st \<in> {AAccepted, AQueued, ACompleted}" by blast
    with Some assms show thesis by (intro known [of st]) (auto simp: deliver_to_target_def redelivery_def Let_def)
  next
    case False
    with Some assms have "sbind (try_reconcile env t rid) (\<lambda>r. record_reconciliation env lg t r
        ''adapter request remains ambiguous; not resubmitted'' (seat_at_turn_boundary t)) w = (x, w')"
      by (auto simp: deliver_to_target_def redelivery_def Let_def split: option.splits if_splits)
    with Some show thesis
      by (intro reconciled [OF refl refl, of ?r "''adapter request remains ambiguous; not resubmitted''"])
        (auto simp: try_reconcile_def sbind_def split: sum.splits)
  qed
qed

lemma record_receipt_wire: "record_receipt env lg t rc b w = (x, w') \<Longrightarrow> dw_wire w' = dw_wire w"
  by (auto simp: record_receipt_def Let_def dest: record_outcome_wire)

lemma record_reconciliation_wire: "record_reconciliation env lg t r d b w = (x, w') \<Longrightarrow> dw_wire w' = dw_wire w"
  by (auto simp: record_reconciliation_def Let_def dest: record_outcome_wire split: prod.splits)

text \<open>Only an admitted delivery reaches the wire, and it addresses its own target.\<close>

definition call_session :: "wire_call \<Rightarrow> string" where
  "call_session cl = (case cl of WireSubmit s _ _ \<Rightarrow> s | WireReconcile s _ \<Rightarrow> s)"

lemma deliver_wire:
  assumes "deliver_inbox_entry env catalog admission lg w = (x, w')"
  obtains (quiet) "dw_wire w' = dw_wire w"
    | (pushed) t calls where "target_session_for_entry catalog (lg_entry lg) = Inr (Some t)"
        "delivery_refusal env catalog (lg_entry lg) t admission = None" "dw_wire w' = dw_wire w @ calls"
        "\<forall>cl\<in>set calls. call_session cl = seat_id t"
  using assms
proof (cases rule: deliver_cases)
  case (pushed t)
  from pushed(3) show thesis
  proof (cases rule: deliver_to_target_cases)
    case (reconciled rid r detail calls)
    with record_reconciliation_wire [OF reconciled(4)] pushed that(2) [of t calls] show thesis by (auto simp: call_session_def)
  next
    case (accepted s rc)
    with record_receipt_wire [OF accepted(3)] pushed that(2) [of t "[WireSubmit (seat_id t) (i_id (lg_entry lg)) s]"] show thesis
      by (auto simp: call_session_def)
  qed (use that(1) record_outcome_wire in blast)
qed (use that(1) record_outcome_wire in auto)

end
