(* ===== verification/Delivery_Properties.thy ===== *)
theory Delivery_Properties
  imports Inbox_Delivery
begin

section \<open>Properties of delivery\<close>

text \<open>
  A row is submitted to its session at most once, however often it is redelivered; nothing reaches the wire unless it was
  admitted; a row lands only on an acceptance at a turn boundary; and mail goes to the seat the signal routing names.
\<close>

subsection \<open>At most one submission\<close>




lemma str_or_None: "str_or a b = None \<longleftrightarrow> \<not> truthy a \<and> b = None"
  by (cases a) (auto simp: str_or_def)

lemma truthy_Some: "x \<noteq> '''' \<Longrightarrow> truthy (Some x)"
  by simp

definition stored_fresh :: "delivery_world \<Rightarrow> inbox_delivery_log \<Rightarrow> (string \<rightharpoonup> operator_inbox_entry) \<Rightarrow> bool" where
  "stored_fresh w lg m \<longleftrightarrow> inbox_view (dw_inbox w) = Some m \<and> m (i_id (lg_entry lg)) = Some (lg_entry lg) \<and>
     floor_fresh (lg_floor lg) (i_id (lg_entry lg)) (lg_entry lg)"













text \<open>The log still reads, and row \<open>k\<close> is in it with its correlation.\<close>

definition correlation_kept :: "string \<Rightarrow> inbox \<Rightarrow> inbox \<Rightarrow> bool" where
  "correlation_kept k s s' \<longleftrightarrow> (\<forall>m e. inbox_view s = Some m \<and> m k = Some e \<longrightarrow>
     (\<exists>m' e'. inbox_view s' = Some m' \<and> m' k = Some e' \<and> i_adapterRequestId e' = i_adapterRequestId e))"

lemma correlation_kept_refl [simp]: "correlation_kept k s s"
  by (auto simp: correlation_kept_def)















subsection \<open>A concrete delivery\<close>

text \<open>
  One seat at a turn boundary and one row addressed to its agent. The client loses the first submission and answers the
  reconciliation.
\<close>

definition ex_hosted_seat :: hosted_seat where
  "ex_hosted_seat = \<lparr>seat_id = ''a'', seat_kind = ''harness'', seat_status = ''running'', seat_lifecycle_id = None, seat_created_at = ''0'',
     seat_last_attached_at = ''0'', seat_landed_at = None, seat_task_document_ref = None, seat_replacement_for = None,
     seat_spawned_by_session = None, seat_spawned_by_lifecycle = None, seat_spawn_role = None, seat_turn_state = Some ''turn-ended'',
     seat_turn_state_changed_at = None, seat_binding_role = ''worker'', seat_binding_task_document_ref = None,
     hs_tmux_name = ''t'', hs_control_state = None, hs_control_endpoint = Some [''sock''], hs_prompt_keywords = None\<rparr>"

definition ex_seats :: hosted_catalog where
  "ex_seats = \<lparr>hc_get = (\<lambda>k. if k = ''a'' then Some ex_hosted_seat else None), hc_list = [ex_hosted_seat]\<rparr>"

definition ex_mail :: operator_inbox_entry where
  "ex_mail = projr (create_operator_inbox_entry
     \<lparr>msg_ask = ''ask'', msg_response = ''answer'', msg_kind = StateSignal, msg_gate_id = None, msg_artifact_path = None,
      msg_subject = \<lparr>subj_task_document_ref = None, subj_seat_role = None, subj_agent_id = None\<rparr>\<rparr> ''e'' ''0''
     \<lparr>routing_address = \<lparr>addr_task_document_ref = None, addr_lifecycle_id = None, addr_agent_id = Some ''a'', addr_recipient_role = None\<rparr>,
      routing_owner = \<lparr>owner_role = None, owner_task_document_ref = None, owner_agent_id = Some ''a'', owner_lifecycle_id = None\<rparr>\<rparr>
     \<lparr>post_created_by = ''dev'', post_created_via = InboxCli, post_sender_agent_id = None, post_sender_role = None\<rparr>)"

text \<open>Stamps in quarters of an hour, the shortest redelivery floor.\<close>

definition quarter_codec :: iso_codec where
  "quarter_codec =
     \<lparr>isoformat = (\<lambda>t. show_digits (nat (utc_us t div 900000000))),
      fromisoformat = (\<lambda>s. if isdigit s then Some (utc (int_of_digits s * 900000000)) else None)\<rparr>"

definition ex_delivery_env :: "bool \<Rightarrow> delivery_env" where
  "ex_delivery_env lossy = \<lparr>de_codec = quarter_codec, de_process = mcp_process, de_observer_root = [],
     de_submit = (\<lambda>h t s q. if lossy then Inl ''lost'' else Inr \<lparr>sr_request_id = q, sr_acceptance = AccImmediate,
        sr_vendor_correlation_id = None, sr_accepted_at = None, sr_detail = None\<rparr>),
     de_reconcile = (\<lambda>h t q. Inr \<lparr>rr_request_id = q, rr_state = RecUnresolved, rr_vendor_correlation_id = None, rr_detail = None\<rparr>),
     de_has_session = (\<lambda>_. True),
     de_readiness = (\<lambda>c h k. \<lparr>rd_status = ''ready'', rd_entry = hc_get c k, rd_detail = None\<rparr>)\<rparr>"

definition ex_delivery_world :: delivery_world where
  "ex_delivery_world = \<lparr>dw_inbox = Some [Rec ex_mail], dw_wire = []\<rparr>"

definition ex_delivery_log :: "operator_inbox_entry \<Rightarrow> inbox_delivery_log" where
  "ex_delivery_log e = \<lparr>lg_entry = e, lg_at = ''1'', lg_floor = \<lparr>fl_current = None, fl_seconds = None\<rparr>\<rparr>"

definition ex_delivered :: "bool \<Rightarrow> operator_inbox_entry \<Rightarrow> delivery_world \<Rightarrow> (operator_inbox_entry \<times> delivery_world) option" where
  "ex_delivered lossy e w = (case deliver_inbox_entry (ex_delivery_env lossy) ex_seats DEFAULT_DELIVERY_ADMISSION (ex_delivery_log e) w of
     (Inl _, _) \<Rightarrow> None | (Inr r, w') \<Rightarrow> Some (r, w'))"

lemma ex_delivered_Some: "ex_delivered lossy e w = Some (r, w') \<longleftrightarrow>
    deliver_inbox_entry (ex_delivery_env lossy) ex_seats DEFAULT_DELIVERY_ADMISSION (ex_delivery_log e) w = (Inr r, w')"
  by (auto simp: ex_delivered_def split: prod.splits sum.splits)


lemma ex_mail_id: "i_id ex_mail = ''e''" "i_state ex_mail = Pending" "inbox_ok ex_mail"
  by code_simp+

lemma ex_stored_fresh: "stored_fresh ex_delivery_world (ex_delivery_log ex_mail) [''e'' \<mapsto> ex_mail]"
  by (simp add: stored_fresh_def ex_delivery_world_def ex_delivery_log_def inbox_view_def read_strict_def ex_mail_id fold_operator_inbox_entries_def
      fold_inbox_step_def floor_fresh_def)


text \<open>The row after a submission the adapter queued.\<close>

definition ex_queued_mail :: operator_inbox_entry where
  "ex_queued_mail = ex_mail\<lparr>i_adapterRequestId := Some ''e'', i_adapterDeliveryState := Some AQueued\<rparr>"

definition ex_queued_world :: delivery_world where
  "ex_queued_world = \<lparr>dw_inbox = Some [Rec ex_queued_mail], dw_wire = []\<rparr>"

lemma ex_queued_mail_facts: "i_id ex_queued_mail = ''e''" "i_state ex_queued_mail = Pending" "inbox_ok ex_queued_mail"
  by code_simp+

subsection \<open>One submission\<close>




subsection \<open>Admission\<close>

text \<open>
  Nothing reaches the wire unless it was admitted. Whenever a delivery makes a call on the control client, the row has a
  target whose tmux session runs, which is a harness with a control endpoint, the caller committed to a submission, a dispatch brief
  passed its readiness gate, and a state signal (or any row behind the availability gate) finds its seat at a turn boundary; and every
  call addresses that target.
\<close>

theorem wire_only_when_admitted:
  assumes "deliver_inbox_entry env catalog admission lg w = (x, w')" "dw_wire w' \<noteq> dw_wire w"
  shows "\<exists>t calls. target_session_for_entry catalog (lg_entry lg) = Inr (Some t) \<and> dw_wire w' = dw_wire w @ calls \<and>
    (\<forall>cl\<in>set calls. call_session cl = seat_id t) \<and> de_has_session env (hs_tmux_name t) \<and> seat_kind t = ''harness'' \<and>
    hs_control_endpoint t \<noteq> None \<and> ad_submit admission \<and>
    (i_messageKind (lg_entry lg) = DispatchBrief \<longrightarrow> dispatch_gate_check
       (case ad_dispatch_gate admission of None \<Rightarrow> de_readiness env | Some g \<Rightarrow> g) catalog (de_has_session env) t = None) \<and>
    (i_messageKind (lg_entry lg) = StateSignal \<or> ad_boundary admission \<longrightarrow> seat_at_turn_boundary t)"
  using assms(1)
proof (cases rule: deliver_wire)
  case (pushed t calls)
  have "de_has_session env (hs_tmux_name t) \<and> seat_kind t = ''harness'' \<and> hs_control_endpoint t \<noteq> None \<and> ad_submit admission \<and>
    (i_messageKind (lg_entry lg) = DispatchBrief \<longrightarrow> dispatch_gate_check
       (case ad_dispatch_gate admission of None \<Rightarrow> de_readiness env | Some g \<Rightarrow> g) catalog (de_has_session env) t = None) \<and>
    (i_messageKind (lg_entry lg) = StateSignal \<or> ad_boundary admission \<longrightarrow> seat_at_turn_boundary t)"
    using pushed(2) by (auto simp: delivery_refusal_def Let_def split: if_splits option.splits)
  with pushed(1,3,4) show ?thesis by blast
qed (use assms(2) in simp)

theorem wire_only_when_admitted_witness:
  "\<exists>r w'. ex_delivered False ex_mail ex_delivery_world = Some (r, w') \<and> length (dw_wire w') = 1 \<and>
     (\<exists>t. target_session_for_entry ex_seats ex_mail = Inr (Some t) \<and> seat_at_turn_boundary t \<and> hs_control_endpoint t \<noteq> None)"
proof -
  have "(case ex_delivered False ex_mail ex_delivery_world of None \<Rightarrow> None | Some (r, w') \<Rightarrow> Some (length (dw_wire w'))) = Some 1" by code_simp
  then obtain r w' where run: "ex_delivered False ex_mail ex_delivery_world = Some (r, w')" and n: "length (dw_wire w') = 1"
    by (auto split: option.splits prod.splits)
  have "dw_wire w' \<noteq> dw_wire ex_delivery_world" using n by (auto simp: ex_delivery_world_def)
  from wire_only_when_admitted [OF run [unfolded ex_delivered_Some] this] obtain t where
    "target_session_for_entry ex_seats ex_mail = Inr (Some t)" "hs_control_endpoint t \<noteq> None"
    "i_messageKind ex_mail = StateSignal \<longrightarrow> seat_at_turn_boundary t" by (auto simp: ex_delivery_log_def)
  moreover have "i_messageKind ex_mail = StateSignal" by code_simp
  ultimately show ?thesis using run n by blast
qed


text \<open>What counts as the adapter having accepted the row when it is delivered to \<open>t\<close>.\<close>

definition adapter_accepted :: "delivery_env \<Rightarrow> operator_inbox_entry \<Rightarrow> hosted_seat \<Rightarrow> wire_call list \<Rightarrow> bool" where
  "adapter_accepted env e t wire \<longleftrightarrow>
     i_adapterRequestId e = None \<and> (\<exists>s receipt. de_submit env wire t s (i_id e) = Inr receipt \<and> sr_acceptance receipt = AccImmediate) \<or>
     (\<exists>h result. de_reconcile env h t (case i_adapterRequestId e of None \<Rightarrow> i_id e | Some q \<Rightarrow> q) = Inr result \<and> rr_state result = RecAccepted) \<or>
     i_adapterRequestId e \<noteq> None \<and> i_adapterDeliveryState e = Some AAccepted"

text \<open>
  Claim C23: A row lands only on an acceptance at a turn boundary. When the delivery of a pending row, read from the log, leaves it in
  another state, that state is landed, the row's target is at a turn boundary, and the adapter accepted the row: this delivery submitted
  it and the answer was an immediate acceptance, or reconciled its request and the answer was accepted, or the row was submitted before
  and its adapter state was accepted.
\<close>

theorem landed_only_at_boundary:
  assumes "deliver_inbox_entry env catalog admission lg w = (Inr r, w')" "stored_fresh w lg m" "i_state (lg_entry lg) = Pending"
    "i_state r \<noteq> Pending"
  shows "i_state r = Landed \<and> (\<exists>t. target_session_for_entry catalog (lg_entry lg) = Inr (Some t) \<and> seat_at_turn_boundary t \<and>
    adapter_accepted env (lg_entry lg) t (dw_wire w))"
proof -
  have landed: "i_state r = Landed \<and> landed \<and> out_adapter_state out = Some AAccepted"
    if "record_outcome env lg t out co landed (w\<lparr>dw_wire := calls\<rparr>) = (Inr r, w')" for t out co landed calls
  proof -
    have view: "inbox_view (dw_inbox (w\<lparr>dw_wire := calls\<rparr>)) = Some m" "m (i_id (lg_entry lg)) = Some (lg_entry lg)"
      "floor_fresh (lg_floor lg) (i_id (lg_entry lg)) (lg_entry lg)" using assms(2) by (auto simp: stored_fresh_def)
    show ?thesis using record_outcome_view(3) [OF view that] assms(3,4) by auto
  qed
  have self: "w\<lparr>dw_wire := dw_wire w\<rparr> = w" by simp
  from assms(1) show ?thesis
  proof (cases rule: deliver_cases)
    case (refused t out)
    with landed [of t out NO_ADAPTER_CORRELATION False "dw_wire w"] show ?thesis unfolding self by blast
  next
    case (pushed t)
    from pushed(3) have "i_state r = Landed \<and> seat_at_turn_boundary t \<and> adapter_accepted env (lg_entry lg) t (dw_wire w)"
    proof (cases rule: deliver_to_target_cases)
      case (known st)
      then show ?thesis using landed [of "Some t" _ _ _ "dw_wire w"] unfolding self adapter_accepted_def by blast
    next
      case (reconciled rid q detail calls)
      then have "i_state r = Landed \<and> seat_at_turn_boundary t \<and> fst (reconciled_outcome q detail) = AAccepted"
        using landed [of "Some t" _ _ _ "dw_wire w @ calls"] by (auto simp: record_reconciliation_def Let_def split: prod.splits)
      with reconciled(2,3) show ?thesis
        by (auto simp: reconciled_outcome_def adapter_accepted_def split: option.splits reconciliation_state.splits)
    next
      case (accepted s rc)
      then have "i_state r = Landed \<and> seat_at_turn_boundary t \<and> acceptance_adapter_state (sr_acceptance rc) = AAccepted"
        using landed [of "Some t" _ _ _ "dw_wire w @ [WireSubmit (seat_id t) (i_id (lg_entry lg)) s]"]
        by (auto simp: record_receipt_def Let_def)
      moreover from this have "sr_acceptance rc = AccImmediate" by (cases "sr_acceptance rc") auto
      ultimately show ?thesis using accepted(1,2) by (auto simp: adapter_accepted_def)
    qed
    with pushed(1) show ?thesis by blast
  qed simp
qed

theorem landed_only_at_boundary_witness:
  "\<exists>r w'. ex_delivered False ex_mail ex_delivery_world = Some (r, w') \<and> i_state r = Landed \<and>
     (\<exists>t. target_session_for_entry ex_seats ex_mail = Inr (Some t) \<and> seat_at_turn_boundary t)"
proof -
  have "(case ex_delivered False ex_mail ex_delivery_world of None \<Rightarrow> None | Some (r, w') \<Rightarrow> Some (i_state r = Pending)) = Some False" by code_simp
  then obtain r w' where run: "ex_delivered False ex_mail ex_delivery_world = Some (r, w')" and st: "i_state r \<noteq> Pending"
    by (auto split: option.splits prod.splits)
  have "i_state (lg_entry (ex_delivery_log ex_mail)) = Pending" by (simp add: ex_delivery_log_def ex_mail_id)
  from landed_only_at_boundary [OF run [unfolded ex_delivered_Some] ex_stored_fresh this st] run show ?thesis
    by (auto simp: ex_delivery_log_def)
qed


text \<open>
  Claim C24: A row the adapter queued does not land. When a pending row was submitted and its adapter state is queued or completed, a
  delivery of it, read from the log, leaves it pending and makes no call on the control client, neither a submission nor a
  reconciliation, whether or not its target is at a turn boundary.
\<close>

theorem queued_row_never_lands:
  assumes "deliver_inbox_entry env catalog admission lg w = (Inr r, w')" "stored_fresh w lg m" "i_state (lg_entry lg) = Pending"
    "i_adapterRequestId (lg_entry lg) \<noteq> None" "i_adapterDeliveryState (lg_entry lg) \<in> {Some AQueued, Some ACompleted}"
  shows "i_state r = Pending \<and> dw_wire w' = dw_wire w"
proof -
  have view: "inbox_view (dw_inbox w) = Some m" "m (i_id (lg_entry lg)) = Some (lg_entry lg)"
    "floor_fresh (lg_floor lg) (i_id (lg_entry lg)) (lg_entry lg)" using assms(2) by (auto simp: stored_fresh_def)
  have recorded: "i_state r = Pending \<and> dw_wire w' = dw_wire w"
    if "record_outcome env lg t out co landed w = (Inr r, w')" "\<not> landed" for t out co landed
    using record_outcome_view(3) [OF view that(1)] record_outcome_wire [OF that(1)] that(2) assms(3) by auto
  from assms(1) show ?thesis
  proof (cases rule: deliver_cases)
    case (pushed t)
    from pushed(3) assms(4,5) obtain out where "record_outcome env lg (Some t) out NO_ADAPTER_CORRELATION False w = (Inr r, w')"
      by (auto simp: deliver_to_target_def redelivery_def Let_def simp del: append.simps)
    with recorded show ?thesis by blast
  qed (use recorded in auto)
qed

theorem queued_row_never_lands_witness:
  "\<exists>r w'. ex_delivered False ex_queued_mail ex_queued_world = Some (r, w') \<and> i_state r = Pending \<and>
     seat_at_turn_boundary ex_hosted_seat \<and> dw_wire w' = []"
proof -
  have "(case ex_delivered False ex_queued_mail ex_queued_world of None \<Rightarrow> None | Some (r, w') \<Rightarrow> Some (i_attemptCount r)) = Some 1" by code_simp
  then obtain r w' where run: "ex_delivered False ex_queued_mail ex_queued_world = Some (r, w')" by (auto split: option.splits prod.splits)
  have "stored_fresh ex_queued_world (ex_delivery_log ex_queued_mail) [''e'' \<mapsto> ex_queued_mail]"
    by (simp add: stored_fresh_def ex_queued_world_def ex_delivery_log_def inbox_view_def read_strict_def ex_queued_mail_facts
        fold_operator_inbox_entries_def fold_inbox_step_def floor_fresh_def)
  from queued_row_never_lands [OF run [unfolded ex_delivered_Some] this] have "i_state r = Pending" "dw_wire w' = []"
    by (simp_all add: ex_delivery_log_def ex_queued_mail_facts, simp_all add: ex_queued_mail_def ex_queued_world_def)
  moreover have "seat_at_turn_boundary ex_hosted_seat" by code_simp
  ultimately show ?thesis using run by blast
qed

subsection \<open>Routing and delivery agree\<close>

definition directory_of :: "hosted_catalog \<Rightarrow> seat_directory" where
  "directory_of catalog = \<lparr>sd_get = (\<lambda>k. map_option seat_row.truncate (hc_get catalog k)), sd_list = map seat_row.truncate (hc_list catalog)\<rparr>"

lemma truncate_fields [simp]:
  "seat_id (seat_row.truncate t) = seat_id t" "seat_status (seat_row.truncate t) = seat_status t"
  "seat_binding_role (seat_row.truncate t) = seat_binding_role t" "seat_task_document_ref (seat_row.truncate t) = seat_task_document_ref t"
  "seat_replacement_for (seat_row.truncate t) = seat_replacement_for t"
  by (simp_all add: seat_row.truncate_def)

text \<open>
  Mail goes to the seat the signal routing names. For a row addressed by task document and role, other than a dispatch brief,
  the session a delivery goes to is the occupant \<^verbatim>\<open>current_occupant\<close> derives from the same catalog: the same agent, none when there is
  none, and a refusal exactly when the routing refuses because two sessions claim the seat.
\<close>

theorem delivery_follows_routing:
  assumes "i_messageKind e \<noteq> DispatchBrief" "i_taskDocumentRef e = Some document" "i_recipientRole e = Some role"
  shows "case current_occupant (directory_of catalog) document role of
      Inl _ \<Rightarrow> \<exists>x. target_session_for_entry catalog e = Inl x
    | Inr owner \<Rightarrow> \<exists>t. target_session_for_entry catalog e = Inr t \<and> map_option seat_id t = ro_agent_id owner"
proof -
  let ?prim = "filter (\<lambda>t. seat_status t = ''running'' \<and> seat_binding_role t = agent_role_str role \<and>
      seat_task_document_ref t = Some document) (hc_list catalog)"
  let ?repl = "filter (\<lambda>t. seat_status t = ''running'' \<and> seat_binding_role t = agent_role_str role \<and>
      seat_replacement_for t = Some document) (hc_list catalog)"
  have prim: "primary_claims (directory_of catalog) document role = map seat_row.truncate ?prim"
    by (simp add: primary_claims_def directory_of_def filter_map o_def)
  have repl: "replacement_claims (directory_of catalog) document role = map seat_row.truncate ?repl"
    by (simp add: replacement_claims_def directory_of_def filter_map o_def)
  show ?thesis
  proof (cases ?prim)
    case Nil
    then show ?thesis using assms prim repl
      by (cases ?repl) (auto simp: target_session_for_entry_def structural_target_def current_occupant_def seat_candidates_def Let_def)
  next
    case (Cons t ts)
    then show ?thesis using assms prim
      by (auto simp: target_session_for_entry_def structural_target_def current_occupant_def seat_candidates_def Let_def)
  qed
qed

definition ex_document :: task_document_ref where
  "ex_document = projr (make_task_document_ref ''r'' ''t.md'')"

theorem delivery_follows_routing_witness:
  "\<exists>t. target_session_for_entry \<lparr>hc_get = (\<lambda>_. None), hc_list = [ex_hosted_seat\<lparr>seat_task_document_ref := Some ex_document\<rparr>]\<rparr>
      (ex_mail\<lparr>i_taskDocumentRef := Some ex_document, i_recipientRole := Some Worker\<rparr>) = Inr t \<and> map_option seat_id t = Some ''a''"
proof -
  let ?c = "\<lparr>hc_get = (\<lambda>_. None), hc_list = [ex_hosted_seat\<lparr>seat_task_document_ref := Some ex_document\<rparr>]\<rparr>"
  let ?e = "ex_mail\<lparr>i_taskDocumentRef := Some ex_document, i_recipientRole := Some Worker\<rparr>"
  have "i_messageKind ?e \<noteq> DispatchBrief" by code_simp
  moreover have "(case current_occupant (directory_of ?c) ex_document Worker of Inl _ \<Rightarrow> None | Inr owner \<Rightarrow> ro_agent_id owner) = Some ''a''"
    by (simp add: current_occupant_def seat_candidates_def primary_claims_def directory_of_def ex_hosted_seat_def seat_row.truncate_def Let_def)
  ultimately show ?thesis
    using delivery_follows_routing [of ?e ex_document Worker ?c] by (auto split: sum.splits)
qed

end
