(* ===== verification/Catalog_Entry.thy ===== *)
theory Catalog_Entry
  imports Inbox_Delivery Task_Ref Py_Time
begin

section \<open>The row of the terminal catalog\<close>

text \<open>
  \<^verbatim>\<open>models/terminal_catalog.py\<close>: the durable row of a hosted session and its JSON form in both directions, with the
  declared row of \<^verbatim>\<open>serving/response_contract.py\<close> it is validated against. The copies a transition makes of a row are in
  \<^verbatim>\<open>Catalog_Transitions\<close>.

  A path is the root and the parts \<^verbatim>\<open>PurePosixPath\<close> keeps of its text.
\<close>

datatype session_kind = KTerminal | KHarness
datatype session_status = SessRunning | SessExited | SessLanded | SessTerminated
datatype liveness_evidence = TmuxCommandFailed | PaneGone
datatype seat_turn_state = TurnWorking | TurnEnded | TurnAwaitingInput | TurnStale
datatype terminal_outcome = OutCompleted | OutInterrupted | OutFailed | OutUnknown
datatype interrupt_origin = OriginDeveloper | OriginUnknown
datatype interrupt_requester = RequestedByDeveloper

fun session_kind_str :: "session_kind \<Rightarrow> string" where
  "session_kind_str KTerminal = ''terminal''"
| "session_kind_str KHarness = ''harness''"

fun session_status_str :: "session_status \<Rightarrow> string" where
  "session_status_str SessRunning = ''running''"
| "session_status_str SessExited = ''exited''"
| "session_status_str SessLanded = ''landed''"
| "session_status_str SessTerminated = ''terminated''"

fun liveness_evidence_str :: "liveness_evidence \<Rightarrow> string" where
  "liveness_evidence_str TmuxCommandFailed = ''tmux-command-failed''"
| "liveness_evidence_str PaneGone = ''pane-gone''"

fun seat_turn_state_str :: "seat_turn_state \<Rightarrow> string" where
  "seat_turn_state_str TurnWorking = ''working''"
| "seat_turn_state_str TurnEnded = ''turn-ended''"
| "seat_turn_state_str TurnAwaitingInput = ''awaiting-input''"
| "seat_turn_state_str TurnStale = ''stale''"

fun terminal_outcome_str :: "terminal_outcome \<Rightarrow> string" where
  "terminal_outcome_str OutCompleted = ''completed''"
| "terminal_outcome_str OutInterrupted = ''interrupted''"
| "terminal_outcome_str OutFailed = ''failed''"
| "terminal_outcome_str OutUnknown = ''unknown''"

fun interrupt_origin_str :: "interrupt_origin \<Rightarrow> string" where
  "interrupt_origin_str OriginDeveloper = ''developer''"
| "interrupt_origin_str OriginUnknown = ''unknown''"

fun interrupt_requester_str :: "interrupt_requester \<Rightarrow> string" where
  "interrupt_requester_str RequestedByDeveloper = ''developer''"

fun acceptance_state_str :: "acceptance_state \<Rightarrow> string" where
  "acceptance_state_str AccImmediate = ''immediate''"
| "acceptance_state_str AccQueued = ''queued''"
| "acceptance_state_str AccRejected = ''rejected''"
| "acceptance_state_str AccUnknown = ''unknown''"
| "acceptance_state_str AccUnsupported = ''unsupported''"

subsection \<open>Paths\<close>

record pure_path =
  pp_root :: string
  pp_parts :: "string list"

text \<open>\<^verbatim>\<open>Path(s)\<close>: exactly two leading slashes are kept, any other number of them is one.\<close>

definition path_of_text :: "string \<Rightarrow> pure_path" where
  "path_of_text s =
     (let n = length (takeWhile (\<lambda>c. c = CHR ''/'') s)
      in \<lparr>pp_root = (if n = 0 then '''' else if n = 2 then ''//'' else ''/''), pp_parts = posix_parts s\<rparr>)"

definition path_text :: "pure_path \<Rightarrow> string" where
  "path_text p = (if pp_root p = '''' \<and> pp_parts p = [] then ''.'' else pp_root p @ join_slash (pp_parts p))"

subsection \<open>The record\<close>

record catalog_entry =
  te_id :: string
  te_label :: string
  te_kind :: session_kind
  te_harness :: "string option"
  te_lifecycle_id :: "string option"
  te_cwd :: pure_path
  te_tmux_name :: string
  te_command :: "string list"
  te_created_at :: string
  te_last_attached_at :: string
  te_status :: session_status
  te_terminated_at :: "string option"
  te_task_document_ref :: "task_document_ref option"
  te_seat_role :: "string option"
  te_replacement_for_task_document_ref :: "task_document_ref option"
  te_spawned_by_session :: "string option"
  te_spawned_by_lifecycle :: "string option"
  te_spawn_role :: "string option"
  te_launch_args :: "string list option"
  te_prompt_keywords :: "string list option"
  te_session_commands :: "string list option"
  te_spawn_level :: "string option"
  te_spawn_level_source :: "string option"
  te_resolved_model :: "string option"
  te_resolved_effort :: "string option"
  te_session_log_entry_id :: "string option"
  te_session_log_path :: "pure_path option"
  te_control_state :: "bridge_state option"
  te_control_endpoint :: "pure_path option"
  te_control_protocol :: "string option"
  te_control_activity :: "activity_state option"
  te_control_acceptance :: "acceptance_state option"
  te_control_vendor_session_id :: "string option"
  te_control_pending_interaction :: "json_object option"
  te_control_pending_interactions :: "json_object list option"
  te_control_last_event_sequence :: "int option"
  te_control_raw :: "json_object option"
  te_liveness_failures :: int
  te_liveness_first_failed_at :: "string option"
  te_liveness_last_failed_at :: "string option"
  te_liveness_evidence :: "liveness_evidence option"
  te_exit_evidence :: "liveness_evidence option"
  te_retired_at :: "string option"
  te_retired_by_session :: "string option"
  te_retired_reason :: "string option"
  te_retired_edge :: "string option"
  te_landed_at :: "string option"
  te_landed_reason :: "string option"
  te_landed_edge :: "string option"
  te_spawned_label :: "string option"
  te_turn_state :: "seat_turn_state option"
  te_turn_state_changed_at :: "string option"
  te_terminal_outcome :: "terminal_outcome option"
  te_terminal_outcome_at :: "string option"
  te_terminal_evidence_id :: "string option"
  te_interrupted_by :: "interrupt_origin option"
  te_terminal_evidence_sequence :: "int option"
  te_terminal_native_cursor :: "string option"
  te_interrupt_requested_by :: "interrupt_requester option"
  te_interrupt_requested_at :: "string option"
  te_interrupt_requested_turn_id :: "string option"
  te_state_signal_emitted_for :: "string option"
  te_non_reaction_emitted_for :: "string option"
  te_compound_idle_emitted_for :: "string option"
subsection \<open>Reading fields\<close>

definition ALL_LIVENESS_EVIDENCE :: "liveness_evidence list" where
  "ALL_LIVENESS_EVIDENCE = [TmuxCommandFailed, PaneGone]"

definition ALL_TURN_STATES :: "seat_turn_state list" where
  "ALL_TURN_STATES = [TurnWorking, TurnEnded, TurnAwaitingInput, TurnStale]"

definition ALL_TERMINAL_OUTCOMES :: "terminal_outcome list" where
  "ALL_TERMINAL_OUTCOMES = [OutCompleted, OutInterrupted, OutFailed, OutUnknown]"

definition ALL_INTERRUPT_ORIGINS :: "interrupt_origin list" where
  "ALL_INTERRUPT_ORIGINS = [OriginDeveloper, OriginUnknown]"

definition ALL_INTERRUPT_REQUESTERS :: "interrupt_requester list" where
  "ALL_INTERRUPT_REQUESTERS = [RequestedByDeveloper]"

definition ALL_CONTROL_STATES :: "bridge_state list" where
  "ALL_CONTROL_STATES = [CtlStarting, CtlReady, CtlDisconnected, CtlFailed, CtlUnsupported]"

definition ALL_ACTIVITY_STATES :: "activity_state list" where
  "ALL_ACTIVITY_STATES = [ActIdle, ActRunning, ActBlocked, ActSettling, ActUnknown]"

definition ALL_ACCEPTANCE_STATES :: "acceptance_state list" where
  "ALL_ACCEPTANCE_STATES = [AccImmediate, AccQueued, AccRejected, AccUnknown, AccUnsupported]"

text \<open>Membership in a tuple compares; membership in a set hashes, which a list or a dictionary refuses.\<close>

definition literal_of :: "'a list \<Rightarrow> ('a \<Rightarrow> string) \<Rightarrow> json option \<Rightarrow> 'a option" where
  "literal_of all str raw = (case raw of Some (JStr s) \<Rightarrow> find (\<lambda>x. str x = s) all | _ \<Rightarrow> None)"

definition hashed_literal :: "'a list \<Rightarrow> ('a \<Rightarrow> string) \<Rightarrow> json option \<Rightarrow> 'a option res" where
  "hashed_literal all str raw =
     (case raw of Some (JList _) \<Rightarrow> Inl TypeError | Some (JObj _) \<Rightarrow> Inl TypeError | _ \<Rightarrow> Inr (literal_of all str raw))"

definition parse_status :: "json option \<Rightarrow> session_status" where
  "parse_status raw =
     (if raw = Some (JStr ''exited'') then SessExited
      else if raw = Some (JStr ''landed'') then SessLanded
      else if raw = Some (JStr ''terminated'') then SessTerminated
      else SessRunning)"

definition required_str :: "json_object \<Rightarrow> string \<Rightarrow> string res" where
  "required_str data k = (case dget data k of None \<Rightarrow> Inl (KeyError k) | Some v \<Rightarrow> Inr (py_str v))"

definition optional_str :: "json_object \<Rightarrow> string \<Rightarrow> string option" where
  "optional_str data k = (case dget data k of None \<Rightarrow> None | Some JNull \<Rightarrow> None | Some v \<Rightarrow> Some (py_str v))"

definition optional_path :: "json_object \<Rightarrow> string \<Rightarrow> pure_path option" where
  "optional_path data k = map_option path_of_text (optional_str data k)"

definition string_tuple :: "json option \<Rightarrow> string list option" where
  "string_tuple raw = (case raw of Some (JList xs) \<Rightarrow> Some (map py_str xs) | _ \<Rightarrow> None)"

definition optional_object :: "json option \<Rightarrow> json_object option" where
  "optional_object raw = (case raw of Some (JObj kvs) \<Rightarrow> Some kvs | _ \<Rightarrow> None)"

fun all_objects :: "json list \<Rightarrow> json_object list option" where
  "all_objects [] = Some []"
| "all_objects (x # xs) =
     (case optional_object (Some x) of
        None \<Rightarrow> None
      | Some kvs \<Rightarrow> map_option (Cons kvs) (all_objects xs))"

definition optional_object_list :: "json option \<Rightarrow> json_object list option" where
  "optional_object_list raw = (case raw of Some (JList xs) \<Rightarrow> all_objects xs | _ \<Rightarrow> None)"

definition optional_non_negative_int :: "json option \<Rightarrow> int option" where
  "optional_non_negative_int raw = (case raw of Some (JNum n) \<Rightarrow> if 0 \<le> n then Some n else None | _ \<Rightarrow> None)"

definition non_negative_int :: "json option \<Rightarrow> int" where
  "non_negative_int raw =
     (case raw of
        Some (JNum n) \<Rightarrow> if 0 < n then n else 0
      | Some (JBool b) \<Rightarrow> if b then 1 else 0
      | _ \<Rightarrow> 0)"

text \<open>\<^verbatim>\<open>TaskDocumentRef.model_validate\<close>: an object with exactly the two text fields, in canonical form.\<close>

definition task_ref_of_json :: "json \<Rightarrow> task_document_ref res" where
  "task_ref_of_json v =
     (case v of
        JObj kvs \<Rightarrow>
          if fst ` set kvs \<subseteq> {''repository'', ''path''}
          then (case (dget kvs ''repository'', dget kvs ''path'') of
                  (Some (JStr r), Some (JStr p)) \<Rightarrow>
                    (case make_task_document_ref r p of Inl _ \<Rightarrow> Inl (ValidationError ''TaskDocumentRef'') | Inr x \<Rightarrow> Inr x)
                | _ \<Rightarrow> Inl (ValidationError ''TaskDocumentRef''))
          else Inl (ValidationError ''TaskDocumentRef'')
      | _ \<Rightarrow> Inl (ValidationError ''TaskDocumentRef''))"

definition optional_task_document_ref :: "json_object \<Rightarrow> string \<Rightarrow> task_document_ref option res" where
  "optional_task_document_ref data k =
     (case dget data k of
        None \<Rightarrow> Inr None
      | Some JNull \<Rightarrow> Inr None
      | Some v \<Rightarrow> rbind (task_ref_of_json v) (\<lambda>r. Inr (Some r)))"

definition task_ref_json :: "task_document_ref \<Rightarrow> json" where
  "task_ref_json r = JObj [(''repository'', JStr (ref_repository r)), (''path'', JStr (ref_path r))]"

definition text_list :: "string list \<Rightarrow> json" where
  "text_list xs = JList (map JStr xs)"

definition present_fields :: "(string \<times> json option) list \<Rightarrow> json_object" where
  "present_fields kvs = concat (map (\<lambda>(k, v). case v of None \<Rightarrow> [] | Some x \<Rightarrow> [(k, x)]) kvs)"

subsection \<open>The binding role\<close>

definition LEGACY_CHAT_SEAT_ROLE :: string where
  "LEGACY_CHAT_SEAT_ROLE = ''chat''"

definition TERMINAL_SEAT_ROLE :: string where
  "TERMINAL_SEAT_ROLE = ''terminal''"

definition clean_role :: "string option \<Rightarrow> string option" where
  "clean_role role = (case role of None \<Rightarrow> None | Some r \<Rightarrow> if strip r = '''' then None else Some (strip r))"

definition migrated_seat_role :: "string option \<Rightarrow> string option \<Rightarrow> session_kind \<Rightarrow> string" where
  "migrated_seat_role persisted spawn_role kind =
     (if kind = KTerminal then TERMINAL_SEAT_ROLE
      else case lit_or (clean_role persisted) (clean_role spawn_role) of None \<Rightarrow> LEGACY_CHAT_SEAT_ROLE | Some r \<Rightarrow> r)"

definition binding_role :: "catalog_entry \<Rightarrow> string" where
  "binding_role e = migrated_seat_role (te_seat_role e) (te_spawn_role e) (te_kind e)"

definition binding_task_document_ref :: "catalog_entry \<Rightarrow> task_document_ref option" where
  "binding_task_document_ref e = lit_or (te_task_document_ref e) (te_replacement_for_task_document_ref e)"

subsection \<open>To and from JSON\<close>

definition entry_from_json :: "json_object \<Rightarrow> catalog_entry res" where
  "entry_from_json data =
     (let kind = (if dget data ''kind'' = Some (JStr ''harness'') then KHarness else KTerminal) in
      rbind (required_str data ''id'') (\<lambda>id_v.
      rbind (required_str data ''label'') (\<lambda>label_v.
      rbind (required_str data ''cwd'') (\<lambda>cwd_v.
      rbind (required_str data ''tmuxName'') (\<lambda>tmux_name_v.
      rbind (required_str data ''createdAt'') (\<lambda>created_at_v.
      rbind (required_str data ''lastAttachedAt'') (\<lambda>last_attached_at_v.
      rbind (optional_task_document_ref data ''taskDocumentRef'') (\<lambda>task_document_ref_v.
      rbind (optional_task_document_ref data ''replacementForTaskDocumentRef'') (\<lambda>replacement_for_task_document_ref_v.
      rbind (hashed_literal ALL_CONTROL_STATES bridge_state_str (dget data ''controlState'')) (\<lambda>bridge_state_v.
      rbind (hashed_literal ALL_ACTIVITY_STATES activity_state_str (dget data ''controlActivity'')) (\<lambda>control_activity_v.
      rbind (hashed_literal ALL_ACCEPTANCE_STATES acceptance_state_str (dget data ''controlAcceptance'')) (\<lambda>control_acceptance_v.
      Inr \<lparr>te_id = id_v,
        te_label = label_v,
        te_kind = kind,
        te_harness = optional_str data ''harness'',
        te_lifecycle_id = optional_str data ''lifecycleId'',
        te_cwd = path_of_text cwd_v,
        te_tmux_name = tmux_name_v,
        te_command = (case dget data ''command'' of Some (JList parts) \<Rightarrow> map py_str parts | _ \<Rightarrow> []),
        te_created_at = created_at_v,
        te_last_attached_at = last_attached_at_v,
        te_status = parse_status (dget data ''status''),
        te_terminated_at = optional_str data ''terminatedAt'',
        te_task_document_ref = task_document_ref_v,
        te_seat_role = Some (migrated_seat_role (optional_str data ''seatRole'') (optional_str data ''spawnRole'') kind),
        te_replacement_for_task_document_ref = replacement_for_task_document_ref_v,
        te_spawned_by_session = optional_str data ''spawnedBySession'',
        te_spawned_by_lifecycle = optional_str data ''spawnedByLifecycle'',
        te_spawn_role = optional_str data ''spawnRole'',
        te_launch_args = string_tuple (dget data ''launchArgs''),
        te_prompt_keywords = string_tuple (dget data ''promptKeywords''),
        te_session_commands = string_tuple (dget data ''sessionCommands''),
        te_spawn_level = optional_str data ''spawnLevel'',
        te_spawn_level_source = optional_str data ''spawnLevelSource'',
        te_resolved_model = optional_str data ''resolvedModel'',
        te_resolved_effort = optional_str data ''resolvedEffort'',
        te_session_log_entry_id = optional_str data ''sessionLogEntryId'',
        te_session_log_path = optional_path data ''sessionLogPath'',
        te_control_state = bridge_state_v,
        te_control_endpoint = optional_path data ''controlEndpoint'',
        te_control_protocol = optional_str data ''controlProtocol'',
        te_control_activity = control_activity_v,
        te_control_acceptance = control_acceptance_v,
        te_control_vendor_session_id = optional_str data ''controlVendorSessionId'',
        te_control_pending_interaction = optional_object (dget data ''controlPendingInteraction''),
        te_control_pending_interactions = optional_object_list (dget data ''controlPendingInteractions''),
        te_control_last_event_sequence = optional_non_negative_int (dget data ''controlLastEventSequence''),
        te_control_raw = optional_object (dget data ''controlRaw''),
        te_liveness_failures = non_negative_int (dget data ''livenessFailures''),
        te_liveness_first_failed_at = optional_str data ''livenessFirstFailedAt'',
        te_liveness_last_failed_at = optional_str data ''livenessLastFailedAt'',
        te_liveness_evidence = literal_of ALL_LIVENESS_EVIDENCE liveness_evidence_str (dget data ''livenessEvidence''),
        te_exit_evidence = literal_of ALL_LIVENESS_EVIDENCE liveness_evidence_str (dget data ''exitEvidence''),
        te_retired_at = optional_str data ''retiredAt'',
        te_retired_by_session = optional_str data ''retiredBySession'',
        te_retired_reason = optional_str data ''retiredReason'',
        te_retired_edge = optional_str data ''retiredEdge'',
        te_landed_at = optional_str data ''landedAt'',
        te_landed_reason = optional_str data ''landedReason'',
        te_landed_edge = optional_str data ''landedEdge'',
        te_spawned_label = optional_str data ''spawnedLabel'',
        te_turn_state = literal_of ALL_TURN_STATES seat_turn_state_str (dget data ''turnState''),
        te_turn_state_changed_at = optional_str data ''turnStateChangedAt'',
        te_terminal_outcome = literal_of ALL_TERMINAL_OUTCOMES terminal_outcome_str (dget data ''terminalOutcome''),
        te_terminal_outcome_at = optional_str data ''terminalOutcomeAt'',
        te_terminal_evidence_id = optional_str data ''terminalEvidenceId'',
        te_interrupted_by = literal_of ALL_INTERRUPT_ORIGINS interrupt_origin_str (dget data ''interruptedBy''),
        te_terminal_evidence_sequence = optional_non_negative_int (dget data ''terminalEvidenceSequence''),
        te_terminal_native_cursor = optional_str data ''terminalNativeCursor'',
        te_interrupt_requested_by = literal_of ALL_INTERRUPT_REQUESTERS interrupt_requester_str (dget data ''interruptRequestedBy''),
        te_interrupt_requested_at = optional_str data ''interruptRequestedAt'',
        te_interrupt_requested_turn_id = optional_str data ''interruptRequestedTurnId'',
        te_state_signal_emitted_for = optional_str data ''stateSignalEmittedFor'',
        te_non_reaction_emitted_for = optional_str data ''nonReactionEmittedFor'',
        te_compound_idle_emitted_for = optional_str data ''compoundIdleEmittedFor''\<rparr>))))))))))))"

definition entry_to_json :: "catalog_entry \<Rightarrow> json_object" where
  "entry_to_json e =
     [(''id'', JStr (te_id e)),
      (''label'', JStr (te_label e)),
      (''kind'', JStr (session_kind_str (te_kind e))),
      (''cwd'', JStr (path_text (te_cwd e))),
      (''tmuxName'', JStr (te_tmux_name e)),
      (''command'', text_list (te_command e)),
      (''createdAt'', JStr (te_created_at e)),
      (''lastAttachedAt'', JStr (te_last_attached_at e)),
      (''status'', JStr (session_status_str (te_status e)))] @
     present_fields
      [(''harness'', map_option JStr (te_harness e)),
       (''lifecycleId'', map_option JStr (te_lifecycle_id e)),
       (''terminatedAt'', map_option JStr (te_terminated_at e)),
       (''taskDocumentRef'', map_option task_ref_json (te_task_document_ref e))] @
     [(''seatRole'', JStr (binding_role e))] @
     present_fields
      [(''replacementForTaskDocumentRef'', map_option task_ref_json (te_replacement_for_task_document_ref e)),
       (''spawnedBySession'', map_option JStr (te_spawned_by_session e)),
       (''spawnedByLifecycle'', map_option JStr (te_spawned_by_lifecycle e)),
       (''spawnRole'', map_option JStr (te_spawn_role e)),
       (''launchArgs'', map_option text_list (te_launch_args e)),
       (''promptKeywords'', map_option text_list (te_prompt_keywords e)),
       (''sessionCommands'', map_option text_list (te_session_commands e)),
       (''spawnLevel'', map_option JStr (te_spawn_level e)),
       (''spawnLevelSource'', map_option JStr (te_spawn_level_source e)),
       (''resolvedModel'', map_option JStr (te_resolved_model e)),
       (''resolvedEffort'', map_option JStr (te_resolved_effort e)),
       (''sessionLogEntryId'', map_option JStr (te_session_log_entry_id e)),
       (''sessionLogPath'', map_option (JStr \<circ> path_text) (te_session_log_path e)),
       (''controlState'', map_option (JStr \<circ> bridge_state_str) (te_control_state e)),
       (''controlEndpoint'', map_option (JStr \<circ> path_text) (te_control_endpoint e)),
       (''controlProtocol'', map_option JStr (te_control_protocol e)),
       (''controlActivity'', map_option (JStr \<circ> activity_state_str) (te_control_activity e)),
       (''controlAcceptance'', map_option (JStr \<circ> acceptance_state_str) (te_control_acceptance e)),
       (''controlVendorSessionId'', map_option JStr (te_control_vendor_session_id e)),
       (''controlPendingInteraction'', map_option JObj (te_control_pending_interaction e)),
       (''controlPendingInteractions'', map_option (JList \<circ> map JObj) (te_control_pending_interactions e)),
       (''controlLastEventSequence'', map_option JNum (te_control_last_event_sequence e)),
       (''controlRaw'', map_option JObj (te_control_raw e)),
       (''livenessFirstFailedAt'', map_option JStr (te_liveness_first_failed_at e)),
       (''livenessLastFailedAt'', map_option JStr (te_liveness_last_failed_at e)),
       (''livenessEvidence'', map_option (JStr \<circ> liveness_evidence_str) (te_liveness_evidence e)),
       (''retiredAt'', map_option JStr (te_retired_at e)),
       (''retiredBySession'', map_option JStr (te_retired_by_session e)),
       (''retiredReason'', map_option JStr (te_retired_reason e)),
       (''retiredEdge'', map_option JStr (te_retired_edge e)),
       (''landedAt'', map_option JStr (te_landed_at e)),
       (''landedReason'', map_option JStr (te_landed_reason e)),
       (''landedEdge'', map_option JStr (te_landed_edge e)),
       (''spawnedLabel'', map_option JStr (te_spawned_label e)),
       (''turnState'', map_option (JStr \<circ> seat_turn_state_str) (te_turn_state e)),
       (''turnStateChangedAt'', map_option JStr (te_turn_state_changed_at e)),
       (''terminalOutcome'', map_option (JStr \<circ> terminal_outcome_str) (te_terminal_outcome e)),
       (''terminalOutcomeAt'', map_option JStr (te_terminal_outcome_at e)),
       (''terminalEvidenceId'', map_option JStr (te_terminal_evidence_id e)),
       (''interruptedBy'', map_option (JStr \<circ> interrupt_origin_str) (te_interrupted_by e)),
       (''terminalEvidenceSequence'', map_option JNum (te_terminal_evidence_sequence e)),
       (''terminalNativeCursor'', map_option JStr (te_terminal_native_cursor e)),
       (''interruptRequestedBy'', map_option (JStr \<circ> interrupt_requester_str) (te_interrupt_requested_by e)),
       (''interruptRequestedAt'', map_option JStr (te_interrupt_requested_at e)),
       (''interruptRequestedTurnId'', map_option JStr (te_interrupt_requested_turn_id e)),
       (''stateSignalEmittedFor'', map_option JStr (te_state_signal_emitted_for e)),
       (''nonReactionEmittedFor'', map_option JStr (te_non_reaction_emitted_for e)),
       (''compoundIdleEmittedFor'', map_option JStr (te_compound_idle_emitted_for e))] @
     (if te_liveness_failures e \<noteq> 0 then [(''livenessFailures'', JNum (te_liveness_failures e))] else []) @
     (case te_exit_evidence e of
        Some x \<Rightarrow> if te_status e = SessExited then [(''exitEvidence'', JStr (liveness_evidence_str x))] else []
      | None \<Rightarrow> [])"

subsection \<open>The declared row\<close>

text \<open>
  The fields \<^verbatim>\<open>TerminalCatalogEntryWire\<close> declares, by alias, with their types and whether they are required; no other key is
  allowed. What the validator makes of a row that conforms is the row.
\<close>

datatype wire_type = WStr | WInt | WStrList | WObj | WObjList | WRef | WLit "string list"

fun wire_value_ok :: "wire_type \<Rightarrow> json \<Rightarrow> bool" where
  "wire_value_ok WStr (JStr _) = True"
| "wire_value_ok WInt (JNum _) = True"
| "wire_value_ok WStrList (JList xs) = (\<forall>x\<in>set xs. case x of JStr _ \<Rightarrow> True | _ \<Rightarrow> False)"
| "wire_value_ok WObj (JObj _) = True"
| "wire_value_ok WObjList (JList xs) = (\<forall>x\<in>set xs. case x of JObj _ \<Rightarrow> True | _ \<Rightarrow> False)"
| "wire_value_ok WRef v = (case task_ref_of_json v of Inr r \<Rightarrow> v = task_ref_json r | Inl _ \<Rightarrow> False)"
| "wire_value_ok (WLit ss) (JStr s) = (s \<in> set ss)"
| "wire_value_ok _ _ = False"

definition WIRE_FIELDS :: "(string \<times> wire_type \<times> bool) list" where
  "WIRE_FIELDS =
     [(''id'', WStr, True),
      (''label'', WStr, True),
      (''kind'', WLit [''terminal'', ''harness''], True),
      (''cwd'', WStr, True),
      (''tmuxName'', WStr, True),
      (''command'', WStrList, True),
      (''createdAt'', WStr, True),
      (''lastAttachedAt'', WStr, True),
      (''status'', WStr, True),
      (''harness'', WStr, False),
      (''lifecycleId'', WStr, False),
      (''terminatedAt'', WStr, False),
      (''taskDocumentRef'', WRef, False),
      (''seatRole'', WStr, True),
      (''replacementForTaskDocumentRef'', WRef, False),
      (''spawnedBySession'', WStr, False),
      (''spawnedByLifecycle'', WStr, False),
      (''spawnRole'', WStr, False),
      (''launchArgs'', WStrList, False),
      (''promptKeywords'', WStrList, False),
      (''sessionCommands'', WStrList, False),
      (''spawnLevel'', WStr, False),
      (''spawnLevelSource'', WStr, False),
      (''resolvedModel'', WStr, False),
      (''resolvedEffort'', WStr, False),
      (''sessionLogEntryId'', WStr, False),
      (''sessionLogPath'', WStr, False),
      (''controlState'', WStr, False),
      (''controlEndpoint'', WStr, False),
      (''controlProtocol'', WStr, False),
      (''controlActivity'', WStr, False),
      (''controlAcceptance'', WStr, False),
      (''controlVendorSessionId'', WStr, False),
      (''controlPendingInteraction'', WObj, False),
      (''controlPendingInteractions'', WObjList, False),
      (''controlLastEventSequence'', WInt, False),
      (''controlRaw'', WObj, False),
      (''livenessFirstFailedAt'', WStr, False),
      (''livenessLastFailedAt'', WStr, False),
      (''livenessEvidence'', WLit [''tmux-command-failed'', ''pane-gone''], False),
      (''retiredAt'', WStr, False),
      (''retiredBySession'', WStr, False),
      (''retiredReason'', WStr, False),
      (''retiredEdge'', WStr, False),
      (''landedAt'', WStr, False),
      (''landedReason'', WStr, False),
      (''landedEdge'', WStr, False),
      (''spawnedLabel'', WStr, False),
      (''turnState'', WStr, False),
      (''turnStateChangedAt'', WStr, False),
      (''terminalOutcome'', WLit [''completed'', ''interrupted'', ''failed'', ''unknown''], False),
      (''terminalOutcomeAt'', WStr, False),
      (''terminalEvidenceId'', WStr, False),
      (''interruptedBy'', WLit [''developer'', ''unknown''], False),
      (''terminalEvidenceSequence'', WInt, False),
      (''terminalNativeCursor'', WStr, False),
      (''interruptRequestedBy'', WLit [''developer''], False),
      (''interruptRequestedAt'', WStr, False),
      (''interruptRequestedTurnId'', WStr, False),
      (''stateSignalEmittedFor'', WStr, False),
      (''nonReactionEmittedFor'', WStr, False),
      (''compoundIdleEmittedFor'', WStr, False),
      (''livenessFailures'', WInt, False),
      (''exitEvidence'', WLit [''tmux-command-failed'', ''pane-gone''], False)]"

definition wire_conforms :: "json_object \<Rightarrow> bool" where
  "wire_conforms row \<longleftrightarrow>
     (\<forall>(k, v)\<in>set row. case dget WIRE_FIELDS k of None \<Rightarrow> False | Some (t, required) \<Rightarrow> wire_value_ok t v \<or> \<not> required \<and> v = JNull) \<and>
     (\<forall>(k, t, required)\<in>set WIRE_FIELDS. required \<longrightarrow> dget row k \<noteq> None)"

end
