(* ===== verification/Catalog_Codec.thy ===== *)
theory Catalog_Codec
  imports Catalog_Entry
begin

section \<open>A catalog row survives its JSON\<close>

text \<open>
  What \<^verbatim>\<open>to_json\<close> writes of a row of the value domain, \<^verbatim>\<open>from_json\<close> reads back, up to the two fields the writer normalizes (the
  seat role, and the exit evidence of a row that is not exited); and the written object conforms to the declared row.
\<close>

subsection \<open>Paths\<close>

definition path_ok :: "pure_path \<Rightarrow> bool" where
  "path_ok p \<longleftrightarrow> pp_root p \<in> {'''', ''/'', ''//''} \<and> (\<forall>q\<in>set (pp_parts p). q \<noteq> '''' \<and> q \<noteq> ''.'' \<and> CHR ''/'' \<notin> set q)"

lemma posix_parts_slash [simp]: "posix_parts (CHR ''/'' # s) = posix_parts s"
  by (simp add: posix_parts_def)

lemma path_of_text_ok: "path_ok (path_of_text s)"
  by (auto simp: path_ok_def path_of_text_def Let_def posix_parts_def dest: split_on_parts)

lemma posix_parts_join_slash:
  assumes "\<forall>q\<in>set ps. q \<noteq> '''' \<and> q \<noteq> ''.'' \<and> CHR ''/'' \<notin> set q"
  shows "posix_parts (join_slash ps) = ps"
proof (cases "ps = []")
  case False
  with assms split_join_slash have "split_on CHR ''/'' (join_slash ps) = ps" by blast
  with assms show ?thesis by (simp add: posix_parts_def)
qed (simp add: posix_parts_def)

lemma join_slash_head:
  assumes "\<forall>q\<in>set ps. q \<noteq> '''' \<and> CHR ''/'' \<notin> set q"
  shows "takeWhile (\<lambda>c. c = CHR ''/'') (join_slash ps) = []"
  using assms by (induction ps rule: join_slash.induct) (auto simp: neq_Nil_conv)

lemma path_text_read:
  assumes "path_ok p"
  shows "path_of_text (path_text p) = p"
proof -
  have parts: "posix_parts (join_slash (pp_parts p)) = pp_parts p" using assms by (intro posix_parts_join_slash) (auto simp: path_ok_def)
  have hd: "takeWhile (\<lambda>c. c = CHR ''/'') (join_slash (pp_parts p)) = []" using assms by (intro join_slash_head) (auto simp: path_ok_def)
  show ?thesis
  proof (cases "pp_root p = '''' \<and> pp_parts p = []")
    case True
    then show ?thesis by (cases p) (simp add: path_text_def path_of_text_def posix_parts_def)
  next
    case False
    then have "path_text p = pp_root p @ join_slash (pp_parts p)" by (simp add: path_text_def)
    moreover from assms have "pp_root p = '''' \<or> pp_root p = ''/'' \<or> pp_root p = ''//''" by (simp add: path_ok_def)
    ultimately show ?thesis using parts hd by (elim disjE) (simp_all add: path_of_text_def)
  qed
qed

subsection \<open>Reading what was written\<close>

lemma present_fields_Cons [simp]:
  "present_fields [] = []" "present_fields ((k, v) # kvs) = (case v of None \<Rightarrow> [] | Some x \<Rightarrow> [(k, x)]) @ present_fields kvs"
  by (simp_all add: present_fields_def)

lemma present_fields_append: "present_fields (xs @ ys) = present_fields xs @ present_fields ys"
  by (simp add: present_fields_def)

lemma present_fields_keys: "fst ` set (present_fields kvs) \<subseteq> fst ` set kvs"
  by (force simp: present_fields_def split: option.splits)

lemma dget_present:
  "distinct (map fst kvs) \<Longrightarrow> dget (present_fields kvs) k = (case map_of kvs k of None \<Rightarrow> None | Some v \<Rightarrow> v)"
proof (induction kvs)
  case (Cons kv kvs)
  obtain j v where [simp]: "kv = (j, v)" by (cases kv)
  from Cons have ih: "dget (present_fields kvs) k = (case map_of kvs k of None \<Rightarrow> None | Some v \<Rightarrow> v)" by simp
  show ?case
  proof (cases "k = j")
    case True
    with Cons.prems have "map_of kvs k = None" by (auto simp: map_of_eq_None_iff)
    with True ih show ?thesis by (cases v) simp_all
  qed (use ih in \<open>simp split: option.split\<close>)
qed simp

text \<open>The fields of the written object, absent ones included, in the order they are written.\<close>

definition entry_fields :: "catalog_entry \<Rightarrow> (string \<times> json option) list" where
  "entry_fields e =
     [(''id'', Some (JStr (te_id e))),
      (''label'', Some (JStr (te_label e))),
      (''kind'', Some (JStr (session_kind_str (te_kind e)))),
      (''cwd'', Some (JStr (path_text (te_cwd e)))),
      (''tmuxName'', Some (JStr (te_tmux_name e))),
      (''command'', Some (text_list (te_command e))),
      (''createdAt'', Some (JStr (te_created_at e))),
      (''lastAttachedAt'', Some (JStr (te_last_attached_at e))),
      (''status'', Some (JStr (session_status_str (te_status e)))),
      (''harness'', map_option JStr (te_harness e)),
      (''lifecycleId'', map_option JStr (te_lifecycle_id e)),
      (''terminatedAt'', map_option JStr (te_terminated_at e)),
      (''taskDocumentRef'', map_option task_ref_json (te_task_document_ref e)),
      (''seatRole'', Some (JStr (binding_role e))),
      (''replacementForTaskDocumentRef'', map_option task_ref_json (te_replacement_for_task_document_ref e)),
      (''spawnedBySession'', map_option JStr (te_spawned_by_session e)),
      (''spawnedByLifecycle'', map_option JStr (te_spawned_by_lifecycle e)),
      (''spawnRole'', map_option JStr (te_spawn_role e)),
      (''launchArgs'', map_option text_list (te_launch_args e)),
      (''promptKeywords'', map_option text_list (te_prompt_keywords e)),
      (''sessionCommands'', map_option text_list (te_session_commands e)),
      (''spawnLevel'', map_option JStr (te_spawn_level e)),
      (''spawnLevelSource'', map_option JStr (te_spawn_level_source e)),
      (''resolvedModel'', map_option JStr (te_resolved_model e)),
      (''resolvedEffort'', map_option JStr (te_resolved_effort e)),
      (''sessionLogEntryId'', map_option JStr (te_session_log_entry_id e)),
      (''sessionLogPath'', map_option (JStr \<circ> path_text) (te_session_log_path e)),
      (''controlState'', map_option (JStr \<circ> bridge_state_str) (te_control_state e)),
      (''controlEndpoint'', map_option (JStr \<circ> path_text) (te_control_endpoint e)),
      (''controlProtocol'', map_option JStr (te_control_protocol e)),
      (''controlActivity'', map_option (JStr \<circ> activity_state_str) (te_control_activity e)),
      (''controlAcceptance'', map_option (JStr \<circ> acceptance_state_str) (te_control_acceptance e)),
      (''controlVendorSessionId'', map_option JStr (te_control_vendor_session_id e)),
      (''controlPendingInteraction'', map_option JObj (te_control_pending_interaction e)),
      (''controlPendingInteractions'', map_option (JList \<circ> map JObj) (te_control_pending_interactions e)),
      (''controlLastEventSequence'', map_option JNum (te_control_last_event_sequence e)),
      (''controlRaw'', map_option JObj (te_control_raw e)),
      (''livenessFirstFailedAt'', map_option JStr (te_liveness_first_failed_at e)),
      (''livenessLastFailedAt'', map_option JStr (te_liveness_last_failed_at e)),
      (''livenessEvidence'', map_option (JStr \<circ> liveness_evidence_str) (te_liveness_evidence e)),
      (''retiredAt'', map_option JStr (te_retired_at e)),
      (''retiredBySession'', map_option JStr (te_retired_by_session e)),
      (''retiredReason'', map_option JStr (te_retired_reason e)),
      (''retiredEdge'', map_option JStr (te_retired_edge e)),
      (''landedAt'', map_option JStr (te_landed_at e)),
      (''landedReason'', map_option JStr (te_landed_reason e)),
      (''landedEdge'', map_option JStr (te_landed_edge e)),
      (''spawnedLabel'', map_option JStr (te_spawned_label e)),
      (''turnState'', map_option (JStr \<circ> seat_turn_state_str) (te_turn_state e)),
      (''turnStateChangedAt'', map_option JStr (te_turn_state_changed_at e)),
      (''terminalOutcome'', map_option (JStr \<circ> terminal_outcome_str) (te_terminal_outcome e)),
      (''terminalOutcomeAt'', map_option JStr (te_terminal_outcome_at e)),
      (''terminalEvidenceId'', map_option JStr (te_terminal_evidence_id e)),
      (''interruptedBy'', map_option (JStr \<circ> interrupt_origin_str) (te_interrupted_by e)),
      (''terminalEvidenceSequence'', map_option JNum (te_terminal_evidence_sequence e)),
      (''terminalNativeCursor'', map_option JStr (te_terminal_native_cursor e)),
      (''interruptRequestedBy'', map_option (JStr \<circ> interrupt_requester_str) (te_interrupt_requested_by e)),
      (''interruptRequestedAt'', map_option JStr (te_interrupt_requested_at e)),
      (''interruptRequestedTurnId'', map_option JStr (te_interrupt_requested_turn_id e)),
      (''stateSignalEmittedFor'', map_option JStr (te_state_signal_emitted_for e)),
      (''nonReactionEmittedFor'', map_option JStr (te_non_reaction_emitted_for e)),
      (''compoundIdleEmittedFor'', map_option JStr (te_compound_idle_emitted_for e)),
      (''livenessFailures'', if te_liveness_failures e \<noteq> 0 then Some (JNum (te_liveness_failures e)) else None),
      (''exitEvidence'', if te_status e = SessExited then map_option (JStr \<circ> liveness_evidence_str) (te_exit_evidence e) else None)]"

lemma entry_to_json_fields: "entry_to_json e = present_fields (entry_fields e)"
  by (simp add: entry_to_json_def entry_fields_def split: option.split)

lemma entry_field_keys: "map fst (entry_fields e) = map fst WIRE_FIELDS"
  by (simp add: entry_fields_def WIRE_FIELDS_def)

lemma wire_keys_distinct: "distinct (map fst WIRE_FIELDS)"
  by (simp add: WIRE_FIELDS_def)

lemma dget_entry: "dget (entry_to_json e) k = (case map_of (entry_fields e) k of None \<Rightarrow> None | Some v \<Rightarrow> v)"
  using dget_present [of "entry_fields e" k] by (simp add: entry_to_json_fields entry_field_keys wire_keys_distinct)

subsection \<open>Field readers\<close>

text \<open>Each reader undoes the writer of its field.\<close>

definition str_of_json :: "json option \<Rightarrow> string option" where
  "str_of_json raw = (case raw of None \<Rightarrow> None | Some JNull \<Rightarrow> None | Some v \<Rightarrow> Some (py_str v))"

lemma str_written: "str_of_json (map_option JStr x) = x" "str_of_json (map_option (JStr \<circ> path_text) y) = map_option path_text y"
  "str_of_json (Some (JStr s)) = Some s"
  by (auto simp: str_of_json_def split: option.split)

lemma kind_written: "(if session_kind_str k = ''harness'' then KHarness else KTerminal) = k"
  by (cases k) simp_all

lemma command_written: "(case text_list xs of JList parts \<Rightarrow> map py_str parts | _ \<Rightarrow> []) = xs"
  by (simp add: text_list_def o_def)

lemma literal_of_absent: "literal_of all str (if b then x else None) = (if b then literal_of all str x else None)"
  by (simp add: literal_of_def)

lemma literal_of_written:
  "literal_of ALL_CONTROL_STATES bridge_state_str (map_option (JStr \<circ> bridge_state_str) a) = a"
  "literal_of ALL_ACTIVITY_STATES activity_state_str (map_option (JStr \<circ> activity_state_str) b) = b"
  "literal_of ALL_ACCEPTANCE_STATES acceptance_state_str (map_option (JStr \<circ> acceptance_state_str) c) = c"
  "literal_of ALL_LIVENESS_EVIDENCE liveness_evidence_str (map_option (JStr \<circ> liveness_evidence_str) d) = d"
  "literal_of ALL_TURN_STATES seat_turn_state_str (map_option (JStr \<circ> seat_turn_state_str) t) = t"
  "literal_of ALL_TERMINAL_OUTCOMES terminal_outcome_str (map_option (JStr \<circ> terminal_outcome_str) out) = out"
  "literal_of ALL_INTERRUPT_ORIGINS interrupt_origin_str (map_option (JStr \<circ> interrupt_origin_str) i) = i"
  "literal_of ALL_INTERRUPT_REQUESTERS interrupt_requester_str (map_option (JStr \<circ> interrupt_requester_str) r) = r"
  subgoal by (cases a rule: option.exhaust; cases "the a") (auto simp: literal_of_def ALL_CONTROL_STATES_def)
  subgoal by (cases b rule: option.exhaust; cases "the b") (auto simp: literal_of_def ALL_ACTIVITY_STATES_def)
  subgoal by (cases c rule: option.exhaust; cases "the c") (auto simp: literal_of_def ALL_ACCEPTANCE_STATES_def)
  subgoal by (cases d rule: option.exhaust; cases "the d") (auto simp: literal_of_def ALL_LIVENESS_EVIDENCE_def)
  subgoal by (cases t rule: option.exhaust; cases "the t") (auto simp: literal_of_def ALL_TURN_STATES_def)
  subgoal by (cases out rule: option.exhaust; cases "the out") (auto simp: literal_of_def ALL_TERMINAL_OUTCOMES_def)
  subgoal by (cases i rule: option.exhaust; cases "the i") (auto simp: literal_of_def ALL_INTERRUPT_ORIGINS_def)
  subgoal by (cases r rule: option.exhaust; cases "the r") (auto simp: literal_of_def ALL_INTERRUPT_REQUESTERS_def)
  done

lemma hashed_literal_written: "hashed_literal all str (map_option (JStr \<circ> f) x) = Inr (literal_of all str (map_option (JStr \<circ> f) x))"
  by (cases x) (simp_all add: hashed_literal_def)

lemma parse_status_written: "parse_status (Some (JStr (session_status_str s))) = s"
  by (cases s) (simp_all add: parse_status_def)

lemma string_tuple_written: "string_tuple (map_option text_list x) = x"
  by (cases x) (simp_all add: string_tuple_def text_list_def o_def)

lemma objects_written: "optional_object (map_option JObj x) = x" "optional_object_list (map_option (JList \<circ> map JObj) ys) = ys"
proof -
  have objects: "all_objects (map JObj zs) = Some zs" for zs by (induction zs) (simp_all add: optional_object_def)
  show "optional_object (map_option JObj x) = x" by (cases x) (simp_all add: optional_object_def)
  show "optional_object_list (map_option (JList \<circ> map JObj) ys) = ys" by (cases ys) (simp_all add: optional_object_list_def objects)
qed

lemma ints_written:
  "pred_option ((\<le>) 0) x \<Longrightarrow> optional_non_negative_int (map_option JNum x) = x"
  "0 \<le> n \<Longrightarrow> non_negative_int (if n \<noteq> 0 then Some (JNum n) else None) = n"
  by (cases x) (simp_all add: optional_non_negative_int_def non_negative_int_def)

lemma path_written: "pred_option path_ok x \<Longrightarrow> map_option path_of_text (map_option path_text x) = x"
  by (cases x) (simp_all add: path_text_read)

definition task_ref_ok :: "task_document_ref \<Rightarrow> bool" where
  "task_ref_ok r \<longleftrightarrow> make_task_document_ref (ref_repository r) (ref_path r) = Inr r"

lemma task_ref_written: "task_ref_ok r \<Longrightarrow> task_ref_of_json (task_ref_json r) = Inr r"
  by (simp add: task_ref_of_json_def task_ref_json_def task_ref_ok_def)

lemma optional_task_ref_written:
  "dget data k = map_option task_ref_json x \<Longrightarrow> pred_option task_ref_ok x \<Longrightarrow> optional_task_document_ref data k = Inr x"
  by (cases x) (simp_all add: optional_task_document_ref_def task_ref_json_def task_ref_written [unfolded task_ref_json_def])

subsection \<open>The round trip\<close>

text \<open>The rows the catalog holds: canonical paths and references, and counts that are not negative.\<close>

definition entry_ok :: "catalog_entry \<Rightarrow> bool" where
  "entry_ok e \<longleftrightarrow> path_ok (te_cwd e) \<and> pred_option path_ok (te_session_log_path e) \<and> pred_option path_ok (te_control_endpoint e) \<and>
     pred_option task_ref_ok (te_task_document_ref e) \<and> pred_option task_ref_ok (te_replacement_for_task_document_ref e) \<and>
     pred_option ((\<le>) 0) (te_control_last_event_sequence e) \<and> pred_option ((\<le>) 0) (te_terminal_evidence_sequence e) \<and>
     0 \<le> te_liveness_failures e"

definition canonical_entry :: "catalog_entry \<Rightarrow> catalog_entry" where
  "canonical_entry e =
     e\<lparr>te_seat_role := Some (binding_role e),
       te_exit_evidence := (if te_status e = SessExited then te_exit_evidence e else None)\<rparr>"

lemma strip_chat [simp]: "strip ''chat'' = ''chat''"
  by code_simp

lemma binding_role_stable: "migrated_seat_role (Some (binding_role e)) r (te_kind e) = binding_role e"
  by (auto simp: binding_role_def migrated_seat_role_def clean_role_def lit_or_def TERMINAL_SEAT_ROLE_def LEGACY_CHAT_SEAT_ROLE_def
      split: option.splits if_splits)

text \<open>Where each field is: the dictionary of the written object, by field.\<close>

definition entry_dict :: "catalog_entry \<Rightarrow> string \<Rightarrow> json option" where
  "entry_dict e k = dget (entry_to_json e) k"

lemma entry_dict_fields: "list_all (\<lambda>(k, v). entry_dict e k = v) (entry_fields e)"
proof -
  have "distinct (map fst (entry_fields e))" by (simp add: entry_field_keys wire_keys_distinct)
  then show ?thesis by (auto simp: list_all_iff entry_dict_def dget_entry)
qed

lemmas entry_dict_lookup = entry_dict_fields [unfolded entry_fields_def list.pred_inject prod.case]

lemma entry_readers:
  "optional_str (entry_to_json e) k = str_of_json (entry_dict e k)"
  "required_str (entry_to_json e) k = (case entry_dict e k of None \<Rightarrow> Inl (KeyError k) | Some v \<Rightarrow> Inr (py_str v))"
  "optional_path (entry_to_json e) k = map_option path_of_text (str_of_json (entry_dict e k))"
  by (simp_all add: optional_str_def required_str_def optional_path_def entry_dict_def str_of_json_def)

lemma entry_round_trip:
  assumes "entry_ok e"
  shows "entry_from_json (entry_to_json e) = Inr (canonical_entry e)"
proof -
  have refs: "optional_task_document_ref (entry_to_json e) ''taskDocumentRef'' = Inr (te_task_document_ref e)"
    "optional_task_document_ref (entry_to_json e) ''replacementForTaskDocumentRef'' = Inr (te_replacement_for_task_document_ref e)"
    using assms entry_dict_lookup [of e]
    by (auto intro!: optional_task_ref_written simp: entry_dict_def [symmetric] entry_ok_def simp del: map_option_eq_Some)
  show ?thesis
    using assms
    by (simp add: entry_from_json_def refs entry_readers entry_dict_def [symmetric] entry_dict_lookup hashed_literal_written
        literal_of_written parse_status_written string_tuple_written objects_written ints_written path_written entry_ok_def
        path_text_read canonical_entry_def str_written kind_written command_written literal_of_absent binding_role_stable
        del: option.map_comp map_option_eq_Some)
qed

subsection \<open>The written row is a declared row\<close>

definition fits :: "wire_type \<Rightarrow> json option \<Rightarrow> bool" where
  "fits t v \<longleftrightarrow> (case v of None \<Rightarrow> True | Some x \<Rightarrow> wire_value_ok t x)"

definition field_fits :: "string \<times> json option \<Rightarrow> string \<times> wire_type \<times> bool \<Rightarrow> bool" where
  "field_fits kv decl \<longleftrightarrow>
     (case (kv, decl) of ((k, v), (j, t, required)) \<Rightarrow> k = j \<and> fits t v \<and> (required \<longrightarrow> v \<noteq> None))"

lemma field_fits_simps:
  "field_fits (k, v) (k, t, False) = fits t v"
  "field_fits (k, Some x) (k, t, True) = wire_value_ok t x"
  by (simp_all add: field_fits_def fits_def)

lemma written_strings:
  "session_kind_str k \<in> {''terminal'', ''harness''}"
  "liveness_evidence_str d \<in> {''tmux-command-failed'', ''pane-gone''}"
  "terminal_outcome_str out \<in> {''completed'', ''interrupted'', ''failed'', ''unknown''}"
  "interrupt_origin_str i \<in> {''developer'', ''unknown''}"
  "interrupt_requester_str q \<in> {''developer''}"
  subgoal by (cases k) simp_all
  subgoal by (cases d) simp_all
  subgoal by (cases out) simp_all
  subgoal by (cases i) simp_all
  subgoal by (cases q) simp_all
  done

lemma written_fits:
  "fits WStr (map_option JStr a)" "fits WStr (map_option (JStr \<circ> f) b)" "fits WStrList (map_option text_list xs)"
  "fits WInt (map_option JNum n)" "fits WObj (map_option JObj j)" "fits WObjList (map_option (JList \<circ> map JObj) js)"
  "pred_option task_ref_ok r \<Longrightarrow> fits WRef (map_option task_ref_json r)"
  "fits (WLit [''tmux-command-failed'', ''pane-gone'']) (map_option (JStr \<circ> liveness_evidence_str) d)"
  "fits (WLit [''completed'', ''interrupted'', ''failed'', ''unknown'']) (map_option (JStr \<circ> terminal_outcome_str) out)"
  "fits (WLit [''developer'', ''unknown'']) (map_option (JStr \<circ> interrupt_origin_str) i)"
  "fits (WLit [''developer'']) (map_option (JStr \<circ> interrupt_requester_str) q)"
  "fits t (if c then v else None) = (c \<longrightarrow> fits t v)" "fits WInt (Some (JNum m))"
  using written_strings
  by (auto simp: fits_def text_list_def task_ref_json_def task_ref_written [unfolded task_ref_json_def] split: option.split json.split)

lemma required_fits:
  "wire_value_ok WStr (JStr s)" "wire_value_ok WStrList (text_list xs)"
  "wire_value_ok (WLit [''terminal'', ''harness'']) (JStr (session_kind_str k))"
  using written_strings(1) [of k] by (auto simp: text_list_def)

lemma entry_fields_fit:
  assumes "entry_ok e"
  shows "list_all2 field_fits (entry_fields e) WIRE_FIELDS"
proof -
  have "pred_option task_ref_ok (te_task_document_ref e)" "pred_option task_ref_ok (te_replacement_for_task_document_ref e)"
    using assms by (auto simp: entry_ok_def)
  then show ?thesis
    by (simp only: entry_fields_def WIRE_FIELDS_def list.rel_inject list.rel_intros(1) field_fits_simps written_fits required_fits simp_thms)
qed

text \<open>What \<^verbatim>\<open>_write_disk\<close> validates passes.\<close>

lemma entry_conforms:
  assumes "entry_ok e"
  shows "wire_conforms (entry_to_json e)"
proof -
  note fit = entry_fields_fit [OF assms, unfolded list_all2_conv_all_nth]
  have len: "length (entry_fields e) = length WIRE_FIELDS" using fit by blast
  have decl: "dget WIRE_FIELDS k = Some d \<longleftrightarrow> (k, d) \<in> set WIRE_FIELDS" for k d
    by (rule map_of_eq_Some_iff [OF wire_keys_distinct])
  have "case dget WIRE_FIELDS k of None \<Rightarrow> False | Some (t, required) \<Rightarrow> wire_value_ok t v"
    if kv: "(k, v) \<in> set (entry_to_json e)" for k v
  proof -
    from kv have "(k, Some v) \<in> set (entry_fields e)" by (auto simp: entry_to_json_fields present_fields_def split: option.splits)
    then obtain i where i: "i < length (entry_fields e)" "entry_fields e ! i = (k, Some v)" by (auto simp: in_set_conv_nth)
    obtain j t required where d: "WIRE_FIELDS ! i = (j, t, required)" by (cases "WIRE_FIELDS ! i")
    from fit i d have "j = k" "wire_value_ok t v" by (auto simp: field_fits_def fits_def)
    moreover have "dget WIRE_FIELDS k = Some (t, required)" using d i(1) len \<open>j = k\<close> by (auto simp: decl in_set_conv_nth)
    ultimately show ?thesis by simp
  qed
  moreover have "dget (entry_to_json e) k \<noteq> None" if d: "(k, t, True) \<in> set WIRE_FIELDS" for k t
  proof -
    from d obtain i where i: "i < length WIRE_FIELDS" "WIRE_FIELDS ! i = (k, t, True)" by (auto simp: in_set_conv_nth)
    with fit len obtain v where "entry_fields e ! i = (k, Some v)" by (cases "entry_fields e ! i") (auto simp: field_fits_def)
    with i(1) len have "(k, Some v) \<in> set (entry_fields e)" by (metis nth_mem)
    then show ?thesis using entry_dict_fields [of e] by (auto simp: list_all_iff entry_dict_def)
  qed
  ultimately show ?thesis by (fastforce simp: wire_conforms_def split: option.splits)
qed

end
