(* ===== verification/Catalog_Transitions.thy ===== *)
theory Catalog_Transitions
  imports Catalog_Entry
begin

section \<open>Transitions of a catalog row\<close>

text \<open>
  The copies \<^verbatim>\<open>TerminalCatalogEntry\<close> makes of itself (\<^verbatim>\<open>models/terminal_catalog.py\<close>): attachment, status, binding, retirement,
  landing, rename, turn state and the liveness hysteresis; and the copies of \<^verbatim>\<open>serving/seat_turn_truth.py\<close>. A terminated row is
  terminal for all of them except attachment and a plain status write.
\<close>

definition without_liveness_failures :: "catalog_entry \<Rightarrow> catalog_entry" where
  "without_liveness_failures e =
     e\<lparr>te_liveness_failures := 0, te_liveness_first_failed_at := None, te_liveness_last_failed_at := None,
       te_liveness_evidence := None, te_exit_evidence := None\<rparr>"

definition with_attachment :: "string \<Rightarrow> catalog_entry \<Rightarrow> catalog_entry" where
  "with_attachment attached_at e =
     (without_liveness_failures e)
       \<lparr>te_last_attached_at := attached_at, te_status := (if te_status e = SessLanded then SessLanded else SessRunning),
        te_terminated_at := None\<rparr>"

definition with_status :: "session_status \<Rightarrow> string option \<Rightarrow> catalog_entry \<Rightarrow> catalog_entry" where
  "with_status status stamp e =
     e\<lparr>te_status := status, te_terminated_at := (if status = SessTerminated then stamp else te_terminated_at e)\<rparr>"

definition with_task_binding :: "task_document_ref \<Rightarrow> string \<Rightarrow> catalog_entry \<Rightarrow> catalog_entry" where
  "with_task_binding document seat_role e = e\<lparr>te_task_document_ref := Some document, te_seat_role := Some seat_role\<rparr>"

text \<open>Why a seat stopped, when and on whose authority (\<^verbatim>\<open>SeatClosure\<close> of \<^verbatim>\<open>serving/retire.py\<close>).\<close>

record seat_closure =
  cl_at :: string
  cl_reason :: string
  cl_edge :: string
  cl_by_session :: "string option"

definition with_retirement :: "seat_closure \<Rightarrow> catalog_entry \<Rightarrow> catalog_entry" where
  "with_retirement closure e =
     (if te_status e = SessTerminated then e
      else e\<lparr>te_status := SessTerminated, te_terminated_at := Some (cl_at closure), te_retired_at := Some (cl_at closure),
             te_retired_by_session := cl_by_session closure, te_retired_reason := Some (cl_reason closure),
             te_retired_edge := Some (cl_edge closure)\<rparr>)"

definition with_landing :: "seat_closure \<Rightarrow> catalog_entry \<Rightarrow> catalog_entry" where
  "with_landing closure e =
     (if te_status e = SessTerminated then e
      else if te_status e = SessLanded then e
      else (without_liveness_failures e)
             \<lparr>te_status := SessLanded, te_landed_at := Some (cl_at closure), te_landed_reason := Some (cl_reason closure),
              te_landed_edge := Some (cl_edge closure)\<rparr>)"

definition with_label :: "string \<Rightarrow> catalog_entry \<Rightarrow> catalog_entry" where
  "with_label label e = e\<lparr>te_label := label, te_spawned_label := str_or (te_spawned_label e) (Some (te_label e))\<rparr>"

definition with_turn_state :: "seat_turn_state \<Rightarrow> string \<Rightarrow> catalog_entry \<Rightarrow> catalog_entry" where
  "with_turn_state state changed_at e =
     (if te_turn_state e = Some state then e
      else e\<lparr>te_turn_state := Some state, te_turn_state_changed_at := Some changed_at\<rparr>)"

subsection \<open>Liveness\<close>

record liveness_config =
  lv_failure_threshold :: int
  lv_minimum_failure_window_seconds :: seconds
  lv_pane_gone_failure_threshold :: int
  lv_sweep_interval_seconds :: seconds

definition DEFAULT_LIVENESS_HYSTERESIS :: liveness_config where
  "DEFAULT_LIVENESS_HYSTERESIS =
     \<lparr>lv_failure_threshold = 3, lv_minimum_failure_window_seconds = 5, lv_pane_gone_failure_threshold = 1,
      lv_sweep_interval_seconds = 10\<rparr>"

definition with_liveness_success :: "catalog_entry \<Rightarrow> catalog_entry" where
  "with_liveness_success e =
     (if te_status e = SessRunning \<and> te_liveness_failures e = 0 \<and> te_liveness_first_failed_at e = None \<and>
         te_liveness_last_failed_at e = None \<and> te_liveness_evidence e = None \<and> te_exit_evidence e = None
      then e
      else if te_status e = SessTerminated then e
      else if te_status e = SessLanded then without_liveness_failures e
      else (without_liveness_failures e)\<lparr>te_status := SessRunning\<rparr>)"

definition seconds_since_failure :: "iso_codec \<Rightarrow> string \<Rightarrow> datetime \<Rightarrow> seconds res" where
  "seconds_since_failure c first_failed_at checked_at =
     (case fromisoformat c first_failed_at of
        None \<Rightarrow> Inl (ValueError ''Invalid isoformat string'')
      | Some first \<Rightarrow> rbind (dt_sub checked_at first) (\<lambda>us. Inr (total_seconds us)))"

definition failure_limit :: "liveness_config \<Rightarrow> liveness_evidence \<Rightarrow> int" where
  "failure_limit config evidence =
     (if evidence = PaneGone then max 1 (lv_pane_gone_failure_threshold config) else max 1 (lv_failure_threshold config))"

definition failure_window :: "liveness_config \<Rightarrow> liveness_evidence \<Rightarrow> seconds" where
  "failure_window config evidence =
     max 0 (if evidence = PaneGone then 0 else lv_minimum_failure_window_seconds config)"

definition with_liveness_failure ::
  "iso_codec \<Rightarrow> liveness_config \<Rightarrow> liveness_evidence \<Rightarrow> datetime \<Rightarrow> catalog_entry \<Rightarrow> catalog_entry res" where
  "with_liveness_failure c config evidence checked_at e =
     (if te_status e \<noteq> SessRunning then Inr e
      else
        let checked_at_text = isoformat c checked_at;
            first_failed_at = the (str_or (te_liveness_first_failed_at e) (Some checked_at_text));
            failures = te_liveness_failures e + 1
        in rbind (if failure_limit config evidence \<le> failures
                  then rbind (seconds_since_failure c first_failed_at checked_at) (\<lambda>s. Inr (failure_window config evidence \<le> s))
                  else Inr False)
             (\<lambda>should_exit. Inr
               (e\<lparr>te_status := (if should_exit then SessExited else te_status e),
                  te_liveness_failures := failures,
                  te_liveness_first_failed_at := Some first_failed_at,
                  te_liveness_last_failed_at := Some checked_at_text,
                  te_liveness_evidence := Some evidence,
                  te_exit_evidence := (if should_exit then Some evidence else te_exit_evidence e)\<rparr>)))"

subsection \<open>Turn truth\<close>

record turn_evidence =
  tv_state :: seat_turn_state
  tv_changed_at :: string
  tv_terminal_outcome :: "terminal_outcome option"
  tv_terminal_outcome_at :: "string option"
  tv_terminal_evidence_id :: "string option"
  tv_interrupted_by :: "interrupt_origin option"

definition with_turn_evidence :: "turn_evidence \<Rightarrow> catalog_entry \<Rightarrow> catalog_entry" where
  "with_turn_evidence stamp e =
     e\<lparr>te_turn_state := Some (tv_state stamp),
       te_turn_state_changed_at :=
         (if Some (tv_state stamp) \<noteq> te_turn_state e then Some (tv_changed_at stamp) else te_turn_state_changed_at e),
       te_terminal_outcome := tv_terminal_outcome stamp,
       te_terminal_outcome_at := tv_terminal_outcome_at stamp,
       te_terminal_evidence_id := tv_terminal_evidence_id stamp,
       te_interrupted_by := tv_interrupted_by stamp\<rparr>"

definition with_state_signal_emitted :: "string \<Rightarrow> catalog_entry \<Rightarrow> catalog_entry" where
  "with_state_signal_emitted evidence_id e = e\<lparr>te_state_signal_emitted_for := Some evidence_id\<rparr>"

definition with_non_reaction_emitted :: "string \<Rightarrow> catalog_entry \<Rightarrow> catalog_entry" where
  "with_non_reaction_emitted row_id e = e\<lparr>te_non_reaction_emitted_for := Some row_id\<rparr>"

definition with_compound_idle_emitted :: "string \<Rightarrow> catalog_entry \<Rightarrow> catalog_entry" where
  "with_compound_idle_emitted signature e = e\<lparr>te_compound_idle_emitted_for := Some signature\<rparr>"

definition with_interrupt_request :: "interrupt_requester \<Rightarrow> string \<Rightarrow> string \<Rightarrow> catalog_entry \<Rightarrow> catalog_entry" where
  "with_interrupt_request requester stamp turn_id e =
     e\<lparr>te_interrupt_requested_by := Some requester, te_interrupt_requested_at := Some stamp,
       te_interrupt_requested_turn_id := Some turn_id\<rparr>"

definition with_terminal_cursors :: "int option \<Rightarrow> string option \<Rightarrow> catalog_entry \<Rightarrow> catalog_entry" where
  "with_terminal_cursors evidence_sequence native_cursor e =
     (let e1 = (case evidence_sequence of None \<Rightarrow> e | Some n \<Rightarrow> e\<lparr>te_terminal_evidence_sequence := Some n\<rparr>)
      in case native_cursor of None \<Rightarrow> e1 | Some x \<Rightarrow> e1\<lparr>te_terminal_native_cursor := Some x\<rparr>)"

subsection \<open>The row as the control plane sees it\<close>

text \<open>The fields of the seat protocols (\<^verbatim>\<open>controlplane/seats.py\<close>) and of the delivery, read off the row.\<close>

definition seat_of :: "catalog_entry \<Rightarrow> hosted_seat" where
  "seat_of e =
     \<lparr>seat_id = te_id e, seat_kind = session_kind_str (te_kind e), seat_status = session_status_str (te_status e),
      seat_lifecycle_id = te_lifecycle_id e, seat_created_at = te_created_at e, seat_last_attached_at = te_last_attached_at e,
      seat_landed_at = te_landed_at e, seat_task_document_ref = te_task_document_ref e,
      seat_replacement_for = te_replacement_for_task_document_ref e, seat_spawned_by_session = te_spawned_by_session e,
      seat_spawned_by_lifecycle = te_spawned_by_lifecycle e, seat_spawn_role = te_spawn_role e,
      seat_turn_state = map_option seat_turn_state_str (te_turn_state e), seat_turn_state_changed_at = te_turn_state_changed_at e,
      seat_binding_role = binding_role e, seat_binding_task_document_ref = binding_task_document_ref e,
      hs_tmux_name = te_tmux_name e, hs_control_state = map_option bridge_state_str (te_control_state e),
      hs_control_endpoint = map_option pp_parts (te_control_endpoint e), hs_prompt_keywords = te_prompt_keywords e\<rparr>"

end
