(* ===== verification/Catalog_Store.thy ===== *)
theory Catalog_Store
  imports Catalog_Codec Catalog_Transitions
begin

section \<open>The terminal catalog\<close>

text \<open>
  \<^verbatim>\<open>serving/terminal_catalog.py\<close>: the store of the hosted sessions, one JSON document under a stable lock, with a unit of work
  (\<^verbatim>\<open>batch\<close>) that reads once and writes once. Every mutator runs under the instance lock and the file lock, so each is one
  atomic step of a process; the get-and-upsert writers of \<^verbatim>\<open>serving/seat_turn_truth.py\<close> are two steps.

  The document is its parsed JSON (the key order of \<^verbatim>\<open>sort_keys\<close> is not kept: dictionaries compare without it). The validator
  of the declared row, the migration of the old schema and \<^verbatim>\<open>Path.resolve\<close> are arguments.
\<close>

datatype catalog_file = CatalogAbsent | CatalogBroken | CatalogDoc json

record catalog_state =
  cs_file :: catalog_file
  cs_batch :: "(catalog_entry list \<times> bool) option"

record catalog_env =
  ce_codec :: iso_codec
  ce_validate :: "json_object \<Rightarrow> json_object res"
  ce_migrate :: "json_object list \<Rightarrow> json_object list res"
  ce_resolve :: "pure_path \<Rightarrow> pure_path"

definition TERMINATED_RETENTION_SECONDS :: seconds where
  "TERMINATED_RETENTION_SECONDS = 86400"

definition SCHEMA_V1 :: string where
  "SCHEMA_V1 = ''ar-dashboard-terminal-sessions/v1''"

definition SCHEMA_V2 :: string where
  "SCHEMA_V2 = ''ar-dashboard-terminal-sessions/v2''"

subsection \<open>The file\<close>

fun load_catalog_json :: "catalog_file \<Rightarrow> json res" where
  "load_catalog_json (CatalogDoc v) = Inr v"
| "load_catalog_json _ = Inl (ValueError ''terminal catalog is not valid JSON'')"

definition decode_rows :: "catalog_env \<Rightarrow> json \<Rightarrow> json_object list \<Rightarrow> catalog_entry list res" where
  "decode_rows env schema rows =
     rbind (if schema = JStr SCHEMA_V1 then ce_migrate env rows
            else if schema = JStr SCHEMA_V2 then Inr rows
            else Inl (ValueError ''unsupported terminal catalog schema''))
       (\<lambda>migrated. rbind (rmap (ce_validate env) migrated) (rmap entry_from_json))"

definition read_disk :: "catalog_env \<Rightarrow> catalog_file \<Rightarrow> catalog_entry list res" where
  "read_disk env file =
     (if file = CatalogAbsent then Inr []
      else rbind (load_catalog_json file) (\<lambda>raw.
        case raw of
          JObj kvs \<Rightarrow>
            if fst ` set kvs \<noteq> {''schema'', ''sessions''}
            then Inl (ValueError ''terminal catalog envelope contains undeclared fields'')
            else (case dget kvs ''sessions'' of
                    Some (JList sessions) \<Rightarrow>
                      (case all_objects sessions of
                         None \<Rightarrow> Inl (ValueError ''terminal catalog sessions must contain objects only'')
                       | Some rows \<Rightarrow> decode_rows env (the (dget kvs ''schema'')) rows)
                  | _ \<Rightarrow> Inl (ValueError ''terminal catalog sessions must be a list''))
        | _ \<Rightarrow> Inr []))"

definition catalog_document :: "json_object list \<Rightarrow> json" where
  "catalog_document rows = JObj [(''schema'', JStr SCHEMA_V2), (''sessions'', JList (map JObj rows))]"

definition write_disk :: "catalog_env \<Rightarrow> catalog_entry list \<Rightarrow> (catalog_state, unit) prog" where
  "write_disk env entries =
     (let rows = map entry_to_json (sort_key te_created_at entries)
      in sbind (slift (rmap (ce_validate env) rows)) (\<lambda>_.
           smodify (\<lambda>s. s\<lparr>cs_file := CatalogDoc (catalog_document rows)\<rparr>)))"

subsection \<open>Reading and writing through the unit of work\<close>

definition cat_read :: "catalog_env \<Rightarrow> (catalog_state, catalog_entry list) prog" where
  "cat_read env = sget (\<lambda>s. case cs_batch s of Some (entries, _) \<Rightarrow> Inr entries | None \<Rightarrow> read_disk env (cs_file s))"

definition cat_write :: "catalog_env \<Rightarrow> catalog_entry list \<Rightarrow> (catalog_state, unit) prog" where
  "cat_write env entries s =
     (if cs_batch s = None then write_disk env entries s else (Inr (), s\<lparr>cs_batch := Some (entries, True)\<rparr>))"

definition cat_batch :: "catalog_env \<Rightarrow> (catalog_state, 'a) prog \<Rightarrow> (catalog_state, 'a) prog" where
  "cat_batch env body s =
     (if cs_batch s \<noteq> None then body s
      else case read_disk env (cs_file s) of
             Inl e \<Rightarrow> (Inl e, s)
           | Inr entries \<Rightarrow>
               (case body (s\<lparr>cs_batch := Some (entries, False)\<rparr>) of
                  (r, s1) \<Rightarrow>
                    let s2 = s1\<lparr>cs_batch := None\<rparr> in
                    (case cs_batch s1 of
                       Some (final, True) \<Rightarrow> (case write_disk env final s2 of (Inl e, s3) \<Rightarrow> (Inl e, s3) | (Inr _, s3) \<Rightarrow> (r, s3))
                     | _ \<Rightarrow> (r, s2))))"

subsection \<open>Queries\<close>

definition cat_list :: "catalog_env \<Rightarrow> bool \<Rightarrow> (catalog_state, catalog_entry list) prog" where
  "cat_list env include_terminated =
     sbind (cat_read env) (\<lambda>entries.
       sret (if include_terminated then entries else filter (\<lambda>e. te_status e \<noteq> SessTerminated) entries))"

definition cat_get :: "catalog_env \<Rightarrow> string \<Rightarrow> (catalog_state, catalog_entry option) prog" where
  "cat_get env session_id = sbind (cat_read env) (\<lambda>entries. sret (find (\<lambda>e. te_id e = session_id) entries))"

definition active_for_task :: "catalog_env \<Rightarrow> task_document_ref \<Rightarrow> string \<Rightarrow> (catalog_state, catalog_entry option) prog" where
  "active_for_task env document seat_role =
     sbind (cat_list env False) (\<lambda>entries.
       let occupants = filter (\<lambda>e. te_task_document_ref e = Some document \<and> te_status e = SessRunning \<and>
                                   binding_role e = seat_role) entries
       in if 1 < length occupants then slift (Inl (ValueError ''multiple running occupants''))
          else sret (case occupants of [] \<Rightarrow> None | e # _ \<Rightarrow> Some e))"

subsection \<open>Mutators\<close>

fun index_of :: "catalog_entry list \<Rightarrow> string \<Rightarrow> nat option" where
  "index_of [] session_id = None"
| "index_of (e # es) session_id = (if te_id e = session_id then Some 0 else map_option Suc (index_of es session_id))"

text \<open>
  What the mutators of one row share: the row is looked up under the lock, a missing one answers \<^verbatim>\<open>None\<close>, and the list is written
  back when \<open>writes\<close> says so of the old and the new row.
\<close>

definition edit_row ::
  "catalog_env \<Rightarrow> string \<Rightarrow> (catalog_entry \<Rightarrow> catalog_entry res) \<Rightarrow> (catalog_entry \<Rightarrow> catalog_entry \<Rightarrow> bool) \<Rightarrow>
   (catalog_state, catalog_entry option) prog" where
  "edit_row env session_id f writes =
     sbind (cat_read env) (\<lambda>entries.
       case index_of entries session_id of
         None \<Rightarrow> sret None
       | Some i \<Rightarrow>
           sbind (slift (f (entries ! i))) (\<lambda>updated.
             if writes (entries ! i) updated
             then sbind (cat_write env (entries[i := updated])) (\<lambda>_. sret (Some updated))
             else sret (Some updated)))"

definition upsert :: "catalog_env \<Rightarrow> catalog_entry \<Rightarrow> (catalog_state, unit) prog" where
  "upsert env entry =
     sbind (cat_read env) (\<lambda>entries. cat_write env (filter (\<lambda>e. te_id e \<noteq> te_id entry) entries @ [entry]))"

definition mark_attached :: "catalog_env \<Rightarrow> string \<Rightarrow> string \<Rightarrow> (catalog_state, catalog_entry option) prog" where
  "mark_attached env session_id attached_at =
     edit_row env session_id (\<lambda>e. Inr (with_attachment attached_at e)) (\<lambda>_ _. True)"

definition mark_exited :: "catalog_env \<Rightarrow> string \<Rightarrow> (catalog_state, catalog_entry option) prog" where
  "mark_exited env session_id =
     edit_row env session_id
       (\<lambda>e. Inr (if te_status e \<in> {SessLanded, SessTerminated} then e else with_status SessExited None e))
       (\<lambda>e _. te_status e \<notin> {SessLanded, SessTerminated})"

definition record_liveness_probe ::
  "catalog_env \<Rightarrow> string \<Rightarrow> bool \<Rightarrow> datetime \<Rightarrow> liveness_evidence option \<Rightarrow> liveness_config \<Rightarrow>
   (catalog_state, catalog_entry option) prog" where
  "record_liveness_probe env session_id alive checked_at evidence hysteresis =
     edit_row env session_id
       (\<lambda>e. if alive then Inr (with_liveness_success e)
            else case evidence of
                   None \<Rightarrow> Inr e
                 | Some ev \<Rightarrow> with_liveness_failure (ce_codec env) hysteresis ev checked_at e)
       (\<lambda>e u. u \<noteq> e)"

definition mark_terminated :: "catalog_env \<Rightarrow> string \<Rightarrow> string \<Rightarrow> (catalog_state, catalog_entry option) prog" where
  "mark_terminated env session_id terminated_at =
     edit_row env session_id (\<lambda>e. Inr (with_status SessTerminated (Some terminated_at) e)) (\<lambda>_ _. True)"

definition mark_retired :: "catalog_env \<Rightarrow> string \<Rightarrow> seat_closure \<Rightarrow> (catalog_state, catalog_entry option) prog" where
  "mark_retired env session_id closure = edit_row env session_id (\<lambda>e. Inr (with_retirement closure e)) (\<lambda>e u. u \<noteq> e)"

definition mark_session_landed :: "catalog_env \<Rightarrow> string \<Rightarrow> seat_closure \<Rightarrow> (catalog_state, catalog_entry option) prog" where
  "mark_session_landed env session_id closure = edit_row env session_id (\<lambda>e. Inr (with_landing closure e)) (\<lambda>e u. u \<noteq> e)"

definition set_label :: "catalog_env \<Rightarrow> string \<Rightarrow> string \<Rightarrow> (catalog_state, catalog_entry option) prog" where
  "set_label env session_id label = edit_row env session_id (\<lambda>e. Inr (with_label label e)) (\<lambda>_ _. True)"

definition bind_session_log :: "catalog_env \<Rightarrow> string \<Rightarrow> string \<Rightarrow> pure_path \<Rightarrow> (catalog_state, catalog_entry option) prog" where
  "bind_session_log env session_id entry_id log_path =
     edit_row env session_id
       (\<lambda>e. Inr (e\<lparr>te_session_log_entry_id := Some entry_id, te_session_log_path := Some (ce_resolve env log_path)\<rparr>))
       (\<lambda>_ _. True)"

definition record_turn_state :: "catalog_env \<Rightarrow> string \<Rightarrow> seat_turn_state \<Rightarrow> string \<Rightarrow> (catalog_state, catalog_entry option) prog" where
  "record_turn_state env session_id state changed_at =
     edit_row env session_id (\<lambda>e. Inr (with_turn_state state changed_at e)) (\<lambda>e u. u \<noteq> e)"

definition terminated_beyond :: "iso_codec \<Rightarrow> catalog_entry \<Rightarrow> clock \<Rightarrow> seconds \<Rightarrow> bool" where
  "terminated_beyond c e now retain_seconds =
     (case te_terminated_at e of
        None \<Rightarrow> False
      | Some stamp \<Rightarrow> (case age_seconds c stamp now of None \<Rightarrow> False | Some age \<Rightarrow> retain_seconds < age))"

definition cat_compact :: "catalog_env \<Rightarrow> clock \<Rightarrow> seconds \<Rightarrow> (catalog_state, nat) prog" where
  "cat_compact env now retain_seconds =
     sbind (cat_read env) (\<lambda>entries.
       let kept = filter (\<lambda>e. \<not> (te_status e = SessTerminated \<and> terminated_beyond (ce_codec env) e now retain_seconds)) entries
       in if length kept = length entries then sret 0
          else sbind (cat_write env kept) (\<lambda>_. sret (length entries - length kept)))"

subsection \<open>Get, then upsert\<close>

text \<open>The writers of \<^verbatim>\<open>serving/seat_turn_truth.py\<close>: a lock-free read, and later a locked write of the whole row.\<close>

definition save_changed :: "catalog_env \<Rightarrow> catalog_entry \<Rightarrow> catalog_entry \<Rightarrow> (catalog_state, unit) prog" where
  "save_changed env entry updated = (if updated \<noteq> entry then upsert env updated else sret ())"

definition record_turn_projection :: "catalog_env \<Rightarrow> string \<Rightarrow> turn_evidence \<Rightarrow> (catalog_state, catalog_entry option) prog" where
  "record_turn_projection env session_id stamp =
     sbind (cat_get env session_id) (\<lambda>found.
       case found of
         None \<Rightarrow> sret None
       | Some entry \<Rightarrow>
           sbind (save_changed env entry (with_turn_evidence stamp entry)) (\<lambda>_. sret (Some (with_turn_evidence stamp entry))))"

definition record_terminal_cursors :: "catalog_env \<Rightarrow> string \<Rightarrow> int option \<Rightarrow> string option \<Rightarrow> (catalog_state, unit) prog" where
  "record_terminal_cursors env session_id evidence_sequence native_cursor =
     sbind (cat_get env session_id) (\<lambda>found.
       case found of
         None \<Rightarrow> sret ()
       | Some entry \<Rightarrow> save_changed env entry (with_terminal_cursors evidence_sequence native_cursor entry))"

definition record_state_signal_emitted :: "catalog_env \<Rightarrow> string \<Rightarrow> string \<Rightarrow> (catalog_state, unit) prog" where
  "record_state_signal_emitted env session_id evidence_id =
     sbind (cat_get env session_id) (\<lambda>found.
       case found of
         None \<Rightarrow> sret ()
       | Some entry \<Rightarrow>
           if te_state_signal_emitted_for entry = Some evidence_id then sret ()
           else upsert env (with_state_signal_emitted evidence_id entry))"

definition record_non_reaction_emitted :: "catalog_env \<Rightarrow> string \<Rightarrow> string \<Rightarrow> (catalog_state, unit) prog" where
  "record_non_reaction_emitted env session_id row_id =
     sbind (cat_get env session_id) (\<lambda>found.
       case found of
         None \<Rightarrow> sret ()
       | Some entry \<Rightarrow>
           if te_non_reaction_emitted_for entry = Some row_id then sret ()
           else upsert env (with_non_reaction_emitted row_id entry))"

definition record_compound_idle_emitted :: "catalog_env \<Rightarrow> string \<Rightarrow> string \<Rightarrow> (catalog_state, unit) prog" where
  "record_compound_idle_emitted env session_id signature =
     sbind (cat_get env session_id) (\<lambda>found.
       case found of
         None \<Rightarrow> sret ()
       | Some entry \<Rightarrow>
           if te_compound_idle_emitted_for entry = Some signature then sret ()
           else upsert env (with_compound_idle_emitted signature entry))"

definition record_interrupt_request ::
  "catalog_env \<Rightarrow> string \<Rightarrow> interrupt_requester \<Rightarrow> string \<Rightarrow> string \<Rightarrow> (catalog_state, unit) prog" where
  "record_interrupt_request env session_id requester stamp turn_id =
     sbind (cat_get env session_id) (\<lambda>found.
       case found of
         None \<Rightarrow> sret ()
       | Some entry \<Rightarrow> save_changed env entry (with_interrupt_request requester stamp turn_id entry))"

end
