(* ===== verification/Catalog_Refinement.thy ===== *)
theory Catalog_Refinement
  imports Catalog_Store
begin

section \<open>The catalog as a map of rows\<close>

text \<open>
  The abstract catalog is a partial map from session ids to canonical rows. A store state holds a map when what the next locked
  read returns is a list of well-formed rows with distinct ids that represents it; the unit of work and the file are two
  representations of the same map, and every operation does to the map what its specification says, in either of them.
\<close>

subsection \<open>The operations as values\<close>

datatype catalog_op =
    OpUpsert catalog_entry
  | OpAttach string string
  | OpExit string
  | OpProbe string bool datetime "liveness_evidence option" liveness_config
  | OpTerminate string string
  | OpRetire string seat_closure
  | OpLand string seat_closure
  | OpLabel string string
  | OpBindLog string string pure_path
  | OpTurn string seat_turn_state string
  | OpCompact clock seconds

definition discard :: "('s, 'a) prog \<Rightarrow> ('s, unit) prog" where
  "discard m = sbind m (\<lambda>_. sret ())"

fun cat_exec :: "catalog_env \<Rightarrow> catalog_op \<Rightarrow> (catalog_state, unit) prog" where
  "cat_exec env (OpUpsert e) = upsert env e"
| "cat_exec env (OpAttach k stamp) = discard (mark_attached env k stamp)"
| "cat_exec env (OpExit k) = discard (mark_exited env k)"
| "cat_exec env (OpProbe k alive stamp ev cfg) = discard (record_liveness_probe env k alive stamp ev cfg)"
| "cat_exec env (OpTerminate k stamp) = discard (mark_terminated env k stamp)"
| "cat_exec env (OpRetire k cl) = discard (mark_retired env k cl)"
| "cat_exec env (OpLand k cl) = discard (mark_session_landed env k cl)"
| "cat_exec env (OpLabel k l) = discard (set_label env k l)"
| "cat_exec env (OpBindLog k j p) = discard (bind_session_log env k j p)"
| "cat_exec env (OpTurn k st stamp) = discard (record_turn_state env k st stamp)"
| "cat_exec env (OpCompact now retain) = discard (cat_compact env now retain)"

fun cat_run :: "catalog_env \<Rightarrow> catalog_op list \<Rightarrow> (catalog_state, unit) prog" where
  "cat_run env [] = sret ()"
| "cat_run env (op # ops) = sbind (cat_exec env op) (\<lambda>_. cat_run env ops)"

subsection \<open>The specification\<close>

type_synonym catalog_map = "string \<rightharpoonup> catalog_entry"

fun row_change :: "catalog_env \<Rightarrow> catalog_op \<Rightarrow> (string \<times> (catalog_entry \<Rightarrow> catalog_entry res)) option" where
  "row_change env (OpAttach k stamp) = Some (k, \<lambda>e. Inr (with_attachment stamp e))"
| "row_change env (OpExit k) = Some (k, \<lambda>e. Inr (if te_status e \<in> {SessLanded, SessTerminated} then e else with_status SessExited None e))"
| "row_change env (OpProbe k alive stamp ev cfg) =
     Some (k, \<lambda>e. if alive then Inr (with_liveness_success e)
                  else case ev of None \<Rightarrow> Inr e | Some x \<Rightarrow> with_liveness_failure (ce_codec env) cfg x stamp e)"
| "row_change env (OpTerminate k stamp) = Some (k, \<lambda>e. Inr (with_status SessTerminated (Some stamp) e))"
| "row_change env (OpRetire k cl) = Some (k, \<lambda>e. Inr (with_retirement cl e))"
| "row_change env (OpLand k cl) = Some (k, \<lambda>e. Inr (with_landing cl e))"
| "row_change env (OpLabel k l) = Some (k, \<lambda>e. Inr (with_label l e))"
| "row_change env (OpBindLog k j p) =
     Some (k, \<lambda>e. Inr (e\<lparr>te_session_log_entry_id := Some j, te_session_log_path := Some (ce_resolve env p)\<rparr>))"
| "row_change env (OpTurn k st stamp) = Some (k, \<lambda>e. Inr (with_turn_state st stamp e))"
| "row_change env _ = None"

definition reclaimable :: "catalog_env \<Rightarrow> clock \<Rightarrow> seconds \<Rightarrow> catalog_entry \<Rightarrow> bool" where
  "reclaimable env now retain e \<longleftrightarrow> te_status e = SessTerminated \<and> terminated_beyond (ce_codec env) e now retain"

definition change_row :: "string \<Rightarrow> (catalog_entry \<Rightarrow> catalog_entry res) \<Rightarrow> catalog_map \<Rightarrow> catalog_map res" where
  "change_row k f m = (case m k of None \<Rightarrow> Inr m | Some e \<Rightarrow> rbind (f e) (\<lambda>u. Inr (m(k \<mapsto> canonical_entry u))))"

definition spec_exec :: "catalog_env \<Rightarrow> catalog_op \<Rightarrow> catalog_map \<Rightarrow> catalog_map res" where
  "spec_exec env op m =
     (case op of
        OpUpsert e \<Rightarrow> Inr (m(te_id e \<mapsto> canonical_entry e))
      | OpCompact now retain \<Rightarrow> Inr (\<lambda>k. case m k of None \<Rightarrow> None | Some e \<Rightarrow> if reclaimable env now retain e then None else Some e)
      | _ \<Rightarrow> (case row_change env op of None \<Rightarrow> Inr m | Some (k, f) \<Rightarrow> change_row k f m))"

text \<open>Exit evidence stays with a row that exited, also when it is terminated later.\<close>

definition entry_row_ok :: "catalog_entry \<Rightarrow> bool" where
  "entry_row_ok e \<longleftrightarrow> entry_ok e \<and> (te_exit_evidence e \<noteq> None \<longrightarrow> te_status e \<in> {SessExited, SessTerminated})"

fun op_ok :: "catalog_env \<Rightarrow> catalog_op \<Rightarrow> bool" where
  "op_ok env (OpUpsert e) = entry_row_ok e"
| "op_ok env (OpBindLog k j p) = path_ok (ce_resolve env p)"
| "op_ok env _ = True"

text \<open>What the declared model promises of the validator: a row that conforms validates to the same dictionary.\<close>

definition validator_faithful :: "catalog_env \<Rightarrow> bool" where
  "validator_faithful env \<longleftrightarrow> (\<forall>row. wire_conforms row \<longrightarrow> (\<exists>row'. ce_validate env row = Inr row' \<and> map_of row' = map_of row))"

definition rows_ok :: "catalog_entry list \<Rightarrow> bool" where
  "rows_ok es \<longleftrightarrow> list_all entry_row_ok es \<and> distinct (map te_id es)"

definition catalog_rows :: "catalog_entry list \<Rightarrow> catalog_map" where
  "catalog_rows es = map_of (map (\<lambda>e. (te_id e, canonical_entry e)) es)"

definition holds :: "catalog_env \<Rightarrow> catalog_state \<Rightarrow> catalog_map \<Rightarrow> bool" where
  "holds env s m \<longleftrightarrow>
     (\<exists>es. fst (cat_read env s) = Inr es \<and> rows_ok es \<and> catalog_rows es = m) \<and>
     (\<forall>es. cs_batch s = Some (es, False) \<longrightarrow> read_disk env (cs_file s) = Inr es)"

subsection \<open>Canonical rows\<close>

lemma canonical_frame [simp]:
  "te_id (canonical_entry e) = te_id e" "te_status (canonical_entry e) = te_status e"
  "te_kind (canonical_entry e) = te_kind e" "te_terminated_at (canonical_entry e) = te_terminated_at e"
  "te_created_at (canonical_entry e) = te_created_at e" "entry_ok (canonical_entry e) = entry_ok e"
  by (simp_all add: canonical_entry_def entry_ok_def)

lemma canonical_fields [simp]:
  "te_seat_role (canonical_entry e) = Some (binding_role e)" "te_spawn_role (canonical_entry e) = te_spawn_role e"
  "te_exit_evidence (canonical_entry e) = (if te_status e = SessExited then te_exit_evidence e else None)"
  by (simp_all add: canonical_entry_def)

lemma binding_role_canonical [simp]: "binding_role (canonical_entry e) = binding_role e"
  by (subst binding_role_def) (simp add: binding_role_stable)

lemma canonical_idem [simp]: "canonical_entry (canonical_entry e) = canonical_entry e"
proof -
  have "canonical_entry (canonical_entry e) = (canonical_entry e)\<lparr>te_seat_role := Some (binding_role e),
      te_exit_evidence := (if te_status e = SessExited then te_exit_evidence e else None)\<rparr>"
    by (subst canonical_entry_def) simp
  also have "\<dots> = canonical_entry e" by (simp add: canonical_entry_def)
  finally show ?thesis .
qed

text \<open>Every change of a row sees only its canonical form, keeps the id and stays in the value domain.\<close>

definition canon :: "catalog_entry res \<Rightarrow> catalog_entry res" where
  "canon r = rbind r (\<lambda>u. Inr (canonical_entry u))"

lemma migrated_role_stable [simp]: "migrated_seat_role (Some (migrated_seat_role a r k)) r' k = migrated_seat_role a r k"
  by (auto simp: migrated_seat_role_def clean_role_def lit_or_def TERMINAL_SEAT_ROLE_def LEGACY_CHAT_SEAT_ROLE_def
      split: option.splits if_splits)

text \<open>A row without the two fields the writer normalizes, and when two rows have the same canonical form.\<close>

definition row_core :: "catalog_entry \<Rightarrow> catalog_entry" where
  "row_core e = e\<lparr>te_seat_role := None, te_exit_evidence := None\<rparr>"

lemma canonical_core:
  "canonical_entry e = (row_core e)\<lparr>te_seat_role := Some (binding_role e),
     te_exit_evidence := (if te_status e = SessExited then te_exit_evidence e else None)\<rparr>"
  by (simp add: canonical_entry_def row_core_def)

lemma row_core_frame: "te_status (row_core e) = te_status e"
  by (simp add: row_core_def)

lemma canonical_eqI:
  assumes "row_core e = row_core e'" "binding_role e = binding_role e'" "te_status e' = SessExited \<Longrightarrow> te_exit_evidence e = te_exit_evidence e'"
  shows "canonical_entry e = canonical_entry e'"
proof -
  from assms(1) row_core_frame have "te_status e = te_status e'" by metis
  with assms show ?thesis by (simp add: canonical_core)
qed

lemmas row_change_defs = with_status_def with_attachment_def without_liveness_failures_def with_retirement_def with_landing_def
  with_label_def with_turn_state_def with_liveness_success_def

lemma entry_row_ok_canonical [simp]: "entry_row_ok e \<Longrightarrow> entry_row_ok (canonical_entry e)"
  by (auto simp: entry_row_ok_def)

lemmas canonical_simps = row_core_def binding_role_def canonical_entry_def

lemma changes_canonical:
  "canonical_entry (with_status SessTerminated x (canonical_entry e)) = canonical_entry (with_status SessTerminated x e)"
  "canonical_entry (with_attachment stamp (canonical_entry e)) = canonical_entry (with_attachment stamp e)"
  "canonical_entry (with_label l (canonical_entry e)) = canonical_entry (with_label l e)"
  "canonical_entry ((canonical_entry e)\<lparr>te_session_log_entry_id := j, te_session_log_path := q\<rparr>) =
   canonical_entry (e\<lparr>te_session_log_entry_id := j, te_session_log_path := q\<rparr>)"
  by (rule canonical_eqI; simp add: row_change_defs canonical_simps)+

lemma with_status_exited_canonical:
  "entry_row_ok e \<Longrightarrow> te_status e \<noteq> SessTerminated \<Longrightarrow>
   canonical_entry (with_status SessExited x (canonical_entry e)) = canonical_entry (with_status SessExited x e)"
  by (rule canonical_eqI) (auto simp: row_change_defs canonical_simps entry_row_ok_def)

lemma with_retirement_canonical: "canonical_entry (with_retirement cl (canonical_entry e)) = canonical_entry (with_retirement cl e)"
proof (cases "te_status e = SessTerminated")
  case False
  then show ?thesis by (intro canonical_eqI) (simp_all add: row_change_defs canonical_simps)
qed (simp add: row_change_defs)

lemma with_landing_canonical: "canonical_entry (with_landing cl (canonical_entry e)) = canonical_entry (with_landing cl e)"
proof (cases "te_status e \<in> {SessTerminated, SessLanded}")
  case False
  then show ?thesis by (intro canonical_eqI) (simp_all add: row_change_defs canonical_simps)
qed (auto simp: row_change_defs)

lemma with_turn_state_canonical: "canonical_entry (with_turn_state ts stamp (canonical_entry e)) = canonical_entry (with_turn_state ts stamp e)"
proof (cases "te_turn_state e = Some ts")
  case True
  then have "te_turn_state (canonical_entry e) = Some ts" by (simp add: canonical_entry_def)
  with True show ?thesis by (simp add: with_turn_state_def)
next
  case False
  then show ?thesis by (intro canonical_eqI) (simp_all add: row_change_defs canonical_simps)
qed

lemma with_liveness_success_form:
  "with_liveness_success e =
     (if te_status e = SessTerminated then e
      else if te_status e = SessLanded then without_liveness_failures e
      else (without_liveness_failures e)\<lparr>te_status := SessRunning\<rparr>)"
proof (cases "te_status e = SessRunning \<and> te_liveness_failures e = 0 \<and> te_liveness_first_failed_at e = None \<and>
    te_liveness_last_failed_at e = None \<and> te_liveness_evidence e = None \<and> te_exit_evidence e = None")
  case True
  then have "(without_liveness_failures e)\<lparr>te_status := SessRunning\<rparr> = e"
    by (intro catalog_entry.equality) (simp_all add: without_liveness_failures_def)
  then show ?thesis using True by (simp only: with_liveness_success_def if_True) simp
next
  case False
  then show ?thesis unfolding with_liveness_success_def by (simp only: if_False)
qed

lemma with_liveness_success_canonical:
  "canonical_entry (with_liveness_success (canonical_entry e)) = canonical_entry (with_liveness_success e)"
proof (cases "te_status e = SessTerminated")
  case False
  have "canonical_entry (without_liveness_failures (canonical_entry e)) = canonical_entry (without_liveness_failures e)"
    "canonical_entry ((without_liveness_failures (canonical_entry e))\<lparr>te_status := SessRunning\<rparr>) =
     canonical_entry ((without_liveness_failures e)\<lparr>te_status := SessRunning\<rparr>)"
    by (rule canonical_eqI; simp add: row_change_defs canonical_simps)+
  with False show ?thesis by (simp add: with_liveness_success_form)
qed (simp add: with_liveness_success_form)

lemma with_liveness_failure_canonical:
  "canon (with_liveness_failure c cfg ev stamp (canonical_entry e)) = canon (with_liveness_failure c cfg ev stamp e)"
proof (cases "te_status e = SessRunning")
  case True
  have same: "te_liveness_failures (canonical_entry e) = te_liveness_failures e"
    "te_liveness_first_failed_at (canonical_entry e) = te_liveness_first_failed_at e" by (simp_all add: canonical_entry_def)
  have upd: "canonical_entry ((canonical_entry e)\<lparr>te_status := (if b then SessExited else SessRunning), te_liveness_failures := n,
      te_liveness_first_failed_at := x, te_liveness_last_failed_at := y, te_liveness_evidence := v,
      te_exit_evidence := (if b then v else te_exit_evidence (canonical_entry e))\<rparr>) =
    canonical_entry (e\<lparr>te_status := (if b then SessExited else SessRunning), te_liveness_failures := n,
      te_liveness_first_failed_at := x, te_liveness_last_failed_at := y, te_liveness_evidence := v,
      te_exit_evidence := (if b then v else te_exit_evidence e)\<rparr>)" for b n x y v
    using True by (intro canonical_eqI) (cases b; simp add: canonical_simps)+
  show ?thesis using True
    by (simp only: with_liveness_failure_def canonical_frame same Let_def canon_def rbind_assoc rbind_simps upd simp_thms if_False)
qed (simp add: with_liveness_failure_def canon_def)

text \<open>The row changes keep the id and the value domain.\<close>

lemma row_change_id:
  "te_id (with_attachment s e) = te_id e" "te_id (with_status st x e) = te_id e" "te_id (with_liveness_success e) = te_id e"
  "te_id (with_retirement cl e) = te_id e" "te_id (with_landing cl e) = te_id e" "te_id (with_label l e) = te_id e"
  "te_id (with_turn_state ts s e) = te_id e"
  by (simp_all add: row_change_defs)

lemma entry_ok_changes:
  assumes "entry_ok e"
  shows "entry_ok (with_attachment s e)" "entry_ok (with_status st x e)" "entry_ok (with_liveness_success e)"
    "entry_ok (with_retirement cl e)" "entry_ok (with_landing cl e)" "entry_ok (with_label l e)" "entry_ok (with_turn_state ts s e)"
    "path_ok q \<Longrightarrow> entry_ok (e\<lparr>te_session_log_entry_id := j, te_session_log_path := Some q\<rparr>)"
  using assms by (simp_all add: row_change_defs entry_ok_def)

lemma entry_row_ok_changes:
  assumes "entry_row_ok e"
  shows "entry_row_ok (with_attachment s e)" "st \<in> {SessExited, SessTerminated} \<Longrightarrow> entry_row_ok (with_status st x e)"
    "entry_row_ok (with_liveness_success e)" "entry_row_ok (with_retirement cl e)" "entry_row_ok (with_landing cl e)"
    "entry_row_ok (with_label l e)" "entry_row_ok (with_turn_state ts s e)"
    "path_ok q \<Longrightarrow> entry_row_ok (e\<lparr>te_session_log_entry_id := j, te_session_log_path := Some q\<rparr>)"
proof -
  from assms have e: "entry_ok e" and kept: "te_exit_evidence e \<noteq> None \<longrightarrow> te_status e \<in> {SessExited, SessTerminated}"
    by (simp_all add: entry_row_ok_def)
  note ok = entry_ok_changes [OF e]
  show "entry_row_ok (with_attachment s e)" unfolding entry_row_ok_def using ok(1) by (simp add: row_change_defs)
  show "entry_row_ok (with_status st x e)" if "st \<in> {SessExited, SessTerminated}"
    unfolding entry_row_ok_def using ok(2) that by (simp add: with_status_def)
  show "entry_row_ok (with_liveness_success e)" unfolding entry_row_ok_def using ok(3) kept by (simp add: row_change_defs)
  show "entry_row_ok (with_retirement cl e)" unfolding entry_row_ok_def using ok(4) kept by (simp add: row_change_defs)
  show "entry_row_ok (with_landing cl e)" unfolding entry_row_ok_def using ok(5) kept by (cases "te_exit_evidence e") (auto simp: row_change_defs)
  show "entry_row_ok (with_label l e)" unfolding entry_row_ok_def using ok(6) kept by (simp add: row_change_defs)
  show "entry_row_ok (with_turn_state ts s e)" unfolding entry_row_ok_def using ok(7) kept by (simp add: row_change_defs)
  show "entry_row_ok (e\<lparr>te_session_log_entry_id := j, te_session_log_path := Some q\<rparr>)" if "path_ok q"
    unfolding entry_row_ok_def using ok(8) [OF that] kept by simp
qed

lemma liveness_row_ok:
  assumes "entry_ok e" "te_exit_evidence e = None" "te_status e = SessRunning"
  shows "entry_row_ok (e\<lparr>te_status := (if b then SessExited else te_status e), te_liveness_failures := te_liveness_failures e + 1,
      te_liveness_first_failed_at := x, te_liveness_last_failed_at := y, te_liveness_evidence := v,
      te_exit_evidence := (if b then v else te_exit_evidence e)\<rparr>)"
  using assms by (cases b) (simp_all add: entry_row_ok_def entry_ok_def)

lemma with_liveness_failure_ok:
  assumes "with_liveness_failure c cfg ev stamp e = Inr u" "entry_row_ok e"
  shows "entry_row_ok u \<and> te_id u = te_id e"
proof (cases "te_status e = SessRunning")
  case True
  with assms(2) have e: "entry_ok e" "te_exit_evidence e = None" by (simp_all add: entry_row_ok_def)
  from assms(1) True show ?thesis
    using liveness_row_ok [OF e True]
    by (simp only: with_liveness_failure_def Let_def rbind_eq_Inr simp_thms if_False sum.inject) (elim exE conjE, hypsubst, simp only: simp_thms, simp)
qed (use assms in \<open>simp add: with_liveness_failure_def\<close>)

lemma row_change_ok:
  assumes "row_change env op = Some (k, f)" "op_ok env op" "entry_row_ok e" "f e = Inr u"
  shows "entry_row_ok u \<and> te_id u = te_id e"
proof (cases op)
  case (OpProbe j alive stamp ev cfg)
  with assms show ?thesis
    by (cases alive; cases ev) (auto simp: entry_row_ok_changes row_change_id dest: with_liveness_failure_ok)
qed (use assms in \<open>auto simp: entry_row_ok_changes row_change_id split: if_splits\<close>)

lemma row_change_canonical:
  assumes "row_change env op = Some (k, f)" "entry_row_ok e"
  shows "canon (f (canonical_entry e)) = canon (f e)"
proof (cases op)
  case (OpExit j)
  with assms show ?thesis
    by (cases "te_status e \<in> {SessLanded, SessTerminated}") (auto simp: canon_def with_status_exited_canonical)
next
  case (OpProbe j alive stamp ev cfg)
  with assms show ?thesis
    using with_liveness_failure_canonical [unfolded canon_def]
    by (auto simp: with_liveness_success_canonical canon_def split: option.split)
qed (use assms in \<open>auto simp: canon_def changes_canonical with_retirement_canonical with_landing_canonical with_turn_state_canonical\<close>)

end
