(* ===== verification/Catalog_Agreement.thy ===== *)
theory Catalog_Agreement
  imports Catalog_Refinement
begin

section \<open>The store does what the specification says\<close>

text \<open>
  What a locked write stores is what the next locked read returns, as a map of canonical rows, in a unit of work and on disk
  alike; so every operation takes a state that holds a map to one that holds the specified map, and a unit of work commits the
  map it built.
\<close>

subsection \<open>Lists of rows as maps\<close>

lemma rows_ok_simps [simp]: "rows_ok []" "rows_ok (e # es) \<longleftrightarrow> entry_row_ok e \<and> te_id e \<notin> te_id ` set es \<and> rows_ok es"
  by (auto simp: rows_ok_def)

lemma catalog_rows_simps [simp]:
  "catalog_rows [] = Map.empty" "catalog_rows (e # es) = (catalog_rows es)(te_id e \<mapsto> canonical_entry e)"
  by (simp_all add: catalog_rows_def)

lemma catalog_rows_dom: "catalog_rows es k = None \<longleftrightarrow> k \<notin> te_id ` set es"
  by (induction es) auto

lemma catalog_rows_Some: "rows_ok es \<Longrightarrow> catalog_rows es k = Some r \<longleftrightarrow> r \<in> canonical_entry ` set es \<and> te_id r = k"
  by (auto simp: catalog_rows_def rows_ok_def map_of_eq_Some_iff o_def)

lemma option_eqI: "(\<And>r. x = Some r \<longleftrightarrow> y = Some r) \<Longrightarrow> x = y"
  by (cases y) (metis option.exhaust, simp)

lemma catalog_rows_set:
  assumes "rows_ok es" "rows_ok es'" "canonical_entry ` set es = canonical_entry ` set es'"
  shows "catalog_rows es = catalog_rows es'"
proof (rule ext)
  fix k
  show "catalog_rows es k = catalog_rows es' k"
    by (rule option_eqI) (simp add: catalog_rows_Some [OF assms(1)] catalog_rows_Some [OF assms(2)] assms(3))
qed

definition stored_rows :: "catalog_entry list \<Rightarrow> catalog_entry list" where
  "stored_rows es = map canonical_entry (sort_key te_created_at es)"

lemma stored_rows_ok:
  assumes "rows_ok es"
  shows "rows_ok (stored_rows es)" "catalog_rows (stored_rows es) = catalog_rows es"
proof -
  have "distinct (map te_id (sort_key te_created_at es))" using assms by (simp add: rows_ok_def distinct_map)
  then show ok: "rows_ok (stored_rows es)" using assms by (auto simp: rows_ok_def stored_rows_def list_all_iff o_def)
  show "catalog_rows (stored_rows es) = catalog_rows es"
    by (rule catalog_rows_set [OF ok assms]) (auto simp: stored_rows_def image_image)
qed

lemma canonical_row: "rows_ok es \<Longrightarrow> catalog_rows es k = Some r \<Longrightarrow> canonical_entry r = r \<and> entry_row_ok r \<and> te_id r = k"
  by (auto simp: catalog_rows_Some rows_ok_def list_all_iff)

subsection \<open>The file\<close>

lemma entry_from_json_cong:
  assumes "map_of a = map_of b"
  shows "entry_from_json a = entry_from_json b"
  by (simp add: entry_from_json_def required_str_def optional_str_def optional_path_def optional_task_document_ref_def assms cong del: if_weak_cong)

lemma all_objects_JObj: "all_objects (map JObj rows) = Some rows"
  by (induction rows) (simp_all add: optional_object_def)

lemma decode_written:
  assumes "validator_faithful env" "list_all entry_ok es"
  shows "\<exists>vs. rmap (ce_validate env) (map entry_to_json es) = Inr vs \<and> rmap entry_from_json vs = Inr (map canonical_entry es)"
  using assms(2)
proof (induction es)
  case (Cons e es)
  then obtain vs where vs: "rmap (ce_validate env) (map entry_to_json es) = Inr vs" "rmap entry_from_json vs = Inr (map canonical_entry es)"
    by auto
  from Cons.prems entry_conforms have "wire_conforms (entry_to_json e)" by simp
  with assms(1) obtain row where row: "ce_validate env (entry_to_json e) = Inr row" "map_of row = map_of (entry_to_json e)"
    by (auto simp: validator_faithful_def)
  from entry_from_json_cong [OF row(2)] entry_round_trip Cons.prems have "entry_from_json row = Inr (canonical_entry e)" by simp
  with vs row(1) show ?case by simp
qed simp

lemma write_disk_reads_back:
  assumes "validator_faithful env" "rows_ok es"
  obtains s' where "write_disk env es s = (Inr (), s')" "read_disk env (cs_file s') = Inr (stored_rows es)" "cs_batch s' = cs_batch s"
proof -
  let ?rows = "map entry_to_json (sort_key te_created_at es)"
  have "list_all entry_ok (sort_key te_created_at es)" using assms(2) by (auto simp: rows_ok_def entry_row_ok_def list_all_iff)
  from decode_written [OF assms(1) this] obtain vs where vs: "rmap (ce_validate env) ?rows = Inr vs"
    "rmap entry_from_json vs = Inr (stored_rows es)" by (auto simp: stored_rows_def)
  let ?s = "s\<lparr>cs_file := CatalogDoc (catalog_document ?rows)\<rparr>"
  have "write_disk env es s = (Inr (), ?s)" by (simp add: write_disk_def Let_def vs(1))
  moreover have "read_disk env (cs_file ?s) = Inr (stored_rows es)"
  proof -
    have keys: "fst ` set [(''schema'', JStr SCHEMA_V2), (''sessions'', JList (map JObj ?rows))] = {''schema'', ''sessions''}" by auto
    have "decode_rows env (JStr SCHEMA_V2) ?rows = Inr (stored_rows es)"
      by (simp add: decode_rows_def SCHEMA_V1_def SCHEMA_V2_def vs)
    with all_objects_JObj [of ?rows] show ?thesis by (simp add: read_disk_def catalog_document_def)
  qed
  ultimately show thesis using that by simp
qed

subsection \<open>Locked reads and writes\<close>

lemma cat_read_state: "cat_read env s = (fst (cat_read env s), s)"
  by (simp add: cat_read_def sget_def)

lemma holds_read:
  assumes "holds env s m"
  obtains es where "cat_read env s = (Inr es, s)" "rows_ok es" "catalog_rows es = m"
  using assms cat_read_state [of env s] that by (auto simp: holds_def)

lemma cat_write_holds:
  assumes "validator_faithful env" "rows_ok es"
  obtains s' where "cat_write env es s = (Inr (), s')" "holds env s' (catalog_rows es)" "(cs_batch s' = None) = (cs_batch s = None)"
proof (cases "cs_batch s")
  case None
  obtain s' where s': "write_disk env es s = (Inr (), s')" "read_disk env (cs_file s') = Inr (stored_rows es)" "cs_batch s' = cs_batch s"
    by (rule write_disk_reads_back [OF assms])
  then have "holds env s' (catalog_rows es)" using None stored_rows_ok [OF assms(2)] by (simp add: holds_def cat_read_def sget_def)
  with s' None that show thesis by (simp add: cat_write_def)
next
  case (Some b)
  have "holds env (s\<lparr>cs_batch := Some (es, True)\<rparr>) (catalog_rows es)" using assms(2) by (simp add: holds_def cat_read_def sget_def)
  then show thesis by (rule that [rotated]) (simp_all add: cat_write_def Some)
qed

subsection \<open>One operation\<close>

text \<open>A program on the store does what the specification answers: the same error with nothing changed, or the specified map.\<close>

definition refines_step :: "catalog_env \<Rightarrow> catalog_state \<Rightarrow> (catalog_state, unit) prog \<Rightarrow> catalog_map res \<Rightarrow> bool" where
  "refines_step env s p r \<longleftrightarrow>
     (case r of
        Inl x \<Rightarrow> p s = (Inl x, s)
      | Inr m \<Rightarrow> (\<exists>s'. p s = (Inr (), s') \<and> holds env s' m \<and> (cs_batch s' = None) = (cs_batch s = None)))"

lemma index_of_Some: "index_of es k = Some i \<Longrightarrow> i < length es \<and> te_id (es ! i) = k"
  by (induction es arbitrary: i) (auto split: if_splits)

lemma index_of_None: "index_of es k = None \<longleftrightarrow> k \<notin> te_id ` set es"
  by (induction es) auto

lemma rows_update:
  assumes "rows_ok es" "i < length es" "entry_row_ok u" "te_id u = te_id (es ! i)"
  shows "rows_ok (es[i := u])" "catalog_rows (es[i := u]) = (catalog_rows es)(te_id u \<mapsto> canonical_entry u)"
proof -
  have ids: "map te_id (es[i := u]) = map te_id es" using assms(2,4) by (simp add: map_update list_update_same_conv)
  have "entry_row_ok e" if "e \<in> set (es[i := u])" for e
    using that assms(1,3) set_update_subset_insert [of es i u] by (auto simp: rows_ok_def list_all_iff)
  with ids assms(1) show ok: "rows_ok (es[i := u])" by (simp add: rows_ok_def list_all_iff)
  show "catalog_rows (es[i := u]) = (catalog_rows es)(te_id u \<mapsto> canonical_entry u)"
    using assms(1,2,4)
  proof (induction es arbitrary: i)
    case (Cons e es)
    show ?case
    proof (cases i)
      case (Suc n)
      with Cons.prems have "te_id (es ! n) \<in> te_id ` set es" by simp
      with Cons.prems(1) have "te_id (es ! n) \<noteq> te_id e" by (metis rows_ok_simps(2))
      moreover from Cons Suc have "catalog_rows (es[n := u]) = (catalog_rows es)(te_id u \<mapsto> canonical_entry u)" by (simp add: fun_upd_def)
      ultimately show ?thesis using Suc Cons.prems(3) by (simp add: fun_eq_iff)
    qed (use Cons.prems in \<open>simp add: fun_eq_iff\<close>)
  qed simp
qed

lemma edit_row_refines:
  assumes "validator_faithful env" "holds env s m"
    "\<And>e u. entry_row_ok e \<Longrightarrow> f e = Inr u \<Longrightarrow> entry_row_ok u \<and> te_id u = te_id e"
    "\<And>e. entry_row_ok e \<Longrightarrow> canon (f (canonical_entry e)) = canon (f e)"
    "\<And>e u. f e = Inr u \<Longrightarrow> \<not> writes e u \<Longrightarrow> u = e"
  shows "refines_step env s (discard (edit_row env k f writes)) (change_row k f m)"
proof -
  obtain es where es: "cat_read env s = (Inr es, s)" "rows_ok es" "catalog_rows es = m" by (rule holds_read [OF assms(2)])
  show ?thesis
  proof (cases "index_of es k")
    case None
    then have "m k = None" using es(3) catalog_rows_dom [of es k] by (simp add: index_of_None)
    then show ?thesis using None assms(2)
      by (simp add: refines_step_def change_row_def discard_def edit_row_def sbind_Inr [of "cat_read env", OF es(1)] sbind_assoc)
  next
    case (Some i)
    let ?e = "es ! i"
    from index_of_Some [OF Some] have i: "i < length es" "te_id ?e = k" by auto
    with es(2) have ok: "entry_row_ok ?e" by (simp add: rows_ok_def list_all_iff)
    have mk: "m k = Some (canonical_entry ?e)" using es(2,3) i by (auto simp: catalog_rows_Some)
    have run: "discard (edit_row env k f writes) s =
      discard (sbind (slift (f ?e)) (\<lambda>u. if writes ?e u then sbind (cat_write env (es[i := u])) (\<lambda>_. sret (Some u)) else sret (Some u))) s"
      using Some by (simp add: discard_def edit_row_def sbind_Inr [of "cat_read env", OF es(1)] sbind_assoc)
    show ?thesis
    proof (cases "f ?e")
      case (Inl x)
      with assms(4) [OF ok] have "f (canonical_entry ?e) = Inl x" by (cases "f (canonical_entry ?e)") (auto simp: canon_def)
      with Inl mk run show ?thesis by (simp add: refines_step_def change_row_def discard_def sbind_def slift_def)
    next
      case (Inr u)
      from assms(3) [OF ok Inr] i have u: "entry_row_ok u" "te_id u = k" by auto
      from assms(4) [OF ok] Inr have chg: "change_row k f m = Inr (m(k \<mapsto> canonical_entry u))"
        using mk by (cases "f (canonical_entry ?e)") (auto simp: canon_def change_row_def)
      note upd = rows_update [OF es(2) i(1) u(1)]
      show ?thesis
      proof (cases "writes ?e u")
        case True
        obtain s' where s': "cat_write env (es[i := u]) s = (Inr (), s')" "holds env s' (catalog_rows (es[i := u]))"
          "(cs_batch s' = None) = (cs_batch s = None)" by (rule cat_write_holds [OF assms(1) upd(1)]) (use u i in auto)
        then show ?thesis using True Inr chg run upd(2) u i es(3)
          by (simp add: refines_step_def discard_def sbind_Inr)
      next
        case False
        with assms(5) Inr have "u = ?e" by blast
        with mk have "m(k \<mapsto> canonical_entry u) = m" by auto
        with False Inr chg run assms(2) show ?thesis by (simp add: refines_step_def discard_def)
      qed
    qed
  qed
qed

lemma upsert_refines:
  assumes "validator_faithful env" "holds env s m" "entry_row_ok e"
  shows "refines_step env s (upsert env e) (Inr (m(te_id e \<mapsto> canonical_entry e)))"
proof -
  obtain es where es: "cat_read env s = (Inr es, s)" "rows_ok es" "catalog_rows es = m" by (rule holds_read [OF assms(2)])
  let ?es = "filter (\<lambda>x. te_id x \<noteq> te_id e) es @ [e]"
  have ok: "rows_ok ?es" using es(2) assms(3) by (auto simp: rows_ok_def distinct_map_filter list_all_iff)
  have rows: "catalog_rows ?es = m(te_id e \<mapsto> canonical_entry e)"
  proof (rule ext)
    fix k
    show "catalog_rows ?es k = (m(te_id e \<mapsto> canonical_entry e)) k"
    proof (cases "k = te_id e")
      case True
      then show ?thesis using catalog_rows_Some [OF ok, of k "canonical_entry e"] by simp
    next
      case False
      have "catalog_rows ?es k = m k" unfolding es(3) [symmetric]
        by (rule option_eqI) (use False in \<open>auto simp: catalog_rows_Some [OF ok] catalog_rows_Some [OF es(2)]\<close>)
      with False show ?thesis by simp
    qed
  qed
  obtain s' where "cat_write env ?es s = (Inr (), s')" "holds env s' (catalog_rows ?es)" "(cs_batch s' = None) = (cs_batch s = None)"
    by (rule cat_write_holds [OF assms(1) ok])
  then show ?thesis unfolding rows by (simp add: refines_step_def upsert_def sbind_Inr [of "cat_read env", OF es(1)])
qed

lemma compact_refines:
  assumes "validator_faithful env" "holds env s m"
  shows "refines_step env s (discard (cat_compact env now retain)) (spec_exec env (OpCompact now retain) m)"
proof -
  obtain es where es: "cat_read env s = (Inr es, s)" "rows_ok es" "catalog_rows es = m" by (rule holds_read [OF assms(2)])
  let ?kept = "filter (\<lambda>e. \<not> reclaimable env now retain e) es"
  let ?m = "\<lambda>k. case m k of None \<Rightarrow> None | Some e \<Rightarrow> if reclaimable env now retain e then None else Some e"
  have canon: "reclaimable env now retain (canonical_entry e) = reclaimable env now retain e" for e
    by (simp add: reclaimable_def terminated_beyond_def)
  have ok: "rows_ok ?kept" using es(2) by (auto simp: rows_ok_def distinct_map_filter list_all_iff)
  have rows: "catalog_rows ?kept = ?m"
  proof (rule ext)
    fix k
    have "canonical_entry ` set ?kept = {r \<in> canonical_entry ` set es. \<not> reclaimable env now retain r}" using canon by auto
    moreover have "?m k = Some r \<longleftrightarrow> m k = Some r \<and> \<not> reclaimable env now retain r" for r by (auto split: option.split)
    ultimately show "catalog_rows ?kept k = ?m k"
      by (intro option_eqI) (simp only: catalog_rows_Some [OF ok] es(3) [symmetric] catalog_rows_Some [OF es(2)] mem_Collect_eq, blast)
  qed
  have spec: "spec_exec env (OpCompact now retain) m = Inr ?m" by (simp add: spec_exec_def)
  have run: "discard (cat_compact env now retain) s =
      (if length ?kept = length es then (Inr (), s) else sbind (cat_write env ?kept) (\<lambda>_. sret ()) s)"
    by (simp add: discard_def cat_compact_def sbind_assoc sbind_Inr [of "cat_read env", OF es(1)] reclaimable_def Let_def)
  show ?thesis
  proof (cases "length ?kept = length es")
    case True
    then have "?kept = es" by (simp add: length_filter_eq filter_id_conv)
    with rows es(3) assms(2) spec run True show ?thesis by (simp add: refines_step_def)
  next
    case False
    obtain s' where "cat_write env ?kept s = (Inr (), s')" "holds env s' (catalog_rows ?kept)" "(cs_batch s' = None) = (cs_batch s = None)"
      by (rule cat_write_holds [OF assms(1) ok])
    with False run spec rows show ?thesis by (simp add: refines_step_def sbind_Inr)
  qed
qed

text \<open>When the mutator of an operation on one row writes.\<close>

fun row_writes :: "catalog_op \<Rightarrow> catalog_entry \<Rightarrow> catalog_entry \<Rightarrow> bool" where
  "row_writes (OpExit k) = (\<lambda>e u. te_status e \<notin> {SessLanded, SessTerminated})"
| "row_writes (OpProbe k alive stamp ev cfg) = (\<lambda>e u. u \<noteq> e)"
| "row_writes (OpRetire k cl) = (\<lambda>e u. u \<noteq> e)"
| "row_writes (OpLand k cl) = (\<lambda>e u. u \<noteq> e)"
| "row_writes (OpTurn k st stamp) = (\<lambda>e u. u \<noteq> e)"
| "row_writes _ = (\<lambda>e u. True)"

lemma cat_exec_edit:
  assumes "row_change env op = Some (k, f)"
  shows "cat_exec env op = discard (edit_row env k f (row_writes op))" and "f e = Inr u \<Longrightarrow> \<not> row_writes op e u \<Longrightarrow> u = e"
    and "spec_exec env op m = change_row k f m"
proof -
  note mutators = mark_attached_def mark_exited_def record_liveness_probe_def mark_terminated_def mark_retired_def
    mark_session_landed_def set_label_def bind_session_log_def record_turn_state_def
  show "cat_exec env op = discard (edit_row env k f (row_writes op))"
    using assms by (cases op) (auto simp: mutators)
  show "f e = Inr u \<Longrightarrow> \<not> row_writes op e u \<Longrightarrow> u = e" using assms by (cases op) auto
  show "spec_exec env op m = change_row k f m" using assms by (cases op) (auto simp: spec_exec_def)
qed

lemma cat_exec_refines:
  assumes "validator_faithful env" "holds env s m" "op_ok env op"
  shows "refines_step env s (cat_exec env op) (spec_exec env op m)"
proof (cases "row_change env op")
  case (Some kf)
  obtain k f where kf: "row_change env op = Some (k, f)" using Some by (cases kf) simp
  show ?thesis unfolding cat_exec_edit(1,3) [OF kf]
  proof (rule edit_row_refines [OF assms(1,2)])
    show "entry_row_ok u \<and> te_id u = te_id e" if "entry_row_ok e" "f e = Inr u" for e u using row_change_ok [OF kf assms(3) that] by blast
    show "canon (f (canonical_entry e)) = canon (f e)" if "entry_row_ok e" for e by (rule row_change_canonical [OF kf that])
    show "u = e" if "f e = Inr u" "\<not> row_writes op e u" for e u by (rule cat_exec_edit(2) [OF kf that])
  qed
next
  case None
  then show ?thesis
  proof (cases op)
    case (OpUpsert e)
    with upsert_refines [OF assms(1,2)] assms(3) show ?thesis by (simp add: spec_exec_def)
  next
    case (OpCompact now retain)
    with compact_refines [OF assms(1,2)] show ?thesis by simp
  qed simp_all
qed

subsection \<open>Sequences and the unit of work\<close>

text \<open>A sequence on the map: it stops at the first error and keeps what came before.\<close>

definition spec_step :: "catalog_env \<Rightarrow> catalog_op \<Rightarrow> (catalog_map, unit) prog" where
  "spec_step env op m = (case spec_exec env op m of Inl x \<Rightarrow> (Inl x, m) | Inr m' \<Rightarrow> (Inr (), m'))"

fun spec_run :: "catalog_env \<Rightarrow> catalog_op list \<Rightarrow> (catalog_map, unit) prog" where
  "spec_run env [] = sret ()"
| "spec_run env (op # ops) = sbind (spec_step env op) (\<lambda>_. spec_run env ops)"

lemma cat_run_refines:
  assumes "validator_faithful env" "holds env s m" "list_all (op_ok env) ops"
  shows "\<exists>s'. cat_run env ops s = (fst (spec_run env ops m), s') \<and> holds env s' (snd (spec_run env ops m)) \<and>
    (cs_batch s' = None) = (cs_batch s = None)"
  using assms(2,3)
proof (induction ops arbitrary: s m)
  case (Cons op ops)
  from Cons.prems have step: "refines_step env s (cat_exec env op) (spec_exec env op m)" by (intro cat_exec_refines [OF assms(1)]) simp_all
  show ?case
  proof (cases "spec_exec env op m")
    case (Inl x)
    with step Cons.prems show ?thesis by (auto simp: refines_step_def spec_step_def sbind_def)
  next
    case (Inr m')
    with step obtain s1 where s1: "cat_exec env op s = (Inr (), s1)" "holds env s1 m'" "(cs_batch s1 = None) = (cs_batch s = None)"
      by (auto simp: refines_step_def)
    from Cons.IH [OF s1(2)] Cons.prems(2) s1(1,3) Inr show ?thesis by (auto simp: spec_step_def sbind_def)
  qed
qed (simp add: sret_def)

lemma cat_batch_refines:
  assumes "validator_faithful env" "holds env s m" "list_all (op_ok env) ops" "cs_batch s = None"
  shows "\<exists>s'. cat_batch env (cat_run env ops) s = (fst (spec_run env ops m), s') \<and> holds env s' (snd (spec_run env ops m)) \<and>
    cs_batch s' = None"
proof -
  from assms(2,4) obtain es where es: "read_disk env (cs_file s) = Inr es" "rows_ok es" "catalog_rows es = m"
    by (auto simp: holds_def cat_read_def sget_def)
  let ?s0 = "s\<lparr>cs_batch := Some (es, False)\<rparr>"
  have "holds env ?s0 m" using es by (simp add: holds_def cat_read_def sget_def)
  from cat_run_refines [OF assms(1) this assms(3)] obtain s1 where s1: "cat_run env ops ?s0 = (fst (spec_run env ops m), s1)"
    "holds env s1 (snd (spec_run env ops m))" "cs_batch s1 \<noteq> None" by auto
  from s1(3) obtain final dirty where b: "cs_batch s1 = Some (final, dirty)" by auto
  with s1(2) have final: "rows_ok final" "catalog_rows final = snd (spec_run env ops m)" by (auto simp: holds_def cat_read_def sget_def)
  show ?thesis
  proof (cases dirty)
    case True
    obtain s' where s': "write_disk env final (s1\<lparr>cs_batch := None\<rparr>) = (Inr (), s')" "read_disk env (cs_file s') = Inr (stored_rows final)"
      "cs_batch s' = cs_batch (s1\<lparr>cs_batch := None\<rparr>)" by (rule write_disk_reads_back [OF assms(1) final(1)])
    then have "holds env s' (snd (spec_run env ops m))" using stored_rows_ok [OF final(1)] final(2)
      by (simp add: holds_def cat_read_def sget_def)
    with s' True b s1(1) es(1) assms(4) show ?thesis by (simp add: cat_batch_def Let_def)
  next
    case False
    with s1(2) b have "read_disk env (cs_file s1) = Inr final" by (simp add: holds_def)
    then have "holds env (s1\<lparr>cs_batch := None\<rparr>) (snd (spec_run env ops m))" using final by (simp add: holds_def cat_read_def sget_def)
    with False b s1(1) es(1) assms(4) show ?thesis by (simp add: cat_batch_def Let_def)
  qed
qed

end
