(* ===== verification/Catalog_Properties.thy ===== *)
theory Catalog_Properties
  imports Catalog_Agreement Delivery_Properties
begin

section \<open>Properties of the terminal catalog\<close>

text \<open>
  What is written is read back; every operation refines its specification on a map of rows, and a unit of work commits what the
  same operations would have left one by one; a terminated seat stays terminated and gets no mail; a seat exits only on enough
  consecutive failed probes; and a row written from an old read undoes a retirement.
\<close>

subsection \<open>A concrete catalog\<close>

definition ex_entry_row :: catalog_entry where
  "ex_entry_row = projr (entry_from_json
     [(''id'', JStr ''a''), (''label'', JStr ''seat''), (''kind'', JStr ''harness''), (''cwd'', JStr ''/w''), (''tmuxName'', JStr ''t''),
      (''command'', JList []), (''createdAt'', JStr ''0''), (''lastAttachedAt'', JStr ''0''), (''status'', JStr ''running'')])"

definition reference_validator :: "json_object \<Rightarrow> json_object res" where
  "reference_validator row = (if wire_conforms row then Inr row else Inl (ValidationError ''TerminalCatalogEntryWire''))"

definition ex_catalog_env :: catalog_env where
  "ex_catalog_env = \<lparr>ce_codec = micro_codec, ce_validate = reference_validator, ce_migrate = Inr, ce_resolve = (\<lambda>p. p)\<rparr>"

definition ex_closure :: seat_closure where
  "ex_closure = \<lparr>cl_at = ''5'', cl_reason = ''leaf complete'', cl_edge = ''manual'', cl_by_session = None\<rparr>"

lemma ex_validator: "validator_faithful ex_catalog_env"
  by (auto simp: validator_faithful_def ex_catalog_env_def reference_validator_def)

lemma ex_entry_row_core:
  "(te_id ex_entry_row, te_status ex_entry_row, te_exit_evidence ex_entry_row, te_cwd ex_entry_row, te_session_log_path ex_entry_row,
    te_control_endpoint ex_entry_row, te_task_document_ref ex_entry_row, te_replacement_for_task_document_ref ex_entry_row,
    te_control_last_event_sequence ex_entry_row, te_terminal_evidence_sequence ex_entry_row, te_liveness_failures ex_entry_row,
    te_liveness_first_failed_at ex_entry_row) =
   (''a'', SessRunning, None, \<lparr>pp_root = ''/'', pp_parts = [''w'']\<rparr>, None, None, None, None, None, None, 0, None)"
  by code_simp

lemma ex_entry_row_facts: "te_id ex_entry_row = ''a''" "te_status ex_entry_row = SessRunning" "te_exit_evidence ex_entry_row = None"
  using ex_entry_row_core by simp_all

lemma ex_entry_row_domain: "te_cwd ex_entry_row = \<lparr>pp_root = ''/'', pp_parts = [''w'']\<rparr>" "te_session_log_path ex_entry_row = None"
  "te_control_endpoint ex_entry_row = None" "te_task_document_ref ex_entry_row = None" "te_replacement_for_task_document_ref ex_entry_row = None"
  "te_control_last_event_sequence ex_entry_row = None" "te_terminal_evidence_sequence ex_entry_row = None" "te_liveness_failures ex_entry_row = 0"
  "te_liveness_first_failed_at ex_entry_row = None"
  using ex_entry_row_core by simp_all

lemma ex_entry_row_ok: "entry_row_ok ex_entry_row"
  by (simp add: entry_row_ok_def entry_ok_def path_ok_def ex_entry_row_facts ex_entry_row_domain)

definition ex_catalog_state :: catalog_state where
  "ex_catalog_state = \<lparr>cs_file = CatalogAbsent, cs_batch = None\<rparr>"

lemma ex_holds_empty: "holds ex_catalog_env ex_catalog_state Map.empty"
  by (auto simp: holds_def ex_catalog_state_def cat_read_def sget_def read_disk_def)

subsection \<open>The round trip\<close>

text \<open>
  Claim C25: What the catalog writes it reads back. Writing a list of well-formed rows with distinct ids passes the validation of the
  declared row and leaves a document whose reading is the same rows in the order of their creation, in canonical form (the seat role
  resolved, the exit evidence kept on exited rows only).
\<close>

theorem catalog_round_trip:
  assumes "validator_faithful env" "rows_ok es"
  shows "\<exists>s'. write_disk env es s = (Inr (), s') \<and> read_disk env (cs_file s') = Inr (map canonical_entry (sort_key te_created_at es))"
  using write_disk_reads_back [OF assms, of s thesis for thesis] by (auto simp: stored_rows_def)

theorem catalog_round_trip_witness:
  "\<exists>s'. write_disk ex_catalog_env [ex_entry_row] ex_catalog_state = (Inr (), s') \<and>
     read_disk ex_catalog_env (cs_file s') = Inr [canonical_entry ex_entry_row]"
  using catalog_round_trip [OF ex_validator, of "[ex_entry_row]" ex_catalog_state] ex_entry_row_ok by simp

subsection \<open>Refinement and the unit of work\<close>

text \<open>
  Claim C26: The catalog refines a map of rows. From a state that holds a map, in a unit of work or on disk, a sequence of operations
  answers what the specification answers on the map, an error included, and leaves a state that holds the specified map.
\<close>

theorem catalog_refines_map:
  assumes "validator_faithful env" "holds env s m" "list_all (op_ok env) ops"
  shows "\<exists>s'. cat_run env ops s = (fst (spec_run env ops m), s') \<and> holds env s' (snd (spec_run env ops m))"
  using cat_run_refines [OF assms] by blast

theorem catalog_refines_map_witness:
  "\<exists>s'. cat_run ex_catalog_env [OpUpsert ex_entry_row, OpRetire ''a'' ex_closure] ex_catalog_state = (Inr (), s') \<and>
     holds ex_catalog_env s' [''a'' \<mapsto> canonical_entry (with_retirement ex_closure (canonical_entry ex_entry_row))]"
proof -
  have "spec_run ex_catalog_env [OpUpsert ex_entry_row, OpRetire ''a'' ex_closure] Map.empty =
      (Inr (), [''a'' \<mapsto> canonical_entry (with_retirement ex_closure (canonical_entry ex_entry_row))])"
    by (simp add: spec_step_def spec_exec_def change_row_def ex_entry_row_facts sbind_def)
  with catalog_refines_map [OF ex_validator ex_holds_empty, of "[OpUpsert ex_entry_row, OpRetire ''a'' ex_closure]"] ex_entry_row_ok show ?thesis by simp
qed

text \<open>
  Claim C27: A unit of work is worth its operations. Running a sequence inside a batch, which reads the file once and writes it at most
  once, answers what running it operation by operation answers, and both leave the same map of rows, also when an operation fails.
\<close>

theorem batch_equals_operations:
  assumes "validator_faithful env" "holds env s m" "list_all (op_ok env) ops" "cs_batch s = None"
  shows "\<exists>r s1 s2 m'. cat_run env ops s = (r, s1) \<and> cat_batch env (cat_run env ops) s = (r, s2) \<and> holds env s1 m' \<and> holds env s2 m' \<and>
    cs_batch s2 = None"
  using cat_run_refines [OF assms(1-3)] cat_batch_refines [OF assms] by blast

theorem batch_equals_operations_witness:
  "\<exists>r s1 s2 m'. cat_run ex_catalog_env [OpUpsert ex_entry_row] ex_catalog_state = (r, s1) \<and>
     cat_batch ex_catalog_env (cat_run ex_catalog_env [OpUpsert ex_entry_row]) ex_catalog_state = (r, s2) \<and>
     holds ex_catalog_env s1 m' \<and> holds ex_catalog_env s2 m' \<and> cs_batch s2 = None"
  using batch_equals_operations [OF ex_validator ex_holds_empty, of "[OpUpsert ex_entry_row]"] ex_entry_row_ok by (simp add: ex_catalog_state_def)

subsection \<open>Terminated rows\<close>

fun revives :: "string \<Rightarrow> catalog_op \<Rightarrow> bool" where
  "revives k (OpUpsert e) = (te_id e = k)"
| "revives k (OpAttach j stamp) = (j = k)"
| "revives k _ = False"

definition provenance :: "catalog_entry \<Rightarrow> string option \<times> string option \<times> string option \<times> string option" where
  "provenance e = (te_retired_at e, te_retired_by_session e, te_retired_reason e, te_retired_edge e)"

text \<open>The row is gone, or terminated with the provenance \<open>p\<close>.\<close>

definition closed_as :: "catalog_map \<Rightarrow> string \<Rightarrow> string option \<times> string option \<times> string option \<times> string option \<Rightarrow> bool" where
  "closed_as m k p \<longleftrightarrow> (case m k of None \<Rightarrow> True | Some e \<Rightarrow> te_status e = SessTerminated \<and> provenance e = p)"

lemma change_keeps_terminated:
  assumes "row_change env op = Some (j, f)" "\<not> revives j op" "f e = Inr u" "te_status e = SessTerminated"
  shows "te_status (canonical_entry u) = SessTerminated \<and> provenance (canonical_entry u) = provenance e"
  using assms
  by (cases op; auto simp: provenance_def canonical_entry_def row_change_defs with_liveness_failure_def split: if_splits option.splits)

lemma spec_exec_keeps_closed:
  assumes "spec_exec env op m = Inr m'" "\<not> revives k op" "closed_as m k p"
  shows "closed_as m' k p"
proof (cases "row_change env op")
  case (Some jf)
  obtain j f where jf: "row_change env op = Some (j, f)" using Some by (cases jf) simp
  have "change_row j f m = Inr m'" using assms(1) cat_exec_edit(3) [OF jf] by simp
  then show ?thesis
  proof (cases "m j")
    case (Some e)
    with \<open>change_row j f m = Inr m'\<close> obtain u where u: "f e = Inr u" "m' = m(j \<mapsto> canonical_entry u)"
      by (auto simp: change_row_def rbind_eq_Inr)
    show ?thesis
    proof (cases "j = k")
      case True
      with Some assms(3) have "te_status e = SessTerminated" "provenance e = p" by (auto simp: closed_as_def)
      with change_keeps_terminated [OF jf _ u(1)] True assms(2) u(2) show ?thesis by (simp add: closed_as_def)
    qed (use u(2) assms(3) in \<open>simp add: closed_as_def\<close>)
  qed (use assms(3) in \<open>simp add: change_row_def\<close>)
next
  case None
  with assms show ?thesis by (cases op) (auto simp: spec_exec_def closed_as_def split: option.splits if_splits)
qed

lemma spec_run_keeps_closed:
  "\<forall>op\<in>set ops. \<not> revives k op \<Longrightarrow> closed_as m k p \<Longrightarrow> closed_as (snd (spec_run env ops m)) k p"
proof (induction ops arbitrary: m)
  case (Cons op ops)
  then show ?case using spec_exec_keeps_closed [of env op m _ k p] by (auto simp: spec_step_def sbind_def split: sum.split)
qed (simp add: sret_def)

text \<open>
  Claim C28: A terminated row stays terminated. Whatever probes, landings, retirements, renames, turn states, exits, bindings and
  compactions follow, in any number and order and by any process, a row that is terminated stays terminated with its retirement
  provenance, or is reclaimed; it does not run again unless it is attached or written whole.
\<close>

theorem terminated_row_stays_terminated:
  assumes "validator_faithful env" "holds env s m" "list_all (op_ok env) ops" "\<forall>op\<in>set ops. \<not> revives k op"
    "m k = Some e" "te_status e = SessTerminated"
  shows "\<exists>m'. holds env (snd (cat_run env ops s)) m' \<and>
    (case m' k of None \<Rightarrow> True | Some e' \<Rightarrow> te_status e' = SessTerminated \<and> provenance e' = provenance e)"
proof -
  have "closed_as m k (provenance e)" using assms(5,6) by (simp add: closed_as_def)
  from spec_run_keeps_closed [OF assms(4) this] cat_run_refines [OF assms(1-3)] show ?thesis by (auto simp: closed_as_def)
qed

theorem terminated_row_stays_terminated_witness:
  "\<exists>s m'. holds ex_catalog_env (snd (cat_run ex_catalog_env [OpProbe ''a'' True (utc 9) None DEFAULT_LIVENESS_HYSTERESIS] s)) m' \<and>
     (case m' ''a'' of None \<Rightarrow> True | Some e' \<Rightarrow> te_status e' = SessTerminated \<and> provenance e' = provenance (with_retirement ex_closure ex_entry_row))"
proof -
  let ?e = "canonical_entry (with_retirement ex_closure ex_entry_row)"
  have st: "te_status ?e = SessTerminated" and prov: "provenance ?e = provenance (with_retirement ex_closure ex_entry_row)"
    by (simp_all add: with_retirement_def ex_entry_row_facts provenance_def canonical_entry_def)
  have "entry_row_ok (with_retirement ex_closure ex_entry_row)" using ex_entry_row_ok by (simp add: with_retirement_def entry_row_ok_def entry_ok_def)
  moreover have "spec_run ex_catalog_env [OpUpsert (with_retirement ex_closure ex_entry_row)] Map.empty = (Inr (), [''a'' \<mapsto> ?e])"
    by (simp add: spec_step_def spec_exec_def sbind_def sret_def ex_entry_row_facts with_retirement_def)
  ultimately obtain s where s: "holds ex_catalog_env s [''a'' \<mapsto> ?e]"
    using cat_run_refines [OF ex_validator ex_holds_empty, of "[OpUpsert (with_retirement ex_closure ex_entry_row)]"] by auto
  show ?thesis
    using terminated_row_stays_terminated [OF ex_validator s, of "[OpProbe ''a'' True (utc 9) None DEFAULT_LIVENESS_HYSTERESIS]" "''a''" ?e] st
    unfolding prov by (intro exI [of _ s]) simp
qed

subsection \<open>The hysteresis\<close>

text \<open>Probes of one row in order: the evidence of a failed one (none: the session was alive) and its time.\<close>

type_synonym probe = "liveness_evidence option \<times> datetime"

definition probe_op :: "string \<Rightarrow> liveness_config \<Rightarrow> probe \<Rightarrow> catalog_op" where
  "probe_op k cfg p = OpProbe k (fst p = None) (snd p) (fst p) cfg"

definition all_failed :: "probe list \<Rightarrow> bool" where
  "all_failed ps \<longleftrightarrow> list_all (\<lambda>p. fst p \<noteq> None) ps"

definition stamps_ok :: "iso_codec \<Rightarrow> probe list \<Rightarrow> bool" where
  "stamps_ok c ps \<longleftrightarrow> list_all (\<lambda>p. iso_reads_back c (snd p) \<and> isoformat c (snd p) \<noteq> '''') ps"

text \<open>
  Somewhere in the probes a run of failures, not interrupted since, reached the limit of its last evidence and spanned the window.
\<close>

definition exited_by :: "liveness_config \<Rightarrow> probe list \<Rightarrow> bool" where
  "exited_by cfg ps \<longleftrightarrow> (\<exists>pre p fails q rest ev us. ps = pre @ (p # fails) @ rest \<and> all_failed ((p # fails) @ rest) \<and>
     q = last (p # fails) \<and> fst q = Some ev \<and> failure_limit cfg ev \<le> int (length (p # fails)) \<and>
     dt_sub (snd q) (snd p) = Inr us \<and> failure_window cfg ev \<le> total_seconds us)"

definition counting :: "iso_codec \<Rightarrow> probe list \<Rightarrow> catalog_entry \<Rightarrow> bool" where
  "counting c ps e \<longleftrightarrow> te_status e = SessRunning \<and> (\<exists>pre fails. ps = pre @ fails \<and> all_failed fails \<and>
     te_liveness_failures e = int (length fails) \<and>
     te_liveness_first_failed_at e = (case fails of [] \<Rightarrow> None | p # _ \<Rightarrow> Some (isoformat c (snd p))))"

lemma counting_success:
  assumes "te_status e \<in> {SessRunning, SessExited}"
  shows "counting c (ps @ [p]) (canonical_entry (with_liveness_success e))"
proof -
  have "te_status (with_liveness_success e) = SessRunning" "te_liveness_failures (with_liveness_success e) = 0"
    "te_liveness_first_failed_at (with_liveness_success e) = None"
    using assms by (auto simp: with_liveness_success_form without_liveness_failures_def)
  then show ?thesis by (auto simp: counting_def canonical_entry_def all_failed_def intro!: exI [of _ "ps @ [p]"] exI [of _ "[]"])
qed

lemma exited_by_snoc:
  assumes "exited_by cfg ps" "fst x \<noteq> None"
  shows "exited_by cfg (ps @ [x])"
proof -
  from assms(1) obtain pre p fails q rest ev us where ex: "ps = pre @ (p # fails) @ rest" "all_failed ((p # fails) @ rest)"
    "q = last (p # fails)" "fst q = Some ev" "failure_limit cfg ev \<le> int (length (p # fails))"
    "dt_sub (snd q) (snd p) = Inr us" "failure_window cfg ev \<le> total_seconds us" unfolding exited_by_def by blast
  have "ps @ [x] = pre @ (p # fails) @ (rest @ [x])" "all_failed ((p # fails) @ (rest @ [x]))"
    using ex(1,2) assms(2) by (simp_all add: all_failed_def)
  with ex(3-7) show ?thesis unfolding exited_by_def by blast
qed

lemma counting_failure:
  assumes "counting c ps e" "stamps_ok c (ps @ [p])" "fst p = Some ev" "with_liveness_failure c cfg ev (snd p) e = Inr u"
  shows "counting c (ps @ [p]) (canonical_entry u) \<or> te_status u = SessExited \<and> exited_by cfg (ps @ [p])"
proof -
  from assms(1) obtain pre fails where cnt: "te_status e = SessRunning" "ps = pre @ fails" "all_failed fails"
    "te_liveness_failures e = int (length fails)"
    "te_liveness_first_failed_at e = (case fails of [] \<Rightarrow> None | q # _ \<Rightarrow> Some (isoformat c (snd q)))" by (auto simp: counting_def)
  define first where "first = hd (fails @ [p])"
  have stamp: "iso_reads_back c (snd first)" "isoformat c (snd first) \<noteq> ''''"
    using assms(2) cnt(2) by (cases fails; auto simp: stamps_ok_def first_def)+
  have str: "the (str_or (te_liveness_first_failed_at e) (Some (isoformat c (snd p)))) = isoformat c (snd first)"
    using cnt(5) stamp by (cases fails) (auto simp: str_or_def first_def)
  have failed: "all_failed (fails @ [p])" using cnt(3) assms(3) by (simp add: all_failed_def)
  have hd: "(case fails @ [p] of [] \<Rightarrow> None | q # _ \<Rightarrow> Some (isoformat c (snd q))) = Some (isoformat c (snd first))"
    by (cases fails) (simp_all add: first_def)
  from assms(4) obtain out where out: "(if failure_limit cfg ev \<le> te_liveness_failures e + 1
      then rbind (seconds_since_failure c (isoformat c (snd first)) (snd p)) (\<lambda>s. Inr (failure_window cfg ev \<le> s)) else Inr False) = Inr out"
    and u: "te_status u = (if out then SessExited else SessRunning)" "te_liveness_failures u = te_liveness_failures e + 1"
      "te_liveness_first_failed_at u = Some (isoformat c (snd first))"
    using cnt(1) by (auto simp: with_liveness_failure_def Let_def str rbind_eq_Inr cong del: if_weak_cong)
  show ?thesis
  proof (cases out)
    case True
    with out obtain s us where "failure_limit cfg ev \<le> int (length (fails @ [p]))" "dt_sub (snd p) (snd first) = Inr us"
      "failure_window cfg ev \<le> total_seconds us"
      using stamp(1) cnt(4) by (auto simp: seconds_since_failure_def iso_reads_back_def rbind_eq_Inr split: if_splits)
    moreover obtain fs where "fails @ [p] = first # fs" by (cases fails) (auto simp: first_def)
    moreover from this have "last (first # fs) = p" by (metis last_snoc)
    ultimately have "exited_by cfg (ps @ [p])" using cnt(2) failed assms(3)
      unfolding exited_by_def by (intro exI [of _ pre] exI [of _ first] exI [of _ fs] exI [of _ p] exI [of _ "[]"]) auto
    with True u(1) show ?thesis by simp
  next
    case False
    then have "counting c (ps @ [p]) (canonical_entry u)" unfolding counting_def
      by (intro conjI exI [of _ pre] exI [of _ "fails @ [p]"]) (simp_all add: u cnt(2,4) failed hd canonical_entry_def)
    then show ?thesis ..
  qed
qed

lemma spec_run_snoc: "spec_run env (ops @ [op]) m = sbind (spec_run env ops) (\<lambda>_. spec_step env op) m"
  by (induction ops arbitrary: m) (auto simp: sbind_def sret_def split: prod.splits sum.splits)

lemma spec_step_Inr: "spec_step env op m = (Inr u, m') \<longleftrightarrow> spec_exec env op m = Inr m'"
  by (cases "spec_exec env op m") (auto simp: spec_step_def)

lemma holds_unique: "holds env s m \<Longrightarrow> holds env s m' \<Longrightarrow> m = m'"
  by (auto simp: holds_def)

lemma probes_counted:
  assumes "m k = Some e0" "counting c [] e0" "stamps_ok c ps" "c = ce_codec env"
    "spec_run env (map (probe_op k cfg) ps) m = (Inr (), m')"
  shows "\<exists>e. m' k = Some e \<and> (counting c ps e \<or> te_status e = SessExited \<and> exited_by cfg ps)"
  using assms(3,5)
proof (induction ps arbitrary: m' rule: rev_induct)
  case Nil
  with assms(1,2) show ?case by simp
next
  case (snoc p ps)
  from snoc.prems(2) obtain m1 where m1: "spec_run env (map (probe_op k cfg) ps) m = (Inr (), m1)"
    "spec_exec env (probe_op k cfg p) m1 = Inr m'"
    by (auto simp: spec_run_snoc sbind_eq_Inr spec_step_Inr)
  have "stamps_ok c ps" using snoc.prems(1) by (simp add: stamps_ok_def)
  from snoc.IH [OF this m1(1)] obtain e where e: "m1 k = Some e" "counting c ps e \<or> te_status e = SessExited \<and> exited_by cfg ps" by blast
  show ?case
  proof (cases "fst p")
    case None
    with m1(2) e(1) have "m' k = Some (canonical_entry (with_liveness_success e))"
      by (auto simp: probe_op_def spec_exec_def change_row_def)
    moreover from e(2) have "te_status e \<in> {SessRunning, SessExited}" by (auto simp: counting_def)
    ultimately show ?thesis using counting_success by blast
  next
    case (Some ev)
    with m1(2) e(1) obtain u where u: "with_liveness_failure c cfg ev (snd p) e = Inr u" "m' k = Some (canonical_entry u)"
      by (auto simp: probe_op_def spec_exec_def change_row_def rbind_eq_Inr assms(4))
    from e(2) show ?thesis
    proof
      assume "counting c ps e"
      from counting_failure [OF this snoc.prems(1) Some u(1)] u(2) show ?thesis by auto
    next
      assume "te_status e = SessExited \<and> exited_by cfg ps"
      with u Some exited_by_snoc [of cfg ps p] show ?thesis by (auto simp: with_liveness_failure_def)
    qed
  qed
qed

text \<open>
  Claim C29: A seat exits only on enough consecutive failures. When a running row without failures is probed any number of times and ends
  up exited, some of the probes failed one after the other with no success since, as many as the limit of the last one's evidence asks
  for, and from the first to the last of them at least the window of that evidence passed.
\<close>

theorem exit_needs_consecutive_failures:
  assumes "validator_faithful env" "holds env s m" "m k = Some e0" "te_status e0 = SessRunning" "te_liveness_failures e0 = 0"
    "te_liveness_first_failed_at e0 = None" "stamps_ok (ce_codec env) ps"
    "cat_run env (map (probe_op k cfg) ps) s = (Inr (), s')" "holds env s' m'" "m' k = Some e" "te_status e = SessExited"
  shows "exited_by cfg ps"
proof -
  have "list_all (op_ok env) (map (probe_op k cfg) ps)" by (simp add: list_all_iff probe_op_def)
  from cat_run_refines [OF assms(1,2) this] assms(8) obtain m1 where m1: "spec_run env (map (probe_op k cfg) ps) m = (Inr (), m1)" "holds env s' m1"
    by (cases "spec_run env (map (probe_op k cfg) ps) m") auto
  have "counting (ce_codec env) [] e0" using assms(4-6) by (simp add: counting_def all_failed_def)
  from probes_counted [OF assms(3) this assms(7) refl m1(1)] holds_unique [OF assms(9) m1(2)] assms(10,11) show ?thesis
    by (auto simp: counting_def)
qed

definition ex_probes :: "probe list" where
  "ex_probes = [(None, utc 1), (Some TmuxCommandFailed, utc 2), (Some TmuxCommandFailed, utc 3), (Some TmuxCommandFailed, utc 4)]"

definition ex_hysteresis :: liveness_config where
  "ex_hysteresis = DEFAULT_LIVENESS_HYSTERESIS\<lparr>lv_minimum_failure_window_seconds := 1 / 1000000\<rparr>"

theorem exit_needs_consecutive_failures_witness:
  "exited_by ex_hysteresis ex_probes \<and> \<not> exited_by ex_hysteresis [(Some TmuxCommandFailed, utc 2)]"
proof -
  let ?m = "[''a'' \<mapsto> canonical_entry ex_entry_row]"
  have "spec_run ex_catalog_env [OpUpsert ex_entry_row] Map.empty = (Inr (), ?m)"
    by (simp add: spec_step_def spec_exec_def sbind_def sret_def ex_entry_row_facts)
  with cat_run_refines [OF ex_validator ex_holds_empty, of "[OpUpsert ex_entry_row]"] ex_entry_row_ok obtain s where s: "holds ex_catalog_env s ?m" by auto
  have run: "(case spec_run ex_catalog_env (map (probe_op ''a'' ex_hysteresis) ex_probes) ?m of (Inl _, _) \<Rightarrow> None
      | (Inr _, m') \<Rightarrow> map_option te_status (m' ''a'')) = Some SessExited" by code_simp
  have "list_all (op_ok ex_catalog_env) (map (probe_op ''a'' ex_hysteresis) ex_probes)" by (simp add: list_all_iff probe_op_def)
  from cat_run_refines [OF ex_validator s this] run obtain s' m' e where end_state:
    "cat_run ex_catalog_env (map (probe_op ''a'' ex_hysteresis) ex_probes) s = (Inr (), s')" "holds ex_catalog_env s' m'"
    "m' ''a'' = Some e" "te_status e = SessExited"
    by (cases "spec_run ex_catalog_env (map (probe_op ''a'' ex_hysteresis) ex_probes) ?m") (auto split: sum.splits)
  have "stamps_ok micro_codec ex_probes" by code_simp
  then have stamps: "stamps_ok (ce_codec ex_catalog_env) ex_probes" by (simp add: ex_catalog_env_def)
  have "exited_by ex_hysteresis ex_probes"
    using exit_needs_consecutive_failures [OF ex_validator s _ _ _ _ stamps end_state(1,2,3,4)]
    by (simp add: ex_entry_row_facts canonical_entry_def ex_entry_row_domain)
  moreover have "\<not> exited_by ex_hysteresis [(Some TmuxCommandFailed, utc 2)]"
    by (auto simp: exited_by_def Cons_eq_append_conv failure_limit_def ex_hysteresis_def DEFAULT_LIVENESS_HYSTERESIS_def)
  ultimately show ?thesis by simp
qed

subsection \<open>A retired seat and its mail\<close>

text \<open>What a delivery sees of the catalog: \<^verbatim>\<open>get\<close> and \<^verbatim>\<open>list\<close> over one read.\<close>

definition hosted_catalog_of :: "catalog_entry list \<Rightarrow> hosted_catalog" where
  "hosted_catalog_of es =
     \<lparr>hc_get = (\<lambda>k. map_option seat_of (find (\<lambda>e. te_id e = k) es)),
      hc_list = map seat_of (filter (\<lambda>e. te_status e \<noteq> SessTerminated) es)\<rparr>"

lemma find_member: "find P xs = Some x \<Longrightarrow> x \<in> set xs \<and> P x"
  by (auto simp: find_Some_iff)

lemma target_runs:
  assumes "target_session_for_entry catalog e = Inr (Some t)"
  shows "seat_status t = ''running'' \<and> (t \<in> set (hc_list catalog) \<or> (\<exists>a. hc_get catalog a = Some t))"
proof -
  have first: "x \<in> set (filter P xs)" if "filter P xs = x # ys" for x and P :: "hosted_seat \<Rightarrow> bool" and xs ys using that by simp
  show ?thesis using assms
    by (auto simp: target_session_for_entry_def structural_target_def correlated_target_def running_seat_def Let_def
        find_Some_iff neq_Nil_conv dest!: first split: if_splits option.splits list.splits)
qed

text \<open>
  A retired seat gets no mail. Once a row is terminated, whatever operations that do not attach it or write it whole follow,
  no delivery over the catalog read afterwards makes a call on the control client for that session.
\<close>

theorem retired_seat_gets_no_mail:
  assumes "validator_faithful env" "holds env s m" "m k = Some e" "te_status e = SessTerminated" "list_all (op_ok env) ops"
    "\<forall>op\<in>set ops. \<not> revives k op" "cat_run env ops s = (r, s')" "cat_read env s' = (Inr es, s')"
    "deliver_inbox_entry denv (hosted_catalog_of es) admission lg w = (x, w')" "dw_wire w' = dw_wire w @ calls"
  shows "\<forall>cl\<in>set calls. call_session cl \<noteq> k"
  using assms(9)
proof (cases rule: deliver_wire)
  case (pushed t cs)
  from target_runs [OF pushed(1)] have run: "seat_status t = ''running''"
    and src: "t \<in> set (hc_list (hosted_catalog_of es)) \<or> (\<exists>a. hc_get (hosted_catalog_of es) a = Some t)" by auto
  from src obtain row where row: "row \<in> set es" "t = seat_of row"
    by (auto simp: hosted_catalog_of_def dest: find_member)
  then have live: "te_status row = SessRunning" using run by (cases "te_status row") (auto simp: seat_of_def)
  from terminated_row_stays_terminated [OF assms(1,2,5,6,3,4)] assms(7) obtain m' where m': "holds env s' m'"
    "case m' k of None \<Rightarrow> True | Some e' \<Rightarrow> te_status e' = SessTerminated \<and> provenance e' = provenance e" by auto
  with assms(8) have rows: "rows_ok es" "catalog_rows es = m'" by (auto simp: holds_def)
  have "te_id row \<noteq> k"
  proof
    assume "te_id row = k"
    with row(1) rows have "m' k = Some (canonical_entry row)" using catalog_rows_Some [OF rows(1)] by auto
    with m'(2) live show False by simp
  qed
  with pushed(3,4) assms(10) row(2) show ?thesis by (auto simp: seat_of_def)
qed (use assms(10) in simp)

theorem retired_seat_gets_no_mail_witness:
  "\<exists>s es x w'. cat_run ex_catalog_env [OpLabel ''a'' ''old seat''] s = (Inr (), snd (cat_run ex_catalog_env [OpLabel ''a'' ''old seat''] s)) \<and>
     cat_read ex_catalog_env (snd (cat_run ex_catalog_env [OpLabel ''a'' ''old seat''] s)) = (Inr es, snd (cat_run ex_catalog_env [OpLabel ''a'' ''old seat''] s)) \<and>
     deliver_inbox_entry (ex_delivery_env False) (hosted_catalog_of es) DEFAULT_DELIVERY_ADMISSION (ex_delivery_log ex_mail) ex_delivery_world = (x, w') \<and>
     list_all (\<lambda>cl. call_session cl \<noteq> ''a'') (dw_wire w')"
proof -
  let ?ops = "[OpLabel ''a'' ''old seat'']"
  let ?e = "canonical_entry (with_retirement ex_closure ex_entry_row)"
  have st: "te_status ?e = SessTerminated" by (simp add: with_retirement_def ex_entry_row_facts)
  have "entry_row_ok (with_retirement ex_closure ex_entry_row)" using ex_entry_row_ok by (simp add: with_retirement_def entry_row_ok_def entry_ok_def)
  moreover have "spec_run ex_catalog_env [OpUpsert (with_retirement ex_closure ex_entry_row)] Map.empty = (Inr (), [''a'' \<mapsto> ?e])"
    by (simp add: spec_step_def spec_exec_def sbind_def sret_def ex_entry_row_facts with_retirement_def)
  ultimately obtain s where s: "holds ex_catalog_env s [''a'' \<mapsto> ?e]"
    using cat_run_refines [OF ex_validator ex_holds_empty, of "[OpUpsert (with_retirement ex_closure ex_entry_row)]"] by auto
  have "fst (spec_run ex_catalog_env ?ops [''a'' \<mapsto> ?e]) = Inr ()" by (simp add: spec_step_def spec_exec_def change_row_def sbind_def sret_def)
  with cat_run_refines [OF ex_validator s, of ?ops] obtain s' m' where s': "cat_run ex_catalog_env ?ops s = (Inr (), s')" "holds ex_catalog_env s' m'"
    by auto
  obtain es where es: "cat_read ex_catalog_env s' = (Inr es, s')" by (rule holds_read [OF s'(2)])
  obtain x w' where d: "deliver_inbox_entry (ex_delivery_env False) (hosted_catalog_of es) DEFAULT_DELIVERY_ADMISSION (ex_delivery_log ex_mail)
      ex_delivery_world = (x, w')" by (cases "deliver_inbox_entry (ex_delivery_env False) (hosted_catalog_of es) DEFAULT_DELIVERY_ADMISSION
      (ex_delivery_log ex_mail) ex_delivery_world")
  have w: "dw_wire w' = dw_wire ex_delivery_world @ dw_wire w'" by (simp add: ex_delivery_world_def)
  have "\<forall>cl\<in>set (dw_wire w'). call_session cl \<noteq> ''a''"
    by (rule retired_seat_gets_no_mail [OF ex_validator s _ st _ _ s'(1) es d w]) simp_all
  with s'(1) es d show ?thesis unfolding list_all_iff by (intro exI [of _ s] exI [of _ es] exI [of _ x] exI [of _ w']) simp
qed

subsection \<open>A stale write\<close>

text \<open>
  Claim C30: A row written from an old read undoes a retirement. The relay reads a running row without the lock; another process
  retires the seat; then the relay writes its copy with the evidence it relayed: the seat is running again and its retirement is lost,
  although nothing attached it.
\<close>

theorem stale_write_undoes_retirement:
  assumes "validator_faithful env" "holds env s m" "cat_get env k s = (Inr (Some row), s)" "te_status row = SessRunning"
    "mark_retired env k closure s = (Inr r, s1)" "upsert env (with_state_signal_emitted evidence row) s1 = (Inr (), s2)"
  shows "\<exists>m1 m2. holds env s1 m1 \<and> holds env s2 m2 \<and> map_option te_status (m1 k) = Some SessTerminated \<and>
    map_option te_status (m2 k) = Some SessRunning \<and> map_option provenance (m2 k) = Some (provenance row)"
proof -
  obtain es where es: "cat_read env s = (Inr es, s)" "rows_ok es" "catalog_rows es = m" by (rule holds_read [OF assms(2)])
  with assms(3) have "find (\<lambda>e. te_id e = k) es = Some row"
    by (simp add: cat_get_def sbind_Inr [of "cat_read env", OF es(1)])
  then have row: "row \<in> set es" "te_id row = k" using find_member by fastforce+
  then have ok: "entry_row_ok row" and mk: "m k = Some (canonical_entry row)" using es by (auto simp: rows_ok_def list_all_iff catalog_rows_Some [OF es(2)])
  let ?u = "with_retirement closure (canonical_entry row)"
  have "refines_step env s (cat_exec env (OpRetire k closure)) (spec_exec env (OpRetire k closure) m)"
    by (rule cat_exec_refines [OF assms(1,2)]) simp
  then have h1: "holds env s1 (m(k \<mapsto> canonical_entry ?u))"
    using mk assms(5) by (auto simp: refines_step_def spec_exec_def change_row_def discard_def sbind_def)
  let ?w = "with_state_signal_emitted evidence row"
  have "entry_row_ok ?w" "te_id ?w = k" using ok row(2) by (simp_all add: with_state_signal_emitted_def entry_row_ok_def entry_ok_def)
  from upsert_refines [OF assms(1) h1 this(1)] this(2) assms(6)
  have h2: "holds env s2 (m(k \<mapsto> canonical_entry ?u, k \<mapsto> canonical_entry ?w))" by (auto simp: refines_step_def)
  have "te_status ?u = SessTerminated" "te_status ?w = SessRunning" "provenance (canonical_entry ?w) = provenance row"
    using assms(4) by (simp_all add: with_retirement_def with_state_signal_emitted_def provenance_def canonical_entry_def)
  with h1 h2 show ?thesis by (intro exI [of _ "m(k \<mapsto> canonical_entry ?u)"] exI [of _ "m(k \<mapsto> canonical_entry ?u, k \<mapsto> canonical_entry ?w)"]) simp
qed

theorem stale_write_undoes_retirement_witness:
  "\<exists>row s s1 s2 r. cat_get ex_catalog_env ''a'' s = (Inr (Some row), s) \<and> mark_retired ex_catalog_env ''a'' ex_closure s = (Inr r, s1) \<and>
     upsert ex_catalog_env (with_state_signal_emitted ''ev'' row) s1 = (Inr (), s2) \<and>
     (\<exists>m1 m2. holds ex_catalog_env s1 m1 \<and> holds ex_catalog_env s2 m2 \<and> map_option te_status (m1 ''a'') = Some SessTerminated \<and>
        map_option te_status (m2 ''a'') = Some SessRunning)"
proof -
  let ?env = ex_catalog_env
  let ?m = "[''a'' \<mapsto> canonical_entry ex_entry_row]"
  have "spec_run ?env [OpUpsert ex_entry_row] Map.empty = (Inr (), ?m)"
    by (simp add: spec_step_def spec_exec_def sbind_def sret_def ex_entry_row_facts)
  with cat_run_refines [OF ex_validator ex_holds_empty, of "[OpUpsert ex_entry_row]"] ex_entry_row_ok obtain s where s: "holds ?env s ?m" by auto
  obtain es where es: "cat_read ?env s = (Inr es, s)" "rows_ok es" "catalog_rows es = ?m" by (rule holds_read [OF s])
  from es(3) have "''a'' \<in> te_id ` set es" using catalog_rows_dom [of es "''a''"] by auto
  then obtain row where row: "find (\<lambda>e. te_id e = ''a'') es = Some row" by (cases "find (\<lambda>e. te_id e = ''a'') es") (auto simp: find_None_iff)
  from find_member [OF row] have rowa: "row \<in> set es" "te_id row = ''a''" by auto
  then have eqs: "canonical_entry row = canonical_entry ex_entry_row" "entry_row_ok row"
    using es catalog_rows_Some [OF es(2), of "''a''" "canonical_entry row"] by (auto simp: rows_ok_def list_all_iff)
  have get: "cat_get ?env ''a'' s = (Inr (Some row), s)" by (simp add: cat_get_def sbind_Inr [of "cat_read ?env", OF es(1)] row)
  have st: "te_status row = SessRunning" using eqs(1) ex_entry_row_facts(2) by (metis canonical_frame(2))
  have "refines_step ?env s (cat_exec ?env (OpRetire ''a'' ex_closure)) (spec_exec ?env (OpRetire ''a'' ex_closure) ?m)"
    by (rule cat_exec_refines [OF ex_validator s]) simp
  then obtain r s1 m1 where s1: "mark_retired ?env ''a'' ex_closure s = (Inr r, s1)" "holds ?env s1 m1"
    by (cases "mark_retired ?env ''a'' ex_closure s") (auto simp: refines_step_def spec_exec_def change_row_def discard_def sbind_def split: sum.splits)
  have "entry_row_ok (with_state_signal_emitted ''ev'' row)" using eqs(2) by (simp add: with_state_signal_emitted_def entry_row_ok_def entry_ok_def)
  from upsert_refines [OF ex_validator s1(2) this] obtain s2 where "upsert ?env (with_state_signal_emitted ''ev'' row) s1 = (Inr (), s2)"
    by (auto simp: refines_step_def)
  with stale_write_undoes_retirement [OF ex_validator s get st s1(1) this] get s1(1) show ?thesis by blast
qed

end
