(* ===== verification/Submission_Ledger.thy ===== *)
theory Submission_Ledger
  imports Inbox_Delivery
begin

section \<open>The ledger of a submission authority\<close>

text \<open>
  \<^verbatim>\<open>serving/harness_submission_ledger.py\<close> with the wire types of \<^verbatim>\<open>models/conversations/control_wire.py\<close>: the rows one hosted
  bridge retains about the prompts and setters it admitted, what a row answers with, the bounded store of rows and its reads.

  A row is a mutable object that the dispatcher and the reads share, so the rows live in a heap: \<open>sl_objects\<close> maps a reference to
  its contents, and the ordered dictionary maps keys to references. The reference is the ordinal the row was minted with, which no
  two rows share. A future is pending or settled; settling it twice keeps the first value. \<^verbatim>\<open>json.dumps\<close> enters as the number of
  bytes it writes.
\<close>

subsection \<open>Wire types\<close>

datatype submission_source = SrcCockpit | SrcTerminal | SrcDurable
datatype control_kind = KPrompt | KSetModel | KSetEffort
datatype submission_state = SubQueued | SubDispatching | SubDelivered | SubWithdrawn | SubUnknown | SubRejected | SubUnsupported
datatype set_acceptance = SetEchoVerified | SetImmediate | SetQueued | SetUnknown | SetUnsupported
datatype lookup_outcome = LookupFound | LookupNotFound

fun submission_source_str :: "submission_source \<Rightarrow> string" where
  "submission_source_str SrcCockpit = ''cockpit''"
| "submission_source_str SrcTerminal = ''terminal''"
| "submission_source_str SrcDurable = ''durable''"

fun control_kind_str :: "control_kind \<Rightarrow> string" where
  "control_kind_str KPrompt = ''prompt''"
| "control_kind_str KSetModel = ''set-model''"
| "control_kind_str KSetEffort = ''set-effort''"

fun submission_state_str :: "submission_state \<Rightarrow> string" where
  "submission_state_str SubQueued = ''queued''"
| "submission_state_str SubDispatching = ''dispatching''"
| "submission_state_str SubDelivered = ''delivered''"
| "submission_state_str SubWithdrawn = ''withdrawn''"
| "submission_state_str SubUnknown = ''unknown''"
| "submission_state_str SubRejected = ''rejected''"
| "submission_state_str SubUnsupported = ''unsupported''"

record asset_reference =
  as_asset_id :: string
  as_mime_type :: string
  as_byte_size :: int
  as_sha256 :: string
  as_spool_path :: "path option"

record operation_ref =
  rf_bridge_epoch :: string
  rf_sequence :: int
  rf_operation_id :: string
  rf_kind :: control_kind

text \<open>The receipt and the reconciliation with the fields that the delivery does not read.\<close>

record authority_receipt = submission_receipt +
  sr_submitted_at :: string
  sr_raw :: json_object
  sr_bridge_epoch :: "string option"

record authority_reconciliation = reconciliation_result +
  rr_reconciled_at :: string
  rr_raw :: json_object
  rr_bridge_epoch :: "string option"
  rr_submission_state :: "submission_state option"

record set_result =
  st_ok :: bool
  st_acceptance :: set_acceptance
  st_requested_value :: string
  st_effective_value :: "string option"
  st_detail :: "string option"

subsection \<open>A row\<close>

datatype submission_future = FutPending | FutReceipt authority_receipt | FutSet set_result | FutError py_error

type_synonym submission_key = "control_kind \<times> string"

record submission_record =
  op_ref :: operation_ref
  op_state :: submission_state
  op_submitted_at :: string
  op_updated_at :: string
  op_source :: "submission_source option"
  op_payload_digest :: "string option"
  op_text :: "string option"
  op_requested_value :: "string option"
  op_accepted_at :: "string option"
  op_vendor_correlation_id :: "string option"
  op_detail :: "string option"
  op_buffered_completion_sequence :: "int option"
  op_result_future :: "submission_future option"
  op_assets :: "asset_reference list"

definition control_ref_key :: "operation_ref \<Rightarrow> submission_key" where
  "control_ref_key r = (rf_kind r, rf_operation_id r)"

definition op_key :: "submission_record \<Rightarrow> submission_key" where
  "op_key r = (rf_kind (op_ref r), rf_operation_id (op_ref r))"

definition op_live :: "submission_record \<Rightarrow> bool" where
  "op_live r \<longleftrightarrow> op_state r \<in> {SubQueued, SubDispatching, SubUnknown}"

definition EVICTABLE_STATES :: "submission_state set" where
  "EVICTABLE_STATES = {SubDelivered, SubWithdrawn, SubRejected, SubUnsupported}"

definition op_resolve :: "submission_future \<Rightarrow> submission_record \<Rightarrow> submission_record" where
  "op_resolve v r = (if op_result_future r = Some FutPending then r\<lparr>op_result_future := Some v\<rparr> else r)"

definition mark_terminal :: "submission_state \<Rightarrow> string option \<Rightarrow> string \<Rightarrow> submission_record \<Rightarrow> submission_record" where
  "mark_terminal state detail stamp r =
     r\<lparr>op_state := state, op_detail := detail, op_updated_at := stamp,
       op_accepted_at := (if state = SubDelivered \<and> op_accepted_at r = None then Some stamp else op_accepted_at r),
       op_text := None, op_assets := []\<rparr>"

definition op_receipt :: "acceptance_state \<Rightarrow> string \<Rightarrow> string option \<Rightarrow> submission_record \<Rightarrow> authority_receipt" where
  "op_receipt acceptance bridge_epoch detail r =
     \<lparr>sr_request_id = rf_operation_id (op_ref r), sr_acceptance = acceptance, sr_vendor_correlation_id = op_vendor_correlation_id r,
      sr_accepted_at = op_accepted_at r, sr_detail = (case detail of None \<Rightarrow> op_detail r | Some d \<Rightarrow> Some d),
      sr_submitted_at = op_submitted_at r,
      sr_raw = (if op_assets r = [] then [] else [(''assetIds'', JList (map (JStr \<circ> as_asset_id) (op_assets r)))]),
      sr_bridge_epoch = Some bridge_epoch\<rparr>"

definition mark_unknown :: "string \<Rightarrow> string option \<Rightarrow> string \<Rightarrow> string \<Rightarrow> submission_record \<Rightarrow> submission_record" where
  "mark_unknown detail correlation stamp bridge_epoch r =
     (let u = r\<lparr>op_state := SubUnknown, op_detail := Some detail, op_vendor_correlation_id := correlation, op_updated_at := stamp\<rparr>
      in if rf_kind (op_ref u) = KPrompt then op_resolve (FutReceipt (op_receipt AccUnknown bridge_epoch None u)) u
         else case op_requested_value u of
                None \<Rightarrow> u
              | Some v \<Rightarrow> op_resolve (FutSet \<lparr>st_ok = False, st_acceptance = SetUnknown, st_requested_value = v,
                                          st_effective_value = None, st_detail = Some detail\<rparr>) u)"

fun duplicate_acceptance :: "submission_state \<Rightarrow> acceptance_state" where
  "duplicate_acceptance SubQueued = AccQueued"
| "duplicate_acceptance SubDispatching = AccUnknown"
| "duplicate_acceptance SubDelivered = AccImmediate"
| "duplicate_acceptance SubWithdrawn = AccRejected"
| "duplicate_acceptance SubUnknown = AccUnknown"
| "duplicate_acceptance SubRejected = AccRejected"
| "duplicate_acceptance SubUnsupported = AccUnsupported"

definition duplicate_receipt :: "string \<Rightarrow> submission_record \<Rightarrow> authority_receipt" where
  "duplicate_receipt bridge_epoch r =
     op_receipt (duplicate_acceptance (op_state r)) bridge_epoch
       (if op_state r = SubDispatching then Some ''dispatch is in flight; query status/reconcile with the same request id''
        else if op_state r = SubWithdrawn then Some ''the queued submission was withdrawn and will not be dispatched''
        else op_detail r) r"

definition pending_dispatch_receipt :: "string \<Rightarrow> submission_record \<Rightarrow> authority_receipt" where
  "pending_dispatch_receipt bridge_epoch r =
     (if op_state r = SubDispatching
      then op_receipt AccQueued bridge_epoch
        (Some ''dispatch is in flight; acceptance evidence is pending -- query status/reconcile with the same request id'') r
      else if op_state r = SubQueued then op_receipt AccQueued bridge_epoch None r
      else duplicate_receipt bridge_epoch r)"

definition op_reconciliation :: "string \<Rightarrow> submission_record \<Rightarrow> authority_reconciliation option" where
  "op_reconciliation bridge_epoch r =
     (if op_state r = SubUnknown then None
      else Some \<lparr>rr_request_id = rf_operation_id (op_ref r),
                 rr_state = (if op_state r \<in> {SubQueued, SubDispatching, SubDelivered} then RecAccepted
                             else if op_state r \<in> {SubWithdrawn, SubRejected} then RecRejected else RecUnsupported),
                 rr_vendor_correlation_id = op_vendor_correlation_id r, rr_detail = op_detail r,
                 rr_reconciled_at = the (str_or (op_accepted_at r) (Some (op_updated_at r))), rr_raw = [],
                 rr_bridge_epoch = Some bridge_epoch, rr_submission_state = Some (op_state r)\<rparr>)"

record submission_status =
  ss_request_id :: string
  ss_state :: submission_state
  ss_submitted_at :: string
  ss_updated_at :: string
  ss_accepted_at :: "string option"
  ss_withdrawable :: bool
  ss_detail :: "string option"

definition op_status :: "submission_record \<Rightarrow> submission_status" where
  "op_status r =
     \<lparr>ss_request_id = rf_operation_id (op_ref r), ss_state = op_state r, ss_submitted_at = op_submitted_at r,
      ss_updated_at = op_updated_at r, ss_accepted_at = op_accepted_at r, ss_withdrawable = (op_state r = SubQueued),
      ss_detail = op_detail r\<rparr>"

record submission_provenance =
  sp_request_id :: string
  sp_outcome :: lookup_outcome
  sp_source :: "submission_source option"
  sp_state :: "submission_state option"
  sp_submitted_at :: "string option"
  sp_updated_at :: "string option"
  sp_accepted_at :: "string option"
  sp_vendor_correlation_id :: "string option"

definition op_provenance :: "submission_record \<Rightarrow> submission_provenance" where
  "op_provenance r =
     \<lparr>sp_request_id = rf_operation_id (op_ref r), sp_outcome = LookupFound, sp_source = op_source r, sp_state = Some (op_state r),
      sp_submitted_at = Some (op_submitted_at r), sp_updated_at = Some (op_updated_at r), sp_accepted_at = op_accepted_at r,
      sp_vendor_correlation_id = op_vendor_correlation_id r\<rparr>"

record timeline_item =
  ti_operation_id :: string
  ti_kind :: control_kind
  ti_source :: "submission_source option"
  ti_state :: submission_state
  ti_sequence :: int
  ti_submitted_at :: string
  ti_updated_at :: string
  ti_accepted_at :: "string option"
  ti_payload_digest_present :: bool
  ti_vendor_correlation_id :: "string option"

definition op_timeline_item :: "submission_record \<Rightarrow> timeline_item" where
  "op_timeline_item r =
     \<lparr>ti_operation_id = rf_operation_id (op_ref r), ti_kind = rf_kind (op_ref r), ti_source = op_source r, ti_state = op_state r,
      ti_sequence = rf_sequence (op_ref r), ti_submitted_at = op_submitted_at r, ti_updated_at = op_updated_at r,
      ti_accepted_at = op_accepted_at r, ti_payload_digest_present = (op_payload_digest r \<noteq> None),
      ti_vendor_correlation_id = op_vendor_correlation_id r\<rparr>"

definition json_or_null :: "('a \<Rightarrow> string) \<Rightarrow> 'a option \<Rightarrow> json" where
  "json_or_null f x = (case x of None \<Rightarrow> JNull | Some v \<Rightarrow> JStr (f v))"

definition operation_timeline_item_json :: "timeline_item \<Rightarrow> json_object" where
  "operation_timeline_item_json v =
     [(''operationId'', JStr (ti_operation_id v)), (''kind'', JStr (control_kind_str (ti_kind v))),
      (''source'', json_or_null submission_source_str (ti_source v)), (''state'', JStr (submission_state_str (ti_state v))),
      (''sequence'', JNum (ti_sequence v)), (''submittedAt'', JStr (ti_submitted_at v)), (''updatedAt'', JStr (ti_updated_at v)),
      (''acceptedAt'', json_or_null (\<lambda>s. s) (ti_accepted_at v)), (''payloadDigestPresent'', JBool (ti_payload_digest_present v)),
      (''vendorCorrelationId'', json_or_null (\<lambda>s. s) (ti_vendor_correlation_id v))]"

subsection \<open>The store of rows\<close>

record submission_ledger =
  sl_bridge_epoch :: string
  sl_limit :: int
  sl_objects :: "int \<Rightarrow> submission_record"
  sl_records :: "(submission_key, int) dict"
  sl_prompt_ids :: "(string, submission_key) dict"
  sl_sequence :: int
  sl_evicted_before_sequence :: int

abbreviation op_at :: "submission_ledger \<Rightarrow> int \<Rightarrow> submission_record" where
  "op_at L a \<equiv> sl_objects L a"

definition update_row :: "int \<Rightarrow> (submission_record \<Rightarrow> submission_record) \<Rightarrow> submission_ledger \<Rightarrow> submission_ledger" where
  "update_row a f L = L\<lparr>sl_objects := (sl_objects L)(a := f (sl_objects L a))\<rparr>"

definition by_key :: "submission_ledger \<Rightarrow> submission_key \<Rightarrow> int option" where
  "by_key L k = dget (sl_records L) k"

definition by_request_id :: "submission_ledger \<Rightarrow> string \<Rightarrow> int option" where
  "by_request_id L request_id = (case dget (sl_prompt_ids L) request_id of None \<Rightarrow> None | Some k \<Rightarrow> by_key L k)"

definition next_ref :: "control_kind \<Rightarrow> string option \<Rightarrow> submission_ledger \<Rightarrow> operation_ref \<times> submission_ledger" where
  "next_ref kind operation_id L =
     (let n = sl_sequence L + 1
      in (\<lparr>rf_bridge_epoch = sl_bridge_epoch L, rf_sequence = n,
            rf_operation_id = the (str_or operation_id
              (Some (sl_bridge_epoch L @ '':'' @ show_digits (nat n) @ '':'' @ control_kind_str kind))),
            rf_kind = kind\<rparr>, L\<lparr>sl_sequence := n\<rparr>))"

definition enrol :: "submission_record \<Rightarrow> submission_ledger \<Rightarrow> submission_ledger" where
  "enrol r L =
     L\<lparr>sl_objects := (sl_objects L)(rf_sequence (op_ref r) := r),
       sl_records := dput (op_key r) (rf_sequence (op_ref r)) (sl_records L),
       sl_prompt_ids := (if rf_kind (op_ref r) = KPrompt then dput (rf_operation_id (op_ref r)) (op_key r) (sl_prompt_ids L)
                         else sl_prompt_ids L)\<rparr>"

definition touch :: "submission_key \<Rightarrow> submission_ledger \<Rightarrow> submission_ledger res" where
  "touch k L =
     (case by_key L k of
        None \<Rightarrow> Inl (KeyError ''move_to_end'')
      | Some a \<Rightarrow> Inr (L\<lparr>sl_records := filter (\<lambda>(k', _). k' \<noteq> k) (sl_records L) @ [(k, a)]\<rparr>))"

definition live_count :: "submission_key option \<Rightarrow> submission_ledger \<Rightarrow> nat" where
  "live_count active L = length (filter (\<lambda>(k, a). op_live (op_at L a) \<or> Some k = active) (sl_records L))"

definition evict :: "submission_key \<Rightarrow> int \<Rightarrow> submission_ledger \<Rightarrow> submission_ledger" where
  "evict k a L =
     L\<lparr>sl_records := filter (\<lambda>(k', _). k' \<noteq> k) (sl_records L),
       sl_evicted_before_sequence := max (sl_evicted_before_sequence L) (rf_sequence (op_ref (op_at L a))),
       sl_prompt_ids := (if rf_kind (op_ref (op_at L a)) = KPrompt
                         then filter (\<lambda>(i, _). i \<noteq> rf_operation_id (op_ref (op_at L a))) (sl_prompt_ids L)
                         else sl_prompt_ids L)\<rparr>"

definition evictable :: "(submission_key \<Rightarrow> bool) \<Rightarrow> submission_ledger \<Rightarrow> (submission_key \<times> int) option" where
  "evictable pinned L = find (\<lambda>(k, a). \<not> pinned k \<and> op_state (op_at L a) \<in> EVICTABLE_STATES) (sl_records L)"

lemma evict_shrinks: "evictable pinned L = Some (k, a) \<Longrightarrow> length (sl_records (evict k a L)) < length (sl_records L)"
  by (auto simp: evictable_def evict_def find_Some_iff intro!: length_filter_less [of "(k, a)"]) (metis nth_mem)

function make_room :: "(submission_key \<Rightarrow> bool) \<Rightarrow> submission_ledger \<Rightarrow> bool \<times> submission_ledger" where
  "make_room pinned L =
     (if int (length (sl_records L)) < sl_limit L then (True, L)
      else case evictable pinned L of
             None \<Rightarrow> (False, L)
           | Some (k, a) \<Rightarrow> make_room pinned (evict k a L))"
  by pat_completeness auto
termination
  by (relation "measure (\<lambda>(pinned, L). length (sl_records L))") (auto dest: evict_shrinks)

declare make_room.simps [simp del]

subsection \<open>The reads\<close>

definition MAX_LOOKUP_REQUEST_IDS :: nat where
  "MAX_LOOKUP_REQUEST_IDS = 64"

definition MAX_OPERATION_TIMELINE_PAGE :: int where
  "MAX_OPERATION_TIMELINE_PAGE = 256"

definition require_epoch :: "string \<Rightarrow> submission_ledger \<Rightarrow> unit res" where
  "require_epoch expected L =
     (if expected \<noteq> sl_bridge_epoch L then Inl (HarnessBridgeEpochMismatchError expected (sl_bridge_epoch L)) else Inr ())"

definition require_lookup_ids :: "string \<Rightarrow> string list \<Rightarrow> unit res" where
  "require_lookup_ids subject request_ids =
     (if \<not> (1 \<le> length request_ids \<and> length request_ids \<le> MAX_LOOKUP_REQUEST_IDS)
      then Inl (HarnessControlError (subject @ '' requires 1..64 request ids''))
      else if \<not> distinct request_ids then Inl (HarnessControlError (subject @ '' request ids must be unique''))
      else Inr ())"

record submission_lookup =
  lk_request_id :: string
  lk_outcome :: lookup_outcome
  lk_submission :: "submission_status option"

definition ledger_status :: "string \<Rightarrow> string list \<Rightarrow> bool \<Rightarrow> submission_ledger \<Rightarrow> (string \<times> submission_lookup list) res" where
  "ledger_status expected request_ids cockpit_only L =
     rbind (require_epoch expected L) (\<lambda>_.
     rbind (require_lookup_ids ''submission status'' request_ids) (\<lambda>_.
     Inr (sl_bridge_epoch L,
       map (\<lambda>i. case by_request_id L i of
                   None \<Rightarrow> \<lparr>lk_request_id = i, lk_outcome = LookupNotFound, lk_submission = None\<rparr>
                 | Some a \<Rightarrow> if cockpit_only \<and> op_source (op_at L a) \<noteq> Some SrcCockpit
                             then \<lparr>lk_request_id = i, lk_outcome = LookupNotFound, lk_submission = None\<rparr>
                             else \<lparr>lk_request_id = i, lk_outcome = LookupFound, lk_submission = Some (op_status (op_at L a))\<rparr>)
         request_ids)))"

definition ledger_provenance :: "string \<Rightarrow> string list \<Rightarrow> submission_ledger \<Rightarrow> (string \<times> submission_provenance list) res" where
  "ledger_provenance expected request_ids L =
     rbind (require_epoch expected L) (\<lambda>_.
     rbind (require_lookup_ids ''submission provenance'' request_ids) (\<lambda>_.
     Inr (sl_bridge_epoch L,
       map (\<lambda>i. case by_request_id L i of
                   None \<Rightarrow> \<lparr>sp_request_id = i, sp_outcome = LookupNotFound, sp_source = None, sp_state = None, sp_submitted_at = None,
                            sp_updated_at = None, sp_accepted_at = None, sp_vendor_correlation_id = None\<rparr>
                 | Some a \<Rightarrow> op_provenance (op_at L a))
         request_ids)))"

record timeline_page =
  tl_bridge_epoch :: string
  tl_latest_sequence :: int
  tl_evicted_before_sequence :: int
  tl_truncated :: bool
  tl_items :: "timeline_item list"

fun page_items :: "(json \<Rightarrow> int) \<Rightarrow> int \<Rightarrow> int \<Rightarrow> submission_record list \<Rightarrow> timeline_item list \<Rightarrow> int \<Rightarrow> timeline_item list \<times> bool" where
  "page_items json_bytes bounded byte_budget [] items used = (items, False)"
| "page_items json_bytes bounded byte_budget (r # rs) items used =
     (let item = op_timeline_item r; size = json_bytes (JObj (operation_timeline_item_json item))
      in if bounded \<le> int (length items) \<or> (items \<noteq> [] \<and> byte_budget < used + size) then (items, True)
         else page_items json_bytes bounded byte_budget rs (items @ [item]) (used + size))"

definition retained_rows :: "submission_ledger \<Rightarrow> submission_record list" where
  "retained_rows L = sort_key (rf_sequence \<circ> op_ref) (map (op_at L \<circ> snd) (sl_records L))"

definition operation_timeline ::
  "(json \<Rightarrow> int) \<Rightarrow> string \<Rightarrow> int \<Rightarrow> int \<Rightarrow> int \<Rightarrow> submission_ledger \<Rightarrow> timeline_page res" where
  "operation_timeline json_bytes expected after_sequence limit byte_budget L =
     rbind (require_epoch expected L) (\<lambda>_.
     if limit < 1 \<or> byte_budget < 1
     then Inl (HarnessControlError ''operation timeline requires positive limit and byte budget'')
     else
       let page = page_items json_bytes (min MAX_OPERATION_TIMELINE_PAGE limit) byte_budget
                    (filter (\<lambda>r. after_sequence < rf_sequence (op_ref r)) (retained_rows L)) [] 0
       in Inr \<lparr>tl_bridge_epoch = sl_bridge_epoch L, tl_latest_sequence = sl_sequence L,
               tl_evicted_before_sequence = sl_evicted_before_sequence L, tl_truncated = snd page, tl_items = fst page\<rparr>)"

end
