(* ===== verification/Submission_Authority.thy ===== *)
theory Submission_Authority
  imports Submission_Ledger
begin

section \<open>The submission authority\<close>

text \<open>
  \<^verbatim>\<open>serving/harness_submission_authority.py\<close>: the one queue of prompts and setters of a hosted bridge. Callers submit, withdraw,
  reconcile and resolve; a dispatcher task takes the head of the queue, asks the adapter whether it can take it (the preflight),
  claims it, hands it over and applies what came back; adapter events complete the active operation.

  Every method runs from one \<^verbatim>\<open>await\<close> to the next without interruption, and no lock is held across an \<^verbatim>\<open>await\<close>, so each such stretch
  is one step here and everything else may happen in between. \<open>au_dispatcher\<close> is where the dispatcher task waits. The answers of the
  adapter are arguments of the steps that receive them; the clock, \<^verbatim>\<open>sha256\<close> and \<^verbatim>\<open>json.dumps\<close> are in the environment. \<open>au_wire\<close>
  is the history of the adapter methods called, with the calls the adapter certified as not sent. Messages are kept without
  the quotation marks of \<^verbatim>\<open>repr\<close>.
\<close>

subsection \<open>Wire types\<close>

record control_identity =
  ci_ar_session_id :: string
  ci_tmux_name :: string
  ci_created_at :: string

record interaction_question =
  iq_text :: string
  iq_header :: string
  iq_options :: "(string \<times> string option) list"
  iq_multi_select :: bool

record pending_interaction =
  pi_interaction_id :: string
  pi_kind :: string
  pi_prompt :: string
  pi_created_at :: string
  pi_choices :: "string list"
  pi_raw :: json_object
  pi_questions :: "interaction_question list"

record adapter_snapshot =
  sn_identity :: control_identity
  sn_control :: bridge_state
  sn_activity :: activity_state
  sn_acceptance :: acceptance_state
  sn_vendor_session_id :: "string option"
  sn_pending_interaction :: "pending_interaction option"
  sn_pending_interactions :: "pending_interaction list"
  sn_last_event_sequence :: int
  sn_raw :: json_object

record prompt_request =
  pq_request_id :: string
  pq_source :: submission_source
  pq_text :: string
  pq_submitted_at :: string
  pq_operation :: "operation_ref option"
  pq_expected_bridge_epoch :: "string option"
  pq_assets :: "asset_reference list"

record interaction_response =
  ir_interaction_id :: string
  ir_response :: string
  ir_responded_at :: string
  ir_operation :: "operation_ref option"

record transcript_entry =
  ts_sequence :: int
  ts_role :: string
  ts_text :: string
  ts_created_at :: string
  ts_request_id :: "string option"
  ts_vendor_correlation_id :: "string option"
  ts_raw :: json_object

record adapter_event =
  ae_sequence :: int
  ae_kind :: string
  ae_identity :: control_identity
  ae_created_at :: string
  ae_snapshot :: "adapter_snapshot option"
  ae_transcript :: "transcript_entry list"
  ae_raw :: json_object
  ae_operation :: "operation_ref option"

record withdrawal_recovery =
  wr_text :: "string option"
  wr_assets :: "asset_reference list"

datatype withdrawal_outcome = WdWithdrawn | WdNotWithdrawable | WdNotFound

record withdrawal_result =
  wd_request_id :: string
  wd_outcome :: withdrawal_outcome
  wd_state :: "submission_state option"
  wd_withdrawn_at :: "string option"
  wd_detail :: "string option"
  wd_recovery :: "withdrawal_recovery option"

subsection \<open>The adapter\<close>

datatype adapter_call = CallPrompt prompt_request | CallSetter operation_ref string

datatype wire_entry = WireCall int adapter_call | WireUnsent int

text \<open>How the preflight and the method of an operation may end. A disconnect says whether bytes may have been sent.\<close>

datatype preflight_outcome =
    PreflightOk
  | PreflightBusy string
  | PreflightDisconnected string bool "string option"
  | PreflightRaised string

datatype adapter_result = GotReceipt authority_receipt | GotSet set_result | GotOther

datatype method_outcome =
    MethodReturned adapter_result
  | MethodBusy string
  | MethodDisconnected string bool "string option"
  | MethodRaised string

subsection \<open>The state\<close>

datatype dispatcher = DispNone | DispWaiting | DispLooking | DispPreflight int | DispSending int | DispDead

record authority_env =
  ax_clock :: "nat \<Rightarrow> string"
  ax_sha256 :: "string \<Rightarrow> string"
  ax_dumps :: "json \<Rightarrow> string"
  ax_asset_capable :: bool

record authority =
  au_ledger :: submission_ledger
  au_timeline_limit :: int
  au_snapshot :: adapter_snapshot
  au_timeline :: "submission_key list"
  au_active :: "submission_key option"
  au_responded :: "string list"
  au_wake :: bool
  au_dispatcher :: dispatcher
  au_accepting :: bool
  au_last_adapter_sequence :: int
  au_consumed :: "operation_ref list"
  au_reconciling :: "(operation_ref \<times> string) list"
  au_ticks :: nat
  au_wire :: "wire_entry list"

abbreviation au_epoch :: "authority \<Rightarrow> string" where
  "au_epoch s \<equiv> sl_bridge_epoch (au_ledger s)"

abbreviation au_op :: "authority \<Rightarrow> int \<Rightarrow> submission_record" where
  "au_op s a \<equiv> sl_objects (au_ledger s) a"

definition blank_record :: submission_record where
  "blank_record =
     \<lparr>op_ref = \<lparr>rf_bridge_epoch = '''', rf_sequence = 0, rf_operation_id = '''', rf_kind = KPrompt\<rparr>, op_state = SubWithdrawn,
      op_submitted_at = '''', op_updated_at = '''', op_source = None, op_payload_digest = None, op_text = None, op_requested_value = None,
      op_accepted_at = None, op_vendor_correlation_id = None, op_detail = None, op_buffered_completion_sequence = None,
      op_result_future = None, op_assets = []\<rparr>"

definition new_authority :: "int \<Rightarrow> int \<Rightarrow> seconds \<Rightarrow> string \<Rightarrow> adapter_snapshot \<Rightarrow> authority res" where
  "new_authority timeline_limit ledger_limit grace bridge_epoch snapshot =
     (if timeline_limit < 1 \<or> ledger_limit < 1 then Inl (HarnessControlError ''submission authority limits must be positive'')
      else if ledger_limit < timeline_limit then Inl (HarnessControlError ''submission ledger limit cannot be below timeline limit'')
      else if grace \<le> 0 then Inl (HarnessControlError ''submission authority dispatch grace must be positive'')
      else Inr
        \<lparr>au_ledger = \<lparr>sl_bridge_epoch = bridge_epoch, sl_limit = ledger_limit, sl_objects = (\<lambda>_. blank_record), sl_records = [],
                      sl_prompt_ids = [], sl_sequence = 0, sl_evicted_before_sequence = 0\<rparr>,
         au_timeline_limit = timeline_limit, au_snapshot = snapshot, au_timeline = [], au_active = None, au_responded = [],
         au_wake = False, au_dispatcher = DispNone, au_accepting = False, au_last_adapter_sequence = 0, au_consumed = [],
         au_reconciling = [], au_ticks = 0, au_wire = []\<rparr>)"

subsection \<open>Building blocks\<close>

definition raise :: "py_error \<Rightarrow> ('s, 'a) prog" where
  "raise e = slift (Inl e)"

definition scatch :: "('s, 'a) prog \<Rightarrow> (py_error \<Rightarrow> ('s, 'a) prog) \<Rightarrow> ('s, 'a) prog" where
  "scatch m h s = (case m s of (Inl e, s') \<Rightarrow> h e s' | (Inr x, s') \<Rightarrow> (Inr x, s'))"

definition asks :: "('s \<Rightarrow> 'a) \<Rightarrow> ('s, 'a) prog" where
  "asks f = sget (\<lambda>s. Inr (f s))"

definition read_clock :: "authority_env \<Rightarrow> (authority, string) prog" where
  "read_clock env s = (Inr (ax_clock env (au_ticks s)), s\<lparr>au_ticks := Suc (au_ticks s)\<rparr>)"

definition alter_row :: "int \<Rightarrow> (submission_record \<Rightarrow> submission_record) \<Rightarrow> (authority, unit) prog" where
  "alter_row a f = smodify (\<lambda>s. s\<lparr>au_ledger := update_row a f (au_ledger s)\<rparr>)"

definition wake :: "(authority, unit) prog" where
  "wake = smodify (\<lambda>s. s\<lparr>au_wake := True\<rparr>)"

definition touch_row :: "submission_key \<Rightarrow> (authority, unit) prog" where
  "touch_row k s = (case touch k (au_ledger s) of Inl e \<Rightarrow> (Inl e, s) | Inr L \<Rightarrow> (Inr (), s\<lparr>au_ledger := L\<rparr>))"

definition snapshot_allows_dispatch :: "authority \<Rightarrow> bool" where
  "snapshot_allows_dispatch s \<longleftrightarrow> sn_control (au_snapshot s) = CtlReady \<and> sn_activity (au_snapshot s) = ActIdle"

definition pinned :: "authority \<Rightarrow> submission_key \<Rightarrow> bool" where
  "pinned s k \<longleftrightarrow> Some k = au_active s \<or> k \<in> set (au_timeline s)"

definition has_admission_room :: "(authority, bool) prog" where
  "has_admission_room s =
     (if int (live_count (au_active s) (au_ledger s)) < au_timeline_limit s
      then (let (room, L) = make_room (pinned s) (au_ledger s) in (Inr room, s\<lparr>au_ledger := L\<rparr>))
      else (Inr False, s))"

definition head_is_dispatchable :: "submission_key \<Rightarrow> authority \<Rightarrow> bool" where
  "head_is_dispatchable k s \<longleftrightarrow> au_timeline s = [k] \<and> au_active s = None \<and> snapshot_allows_dispatch s"

definition bounded_append :: "int \<Rightarrow> 'a \<Rightarrow> 'a list \<Rightarrow> 'a list" where
  "bounded_append maxlen x xs = (let ys = xs @ [x] in drop (length ys - nat maxlen) ys)"

definition release_head :: "int \<Rightarrow> bool \<Rightarrow> (authority, unit) prog" where
  "release_head a consume_completion =
     sbind (smodify (\<lambda>s.
       let k = op_key (au_op s a)
       in s\<lparr>au_active := (if au_active s = Some k then None else au_active s),
            au_timeline := remove1 k (au_timeline s),
            au_consumed := (if consume_completion then bounded_append (sl_limit (au_ledger s)) (op_ref (au_op s a)) (au_consumed s)
                            else au_consumed s),
            au_ledger := update_row a (\<lambda>r. r\<lparr>op_buffered_completion_sequence := None\<rparr>) (au_ledger s),
            au_responded := []\<rparr>)) (\<lambda>_.
     sbind (asks (\<lambda>s. op_key (au_op s a))) touch_row)"

definition mark_unknown_row :: "authority_env \<Rightarrow> int \<Rightarrow> string \<Rightarrow> string option \<Rightarrow> (authority, unit) prog" where
  "mark_unknown_row env a detail correlation =
     sbind (read_clock env) (\<lambda>now.
     sbind (asks au_epoch) (\<lambda>epoch.
     alter_row a (mark_unknown detail correlation now epoch)))"

text \<open>\<^verbatim>\<open>{**snapshot.raw, key: value}\<close> and the disconnected snapshot of an operation that may have been sent.\<close>

definition disconnect_snapshot :: "string \<Rightarrow> (authority, unit) prog" where
  "disconnect_snapshot detail = smodify (\<lambda>s. s\<lparr>au_snapshot := (au_snapshot s)
     \<lparr>sn_control := CtlDisconnected, sn_activity := ActUnknown, sn_acceptance := AccUnknown,
      sn_raw := dput ''disconnect'' (JStr detail) (sn_raw (au_snapshot s))\<rparr>\<rparr>)"

definition require_accepting :: "(authority, unit) prog" where
  "require_accepting = sget (\<lambda>s. if au_accepting s then Inr () else Inl (HarnessControlError ''submission authority is stopped''))"

definition require_epoch_opt :: "string option \<Rightarrow> (authority, unit) prog" where
  "require_epoch_opt expected = sget (\<lambda>s. case expected of None \<Rightarrow> Inr () | Some e \<Rightarrow> require_epoch e (au_ledger s))"

definition payload_digest :: "authority_env \<Rightarrow> string \<Rightarrow> asset_reference list \<Rightarrow> string" where
  "payload_digest env text assets =
     (if assets = [] then ax_sha256 env text
      else ax_sha256 env (ax_dumps env (JObj
        [(''text'', JStr text),
         (''assets'', JList (map (\<lambda>x. JObj [(''assetId'', JStr (as_asset_id x)), (''mimeType'', JStr (as_mime_type x)),
            (''byteSize'', JNum (as_byte_size x)), (''sha256'', JStr (as_sha256 x))]) (sort_key as_asset_id assets)))])))"

subsection \<open>Submitting\<close>

datatype submission_reply = Answered authority_receipt | Awaiting int

definition pre_admission_receipt :: "prompt_request \<Rightarrow> string \<Rightarrow> (authority, authority_receipt option) prog" where
  "pre_admission_receipt request digest =
     sbind (asks (\<lambda>s. by_request_id (au_ledger s) (pq_request_id request))) (\<lambda>prior.
     case prior of
       Some a \<Rightarrow>
         sbind (asks (\<lambda>s. au_op s a)) (\<lambda>r.
         if op_source r \<noteq> Some (pq_source request) \<or> op_payload_digest r \<noteq> Some digest
         then raise (HarnessRequestConflictError
           (''request id '' @ pq_request_id request @ '' already belongs to its first source/payload''))
         else sbind (touch_row (op_key r)) (\<lambda>_. asks (\<lambda>s. Some (duplicate_receipt (au_epoch s) (au_op s a)))))
     | None \<Rightarrow>
         sbind has_admission_room (\<lambda>room.
         if room then sret None
         else asks (\<lambda>s. Some
           \<lparr>sr_request_id = pq_request_id request, sr_acceptance = AccRejected, sr_vendor_correlation_id = None, sr_accepted_at = None,
            sr_detail = Some ''submission ledger is full of live or unresolved operations'', sr_submitted_at = pq_submitted_at request,
            sr_raw = [], sr_bridge_epoch = Some (au_epoch s)\<rparr>)))"

definition enrol_row :: "control_kind \<Rightarrow> string option \<Rightarrow> (operation_ref \<Rightarrow> submission_record) \<Rightarrow> (authority, int) prog" where
  "enrol_row kind operation_id f s =
     (let (r, L) = next_ref kind operation_id (au_ledger s)
      in (Inr (rf_sequence r), s\<lparr>au_ledger := enrol (f r) L\<rparr>))"

definition enrol_prompt :: "prompt_request \<Rightarrow> string \<Rightarrow> (authority, int) prog" where
  "enrol_prompt request digest = enrol_row KPrompt (Some (pq_request_id request)) (\<lambda>r.
     \<lparr>op_ref = r, op_state = SubQueued, op_submitted_at = pq_submitted_at request, op_updated_at = pq_submitted_at request,
      op_source = Some (pq_source request), op_payload_digest = Some digest, op_text = Some (pq_text request), op_requested_value = None,
      op_accepted_at = None, op_vendor_correlation_id = None, op_detail = Some ''queued inside the authoritative control bridge'',
      op_buffered_completion_sequence = None, op_result_future = None, op_assets = pq_assets request\<rparr>)"

definition unsupported_prompt :: "authority_env \<Rightarrow> int \<Rightarrow> prompt_request \<Rightarrow> (authority, authority_receipt option) prog" where
  "unsupported_prompt env a request =
     sbind (asks (\<lambda>s. sn_control (au_snapshot s) = CtlUnsupported)) (\<lambda>unsupported.
     if unsupported
     then sbind (alter_row a (mark_terminal SubUnsupported (Some ''hosted harness does not support native prompt control'')
                  (pq_submitted_at request))) (\<lambda>_.
          asks (\<lambda>s. Some (op_receipt AccUnsupported (au_epoch s) None (au_op s a))))
     else if pq_assets request \<noteq> [] \<and> \<not> ax_asset_capable env
     then sbind (alter_row a (mark_terminal SubUnsupported (Some ''hosted harness does not support asset submissions'')
                  (pq_submitted_at request))) (\<lambda>_.
          asks (\<lambda>s. Some (op_receipt AccUnsupported (au_epoch s) None (au_op s a))))
     else sret None)"

definition join_timeline :: "int \<Rightarrow> (authority, unit) prog" where
  "join_timeline a = smodify (\<lambda>s. s\<lparr>au_timeline := au_timeline s @ [op_key (au_op s a)]\<rparr>)"

text \<open>The queue takes the row; an idle adapter lets the submitter wait for the outcome.\<close>

definition enqueue_prompt :: "int \<Rightarrow> (authority, submission_reply) prog" where
  "enqueue_prompt a =
     sbind (join_timeline a) (\<lambda>_.
     sbind (asks (\<lambda>s. head_is_dispatchable (op_key (au_op s a)) s)) (\<lambda>dispatchable.
     if \<not> dispatchable
     then sbind wake (\<lambda>_. asks (\<lambda>s. Answered (op_receipt AccQueued (au_epoch s) None (au_op s a))))
     else sbind (alter_row a (\<lambda>r. r\<lparr>op_result_future := Some FutPending\<rparr>)) (\<lambda>_.
          sbind wake (\<lambda>_. sret (Awaiting a)))))"

definition admit_prompt :: "authority_env \<Rightarrow> prompt_request \<Rightarrow> string \<Rightarrow> (authority, submission_reply) prog" where
  "admit_prompt env request digest =
     sbind (enrol_prompt request digest) (\<lambda>a.
     sbind (unsupported_prompt env a request) (\<lambda>unsupported.
     case unsupported of None \<Rightarrow> enqueue_prompt a | Some receipt \<Rightarrow> sret (Answered receipt)))"

definition authority_submit :: "authority_env \<Rightarrow> prompt_request \<Rightarrow> (authority, submission_reply) prog" where
  "authority_submit env request =
     sbind require_accepting (\<lambda>_.
     sbind (require_epoch_opt (pq_expected_bridge_epoch request)) (\<lambda>_.
     let digest = payload_digest env (pq_text request) (pq_assets request) in
     sbind (pre_admission_receipt request digest) (\<lambda>settled.
     case settled of None \<Rightarrow> admit_prompt env request digest | Some receipt \<Rightarrow> sret (Answered receipt))))"

text \<open>The bounded wait of a submitter ran out.\<close>

definition grace_expired :: "int \<Rightarrow> (authority, authority_receipt) prog" where
  "grace_expired a = asks (\<lambda>s. pending_dispatch_receipt (au_epoch s) (au_op s a))"

datatype setter_reply = SetAnswered set_result | SetAwaiting int

definition failed_set :: "set_acceptance \<Rightarrow> string \<Rightarrow> string \<Rightarrow> set_result" where
  "failed_set acceptance requested_value detail =
     \<lparr>st_ok = False, st_acceptance = acceptance, st_requested_value = requested_value, st_effective_value = None, st_detail = Some detail\<rparr>"

definition admit_setter :: "authority_env \<Rightarrow> control_kind \<Rightarrow> string \<Rightarrow> (authority, setter_reply) prog" where
  "admit_setter env kind requested_value =
     sbind require_accepting (\<lambda>_.
     sbind (asks (\<lambda>s. sn_control (au_snapshot s) = CtlUnsupported)) (\<lambda>unsupported.
     if unsupported
     then sret (SetAnswered (failed_set SetUnsupported requested_value ''hosted harness does not support native capability control''))
     else
     sbind has_admission_room (\<lambda>room.
     if \<not> room
     then sret (SetAnswered (failed_set SetUnknown requested_value ''operation ledger is full of live or unresolved operations''))
     else
     sbind (read_clock env) (\<lambda>now.
     sbind (enrol_row kind None (\<lambda>r.
       \<lparr>op_ref = r, op_state = SubQueued, op_submitted_at = now, op_updated_at = now, op_source = None, op_payload_digest = None,
        op_text = None, op_requested_value = Some requested_value, op_accepted_at = None, op_vendor_correlation_id = None,
        op_detail = Some ''queued in the authoritative ordinary-operation timeline'', op_buffered_completion_sequence = None,
        op_result_future = Some FutPending, op_assets = []\<rparr>)) (\<lambda>a.
     sbind (join_timeline a) (\<lambda>_.
     sbind wake (\<lambda>_. sret (SetAwaiting a))))))))"

subsection \<open>Withdrawing, reconciling and resolving\<close>

definition withdrawal_missing :: "string \<Rightarrow> withdrawal_result" where
  "withdrawal_missing request_id =
     \<lparr>wd_request_id = request_id, wd_outcome = WdNotFound, wd_state = None, wd_withdrawn_at = None,
      wd_detail = Some ''submission is not retained for this cockpit authority'', wd_recovery = None\<rparr>"

definition authority_withdraw :: "authority_env \<Rightarrow> string \<Rightarrow> string \<Rightarrow> bool \<Rightarrow> (authority, withdrawal_result) prog" where
  "authority_withdraw env expected request_id cockpit_only =
     sbind (require_epoch_opt (Some expected)) (\<lambda>_.
     sbind (asks (\<lambda>s. (by_request_id (au_ledger s) request_id, au_op s))) (\<lambda>(found, rows).
     case found of
       None \<Rightarrow> sret (withdrawal_missing request_id)
     | Some a \<Rightarrow>
         if cockpit_only \<and> op_source (rows a) \<noteq> Some SrcCockpit then sret (withdrawal_missing request_id)
         else if op_state (rows a) = SubWithdrawn
         then sret \<lparr>wd_request_id = request_id, wd_outcome = WdWithdrawn, wd_state = Some SubWithdrawn,
           wd_withdrawn_at = Some (op_updated_at (rows a)), wd_detail = op_detail (rows a), wd_recovery = None\<rparr>
         else if op_state (rows a) \<noteq> SubQueued
         then sret \<lparr>wd_request_id = request_id, wd_outcome = WdNotWithdrawable, wd_state = Some (op_state (rows a)), wd_withdrawn_at = None,
           wd_detail = Some (''submission is already '' @ submission_state_str (op_state (rows a))), wd_recovery = None\<rparr>
         else
         sbind (read_clock env) (\<lambda>now.
         sbind (smodify (\<lambda>s. s\<lparr>au_timeline := remove1 (op_key (rows a)) (au_timeline s)\<rparr>)) (\<lambda>_.
         sbind (alter_row a (mark_terminal SubWithdrawn (Some ''queued submission was withdrawn'') now)) (\<lambda>_.
         sbind (asks (\<lambda>s. op_receipt AccRejected (au_epoch s) None (au_op s a))) (\<lambda>receipt.
         sbind (alter_row a (op_resolve (FutReceipt receipt))) (\<lambda>_.
         sbind wake (\<lambda>_.
         sret \<lparr>wd_request_id = request_id, wd_outcome = WdWithdrawn, wd_state = Some SubWithdrawn, wd_withdrawn_at = Some now,
           wd_detail = Some ''queued submission was withdrawn'',
           wd_recovery = Some \<lparr>wr_text = op_text (rows a), wr_assets = op_assets (rows a)\<rparr>\<rparr>))))))))"

datatype reconcile_reply = ReconcileKnown authority_reconciliation | ReconcileAsk operation_ref

definition reconcile_ask :: "string option \<Rightarrow> string \<Rightarrow> (authority, reconcile_reply) prog" where
  "reconcile_ask expected request_id =
     sbind (require_epoch_opt expected) (\<lambda>_.
     sbind (asks (\<lambda>s. by_request_id (au_ledger s) request_id)) (\<lambda>found.
     case found of
       None \<Rightarrow> raise (HarnessControlError (''submission '' @ request_id @ '' is no longer retained for reconciliation''))
     | Some a \<Rightarrow>
         sbind (asks (\<lambda>s. op_reconciliation (au_epoch s) (au_op s a))) (\<lambda>known.
         case known of
           Some answer \<Rightarrow> sbind (asks (\<lambda>s. op_key (au_op s a))) (\<lambda>k. sbind (touch_row k) (\<lambda>_. sret (ReconcileKnown answer)))
         | None \<Rightarrow>
             sbind (asks (\<lambda>s. op_ref (au_op s a))) (\<lambda>ref.
             sbind (smodify (\<lambda>s. s\<lparr>au_reconciling := (ref, request_id) # au_reconciling s\<rparr>)) (\<lambda>_. sret (ReconcileAsk ref))))))"

text \<open>The second half, with the adapter's answer. \<open>au_reconciling\<close> holds the calls that wait for one.\<close>

definition apply_reconciliation :: "int \<Rightarrow> authority_reconciliation \<Rightarrow> (authority, unit) prog" where
  "apply_reconciliation a result =
     (case rr_state result of
        RecAccepted \<Rightarrow> alter_row a (\<lambda>r. r\<lparr>op_state := SubDelivered, op_accepted_at := Some (rr_reconciled_at result),
          op_vendor_correlation_id := rr_vendor_correlation_id result, op_detail := rr_detail result,
          op_updated_at := rr_reconciled_at result\<rparr>)
      | RecRejected \<Rightarrow> sbind (alter_row a (mark_terminal SubRejected (rr_detail result) (rr_reconciled_at result)))
          (\<lambda>_. release_head a False)
      | RecUnsupported \<Rightarrow> sbind (alter_row a (mark_terminal SubUnsupported (rr_detail result) (rr_reconciled_at result)))
          (\<lambda>_. release_head a False)
      | RecUnresolved \<Rightarrow> alter_row a (\<lambda>r. r\<lparr>op_detail := rr_detail result, op_updated_at := rr_reconciled_at result\<rparr>))"

definition reconcile_answer :: "operation_ref \<Rightarrow> string \<Rightarrow> authority_reconciliation \<Rightarrow> (authority, authority_reconciliation) prog" where
  "reconcile_answer ref request_id result =
     (if rr_request_id result \<noteq> request_id then raise (HarnessControlError ''adapter reconciliation request id does not match'')
      else
      sbind (asks (\<lambda>s. by_key (au_ledger s) (control_ref_key ref))) (\<lambda>current.
      case current of
        None \<Rightarrow> raise (HarnessControlError ''submission disappeared during reconciliation'')
      | Some a \<Rightarrow>
          sbind (apply_reconciliation a result) (\<lambda>_.
          sbind wake (\<lambda>_.
          asks (\<lambda>s. result\<lparr>rr_bridge_epoch := Some (au_epoch s), rr_submission_state := Some (op_state (au_op s a))\<rparr>)))))"

text \<open>\<^verbatim>\<open>OperationResolution\<close>: applied, or not applied.\<close>

definition settle_unknown :: "authority_env \<Rightarrow> int \<Rightarrow> bool \<Rightarrow> string \<Rightarrow> (authority, unit) prog" where
  "settle_unknown env a applied detail =
     sbind (read_clock env) (\<lambda>now.
     sbind (alter_row a (mark_terminal (if applied then SubDelivered else SubRejected) (Some detail) now)) (\<lambda>_.
     sbind (release_head a False) (\<lambda>_. wake)))"

definition resolve_operation :: "authority_env \<Rightarrow> string \<Rightarrow> control_kind \<Rightarrow> bool \<Rightarrow> string \<Rightarrow> (authority, unit) prog" where
  "resolve_operation env operation_id kind applied detail =
     sbind (asks (\<lambda>s. by_key (au_ledger s) (kind, operation_id))) (\<lambda>found.
     case found of
       None \<Rightarrow> raise (HarnessControlError ''only an unknown operation can be operator-resolved'')
     | Some a \<Rightarrow>
         sbind (asks (\<lambda>s. op_state (au_op s a))) (\<lambda>state.
         if state \<noteq> SubUnknown then raise (HarnessControlError ''only an unknown operation can be operator-resolved'')
         else settle_unknown env a applied detail))"

definition resolve_unknown_prompt ::
  "authority_env \<Rightarrow> string \<Rightarrow> reconciliation_state \<Rightarrow> string \<Rightarrow> (authority, authority_reconciliation) prog" where
  "resolve_unknown_prompt env request_id state detail =
     (if state \<notin> {RecAccepted, RecRejected} then raise (HarnessControlError ''operator resolution must be accepted or rejected'')
      else
      sbind (resolve_operation env request_id KPrompt (state = RecAccepted) detail) (\<lambda>_.
      sbind (read_clock env) (\<lambda>now.
      asks (\<lambda>s. \<lparr>rr_request_id = request_id, rr_state = state, rr_vendor_correlation_id = None, rr_detail = Some detail,
        rr_reconciled_at = now, rr_raw = [], rr_bridge_epoch = Some (au_epoch s),
        rr_submission_state = Some (if state = RecAccepted then SubDelivered else SubRejected)\<rparr>))))"

subsection \<open>Adapter events and interactions\<close>

definition active_row :: "authority \<Rightarrow> int option" where
  "active_row s = (case au_active s of None \<Rightarrow> None | Some k \<Rightarrow> by_key (au_ledger s) k)"

text \<open>A completion that names the row_retained active row \<open>a\<close>.\<close>

definition complete_active :: "int \<Rightarrow> operation_ref \<Rightarrow> adapter_event \<Rightarrow> (authority, unit) prog" where
  "complete_active a ref event =
     sbind (asks (\<lambda>s. au_op s a)) (\<lambda>r.
     if op_ref r \<noteq> ref then raise (HarnessControlError ''adapter completion does not match the active operation'')
     else if op_state r = SubDispatching
     then (if op_buffered_completion_sequence r \<noteq> None
           then raise (HarnessControlError ''operation already has a buffered completion'')
           else alter_row a (\<lambda>r. r\<lparr>op_buffered_completion_sequence := Some (ae_sequence event)\<rparr>))
     else if op_state r \<notin> {SubDelivered, SubUnknown}
     then raise (HarnessControlError ''active operation is not completion-eligible'')
     else
     sbind (alter_row a (mark_terminal SubDelivered (op_detail r) (ae_created_at event))) (\<lambda>_.
     sbind (release_head a True) (\<lambda>_. wake)))"

definition observe_completion :: "operation_ref \<Rightarrow> adapter_event \<Rightarrow> (authority, unit) prog" where
  "observe_completion ref event =
     sbind (asks (\<lambda>s. (au_epoch s, au_consumed s))) (\<lambda>(epoch, consumed).
     if rf_bridge_epoch ref \<noteq> epoch then raise (HarnessControlError ''completed adapter event bridge epoch mismatch'')
     else if ref \<in> set consumed
     then raise (HarnessControlError ''duplicate adapter completion cannot release a successor'')
     else
     sbind (asks active_row) (\<lambda>active.
     case active of
       None \<Rightarrow> raise (HarnessControlError ''adapter completion does not match the active operation'')
     | Some a \<Rightarrow> complete_active a ref event))"

definition observe_event :: "adapter_event \<Rightarrow> (authority, unit) prog" where
  "observe_event event =
     sbind (asks au_last_adapter_sequence) (\<lambda>last.
     if ae_sequence event \<le> last then raise (HarnessControlError ''adapter event sequence is stale at submission authority'')
     else
     sbind (smodify (\<lambda>s. s\<lparr>au_last_adapter_sequence := ae_sequence event\<rparr>)) (\<lambda>_.
     if ae_kind event \<noteq> ''completed'' then wake
     else
     case ae_operation event of
       None \<Rightarrow> raise (HarnessControlError ''completed adapter event requires exact operation ref'')
     | Some ref \<Rightarrow> observe_completion ref event))"

text \<open>The bridge installs a snapshot and wakes the dispatcher.\<close>

definition snapshot_updated :: "adapter_snapshot \<Rightarrow> (authority, unit) prog" where
  "snapshot_updated snapshot = sbind (smodify (\<lambda>s. s\<lparr>au_snapshot := snapshot\<rparr>)) (\<lambda>_. wake)"

definition respond_begin :: "interaction_response \<Rightarrow> (authority, interaction_response) prog" where
  "respond_begin response =
     sbind require_accepting (\<lambda>_.
     sbind (asks (\<lambda>s. s)) (\<lambda>t.
     let now = au_snapshot t; i = ir_interaction_id response;
         active = map_option (au_op t) (active_row t);
         matched = find (\<lambda>entry. pi_interaction_id entry = i) (sn_pending_interactions now);
         singular = (case sn_pending_interaction now of None \<Rightarrow> False | Some p \<Rightarrow> pi_interaction_id p = i);
         is_parent = (singular \<or> (case matched of None \<Rightarrow> False
           | Some entry \<Rightarrow> (case dget (pi_raw entry) ''threadId'' of None \<Rightarrow> JNull | Some v \<Rightarrow> v) =
                           json_or_null (\<lambda>s. s) (sn_vendor_session_id now)))
     in if \<not> singular \<and> matched = None
        then raise (HarnessInteractionNotPendingError ''interaction response does not match the pending interaction'')
        else if is_parent \<and> (case active of None \<Rightarrow> True | Some r \<Rightarrow> op_state r \<notin> {SubDispatching, SubDelivered, SubUnknown})
        then raise (HarnessInteractionNotPendingError ''interaction response has no active ordinary operation'')
        else if i \<in> set (au_responded t)
        then raise (HarnessInteractionNotPendingError ''interaction response was already submitted'')
        else
        sbind (smodify (\<lambda>s. s\<lparr>au_responded := i # au_responded s\<rparr>)) (\<lambda>_.
        sret (response\<lparr>ir_operation := (if is_parent then map_option op_ref active else None)\<rparr>))))"

text \<open>The adapter failed to take the response, or took it and reported a snapshot.\<close>

definition respond_failed :: "string \<Rightarrow> (authority, unit) prog" where
  "respond_failed interaction_id = smodify (\<lambda>s. s\<lparr>au_responded := filter (\<lambda>i. i \<noteq> interaction_id) (au_responded s)\<rparr>)"

definition respond_end :: "adapter_snapshot \<Rightarrow> (authority, adapter_snapshot) prog" where
  "respond_end snapshot =
     sbind (asks au_snapshot) (\<lambda>current.
     if sn_identity snapshot \<noteq> sn_identity current
     then raise (HarnessControlError ''adapter snapshot identity changed after interaction response'')
     else sbind (smodify (\<lambda>s. s\<lparr>au_snapshot := snapshot\<rparr>)) (\<lambda>_. sret snapshot))"

subsection \<open>Applying what the adapter returned\<close>

definition accept_prompt :: "int \<Rightarrow> authority_receipt \<Rightarrow> string \<Rightarrow> (authority, unit) prog" where
  "accept_prompt a receipt now =
     sbind (alter_row a (\<lambda>r. r\<lparr>op_state := SubDelivered, op_accepted_at := str_or (sr_accepted_at receipt) (Some now)\<rparr>)) (\<lambda>_.
     sbind (asks (\<lambda>s. op_receipt AccImmediate (au_epoch s) None (au_op s a))) (\<lambda>own.
     alter_row a (op_resolve (FutReceipt own))))"

definition complete_delivered :: "int \<Rightarrow> string \<Rightarrow> (authority, unit) prog" where
  "complete_delivered a now =
     sbind (alter_row a (\<lambda>r. mark_terminal SubDelivered (op_detail r) now r)) (\<lambda>_.
     sbind (release_head a True) (\<lambda>_. wake))"

definition apply_prompt_receipt :: "authority_env \<Rightarrow> int \<Rightarrow> adapter_result \<Rightarrow> string \<Rightarrow> (authority, bool) prog" where
  "apply_prompt_receipt env a result now =
     (case result of
        GotReceipt receipt \<Rightarrow>
          sbind (asks (\<lambda>s. au_op s a)) (\<lambda>r.
          if sr_request_id receipt \<noteq> rf_operation_id (op_ref r)
          then raise (HarnessControlError ''adapter receipt request id does not match operation'')
          else if sr_acceptance receipt = AccQueued
          then sbind (mark_unknown_row env a ''adapter returned forbidden queued acceptance after dispatch''
                 (sr_vendor_correlation_id receipt)) (\<lambda>_. sret False)
          else
          sbind (alter_row a (\<lambda>r. r\<lparr>op_vendor_correlation_id := sr_vendor_correlation_id receipt, op_detail := sr_detail receipt,
            op_updated_at := now\<rparr>)) (\<lambda>_.
          if sr_acceptance receipt = AccUnknown \<and> op_buffered_completion_sequence r \<noteq> None
          then sbind (accept_prompt a receipt now) (\<lambda>_. sbind (complete_delivered a now) (\<lambda>_. sret True))
          else if sr_acceptance receipt = AccImmediate
          then sbind (accept_prompt a receipt now) (\<lambda>_.
               if op_buffered_completion_sequence r = None \<and>
                  \<not> (case dget (sr_raw receipt) ''terminalCompletion'' of None \<Rightarrow> False | Some v \<Rightarrow> json_truthy v)
               then sret False
               else sbind (complete_delivered a now) (\<lambda>_. sret True))
          else if sr_acceptance receipt \<in> {AccRejected, AccUnsupported}
          then sbind (alter_row a (mark_terminal (if sr_acceptance receipt = AccRejected then SubRejected else SubUnsupported)
                 (sr_detail receipt) now)) (\<lambda>_.
               sbind (asks (\<lambda>s. op_receipt (sr_acceptance receipt) (au_epoch s) None (au_op s a))) (\<lambda>own.
               sbind (alter_row a (op_resolve (FutReceipt own))) (\<lambda>_.
               sbind (release_head a False) (\<lambda>_. sbind wake (\<lambda>_. sret True)))))
          else sbind (mark_unknown_row env a
                 (the (str_or (sr_detail receipt) (Some ''adapter could not prove prompt acceptance''))) (sr_vendor_correlation_id receipt))
               (\<lambda>_. sret False)))
      | _ \<Rightarrow> raise (HarnessControlError ''adapter prompt result must be a submission receipt''))"

definition validate_set_result :: "set_result \<Rightarrow> string \<Rightarrow> unit res" where
  "validate_set_result result requested_value =
     (if st_requested_value result \<noteq> requested_value then Inl (HarnessControlError ''adapter set result does not match requested value'')
      else if st_acceptance result = SetEchoVerified
      then (if \<not> st_ok result \<or> st_effective_value result = None
            then Inl (HarnessControlError ''echo-verified setter requires effective evidence'') else Inr ())
      else if st_acceptance result \<in> {SetImmediate, SetQueued}
      then (if \<not> st_ok result \<or> st_effective_value result \<noteq> None
            then Inl (HarnessControlError ''accepted setter result has incoherent evidence'') else Inr ())
      else if st_ok result \<or> st_effective_value result \<noteq> None
      then Inl (HarnessControlError ''failed setter result cannot claim effect'') else Inr ())"

definition apply_set_result :: "int \<Rightarrow> adapter_result \<Rightarrow> string \<Rightarrow> (authority, bool) prog" where
  "apply_set_result a result now =
     (case result of
        GotSet st \<Rightarrow>
          sbind (asks (\<lambda>s. au_op s a)) (\<lambda>r.
          sbind (slift (validate_set_result st (case op_requested_value r of None \<Rightarrow> '''' | Some v \<Rightarrow> v))) (\<lambda>_.
          sbind (alter_row a (\<lambda>r. r\<lparr>op_detail := st_detail st, op_updated_at := now\<rparr>)) (\<lambda>_.
          if st_acceptance st = SetUnknown \<and> op_buffered_completion_sequence r \<noteq> None
          then sbind (alter_row a (op_resolve (FutSet (st\<lparr>st_ok := True, st_acceptance := SetImmediate\<rparr>)))) (\<lambda>_.
               sbind (complete_delivered a now) (\<lambda>_. sret True))
          else
          sbind (alter_row a (op_resolve (FutSet st))) (\<lambda>_.
          if st_acceptance st = SetUnknown then sbind (alter_row a (\<lambda>r. r\<lparr>op_state := SubUnknown\<rparr>)) (\<lambda>_. sret False)
          else
          sbind (alter_row a (mark_terminal (if st_acceptance st = SetUnsupported then SubUnsupported else SubDelivered) (st_detail st) now))
            (\<lambda>_. sbind (release_head a False) (\<lambda>_. sbind wake (\<lambda>_. sret True)))))))
      | _ \<Rightarrow> raise (HarnessControlError ''adapter setter result must be SetResult''))"

definition apply_method_result :: "authority_env \<Rightarrow> int \<Rightarrow> adapter_result \<Rightarrow> (authority, bool) prog" where
  "apply_method_result env a result =
     sbind (asks (\<lambda>s. s)) (\<lambda>t.
     let r = au_op t a in
     if by_key (au_ledger t) (op_key r) \<noteq> Some a \<or> au_active t \<noteq> Some (op_key r)
     then raise (HarnessControlError ''ordinary operation changed while adapter method ran'')
     else
     sbind (read_clock env) (\<lambda>now.
     if rf_kind (op_ref r) = KPrompt then apply_prompt_receipt env a result now else apply_set_result a result now))"

subsection \<open>The dispatcher\<close>

text \<open>A turn of the task ends by looking again, by waiting to be woken, or with the exception that ends the task.\<close>

definition dispatcher_turn :: "(authority, bool) prog \<Rightarrow> (authority, unit) prog" where
  "dispatcher_turn m s =
     (case m s of
        (Inl e, s') \<Rightarrow> (Inr (), s'\<lparr>au_dispatcher := DispDead\<rparr>)
      | (Inr again, s') \<Rightarrow> (Inr (), s'\<lparr>au_dispatcher := (if again then DispLooking else DispWaiting)\<rparr>))"

definition dispatcher_wake :: "(authority, unit) prog" where
  "dispatcher_wake = smodify (\<lambda>s.
     if au_dispatcher s = DispWaiting \<and> au_wake s then s\<lparr>au_wake := False, au_dispatcher := DispLooking\<rparr> else s)"

definition dispatchable_head :: "authority \<Rightarrow> int option res" where
  "dispatchable_head s =
     (case au_timeline s of
        [] \<Rightarrow> Inr None
      | k # _ \<Rightarrow>
          if au_active s \<noteq> None then Inr None
          else case by_key (au_ledger s) k of
                 None \<Rightarrow> Inl (RuntimeError ''AssertionError'')
               | Some a \<Rightarrow> Inr (if op_state (au_op s a) \<noteq> SubQueued \<or> \<not> snapshot_allows_dispatch s then None else Some a))"

definition dispatcher_look :: "(authority, unit) prog" where
  "dispatcher_look =
     sbind (asks au_dispatcher) (\<lambda>d.
     if d \<noteq> DispLooking then sret ()
     else smodify (\<lambda>s. s\<lparr>au_dispatcher :=
       (case dispatchable_head s of Inl e \<Rightarrow> DispDead | Inr None \<Rightarrow> DispWaiting | Inr (Some a) \<Rightarrow> DispPreflight a)\<rparr>))"

definition possible_send_failure :: "authority_env \<Rightarrow> int \<Rightarrow> string \<Rightarrow> string option \<Rightarrow> (authority, unit) prog" where
  "possible_send_failure env a detail correlation =
     sbind (mark_unknown_row env a detail correlation) (\<lambda>_. disconnect_snapshot detail)"

definition unknown_after_preflight_claim :: "authority_env \<Rightarrow> int \<Rightarrow> string \<Rightarrow> string option \<Rightarrow> (authority, unit) prog" where
  "unknown_after_preflight_claim env a detail correlation =
     sbind (smodify (\<lambda>s. s\<lparr>au_active := Some (op_key (au_op s a))\<rparr>)) (\<lambda>_.
     sbind (mark_unknown_row env a detail correlation) (\<lambda>_. disconnect_snapshot detail))"

definition preflight_busy :: "authority_env \<Rightarrow> int \<Rightarrow> string \<Rightarrow> (authority, unit) prog" where
  "preflight_busy env a detail =
     sbind (read_clock env) (\<lambda>now.
     sbind (alter_row a (\<lambda>r. r\<lparr>op_detail := Some detail, op_updated_at := now\<rparr>)) (\<lambda>_.
     sbind (asks (\<lambda>s. (op_receipt AccQueued (au_epoch s) None (au_op s a), rf_kind (op_ref (au_op s a))))) (\<lambda>(receipt, kind).
     if kind = KPrompt then alter_row a (op_resolve (FutReceipt receipt)) else sret ())))"

definition claim_head :: "authority_env \<Rightarrow> int \<Rightarrow> (authority, bool) prog" where
  "claim_head env a =
     sbind (asks (\<lambda>s. s)) (\<lambda>t.
     let r = au_op t a in
     if au_timeline t = [] \<or> hd (au_timeline t) \<noteq> op_key r \<or> au_active t \<noteq> None \<or> op_state r \<noteq> SubQueued \<or>
        rf_bridge_epoch (op_ref r) \<noteq> au_epoch t \<or> \<not> snapshot_allows_dispatch t
     then sret False
     else
     sbind (read_clock env) (\<lambda>now.
     sbind (alter_row a (\<lambda>r. r\<lparr>op_state := SubDispatching, op_updated_at := now\<rparr>)) (\<lambda>_.
     sbind (smodify (\<lambda>s. s\<lparr>au_active := Some (op_key r)\<rparr>)) (\<lambda>_.
     sret True))))"

text \<open>The call \<^verbatim>\<open>_invoke_adapter\<close> makes; \<^verbatim>\<open>None\<close> where one of its assertions fails.\<close>

definition adapter_invocation :: "authority_env \<Rightarrow> submission_record \<Rightarrow> adapter_call option" where
  "adapter_invocation env r =
     (if rf_kind (op_ref r) \<noteq> KPrompt
      then map_option (CallSetter (op_ref r)) (op_requested_value r)
      else case op_text r of None \<Rightarrow> None | Some text \<Rightarrow> (case op_source r of None \<Rightarrow> None | Some source \<Rightarrow>
        if op_assets r \<noteq> [] \<and> \<not> ax_asset_capable env then None
        else Some (CallPrompt
          \<lparr>pq_request_id = rf_operation_id (op_ref r), pq_source = source, pq_text = text, pq_submitted_at = op_submitted_at r,
           pq_operation = Some (op_ref r), pq_expected_bridge_epoch = None, pq_assets = op_assets r\<rparr>)))"

definition begin_call :: "authority_env \<Rightarrow> int \<Rightarrow> (authority, unit) prog" where
  "begin_call env a =
     sbind (asks (\<lambda>s. adapter_invocation env (au_op s a))) (\<lambda>call.
     case call of
       None \<Rightarrow> dispatcher_turn (sbind (possible_send_failure env a '''' None) (\<lambda>_. sret False))
     | Some c \<Rightarrow> smodify (\<lambda>s. s\<lparr>au_wire := au_wire s @ [WireCall a c], au_dispatcher := DispSending a\<rparr>))"

text \<open>The preflight of \<^verbatim>\<open>a\<close> ended. Of its exceptions only a busy or disconnected adapter is caught.\<close>

definition dispatcher_preflight :: "authority_env \<Rightarrow> preflight_outcome \<Rightarrow> (authority, unit) prog" where
  "dispatcher_preflight env outcome =
     sbind (asks au_dispatcher) (\<lambda>d.
     case d of
       DispPreflight a \<Rightarrow>
         (case outcome of
            PreflightOk \<Rightarrow> sbind (claim_head env a) (\<lambda>claimed.
              if claimed then begin_call env a else dispatcher_turn (sret True))
          | PreflightBusy detail \<Rightarrow> dispatcher_turn (sbind (preflight_busy env a detail) (\<lambda>_. sret False))
          | PreflightDisconnected detail may_have_sent correlation \<Rightarrow>
              dispatcher_turn (sbind
                (if may_have_sent then unknown_after_preflight_claim env a detail correlation else preflight_busy env a detail)
                (\<lambda>_. sret False))
          | PreflightRaised detail \<Rightarrow> dispatcher_turn (raise (RuntimeError detail)))
     | _ \<Rightarrow> sret ())"

definition certified_pre_send_busy :: "authority_env \<Rightarrow> int \<Rightarrow> string \<Rightarrow> (authority, unit) prog" where
  "certified_pre_send_busy env a detail =
     sbind (asks (\<lambda>s. s)) (\<lambda>t.
     let r = au_op t a in
     if au_active t \<noteq> Some (op_key r) \<or> op_state r \<noteq> SubDispatching
     then raise (HarnessControlError ''pre-send busy result does not match active dispatch'')
     else
     sbind (read_clock env) (\<lambda>now.
     sbind (alter_row a (\<lambda>r. r\<lparr>op_state := SubQueued, op_detail := Some detail, op_updated_at := now\<rparr>)) (\<lambda>_.
     sbind (smodify (\<lambda>s. s\<lparr>au_active := None, au_wire := au_wire s @ [WireUnsent a]\<rparr>)) (\<lambda>_.
     sbind (asks (\<lambda>s. op_receipt AccQueued (au_epoch s) None (au_op s a))) (\<lambda>receipt.
     if rf_kind (op_ref r) = KPrompt then alter_row a (op_resolve (FutReceipt receipt)) else sret ())))))"

fun exception_text :: "py_error \<Rightarrow> string" where
  "exception_text (HarnessControlError m) = ''HarnessControlError: '' @ m"
| "exception_text (KeyError m) = ''KeyError: '' @ m"
| "exception_text _ = ''Exception''"

definition incoherent_method_result :: "authority_env \<Rightarrow> int \<Rightarrow> py_error \<Rightarrow> (authority, unit) prog" where
  "incoherent_method_result env a e =
     sbind (asks (\<lambda>s. s)) (\<lambda>t.
     if au_active t \<noteq> Some (op_key (au_op t a)) \<or> op_state (au_op t a) \<noteq> SubDispatching
     then raise (HarnessControlError ''incoherent adapter result does not match active dispatch'')
     else mark_unknown_row env a (''incoherent adapter '' @ exception_text e) None)"

text \<open>The adapter method of \<^verbatim>\<open>a\<close> ended.\<close>

definition settle_method :: "authority_env \<Rightarrow> int \<Rightarrow> method_outcome \<Rightarrow> (authority, bool) prog" where
  "settle_method env a outcome =
     (case outcome of
        MethodReturned result \<Rightarrow>
          scatch (apply_method_result env a result) (\<lambda>e. sbind (incoherent_method_result env a e) (\<lambda>_. sret False))
      | MethodBusy detail \<Rightarrow> sbind (certified_pre_send_busy env a detail) (\<lambda>_. sret False)
      | MethodDisconnected detail may_have_sent correlation \<Rightarrow>
          sbind (if may_have_sent then possible_send_failure env a detail correlation else certified_pre_send_busy env a detail)
            (\<lambda>_. sret False)
      | MethodRaised detail \<Rightarrow> sbind (possible_send_failure env a detail None) (\<lambda>_. sret False))"

definition dispatcher_return :: "authority_env \<Rightarrow> method_outcome \<Rightarrow> (authority, unit) prog" where
  "dispatcher_return env outcome =
     sbind (asks au_dispatcher) (\<lambda>d.
     case d of DispSending a \<Rightarrow> dispatcher_turn (settle_method env a outcome) | _ \<Rightarrow> sret ())"

subsection \<open>Starting and stopping\<close>

definition authority_start :: "(authority, unit) prog" where
  "authority_start =
     sbind (asks au_dispatcher) (\<lambda>d.
     if d \<noteq> DispNone then raise (HarnessControlError ''submission authority is already started'')
     else smodify (\<lambda>s. s\<lparr>au_accepting := True, au_dispatcher := DispWaiting\<rparr>))"

definition stop_begin :: "(authority, unit) prog" where
  "stop_begin = smodify (\<lambda>s. s\<lparr>au_accepting := False\<rparr>)"

text \<open>A graceful stop first waits for the future of the operation in flight.\<close>

definition stop_may_finish :: "bool \<Rightarrow> authority \<Rightarrow> bool" where
  "stop_may_finish forced s \<longleftrightarrow> forced \<or>
     (case active_row s of None \<Rightarrow> True
      | Some a \<Rightarrow> \<not> (op_state (au_op s a) = SubDispatching \<and> op_result_future (au_op s a) = Some FutPending))"

definition stop_finish :: "bool \<Rightarrow> (authority, unit) prog" where
  "stop_finish forced =
     sbind (asks (stop_may_finish forced)) (\<lambda>ready.
     if \<not> ready then sret ()
     else smodify (\<lambda>s. s\<lparr>au_dispatcher := (if au_dispatcher s = DispNone then DispNone else DispDead),
       au_ledger := (au_ledger s)\<lparr>sl_objects := (\<lambda>a.
         if a \<in> snd ` set (sl_records (au_ledger s))
         then op_resolve (FutError (HarnessControlError ''submission authority stopped'')) (au_op s a) else au_op s a)\<rparr>\<rparr>))"

end
