(* ===== verification/Submission_Machine.thy ===== *)
theory Submission_Machine
  imports Submission_Authority
begin

section \<open>The authority as a machine\<close>

text \<open>
  Every step of every caller, of the adapter and of the dispatcher task, as one labelled transition, and a
  small calculus for what a program keeps: \<open>triple P m Q\<close> says that \<open>m\<close> takes a state with \<open>P\<close> to a result and a state
  with \<open>Q\<close>, also when it raises.
\<close>

subsection \<open>Steps\<close>

datatype authority_label =
    DoStart
  | DoSubmit prompt_request
  | DoSetter control_kind string
  | DoWithdraw string string bool
  | DoReconcileAsk "string option" string
  | DoReconcileAnswer operation_ref string authority_reconciliation
  | DoResolve string control_kind bool string
  | DoResolvePrompt string reconciliation_state string
  | DoObserve adapter_event
  | DoSnapshot adapter_snapshot
  | DoRespondBegin interaction_response
  | DoRespondFailed string
  | DoRespondEnd adapter_snapshot
  | DoWake
  | DoLook
  | DoPreflight preflight_outcome
  | DoReturn method_outcome
  | DoStopBegin
  | DoStopFinish bool

definition drop_result :: "('s, 'a) prog \<Rightarrow> ('s, unit) prog" where
  "drop_result m = sbind m (\<lambda>_. sret ())"

definition resume_reconcile :: "operation_ref \<Rightarrow> string \<Rightarrow> authority_reconciliation \<Rightarrow> (authority, unit) prog" where
  "resume_reconcile ref request_id result =
     sbind (asks (\<lambda>s. (ref, request_id) \<in> set (au_reconciling s))) (\<lambda>waiting.
     if \<not> waiting then sret ()
     else sbind (smodify (\<lambda>s. s\<lparr>au_reconciling := remove1 (ref, request_id) (au_reconciling s)\<rparr>)) (\<lambda>_.
          drop_result (reconcile_answer ref request_id result)))"

fun authority_prog :: "authority_env \<Rightarrow> authority_label \<Rightarrow> (authority, unit) prog" where
  "authority_prog env DoStart = authority_start"
| "authority_prog env (DoSubmit request) = drop_result (authority_submit env request)"
| "authority_prog env (DoSetter kind v) = drop_result (admit_setter env kind v)"
| "authority_prog env (DoWithdraw epoch i cockpit_only) = drop_result (authority_withdraw env epoch i cockpit_only)"
| "authority_prog env (DoReconcileAsk epoch i) = drop_result (reconcile_ask epoch i)"
| "authority_prog env (DoReconcileAnswer ref i result) = resume_reconcile ref i result"
| "authority_prog env (DoResolve i kind applied detail) = resolve_operation env i kind applied detail"
| "authority_prog env (DoResolvePrompt i state detail) = drop_result (resolve_unknown_prompt env i state detail)"
| "authority_prog env (DoObserve event) = observe_event event"
| "authority_prog env (DoSnapshot snapshot) = snapshot_updated snapshot"
| "authority_prog env (DoRespondBegin response) = drop_result (respond_begin response)"
| "authority_prog env (DoRespondFailed i) = respond_failed i"
| "authority_prog env (DoRespondEnd snapshot) = drop_result (respond_end snapshot)"
| "authority_prog env DoWake = dispatcher_wake"
| "authority_prog env DoLook = dispatcher_look"
| "authority_prog env (DoPreflight outcome) = dispatcher_preflight env outcome"
| "authority_prog env (DoReturn outcome) = dispatcher_return env outcome"
| "authority_prog env DoStopBegin = stop_begin"
| "authority_prog env (DoStopFinish forced) = stop_finish forced"

definition authority_next :: "authority_env \<Rightarrow> authority_label \<Rightarrow> authority \<Rightarrow> authority" where
  "authority_next env l s = snd (authority_prog env l s)"

definition authority_run :: "authority_env \<Rightarrow> authority_label list \<Rightarrow> authority \<Rightarrow> authority" where
  "authority_run env ls s = foldl (\<lambda>t l. authority_next env l t) s ls"

text \<open>The callers name a prompt by a non-empty id, and set a model or an effort.\<close>

fun label_ok :: "authority_label \<Rightarrow> bool" where
  "label_ok (DoSubmit request) = (pq_request_id request \<noteq> '''')"
| "label_ok (DoSetter kind v) = (kind \<noteq> KPrompt)"
| "label_ok _ = True"

text \<open>
  A reconciliation answers for the row it asked about when the id was not evicted and submitted again meanwhile. The code does not check
  it, so the machine has every answer (\<open>authority_step\<close>); the runs whose answers are all exact are \<open>exact_step\<close>.
\<close>

definition exact_row :: "operation_ref \<Rightarrow> authority \<Rightarrow> bool" where
  "exact_row ref s \<longleftrightarrow> (case by_key (au_ledger s) (control_ref_key ref) of None \<Rightarrow> True | Some a \<Rightarrow> op_ref (au_op s a) = ref)"

fun exact_answer :: "authority_label \<Rightarrow> authority \<Rightarrow> bool" where
  "exact_answer (DoReconcileAnswer ref i result) s = exact_row ref s"
| "exact_answer _ s = True"

inductive authority_step :: "authority_env \<Rightarrow> authority \<Rightarrow> authority \<Rightarrow> bool" for env :: authority_env where
  "label_ok l \<Longrightarrow> authority_step env s (authority_next env l s)"

inductive exact_step :: "authority_env \<Rightarrow> authority \<Rightarrow> authority \<Rightarrow> bool" for env :: authority_env where
  "label_ok l \<Longrightarrow> exact_answer l s \<Longrightarrow> exact_step env s (authority_next env l s)"

lemma exact_is_authority_step: "exact_step env s s' \<Longrightarrow> authority_step env s s'"
  by (auto simp: exact_step.simps authority_step.simps)

subsection \<open>A calculus\<close>

definition triple :: "('s \<Rightarrow> bool) \<Rightarrow> ('s, 'a) prog \<Rightarrow> ('a res \<Rightarrow> 's \<Rightarrow> bool) \<Rightarrow> bool" where
  "triple P m Q \<longleftrightarrow> (\<forall>s r s'. P s \<longrightarrow> m s = (r, s') \<longrightarrow> Q r s')"

named_theorems triples

lemma tripleI: "(\<And>s r s'. P s \<Longrightarrow> m s = (r, s') \<Longrightarrow> Q r s') \<Longrightarrow> triple P m Q"
  by (simp add: triple_def)

lemma tripleD: "triple P m Q \<Longrightarrow> P s \<Longrightarrow> Q (fst (m s)) (snd (m s))"
  by (cases "m s") (auto simp: triple_def)

lemma triple_pre: "triple P' m Q \<Longrightarrow> (\<And>s. P s \<Longrightarrow> P' s) \<Longrightarrow> triple P m Q"
  unfolding triple_def by blast

lemma triple_post: "triple P m Q' \<Longrightarrow> (\<And>r s. Q' r s \<Longrightarrow> Q r s) \<Longrightarrow> triple P m Q"
  unfolding triple_def by blast

lemma triple_bind:
  assumes "triple P m (\<lambda>r s. case r of Inl e \<Rightarrow> R (Inl e) s | Inr x \<Rightarrow> Q x s)" "\<And>x. triple (Q x) (f x) R"
  shows "triple P (sbind m f) R"
proof (rule tripleI)
  fix s r s' assume s: "P s" "sbind m f s = (r, s')"
  obtain y t where m: "m s = (y, t)" by (cases "m s")
  with assms(1) s(1) have "case y of Inl e \<Rightarrow> R (Inl e) t | Inr x \<Rightarrow> Q x t" by (auto simp: triple_def)
  with m s(2) assms(2) show "R r s'" by (cases y) (auto simp: sbind_def triple_def)
qed

text \<open>The common case: one assertion holds between the two, whatever the first returned.\<close>

lemma triple_seq:
  assumes "triple P m (\<lambda>_. Q)" "\<And>x. triple Q (f x) (\<lambda>_. R)" "\<And>s. Q s \<Longrightarrow> R s"
  shows "triple P (sbind m f) (\<lambda>_. R)"
  by (rule triple_bind [of _ _ _ "\<lambda>_. Q"]) (use assms in \<open>auto simp: triple_def split: sum.splits\<close>)

lemma triple_keep: "triple P m (\<lambda>_. P) \<Longrightarrow> (\<And>x. triple P (f x) (\<lambda>_. P)) \<Longrightarrow> triple P (sbind m f) (\<lambda>_. P)"
  by (rule triple_seq)

lemma triple_asks: "(\<And>x. triple (\<lambda>s. P s \<and> f s = x) (g x) R) \<Longrightarrow> triple P (sbind (asks f) g) R"
  by (auto simp: triple_def asks_def sbind_sget)

lemma triple_asks_end: "(\<And>s. P s \<Longrightarrow> R (Inr (f s)) s) \<Longrightarrow> triple P (asks f) R"
  by (auto simp: triple_def asks_def)

lemma triple_sget: "(\<And>s r. P s \<Longrightarrow> R r s) \<Longrightarrow> triple P (sget f) R"
  by (auto simp: triple_def)

lemma triple_smodify: "(\<And>s. P s \<Longrightarrow> Q (Inr ()) (f s)) \<Longrightarrow> triple P (smodify f) Q"
  by (auto simp: triple_def)

lemma triple_sret: "(\<And>s. P s \<Longrightarrow> Q (Inr x) s) \<Longrightarrow> triple P (sret x) Q"
  by (auto simp: triple_def)

lemma triple_raise: "(\<And>s. P s \<Longrightarrow> Q (Inl e) s) \<Longrightarrow> triple P (raise e) Q"
  by (auto simp: triple_def raise_def)

lemma triple_slift: "(\<And>s. P s \<Longrightarrow> Q r s) \<Longrightarrow> triple P (slift r) Q"
  by (auto simp: triple_def)

lemma triple_if: "(b \<Longrightarrow> triple P m Q) \<Longrightarrow> (\<not> b \<Longrightarrow> triple P n Q) \<Longrightarrow> triple P (if b then m else n) Q"
  by simp

lemma triple_option: "(x = None \<Longrightarrow> triple P m Q) \<Longrightarrow> (\<And>y. x = Some y \<Longrightarrow> triple P (n y) Q) \<Longrightarrow>
    triple P (case x of None \<Rightarrow> m | Some y \<Rightarrow> n y) Q"
  by (cases x) simp_all

lemma triple_scatch:
  assumes "triple P m (\<lambda>r s. case r of Inl e \<Rightarrow> Q e s | Inr x \<Rightarrow> R (Inr x) s)" "\<And>e. triple (Q e) (h e) R"
  shows "triple P (scatch m h) R"
proof (rule tripleI)
  fix s r s' assume s: "P s" "scatch m h s = (r, s')"
  obtain y t where m: "m s = (y, t)" by (cases "m s")
  with assms(1) s(1) have "case y of Inl e \<Rightarrow> Q e t | Inr x \<Rightarrow> R (Inr x) t" by (auto simp: triple_def)
  with m s(2) assms(2) show "R r s'" by (cases y) (auto simp: scatch_def triple_def)
qed

end
