(* ===== verification/Submission_Invariant.thy ===== *)
theory Submission_Invariant
  imports Submission_Machine
begin

section \<open>The invariant of the authority\<close>

text \<open>
  What holds in every state of every run, whatever the callers and the adapter do: the ledger is indexed consistently and bounded, the
  queue is in the order of admission, and an operation has at most one call that the adapter did not certify as unsent. Where \<open>X\<close> is
  true the runs are those with exact answers, and moreover, while that call is unsettled, its row is retained and active. First the
  building blocks, then one lemma per operation, then the machine.
\<close>

subsection \<open>The invariant\<close>

fun call_addrs :: "wire_entry list \<Rightarrow> int list" where
  "call_addrs [] = []"
| "call_addrs (WireCall a c # w) = a # call_addrs w"
| "call_addrs (WireUnsent a # w) = call_addrs w"

fun unsent_addrs :: "wire_entry list \<Rightarrow> int list" where
  "unsent_addrs [] = []"
| "unsent_addrs (WireCall a c # w) = unsent_addrs w"
| "unsent_addrs (WireUnsent a # w) = a # unsent_addrs w"

text \<open>The calls for an operation that the adapter did not certify as unsent.\<close>

definition open_sends :: "int \<Rightarrow> wire_entry list \<Rightarrow> int" where
  "open_sends a w = int (count_list (call_addrs w) a) - int (count_list (unsent_addrs w) a)"

lemma call_addrs_append [simp]: "call_addrs (v @ w) = call_addrs v @ call_addrs w"
  by (induction v rule: call_addrs.induct) simp_all

lemma unsent_addrs_append [simp]: "unsent_addrs (v @ w) = unsent_addrs v @ unsent_addrs w"
  by (induction v rule: unsent_addrs.induct) simp_all

lemma open_sends_simps [simp]:
  "open_sends a [] = 0"
  "open_sends a (w @ [WireCall b c]) = (if a = b then open_sends a w + 1 else open_sends a w)"
  "open_sends a (w @ [WireUnsent b]) = (if a = b then open_sends a w - 1 else open_sends a w)"
  by (simp_all add: open_sends_def)

lemma call_count_snoc [simp]:
  "count_list (call_addrs (w @ [WireCall b c])) a = (if a = b then Suc (count_list (call_addrs w) a) else count_list (call_addrs w) a)"
  "count_list (call_addrs (w @ [WireUnsent b])) a = count_list (call_addrs w) a"
  by simp_all

definition setter_id :: "string \<Rightarrow> int \<Rightarrow> control_kind \<Rightarrow> string" where
  "setter_id epoch n kind = epoch @ '':'' @ show_digits (nat n) @ '':'' @ control_kind_str kind"

definition minted :: "submission_ledger \<Rightarrow> int \<Rightarrow> bool" where
  "minted L a \<longleftrightarrow> 1 \<le> a \<and> a \<le> sl_sequence L"

definition SETTLED :: "submission_state set" where
  "SETTLED = {SubDelivered, SubWithdrawn, SubRejected, SubUnsupported}"

text \<open>The retained rows: one row per key, every reference minted once, prompts indexed by their id, no more rows than the limit.\<close>

definition ledger_inv :: "submission_ledger \<Rightarrow> bool" where
  "ledger_inv L \<longleftrightarrow>
     dict_ok (sl_records L) \<and> 0 \<le> sl_sequence L \<and>
     (\<forall>k a. by_key L k = Some a \<longrightarrow> op_key (op_at L a) = k \<and> minted L a) \<and>
     (\<forall>a. minted L a \<longrightarrow> rf_sequence (op_ref (op_at L a)) = a \<and>
        (rf_kind (op_ref (op_at L a)) \<noteq> KPrompt \<longrightarrow>
           rf_operation_id (op_ref (op_at L a)) = setter_id (sl_bridge_epoch L) a (rf_kind (op_ref (op_at L a))))) \<and>
     (\<forall>i k. dget (sl_prompt_ids L) i = Some k \<longleftrightarrow> k = (KPrompt, i) \<and> by_key L k \<noteq> None) \<and>
     int (length (sl_records L)) \<le> sl_limit L"

text \<open>The queue holds retained rows in the order of their ordinals, after every row already called.\<close>

definition queue_inv :: "authority \<Rightarrow> bool" where
  "queue_inv s \<longleftrightarrow>
     (\<forall>k\<in>set (au_timeline s). by_key (au_ledger s) k \<noteq> None) \<and>
     sorted_wrt (<) (map (\<lambda>k. the (by_key (au_ledger s) k)) (au_timeline s)) \<and>
     (\<forall>a\<in>set (call_addrs (au_wire s)). \<forall>k\<in>set (au_timeline s). a \<le> the (by_key (au_ledger s) k)) \<and>
     sorted (call_addrs (au_wire s)) \<and> (\<forall>a\<in>set (call_addrs (au_wire s)). minted (au_ledger s) a)"

text \<open>
  An operation has at most one uncertified call, and a row that is queued or being sent is retained; with exact answers, while a call is
  open and unsettled its row is retained and active.
\<close>

definition wire_inv :: "bool \<Rightarrow> authority \<Rightarrow> bool" where
  "wire_inv X s \<longleftrightarrow>
     (\<forall>a. open_sends a (au_wire s) \<in> {0, 1}) \<and>
     (\<forall>a. open_sends a (au_wire s) = 1 \<longrightarrow> minted (au_ledger s) a \<and> op_state (au_op s a) \<noteq> SubQueued \<and>
        (X \<longrightarrow> op_state (au_op s a) \<in> {SubDispatching, SubUnknown} \<longrightarrow>
           by_key (au_ledger s) (op_key (au_op s a)) = Some a \<and> au_active s = Some (op_key (au_op s a)))) \<and>
     (\<forall>a. minted (au_ledger s) a \<longrightarrow> op_state (au_op s a) \<in> {SubQueued, SubDispatching} \<longrightarrow>
        by_key (au_ledger s) (op_key (au_op s a)) = Some a)"

lemma wire_invD:
  assumes "wire_inv X s"
  shows "open_sends a (au_wire s) = 0 \<or> open_sends a (au_wire s) = 1"
    "open_sends a (au_wire s) = 1 \<Longrightarrow> minted (au_ledger s) a \<and> op_state (au_op s a) \<noteq> SubQueued"
    "X \<Longrightarrow> open_sends a (au_wire s) = 1 \<Longrightarrow> op_state (au_op s a) \<in> {SubDispatching, SubUnknown} \<Longrightarrow>
       by_key (au_ledger s) (op_key (au_op s a)) = Some a \<and> au_active s = Some (op_key (au_op s a))"
    "minted (au_ledger s) a \<Longrightarrow> op_state (au_op s a) \<in> {SubQueued, SubDispatching} \<Longrightarrow>
       by_key (au_ledger s) (op_key (au_op s a)) = Some a"
  using assms unfolding wire_inv_def by blast+

lemma wire_invI:
  assumes "\<And>a. open_sends a (au_wire s) = 0 \<or> open_sends a (au_wire s) = 1"
    "\<And>a. open_sends a (au_wire s) = 1 \<Longrightarrow> minted (au_ledger s) a \<and> op_state (au_op s a) \<noteq> SubQueued"
    "\<And>a. X \<Longrightarrow> open_sends a (au_wire s) = 1 \<Longrightarrow> op_state (au_op s a) \<in> {SubDispatching, SubUnknown} \<Longrightarrow>
       by_key (au_ledger s) (op_key (au_op s a)) = Some a \<and> au_active s = Some (op_key (au_op s a))"
    "\<And>a. minted (au_ledger s) a \<Longrightarrow> op_state (au_op s a) \<in> {SubQueued, SubDispatching} \<Longrightarrow>
       by_key (au_ledger s) (op_key (au_op s a)) = Some a"
  shows "wire_inv X s"
  using assms unfolding wire_inv_def by blast

text \<open>The rows in \<open>D\<close> are past sending: they keep the number of calls \<open>N\<close> they had.\<close>

definition past_sending :: "int set \<Rightarrow> (int \<Rightarrow> nat) \<Rightarrow> authority \<Rightarrow> bool" where
  "past_sending D N s \<longleftrightarrow>
     (\<forall>a\<in>D. minted (au_ledger s) a \<and> op_state (au_op s a) \<noteq> SubQueued \<and> open_sends a (au_wire s) = 0 \<and>
        count_list (call_addrs (au_wire s)) a = N a)"

text \<open>A reconciliation waits for an answer about a row that was unknown when it asked, and is neither queued nor dispatched since.\<close>

definition asked_ok :: "authority \<Rightarrow> operation_ref \<Rightarrow> bool" where
  "asked_ok s ref \<longleftrightarrow> minted (au_ledger s) (rf_sequence ref) \<and> op_ref (au_op s (rf_sequence ref)) = ref \<and>
     op_state (au_op s (rf_sequence ref)) \<notin> {SubQueued, SubDispatching}"

definition reconcile_inv :: "bool \<Rightarrow> authority \<Rightarrow> bool" where
  "reconcile_inv X s \<longleftrightarrow> (X \<longrightarrow> (\<forall>p\<in>set (au_reconciling s). asked_ok s (fst p)))"

lemma reconcile_inv_rows:
  assumes "reconcile_inv X s" "set (au_reconciling t) \<subseteq> set (au_reconciling s)"
    "\<And>a. minted (au_ledger s) a \<Longrightarrow> minted (au_ledger t) a \<and> op_ref (au_op t a) = op_ref (au_op s a) \<and>
       (op_state (au_op s a) \<notin> {SubQueued, SubDispatching} \<longrightarrow> op_state (au_op t a) \<notin> {SubQueued, SubDispatching})"
  shows "reconcile_inv X t"
  unfolding reconcile_inv_def asked_ok_def
proof (intro impI ballI)
  fix p assume X and "p \<in> set (au_reconciling t)"
  with assms(1,2) have "asked_ok s (fst p)" unfolding reconcile_inv_def by blast
  then show "minted (au_ledger t) (rf_sequence (fst p)) \<and> op_ref (au_op t (rf_sequence (fst p))) = fst p \<and>
     op_state (au_op t (rf_sequence (fst p))) \<notin> {SubQueued, SubDispatching}"
    using assms(3) [of "rf_sequence (fst p)"] unfolding asked_ok_def by simp
qed

text \<open>What a caller leaves alone: the dispatcher, the wire, the operation in flight; it may release the active operation.\<close>

definition frame_inv :: "bool \<Rightarrow> authority option \<Rightarrow> authority \<Rightarrow> bool" where
  "frame_inv X g s \<longleftrightarrow>
     (\<forall>t. g = Some t \<longrightarrow> au_dispatcher s = au_dispatcher t \<and> au_wire s = au_wire t \<and> (au_active s = au_active t \<or> au_active s = None) \<and>
        sl_sequence (au_ledger t) \<le> sl_sequence (au_ledger s) \<and>
        (X \<longrightarrow> (\<forall>a. minted (au_ledger t) a \<longrightarrow> op_state (au_op t a) = SubDispatching \<longrightarrow> op_state (au_op s a) = SubDispatching)))"

definition core_inv :: "bool \<Rightarrow> int set \<Rightarrow> (int \<Rightarrow> nat) \<Rightarrow> authority option \<Rightarrow> authority \<Rightarrow> bool" where
  "core_inv X D N g s \<longleftrightarrow>
     ledger_inv (au_ledger s) \<and> queue_inv s \<and> wire_inv X s \<and> past_sending D N s \<and> reconcile_inv X s \<and> frame_inv X g s"

text \<open>In a preflight nothing is active; the operation being sent has its call open, and with exact answers it is dispatching.\<close>

definition dispatcher_inv :: "bool \<Rightarrow> authority \<Rightarrow> bool" where
  "dispatcher_inv X s \<longleftrightarrow>
     (\<forall>a. au_dispatcher s = DispPreflight a \<longrightarrow> au_active s = None \<and> minted (au_ledger s) a \<and> open_sends a (au_wire s) = 0) \<and>
     (\<forall>a. au_dispatcher s = DispSending a \<longrightarrow> open_sends a (au_wire s) = 1 \<and> (X \<longrightarrow> op_state (au_op s a) = SubDispatching))"

definition machine_inv :: "bool \<Rightarrow> int set \<Rightarrow> (int \<Rightarrow> nat) \<Rightarrow> authority \<Rightarrow> bool" where
  "machine_inv X D N s \<longleftrightarrow> core_inv X D N None s \<and> dispatcher_inv X s"

lemmas inv_defs = ledger_inv_def queue_inv_def wire_inv_def past_sending_def reconcile_inv_def asked_ok_def frame_inv_def

text \<open>A change of a row that keeps its reference and either keeps its state or settles it.\<close>

definition settles :: "(submission_record \<Rightarrow> submission_record) \<Rightarrow> bool" where
  "settles f \<longleftrightarrow> (\<forall>r. op_ref (f r) = op_ref r \<and> (op_state (f r) = op_state r \<or> op_state (f r) \<in> SETTLED))"

lemma op_key_ref: "op_ref r = op_ref r' \<Longrightarrow> op_key r = op_key r'"
  by (simp add: op_key_def)

lemma update_row_simps [simp]:
  "sl_records (update_row a f L) = sl_records L" "by_key (update_row a f L) k = by_key L k" "sl_sequence (update_row a f L) = sl_sequence L"
  "sl_prompt_ids (update_row a f L) = sl_prompt_ids L" "sl_limit (update_row a f L) = sl_limit L"
  "sl_bridge_epoch (update_row a f L) = sl_bridge_epoch L" "minted (update_row a f L) b = minted L b"
  "op_at (update_row a f L) b = (if b = a then f (op_at L a) else op_at L b)"
  by (simp_all add: update_row_def by_key_def minted_def)

lemma ledger_inv_update:
  assumes "ledger_inv L" "op_ref (f (op_at L a)) = op_ref (op_at L a)"
  shows "ledger_inv (update_row a f L)"
  using assms op_key_ref [OF assms(2)] by (auto simp: ledger_inv_def)

text \<open>A change that keeps reference and state is always harmless; one that settles must not hit the operation in flight.\<close>

definition calm :: "bool \<Rightarrow> authority option \<Rightarrow> int \<Rightarrow> authority \<Rightarrow> bool" where
  "calm X g a s \<longleftrightarrow> \<not> X \<or> g = None \<or> op_state (au_op s a) \<noteq> SubDispatching"

definition quiet :: "(submission_record \<Rightarrow> submission_record) \<Rightarrow> bool" where
  "quiet f \<longleftrightarrow> (\<forall>r. op_ref (f r) = op_ref r \<and> op_state (f r) = op_state r)"

lemma core_inv_alter:
  assumes inv: "core_inv X D N g s" and f: "op_ref (f (au_op s a)) = op_ref (au_op s a)"
    and st: "op_state (f (au_op s a)) = op_state (au_op s a) \<or> op_state (f (au_op s a)) \<in> SETTLED \<and> calm X g a s"
  shows "core_inv X D N g (s\<lparr>au_ledger := update_row a f (au_ledger s)\<rparr>)"
proof -
  let ?r = "au_op s a" and ?t = "s\<lparr>au_ledger := update_row a f (au_ledger s)\<rparr>"
  have key: "op_key (f ?r) = op_key ?r" using f by (rule op_key_ref)
  from st have q: "op_state (f ?r) = SubQueued \<Longrightarrow> op_state ?r = SubQueued"
    "op_state (f ?r) \<in> {SubDispatching, SubUnknown} \<Longrightarrow> op_state (f ?r) = op_state ?r"
    "op_state (f ?r) \<in> {SubQueued, SubDispatching} \<Longrightarrow> op_state (f ?r) = op_state ?r" by (auto simp: SETTLED_def)
  have w: "wire_inv X s" using inv by (simp add: core_inv_def)
  have "ledger_inv (au_ledger ?t)" using inv f by (simp add: core_inv_def ledger_inv_update)
  moreover have "queue_inv ?t" using inv by (simp add: core_inv_def queue_inv_def)
  moreover have "wire_inv X ?t"
  proof (rule wire_invI)
    fix b
    show "open_sends b (au_wire ?t) = 0 \<or> open_sends b (au_wire ?t) = 1" using wire_invD(1) [OF w] by simp
    show "minted (au_ledger ?t) b \<and> op_state (au_op ?t b) \<noteq> SubQueued" if "open_sends b (au_wire ?t) = 1"
      using that wire_invD(2) [OF w, of b] q(1) by auto
    show "by_key (au_ledger ?t) (op_key (au_op ?t b)) = Some b \<and> au_active ?t = Some (op_key (au_op ?t b))"
      if X "open_sends b (au_wire ?t) = 1" "op_state (au_op ?t b) \<in> {SubDispatching, SubUnknown}"
      using that wire_invD(3) [OF w, of b] q(2) key by (cases "b = a") auto
    show "by_key (au_ledger ?t) (op_key (au_op ?t b)) = Some b"
      if "minted (au_ledger ?t) b" "op_state (au_op ?t b) \<in> {SubQueued, SubDispatching}"
      using that wire_invD(4) [OF w, of b] q(3) key by (cases "b = a") auto
  qed
  moreover have "past_sending D N ?t" using inv q(1) by (auto simp: core_inv_def past_sending_def)
  moreover have "reconcile_inv X ?t" 
    by (rule reconcile_inv_rows [of X s]) (use inv q f in \<open>auto simp: core_inv_def\<close>)
  moreover have "frame_inv X g ?t" using inv st by (auto simp: core_inv_def frame_inv_def calm_def split: option.splits)
  ultimately show ?thesis by (simp add: core_inv_def)
qed

lemma triple_alter_quiet:
  assumes "quiet f"
  shows "triple (core_inv X D N g) (alter_row a f) (\<lambda>_. core_inv X D N g)"
  unfolding alter_row_def by (rule triple_smodify, rule core_inv_alter) (use assms in \<open>simp_all add: quiet_def\<close>)

lemma triple_alter_row:
  assumes "settles f"
  shows "triple (\<lambda>s. core_inv X D N g s \<and> calm X g a s) (alter_row a f) (\<lambda>_. core_inv X D N g)"
  unfolding alter_row_def by (rule triple_smodify, rule core_inv_alter) (use assms in \<open>auto simp: settles_def\<close>)

subsection \<open>The building blocks keep the invariant\<close>

lemma queue_inv_cong:
  assumes "queue_inv s" "au_timeline t = au_timeline s" "au_wire t = au_wire s"
    "\<And>k. k \<in> set (au_timeline s) \<Longrightarrow> by_key (au_ledger t) k = by_key (au_ledger s) k"
    "\<And>a. minted (au_ledger s) a \<Longrightarrow> minted (au_ledger t) a"
  shows "queue_inv t"
proof -
  have eq: "map (\<lambda>k. the (by_key (au_ledger t) k)) (au_timeline s) = map (\<lambda>k. the (by_key (au_ledger s) k)) (au_timeline s)"
    using assms(4) by simp
  have "sorted_wrt (<) (map (\<lambda>k. the (by_key (au_ledger t) k)) (au_timeline s))" unfolding eq using assms(1) by (simp add: queue_inv_def)
  then show ?thesis using assms(1) unfolding queue_inv_def assms(2,3) using assms(4,5) by simp
qed

lemma core_inv_frame:
  assumes "au_ledger t = au_ledger s" "au_timeline t = au_timeline s" "au_active t = au_active s" "au_wire t = au_wire s"
    "au_dispatcher t = au_dispatcher s" "au_reconciling t = au_reconciling s"
  shows "core_inv X D N g t = core_inv X D N g s"
  using assms by (simp add: core_inv_def inv_defs)

text \<open>An assertion about the rows, the key index, the queue and the active operation, which the rest of the state does not touch.\<close>

lemma triple_read_clock:
  assumes "\<And>s n. P s \<Longrightarrow> P (s\<lparr>au_ticks := n\<rparr>)"
  shows "triple P (read_clock env) (\<lambda>_. P)"
  using assms by (auto simp: triple_def read_clock_def)

lemma core_inv_ticks [simp]: "core_inv X D N g (s\<lparr>au_ticks := n\<rparr>) = core_inv X D N g s"
  by (rule core_inv_frame) simp_all

lemma core_inv_woken [simp]: "core_inv X D N g (s\<lparr>au_wake := b\<rparr>) = core_inv X D N g s"
  by (rule core_inv_frame) simp_all

lemma core_inv_snapshot [simp]: "core_inv X D N g (s\<lparr>au_snapshot := x\<rparr>) = core_inv X D N g s"
  by (rule core_inv_frame) simp_all

lemma core_inv_responded [simp]: "core_inv X D N g (s\<lparr>au_responded := x\<rparr>) = core_inv X D N g s"
  by (rule core_inv_frame) simp_all

lemma core_inv_reconciled: "core_inv X D N g s \<Longrightarrow> core_inv X D N g (s\<lparr>au_reconciling := remove1 x (au_reconciling s)\<rparr>)"
  using set_remove1_subset [of x "au_reconciling s"] by (auto simp: core_inv_def queue_inv_def wire_inv_def past_sending_def reconcile_inv_def asked_ok_def frame_inv_def split: option.splits)

lemma core_inv_accepting [simp]: "core_inv X D N g (s\<lparr>au_accepting := x\<rparr>) = core_inv X D N g s"
  by (rule core_inv_frame) simp_all

lemma core_inv_last [simp]: "core_inv X D N g (s\<lparr>au_last_adapter_sequence := x\<rparr>) = core_inv X D N g s"
  by (rule core_inv_frame) simp_all

lemma core_inv_parked [simp]: "core_inv X D N None (s\<lparr>au_dispatcher := d\<rparr>) = core_inv X D N None s"
  by (simp add: core_inv_def inv_defs)

lemma triple_wake: "triple (core_inv X D N g) wake (\<lambda>_. core_inv X D N g)"
  by (simp add: wake_def triple_smodify)

lemma triple_clock: "triple (core_inv X D N g) (read_clock env) (\<lambda>_. core_inv X D N g)"
  by (rule triple_read_clock) simp

lemma triple_disconnect: "triple (core_inv X D N g) (disconnect_snapshot d) (\<lambda>_. core_inv X D N g)"
  by (simp add: disconnect_snapshot_def triple_smodify)

definition row_retained :: "int \<Rightarrow> authority \<Rightarrow> bool" where
  "row_retained a s \<longleftrightarrow> by_key (au_ledger s) (op_key (au_op s a)) = Some a"

definition settled_row :: "int \<Rightarrow> authority \<Rightarrow> bool" where
  "settled_row a s \<longleftrightarrow> row_retained a s \<and> op_state (au_op s a) \<in> SETTLED"

lemma by_key_row:
  assumes "core_inv X D N g s" "by_key (au_ledger s) k = Some a"
  shows "op_key (au_op s a) = k" "minted (au_ledger s) a" "row_retained a s"
  using assms unfolding core_inv_def ledger_inv_def row_retained_def by blast+

lemma by_request_id_by_key: "by_request_id L i = Some a \<Longrightarrow> \<exists>k. by_key L k = Some a"
  by (auto simp: by_request_id_def split: option.splits)

lemma map_of_move_to_end:
  assumes "map_of d k = Some a"
  shows "map_of (filter (\<lambda>(k', _). k' \<noteq> k) d @ [(k, a)]) = map_of d"
proof
  fix j
  have "map_of (filter (\<lambda>(k', _). k' \<noteq> k) d) j = (if j = k then None else map_of d j)" by (induction d) auto
  with assms show "map_of (filter (\<lambda>(k', _). k' \<noteq> k) d @ [(k, a)]) j = map_of d j" by (cases "map_of d j") (auto simp: map_add_def)
qed

lemma length_drop_key:
  "dict_ok d \<Longrightarrow> map_of d k = Some a \<Longrightarrow> length (filter (\<lambda>(k', _). k' \<noteq> k) d) + 1 = length d"
proof (induction d)
  case (Cons p d)
  show ?case
  proof (cases "fst p = k")
    case True
    with Cons.prems have "k \<notin> fst ` set d" by auto
    then have "filter (\<lambda>(k', _). k' \<noteq> k) d = d" by (intro filter_True) force
    with True show ?thesis by (cases p) simp
  qed (use Cons in \<open>auto simp: case_prod_beta\<close>)
qed simp

lemma touch_rows:
  assumes "touch k L = Inr L'"
  shows "by_key L' = by_key L" "sl_objects L' = sl_objects L" "sl_prompt_ids L' = sl_prompt_ids L" "sl_sequence L' = sl_sequence L"
    "sl_limit L' = sl_limit L" "sl_bridge_epoch L' = sl_bridge_epoch L" "minted L' = minted L"
  using assms map_of_move_to_end [of "sl_records L" k]
  by (auto simp: touch_def by_key_def minted_def fun_eq_iff split: option.splits)

lemma ledger_inv_touch:
  assumes "ledger_inv L" "touch k L = Inr L'"
  shows "ledger_inv L'"
proof -
  from assms(2) obtain a where a: "map_of (sl_records L) k = Some a" "sl_records L' = filter (\<lambda>(k', _). k' \<noteq> k) (sl_records L) @ [(k, a)]"
    by (auto simp: touch_def by_key_def split: option.splits)
  have ok: "dict_ok (sl_records L)" using assms(1) by (simp add: ledger_inv_def)
  from ok have "dict_ok (sl_records L')" unfolding a(2) by (auto simp: distinct_map inj_on_def)
  moreover have "length (sl_records L') = length (sl_records L)" using length_drop_key [OF ok a(1)] by (simp add: a(2))
  ultimately show ?thesis using assms(1) touch_rows [OF assms(2)] unfolding ledger_inv_def by simp
qed

lemma touch_retained: "by_key L k = Some a \<Longrightarrow> \<exists>L'. touch k L = Inr L'"
  by (simp add: touch_def)

lemma triple_touch: "triple (core_inv X D N g) (touch_row k) (\<lambda>_. core_inv X D N g)"
proof (rule tripleI)
  fix s r s' assume inv: "core_inv X D N g s" and run: "touch_row k s = (r, s')"
  show "core_inv X D N g s'"
  proof (cases "touch k (au_ledger s)")
    case (Inr L)
    with run have s': "s' = s\<lparr>au_ledger := L\<rparr>" by (simp add: touch_row_def)
    have "ledger_inv L" using inv ledger_inv_touch [OF _ Inr] by (simp add: core_inv_def)
    with inv show ?thesis by (simp add: s' core_inv_def queue_inv_def wire_inv_def past_sending_def reconcile_inv_def asked_ok_def frame_inv_def touch_rows [OF Inr])
  qed (use inv run in \<open>simp add: touch_row_def\<close>)
qed

lemma triple_mark_terminal:
  assumes "st \<in> SETTLED"
  shows "triple (\<lambda>s. core_inv X D N g s \<and> row_retained a s \<and> calm X g a s) (alter_row a (\<lambda>r. mark_terminal st (d r) t r))
    (\<lambda>_ s. core_inv X D N g s \<and> settled_row a s)"
proof -
  have "settles (\<lambda>r. mark_terminal st (d r) t r)" using assms by (simp add: settles_def mark_terminal_def)
  from triple_alter_row [OF this, of X D N g a] show ?thesis
    using assms by (auto simp: triple_def alter_row_def settled_row_def row_retained_def op_key_def mark_terminal_def)
qed

lemma sorted_wrt_remove1: "sorted_wrt P (map f xs) \<Longrightarrow> sorted_wrt P (map f (remove1 x xs))"
  by (induction xs) (auto dest: notin_set_remove1)

lemma settled_not_open:
  assumes X "core_inv X D N g s" "settled_row a s" "open_sends b (au_wire s) = 1" "op_state (au_op s b) \<in> {SubDispatching, SubUnknown}"
  shows "op_key (au_op s b) \<noteq> op_key (au_op s a)"
proof
  assume eq: "op_key (au_op s b) = op_key (au_op s a)"
  from assms have "by_key (au_ledger s) (op_key (au_op s b)) = Some b" unfolding core_inv_def wire_inv_def by blast
  with eq assms(3,5) show False by (auto simp: settled_row_def row_retained_def SETTLED_def)
qed

lemma triple_release: "triple (\<lambda>s. core_inv X D N g s \<and> settled_row a s) (release_head a c) (\<lambda>_. core_inv X D N g)"
  unfolding release_head_def
proof (rule triple_seq [of _ _ "core_inv X D N g"])
  show "triple (\<lambda>s. core_inv X D N g s \<and> settled_row a s) (smodify (\<lambda>s. let k = op_key (au_op s a)
       in s\<lparr>au_active := (if au_active s = Some k then None else au_active s),
            au_timeline := remove1 k (au_timeline s),
            au_consumed := (if c then bounded_append (sl_limit (au_ledger s)) (op_ref (au_op s a)) (au_consumed s) else au_consumed s),
            au_ledger := update_row a (\<lambda>r. r\<lparr>op_buffered_completion_sequence := None\<rparr>) (au_ledger s),
            au_responded := []\<rparr>)) (\<lambda>_. core_inv X D N g)"
  proof (rule triple_smodify)
    fix s assume "core_inv X D N g s \<and> settled_row a s"
    then have inv: "core_inv X D N g s" and a: "settled_row a s" by auto
    let ?k = "op_key (au_op s a)"
    let ?t = "s\<lparr>au_active := (if au_active s = Some ?k then None else au_active s), au_timeline := remove1 ?k (au_timeline s),
        au_ledger := update_row a (\<lambda>r. r\<lparr>op_buffered_completion_sequence := None\<rparr>) (au_ledger s)\<rparr>"
    let ?f = "\<lambda>r :: submission_record. r\<lparr>op_buffered_completion_sequence := None\<rparr>"
    have f: "op_key (?f r) = op_key r" for r by (simp add: op_key_def)
    have "ledger_inv (au_ledger ?t)" using inv by (simp add: core_inv_def ledger_inv_update)
    moreover have "reconcile_inv X ?t" by (rule reconcile_inv_rows [of X s]) (use inv in \<open>auto simp: core_inv_def\<close>)
    moreover have "frame_inv X g ?t" using inv by (auto simp: core_inv_def frame_inv_def)
    moreover have "queue_inv ?t"
      using inv set_remove1_subset [of ?k "au_timeline s"] sorted_wrt_remove1 [of "(<)" _ "au_timeline s" ?k]
      unfolding core_inv_def queue_inv_def by simp blast
    moreover have "wire_inv X ?t" using inv settled_not_open [OF _ inv a] unfolding core_inv_def wire_inv_def by (auto simp: f)
    moreover have "past_sending D N ?t" using inv by (simp add: core_inv_def past_sending_def)
    ultimately have "core_inv X D N g ?t" by (simp add: core_inv_def)
    then show "core_inv X D N g (let k = ?k in s\<lparr>au_active := (if au_active s = Some k then None else au_active s),
            au_timeline := remove1 k (au_timeline s),
            au_consumed := (if c then bounded_append (sl_limit (au_ledger s)) (op_ref (au_op s a)) (au_consumed s) else au_consumed s),
            au_ledger := update_row a ?f (au_ledger s), au_responded := []\<rparr>)"
      by (rule core_inv_frame [THEN iffD2, rotated -1]) (simp_all add: Let_def)
  qed
  show "triple (core_inv X D N g) (sbind (asks (\<lambda>s. op_key (au_op s a))) touch_row) (\<lambda>_. core_inv X D N g)"
    by (rule triple_asks) (rule triple_pre [OF triple_touch], simp)
qed

subsection \<open>Admission keeps the invariant\<close>

lemma by_key_evict: "by_key (evict k a L) j = (if j = k then None else by_key L j)"
proof -
  have "map_of (filter (\<lambda>(k', _). k' \<noteq> k) d) j = (if j = k then None else map_of d j)" for d :: "(submission_key \<times> int) list"
    by (induction d) auto
  then show ?thesis by (simp add: by_key_def evict_def)
qed

lemma evict_simps [simp]:
  "sl_objects (evict k a L) = sl_objects L" "sl_sequence (evict k a L) = sl_sequence L" "sl_limit (evict k a L) = sl_limit L"
  "sl_bridge_epoch (evict k a L) = sl_bridge_epoch L" "minted (evict k a L) = minted L"
  by (simp_all add: evict_def minted_def fun_eq_iff)

lemma evictable_row:
  assumes "evictable p L = Some (k, a)" "ledger_inv L"
  shows "by_key L k = Some a" "\<not> p k" "op_state (op_at L a) \<in> SETTLED"
  using assms by (auto simp: evictable_def find_Some_iff by_key_def ledger_inv_def EVICTABLE_STATES_def SETTLED_def dest: nth_mem)

lemma ledger_inv_evict:
  assumes "ledger_inv L" "by_key L k = Some a"
  shows "ledger_inv (evict k a L)"
proof -
  have k: "op_key (op_at L a) = k" "minted L a" using assms unfolding ledger_inv_def by blast+
  have ok: "dict_ok (sl_records L)" using assms(1) by (simp add: ledger_inv_def)
  have "dict_ok (sl_records (evict k a L))" using ok by (auto simp: evict_def)
  moreover have "length (sl_records (evict k a L)) \<le> length (sl_records L)" by (simp add: evict_def)
  moreover have "dget (sl_prompt_ids (evict k a L)) i = Some j \<longleftrightarrow> j = (KPrompt, i) \<and> by_key (evict k a L) j \<noteq> None" for i j
  proof -
    have f: "map_of (filter (\<lambda>(i', _). i' \<noteq> x) d) i = (if i = x then None else map_of d i)" for x and d :: "(string \<times> submission_key) list"
      by (induction d) auto
    have p: "dget (sl_prompt_ids L) i = Some j \<longleftrightarrow> j = (KPrompt, i) \<and> by_key L j \<noteq> None" using assms(1) unfolding ledger_inv_def by blast
    have k': "k = (rf_kind (op_ref (op_at L a)), rf_operation_id (op_ref (op_at L a)))" using k(1) by (simp add: op_key_def)
    show ?thesis
    proof (cases "rf_kind (op_ref (op_at L a)) = KPrompt")
      case True
      with k' p show ?thesis unfolding by_key_evict by (auto simp: evict_def f)
    next
      case False
      with k' p show ?thesis unfolding by_key_evict by (auto simp: evict_def)
    qed
  qed
  ultimately show ?thesis using assms(1) unfolding ledger_inv_def by (simp add: by_key_evict)
qed

lemma core_inv_evict:
  assumes "core_inv X D N g s" "by_key (au_ledger s) k = Some a" "\<not> pinned s k" "op_state (au_op s a) \<in> SETTLED"
  shows "core_inv X D N g (s\<lparr>au_ledger := evict k a (au_ledger s)\<rparr>)"
proof -
  let ?t = "s\<lparr>au_ledger := evict k a (au_ledger s)\<rparr>"
  from assms(1,2) have key: "op_key (au_op s a) = k" by (rule by_key_row)
  from assms(3) have nq: "k \<notin> set (au_timeline s)" "au_active s \<noteq> Some k" by (auto simp: pinned_def)
  have other: "by_key (au_ledger ?t) j = by_key (au_ledger s) j" if "j \<noteq> k" for j using that by (simp add: by_key_evict)
  have "ledger_inv (au_ledger ?t)" using assms(1,2) by (simp add: core_inv_def ledger_inv_evict)
  moreover have "queue_inv ?t"
  proof (rule queue_inv_cong)
    show "queue_inv s" using assms(1) by (simp add: core_inv_def)
    show "by_key (au_ledger ?t) j = by_key (au_ledger s) j" if "j \<in> set (au_timeline s)" for j using other that nq(1) by metis
  qed simp_all
  moreover have "wire_inv X ?t"
  proof -
    have "op_key (au_op s b) \<noteq> k" if X "open_sends b (au_wire s) = 1" "op_state (au_op s b) \<in> {SubDispatching, SubUnknown}" for b
      using that nq(2) assms(1) unfolding core_inv_def wire_inv_def by metis
    moreover have "op_key (au_op s b) \<noteq> k" if "minted (au_ledger s) b" "op_state (au_op s b) \<in> {SubQueued, SubDispatching}" for b
    proof
      assume "op_key (au_op s b) = k"
      with that assms(1,2) have "b = a" unfolding core_inv_def wire_inv_def by force
      with that(2) assms(4) show False by (auto simp: SETTLED_def)
    qed
    ultimately show ?thesis using assms(1) unfolding core_inv_def wire_inv_def by (simp add: by_key_evict)
  qed
  moreover have "past_sending D N ?t" "reconcile_inv X ?t" "frame_inv X g ?t"
    using assms(1) by (auto simp: core_inv_def past_sending_def reconcile_inv_def asked_ok_def frame_inv_def split: option.splits)
  ultimately show ?thesis by (simp add: core_inv_def)
qed

lemma make_room_inv:
  assumes "make_room p L = (b, L')" "p = pinned s" "core_inv X D N g (s\<lparr>au_ledger := L\<rparr>)"
  shows "core_inv X D N g (s\<lparr>au_ledger := L'\<rparr>) \<and> (b \<longrightarrow> int (length (sl_records L')) < sl_limit L')"
  using assms
proof (induction p L arbitrary: b L' rule: make_room.induct)
  case (1 p L)
  show ?case
  proof (cases "int (length (sl_records L)) < sl_limit L")
    case True
    with 1(2) have "b" "L' = L" by (simp_all add: make_room.simps [of p L])
    with True 1(4) show ?thesis by simp
  next
    case False
    show ?thesis
    proof (cases "evictable p L")
      case None
      with False 1(2) have "\<not> b" "L' = L" by (simp_all add: make_room.simps [of p L])
      with 1(4) show ?thesis by simp
    next
      case (Some ka)
      obtain k a where ka: "ka = (k, a)" by (cases ka)
      with Some False 1(2) have run: "make_room p (evict k a L) = (b, L')" by (simp add: make_room.simps [of p L])
      have "ledger_inv L" using 1(4) by (simp add: core_inv_def)
      note row = evictable_row [OF Some [unfolded ka] this]
      have "core_inv X D N g (s\<lparr>au_ledger := evict k a L\<rparr>)"
        using core_inv_evict [OF 1(4), of k a] row 1(3) by (simp add: pinned_def)
      from 1(1) [OF False Some ka [symmetric] run 1(3) this] show ?thesis .
    qed
  qed
qed

lemma triple_admission_room:
  "triple (core_inv X D N g) has_admission_room
     (\<lambda>r s. core_inv X D N g s \<and> (r = Inr True \<longrightarrow> int (length (sl_records (au_ledger s))) < sl_limit (au_ledger s)))"
proof (rule tripleI)
  fix s r s' assume inv: "core_inv X D N g s" and run: "has_admission_room s = (r, s')"
  show "core_inv X D N g s' \<and> (r = Inr True \<longrightarrow> int (length (sl_records (au_ledger s'))) < sl_limit (au_ledger s'))"
  proof (cases "int (live_count (au_active s) (au_ledger s)) < au_timeline_limit s")
    case True
    obtain b L where L: "make_room (pinned s) (au_ledger s) = (b, L)" by (cases "make_room (pinned s) (au_ledger s)")
    with run True have "r = Inr b" "s' = s\<lparr>au_ledger := L\<rparr>" by (auto simp: has_admission_room_def)
    with make_room_inv [OF L refl, of X D N] inv show ?thesis by simp
  qed (use inv run in \<open>auto simp: has_admission_room_def\<close>)
qed

text \<open>The newest row: retained, queued, and minted after every row that is queued or was called.\<close>

definition newest :: "int \<Rightarrow> authority \<Rightarrow> bool" where
  "newest a s \<longleftrightarrow> row_retained a s \<and> op_state (au_op s a) = SubQueued \<and> minted (au_ledger s) a \<and>
     (\<forall>k\<in>set (au_timeline s). the (by_key (au_ledger s) k) < a) \<and> (\<forall>b\<in>set (call_addrs (au_wire s)). b \<le> a)"

definition fresh_key :: "control_kind \<Rightarrow> string option \<Rightarrow> authority \<Rightarrow> bool" where
  "fresh_key kind operation_id s \<longleftrightarrow>
     (case operation_id of
        None \<Rightarrow> kind \<noteq> KPrompt
      | Some i \<Rightarrow> kind = KPrompt \<and> i \<noteq> '''' \<and> by_request_id (au_ledger s) i = None)"

lemma show_digits_inj: "show_digits m = show_digits n \<Longrightarrow> m = n"
  by (metis int_of_digits_show of_nat_eq_iff)

lemma setter_id_inj:
  assumes "setter_id epoch m kind = setter_id epoch n kind" "1 \<le> m" "1 \<le> n"
  shows "m = n"
  using assms by (auto simp: setter_id_def dest!: show_digits_inj)

lemma fresh_key_unused:
  assumes "ledger_inv (au_ledger s)" "fresh_key kind operation_id s" "next_ref kind operation_id (au_ledger s) = (r, L)"
  shows "by_key (au_ledger s) (rf_kind r, rf_operation_id r) = None"
proof -
  let ?L = "au_ledger s" and ?n = "sl_sequence (au_ledger s) + 1"
  from assms(3) have r: "rf_kind r = kind"
    "rf_operation_id r = the (str_or operation_id (Some (setter_id (sl_bridge_epoch ?L) ?n kind)))"
    by (auto simp: next_ref_def Let_def setter_id_def)
  show ?thesis
  proof (cases operation_id)
    case None
    have "by_key ?L (kind, setter_id (sl_bridge_epoch ?L) ?n kind) = None"
    proof (rule ccontr)
      assume "by_key ?L (kind, setter_id (sl_bridge_epoch ?L) ?n kind) \<noteq> None"
      then obtain a where a: "by_key ?L (kind, setter_id (sl_bridge_epoch ?L) ?n kind) = Some a" by blast
      with assms(1) have row: "op_key (op_at ?L a) = (kind, setter_id (sl_bridge_epoch ?L) ?n kind)" "minted ?L a"
        unfolding ledger_inv_def by blast+
      from row(1) have kind: "rf_kind (op_ref (op_at ?L a)) = kind"
        "rf_operation_id (op_ref (op_at ?L a)) = setter_id (sl_bridge_epoch ?L) ?n kind" by (simp_all add: op_key_def)
      with assms(1,2) row(2) None have "setter_id (sl_bridge_epoch ?L) ?n kind = setter_id (sl_bridge_epoch ?L) a kind"
        unfolding ledger_inv_def fresh_key_def by auto
      with row(2) have "?n = a" by (intro setter_id_inj) (auto simp: minted_def)
      with row(2) show False by (simp add: minted_def)
    qed
    with r None show ?thesis by (simp add: str_or_def)
  next
    case (Some i)
    with assms(2) have i: "kind = KPrompt" "i \<noteq> ''''" "by_request_id ?L i = None" by (auto simp: fresh_key_def)
    have "by_key ?L (KPrompt, i) = None"
    proof (cases "dget (sl_prompt_ids ?L) i")
      case None
      with assms(1) show ?thesis unfolding ledger_inv_def by (metis not_None_eq option.discI)
    next
      case p: (Some k)
      with assms(1) have "k = (KPrompt, i)" "by_key ?L k \<noteq> None" unfolding ledger_inv_def by blast+
      with p i(3) show ?thesis by (simp add: by_request_id_def)
    qed
    with r Some i show ?thesis by (simp add: str_or_def)
  qed
qed

lemma enrol_simps:
  "by_key (enrol r L) k = (if k = op_key r then Some (rf_sequence (op_ref r)) else by_key L k)"
  "sl_sequence (enrol r L) = sl_sequence L" "sl_limit (enrol r L) = sl_limit L" "sl_bridge_epoch (enrol r L) = sl_bridge_epoch L"
  "minted (enrol r L) = minted L" "op_at (enrol r L) a = (if a = rf_sequence (op_ref r) then r else op_at L a)"
  "dict_ok (sl_records L) \<Longrightarrow> dict_ok (sl_records (enrol r L))"
  by (auto simp: enrol_def by_key_def minted_def fun_eq_iff)

lemma ledger_inv_enrol:
  assumes "ledger_inv L" "op_ref r = \<lparr>rf_bridge_epoch = sl_bridge_epoch L, rf_sequence = sl_sequence L + 1, rf_operation_id = i, rf_kind = kind\<rparr>"
    "by_key L (kind, i) = None" "kind \<noteq> KPrompt \<Longrightarrow> i = setter_id (sl_bridge_epoch L) (sl_sequence L + 1) kind"
    "int (length (sl_records L)) < sl_limit L"
  shows "ledger_inv (enrol r (L\<lparr>sl_sequence := sl_sequence L + 1\<rparr>))"
proof -
  let ?M = "enrol r (L\<lparr>sl_sequence := sl_sequence L + 1\<rparr>)" and ?n = "sl_sequence L + 1"
  have key: "op_key r = (kind, i)" using assms(2) by (simp add: op_key_def)
  have old: "a \<noteq> ?n" if "minted L a" for a using that by (auto simp: minted_def)
  have new: "minted ?M a \<longleftrightarrow> minted L a \<or> a = ?n" for a
    using assms(1) by (auto simp: enrol_simps minted_def ledger_inv_def)
  have bk: "by_key ?M k = (if k = (kind, i) then Some ?n else by_key L k)" for k
    using assms(2) key by (simp add: enrol_simps) (simp add: by_key_def)
  have at: "op_at ?M a = (if a = ?n then r else op_at L a)" for a using assms(2) by (simp add: enrol_simps)
  have ok: "dict_ok (sl_records L)" using assms(1) by (simp add: ledger_inv_def)
  have "(kind, i) \<notin> fst ` set (sl_records L)" using assms(3) by (simp add: by_key_def map_of_eq_None_iff)
  then have len: "length (sl_records ?M) = Suc (length (sl_records L))"
    using assms(2) key by (simp add: enrol_def update_nonkey_dict)
  have row: "op_key (op_at L a) = k \<and> minted L a" if "by_key L k = Some a" for k a using assms(1) that unfolding ledger_inv_def by blast
  have "by_key ?M k = Some a \<Longrightarrow> op_key (op_at ?M a) = k \<and> minted ?M a" for k a
    using row [of k a] old unfolding bk at new by (auto simp: key split: if_splits)
  moreover have "minted ?M a \<Longrightarrow> rf_sequence (op_ref (op_at ?M a)) = a \<and>
        (rf_kind (op_ref (op_at ?M a)) \<noteq> KPrompt \<longrightarrow>
           rf_operation_id (op_ref (op_at ?M a)) = setter_id (sl_bridge_epoch ?M) a (rf_kind (op_ref (op_at ?M a))))" for a
    using assms(1,2,4) old unfolding at new ledger_inv_def by (auto simp: enrol_simps)
  moreover have "dget (sl_prompt_ids ?M) j = Some k \<longleftrightarrow> k = (KPrompt, j) \<and> by_key ?M k \<noteq> None" for j k
  proof -
    have p: "dget (sl_prompt_ids L) j = Some k \<longleftrightarrow> k = (KPrompt, j) \<and> by_key L k \<noteq> None" using assms(1) unfolding ledger_inv_def by blast
    have q: "dget (sl_prompt_ids ?M) j = (if kind = KPrompt \<and> j = i then Some (kind, i) else dget (sl_prompt_ids L) j)"
      using assms(2) key by (simp add: enrol_def)
    show ?thesis unfolding q bk using p by auto
  qed
  ultimately show ?thesis
    using ok assms(1,5) len unfolding ledger_inv_def by (simp add: enrol_simps)
qed

lemma triple_enrol:
  assumes f: "\<And>r. op_ref (f r) = r" "\<And>r. op_state (f r) = SubQueued"
  shows "triple (\<lambda>s. core_inv X D N g s \<and> int (length (sl_records (au_ledger s))) < sl_limit (au_ledger s) \<and> fresh_key kind operation_id s)
     (enrol_row kind operation_id f) (\<lambda>r s. case r of Inl e \<Rightarrow> core_inv X D N g s | Inr a \<Rightarrow> core_inv X D N g s \<and> newest a s)"
proof (rule tripleI, elim conjE)
  fix s y s' assume inv: "core_inv X D N g s" and room: "int (length (sl_records (au_ledger s))) < sl_limit (au_ledger s)"
    and fresh: "fresh_key kind operation_id s" and run: "enrol_row kind operation_id f s = (y, s')"
  let ?L = "au_ledger s" and ?n = "sl_sequence (au_ledger s) + 1"
  obtain r M where nr: "next_ref kind operation_id ?L = (r, M)" by (cases "next_ref kind operation_id ?L")
  then have M: "M = ?L\<lparr>sl_sequence := ?n\<rparr>" and r: "r = \<lparr>rf_bridge_epoch = sl_bridge_epoch ?L, rf_sequence = ?n,
      rf_operation_id = rf_operation_id r, rf_kind = kind\<rparr>"
    and i: "rf_operation_id r = the (str_or operation_id (Some (setter_id (sl_bridge_epoch ?L) ?n kind)))"
    by (auto simp: next_ref_def Let_def setter_id_def)
  have kinds: "rf_kind r = kind" "rf_sequence r = ?n" by (subst r, simp)+
  from nr run have y: "y = Inr ?n" and s': "s' = s\<lparr>au_ledger := enrol (f r) M\<rparr>" by (auto simp: enrol_row_def kinds)
  have led: "ledger_inv ?L" using inv by (simp add: core_inv_def)
  have unused: "by_key ?L (kind, rf_operation_id r) = None" using fresh_key_unused [OF led fresh nr] kinds by simp
  have "ledger_inv (au_ledger s')" unfolding s' M
  proof (simp, rule ledger_inv_enrol [OF led _ unused _ room])
    show "kind \<noteq> KPrompt \<Longrightarrow> rf_operation_id r = setter_id (sl_bridge_epoch ?L) ?n kind"
      using fresh i by (cases operation_id) (auto simp: fresh_key_def str_or_def)
  qed (use f r in simp)
  have key: "op_key (f r) = (kind, rf_operation_id r)" by (simp add: op_key_def f kinds)
  have bk: "by_key (au_ledger s') k = (if k = op_key (f r) then Some ?n else by_key ?L k)" for k
    by (simp add: s' M enrol_simps f kinds) (simp add: by_key_def)
  have at: "au_op s' a = (if a = ?n then f r else au_op s a)" for a by (simp add: s' M enrol_simps f kinds)
  have mint: "minted (au_ledger s') a \<longleftrightarrow> minted ?L a \<or> a = ?n" for a
    using led by (auto simp: s' M enrol_simps minted_def ledger_inv_def)
  have old: "a \<noteq> ?n" if "minted ?L a" for a using that by (auto simp: minted_def)
  have same [simp]: "au_timeline s' = au_timeline s" "au_wire s' = au_wire s" "au_active s' = au_active s" "au_dispatcher s' = au_dispatcher s"
    "au_reconciling s' = au_reconciling s"
    by (simp_all add: s')
  have not_new: "op_key (f r) \<noteq> k" if "by_key ?L k \<noteq> None" for k using that unused key by auto
  have q: "queue_inv s" and w: "wire_inv X s" and p: "past_sending D N s"
    and rc: "reconcile_inv X s" and fr: "frame_inv X g s" using inv by (simp_all add: core_inv_def)
  have queued: "by_key (au_ledger s') k = by_key ?L k" if "k \<in> set (au_timeline s)" for k
  proof -
    from q that have "by_key ?L k \<noteq> None" unfolding queue_inv_def by blast
    then show ?thesis using not_new [of k] unfolding bk by simp
  qed
  have "queue_inv s'" by (rule queue_inv_cong [OF q]) (simp_all add: queued mint)
  moreover have "wire_inv X s'"
  proof -
    have fresh_open: "open_sends ?n (au_wire s) = 0" using w old unfolding wire_inv_def by (metis insertE singletonD)
    have keep: "by_key (au_ledger s') (op_key (au_op s a)) = Some a" if "by_key ?L (op_key (au_op s a)) = Some a" for a
      using that not_new [of "op_key (au_op s a)"] unfolding bk by simp
    have new: "by_key (au_ledger s') (op_key (au_op s' ?n)) = Some ?n" by (simp add: bk at)
    have row: "op_key (au_op s' a) = op_key (au_op s a)" "op_state (au_op s' a) = op_state (au_op s a)" if "a \<noteq> ?n" for a
      using that by (simp_all add: at)
    show ?thesis
    proof (rule wire_invI)
      show "open_sends a (au_wire s') = 0 \<or> open_sends a (au_wire s') = 1" for a using wire_invD(1) [OF w] by simp
      fix a
      have sent: "a \<noteq> ?n" if "open_sends a (au_wire s') = 1" using that fresh_open by auto
      then show "minted (au_ledger s') a \<and> op_state (au_op s' a) \<noteq> SubQueued" if "open_sends a (au_wire s') = 1"
        using that wire_invD(2) [OF w, of a] row [of a] by (simp add: mint)
      show "by_key (au_ledger s') (op_key (au_op s' a)) = Some a \<and> au_active s' = Some (op_key (au_op s' a))"
        if X "open_sends a (au_wire s') = 1" "op_state (au_op s' a) \<in> {SubDispatching, SubUnknown}"
        using that wire_invD(3) [OF w, of a] row [OF sent] keep [of a] by simp
      show "by_key (au_ledger s') (op_key (au_op s' a)) = Some a"
        if "minted (au_ledger s') a" "op_state (au_op s' a) \<in> {SubQueued, SubDispatching}"
        using that wire_invD(4) [OF w, of a] row [of a] keep [of a] new by (cases "a = ?n") (simp_all add: mint)
    qed
  qed
  moreover have "reconcile_inv X s'" by (rule reconcile_inv_rows [OF rc]) (use old in \<open>auto simp: at mint\<close>)
  moreover have "frame_inv X g s'"
  proof -
    have seq: "sl_sequence (au_ledger s') = ?n" by (simp add: s' M enrol_simps)
    have "a \<noteq> ?n" if "minted (au_ledger t) a" "sl_sequence (au_ledger t) \<le> sl_sequence ?L" for t a using that by (simp add: minted_def)
    with fr show ?thesis unfolding frame_inv_def at same seq by fastforce
  qed
  moreover have "past_sending D N s'" using p old unfolding past_sending_def at mint same by auto
  ultimately have "core_inv X D N g s'" using \<open>ledger_inv (au_ledger s')\<close> by (simp add: core_inv_def)
  moreover have "newest ?n s'"
  proof -
    have "the (by_key ?L k) < ?n" if "k \<in> set (au_timeline s)" for k
    proof -
      from q that obtain a where a: "by_key ?L k = Some a" unfolding queue_inv_def by blast
      with by_key_row(2) [OF inv] have "minted ?L a" by blast
      with a show ?thesis by (simp add: minted_def)
    qed
    moreover have "b \<le> ?n" if "b \<in> set (call_addrs (au_wire s))" for b using q that by (auto simp: queue_inv_def minted_def)
    moreover have "row_retained ?n s'" by (simp add: row_retained_def at bk)
    ultimately show ?thesis by (simp add: newest_def mint queued at f)
  qed
  ultimately show "case y of Inl e \<Rightarrow> core_inv X D N g s' | Inr a \<Rightarrow> core_inv X D N g s' \<and> newest a s'" by (simp add: y)
qed

lemma triple_join: "triple (\<lambda>s. core_inv X D N g s \<and> newest a s) (join_timeline a) (\<lambda>_. core_inv X D N g)"
  unfolding join_timeline_def
proof (rule triple_smodify, elim conjE)
  fix s assume inv: "core_inv X D N g s" and new: "newest a s"
  let ?t = "s\<lparr>au_timeline := au_timeline s @ [op_key (au_op s a)]\<rparr>"
  from new have bk: "by_key (au_ledger s) (op_key (au_op s a)) = Some a" by (simp add: newest_def row_retained_def)
  have "queue_inv ?t" using inv new bk unfolding core_inv_def queue_inv_def newest_def by (auto simp: sorted_wrt_append)
  with inv show "core_inv X D N g ?t" by (simp add: core_inv_def wire_inv_def past_sending_def reconcile_inv_def asked_ok_def frame_inv_def)
qed

lemma quiet_simps [simp]:
  "quiet (op_resolve v)" "quiet (\<lambda>r. r\<lparr>op_result_future := x\<rparr>)" "quiet (\<lambda>r. r\<lparr>op_detail := d', op_updated_at := t\<rparr>)"
  "quiet (\<lambda>r. r\<lparr>op_vendor_correlation_id := c, op_detail := d', op_updated_at := t\<rparr>)"
  "quiet (\<lambda>r. r\<lparr>op_buffered_completion_sequence := b\<rparr>)"
  by (simp_all add: quiet_def op_resolve_def)

lemma settles_terminal: "st \<in> SETTLED \<Longrightarrow> settles (mark_terminal st d t)"
  by (simp add: settles_def mark_terminal_def)

lemma SETTLED_simps [simp]:
  "SubDelivered \<in> SETTLED" "SubWithdrawn \<in> SETTLED" "SubRejected \<in> SETTLED" "SubUnsupported \<in> SETTLED"
  "SubQueued \<notin> SETTLED" "SubDispatching \<notin> SETTLED" "SubUnknown \<notin> SETTLED"
  by (simp_all add: SETTLED_def)

lemma triple_drop: "triple P m (\<lambda>_. Q) \<Longrightarrow> triple P (drop_result m) (\<lambda>_. Q)"
  unfolding drop_result_def by (rule triple_seq) (auto intro: triple_sret)

text \<open>Reading a part of the state keeps any assertion.\<close>

lemma triple_asks_keep: "(\<And>x. triple P (g x) R) \<Longrightarrow> triple P (sbind (asks f) g) R"
  by (rule triple_asks, rule triple_pre [where P' = P]) auto

lemma triple_sget_keep: "triple P (sget f) (\<lambda>_. P)"
  by (rule triple_sget)

lemma triple_require: "triple P require_accepting (\<lambda>_. P)" "triple P (require_epoch_opt e) (\<lambda>_. P)"
  by (simp_all add: require_accepting_def require_epoch_opt_def triple_sget_keep)

subsection \<open>Every operation keeps the invariant\<close>

text \<open>The assertion that a row is retained rides along.\<close>

abbreviation inv_row :: "bool \<Rightarrow> int set \<Rightarrow> (int \<Rightarrow> nat) \<Rightarrow> authority option \<Rightarrow> int \<Rightarrow> authority \<Rightarrow> bool" where
  "inv_row X D N g a \<equiv> \<lambda>s. core_inv X D N g s \<and> row_retained a s \<and> calm X g a s"

lemma triple_clock_row: "triple (inv_row X D N g a) (read_clock env) (\<lambda>_. inv_row X D N g a)"
  by (rule triple_read_clock) (simp add: row_retained_def calm_def)

lemma core_inv_unqueued:
  assumes "core_inv X D N g s"
  shows "core_inv X D N g (s\<lparr>au_timeline := remove1 k (au_timeline s)\<rparr>)"
proof -
  have "queue_inv (s\<lparr>au_timeline := remove1 k (au_timeline s)\<rparr>)"
    using assms set_remove1_subset [of k "au_timeline s"] sorted_wrt_remove1 [of "(<)" _ "au_timeline s" k]
    unfolding core_inv_def queue_inv_def by simp blast
  with assms show ?thesis
    by (simp add: core_inv_def wire_inv_def past_sending_def reconcile_inv_def asked_ok_def frame_inv_def)
qed

lemma inv_weaken: "inv_row X D N g a s \<Longrightarrow> core_inv X D N g s" "core_inv X D N g s \<and> settled_row a s \<Longrightarrow> core_inv X D N g s"
  by simp_all

lemma triple_unsupported:
  "triple (\<lambda>s. core_inv X D N g s \<and> newest a s) (unsupported_prompt env a request)
     (\<lambda>r s. core_inv X D N g s \<and> (r = Inr None \<longrightarrow> newest a s))"
proof (rule tripleI, elim conjE)
  fix s r s' assume inv: "core_inv X D N g s" and new: "newest a s" and run: "unsupported_prompt env a request s = (r, s')"
  have alter: "core_inv X D N g (s\<lparr>au_ledger := update_row a (mark_terminal SubUnsupported d t) (au_ledger s)\<rparr>)" for d t
    by (rule core_inv_alter [OF inv]) (use new in \<open>simp_all add: mark_terminal_def calm_def newest_def\<close>)
  show "core_inv X D N g s' \<and> (r = Inr None \<longrightarrow> newest a s')"
    using run inv new alter by (auto simp: unsupported_prompt_def asks_def sbind_sget alter_row_def split: if_splits)
qed

lemma evict_prompt_ids: "dget (sl_prompt_ids (evict k a L)) i = None \<or> dget (sl_prompt_ids (evict k a L)) i = dget (sl_prompt_ids L) i"
proof -
  have "map_of (filter (\<lambda>(i', _). i' \<noteq> x) d) i = (if i = x then None else map_of d i)" for x and d :: "(string \<times> submission_key) list"
    by (induction d) auto
  then show ?thesis by (auto simp: evict_def)
qed

lemma make_room_no_row: "by_request_id L i = None \<Longrightarrow> make_room p L = (b, L') \<Longrightarrow> by_request_id L' i = None"
proof (induction p L arbitrary: b L' rule: make_room.induct)
  case (1 p L)
  show ?case
  proof (cases "int (length (sl_records L)) < sl_limit L \<or> evictable p L = None")
    case True
    with 1(2,3) show ?thesis by (auto simp: make_room.simps [of p L] split: if_splits)
  next
    case False
    then obtain k a where ka: "evictable p L = Some (k, a)" by auto
    with False 1(3) have run: "make_room p (evict k a L) = (b, L')" by (simp add: make_room.simps [of p L])
    have "by_request_id (evict k a L) i = None"
      using 1(2) evict_prompt_ids [of k a L i] by (auto simp: by_request_id_def by_key_evict split: option.splits)
    from 1(1) [OF _ ka refl this run] False show ?thesis by blast
  qed
qed

lemma no_row_after_room: "by_request_id (au_ledger s) i = None \<Longrightarrow> has_admission_room s = (y, t) \<Longrightarrow> by_request_id (au_ledger t) i = None"
  using make_room_no_row [of "au_ledger s" i "pinned s"]
  by (auto simp: has_admission_room_def split: if_splits prod.splits)

lemma triple_pre_admission:
  assumes "pq_request_id request \<noteq> ''''"
  shows "triple (core_inv X D N g) (pre_admission_receipt request digest)
     (\<lambda>r s. core_inv X D N g s \<and> (r = Inr None \<longrightarrow> int (length (sl_records (au_ledger s))) < sl_limit (au_ledger s) \<and>
        fresh_key KPrompt (Some (pq_request_id request)) s))"
proof (rule tripleI)
  fix s r s' assume inv: "core_inv X D N g s" and run: "pre_admission_receipt request digest s = (r, s')"
  show "core_inv X D N g s' \<and> (r = Inr None \<longrightarrow> int (length (sl_records (au_ledger s'))) < sl_limit (au_ledger s') \<and>
        fresh_key KPrompt (Some (pq_request_id request)) s')"
  proof (cases "by_request_id (au_ledger s) (pq_request_id request)")
    case (Some a)
    have "core_inv X D N g (snd (touch_row (op_key (au_op s a)) s))" using tripleD [OF triple_touch inv] by simp
    with Some run inv show ?thesis
      by (auto simp: pre_admission_receipt_def asks_def sbind_sget raise_def sbind_def [of "touch_row _"] split: if_splits prod.splits sum.splits)
  next
    case None
    obtain y t where y: "has_admission_room s = (y, t)" by (cases "has_admission_room s")
    with triple_admission_room [of X D N] inv have t: "core_inv X D N g t" "y = Inr True \<Longrightarrow> int (length (sl_records (au_ledger t))) < sl_limit (au_ledger t)"
      by (auto simp: triple_def)
    have "by_request_id (au_ledger t) (pq_request_id request) = None" using None y by (rule no_row_after_room)
    with None run y t assms show ?thesis
      by (auto simp: pre_admission_receipt_def asks_def sbind_sget sbind_def [of has_admission_room] fresh_key_def sret_def split: if_splits sum.splits)
  qed
qed

lemma triple_enrol_prompt:
  "triple (\<lambda>s. core_inv X D N g s \<and> int (length (sl_records (au_ledger s))) < sl_limit (au_ledger s) \<and>
      fresh_key KPrompt (Some (pq_request_id request)) s)
     (enrol_prompt request digest) (\<lambda>r s. case r of Inl e \<Rightarrow> core_inv X D N g s | Inr a \<Rightarrow> core_inv X D N g s \<and> newest a s)"
  unfolding enrol_prompt_def by (rule triple_enrol) simp_all

lemma triple_enqueue: "triple (\<lambda>s. core_inv X D N g s \<and> newest a s) (enqueue_prompt a) (\<lambda>_. core_inv X D N g)"
  unfolding enqueue_prompt_def
  by (rule triple_seq [OF triple_join triple_asks_keep])
     (intro triple_if triple_keep triple_wake triple_alter_quiet triple_sret triple_asks_end; simp)+

lemma triple_admit:
  "triple (\<lambda>s. core_inv X D N g s \<and> int (length (sl_records (au_ledger s))) < sl_limit (au_ledger s) \<and>
      fresh_key KPrompt (Some (pq_request_id request)) s) (admit_prompt env request digest) (\<lambda>_. core_inv X D N g)"
  unfolding admit_prompt_def
proof (rule triple_bind [OF triple_enrol_prompt])
  fix a
  show "triple (\<lambda>s. core_inv X D N g s \<and> newest a s) (sbind (unsupported_prompt env a request)
    (\<lambda>unsupported. case unsupported of None \<Rightarrow> enqueue_prompt a | Some receipt \<Rightarrow> sret (Answered receipt))) (\<lambda>_. core_inv X D N g)"
  proof (rule triple_bind [where Q = "\<lambda>u s. core_inv X D N g s \<and> (u = None \<longrightarrow> newest a s)"])
    show "triple (\<lambda>s. core_inv X D N g s \<and> newest a s) (unsupported_prompt env a request)
      (\<lambda>r s. case r of Inl e \<Rightarrow> core_inv X D N g s | Inr u \<Rightarrow> core_inv X D N g s \<and> (u = None \<longrightarrow> newest a s))"
      by (rule triple_post [OF triple_unsupported]) (auto split: sum.splits)
  qed (auto intro!: triple_option triple_sret triple_pre [OF triple_enqueue])
qed

lemma triple_submit:
  assumes "pq_request_id request \<noteq> ''''"
  shows "triple (core_inv X D N g) (authority_submit env request) (\<lambda>_. core_inv X D N g)"
  unfolding authority_submit_def Let_def
proof (rule triple_keep [OF triple_require(1)], rule triple_keep [OF triple_require(2)],
    rule triple_bind [where Q = "\<lambda>early s. core_inv X D N g s \<and> (early = None \<longrightarrow>
      int (length (sl_records (au_ledger s))) < sl_limit (au_ledger s) \<and> fresh_key KPrompt (Some (pq_request_id request)) s)"])
  show "triple (core_inv X D N g) (pre_admission_receipt request (payload_digest env (pq_text request) (pq_assets request)))
    (\<lambda>r s. case r of Inl e \<Rightarrow> core_inv X D N g s | Inr early \<Rightarrow> core_inv X D N g s \<and> (early = None \<longrightarrow>
      int (length (sl_records (au_ledger s))) < sl_limit (au_ledger s) \<and> fresh_key KPrompt (Some (pq_request_id request)) s))"
    by (rule triple_post [OF triple_pre_admission [OF assms]]) (auto split: sum.splits)
qed (auto intro!: triple_option triple_sret triple_pre [OF triple_admit])

lemma triple_setter:
  assumes "kind \<noteq> KPrompt"
  shows "triple (core_inv X D N g) (admit_setter env kind v) (\<lambda>_. core_inv X D N g)"
  unfolding admit_setter_def
proof (rule triple_keep [OF triple_require(1)], rule triple_asks_keep, rule triple_if, simp add: triple_sret,
    rule triple_bind [where Q = "\<lambda>room s. core_inv X D N g s \<and> (room \<longrightarrow> int (length (sl_records (au_ledger s))) < sl_limit (au_ledger s))"])
  show "triple (core_inv X D N g) has_admission_room (\<lambda>r s. case r of Inl e \<Rightarrow> core_inv X D N g s
      | Inr room \<Rightarrow> core_inv X D N g s \<and> (room \<longrightarrow> int (length (sl_records (au_ledger s))) < sl_limit (au_ledger s)))"
    by (rule triple_post [OF triple_admission_room]) (auto split: sum.splits)
  fix room
  let ?room = "\<lambda>s. core_inv X D N g s \<and> int (length (sl_records (au_ledger s))) < sl_limit (au_ledger s) \<and> fresh_key kind None s"
  have enrolled: "triple ?room (sbind (enrol_row kind None f) (\<lambda>a. sbind (join_timeline a) (\<lambda>_. sbind wake (\<lambda>_. sret (SetAwaiting a)))))
      (\<lambda>_. core_inv X D N g)" if "\<And>r. op_ref (f r) = r" "\<And>r. op_state (f r) = SubQueued" for f
    by (rule triple_bind [OF triple_enrol [OF that]], rule triple_seq [OF triple_join]) (intro triple_keep triple_wake triple_sret; simp)+
  have clocked: "triple ?room (sbind (read_clock env) h) (\<lambda>_. core_inv X D N g)" if "\<And>now. triple ?room (h now) (\<lambda>_. core_inv X D N g)" for h
    by (rule triple_seq [OF triple_read_clock that]) (auto simp: fresh_key_def)
  show "triple (\<lambda>s. core_inv X D N g s \<and> (room \<longrightarrow> int (length (sl_records (au_ledger s))) < sl_limit (au_ledger s)))
    (if \<not> room then sret (SetAnswered (failed_set SetUnknown v ''operation ledger is full of live or unresolved operations''))
     else sbind (read_clock env) (\<lambda>now. sbind (enrol_row kind None (\<lambda>r.
       \<lparr>op_ref = r, op_state = SubQueued, op_submitted_at = now, op_updated_at = now, op_source = None, op_payload_digest = None,
        op_text = None, op_requested_value = Some v, op_accepted_at = None, op_vendor_correlation_id = None,
        op_detail = Some ''queued in the authoritative ordinary-operation timeline'', op_buffered_completion_sequence = None,
        op_result_future = Some FutPending, op_assets = []\<rparr>)) (\<lambda>a.
     sbind (join_timeline a) (\<lambda>_. sbind wake (\<lambda>_. sret (SetAwaiting a)))))) (\<lambda>_. core_inv X D N g)"
    using assms by (intro triple_if triple_sret triple_pre [OF clocked [OF enrolled]]) (simp_all add: fresh_key_def)
qed

lemmas triple_steps = triple_keep triple_asks_keep triple_if triple_option triple_sret triple_raise triple_asks_end triple_slift
  triple_wake triple_clock triple_touch triple_alter_quiet triple_disconnect triple_require triple_drop

end
