(* ===== verification/Submission_Clients.thy ===== *)
theory Submission_Clients
  imports Submission_Invariant
begin

section \<open>The callers and the adapter events keep the invariant\<close>

text \<open>
  One lemma per operation that leaves the dispatcher and the wire alone: submitting, setting, withdrawing, reconciling, resolving,
  observing an adapter event and answering an interaction.
\<close>

text \<open>A queued row leaves the queue for good.\<close>

lemma triple_clock_calm: "triple (\<lambda>s. core_inv X D N g s \<and> calm X g a s) (read_clock env) (\<lambda>_ s. core_inv X D N g s \<and> calm X g a s)"
  by (rule triple_read_clock) (simp add: calm_def)

lemma triple_settle_queued:
  assumes "st \<in> SETTLED" "\<And>now. triple (core_inv X D N g) (m now) (\<lambda>_. core_inv X D N g)"
  shows "triple (\<lambda>s. core_inv X D N g s \<and> calm X g a s) (sbind (read_clock env) (\<lambda>now.
    sbind (smodify (\<lambda>s. s\<lparr>au_timeline := remove1 k (au_timeline s)\<rparr>)) (\<lambda>_.
    sbind (alter_row a (mark_terminal st d now)) (\<lambda>_. m now)))) (\<lambda>_. core_inv X D N g)"
proof (rule triple_seq [OF triple_clock_calm])
  fix now
  have "triple (\<lambda>s. core_inv X D N g s \<and> calm X g a s) (smodify (\<lambda>s. s\<lparr>au_timeline := remove1 k (au_timeline s)\<rparr>))
      (\<lambda>_ s. core_inv X D N g s \<and> calm X g a s)"
    by (rule triple_smodify) (simp add: core_inv_unqueued calm_def)
  then show "triple (\<lambda>s. core_inv X D N g s \<and> calm X g a s) (sbind (smodify (\<lambda>s. s\<lparr>au_timeline := remove1 k (au_timeline s)\<rparr>)) (\<lambda>_.
    sbind (alter_row a (mark_terminal st d now)) (\<lambda>_. m now))) (\<lambda>_. core_inv X D N g)"
    by (rule triple_seq) (rule triple_seq [OF triple_alter_row [OF settles_terminal [OF assms(1)]] assms(2)], simp_all)
qed simp

lemma triple_withdraw: "triple (core_inv X D N g) (authority_withdraw env expected i cockpit_only) (\<lambda>_. core_inv X D N g)"
proof -
  have last: "triple (core_inv X D N g) (sbind (asks (\<lambda>s. op_receipt AccRejected (au_epoch s) None (au_op s a))) (\<lambda>receipt.
      sbind (alter_row a (op_resolve (FutReceipt receipt))) (\<lambda>_. sbind wake (\<lambda>_. sret w)))) (\<lambda>_. core_inv X D N g)" for a w
    by (intro triple_steps; simp)
  show ?thesis
    unfolding authority_withdraw_def case_prod_beta
    by (rule triple_keep [OF triple_require(2)], rule triple_asks, rule triple_option, rule triple_sret, erule conjunct1,
        (rule triple_if, rule triple_sret, erule conjunct1)+, rule triple_pre [OF triple_settle_queued [OF _ last]])
       (auto simp: calm_def)
qed

definition indexed :: "authority \<Rightarrow> int \<Rightarrow> bool" where
  "indexed s a \<longleftrightarrow> Some a \<in> range (by_key (au_ledger s))"

lemma indexedI:
  "by_key (au_ledger s) k = Some a \<Longrightarrow> indexed s a"
  "by_request_id (au_ledger s) i = Some a \<Longrightarrow> indexed s a"
  "active_row s = Some a \<Longrightarrow> indexed s a"
  unfolding indexed_def by (auto simp: by_request_id_def active_row_def intro: range_eqI [OF sym] split: option.splits)

lemma triple_lookup:
  assumes "\<And>s a. core_inv X D N g s \<Longrightarrow> P s \<Longrightarrow> f s = Some a \<Longrightarrow> indexed s a"
    "\<And>a. triple (\<lambda>s. core_inv X D N g s \<and> P s \<and> row_retained a s \<and> f s = Some a) (m a) (\<lambda>_. core_inv X D N g)"
    "triple (core_inv X D N g) n (\<lambda>_. core_inv X D N g)"
  shows "triple (\<lambda>s. core_inv X D N g s \<and> P s) (sbind (asks f) (\<lambda>x. case x of None \<Rightarrow> n | Some a \<Rightarrow> m a)) (\<lambda>_. core_inv X D N g)"
proof (rule triple_asks, rule triple_option)
  fix x and a :: int assume x: "x = Some a"
  have "core_inv X D N g s \<and> P s \<and> row_retained a s \<and> f s = Some a" if "(core_inv X D N g s \<and> P s) \<and> f s = x" for s
    using that x assms(1) [of s a] by_key_row(3) [of X D N g s _ a] unfolding indexed_def by auto
  then show "triple (\<lambda>s. (core_inv X D N g s \<and> P s) \<and> f s = x) (m a) (\<lambda>_. core_inv X D N g)" by (rule triple_pre [OF assms(2)])
qed (rule triple_pre [OF assms(3)], simp)

lemma triple_note_asked:
  "triple (\<lambda>s. core_inv X D N g s \<and> asked_ok s ref) (smodify (\<lambda>s. s\<lparr>au_reconciling := (ref, i) # au_reconciling s\<rparr>))
     (\<lambda>_. core_inv X D N g)"
  by (rule triple_smodify)
     (auto simp: core_inv_def queue_inv_def wire_inv_def past_sending_def reconcile_inv_def asked_ok_def frame_inv_def)

lemma asked_unknown:
  assumes "core_inv X D N g s" "row_retained a s" "op_reconciliation (au_epoch s) (au_op s a) = None"
  shows "asked_ok s (op_ref (au_op s a))"
proof -
  have "minted (au_ledger s) a" using assms(1,2) by_key_row(2) unfolding row_retained_def by blast
  moreover from this assms(1) have "rf_sequence (op_ref (au_op s a)) = a" by (simp add: core_inv_def ledger_inv_def)
  moreover have "op_state (au_op s a) = SubUnknown" using assms(3) by (auto simp: op_reconciliation_def split: if_splits)
  ultimately show ?thesis by (simp add: asked_ok_def)
qed

lemma triple_reconcile_ask: "triple (core_inv X D N g) (reconcile_ask expected i) (\<lambda>_. core_inv X D N g)"
  unfolding reconcile_ask_def
proof (rule triple_keep [OF triple_require(2)], rule triple_pre [OF triple_lookup [where P = "\<lambda>_. True"]])
  fix a
  have known: "triple (core_inv X D N g) (sbind (asks (\<lambda>s. op_key (au_op s a))) (\<lambda>k. sbind (touch_row k) (\<lambda>_. sret (ReconcileKnown answer))))
      (\<lambda>_. core_inv X D N g)" for answer
    by (intro triple_steps; simp)
  show "triple (\<lambda>s. core_inv X D N g s \<and> True \<and> row_retained a s \<and> by_request_id (au_ledger s) i = Some a)
    (sbind (asks (\<lambda>s. op_reconciliation (au_epoch s) (au_op s a))) (\<lambda>known. case known of
       None \<Rightarrow> sbind (asks (\<lambda>s. op_ref (au_op s a))) (\<lambda>ref.
         sbind (smodify (\<lambda>s. s\<lparr>au_reconciling := (ref, i) # au_reconciling s\<rparr>)) (\<lambda>_. sret (ReconcileAsk ref)))
     | Some answer \<Rightarrow> sbind (asks (\<lambda>s. op_key (au_op s a))) (\<lambda>k. sbind (touch_row k) (\<lambda>_. sret (ReconcileKnown answer)))))
    (\<lambda>_. core_inv X D N g)"
    by (rule triple_asks, rule triple_option, rule triple_asks, rule triple_seq [OF triple_pre [OF triple_note_asked]])
       (auto intro: triple_sret asked_unknown triple_pre [OF known])
qed (auto intro: triple_raise indexedI)

lemma triple_settle_and_release:
  assumes "st \<in> SETTLED"
  shows "triple (inv_row X D N g a) (sbind (alter_row a (mark_terminal st d t)) (\<lambda>_. release_head a c)) (\<lambda>_. core_inv X D N g)"
  by (rule triple_seq [OF triple_mark_terminal [OF assms] triple_release]) simp

lemma triple_settle_release_wake:
  assumes "st \<in> SETTLED"
  shows "triple (inv_row X D N g a) (sbind (alter_row a (mark_terminal st d t)) (\<lambda>_. sbind (release_head a c) (\<lambda>_. wake))) (\<lambda>_. core_inv X D N g)"
  unfolding sbind_assoc [symmetric] by (rule triple_seq [OF triple_settle_and_release [OF assms] triple_wake]) simp

lemma triple_apply_reconciliation: "triple (inv_row X D N g a) (apply_reconciliation a result) (\<lambda>_. core_inv X D N g)"
proof -
  have accepted: "settles (\<lambda>r. r\<lparr>op_state := SubDelivered, op_accepted_at := acc, op_vendor_correlation_id := c, op_detail := d, op_updated_at := t\<rparr>)"
    for acc c d t by (simp add: settles_def)
  show ?thesis
  proof (cases "rr_state result")
    case RecAccepted
    then show ?thesis
      by (simp add: apply_reconciliation_def) (rule triple_pre [OF triple_alter_row [OF accepted]], simp)
  next
    case RecUnresolved
    then show ?thesis
      by (simp add: apply_reconciliation_def) (rule triple_pre [OF triple_alter_quiet], simp_all)
  qed (simp_all add: apply_reconciliation_def triple_settle_and_release)
qed

lemma asked_calm:
  assumes "core_inv X D N g s" "X \<longrightarrow> asked_ok s ref \<and> exact_row ref s" "by_key (au_ledger s) (control_ref_key ref) = Some a"
  shows "calm X g a s"
proof -
  have "minted (au_ledger s) a" using assms(1,3) by_key_row(2) by blast
  with assms(1) have "rf_sequence (op_ref (au_op s a)) = a" by (simp add: core_inv_def ledger_inv_def)
  with assms(2,3) show ?thesis by (auto simp: exact_row_def asked_ok_def calm_def)
qed

lemma triple_reconcile_answer:
  "triple (\<lambda>s. core_inv X D N g s \<and> (X \<longrightarrow> asked_ok s ref \<and> exact_row ref s)) (reconcile_answer ref i result) (\<lambda>_. core_inv X D N g)"
  unfolding reconcile_answer_def
proof (rule triple_if, rule triple_raise, erule conjunct1, rule triple_lookup)
  fix a
  have "triple (inv_row X D N g a) (sbind (apply_reconciliation a result) (\<lambda>_. sbind wake (\<lambda>_. asks (f a)))) (\<lambda>_. core_inv X D N g)" for f
    by (rule triple_seq [OF triple_apply_reconciliation]) (intro triple_steps; simp)+
  then show "triple (\<lambda>s. core_inv X D N g s \<and> (X \<longrightarrow> asked_ok s ref \<and> exact_row ref s) \<and> row_retained a s \<and> by_key (au_ledger s) (control_ref_key ref) = Some a)
      (sbind (apply_reconciliation a result) (\<lambda>_. sbind wake (\<lambda>_.
        asks (\<lambda>s. result\<lparr>rr_bridge_epoch := Some (au_epoch s), rr_submission_state := Some (op_state (au_op s a))\<rparr>))))
      (\<lambda>_. core_inv X D N g)"
    by (rule triple_pre) (auto intro: asked_calm)
qed (auto intro: triple_raise indexedI)

lemma triple_resume_reconcile:
  "triple (\<lambda>s. core_inv X D N g s \<and> (X \<longrightarrow> exact_row ref s)) (resume_reconcile ref i result) (\<lambda>_. core_inv X D N g)"
  unfolding resume_reconcile_def
proof (rule triple_asks, rule triple_if, rule triple_sret, simp, rule triple_seq)
  fix waiting :: bool assume "\<not> \<not> waiting"
  then show "triple (\<lambda>s. (core_inv X D N g s \<and> (X \<longrightarrow> exact_row ref s)) \<and> ((ref, i) \<in> set (au_reconciling s)) = waiting)
      (smodify (\<lambda>s. s\<lparr>au_reconciling := remove1 (ref, i) (au_reconciling s)\<rparr>))
      (\<lambda>_ s. core_inv X D N g s \<and> (X \<longrightarrow> asked_ok s ref \<and> exact_row ref s))"
  proof (intro triple_smodify, elim conjE)
    fix s assume s: "core_inv X D N g s" "X \<longrightarrow> exact_row ref s" "((ref, i) \<in> set (au_reconciling s)) = waiting"
    with \<open>\<not> \<not> waiting\<close> have "X \<longrightarrow> asked_ok s ref" unfolding core_inv_def reconcile_inv_def by force
    with s show "core_inv X D N g (s\<lparr>au_reconciling := remove1 (ref, i) (au_reconciling s)\<rparr>) \<and>
        (X \<longrightarrow> asked_ok (s\<lparr>au_reconciling := remove1 (ref, i) (au_reconciling s)\<rparr>) ref \<and>
        exact_row ref (s\<lparr>au_reconciling := remove1 (ref, i) (au_reconciling s)\<rparr>))"
      by (simp add: core_inv_reconciled asked_ok_def exact_row_def split: option.splits)
  qed
qed (auto intro: triple_drop triple_reconcile_answer)

lemma triple_settle_unknown: "triple (inv_row X D N g a) (settle_unknown env a applied detail) (\<lambda>_. core_inv X D N g)"
  unfolding settle_unknown_def
  by (rule triple_seq [OF triple_clock_row triple_settle_release_wake]) simp_all

lemma triple_resolve: "triple (core_inv X D N g) (resolve_operation env i kind applied detail) (\<lambda>_. core_inv X D N g)"
  unfolding resolve_operation_def
proof (rule triple_pre [OF triple_lookup [where P = "\<lambda>_. True"]])
  fix a
  show "triple (\<lambda>s. core_inv X D N g s \<and> True \<and> row_retained a s \<and> by_key (au_ledger s) (kind, i) = Some a)
    (sbind (asks (\<lambda>s. op_state (au_op s a))) (\<lambda>state.
       if state \<noteq> SubUnknown then raise (HarnessControlError ''only an unknown operation can be operator-resolved'')
       else settle_unknown env a applied detail)) (\<lambda>_. core_inv X D N g)"
    by (rule triple_asks, rule triple_if, rule triple_raise) (auto intro!: triple_pre [OF triple_settle_unknown] simp: calm_def)
qed (auto intro: triple_raise indexedI)

lemma triple_resolve_prompt: "triple (core_inv X D N g) (resolve_unknown_prompt env i state detail) (\<lambda>_. core_inv X D N g)"
  unfolding resolve_unknown_prompt_def
  by (intro triple_steps triple_resolve; simp)


lemma triple_complete_active: "triple (\<lambda>s. core_inv X D N g s \<and> row_retained a s) (complete_active a ref event) (\<lambda>_. core_inv X D N g)"
  unfolding complete_active_def
proof (rule triple_asks, intro triple_if triple_raise)
  fix r :: submission_record assume "op_state r = SubDispatching"
  show "triple (\<lambda>s. (core_inv X D N g s \<and> row_retained a s) \<and> au_op s a = r)
     (alter_row a (\<lambda>r. r\<lparr>op_buffered_completion_sequence := Some (ae_sequence event)\<rparr>)) (\<lambda>_. core_inv X D N g)"
    by (rule triple_pre [OF triple_alter_quiet]) simp_all
next
  fix r :: submission_record assume "op_state r \<noteq> SubDispatching"
  then show "triple (\<lambda>s. (core_inv X D N g s \<and> row_retained a s) \<and> au_op s a = r)
      (sbind (alter_row a (mark_terminal SubDelivered (op_detail r) (ae_created_at event))) (\<lambda>_. sbind (release_head a True) (\<lambda>_. wake)))
      (\<lambda>_. core_inv X D N g)"
    by (intro triple_pre [OF triple_settle_release_wake]) (auto simp: calm_def)
qed auto

lemma triple_observe_completion: "triple (core_inv X D N g) (observe_completion ref event) (\<lambda>_. core_inv X D N g)"
proof -
  have act: "triple (core_inv X D N g) (sbind (asks active_row) (\<lambda>active. case active of
      None \<Rightarrow> raise e | Some a \<Rightarrow> complete_active a ref event)) (\<lambda>_. core_inv X D N g)" for e
    by (rule triple_pre [OF triple_lookup [where P = "\<lambda>_. True"]])
       (auto intro: triple_raise triple_pre [OF triple_complete_active] intro: indexedI)
  show ?thesis
    unfolding observe_completion_def case_prod_beta by (rule triple_asks_keep) (intro triple_if triple_raise act; simp)
qed

lemma triple_observe: "triple (core_inv X D N g) (observe_event event) (\<lambda>_. core_inv X D N g)"
  unfolding observe_event_def by (intro triple_steps triple_smodify triple_observe_completion; simp)

lemma triple_snapshot_updated: "triple (core_inv X D N g) (snapshot_updated x) (\<lambda>_. core_inv X D N g)"
  unfolding snapshot_updated_def by (intro triple_steps triple_smodify; simp)

lemma triple_respond:
  "triple (core_inv X D N g) (respond_begin response) (\<lambda>_. core_inv X D N g)"
  "triple (core_inv X D N g) (respond_failed i) (\<lambda>_. core_inv X D N g)"
  "triple (core_inv X D N g) (respond_end snapshot) (\<lambda>_. core_inv X D N g)"
  unfolding respond_begin_def respond_failed_def respond_end_def Let_def
  by (intro triple_steps triple_smodify; simp)+

end
