(* ===== verification/Submission_Dispatcher.thy ===== *)
theory Submission_Dispatcher
  imports Submission_Clients
begin

section \<open>The dispatcher keeps the invariant\<close>

text \<open>
  The steps of the dispatcher task, which move rows between queued, dispatching and unknown, append to the wire and set the active
  operation; then the whole machine.
\<close>

subsection \<open>Moving a row\<close>

text \<open>A step that changes the row \<open>a\<close>, the active operation and the wire, but makes no call.\<close>

lemma core_inv_move:
  assumes inv: "core_inv X D N None s" and f: "op_ref (f (au_op s a)) = op_ref (au_op s a)"
    and wire: "wire_inv X (s\<lparr>au_ledger := update_row a f (au_ledger s), au_active := x, au_wire := w\<rparr>)"
    and calls: "call_addrs w = call_addrs (au_wire s)" "\<And>b. b \<in> D \<Longrightarrow> open_sends b w = open_sends b (au_wire s)"
    and past: "a \<in> D \<Longrightarrow> op_state (f (au_op s a)) \<noteq> SubQueued"
    and asked: "op_state (au_op s a) \<notin> {SubQueued, SubDispatching} \<Longrightarrow> op_state (f (au_op s a)) \<notin> {SubQueued, SubDispatching}"
  shows "core_inv X D N None (s\<lparr>au_ledger := update_row a f (au_ledger s), au_active := x, au_wire := w\<rparr>)"
proof -
  let ?t = "s\<lparr>au_ledger := update_row a f (au_ledger s), au_active := x, au_wire := w\<rparr>"
  have "ledger_inv (au_ledger ?t)" "queue_inv ?t" using inv f calls by (simp_all add: core_inv_def ledger_inv_update queue_inv_def)
  moreover have "past_sending D N ?t" using inv past calls by (simp add: core_inv_def past_sending_def)
  moreover have "reconcile_inv X ?t" by (rule reconcile_inv_rows [of X s]) (use inv f asked in \<open>auto simp: core_inv_def\<close>)
  ultimately show ?thesis using wire by (simp add: core_inv_def frame_inv_def)
qed

text \<open>A call for \<open>a\<close> that the adapter did not certify as unsent belongs to the retained active row.\<close>

definition in_flight :: "bool \<Rightarrow> int \<Rightarrow> authority \<Rightarrow> bool" where
  "in_flight X a s \<longleftrightarrow> (X \<longrightarrow> open_sends a (au_wire s) = 1 \<longrightarrow> row_retained a s \<and> au_active s = Some (op_key (au_op s a)))"

lemma in_flightI: "core_inv X D N g s \<Longrightarrow> (X \<Longrightarrow> op_state (au_op s a) \<in> {SubDispatching, SubUnknown}) \<Longrightarrow> in_flight X a s"
  unfolding core_inv_def in_flight_def row_retained_def using wire_invD(3) [of X s a] by blast

lemma core_inv_unknown:
  assumes inv: "core_inv X D N None s" and fl: "in_flight X a s"
    and f: "op_ref (f (au_op s a)) = op_ref (au_op s a)" "op_state (f (au_op s a)) = SubUnknown"
  shows "core_inv X D N None (s\<lparr>au_ledger := update_row a f (au_ledger s)\<rparr>)"
proof -
  let ?t = "s\<lparr>au_ledger := update_row a f (au_ledger s), au_active := au_active s, au_wire := au_wire s\<rparr>"
  have w: "wire_inv X s" using inv by (simp add: core_inv_def)
  have key: "op_key (f (au_op s a)) = op_key (au_op s a)" using f(1) by (rule op_key_ref)
  have "wire_inv X ?t"
  proof (rule wire_invI)
    fix b
    show "open_sends b (au_wire ?t) = 0 \<or> open_sends b (au_wire ?t) = 1" using wire_invD(1) [OF w] by simp
    show "minted (au_ledger ?t) b \<and> op_state (au_op ?t b) \<noteq> SubQueued" if "open_sends b (au_wire ?t) = 1"
      using that wire_invD(2) [OF w, of b] f(2) by simp
    show "by_key (au_ledger ?t) (op_key (au_op ?t b)) = Some b \<and> au_active ?t = Some (op_key (au_op ?t b))"
      if X "open_sends b (au_wire ?t) = 1" "op_state (au_op ?t b) \<in> {SubDispatching, SubUnknown}"
      using that wire_invD(3) [OF w, of b] fl key by (cases "b = a") (simp_all add: in_flight_def row_retained_def)
    show "by_key (au_ledger ?t) (op_key (au_op ?t b)) = Some b"
      if "minted (au_ledger ?t) b" "op_state (au_op ?t b) \<in> {SubQueued, SubDispatching}"
      using that wire_invD(4) [OF w, of b] f(2) by (cases "b = a") simp_all
  qed
  from core_inv_move [OF inv f(1) this] f(2) show ?thesis by simp
qed

lemma mark_unknown_frame [simp]: "op_ref (mark_unknown d c t e r) = op_ref r" "op_state (mark_unknown d c t e r) = SubUnknown"
  by (auto simp: mark_unknown_def op_resolve_def Let_def split: option.splits)

lemma triple_mark_unknown_row:
  "triple (\<lambda>s. core_inv X D N None s \<and> in_flight X a s) (mark_unknown_row env a d c) (\<lambda>_. core_inv X D N None)"
  unfolding mark_unknown_row_def
proof (rule triple_seq [where Q = "\<lambda>s. core_inv X D N None s \<and> in_flight X a s"])
  show "triple (\<lambda>s. core_inv X D N None s \<and> in_flight X a s) (read_clock env) (\<lambda>_ s. core_inv X D N None s \<and> in_flight X a s)"
    by (rule triple_read_clock) (simp add: in_flight_def row_retained_def)
  show "triple (\<lambda>s. core_inv X D N None s \<and> in_flight X a s) (sbind (asks au_epoch) (\<lambda>epoch. alter_row a (mark_unknown d c now epoch)))
      (\<lambda>_. core_inv X D N None)" for now
    unfolding alter_row_def by (rule triple_asks_keep, rule triple_smodify) (auto intro!: core_inv_unknown)
qed simp

lemma triple_possible_send_failure:
  "triple (\<lambda>s. core_inv X D N None s \<and> in_flight X a s) (possible_send_failure env a d c) (\<lambda>_. core_inv X D N None)"
  unfolding possible_send_failure_def by (rule triple_seq [OF triple_mark_unknown_row triple_disconnect]) simp

subsection \<open>Looking and the preflight\<close>

lemma triple_turn: "triple P m (\<lambda>_. core_inv X D N None) \<Longrightarrow> triple P (dispatcher_turn m) (\<lambda>_. machine_inv X D N)"
  by (auto simp: triple_def dispatcher_turn_def machine_inv_def dispatcher_inv_def split: prod.splits sum.splits)

lemma triple_dispatcher_wake: "triple (machine_inv X D N) dispatcher_wake (\<lambda>_. machine_inv X D N)"
  unfolding dispatcher_wake_def by (rule triple_smodify) (auto simp: machine_inv_def dispatcher_inv_def)

lemma dispatchable_row:
  assumes "core_inv X D N g s" "dispatchable_head s = Inr (Some a)"
  shows "au_active s = None" "minted (au_ledger s) a" "open_sends a (au_wire s) = 0"
proof -
  from assms have a: "au_active s = None" "minted (au_ledger s) a" "op_state (au_op s a) = SubQueued"
    by (cases "au_active s"; auto simp: dispatchable_head_def split: list.splits option.splits if_splits dest: by_key_row(2))+
  then show "au_active s = None" "minted (au_ledger s) a" by blast+
  have "wire_inv X s" using assms(1) by (simp add: core_inv_def)
  from wire_invD(1,2) [OF this, of a] a(3) show "open_sends a (au_wire s) = 0" by blast
qed

lemma triple_dispatcher_look: "triple (machine_inv X D N) dispatcher_look (\<lambda>_. machine_inv X D N)"
proof -
  have "machine_inv X D N (s\<lparr>au_dispatcher := (case dispatchable_head s of Inl e \<Rightarrow> DispDead | Inr None \<Rightarrow> DispWaiting
      | Inr (Some a) \<Rightarrow> DispPreflight a)\<rparr>)" if "machine_inv X D N s" for s
    using that dispatchable_row [of X D N None s]
    by (auto simp: machine_inv_def dispatcher_inv_def split: sum.splits option.splits)
  then show ?thesis unfolding dispatcher_look_def
    by (intro triple_asks_keep triple_if triple_sret triple_smodify) auto
qed

lemma triple_preflight_busy: "triple (core_inv X D N g) (preflight_busy env a d) (\<lambda>_. core_inv X D N g)"
  unfolding preflight_busy_def case_prod_beta by (intro triple_steps; simp)

text \<open>While nothing is active, nothing called is unsettled.\<close>

lemma idle_not_open:
  assumes "wire_inv X s" X "au_active s = None" "open_sends b (au_wire s) = 1"
  shows "op_state (au_op s b) \<notin> {SubDispatching, SubUnknown}"
  using assms wire_invD(3) [of X s b] by auto

lemma core_inv_activate:
  assumes "core_inv X D N None s" "au_active s = None"
  shows "core_inv X D N None (s\<lparr>au_active := x\<rparr>)"
proof -
  have w: "wire_inv X s" using assms(1) by (simp add: core_inv_def)
  have "wire_inv X (s\<lparr>au_active := x\<rparr>)"
    using w idle_not_open [OF w _ assms(2)] by (simp add: wire_inv_def)
  with assms(1) show ?thesis
    by (simp add: core_inv_def queue_inv_def past_sending_def reconcile_inv_def asked_ok_def frame_inv_def)
qed

lemma triple_preflight_claim:
  "triple (\<lambda>s. core_inv X D N None s \<and> au_active s = None \<and> open_sends a (au_wire s) = 0) (unknown_after_preflight_claim env a d c)
     (\<lambda>_. core_inv X D N None)"
  unfolding unknown_after_preflight_claim_def sbind_assoc [symmetric]
proof (rule triple_seq [OF _ triple_disconnect], rule triple_seq)
  show "triple (\<lambda>s. core_inv X D N None s \<and> au_active s = None \<and> open_sends a (au_wire s) = 0)
      (smodify (\<lambda>s. s\<lparr>au_active := Some (op_key (au_op s a))\<rparr>)) (\<lambda>_ s. core_inv X D N None s \<and> in_flight X a s)"
    by (rule triple_smodify) (auto simp: core_inv_activate in_flight_def)
qed (auto intro: triple_mark_unknown_row)

subsection \<open>Claiming and calling\<close>

lemma sbind_smodify2: "sbind (smodify f) (\<lambda>_. sbind (smodify h) k) = sbind (smodify (\<lambda>s. h (f s))) k"
  by (simp add: fun_eq_iff sbind_def smodify_def)

definition claimed_row :: "int set \<Rightarrow> int \<Rightarrow> authority \<Rightarrow> bool" where
  "claimed_row D a s \<longleftrightarrow> row_retained a s \<and> op_state (au_op s a) = SubDispatching \<and> au_active s = Some (op_key (au_op s a)) \<and>
     open_sends a (au_wire s) = 0 \<and> au_timeline s \<noteq> [] \<and> hd (au_timeline s) = op_key (au_op s a) \<and> a \<notin> D"

lemma core_inv_claim:
  assumes inv: "core_inv X D N None s" and a: "au_active s = None" "op_state (au_op s a) = SubQueued" "minted (au_ledger s) a"
    and f: "op_ref (f (au_op s a)) = op_ref (au_op s a)" "op_state (f (au_op s a)) = SubDispatching"
    and head: "au_timeline s \<noteq> []" "hd (au_timeline s) = op_key (au_op s a)"
  shows "core_inv X D N None (s\<lparr>au_ledger := update_row a f (au_ledger s), au_active := Some (op_key (au_op s a))\<rparr>)"
    "claimed_row D a (s\<lparr>au_ledger := update_row a f (au_ledger s), au_active := Some (op_key (au_op s a))\<rparr>)"
proof -
  let ?t = "s\<lparr>au_ledger := update_row a f (au_ledger s), au_active := Some (op_key (au_op s a)), au_wire := au_wire s\<rparr>"
  have w: "wire_inv X s" and p: "past_sending D N s" using inv by (simp_all add: core_inv_def)
  have key: "op_key (f (au_op s a)) = op_key (au_op s a)" using f(1) by (rule op_key_ref)
  have not_open: "open_sends a (au_wire s) = 0" using wire_invD(1,2) [OF w, of a] a(2) by blast
  have "wire_inv X ?t"
  proof (rule wire_invI)
    fix b
    show "open_sends b (au_wire ?t) = 0 \<or> open_sends b (au_wire ?t) = 1" using wire_invD(1) [OF w] by simp
    show "minted (au_ledger ?t) b \<and> op_state (au_op ?t b) \<noteq> SubQueued" if "open_sends b (au_wire ?t) = 1"
      using that wire_invD(2) [OF w, of b] not_open by auto
    show "by_key (au_ledger ?t) (op_key (au_op ?t b)) = Some b \<and> au_active ?t = Some (op_key (au_op ?t b))"
      if X "open_sends b (au_wire ?t) = 1" "op_state (au_op ?t b) \<in> {SubDispatching, SubUnknown}"
      using that idle_not_open [OF w _ a(1), of b] not_open by (cases "b = a") auto
    show "by_key (au_ledger ?t) (op_key (au_op ?t b)) = Some b"
      if "minted (au_ledger ?t) b" "op_state (au_op ?t b) \<in> {SubQueued, SubDispatching}"
      using that wire_invD(4) [OF w, of b] a(2) key by (cases "b = a") simp_all
  qed
  then show "core_inv X D N None (s\<lparr>au_ledger := update_row a f (au_ledger s), au_active := Some (op_key (au_op s a))\<rparr>)"
    using core_inv_move [of X D N s f a "au_wire s" "Some (op_key (au_op s a))"] inv f a(2) by simp
  have "a \<notin> D" using p a(2) by (auto simp: past_sending_def)
  then show "claimed_row D a (s\<lparr>au_ledger := update_row a f (au_ledger s), au_active := Some (op_key (au_op s a))\<rparr>)"
    using wire_invD(4) [OF w a(3)] a(2) f key head not_open by (simp add: claimed_row_def row_retained_def)
qed

lemma triple_read_clock_ok:
  assumes "\<And>s n. P s \<Longrightarrow> P (s\<lparr>au_ticks := n\<rparr>)"
  shows "triple P (read_clock env) (\<lambda>r s. case r of Inl e \<Rightarrow> R (Inl e) s | Inr x \<Rightarrow> P s)"
  using assms by (auto simp: triple_def read_clock_def)

lemma triple_claim_head:
  "triple (\<lambda>s. core_inv X D N None s \<and> minted (au_ledger s) a) (claim_head env a)
     (\<lambda>r s. core_inv X D N None s \<and> (\<exists>b. r = Inr b \<and> (b \<longrightarrow> claimed_row D a s)))"
proof -
  let ?ok = "\<lambda>k s. core_inv X D N None s \<and> minted (au_ledger s) a \<and> au_active s = None \<and> op_state (au_op s a) = SubQueued \<and>
    au_timeline s \<noteq> [] \<and> hd (au_timeline s) = op_key (au_op s a) \<and> k = op_key (au_op s a)"
  have claim: "triple (?ok k) (sbind (alter_row a (\<lambda>r. r\<lparr>op_state := SubDispatching, op_updated_at := now\<rparr>)) (\<lambda>_.
      sbind (smodify (\<lambda>s. s\<lparr>au_active := Some k\<rparr>)) (\<lambda>_. sret True)))
      (\<lambda>r s. core_inv X D N None s \<and> (\<exists>b. r = Inr b \<and> (b \<longrightarrow> claimed_row D a s)))" for k now
    unfolding alter_row_def sbind_smodify2
  proof (rule triple_bind [OF triple_smodify triple_sret], unfold sum.case, elim conjE)
    let ?f = "\<lambda>r :: submission_record. r\<lparr>op_state := SubDispatching, op_updated_at := now\<rparr>"
    fix s assume s: "core_inv X D N None s" "minted (au_ledger s) a" "au_active s = None" "op_state (au_op s a) = SubQueued"
      "au_timeline s \<noteq> []" "hd (au_timeline s) = op_key (au_op s a)" and k: "k = op_key (au_op s a)"
    from core_inv_claim [OF s(1,3,4,2) _ _ s(5,6), of ?f] show "core_inv X D N None (s\<lparr>au_ledger := update_row a ?f (au_ledger s)\<rparr>\<lparr>au_active := Some k\<rparr>) \<and>
        (\<exists>b. Inr True = (Inr b :: bool res) \<and> (b \<longrightarrow> claimed_row D a (s\<lparr>au_ledger := update_row a ?f (au_ledger s)\<rparr>\<lparr>au_active := Some k\<rparr>)))"
      by (auto simp: k)
  qed
  have whole: "triple (?ok k) (sbind (read_clock env) (\<lambda>now. sbind (alter_row a (\<lambda>r. r\<lparr>op_state := SubDispatching, op_updated_at := now\<rparr>)) (\<lambda>_.
      sbind (smodify (\<lambda>s. s\<lparr>au_active := Some k\<rparr>)) (\<lambda>_. sret True))))
      (\<lambda>r s. core_inv X D N None s \<and> (\<exists>b. r = Inr b \<and> (b \<longrightarrow> claimed_row D a s)))" for k
    by (rule triple_bind [OF triple_read_clock_ok claim]) simp
  show ?thesis unfolding claim_head_def Let_def
    by (rule triple_asks, rule triple_if, rule triple_sret, blast, rule triple_pre [OF whole], auto simp del: not_None_eq)
qed

text \<open>The call of the claimed head comes after every call before it.\<close>

lemma core_inv_call:
  assumes inv: "core_inv X D N None s" and a: "claimed_row D a s"
  shows "machine_inv X D N (s\<lparr>au_wire := au_wire s @ [WireCall a c], au_dispatcher := DispSending a\<rparr>)"
proof -
  let ?t = "s\<lparr>au_wire := au_wire s @ [WireCall a c], au_dispatcher := DispSending a\<rparr>"
  have q: "queue_inv s" and w: "wire_inv X s" and l: "ledger_inv (au_ledger s)" using inv by (simp_all add: core_inv_def)
  from a obtain k ks where tl: "au_timeline s = k # ks" "k = op_key (au_op s a)" by (cases "au_timeline s") (auto simp: claimed_row_def)
  with a have bk: "by_key (au_ledger s) k = Some a" by (simp add: claimed_row_def row_retained_def)
  then have m: "minted (au_ledger s) a" by (rule by_key_row(2) [OF inv])
  have ahead: "a \<le> the (by_key (au_ledger s) j)" if "j \<in> set (au_timeline s)" for j using q that bk tl by (auto simp: queue_inv_def)
  have past: "b \<le> a" if "b \<in> set (call_addrs (au_wire s))" for b using q that bk tl by (auto simp: queue_inv_def)
  have "queue_inv ?t" using q ahead past m unfolding queue_inv_def by (auto simp: sorted_append)
  moreover have "wire_inv X ?t"
  proof (rule wire_invI)
    fix b
    show "open_sends b (au_wire ?t) = 0 \<or> open_sends b (au_wire ?t) = 1"
      using wire_invD(1) [OF w, of b] a by (auto simp: claimed_row_def)
    show "minted (au_ledger ?t) b \<and> op_state (au_op ?t b) \<noteq> SubQueued" if "open_sends b (au_wire ?t) = 1"
      using that wire_invD(2) [OF w, of b] a m by (cases "b = a") (auto simp: claimed_row_def)
    show "by_key (au_ledger ?t) (op_key (au_op ?t b)) = Some b \<and> au_active ?t = Some (op_key (au_op ?t b))"
      if X "open_sends b (au_wire ?t) = 1" "op_state (au_op ?t b) \<in> {SubDispatching, SubUnknown}"
      using that wire_invD(3) [OF w, of b] a by (cases "b = a") (auto simp: claimed_row_def row_retained_def)
    show "by_key (au_ledger ?t) (op_key (au_op ?t b)) = Some b"
      if "minted (au_ledger ?t) b" "op_state (au_op ?t b) \<in> {SubQueued, SubDispatching}"
      using that wire_invD(4) [OF w, of b] by simp
  qed
  moreover have "past_sending D N ?t" using inv a by (auto simp: core_inv_def past_sending_def claimed_row_def)
  moreover have "reconcile_inv X ?t" by (rule reconcile_inv_rows [of X s]) (use inv in \<open>auto simp: core_inv_def\<close>)
  moreover have "dispatcher_inv X ?t" using a by (simp add: dispatcher_inv_def claimed_row_def)
  ultimately show ?thesis using l by (simp add: machine_inv_def core_inv_def frame_inv_def)
qed

lemma triple_begin_call: "triple (\<lambda>s. core_inv X D N None s \<and> claimed_row D a s) (begin_call env a) (\<lambda>_. machine_inv X D N)"
proof -
  have failed: "triple (\<lambda>s. core_inv X D N None s \<and> claimed_row D a s)
      (dispatcher_turn (sbind (possible_send_failure env a d c) (\<lambda>_. sret False))) (\<lambda>_. machine_inv X D N)" for d c
    by (rule triple_turn, rule triple_seq [OF triple_pre [OF triple_possible_send_failure] triple_sret])
       (auto simp: claimed_row_def in_flight_def)
  have called: "triple (\<lambda>s. core_inv X D N None s \<and> claimed_row D a s)
      (smodify (\<lambda>s. s\<lparr>au_wire := au_wire s @ [WireCall a c], au_dispatcher := DispSending a\<rparr>)) (\<lambda>_. machine_inv X D N)" for c
    by (rule triple_smodify) (auto intro: core_inv_call)
  show ?thesis unfolding begin_call_def by (rule triple_asks_keep, rule triple_option) (rule failed called)+
qed

lemma triple_dispatcher_preflight: "triple (machine_inv X D N) (dispatcher_preflight env outcome) (\<lambda>_. machine_inv X D N)"
  unfolding dispatcher_preflight_def
proof (rule triple_asks)
  fix d
  show "triple (\<lambda>s. machine_inv X D N s \<and> au_dispatcher s = d)
    (case d of DispPreflight a \<Rightarrow> (case outcome of
            PreflightOk \<Rightarrow> sbind (claim_head env a) (\<lambda>claimed. if claimed then begin_call env a else dispatcher_turn (sret True))
          | PreflightBusy detail \<Rightarrow> dispatcher_turn (sbind (preflight_busy env a detail) (\<lambda>_. sret False))
          | PreflightDisconnected detail may_have_sent correlation \<Rightarrow> dispatcher_turn (sbind
                (if may_have_sent then unknown_after_preflight_claim env a detail correlation else preflight_busy env a detail)
                (\<lambda>_. sret False))
          | PreflightRaised detail \<Rightarrow> dispatcher_turn (raise (RuntimeError detail)))
     | _ \<Rightarrow> sret ()) (\<lambda>_. machine_inv X D N)"
  proof (cases d)
    case (DispPreflight a)
    let ?pre = "\<lambda>s. core_inv X D N None s \<and> au_active s = None \<and> minted (au_ledger s) a \<and> open_sends a (au_wire s) = 0"
    have turn: "triple ?pre (dispatcher_turn (sbind m (\<lambda>_. sret b))) (\<lambda>_. machine_inv X D N)"
      if "triple ?pre m (\<lambda>_. core_inv X D N None)" for m :: "(authority, unit) prog" and b
      by (rule triple_turn, rule triple_seq [OF that triple_sret]) auto
    have busy: "triple ?pre (preflight_busy env a e) (\<lambda>_. core_inv X D N None)" for e by (rule triple_pre [OF triple_preflight_busy]) simp
    have claim: "triple ?pre (unknown_after_preflight_claim env a e c) (\<lambda>_. core_inv X D N None)" for e c
      by (rule triple_pre [OF triple_preflight_claim]) simp
    have ok: "triple ?pre (sbind (claim_head env a) (\<lambda>claimed. if claimed then begin_call env a else dispatcher_turn (sret True)))
        (\<lambda>_. machine_inv X D N)"
    proof (rule triple_bind [where Q = "\<lambda>b s. core_inv X D N None s \<and> (b \<longrightarrow> claimed_row D a s)"])
      show "triple ?pre (claim_head env a) (\<lambda>r s. case r of Inl e \<Rightarrow> machine_inv X D N s | Inr b \<Rightarrow> core_inv X D N None s \<and> (b \<longrightarrow> claimed_row D a s))"
        by (rule triple_pre [OF triple_post [OF triple_claim_head]]) auto
    qed (auto intro!: triple_if triple_pre [OF triple_begin_call] triple_turn triple_sret)
    have pre: "?pre s" if "machine_inv X D N s \<and> au_dispatcher s = d" for s
      using that DispPreflight by (simp add: machine_inv_def dispatcher_inv_def)
    have "triple ?pre (case outcome of
            PreflightOk \<Rightarrow> sbind (claim_head env a) (\<lambda>claimed. if claimed then begin_call env a else dispatcher_turn (sret True))
          | PreflightBusy detail \<Rightarrow> dispatcher_turn (sbind (preflight_busy env a detail) (\<lambda>_. sret False))
          | PreflightDisconnected detail may_have_sent correlation \<Rightarrow> dispatcher_turn (sbind
                (if may_have_sent then unknown_after_preflight_claim env a detail correlation else preflight_busy env a detail)
                (\<lambda>_. sret False))
          | PreflightRaised detail \<Rightarrow> dispatcher_turn (raise (RuntimeError detail))) (\<lambda>_. machine_inv X D N)"
      using ok turn [OF busy] turn [OF claim] by (cases outcome) (auto intro!: triple_turn triple_raise)
    then show ?thesis using pre by (simp add: DispPreflight) (erule triple_pre)
  qed (auto intro: triple_sret)
qed

subsection \<open>What the adapter returned\<close>

text \<open>The row in flight: retained, and still dispatching when the answers are exact.\<close>

abbreviation sent_row :: "bool \<Rightarrow> int set \<Rightarrow> (int \<Rightarrow> nat) \<Rightarrow> int \<Rightarrow> authority \<Rightarrow> bool" where
  "sent_row X D N a \<equiv> \<lambda>s. inv_row X D N None a s \<and> (X \<longrightarrow> op_state (au_op s a) = SubDispatching)"

lemma quiet_row:
  assumes "quiet f"
  shows "op_state (au_op (s\<lparr>au_ledger := update_row a f (au_ledger s)\<rparr>) b) = op_state (au_op s b)"
    "row_retained b (s\<lparr>au_ledger := update_row a f (au_ledger s)\<rparr>) = row_retained b s"
  using assms by (simp_all add: quiet_def row_retained_def op_key_def)

lemma triple_quiet_sent:
  assumes "quiet f"
  shows "triple (sent_row X D N a) (alter_row a f) (\<lambda>_. sent_row X D N a)"
  unfolding alter_row_def
  by (rule triple_smodify) (use assms in \<open>auto simp: quiet_row calm_def quiet_def intro!: core_inv_alter\<close>)

lemma triple_quiet_row:
  assumes "quiet f"
  shows "triple (inv_row X D N None a) (alter_row a f) (\<lambda>_. inv_row X D N None a)"
  unfolding alter_row_def
  by (rule triple_smodify) (use assms in \<open>auto simp: quiet_row calm_def quiet_def intro!: core_inv_alter\<close>)

lemma triple_quiet_settled:
  assumes "quiet f"
  shows "triple (\<lambda>s. core_inv X D N None s \<and> settled_row a s) (alter_row a f) (\<lambda>_ s. core_inv X D N None s \<and> settled_row a s)"
  unfolding alter_row_def
  by (rule triple_smodify) (use assms in \<open>auto simp: quiet_row settled_row_def quiet_def intro!: core_inv_alter\<close>)

lemma triple_settle_row:
  assumes "settles f"
  shows "triple (inv_row X D N None a) (alter_row a f) (\<lambda>_. inv_row X D N None a)"
  unfolding alter_row_def
  by (rule triple_smodify) (use assms in \<open>auto simp: settles_def calm_def row_retained_def op_key_def intro!: core_inv_alter\<close>)

lemma triple_mark_unknown_sent: "triple (sent_row X D N a) (mark_unknown_row env a d c) (\<lambda>_. core_inv X D N None)"
  by (rule triple_pre [OF triple_mark_unknown_row]) (auto intro: in_flightI)

lemma triple_accept_prompt: "triple (inv_row X D N None a) (accept_prompt a receipt now) (\<lambda>_. inv_row X D N None a)"
proof -
  have "settles (\<lambda>r. r\<lparr>op_state := SubDelivered, op_accepted_at := t\<rparr>)" for t by (simp add: settles_def)
  then show ?thesis unfolding accept_prompt_def
    by (intro triple_keep triple_settle_row triple_asks_keep triple_quiet_row; simp)
qed

lemma triple_complete_delivered: "triple (inv_row X D N None a) (complete_delivered a now) (\<lambda>_. core_inv X D N None)"
  unfolding complete_delivered_def
  by (rule triple_seq [OF triple_mark_terminal], simp, rule triple_seq [OF triple_release triple_wake]) auto

text \<open>A settled row is answered and leaves the queue.\<close>

lemma triple_settle_answer_release:
  assumes "st \<in> SETTLED"
  shows "triple (inv_row X D N None a) (sbind (alter_row a (mark_terminal st d t)) (\<lambda>_.
      sbind (asks f) (\<lambda>own. sbind (alter_row a (op_resolve (g own))) (\<lambda>_. sbind (release_head a c) (\<lambda>_. sbind wake (\<lambda>_. sret b))))))
    (\<lambda>_. core_inv X D N None)"
  by (rule triple_seq [OF triple_mark_terminal [OF assms]], rule triple_asks_keep, rule triple_seq [OF triple_quiet_settled], simp,
      rule triple_seq [OF triple_release])
     (auto intro: triple_keep triple_wake triple_sret)

lemma triple_apply_prompt_receipt: "triple (sent_row X D N a) (apply_prompt_receipt env a result now) (\<lambda>_. core_inv X D N None)"
proof (cases result)
  case (GotReceipt receipt)
  have unknown: "triple (sent_row X D N a) (sbind (mark_unknown_row env a d c) (\<lambda>_. sret False)) (\<lambda>_. core_inv X D N None)" for d c
    by (rule triple_seq [OF triple_mark_unknown_sent triple_sret])
  have complete: "triple (inv_row X D N None a) (sbind (complete_delivered a now) (\<lambda>_. sret True)) (\<lambda>_. core_inv X D N None)"
    by (rule triple_seq [OF triple_complete_delivered triple_sret])
  have accept: "triple (sent_row X D N a) (sbind (accept_prompt a receipt now) (\<lambda>_. if b then sret False else sbind (complete_delivered a now) (\<lambda>_. sret True)))
      (\<lambda>_. core_inv X D N None)" for b
    by (rule triple_pre [where P' = "inv_row X D N None a"], rule triple_seq [OF triple_accept_prompt])
       (auto intro: triple_if triple_sret complete)
  show ?thesis
    unfolding apply_prompt_receipt_def GotReceipt adapter_result.case
    apply (rule triple_asks_keep, intro triple_if triple_raise, simp, rule unknown)
    apply (rule triple_seq [OF triple_quiet_sent], simp)
    apply (intro triple_if)
       apply (use accept [of False] in simp)
      apply (rule accept)
     apply (rule triple_pre [OF triple_settle_answer_release], simp, simp)
    apply (rule unknown)
    apply simp
    done
qed (auto simp: apply_prompt_receipt_def intro: triple_raise)

lemma triple_apply_set_result: "triple (sent_row X D N a) (apply_set_result a result now) (\<lambda>_. core_inv X D N None)"
proof (cases result)
  case (GotSet st)
  have complete: "triple (sent_row X D N a) (sbind (alter_row a (op_resolve v)) (\<lambda>_. sbind (complete_delivered a now) (\<lambda>_. sret True)))
      (\<lambda>_. core_inv X D N None)" for v
    by (rule triple_seq [OF triple_quiet_sent], simp, rule triple_pre [where P' = "inv_row X D N None a"],
        rule triple_seq [OF triple_complete_delivered triple_sret]) auto
  have unknown: "triple (sent_row X D N a) (sbind (alter_row a (\<lambda>r. r\<lparr>op_state := SubUnknown\<rparr>)) (\<lambda>_. sret False)) (\<lambda>_. core_inv X D N None)"
    unfolding alter_row_def
    by (rule triple_seq [OF triple_smodify triple_sret]) (auto intro!: core_inv_unknown intro: in_flightI)
  have settle: "triple (sent_row X D N a) (sbind (alter_row a (mark_terminal st d now)) (\<lambda>_. sbind (release_head a False) (\<lambda>_. sbind wake (\<lambda>_. sret True))))
      (\<lambda>_. core_inv X D N None)" if "st \<in> SETTLED" for st d
    by (rule triple_pre [where P' = "inv_row X D N None a"], rule triple_seq [OF triple_mark_terminal [OF that]], rule triple_seq [OF triple_release])
       (auto intro: triple_keep triple_wake triple_sret)
  have checked: "triple (sent_row X D N a) (slift r) (\<lambda>_. sent_row X D N a)" for r :: "unit res" by (rule triple_slift)
  show ?thesis
    unfolding apply_set_result_def GotSet adapter_result.case
    by (rule triple_asks_keep, rule triple_seq [OF checked], rule triple_seq [OF triple_quiet_sent], simp, rule triple_if, rule complete,
        rule triple_seq [OF triple_quiet_sent], simp, rule triple_if, rule unknown, rule settle) auto
qed (auto simp: apply_set_result_def intro: triple_raise)

text \<open>A send that is open and whose row is still dispatching when the answers are exact.\<close>

definition sending_row :: "bool \<Rightarrow> int \<Rightarrow> authority \<Rightarrow> bool" where
  "sending_row X a s \<longleftrightarrow> open_sends a (au_wire s) = 1 \<and> (X \<longrightarrow> op_state (au_op s a) = SubDispatching)"

lemma sending_sent: "core_inv X D N None s \<Longrightarrow> sending_row X a s \<Longrightarrow> row_retained a s \<Longrightarrow> sent_row X D N a s"
  by (simp add: sending_row_def calm_def)

lemma triple_apply_method_result:
  "triple (\<lambda>s. core_inv X D N None s \<and> sending_row X a s) (apply_method_result env a result) (\<lambda>_. core_inv X D N None)"
proof -
  have clock: "triple (sent_row X D N a) (read_clock env) (\<lambda>_. sent_row X D N a)"
    by (rule triple_read_clock) (simp add: row_retained_def calm_def)
  have applied: "triple (sent_row X D N a) (sbind (read_clock env) (\<lambda>now. if b then apply_prompt_receipt env a result now
      else apply_set_result a result now)) (\<lambda>_. core_inv X D N None)" for b
    by (rule triple_seq [OF clock], rule triple_if, rule triple_apply_prompt_receipt, rule triple_apply_set_result, simp)
  show ?thesis
    unfolding apply_method_result_def Let_def
    by (rule triple_asks, rule triple_if, rule triple_raise, simp, rule triple_pre [OF applied])
       (auto dest: sending_sent simp: row_retained_def)
qed

lemma triple_incoherent: "triple (core_inv X D N None) (incoherent_method_result env a e) (\<lambda>_. core_inv X D N None)"
  unfolding incoherent_method_result_def Let_def
  by (rule triple_asks, rule triple_if, rule triple_raise, simp, rule triple_pre [OF triple_mark_unknown_row]) (auto intro: in_flightI)

text \<open>A certificate that nothing was sent takes the call back and requeues the row.\<close>

lemma core_inv_requeue:
  assumes inv: "core_inv X D N None s" and a: "sending_row X a s"
    and held: "op_state (au_op s a) = SubDispatching"
    and f: "op_ref (f (au_op s a)) = op_ref (au_op s a)" "op_state (f (au_op s a)) = SubQueued"
  shows "core_inv X D N None (s\<lparr>au_ledger := update_row a f (au_ledger s), au_active := None, au_wire := au_wire s @ [WireUnsent a]\<rparr>)"
proof (rule core_inv_move [where a = a and f = f and s = s, OF inv f(1)])
  let ?t = "s\<lparr>au_ledger := update_row a f (au_ledger s), au_active := None, au_wire := au_wire s @ [WireUnsent a]\<rparr>"
  have w: "wire_inv X s" using inv by (simp add: core_inv_def)
  have key: "op_key (f (au_op s a)) = op_key (au_op s a)" using f(1) by (rule op_key_ref)
  have act: "by_key (au_ledger s) (op_key (au_op s a)) = Some a"
    using wire_invD(2,4) [OF w, of a] a held by (auto simp: sending_row_def)
  have alone: "op_key (au_op s b) \<noteq> op_key (au_op s a)"
    if X "b \<noteq> a" "open_sends b (au_wire s) = 1" "op_state (au_op s b) \<in> {SubDispatching, SubUnknown}" for b
    using that wire_invD(3) [OF w, of b] act by auto
  show "wire_inv X ?t"
  proof (rule wire_invI)
    fix b
    show "open_sends b (au_wire ?t) = 0 \<or> open_sends b (au_wire ?t) = 1"
      using wire_invD(1) [OF w, of b] a by (auto simp: sending_row_def)
    show "minted (au_ledger ?t) b \<and> op_state (au_op ?t b) \<noteq> SubQueued" if "open_sends b (au_wire ?t) = 1"
      using that wire_invD(2) [OF w, of b] a by (cases "b = a") (auto simp: sending_row_def)
    show "by_key (au_ledger ?t) (op_key (au_op ?t b)) = Some b \<and> au_active ?t = Some (op_key (au_op ?t b))"
      if X "open_sends b (au_wire ?t) = 1" "op_state (au_op ?t b) \<in> {SubDispatching, SubUnknown}"
      using that wire_invD(3) [OF w, of b] wire_invD(3) [OF w, of a] a held f(2) alone [of b]
      by (cases "b = a") (auto simp: sending_row_def)
    show "by_key (au_ledger ?t) (op_key (au_op ?t b)) = Some b"
      if "minted (au_ledger ?t) b" "op_state (au_op ?t b) \<in> {SubQueued, SubDispatching}"
      using that wire_invD(4) [OF w, of b] act key by (cases "b = a") simp_all
  qed
  have "a \<notin> D" using inv a by (auto simp: core_inv_def past_sending_def sending_row_def)
  then show "b \<in> D \<Longrightarrow> open_sends b (au_wire s @ [WireUnsent a]) = open_sends b (au_wire s)"
    "a \<in> D \<Longrightarrow> op_state (f (au_op s a)) \<noteq> SubQueued" for b by auto
  show "op_state (au_op s a) \<notin> {SubQueued, SubDispatching} \<Longrightarrow> op_state (f (au_op s a)) \<notin> {SubQueued, SubDispatching}"
    using held by simp
qed simp

lemma triple_certified:
  "triple (\<lambda>s. core_inv X D N None s \<and> sending_row X a s) (certified_pre_send_busy env a d) (\<lambda>_. core_inv X D N None)"
proof -
  let ?P = "\<lambda>s. core_inv X D N None s \<and> sending_row X a s \<and> op_state (au_op s a) = SubDispatching"
  have clock: "triple ?P (read_clock env) (\<lambda>_. ?P)" by (rule triple_read_clock) (simp add: sending_row_def)
  have answer: "triple (core_inv X D N None) (sbind (asks f) (\<lambda>receipt. if b then alter_row a (op_resolve (g receipt)) else sret ()))
      (\<lambda>_. core_inv X D N None)" for f b and g :: "authority_receipt \<Rightarrow> submission_future"
    by (intro triple_steps; simp)
  have requeue: "triple ?P (sbind (alter_row a (\<lambda>r. r\<lparr>op_state := SubQueued, op_detail := Some d, op_updated_at := now\<rparr>)) (\<lambda>_.
      sbind (smodify (\<lambda>s. s\<lparr>au_active := None, au_wire := au_wire s @ [WireUnsent a]\<rparr>)) (\<lambda>_. m))) (\<lambda>_. core_inv X D N None)"
    if m: "triple (core_inv X D N None) m (\<lambda>_. core_inv X D N None)" for now and m :: "(authority, unit) prog"
  proof -
    let ?f = "\<lambda>r :: submission_record. r\<lparr>op_state := SubQueued, op_detail := Some d, op_updated_at := now\<rparr>"
    show ?thesis unfolding alter_row_def sbind_smodify2
    proof (rule triple_seq [OF triple_smodify m], elim conjE)
      fix s assume s: "core_inv X D N None s" "sending_row X a s" "op_state (au_op s a) = SubDispatching"
      from core_inv_requeue [OF s, of ?f] show "core_inv X D N None (s\<lparr>au_ledger := update_row a ?f (au_ledger s)\<rparr>
          \<lparr>au_active := None, au_wire := au_wire (s\<lparr>au_ledger := update_row a ?f (au_ledger s)\<rparr>) @ [WireUnsent a]\<rparr>)" by simp
    qed simp
  qed
  show ?thesis unfolding certified_pre_send_busy_def Let_def
    by (rule triple_asks, rule triple_if, rule triple_raise, simp,
        rule triple_pre [where P' = ?P], rule triple_seq [OF clock requeue [OF answer]]) auto
qed

lemma triple_settle_method:
  "triple (\<lambda>s. core_inv X D N None s \<and> sending_row X a s) (settle_method env a outcome) (\<lambda>_. core_inv X D N None)"
proof -
  let ?P = "\<lambda>s. core_inv X D N None s \<and> sending_row X a s"
  have ends: "triple ?P (sbind m (\<lambda>_. sret False)) (\<lambda>_. core_inv X D N None)" if "triple ?P m (\<lambda>_. core_inv X D N None)"
    for m :: "(authority, unit) prog" by (rule triple_seq [OF that triple_sret])
  have unknown: "triple ?P (possible_send_failure env a d c) (\<lambda>_. core_inv X D N None)" for d c
    by (rule triple_pre [OF triple_possible_send_failure]) (auto intro: in_flightI simp: sending_row_def)
  have applied: "triple ?P (scatch (apply_method_result env a result) (\<lambda>e. sbind (incoherent_method_result env a e) (\<lambda>_. sret False)))
      (\<lambda>_. core_inv X D N None)" for result
    by (rule triple_scatch [where Q = "\<lambda>_. core_inv X D N None"], rule triple_post [OF triple_apply_method_result], simp split: sum.split,
        rule triple_seq [OF triple_incoherent triple_sret])
  show ?thesis unfolding settle_method_def
    by (cases outcome) (use applied ends [OF unknown] ends [OF triple_certified] in \<open>simp_all split: if_splits\<close>)
qed

lemma triple_dispatcher_return: "triple (machine_inv X D N) (dispatcher_return env outcome) (\<lambda>_. machine_inv X D N)"
  unfolding dispatcher_return_def
proof (rule triple_asks)
  fix d
  show "triple (\<lambda>s. machine_inv X D N s \<and> au_dispatcher s = d)
    (case d of DispSending a \<Rightarrow> dispatcher_turn (settle_method env a outcome) | _ \<Rightarrow> sret ()) (\<lambda>_. machine_inv X D N)"
  proof (cases d)
    case (DispSending a)
    have "core_inv X D N None s \<and> sending_row X a s" if "machine_inv X D N s \<and> au_dispatcher s = d" for s
      using that DispSending by (simp add: machine_inv_def dispatcher_inv_def sending_row_def)
    then show ?thesis
      by (simp add: DispSending) (rule triple_pre [OF triple_turn [OF triple_settle_method]], simp)
  qed (auto intro: triple_sret)
qed

subsection \<open>Starting and stopping\<close>

lemma triple_start: "triple (machine_inv X D N) authority_start (\<lambda>_. machine_inv X D N)"
  unfolding authority_start_def
  by (intro triple_asks_keep triple_if triple_raise triple_smodify) (auto simp: machine_inv_def dispatcher_inv_def core_inv_parked)

lemma triple_stop_begin: "triple (machine_inv X D N) stop_begin (\<lambda>_. machine_inv X D N)"
  unfolding stop_begin_def by (rule triple_smodify) (auto simp: machine_inv_def dispatcher_inv_def)

text \<open>Forgetting a future of some rows.\<close>

lemma core_inv_futures:
  assumes inv: "core_inv X D N None s" and f: "\<And>r. quiet (f r)"
  shows "core_inv X D N None (s\<lparr>au_ledger := (au_ledger s)\<lparr>sl_objects := (\<lambda>a. f a (au_op s a))\<rparr>\<rparr>)"
proof -
  let ?t = "s\<lparr>au_ledger := (au_ledger s)\<lparr>sl_objects := (\<lambda>a. f a (au_op s a))\<rparr>\<rparr>"
  have row: "op_ref (au_op ?t a) = op_ref (au_op s a)" "op_state (au_op ?t a) = op_state (au_op s a)" "op_key (au_op ?t a) = op_key (au_op s a)" for a
    using f by (simp_all add: quiet_def op_key_def)
  have index: "by_key (au_ledger ?t) = by_key (au_ledger s)" "minted (au_ledger ?t) = minted (au_ledger s)"
    by (simp_all add: fun_eq_iff by_key_def minted_def)
  have "ledger_inv (au_ledger ?t)" using inv unfolding core_inv_def ledger_inv_def index row by simp
  moreover have "queue_inv ?t" "wire_inv X ?t" "past_sending D N ?t"
    using inv unfolding core_inv_def queue_inv_def wire_inv_def past_sending_def index row by simp_all
  moreover have "reconcile_inv X ?t" by (rule reconcile_inv_rows [of X s]) (use inv row index in \<open>auto simp: core_inv_def\<close>)
  ultimately show ?thesis by (simp add: core_inv_def frame_inv_def)
qed

lemma triple_stop_finish: "triple (machine_inv X D N) (stop_finish forced) (\<lambda>_. machine_inv X D N)"
  unfolding stop_finish_def
proof (rule triple_asks_keep, intro triple_if triple_sret triple_smodify)
  fix s assume inv: "machine_inv X D N s"
  let ?f = "\<lambda>a. if a \<in> snd ` set (sl_records (au_ledger s)) then op_resolve (FutError (HarnessControlError ''submission authority stopped'')) else (\<lambda>r. r)"
  have "quiet (?f a)" for a by (simp add: quiet_def op_resolve_def)
  moreover have "core_inv X D N None (s\<lparr>au_dispatcher := d\<rparr>)" for d using inv by (simp add: machine_inv_def core_inv_parked)
  ultimately have "core_inv X D N None (s\<lparr>au_dispatcher := d, au_ledger := (au_ledger s)\<lparr>sl_objects := (\<lambda>a. ?f a (au_op s a))\<rparr>\<rparr>)" for d
    using core_inv_futures [of X D N "s\<lparr>au_dispatcher := d\<rparr>" ?f] by simp
  then show "machine_inv X D N (s\<lparr>au_dispatcher := (if au_dispatcher s = DispNone then DispNone else DispDead),
       au_ledger := (au_ledger s)\<lparr>sl_objects := (\<lambda>a.
         if a \<in> snd ` set (sl_records (au_ledger s))
         then op_resolve (FutError (HarnessControlError ''submission authority stopped'')) (au_op s a) else au_op s a)\<rparr>\<rparr>)"
    by (simp add: machine_inv_def dispatcher_inv_def if_distrib [of "\<lambda>f. f _"] cong: if_cong)
qed simp

subsection \<open>The machine\<close>

lemma machine_inv_client:
  assumes "machine_inv X D N s" "triple (core_inv X D N (Some s)) m (\<lambda>_. core_inv X D N (Some s))"
  shows "machine_inv X D N (snd (m s))" "au_dispatcher (snd (m s)) = au_dispatcher s" "au_wire (snd (m s)) = au_wire s"
    "sl_sequence (au_ledger s) \<le> sl_sequence (au_ledger (snd (m s)))"
proof -
  let ?t = "snd (m s)"
  have "core_inv X D N (Some s) s" using assms(1) by (simp add: machine_inv_def core_inv_def frame_inv_def)
  then have t: "core_inv X D N (Some s) ?t" using tripleD [OF assms(2)] by blast
  then have frame: "au_dispatcher ?t = au_dispatcher s" "au_wire ?t = au_wire s" "au_active ?t = au_active s \<or> au_active ?t = None"
    "sl_sequence (au_ledger s) \<le> sl_sequence (au_ledger ?t)"
    "\<And>a. X \<Longrightarrow> minted (au_ledger s) a \<Longrightarrow> op_state (au_op s a) = SubDispatching \<Longrightarrow> op_state (au_op ?t a) = SubDispatching"
    by (auto simp: core_inv_def frame_inv_def)
  then show "au_dispatcher ?t = au_dispatcher s" "au_wire ?t = au_wire s" "sl_sequence (au_ledger s) \<le> sl_sequence (au_ledger ?t)" by blast+
  have w: "wire_inv X s" using assms(1) by (simp add: machine_inv_def core_inv_def)
  have "dispatcher_inv X ?t"
    using assms(1) frame wire_invD(2) [OF w] unfolding machine_inv_def dispatcher_inv_def by (auto simp: minted_def)
  moreover have "core_inv X D N None ?t" using t by (simp add: core_inv_def frame_inv_def)
  ultimately show "machine_inv X D N ?t" by (simp add: machine_inv_def)
qed

text \<open>The labels of callers and of adapter events, and those of the dispatcher task and its owner.\<close>

fun client_label :: "authority_label \<Rightarrow> bool" where
  "client_label DoStart = False"
| "client_label DoWake = False"
| "client_label DoLook = False"
| "client_label (DoPreflight outcome) = False"
| "client_label (DoReturn outcome) = False"
| "client_label DoStopBegin = False"
| "client_label (DoStopFinish forced) = False"
| "client_label _ = True"

lemma triple_client:
  assumes "client_label l" "label_ok l"
  shows "triple (\<lambda>s. core_inv X D N g s \<and> (X \<longrightarrow> exact_answer l s)) (authority_prog env l) (\<lambda>_. core_inv X D N g)"
proof (cases l)
  case (DoReconcileAnswer ref i result)
  then show ?thesis by (simp add: triple_resume_reconcile)
qed (use assms in \<open>auto intro!: triple_pre [where P' = "core_inv X D N g"] triple_drop triple_submit triple_setter triple_withdraw
    triple_reconcile_ask triple_resolve triple_resolve_prompt triple_observe triple_snapshot_updated triple_respond\<close>)

lemma triple_owner:
  assumes "\<not> client_label l"
  shows "triple (machine_inv X D N) (authority_prog env l) (\<lambda>_. machine_inv X D N)"
  using assms by (cases l) (simp_all add: triple_start triple_dispatcher_wake triple_dispatcher_look triple_dispatcher_preflight
    triple_dispatcher_return triple_stop_begin triple_stop_finish)

lemma client_step:
  assumes "machine_inv X D N s" "client_label l" "label_ok l" "X \<longrightarrow> exact_answer l s"
  shows "machine_inv X D N (authority_next env l s)" "au_dispatcher (authority_next env l s) = au_dispatcher s"
    "au_wire (authority_next env l s) = au_wire s" "sl_sequence (au_ledger s) \<le> sl_sequence (au_ledger (authority_next env l s))"
proof -
  have "triple (core_inv X D N (Some s)) (\<lambda>t. if t = s then authority_prog env l t else (Inr (), t)) (\<lambda>_. core_inv X D N (Some s))"
    using triple_client [OF assms(2,3), of X D N "Some s" env] assms(4) by (auto simp: triple_def)
  from machine_inv_client [OF assms(1) this] show "machine_inv X D N (authority_next env l s)"
    "au_dispatcher (authority_next env l s) = au_dispatcher s" "au_wire (authority_next env l s) = au_wire s"
    "sl_sequence (au_ledger s) \<le> sl_sequence (au_ledger (authority_next env l s))"
    by (simp_all add: authority_next_def)
qed

lemma machine_next:
  assumes "machine_inv X D N s" "label_ok l" "X \<longrightarrow> exact_answer l s"
  shows "machine_inv X D N (authority_next env l s)"
proof (cases "client_label l")
  case True
  with assms show ?thesis by (simp add: client_step)
next
  case False
  from tripleD [OF triple_owner [OF this] assms(1)] show ?thesis by (simp add: authority_next_def)
qed

lemma machine_step: "authority_step env s s' \<Longrightarrow> machine_inv False D N s \<Longrightarrow> machine_inv False D N s'"
  by (erule authority_step.cases) (simp add: machine_next)

lemma exact_machine_step: "exact_step env s s' \<Longrightarrow> machine_inv True D N s \<Longrightarrow> machine_inv True D N s'"
  by (erule exact_step.cases) (simp add: machine_next)

interpretation authority_machine: step_invariant "authority_step env" "machine_inv False D N" for env D N
  by unfold_locales (rule machine_step)

interpretation exact_machine: step_invariant "exact_step env" "machine_inv True D N" for env D N
  by unfold_locales (rule exact_machine_step)

text \<open>The states of all runs, and those of the runs whose reconciliation answers are exact.\<close>

definition authority_reachable :: "authority_env \<Rightarrow> authority \<Rightarrow> bool" where
  "authority_reachable env s \<longleftrightarrow>
     (\<exists>timeline_limit ledger_limit grace epoch snapshot s0.
        new_authority timeline_limit ledger_limit grace epoch snapshot = Inr s0 \<and> (authority_step env)\<^sup>*\<^sup>* s0 s)"

definition exactly_reachable :: "authority_env \<Rightarrow> authority \<Rightarrow> bool" where
  "exactly_reachable env s \<longleftrightarrow>
     (\<exists>timeline_limit ledger_limit grace epoch snapshot s0.
        new_authority timeline_limit ledger_limit grace epoch snapshot = Inr s0 \<and> (exact_step env)\<^sup>*\<^sup>* s0 s)"

lemma new_authority_inv: "new_authority timeline_limit ledger_limit grace epoch snapshot = Inr s \<Longrightarrow> machine_inv X {} N s"
  by (auto simp: new_authority_def machine_inv_def core_inv_def inv_defs dispatcher_inv_def by_key_def minted_def open_sends_def split: if_splits)

lemma reachable_inv: "authority_reachable env s \<Longrightarrow> machine_inv False {} N s"
  unfolding authority_reachable_def using authority_machine.run_keeps new_authority_inv by blast

lemma exactly_reachable_inv: "exactly_reachable env s \<Longrightarrow> machine_inv True {} N s"
  unfolding exactly_reachable_def using exact_machine.run_keeps new_authority_inv by blast

lemma reachable_step: "authority_reachable env s \<Longrightarrow> (authority_step env)\<^sup>*\<^sup>* s s' \<Longrightarrow> authority_reachable env s'"
  unfolding authority_reachable_def by (meson rtranclp_trans)

end
