(* ===== verification/Submission_Properties.thy ===== *)
theory Submission_Properties
  imports Submission_Dispatcher
begin

section \<open>What the submission authority guarantees\<close>

text \<open>
  The properties of the authority: what is sent and how often, in which order, what a withdrawal and a resubmission mean, what a page of
  the timeline shows, and what an uncaught failure of the adapter leaves behind.
\<close>

subsection \<open>Helpers\<close>

lemma reachableD:
  assumes "authority_reachable env s"
  shows "ledger_inv (au_ledger s)" "queue_inv s" "wire_inv False s" "dispatcher_inv False s"
    "core_inv False {} N g s \<longleftrightarrow> frame_inv False g s"
  using reachable_inv [OF assms, of N] by (auto simp: machine_inv_def core_inv_def)

lemma exactly_reachableD:
  assumes "exactly_reachable env s"
  shows "wire_inv True s" "dispatcher_inv True s"
  using exactly_reachable_inv [OF assms] by (auto simp: machine_inv_def core_inv_def)

lemma by_request_id_row:
  assumes "ledger_inv L" "by_request_id L i = Some a"
  shows "by_key L (KPrompt, i) = Some a" "op_key (op_at L a) = (KPrompt, i)" "minted L a"
proof -
  from assms(2) obtain k where k: "dget (sl_prompt_ids L) i = Some k" "by_key L k = Some a" by (auto simp: by_request_id_def split: option.splits)
  with assms(1) have "k = (KPrompt, i)" unfolding ledger_inv_def by blast
  with k show "by_key L (KPrompt, i) = Some a" by simp
  with assms(1) show "op_key (op_at L a) = (KPrompt, i)" "minted L a" unfolding ledger_inv_def by blast+
qed

text \<open>A settled row without an open send keeps its number of calls from then on.\<close>

lemma past_sending_start:
  assumes "authority_reachable env s" "minted (au_ledger s) a" "op_state (au_op s a) \<noteq> SubQueued" "open_sends a (au_wire s) = 0"
  shows "machine_inv False {a} (\<lambda>_. count_list (call_addrs (au_wire s)) a) s"
  using reachable_inv [OF assms(1), of "\<lambda>_. 0"] assms(2-4) by (simp add: machine_inv_def core_inv_def past_sending_def)

text \<open>The withdrawal, as a step: what a recovery tells of the row.\<close>

lemma withdraw_recovery:
  assumes "authority_withdraw env expected i cockpit_only s = (Inr w, s1)" "wd_recovery w \<noteq> None"
  shows "\<exists>a. by_request_id (au_ledger s) i = Some a \<and> op_state (au_op s a) = SubQueued \<and> op_state (au_op s1 a) = SubWithdrawn"
proof -
  have "triple (\<lambda>t. t = s) (authority_withdraw env expected i cockpit_only)
    (\<lambda>r t. \<forall>w. r = Inr w \<longrightarrow> wd_recovery w \<noteq> None \<longrightarrow>
      (\<exists>a. by_request_id (au_ledger s) i = Some a \<and> op_state (au_op s a) = SubQueued \<and> op_state (au_op t a) = SubWithdrawn))"
    unfolding authority_withdraw_def case_prod_beta
    apply (rule triple_bind [where Q = "\<lambda>_ t. t = s"])
     apply (auto simp: triple_def require_epoch_opt_def split: sum.splits) []
    apply (rule triple_asks, rule triple_option, rule triple_sret, force simp: withdrawal_missing_def)
    apply (rule triple_if, rule triple_sret, force simp: withdrawal_missing_def)
    apply (rule triple_if, rule triple_sret, force simp: withdrawal_missing_def)
    apply (rule triple_if, rule triple_sret, force simp: withdrawal_missing_def)
    apply (auto simp: triple_def sbind_def [of "read_clock env"] read_clock_def alter_row_def asks_def sbind_sget wake_def sret_def
          mark_terminal_def op_resolve_def)
    done
  with assms show ?thesis by (auto simp: triple_def)
qed

text \<open>A dispatcher that died never sends again.\<close>

lemma dead_step:
  assumes "authority_step env s s'" "machine_inv False D N s" "au_dispatcher s = DispDead"
  shows "au_dispatcher s' = DispDead \<and> au_wire s' = au_wire s"
  using assms(1)
proof cases
  case (1 l)
  show ?thesis
  proof (cases "client_label l")
    case True
    with client_step [OF assms(2) this] 1 assms(3) show ?thesis by simp
  next
    case False
    with 1 assms(3) show ?thesis
      by (cases l) (auto simp: authority_next_def authority_start_def dispatcher_wake_def dispatcher_look_def dispatcher_preflight_def
        dispatcher_return_def stop_begin_def stop_finish_def asks_def sbind_sget raise_def slift_def sret_def smodify_def)
  qed
qed

lemma dead_run:
  assumes "(authority_step env)\<^sup>*\<^sup>* s s'" "machine_inv False D N s" "au_dispatcher s = DispDead"
  shows "au_dispatcher s' = DispDead \<and> au_wire s' = au_wire s"
  using assms(1)
proof (induction rule: rtranclp_induct)
  case (step t u)
  have "machine_inv False D N t" using authority_machine.run_keeps [OF step(1) assms(2)] .
  with step dead_step show ?case by metis
qed (simp add: assms(3))

subsection \<open>Reading the timeline in pages\<close>

text \<open>A reader of one state of the ledger that follows the cursor until a page is not truncated.\<close>

fun read_timeline :: "(json \<Rightarrow> int) \<Rightarrow> int \<Rightarrow> int \<Rightarrow> nat \<Rightarrow> int \<Rightarrow> submission_ledger \<Rightarrow> timeline_item list" where
  "read_timeline json_bytes limit budget 0 after L = []"
| "read_timeline json_bytes limit budget (Suc n) after L =
     (case operation_timeline json_bytes (sl_bridge_epoch L) after limit budget L of
        Inl e \<Rightarrow> []
      | Inr page \<Rightarrow> tl_items page @
          (if tl_truncated page then read_timeline json_bytes limit budget n (ti_sequence (last (tl_items page))) L else []))"

lemma page_items_prefix:
  assumes "page_items json_bytes bounded budget rs items used = (out, trunc)" "1 \<le> bounded"
  shows "\<exists>n\<le>length rs. out = items @ map op_timeline_item (take n rs) \<and> trunc = (n < length rs) \<and> (items = [] \<longrightarrow> rs \<noteq> [] \<longrightarrow> 0 < n) \<and>
     int (length out) \<le> max bounded (int (length items))"
  using assms
proof (induction rs arbitrary: items used)
  case (Cons r rs)
  show ?case
  proof (cases "bounded \<le> int (length items) \<or> (items \<noteq> [] \<and> budget < used + json_bytes (JObj (operation_timeline_item_json (op_timeline_item r))))")
    case True
    with Cons.prems show ?thesis by (intro exI [of _ 0]) (auto simp: Let_def)
  next
    case False
    with Cons.prems have "page_items json_bytes bounded budget rs (items @ [op_timeline_item r])
        (used + json_bytes (JObj (operation_timeline_item_json (op_timeline_item r)))) = (out, trunc)" by (simp add: Let_def)
    from Cons.IH [OF this Cons.prems(2)] obtain n where "n \<le> length rs" "out = (items @ [op_timeline_item r]) @ map op_timeline_item (take n rs)"
      "trunc = (n < length rs)" "int (length out) \<le> max bounded (int (length (items @ [op_timeline_item r])))" by blast
    with False Cons.prems(2) show ?thesis by (intro exI [of _ "Suc n"]) auto
  qed
qed simp

lemma retained_rows_sorted:
  assumes "ledger_inv L"
  shows "sorted_wrt (<) (map (rf_sequence \<circ> op_ref) (retained_rows L))"
proof -
  let ?rows = "map (op_at L \<circ> snd) (sl_records L)"
  have row: "rf_sequence (op_ref (op_at L a)) = a \<and> op_key (op_at L a) = k" if "(k, a) \<in> set (sl_records L)" for k a
  proof -
    from assms that have "by_key L k = Some a" by (simp add: by_key_def ledger_inv_def)
    with assms show ?thesis unfolding ledger_inv_def by blast
  qed
  have addr: "map (rf_sequence \<circ> op_ref) ?rows = map snd (sl_records L)" using row by (auto simp: case_prod_beta)
  moreover have "distinct (map snd (sl_records L))"
  proof -
    have "distinct (map fst (sl_records L))" using assms by (simp add: ledger_inv_def)
    moreover have "map fst (sl_records L) = map (op_key \<circ> op_at L) (map snd (sl_records L))" using row by auto
    ultimately show ?thesis by (metis distinct_map)
  qed
  ultimately have "distinct (map (rf_sequence \<circ> op_ref) ?rows)" unfolding addr by blast
  then have "distinct (map (rf_sequence \<circ> op_ref) (retained_rows L))"
    by (simp only: retained_rows_def distinct_map distinct_sort set_sort)
  then show ?thesis unfolding retained_rows_def by (simp add: strict_sorted_iff)
qed

lemma filter_after_nth:
  assumes "sorted_wrt (<) (map f xs)" "0 < m" "m < length xs"
  shows "filter (\<lambda>r. (f (xs ! (m - 1)) :: int) < f r) xs = drop m xs"
proof -
  have take: "f x \<le> f (xs ! (m - 1))" if "x \<in> set (take m xs)" for x
  proof -
    from that obtain i where i: "i < m" "x = xs ! i" using assms(3) by (auto simp: in_set_conv_nth)
    then show ?thesis
      using assms(2,3) sorted_wrt_nth_less [OF assms(1), of i "m - 1"] by (cases "i = m - 1") (auto intro: less_imp_le)
  qed
  have drop: "f (xs ! (m - 1)) < f x" if "x \<in> set (drop m xs)" for x
  proof -
    from that obtain i where i: "i < length xs - m" "x = xs ! (m + i)" using assms(3) by (auto simp: in_set_conv_nth)
    then show ?thesis using assms sorted_wrt_nth_less [OF assms(1), of "m - 1" "m + i"] by simp
  qed
  have "filter (\<lambda>r. f (xs ! (m - 1)) < f r) (take m xs @ drop m xs) = drop m xs"
    unfolding filter_append using take drop by (subst filter_False) (force simp: not_less, simp)
  then show ?thesis by simp
qed

lemma read_timeline_rows:
  assumes "ledger_inv L" "1 \<le> limit" "1 \<le> budget" "length (filter (\<lambda>r. after < rf_sequence (op_ref r)) (retained_rows L)) < n"
  shows "read_timeline json_bytes limit budget n after L = map op_timeline_item (filter (\<lambda>r. after < rf_sequence (op_ref r)) (retained_rows L))"
  using assms(4)
proof (induction n arbitrary: after)
  case (Suc n)
  let ?F = "\<lambda>after. filter (\<lambda>r. after < rf_sequence (op_ref r)) (retained_rows L)"
  obtain out trunc where page: "page_items json_bytes (min MAX_OPERATION_TIMELINE_PAGE limit) budget (?F after) [] 0 = (out, trunc)" by fastforce
  then obtain m where m: "m \<le> length (?F after)" "out = map op_timeline_item (take m (?F after))" "trunc = (m < length (?F after))"
    "?F after \<noteq> [] \<longrightarrow> 0 < m"
    using page_items_prefix [OF page] assms(2) by (auto simp: MAX_OPERATION_TIMELINE_PAGE_def)
  have run: "operation_timeline json_bytes (sl_bridge_epoch L) after limit budget L = Inr
      \<lparr>tl_bridge_epoch = sl_bridge_epoch L, tl_latest_sequence = sl_sequence L, tl_evicted_before_sequence = sl_evicted_before_sequence L,
       tl_truncated = trunc, tl_items = out\<rparr>"
    using page assms(2,3) by (simp add: operation_timeline_def require_epoch_def)
  show ?case
  proof (cases trunc)
    case False
    with m(1,3) have "m = length (?F after)" by simp
    with run False m(2) show ?thesis by simp
  next
    case True
    with m have lt: "0 < m" "m < length (?F after)" by auto
    let ?c = "rf_sequence (op_ref (?F after ! (m - 1)))"
    have cursor: "ti_sequence (last out) = ?c"
      using lt m(2) by (cases m) (simp_all add: take_Suc_conv_app_nth op_timeline_item_def)
    have "after < ?c" using lt nth_mem [of "m - 1" "?F after"] by simp
    then have "?F ?c = filter (\<lambda>r. ?c < rf_sequence (op_ref r)) (?F after)" by (auto simp: filter_filter intro!: filter_cong)
    moreover have "sorted_wrt (<) (map (\<lambda>r. rf_sequence (op_ref r)) (?F after))"
      using retained_rows_sorted [OF assms(1)] by (simp add: sorted_wrt_map sorted_wrt_filter comp_def)
    ultimately have rest: "?F ?c = drop m (?F after)" using filter_after_nth [OF _ lt, of "\<lambda>r. rf_sequence (op_ref r)"] by simp
    then have "read_timeline json_bytes limit budget n ?c L = map op_timeline_item (drop m (?F after))"
      using Suc.IH [of ?c] Suc.prems lt by simp
    with run True cursor m(2) show ?thesis by (simp flip: map_append)
  qed
qed simp

subsection \<open>An example\<close>

definition ex_authority_env :: authority_env where
  "ex_authority_env = \<lparr>ax_clock = (\<lambda>n. ''10:00''), ax_sha256 = (\<lambda>x. x), ax_dumps = (\<lambda>x. []), ax_asset_capable = False\<rparr>"

definition ex_adapter_snapshot :: adapter_snapshot where
  "ex_adapter_snapshot =
     \<lparr>sn_identity = \<lparr>ci_ar_session_id = ''s1'', ci_tmux_name = ''t1'', ci_created_at = ''09:00''\<rparr>, sn_control = CtlReady, sn_activity = ActIdle,
      sn_acceptance = AccImmediate, sn_vendor_session_id = None, sn_pending_interaction = None, sn_pending_interactions = [],
      sn_last_event_sequence = 0, sn_raw = []\<rparr>"

definition ex_prompt :: "string \<Rightarrow> prompt_request" where
  "ex_prompt i = \<lparr>pq_request_id = i, pq_source = SrcCockpit, pq_text = ''hello'', pq_submitted_at = ''09:30'', pq_operation = None,
     pq_expected_bridge_epoch = None, pq_assets = []\<rparr>"

definition ex_fresh_authority :: authority where
  "ex_fresh_authority = (case new_authority 2 4 1 ''e1'' ex_adapter_snapshot of Inr s \<Rightarrow> s)"

definition ex_authority :: "authority_label list \<Rightarrow> authority" where
  "ex_authority ls = authority_run ex_authority_env ls ex_fresh_authority"

fun routine_label :: "authority_label \<Rightarrow> bool" where
  "routine_label (DoReconcileAnswer ref i result) = False"
| "routine_label l = label_ok l"

lemma routine_run: "list_all label_ok ls \<Longrightarrow> (authority_step env)\<^sup>*\<^sup>* s (authority_run env ls s)"
proof (induction ls arbitrary: s)
  case (Cons l ls)
  then have "authority_step env s (authority_next env l s)" using authority_step.intros by simp
  moreover have "(authority_step env)\<^sup>*\<^sup>* (authority_next env l s) (authority_run env ls (authority_next env l s))" using Cons by simp
  ultimately show ?case by (simp add: authority_run_def)
qed (simp add: authority_run_def)

lemma exact_run: "list_all routine_label ls \<Longrightarrow> (exact_step env)\<^sup>*\<^sup>* s (authority_run env ls s)"
proof (induction ls arbitrary: s)
  case (Cons l ls)
  have "label_ok l \<and> exact_answer l s" using Cons.prems by (cases l) simp_all
  then have "exact_step env s (authority_next env l s)" using exact_step.intros by blast
  moreover have "(exact_step env)\<^sup>*\<^sup>* (authority_next env l s) (authority_run env ls (authority_next env l s))" using Cons by simp
  ultimately show ?case by (simp add: authority_run_def)
qed (simp add: authority_run_def)

lemma ex_fresh: "new_authority 2 4 1 ''e1'' ex_adapter_snapshot = Inr ex_fresh_authority"
  by (simp add: ex_fresh_authority_def new_authority_def)

lemma ex_authority_reachable: "list_all label_ok ls \<Longrightarrow> authority_reachable ex_authority_env (ex_authority ls)"
  unfolding authority_reachable_def ex_authority_def using routine_run ex_fresh by blast

lemma ex_exactly_reachable: "list_all routine_label ls \<Longrightarrow> exactly_reachable ex_authority_env (ex_authority ls)"
  unfolding exactly_reachable_def ex_authority_def using exact_run ex_fresh by blast

text \<open>Every receipt given at once names the id submitted and the epoch of the bridge.\<close>

abbreviation names_request :: "string \<Rightarrow> string \<Rightarrow> int \<Rightarrow> authority \<Rightarrow> bool" where
  "names_request e i a s \<equiv> rf_operation_id (op_ref (au_op s a)) = i \<and> au_epoch s = e"

abbreviation echoes :: "string \<Rightarrow> string \<Rightarrow> authority_receipt \<Rightarrow> bool" where
  "echoes e i x \<equiv> sr_request_id x = i \<and> sr_bridge_epoch x = Some e"

lemma room_epoch: "has_admission_room s = (y, t) \<Longrightarrow> au_epoch t = au_epoch s"
proof -
  have "sl_bridge_epoch L' = sl_bridge_epoch L" if "make_room p L = (b, L')" for p L L' b
    using that
  proof (induction p L arbitrary: b L' rule: make_room.induct)
    case (1 p L)
    show ?case
    proof (cases "int (length (sl_records L)) < sl_limit L \<or> evictable p L = None")
      case True
      with 1(2) show ?thesis by (auto simp: make_room.simps [of p L] split: if_splits)
    next
      case False
      then obtain k a where ka: "evictable p L = Some (k, a)" by auto
      with False 1(2) have "make_room p (evict k a L) = (b, L')" by (simp add: make_room.simps [of p L])
      from 1(1) [OF _ ka refl this] False show ?thesis by simp
    qed
  qed
  then show "has_admission_room s = (y, t) \<Longrightarrow> au_epoch t = au_epoch s"
    by (auto simp: has_admission_room_def split: if_splits prod.splits)
qed

lemma pre_admission_echoes:
  "triple (\<lambda>s. core_inv False {} N None s \<and> au_epoch s = e) (pre_admission_receipt request d)
     (\<lambda>r s. au_epoch s = e \<and> (\<forall>x. r = Inr (Some x) \<longrightarrow> echoes e (pq_request_id request) x))"
proof (rule tripleI, elim conjE)
  fix s r s' assume inv: "core_inv False {} N None s" and e: "au_epoch s = e"
    and run: "pre_admission_receipt request d s = (r, s')"
  show "au_epoch s' = e \<and> (\<forall>x. r = Inr (Some x) \<longrightarrow> echoes e (pq_request_id request) x)"
  proof (cases "by_request_id (au_ledger s) (pq_request_id request)")
    case (Some a)
    have "op_key (au_op s a) = (KPrompt, pq_request_id request)" "by_key (au_ledger s) (op_key (au_op s a)) = Some a"
      using by_request_id_row [of "au_ledger s", OF _ Some] inv by (simp_all add: core_inv_def)
    moreover from this obtain L where L: "touch (op_key (au_op s a)) (au_ledger s) = Inr L" using touch_retained by blast
    ultimately show ?thesis using Some run e touch_rows [OF L]
      by (auto simp: pre_admission_receipt_def asks_def sbind_sget raise_def slift_def sbind_def [of "touch_row _"] touch_row_def
          duplicate_receipt_def op_receipt_def op_key_def split: if_splits)
  next
    case None
    obtain y t where y: "has_admission_room s = (y, t)" by (cases "has_admission_room s")
    with None run e room_epoch [OF y] show ?thesis
      by (auto simp: pre_admission_receipt_def asks_def sbind_sget sbind_def [of has_admission_room] sret_def split: if_splits sum.splits)
  qed
qed

lemma submit_echoes:
  assumes "pq_request_id request \<noteq> ''''"
  shows "triple (\<lambda>s. core_inv False {} N None s \<and> au_epoch s = e) (authority_submit env request)
    (\<lambda>r s. \<forall>x. r = Inr (Answered x) \<longrightarrow> echoes e (pq_request_id request) x)"
proof -
  let ?i = "pq_request_id request" and ?P = "\<lambda>s. core_inv False {} N None s \<and> au_epoch s = e"
  let ?R = "\<lambda>r s. \<forall>x. r = Inr (Answered x) \<longrightarrow> echoes e ?i x"
  have enqueue: "triple (names_request e ?i a) (enqueue_prompt a) ?R" for a
    by (auto simp: triple_def enqueue_prompt_def join_timeline_def asks_def sbind_sget wake_def op_receipt_def alter_row_def sret_def split: if_splits)
  have unsupported: "triple (names_request e ?i a) (unsupported_prompt env a request)
      (\<lambda>r s. \<exists>u. r = Inr u \<and> (\<forall>x. u = Some x \<longrightarrow> echoes e ?i x) \<and> names_request e ?i a s)" for a
    by (auto simp: triple_def unsupported_prompt_def asks_def sbind_sget alter_row_def sret_def op_receipt_def mark_terminal_def split: if_splits)
  have admitted: "triple (names_request e ?i a) (sbind (unsupported_prompt env a request)
      (\<lambda>u. case u of None \<Rightarrow> enqueue_prompt a | Some receipt \<Rightarrow> sret (Answered receipt))) ?R" for a
    by (rule triple_bind [where Q = "\<lambda>u s. (\<forall>x. u = Some x \<longrightarrow> echoes e ?i x) \<and> names_request e ?i a s"],
        rule triple_post [OF unsupported], force, rule triple_option, rule triple_pre [OF enqueue], simp, rule triple_sret, simp)
  have enrolled: "triple (\<lambda>s. au_epoch s = e) (enrol_prompt request d) (\<lambda>r s. \<exists>a. r = Inr a \<and> names_request e ?i a s)" for d
    using assms by (auto simp: triple_def enrol_prompt_def enrol_row_def next_ref_def Let_def str_or_def enrol_def)
  have admit: "triple (\<lambda>s. au_epoch s = e) (admit_prompt env request d) ?R" for d
    unfolding admit_prompt_def by (rule triple_bind [OF triple_post [OF enrolled] admitted]) auto
  have checks: "triple ?P m (\<lambda>r s. case r of Inl e \<Rightarrow> ?R (Inl e) s | Inr x \<Rightarrow> ?P s)"
    if "triple ?P m (\<lambda>_. ?P)" for m :: "(authority, unit) prog"
    by (rule triple_post [OF that]) (auto split: sum.split)
  show ?thesis unfolding authority_submit_def Let_def
    by (rule triple_bind [OF checks [OF triple_require(1)]], rule triple_bind [OF checks [OF triple_require(2)]],
        rule triple_bind [where Q = "\<lambda>u s. au_epoch s = e \<and> (\<forall>x. u = Some x \<longrightarrow> echoes e ?i x)"],
        rule triple_post [OF pre_admission_echoes], force split: sum.split,
        rule triple_option, rule triple_pre [OF admit], simp, rule triple_sret, simp)
qed

subsection \<open>Properties\<close>

text \<open>
  Claim C10: An operation is handed to the adapter at most once. In every state the authority can reach, whatever callers that name
  their prompts by a non-empty id, events and adapter do in between, late answers of a reconciliation included, the calls for a row
  exceed the certificates that a call was not sent by at most one.
\<close>

theorem sent_at_most_once:
  assumes "authority_reachable env s"
  shows "open_sends a (au_wire s) \<le> 1"
  using wire_invD(1) [OF reachableD(3) [OF assms], of a] by auto

theorem sent_at_most_once_witness:
  "open_sends 1 (au_wire (ex_authority [DoStart, DoSubmit (ex_prompt ''r1''), DoWake, DoLook, DoPreflight PreflightOk])) \<le> 1 \<and>
   call_addrs (au_wire (ex_authority [DoStart, DoSubmit (ex_prompt ''r1''), DoWake, DoLook, DoPreflight PreflightOk])) = [1]"
proof
  show "open_sends 1 (au_wire (ex_authority [DoStart, DoSubmit (ex_prompt ''r1''), DoWake, DoLook, DoPreflight PreflightOk])) \<le> 1"
    by (rule sent_at_most_once [OF ex_authority_reachable]) (simp add: ex_prompt_def)
qed code_simp

text \<open>
  Claim C11: Calls are made in the order of admission: the ordinals of the rows called never decrease, and no row that is still queued was
  admitted before a row that was called.
\<close>

theorem calls_in_admission_order:
  assumes "authority_reachable env s"
  shows "sorted (call_addrs (au_wire s)) \<and>
    (\<forall>b\<in>set (call_addrs (au_wire s)). \<forall>k\<in>set (au_timeline s). \<exists>a. by_key (au_ledger s) k = Some a \<and> b \<le> a)"
proof -
  have q: "queue_inv s" using assms by (rule reachableD)
  have "\<exists>a. by_key (au_ledger s) k = Some a \<and> b \<le> a" if "b \<in> set (call_addrs (au_wire s))" "k \<in> set (au_timeline s)" for b k
    using q that unfolding queue_inv_def by fastforce
  with q show ?thesis unfolding queue_inv_def by blast
qed

theorem calls_in_admission_order_witness:
  "sorted (call_addrs (au_wire (ex_authority [DoStart, DoSubmit (ex_prompt ''r1''), DoSubmit (ex_prompt ''r2''), DoWake, DoLook,
     DoPreflight PreflightOk, DoReturn (MethodBusy ''later''), DoWake, DoLook, DoPreflight PreflightOk])))"
  using calls_in_admission_order [OF ex_authority_reachable] by (simp add: ex_prompt_def)

text \<open>
  Claim C12: A withdrawn submission is never sent. When a withdrawal hands the prompt back to its caller, the row makes no call in any
  later state, whatever callers that name their prompts by a non-empty id, events and adapter do, late answers included.
\<close>

theorem withdrawn_never_sent:
  assumes "authority_reachable env s" "authority_withdraw env expected i cockpit_only s = (Inr w, s1)" "wd_recovery w \<noteq> None"
    "(authority_step env)\<^sup>*\<^sup>* s1 s2"
  shows "\<exists>a. by_request_id (au_ledger s) i = Some a \<and> op_state (au_op s1 a) = SubWithdrawn \<and>
    count_list (call_addrs (au_wire s2)) a = count_list (call_addrs (au_wire s)) a"
proof -
  from withdraw_recovery [OF assms(2,3)] obtain a where a: "by_request_id (au_ledger s) i = Some a"
    "op_state (au_op s a) = SubQueued" "op_state (au_op s1 a) = SubWithdrawn" by blast
  let ?l = "DoWithdraw expected i cockpit_only"
  have nxt: "authority_next env ?l s = s1" using assms(2) by (simp add: authority_next_def drop_result_def sbind_def sret_def)
  have inv: "machine_inv False {} (\<lambda>_. 0) s" using assms(1) by (rule reachable_inv)
  have wire: "au_wire s1 = au_wire s" using client_step(3) [OF inv, of ?l env] nxt by simp
  have mint: "minted (au_ledger s) a" using by_request_id_row(3) [OF reachableD(1) [OF assms(1)] a(1)] .
  have "sl_sequence (au_ledger s) \<le> sl_sequence (au_ledger s1)"
    using client_step(4) [OF inv, of ?l env] nxt by simp
  with mint have "minted (au_ledger s1) a" by (simp add: minted_def)
  moreover have "open_sends a (au_wire s1) = 0"
    using wire_invD(1,2) [OF reachableD(3) [OF assms(1)], of a] a(2) wire by auto
  moreover have "authority_reachable env s1"
    using reachable_step [OF assms(1)] authority_step.intros [of ?l env s] nxt by auto
  ultimately have "machine_inv False {a} (\<lambda>_. count_list (call_addrs (au_wire s)) a) s1"
    using past_sending_start [of env s1 a] a(3) wire by simp
  from authority_machine.run_keeps [OF assms(4) this] a show ?thesis
    by (auto simp: machine_inv_def core_inv_def past_sending_def)
qed

theorem withdrawn_never_sent_witness:
  "let t = ex_authority [DoStart, DoSubmit (ex_prompt ''r1''), DoWake]; s1 = snd (authority_withdraw ex_authority_env ''e1'' ''r1'' True t) in
   count_list (call_addrs (au_wire (authority_run ex_authority_env [DoLook, DoPreflight PreflightOk] s1))) 1 = 0"
proof -
  let ?t = "ex_authority [DoStart, DoSubmit (ex_prompt ''r1''), DoWake]"
  let ?m = "authority_withdraw ex_authority_env ''e1'' ''r1'' True ?t"
  have "case fst ?m of Inl e \<Rightarrow> False | Inr w \<Rightarrow> wd_recovery w \<noteq> None" by code_simp
  then obtain w where w: "?m = (Inr w, snd ?m)" "wd_recovery w \<noteq> None" by (cases ?m) (auto split: sum.splits)
  have "authority_reachable ex_authority_env ?t" by (rule ex_authority_reachable) (simp add: ex_prompt_def)
  moreover have "by_request_id (au_ledger ?t) ''r1'' = Some 1" "call_addrs (au_wire ?t) = []" by code_simp+
  moreover have "(authority_step ex_authority_env)\<^sup>*\<^sup>* (snd ?m) (authority_run ex_authority_env [DoLook, DoPreflight PreflightOk] (snd ?m))"
    by (rule routine_run) simp
  ultimately show ?thesis using withdrawn_never_sent [OF _ w] by (simp add: Let_def)
qed

text \<open>
  Claim C13: An unsettled call is a barrier. In the runs where every answer of a reconciliation reaches the row it was asked about, while
  an operation that was handed over is dispatching or unknown, it is retained and active, no other operation is, and the dispatcher
  neither preflights nor finds anything to dispatch. The code does not check the restriction: an id may be evicted and submitted again
  between the question and its answer, and a late answer then lifts the barrier of the new row.
\<close>

theorem unsettled_send_blocks:
  assumes "exactly_reachable env s" "open_sends a (au_wire s) = 1" "op_state (au_op s a) \<in> {SubDispatching, SubUnknown}"
  shows "active_row s = Some a \<and> dispatchable_head s = Inr None \<and> (\<forall>b. au_dispatcher s \<noteq> DispPreflight b)"
proof -
  have "by_key (au_ledger s) (op_key (au_op s a)) = Some a" "au_active s = Some (op_key (au_op s a))"
    using wire_invD(3) [OF exactly_reachableD(1) [OF assms(1)], of a] assms(2,3) by blast+
  moreover from this have "au_dispatcher s \<noteq> DispPreflight b" for b
    using exactly_reachableD(2) [OF assms(1)] by (auto simp: dispatcher_inv_def)
  ultimately show ?thesis by (simp add: active_row_def dispatchable_head_def split: list.split)
qed

theorem unsettled_send_blocks_witness:
  "active_row (ex_authority [DoStart, DoSubmit (ex_prompt ''r1''), DoSubmit (ex_prompt ''r2''), DoWake, DoLook, DoPreflight PreflightOk,
     DoReturn (MethodRaised ''lost'')]) = Some 1"
proof -
  let ?ls = "[DoStart, DoSubmit (ex_prompt ''r1''), DoSubmit (ex_prompt ''r2''), DoWake, DoLook, DoPreflight PreflightOk,
    DoReturn (MethodRaised ''lost'')]"
  have "open_sends 1 (au_wire (ex_authority ?ls)) = 1" "op_state (au_op (ex_authority ?ls) 1) = SubUnknown" by code_simp+
  then show ?thesis using unsettled_send_blocks [OF ex_exactly_reachable, of ?ls 1] by (simp add: ex_prompt_def)
qed

text \<open>
  The restriction is needed: when a late answer, to a question about an earlier row of the same id, rejects the row being sent, nothing
  is active any more, and if the send is then lost the row is unknown without holding the barrier.
\<close>

lemma late_answer_lifts_barrier:
  assumes "au_dispatcher s = DispSending a" "op_state (au_op s a) = SubDispatching" "au_active s = Some (op_key (au_op s a))"
    "by_key (au_ledger s) (op_key (au_op s a)) = Some a" "control_ref_key ref = op_key (au_op s a)"
    "(ref, i) \<in> set (au_reconciling s)" "rr_request_id result = i" "rr_state result = RecRejected"
  shows "let t = authority_next env (DoReturn (MethodRaised d)) (authority_next env (DoReconcileAnswer ref i result) s) in
    op_state (au_op t a) = SubUnknown \<and> au_active t = None \<and> au_wire t = au_wire s"
proof -
  let ?u = "authority_next env (DoReconcileAnswer ref i result) s"
  obtain L where L: "touch (op_key (au_op s a)) (update_row a (\<lambda>r. r\<lparr>op_buffered_completion_sequence := None\<rparr>)
      (update_row a (mark_terminal SubRejected (rr_detail result) (rr_reconciled_at result)) (au_ledger s))) = Inr L"
    using assms(4) touch_retained [of _ "op_key (au_op s a)" a] by (metis update_row_simps(2))
  have "au_dispatcher ?u = DispSending a \<and> au_active ?u = None \<and> au_wire ?u = au_wire s"
    using assms(1-8) L
    by (simp add: authority_next_def resume_reconcile_def asks_def sbind_sget drop_result_def reconcile_answer_def
        apply_reconciliation_def alter_row_def release_head_def Let_def touch_row_def sbind_def [of "smodify _"] sbind_def [of "touch_row _"]
        sbind_def [of "sbind _ _"] wake_def smodify_def op_key_def mark_terminal_def sget_def sret_def)
  then show ?thesis unfolding Let_def
    by (simp add: authority_next_def dispatcher_return_def asks_def sbind_sget dispatcher_turn_def settle_method_def
        possible_send_failure_def mark_unknown_row_def sbind_def [of "read_clock env"] read_clock_def alter_row_def
        disconnect_snapshot_def sret_def sbind_assoc)
qed

text \<open>
  Claim C14: While its row is retained, a request id belongs to its first source and payload. While the authority accepts submissions,
  submitting it again, with no expected epoch or the epoch of the bridge, answers with the state of the first submission and admits
  nothing; another source or payload is refused and changes nothing. Once the row is evicted the id is free again.
\<close>

theorem resubmission:
  assumes "authority_reachable env s" "au_accepting s" "pq_expected_bridge_epoch request \<in> {None, Some (au_epoch s)}"
    "by_request_id (au_ledger s) (pq_request_id request) = Some a" "authority_submit env request s = (r, s')"
  shows "if op_source (au_op s a) = Some (pq_source request) \<and>
            op_payload_digest (au_op s a) = Some (payload_digest env (pq_text request) (pq_assets request))
         then r = Inr (Answered (duplicate_receipt (au_epoch s) (au_op s a))) \<and> au_op s' = au_op s \<and> au_timeline s' = au_timeline s \<and>
              au_wire s' = au_wire s \<and> sl_sequence (au_ledger s') = sl_sequence (au_ledger s)
         else r = Inl (HarnessRequestConflictError
                (''request id '' @ pq_request_id request @ '' already belongs to its first source/payload'')) \<and> s' = s"
proof -
  have "by_key (au_ledger s) (op_key (au_op s a)) = Some a"
    using by_request_id_row [OF reachableD(1) [OF assms(1)] assms(4)] by simp
  then obtain L where L: "touch (op_key (au_op s a)) (au_ledger s) = Inr L" using touch_retained by blast
  have "pre_admission_receipt request d s =
      (if op_source (au_op s a) = Some (pq_source request) \<and> op_payload_digest (au_op s a) = Some d
       then (Inr (Some (duplicate_receipt (au_epoch s) (au_op s a))), s\<lparr>au_ledger := L\<rparr>)
       else (Inl (HarnessRequestConflictError
              (''request id '' @ pq_request_id request @ '' already belongs to its first source/payload'')), s))" for d
    using assms(4) L touch_rows [OF L]
    by (simp add: pre_admission_receipt_def asks_def sbind_sget raise_def slift_def sbind_def [of "touch_row _"] touch_row_def)
  then show ?thesis
    using assms(2,3,5) touch_rows [OF L]
    by (auto simp: authority_submit_def require_accepting_def require_epoch_opt_def require_epoch_def sbind_sget Let_def sret_def
        sbind_def [of "pre_admission_receipt _ _"] split: if_splits)
qed

theorem resubmission_witness:
  "fst (authority_submit ex_authority_env (ex_prompt ''r1'') (ex_authority [DoStart, DoSubmit (ex_prompt ''r1'')])) =
   Inr (Answered (duplicate_receipt ''e1'' (au_op (ex_authority [DoStart, DoSubmit (ex_prompt ''r1'')]) 1)))"
proof -
  let ?s = "ex_authority [DoStart, DoSubmit (ex_prompt ''r1'')]"
  have s: "au_accepting ?s" "by_request_id (au_ledger ?s) (pq_request_id (ex_prompt ''r1'')) = Some 1"
    "op_source (au_op ?s 1) = Some (pq_source (ex_prompt ''r1''))"
    "op_payload_digest (au_op ?s 1) = Some (payload_digest ex_authority_env (pq_text (ex_prompt ''r1'')) (pq_assets (ex_prompt ''r1'')))"
    "au_epoch ?s = ''e1''" by code_simp+
  have "authority_reachable ex_authority_env ?s" by (rule ex_authority_reachable) (simp add: ex_prompt_def)
  from resubmission [OF this s(1) _ s(2)] show ?thesis
    using s by (cases "authority_submit ex_authority_env (ex_prompt ''r1'') ?s") (simp add: ex_prompt_def)
qed

text \<open>
  The ledger is bounded and forgets nothing unsettled: it never holds more rows than its limit, and a submission that is queued is
  retained under its key, however many others came and were evicted.
\<close>

theorem ledger_bounded:
  assumes "authority_reachable env s"
  shows "int (length (sl_records (au_ledger s))) \<le> sl_limit (au_ledger s) \<and>
    (\<forall>a\<in>{1..sl_sequence (au_ledger s)}. op_state (au_op s a) = SubQueued \<longrightarrow> by_key (au_ledger s) (op_key (au_op s a)) = Some a)"
  using reachableD(1) [OF assms] wire_invD(4) [OF reachableD(3) [OF assms]] by (simp add: ledger_inv_def minted_def)

theorem ledger_bounded_witness:
  "length (sl_records (au_ledger (ex_authority [DoStart, DoSubmit (ex_prompt ''r1''), DoSubmit (ex_prompt ''r2'')]))) \<le> 4"
proof -
  let ?ls = "[DoStart, DoSubmit (ex_prompt ''r1''), DoSubmit (ex_prompt ''r2'')]"
  have "sl_limit (au_ledger (ex_authority ?ls)) = 4" by code_simp
  then show ?thesis using ledger_bounded [OF ex_authority_reachable, of ?ls] by (simp add: ex_prompt_def)
qed

text \<open>
  Claim C15: The pages of the timeline are complete. A reader that follows the cursor while pages are truncated, and meanwhile no row is
  admitted or evicted, sees every retained row after its starting point exactly once, in the order of admission, whatever the page limit,
  the byte budget and the sizes of the items.
\<close>

theorem timeline_pages_complete:
  assumes "authority_reachable env s" "1 \<le> limit" "1 \<le> budget"
  shows "read_timeline json_bytes limit budget (Suc (length (sl_records (au_ledger s)))) after (au_ledger s) =
    map op_timeline_item (filter (\<lambda>r. after < rf_sequence (op_ref r)) (retained_rows (au_ledger s)))"
proof (rule read_timeline_rows [OF reachableD(1) [OF assms(1)] assms(2,3)])
  have "length (filter (\<lambda>r. after < rf_sequence (op_ref r)) (retained_rows (au_ledger s))) \<le> length (retained_rows (au_ledger s))" by simp
  then show "length (filter (\<lambda>r. after < rf_sequence (op_ref r)) (retained_rows (au_ledger s))) < Suc (length (sl_records (au_ledger s)))"
    by (simp add: retained_rows_def)
qed

theorem timeline_pages_complete_witness:
  "map ti_operation_id (read_timeline (\<lambda>x. 100) 1 50 3 0 (au_ledger (ex_authority [DoStart, DoSubmit (ex_prompt ''r1''), DoSubmit (ex_prompt ''r2'')]))) =
   [''r1'', ''r2'']"
proof -
  let ?ls = "[DoStart, DoSubmit (ex_prompt ''r1''), DoSubmit (ex_prompt ''r2'')]"
  have "length (sl_records (au_ledger (ex_authority ?ls))) = 2" by code_simp
  moreover have "map (rf_operation_id \<circ> op_ref) (filter (\<lambda>r. 0 < rf_sequence (op_ref r)) (retained_rows (au_ledger (ex_authority ?ls)))) =
      [''r1'', ''r2'']" by code_simp
  ultimately show ?thesis
    using timeline_pages_complete [OF ex_authority_reachable, of ?ls 1 50 "\<lambda>x. 100" 0]
    by (simp add: ex_prompt_def numeral_3_eq_3 comp_def op_timeline_item_def)
qed

text \<open>
  Claim C16: A submission under a non-empty id is answered under it: every receipt the authority gives at once, for a new prompt, a
  repeated one, a full ledger or an unsupported harness, names the id submitted and the epoch of the bridge.
\<close>

theorem receipt_echoes_request:
  assumes "authority_reachable env s" "pq_request_id request \<noteq> ''''" "authority_submit env request s = (Inr (Answered receipt), s')"
  shows "sr_request_id receipt = pq_request_id request \<and> sr_bridge_epoch receipt = Some (au_epoch s)"
proof -
  have "core_inv False {} (\<lambda>_. 0) None s \<and> au_epoch s = au_epoch s" using reachable_inv [OF assms(1)] by (simp add: machine_inv_def)
  from tripleD [OF submit_echoes [where env = env, OF assms(2)] this] assms(3) show ?thesis by simp
qed

theorem receipt_echoes_request_witness:
  "\<exists>receipt. fst (authority_submit ex_authority_env (ex_prompt ''r2'') (ex_authority [DoStart, DoSubmit (ex_prompt ''r1'')])) =
     Inr (Answered receipt) \<and> sr_request_id receipt = ''r2'' \<and> sr_bridge_epoch receipt = Some ''e1''"
proof -
  let ?s = "ex_authority [DoStart, DoSubmit (ex_prompt ''r1'')]"
  let ?m = "authority_submit ex_authority_env (ex_prompt ''r2'') ?s"
  have "case fst ?m of Inr (Answered receipt) \<Rightarrow> True | _ \<Rightarrow> False" by code_simp
  then obtain receipt where r: "?m = (Inr (Answered receipt), snd ?m)" by (cases ?m) (auto split: sum.splits submission_reply.splits)
  have "authority_reachable ex_authority_env ?s" by (rule ex_authority_reachable) (simp add: ex_prompt_def)
  from receipt_echoes_request [OF this _ r] have "sr_request_id receipt = ''r2''" "sr_bridge_epoch receipt = Some (au_epoch ?s)"
    by (simp_all add: ex_prompt_def)
  moreover have "au_epoch ?s = ''e1''" by code_simp
  ultimately show ?thesis using r by (intro exI [of _ receipt]) (simp add: prod_eq_iff)
qed

text \<open>
  Claim C17: A preflight that fails with an exception of its own ends the dispatcher for good: the task dies with it, and although the
  failure does not stop the authority, which accepts submissions afterwards exactly if it did before, nothing is ever sent again,
  whatever callers that name their prompts by a non-empty id, events and adapter do.
\<close>

theorem failed_preflight_is_final:
  assumes "authority_reachable env s" "au_dispatcher s = DispPreflight a"
    "(authority_step env)\<^sup>*\<^sup>* (authority_next env (DoPreflight (PreflightRaised d)) s) s'"
  shows "au_accepting (authority_next env (DoPreflight (PreflightRaised d)) s) = au_accepting s \<and>
    au_dispatcher s' = DispDead \<and> au_wire s' = au_wire s"
proof -
  let ?t = "authority_next env (DoPreflight (PreflightRaised d)) s"
  have t: "au_dispatcher ?t = DispDead" "au_wire ?t = au_wire s" "au_accepting ?t = au_accepting s"
    using assms(2) by (simp_all add: authority_next_def dispatcher_preflight_def asks_def sbind_sget dispatcher_turn_def raise_def slift_def)
  have "machine_inv False {} (\<lambda>_. 0) ?t"
    using machine_step [OF authority_step.intros [of "DoPreflight (PreflightRaised d)" env s] reachable_inv [OF assms(1)]] by simp
  from dead_run [OF assms(3) this t(1)] t(2,3) show ?thesis by simp
qed

theorem failed_preflight_is_final_witness:
  "au_wire (ex_authority [DoStart, DoSubmit (ex_prompt ''r1''), DoWake, DoLook, DoPreflight (PreflightRaised ''no state''),
     DoSubmit (ex_prompt ''r2''), DoWake, DoLook]) = [] \<and>
   au_accepting (ex_authority [DoStart, DoSubmit (ex_prompt ''r1''), DoWake, DoLook, DoPreflight (PreflightRaised ''no state''),
     DoSubmit (ex_prompt ''r2''), DoWake, DoLook])"
proof
  let ?ls = "[DoStart, DoSubmit (ex_prompt ''r1''), DoWake, DoLook]"
  let ?rest = "[DoSubmit (ex_prompt ''r2''), DoWake, DoLook]"
  have s: "authority_reachable ex_authority_env (ex_authority ?ls)" by (rule ex_authority_reachable) (simp add: ex_prompt_def)
  have "au_dispatcher (ex_authority ?ls) = DispPreflight 1" "au_wire (ex_authority ?ls) = []" by code_simp+
  moreover have "(authority_step ex_authority_env)\<^sup>*\<^sup>* t (authority_run ex_authority_env ?rest t)" for t
    by (rule routine_run) (simp add: ex_prompt_def)
  ultimately show "au_wire (ex_authority [DoStart, DoSubmit (ex_prompt ''r1''), DoWake, DoLook, DoPreflight (PreflightRaised ''no state''),
     DoSubmit (ex_prompt ''r2''), DoWake, DoLook]) = []"
    using failed_preflight_is_final [OF s, of 1 "''no state''"] by (simp add: ex_authority_def authority_run_def)
qed code_simp

text \<open>
  Claim C18: A withdrawal is not always final. When a prompt is withdrawn while the adapter is asked whether it can take it, and the
  adapter then reports that it may have sent something, the withdrawn row becomes unknown and active again.
\<close>

theorem withdrawn_row_revived:
  assumes "au_dispatcher s = DispPreflight a" "op_state (au_op s a) = SubWithdrawn"
  shows "op_state (au_op (authority_next env (DoPreflight (PreflightDisconnected d True c)) s) a) = SubUnknown \<and>
    au_active (authority_next env (DoPreflight (PreflightDisconnected d True c)) s) = Some (op_key (au_op s a))"
  using assms
  by (simp add: authority_next_def dispatcher_preflight_def asks_def sbind_sget dispatcher_turn_def unknown_after_preflight_claim_def
      mark_unknown_row_def sbind_def [of "read_clock env"] read_clock_def alter_row_def disconnect_snapshot_def sret_def sbind_assoc)

theorem withdrawn_row_revived_witness:
  "op_state (au_op (ex_authority [DoStart, DoSubmit (ex_prompt ''r1''), DoWake, DoLook, DoWithdraw ''e1'' ''r1'' True,
     DoPreflight (PreflightDisconnected ''lost'' True None)]) 1) = SubUnknown"
proof -
  let ?s = "ex_authority [DoStart, DoSubmit (ex_prompt ''r1''), DoWake, DoLook, DoWithdraw ''e1'' ''r1'' True]"
  have "au_dispatcher ?s = DispPreflight 1" "op_state (au_op ?s 1) = SubWithdrawn" by code_simp+
  from withdrawn_row_revived [OF this, of ex_authority_env "''lost''" None] show ?thesis
    by (simp add: ex_authority_def authority_run_def)
qed

end
