(* ===== verification/Spec2Isabelle.thy ===== *)
theory Spec2Isabelle
  imports Gate_Properties Operation_Properties Tool_Properties Inbox_Properties River_Properties Store_Properties
    Observer_Properties Projection_Properties Ledger_Properties Attention_Properties Delivery_Properties Catalog_Properties Submission_Properties
begin

text \<open>
  \<^bold>\<open>A verification library for the control plane of Agents Remember.\<close>

  \<^emph>\<open>The program.\<close> Agents Remember (package \<^verbatim>\<open>src/mcp/src/agents_remember\<close>) runs coding agents under developer
  control. Two daemons, the MCP server and the dashboard, share one directory of append-only JSONL logs. An agent that wants
  to do something a human should see raises a \<^emph>\<open>gate\<close>; a human or a delegated orchestrator decides it; the mutating tool
  then spends the approval, once. Messages between agents and the operator are rows of the \<^emph>\<open>operator inbox\<close>, delivered with
  a backoff to the seat they name and closed by exactly one terminal mark. Seats are rows of the \<^emph>\<open>terminal catalog\<close>; what is
  sent to the agent in a seat goes through the \<^emph>\<open>submission authority\<close> of its bridge, one operation at a time. Long operations
  (closeout, integrate) are \<^emph>\<open>durable records\<close> a worker advances. The \<^emph>\<open>observer\<close> keeps the lifecycle a session is in, emits
  events, and folds them into what the dashboard shows. The development models this control plane, its tool layer, the write side
  of the observer and the folds of its read side.

  \<^emph>\<open>How code becomes HOL.\<close> A pydantic model or dataclass is a \<^theory_text>\<open>record\<close>, an enumeration a \<^theory_text>\<open>datatype\<close>, a raised
  exception the left of \<open>res\<close> (\<open>py_error + 'a\<close>), a function with side effects a \<open>prog\<close>: a state goes in, a result and the
  state come out, and the state survives a raise (\<^verbatim>\<open>Prelude\<close>). A dict is an association list in insertion order with
  \<open>dget\<close> and \<open>dput\<close>. A log is the list of its lines, or \<^verbatim>\<open>None\<close> when the file does not exist; a line is a record that
  parses, one that does not, or blank (\<^verbatim>\<open>Durable_Store\<close>). Objects that several holders mutate live in a heap of addresses
  (\<^verbatim>\<open>Submission_Ledger\<close>). A coroutine is one step for each stretch between two of its \<^verbatim>\<open>await\<close> points, and a run is any
  interleaving of such steps. Wall-clock readings, minted ids, the ISO text of a date, hashes, the file system, the operating
  system's file locks, git, processes and the adapters of external agents are arguments: the code gets them from outside.

  \<^emph>\<open>Which theory models what\<close> (paths below \<^verbatim>\<open>src/mcp/src/agents_remember\<close>):
  \<^item> \<^verbatim>\<open>Prelude\<close>, \<^verbatim>\<open>Py_Time\<close>, \<^verbatim>\<open>Py_Text\<close>: results, programs, dicts, JSON values, folds by key, stable maxima, the invariant
    locale \<open>step_invariant\<close>; dates, durations and \<^verbatim>\<open>controlplane/stamps.py\<close>; Python's string methods and \<^verbatim>\<open>json.dumps\<close>.
  \<^item> \<^verbatim>\<open>Checkout\<close>: \<^verbatim>\<open>kernel/primitives/checkout_coordination.py\<close>, which process may write where.
  \<^item> \<^verbatim>\<open>Durable_Store\<close>, \<^verbatim>\<open>Store_Lock\<close>, \<^verbatim>\<open>Store_Access\<close>: \<^verbatim>\<open>controlplane/durable_store.py\<close>: ownership, the strict and tolerant
    readings, append, rewrite, migration; the re-entrant lock as a machine over the threads of all processes, with the moment at
    which a thread has both the mutex and the file lock as one step; one store call under its lock.
    The locale \<open>folded_log\<close> is the contract of a log; both readings are interpreted.
  \<^item> \<^verbatim>\<open>Gate_Vocab\<close>: \<^verbatim>\<open>kernel/primitives/gate_vocab.py\<close> and \<^verbatim>\<open>gate_policy.py\<close>, kinds, delegation rules, their parsing.
  \<^item> \<^verbatim>\<open>Gate_Records\<close>, \<^verbatim>\<open>Enforcement\<close>, \<^verbatim>\<open>Retention\<close>: \<^verbatim>\<open>controlplane/records.py\<close>, \<^verbatim>\<open>gate_policy.py\<close>, \<^verbatim>\<open>enforcement.py\<close> and
    \<^verbatim>\<open>interaction_retention.py\<close>: snapshots, deciding, attribution, what the gates permit, what a compaction keeps.
  \<^item> \<^verbatim>\<open>Gate_Store\<close>, \<^verbatim>\<open>Gate_Authority\<close>, \<^verbatim>\<open>Claim_Race\<close>: \<^verbatim>\<open>controlplane/store.py\<close>: the store and its refinement of a map, the spending
    of an approval along any run of the store, and the race of several claimers at the grain of lock, read and append.
  \<^item> \<^verbatim>\<open>Gate_Decisions\<close>, \<^verbatim>\<open>Gate_Tools\<close>, \<^verbatim>\<open>Handover\<close>: \<^verbatim>\<open>controlplane/gate_decisions.py\<close>, \<^verbatim>\<open>application/gate_tools.py\<close>, and the
    hand-over guard of \<^verbatim>\<open>worktrees/modules/integrate.py\<close>.
  \<^item> \<^verbatim>\<open>Operation_Store\<close>, \<^verbatim>\<open>Operation_Control\<close>, \<^verbatim>\<open>Operation_Worker\<close>: \<^verbatim>\<open>models/lifecycles/operation.py\<close>,
    \<^verbatim>\<open>worktrees/lifecycle_operation_store.py\<close>, \<^verbatim>\<open>lifecycle_operations.py\<close> and \<^verbatim>\<open>application/lifecycle_operation_worker.py\<close>: the record,
    its checked transitions, starting, recovering, cancelling, and the worker, as a machine over processes. \<open>write_step\<close> is any
    transform through the checked transitions; \<open>code_step\<close> adds recovery and the replacement of a terminal record.
  \<^item> \<^verbatim>\<open>Submission_Ledger\<close>, \<^verbatim>\<open>Submission_Authority\<close>, \<^verbatim>\<open>Submission_Machine\<close>: \<^verbatim>\<open>serving/harness_submission_ledger.py\<close> and
    \<^verbatim>\<open>harness_submission_authority.py\<close> with the types of \<^verbatim>\<open>models/conversations/control_wire.py\<close> and
    \<^verbatim>\<open>serving/harness_control_models.py\<close>: the rows, the queue, every method, the dispatcher task, and all of it as labelled steps
    with a calculus of assertions. \<^verbatim>\<open>Submission_Invariant\<close>, \<^verbatim>\<open>Submission_Clients\<close> and \<^verbatim>\<open>Submission_Dispatcher\<close> prove that every step
    keeps the invariant.
  \<^item> \<^verbatim>\<open>Inbox_Backoff\<close>, \<^verbatim>\<open>Inbox_Records\<close>, \<^verbatim>\<open>Inbox_Store\<close>, \<^verbatim>\<open>Inbox_Transitions\<close>: \<^verbatim>\<open>kernel/primitives/inbox_backoff.py\<close>,
    \<^verbatim>\<open>models/operator_inbox.py\<close> and \<^verbatim>\<open>controlplane/operator_inbox_records.py\<close>, \<^verbatim>\<open>_store.py\<close>, \<^verbatim>\<open>_transitions.py\<close>. The locale
    \<open>terminal_mark\<close> is the contract of the closing transitions, interpreted for each of them.
  \<^item> \<^verbatim>\<open>Inbox_Delivery\<close>: \<^verbatim>\<open>serving/inbox_delivery.py\<close>, \<^verbatim>\<open>dispatch_brief.py\<close> and the readiness checks: who a row is for, what is
    refused before the wire, submission, reconciliation, and what an attempt records. In a run (\<open>delivery_step\<close>) a delivery is one
    step, whether it returns or raises.
  \<^item> \<^verbatim>\<open>Catalog_Entry\<close>, \<^verbatim>\<open>Catalog_Codec\<close>, \<^verbatim>\<open>Catalog_Transitions\<close>, \<^verbatim>\<open>Catalog_Store\<close>, \<^verbatim>\<open>Catalog_Refinement\<close>, \<^verbatim>\<open>Catalog_Agreement\<close>:
    \<^verbatim>\<open>models/terminal_catalog.py\<close>, \<^verbatim>\<open>serving/terminal_catalog.py\<close>, \<^verbatim>\<open>seat_turn_truth.py\<close>, \<^verbatim>\<open>retire.py\<close>: the row with its JSON codec
    and its transitions, the store with its batches, and its refinement of a map.
  \<^item> \<^verbatim>\<open>Task_Ref\<close>, \<^verbatim>\<open>Expectation_Rows\<close>, \<^verbatim>\<open>Notifier_Signals\<close>, \<^verbatim>\<open>Nudges\<close>, \<^verbatim>\<open>Dismissals\<close>: \<^verbatim>\<open>models/task_document_ref.py\<close> and the
    smaller stores of \<^verbatim>\<open>controlplane/\<close>.
  \<^item> \<^verbatim>\<open>Signal_Routing\<close>, \<^verbatim>\<open>Artifacts\<close>: \<^verbatim>\<open>controlplane/seats.py\<close>, \<^verbatim>\<open>signal_routing.py\<close>, \<^verbatim>\<open>orchestration_artifacts.py\<close>.
  \<^item> \<^verbatim>\<open>Event_Store\<close>, \<^verbatim>\<open>Lifecycle\<close>, \<^verbatim>\<open>Ulid\<close>: \<^verbatim>\<open>observer/events.py\<close>, \<^verbatim>\<open>store.py\<close>, \<^verbatim>\<open>served_store.py\<close>, \<^verbatim>\<open>lifecycle_state.py\<close>,
    \<^verbatim>\<open>save_gate.py\<close>, \<^verbatim>\<open>ambient.py\<close>, \<^verbatim>\<open>ulid.py\<close>.
  \<^item> \<^verbatim>\<open>Event_River\<close>: \<^verbatim>\<open>observer/event_retention.py\<close> and \<^verbatim>\<open>serving/events.py\<close>: cursors, retention, compaction, the tail reader, the
    backlog of a connection, which prunes and reads files that others write meanwhile (\<open>stream_world\<close>).
  \<^item> \<^verbatim>\<open>Projection\<close>, \<^verbatim>\<open>Projection_Agreement\<close>, \<^verbatim>\<open>Attention\<close>, \<^verbatim>\<open>Operator_Actions\<close>: \<^verbatim>\<open>observer/projection.py\<close>, \<^verbatim>\<open>reducer.py\<close> and
    \<^verbatim>\<open>reducer_impl/\<close>, \<^verbatim>\<open>serving/actions.py\<close>, \<^verbatim>\<open>_app_routes.py\<close> and \<^verbatim>\<open>projections/projection_store.py\<close>: the fold of a log into what
    the dashboard shows, its agreement with the session, the attention queue, the operator's actions.
  \<^item> \<^verbatim>\<open>Memory_Ledger\<close>: \<^verbatim>\<open>kernel/memory_ledger.py\<close>, the text file that maps code commits to memory commits.

  \<^emph>\<open>How they interact.\<close> Every store method checks the writer and the target, takes the log's lock and then reads, folds and
  appends or rewrites. The gate tools call the decision recorder, the gate store and the inbox; a decision that cancels a gate
  removes it and settles its inbox rows and expectations; the mutating tools ask the enforcement whether a gate permits them and
  claim the approval; the gate tools also emit events through the ambient lifecycle, which supplies the caller's identity. The
  delivery reads the inbox and the catalog, asks the signal routing for the seat, submits to the authority of its bridge, and
  records the attempt in the inbox; the projection reads gates, events, dismissals and the inbox.

  \<^emph>\<open>What is proved.\<close>
  \<^item> \<^verbatim>\<open>Gate_Properties\<close>: an approval is spent at most once along any run of the store and under any interleaving of concurrent
    claimers, whose race refines atomic claims; exactly when a gate permits; a delegated decision stays inside the policy; the
    store refines a finite map from ids to gates; the invariant of the logs; who may decide what; what cancelling removes.
  \<^item> \<^verbatim>\<open>Operation_Properties\<close>: the record of an operation only moves forward, one starter recovers an attempt, and a cancellation
    that takes effect stops the worker for as long as the record is not restarted or replaced.
  \<^item> \<^verbatim>\<open>Submission_Properties\<close>: an operation is handed over at most once and in the order of admission; a withdrawn submission is
    never sent; an unsettled one is a barrier; a repeated request id is answered and admits nothing; receipts name their request;
    the ledger is bounded; the pages of the timeline are complete; and two ways in which the code goes wrong when a preflight fails.
  \<^item> \<^verbatim>\<open>Tool_Properties\<close>: raising, waiting and responding: a bounded wait returns, a decided gate ends it, what it reports was
    seen; the hand-over guard, and a decision it forgets.
  \<^item> \<^verbatim>\<open>Inbox_Properties\<close>: a closed row stays closed and the first closing mark wins, whatever is written later; a batch equals
    the sequence of its transitions; no delivery before its time; rebound rows; compaction keeps its bound.
  \<^item> \<^verbatim>\<open>Delivery_Properties\<close>: a row is submitted once, lands only at a turn boundary and goes to the seat the routing names; a row
    the adapter queued never lands.
  \<^item> \<^verbatim>\<open>Catalog_Properties\<close>: what the catalog writes it reads back; the store refines a map and a batch equals its operations; a
    terminated row stays terminated and gets no mail; a seat exits only on consecutive failures; a row written from an old read
    undoes a retirement.
  \<^item> \<^verbatim>\<open>Attention_Properties\<close>: a dismissal holds until a newer signal; an integration is accepted only when it is safe.
  \<^item> \<^verbatim>\<open>River_Properties\<close>: compaction is invisible to cursors, a tail resumes exactly, the backlog of a connection ends and is
    complete.
  \<^item> \<^verbatim>\<open>Projection_Properties\<close>: the dashboard shows the state the session is in, every worktree, and an exact token gauge.
  \<^item> \<^verbatim>\<open>Ledger_Properties\<close>: the memory ledger round-trips, unless a metadata field is empty, and a mapping put in front of it is found.
  \<^item> \<^verbatim>\<open>Store_Properties\<close>: mutual exclusion of the lock; reading back; all-or-nothing migration; confinement of writes and of task
    paths; expectations settle once; compaction is sound and ends no cooldown; the nudge rate limit.
  \<^item> \<^verbatim>\<open>Observer_Properties\<close>: the walk to the sprint document ends and is exact; occupants are never guessed; ULIDs order by time;
    the served ledger is a write-through cache; the ambient invariant; the save gate.

  \<^emph>\<open>Bounds and loops.\<close> The blocking wait of a gate is a recursion on the remaining polls: the deadline bounds their
  number, and \<^verbatim>\<open>Tool_Properties\<close> shows the bound is enough for the wait to return. The walk up the task hierarchy and the backlog
  of a connection are \<^theory_text>\<open>partial_function\<close>s, because over an infinite hierarchy, or a log that grows as fast as it is read, the
  code need not return; both are shown to return where they can. The eviction loop of the submission ledger drops a row each
  round, and the reader of its timeline needs at most one page more than there are rows. Python's integers are \<open>int\<close> or \<open>nat\<close>;
  float seconds are rationals, so nothing is said of rounding in \<^verbatim>\<open>float\<close>; a character is one of 256 codes, so case mapping is
  that of ASCII.

  \<^emph>\<open>What the runs assume.\<close> Callers of the submission authority name a prompt by a non-empty id, which the IPC layer enforces;
  otherwise \<open>authority_step\<close> has every interleaving, also the ones in which an answer to a reconciliation meets another row than the
  one asked about, since the code looks the row up by its key again and does not compare it. Only the barrier of an unsettled
  submission (C13) is stated for runs without such answers (\<open>exact_step\<close>), because with them it fails; the reader of the timeline is
  stated for a ledger that does not change between its pages. The deliveries of \<open>delivery_step\<close> read the row as the log has it and
  can record their attempt (\<open>attempt_recordable\<close>). The session of \<open>session_is_shown\<close> mints no id twice, and the logs it finds fold; they
  may hold corrections, but none of an event with an id of its mint or of a heartbeat (\<open>logs_fold\<close>).

  \<^emph>\<open>What is not modelled.\<close> Disk errors other than a missing file or a lock that does not exclude; pydantic's parsing of JSON text
  (a line either parses to the record or does not); the migration of the first catalog schema (an argument); the endless loop
  of a tail after its backlog; the engine processes and the panels of the observer that only pass nodes through. Of \<^verbatim>\<open>serving\<close> the
  HTTP and web-socket layer, the terminal processes, the vendor adapters and the conversation projectors are left out: they are
  translations of the protocols of external programs. The other packages are left out too: \<^verbatim>\<open>providers\<close> (containers and external
  index services), \<^verbatim>\<open>worktrees\<close> beyond the operations and the hand-over guard and \<^verbatim>\<open>memory\<close> (sequences of git commands),
  \<^verbatim>\<open>memory_quality\<close> and \<^verbatim>\<open>code_quality\<close> (document and source linters), \<^verbatim>\<open>install\<close>, \<^verbatim>\<open>cli\<close>, \<^verbatim>\<open>mcp\<close> (registration glue),
  \<^verbatim>\<open>tasks\<close> (rendering and loading of task documents), \<^verbatim>\<open>benchmarks\<close>, and the TypeScript dashboard.
\<close>

end
